(* ===== verification/GoPrelude.thy ===== *)
theory GoPrelude
  imports Main "HOL-Library.Word" "HOL-Library.Code_Target_Nat"
begin

text \<open>
  What every component of the development shares: Go's fixed-width signed integers with
  their wrap-around written out, truncating division, the Connect error values the handlers
  return, the sequencing of fallible steps, and the lemma collections the component
  theories feed.

  A Go \<open>int64\<close> (and \<open>int\<close>, which is 64 bits wide on every platform the bot is built for)
  is an \<open>int\<close> here; every arithmetic operation that can leave the range is followed by
  \<open>i64\<close>, so the wrapped value is the model's value. \<open>i32\<close> does the same for \<open>int32\<close>.
\<close>

named_theorems go_defs \<open>small definitions that automation may always unfold\<close>
named_theorems keeps \<open>preservation lemmas: one operation keeps one invariant\<close>

section \<open>Fixed-width integers\<close>

definition max_i64 :: int where
  "max_i64 = 9223372036854775807"

definition i64 :: "int \<Rightarrow> int" where
  "i64 x = (x + 9223372036854775808) mod 18446744073709551616 - 9223372036854775808"

definition i32 :: "int \<Rightarrow> int" where
  "i32 x = (x + 2147483648) mod 4294967296 - 2147483648"

lemma i64_id [simp]: "- max_i64 - 1 \<le> x \<Longrightarrow> x \<le> max_i64 \<Longrightarrow> i64 x = x"
  by (simp add: i64_def max_i64_def)

lemma i32_id [simp]: "- 2147483648 \<le> x \<Longrightarrow> x \<le> 2147483647 \<Longrightarrow> i32 x = x"
  by (simp add: i32_def)

lemma i64_range: "- max_i64 - 1 \<le> i64 x" "i64 x \<le> max_i64"
proof -
  have "0 \<le> (x + 9223372036854775808) mod 18446744073709551616"
    and "(x + 9223372036854775808) mod 18446744073709551616 < 18446744073709551616"
    by simp_all
  then show "- max_i64 - 1 \<le> i64 x" and "i64 x \<le> max_i64"
    by (simp_all add: i64_def max_i64_def)
qed

lemma i64_over:
  assumes "max_i64 < x" and "x \<le> 3 * max_i64"
  shows "i64 x = x - 18446744073709551616"
proof -
  have "(x + 9223372036854775808) mod 18446744073709551616
      = (x + 9223372036854775808 - 18446744073709551616) mod 18446744073709551616"
    by (rule minus_mod_self2 [symmetric])
  also have "\<dots> = x + 9223372036854775808 - 18446744073709551616"
    using assms by (intro mod_pos_pos_trivial) (simp_all add: max_i64_def)
  finally show ?thesis by (simp add: i64_def)
qed

text \<open>Wrapping intermediate results changes nothing once the final result is wrapped.\<close>

lemma i64_mod: "i64 x mod 18446744073709551616 = x mod 18446744073709551616"
  unfolding i64_def mod_diff_left_eq by (simp only: add_diff_cancel_right')

lemma i64_cong: "x mod 18446744073709551616 = y mod 18446744073709551616 \<Longrightarrow> i64 x = i64 y"
  unfolding i64_def mod_add_left_eq [symmetric, of x] mod_add_left_eq [symmetric, of y]
  by (simp only:)

lemma i64_add_left: "i64 (i64 x + y) = i64 (x + y)"
  by (rule i64_cong) (metis i64_mod mod_add_left_eq)

lemma i64_mult_left: "i64 (i64 x * y) = i64 (x * y)"
  by (rule i64_cong) (metis i64_mod mod_mult_left_eq)

text \<open>Go's \<open>/\<close> and \<open>%\<close> on signed integers truncate towards zero.\<close>

definition go_div :: "int \<Rightarrow> int \<Rightarrow> int" where
  "go_div a b = sgn a * sgn b * (\<bar>a\<bar> div \<bar>b\<bar>)"

lemma go_div_nonneg [simp]: "0 \<le> a \<Longrightarrow> 0 < b \<Longrightarrow> go_div a b = a div b"
  by (cases "a = 0") (simp_all add: go_div_def)

lemma le_div_iff:
  fixes a b q :: int
  assumes "0 < b"
  shows "q \<le> a div b \<longleftrightarrow> q * b \<le> a"
proof
  assume "q \<le> a div b"
  then have "q * b \<le> a div b * b" using assms by simp
  also have "\<dots> = a - a mod b" by (rule div_mult_mod_eq [of a b, THEN eq_diff_eq [THEN iffD2]])
  also have "\<dots> \<le> a" using assms by simp
  finally show "q * b \<le> a" .
next
  assume "q * b \<le> a"
  then have "q * b div b \<le> a div b" using assms by (rule zdiv_mono1)
  then show "q \<le> a div b" using assms by simp
qed

section \<open>Instants and durations\<close>

text \<open>
  A \<open>time.Time\<close> is the number of nanoseconds since the Unix epoch, as an unbounded \<open>int\<close>
  (Go keeps 64 bits of seconds); a \<open>time.Duration\<close> is an \<open>int64\<close> of nanoseconds.
  \<open>time_sub\<close> is \<open>Time.Sub\<close>, which saturates.
\<close>

type_synonym instant = int
type_synonym duration = int

definition Second :: duration where "Second = 1000000000"
definition Minute :: duration where "Minute = 60000000000"
definition Hour :: duration where "Hour = 3600000000000"

lemmas time_units = Second_def Minute_def Hour_def

definition time_sub :: "instant \<Rightarrow> instant \<Rightarrow> duration" where
  "time_sub a b = (if max_i64 < a - b then max_i64
     else if a - b < - max_i64 - 1 then - max_i64 - 1 else a - b)"

lemma time_sub_less: "- max_i64 - 1 < d \<Longrightarrow> d \<le> max_i64 \<Longrightarrow> time_sub a b < d \<longleftrightarrow> a - b < d"
  by (auto simp: time_sub_def)

section \<open>Errors and fallible steps\<close>

text \<open>
  The Connect status codes the code constructs (\<open>connect.NewError\<close>), with the message that
  travels to the caller. Handlers return a sum: \<open>Inl\<close> an error, \<open>Inr\<close> the response.
\<close>

datatype code =
    InvalidArgument | FailedPrecondition | PermissionDenied | NotFound | AlreadyExists
  | ResourceExhausted | Unimplemented | Unavailable | Internal | Unknown | Canceled
  | DeadlineExceeded

type_synonym rpc_error = "code \<times> string"
type_synonym 'a rpc = "rpc_error + 'a"

definition and_then :: "'e + 'a \<Rightarrow> ('a \<Rightarrow> 'e + 'b) \<Rightarrow> 'e + 'b" where
  "and_then r f = (case r of Inl e \<Rightarrow> Inl e | Inr x \<Rightarrow> f x)"

lemma and_then_simps [simp]:
  "and_then (Inl e) f = Inl e"
  "and_then (Inr x) f = f x"
  by (simp_all add: and_then_def)

lemma and_then_Inr [simp]: "and_then r f = Inr y \<longleftrightarrow> (\<exists>x. r = Inr x \<and> f x = Inr y)"
  by (cases r) simp_all

definition guard_that :: "bool \<Rightarrow> 'e \<Rightarrow> 'e + unit" where
  "guard_that b e = (if b then Inr () else Inl e)"

lemma guard_that_simps [simp]:
  "guard_that True e = Inr ()"
  "guard_that False e = Inl e"
  "guard_that b e = Inr u \<longleftrightarrow> b"
  "guard_that b e = Inl e' \<longleftrightarrow> \<not> b \<and> e = e'"
  by (auto simp: guard_that_def)

text \<open>A step that may write, run after checks that may fail: their error leaves the state alone.\<close>

definition checked :: "'a rpc \<Rightarrow> ('a \<Rightarrow> 'b rpc \<times> 'd) \<Rightarrow> 'd \<Rightarrow> 'b rpc \<times> 'd" where
  "checked r f s = (case r of Inl err \<Rightarrow> (Inl err, s) | Inr x \<Rightarrow> f x)"

lemma checked_simps [simp]:
  "checked (Inl err) f s = (Inl err, s)"
  "checked (Inr x) f s = f x"
  by (simp_all add: checked_def)

section \<open>Lists and maps\<close>

lemma Inr_map_sum: "Inr y = map_sum id f x \<longleftrightarrow> (\<exists>z. x = Inr z \<and> y = f z)"
  by (cases x) auto

lemma map_prod_id_eq: "map_prod f id p = (r, s') \<longleftrightarrow> (\<exists>x. p = (x, s') \<and> r = f x)"
  by (cases p) auto

lemma takeWhile_append_stop:
  "(\<And>x. x \<in> set xs \<Longrightarrow> P x) \<Longrightarrow> \<not> P y \<Longrightarrow> takeWhile P (xs @ y # ys) = xs"
  by (induction xs) auto

lemma dropWhile_append_stop:
  "(\<And>x. x \<in> set xs \<Longrightarrow> P x) \<Longrightarrow> \<not> P y \<Longrightarrow> dropWhile P (xs @ y # ys) = y # ys"
  by (induction xs) auto

lemma set_takeWhile_all: "x \<in> set (takeWhile P xs) \<Longrightarrow> P x"
  by (rule conjunct2[OF set_takeWhileD])

lemma dropWhile_Cons_not: "dropWhile P xs = y # ys \<Longrightarrow> \<not> P y"
  by (metis dropWhile_eq_Cons_conv)

lemma dropWhile_Cons_shorter: "dropWhile P xs = y # ys \<Longrightarrow> length ys < length xs"
  by (metis length_Cons length_dropWhile_le less_eq_Suc_le)

lemma find_SomeD: "find P xs = Some x \<Longrightarrow> x \<in> set xs \<and> P x"
  by (induction xs) (auto split: if_splits)

lemma find_map: "find P (map g xs) = map_option g (find (\<lambda>x. P (g x)) xs)"
  by (induction xs) auto

lemma find_append: "find P (xs @ ys) = (case find P xs of None \<Rightarrow> find P ys | Some x \<Rightarrow> Some x)"
  by (induction xs) auto

lemma find_unique:
  "distinct (map k xs) \<Longrightarrow> x \<in> set xs \<Longrightarrow> k x = v \<Longrightarrow> find (\<lambda>y. k y = v) xs = Some x"
  by (induction xs) (auto simp: image_iff)

end
