(* ===== verification/GoStrings.thy ===== *)
theory GoStrings
  imports GoPrelude "HOL-Library.Sublist" "HOL-Library.Char_ord" "HOL-Library.List_Lexorder"
begin

text \<open>
  Go strings and the functions of the standard packages \<open>strings\<close>, \<open>unicode\<close> and
  \<open>unicode/utf8\<close> the bot uses. A Go string is a sequence of bytes; a \<open>string\<close> here is a
  list of 8-bit \<open>char\<close>s, so \<open>length\<close> is Go's \<open>len\<close>. Functions that work on runes decode
  UTF-8 the way \<open>utf8.DecodeRune\<close> does, a malformed byte giving U+FFFD of width one.
  Unicode's lower-case table is not reproduced: \<open>to_lower\<close> takes it as the argument \<open>lc\<close>
  and uses it for runes of 128 and above only.
\<close>

section \<open>Bytes and UTF-8\<close>

abbreviation bv :: "char \<Rightarrow> nat" where
  "bv c \<equiv> of_char c"

definition rune_error :: nat where
  "rune_error = 65533"

text \<open>\<open>utf8.RuneStart\<close>: the byte is not a continuation byte.\<close>

definition rune_start :: "char \<Rightarrow> bool" where
  "rune_start c \<longleftrightarrow> \<not> (128 \<le> bv c \<and> bv c < 192)"

definition second_ok :: "nat \<Rightarrow> nat \<Rightarrow> bool" where
  "second_ok b0 b1 \<longleftrightarrow>
     (if b0 = 224 then 160 else if b0 = 240 then 144 else 128) \<le> b1 \<and>
     b1 \<le> (if b0 = 237 then 159 else if b0 = 244 then 143 else 191)"

text \<open>\<open>utf8.DecodeRuneInString\<close>: the first rune and its width.\<close>

definition decode_rune :: "string \<Rightarrow> nat \<times> nat" where
  "decode_rune s = (case s of [] \<Rightarrow> (rune_error, 0) | c0 # s1 \<Rightarrow>
     (let b0 = bv c0 in
      if b0 < 128 then (b0, 1)
      else if b0 < 194 \<or> 244 < b0 then (rune_error, 1)
      else case s1 of [] \<Rightarrow> (rune_error, 1) | c1 # s2 \<Rightarrow>
        if \<not> second_ok b0 (bv c1) then (rune_error, 1)
        else if b0 < 224 then ((b0 - 192) * 64 + (bv c1 - 128), 2)
        else case s2 of [] \<Rightarrow> (rune_error, 1) | c2 # s3 \<Rightarrow>
          if rune_start c2 then (rune_error, 1)
          else if b0 < 240 then ((b0 - 224) * 4096 + (bv c1 - 128) * 64 + (bv c2 - 128), 3)
          else case s3 of [] \<Rightarrow> (rune_error, 1) | c3 # _ \<Rightarrow>
            if rune_start c3 then (rune_error, 1)
            else ((b0 - 240) * 262144 + (bv c1 - 128) * 4096 + (bv c2 - 128) * 64 + (bv c3 - 128), 4)))"

text \<open>\<open>utf8.AppendRune\<close>, as \<open>strings.Builder.WriteRune\<close> uses it.\<close>

definition encode_rune :: "nat \<Rightarrow> string" where
  "encode_rune r =
     (if r < 128 then [char_of r]
      else if r < 2048 then [char_of (192 + r div 64), char_of (128 + r mod 64)]
      else if 1114111 < r \<or> (55296 \<le> r \<and> r \<le> 57343)
        then [char_of (239::nat), char_of (191::nat), char_of (189::nat)]
      else if r < 65536
        then [char_of (224 + r div 4096), char_of (128 + r div 64 mod 64), char_of (128 + r mod 64)]
      else [char_of (240 + r div 262144), char_of (128 + r div 4096 mod 64),
            char_of (128 + r div 64 mod 64), char_of (128 + r mod 64)])"

lemma decode_rune_width:
  "s \<noteq> [] \<Longrightarrow> 0 < snd (decode_rune s)"
  "snd (decode_rune s) \<le> length s"
  "snd (decode_rune s) \<le> 4"
  by (auto simp: decode_rune_def Let_def split: list.splits)

text \<open>The runes of a string with the bytes each was decoded from (Go's \<open>range\<close> over a string).\<close>

function chunks :: "string \<Rightarrow> (nat \<times> string) list" where
  "chunks s = (if s = [] then []
     else (fst (decode_rune s), take (snd (decode_rune s)) s) # chunks (drop (snd (decode_rune s)) s))"
  by pat_completeness auto
termination
  by (relation "measure length") (auto simp: decode_rune_width)

declare chunks.simps [simp del]

lemma chunks_Nil [simp]: "chunks [] = []"
  by (simp add: chunks.simps)

lemma chunks_nonempty:
  "s \<noteq> [] \<Longrightarrow> chunks s =
     (fst (decode_rune s), take (snd (decode_rune s)) s) # chunks (drop (snd (decode_rune s)) s)"
  by (subst chunks.simps) simp

lemma concat_chunks [simp]: "concat (map snd (chunks s)) = s"
proof (induction s rule: chunks.induct)
  case (1 s)
  then show ?case by (cases "s = []") (simp_all add: chunks_nonempty)
qed

lemma decode_rune_ascii [simp]: "bv c < 128 \<Longrightarrow> decode_rune (c # s) = (bv c, 1)"
  by (simp add: decode_rune_def)

lemma chunks_ascii_Cons [simp]: "bv c < 128 \<Longrightarrow> chunks (c # s) = (bv c, [c]) # chunks s"
  by (simp add: chunks_nonempty)

lemma chunks_ascii: "\<forall>c \<in> set s. bv c < 128 \<Longrightarrow> chunks s = map (\<lambda>c. (bv c, [c])) s"
  by (induction s) simp_all

text \<open>
  UTF-8 is self-synchronising: decoding a prefix is not disturbed by what follows when what
  follows starts on a rune boundary.
\<close>

lemma decode_rune_append:
  assumes "s \<noteq> []" and "t = [] \<or> rune_start (hd t)"
  shows "decode_rune (s @ t) = decode_rune s"
proof -
  have so: "\<And>b c. second_ok b (bv c) \<Longrightarrow> \<not> rune_start c"
    by (auto simp: second_ok_def rune_start_def split: if_splits)
  show ?thesis
    using assms by (cases t) (auto simp: decode_rune_def Let_def split: list.splits dest: so)
qed

lemma chunks_append:
  assumes "t = [] \<or> rune_start (hd t)"
  shows "chunks (s @ t) = chunks s @ chunks t"
proof (induction s rule: chunks.induct)
  case (1 s)
  show ?case
  proof (cases "s = []")
    case False
    with "1.IH" show ?thesis
      using decode_rune_append [OF False assms] decode_rune_width(2) [of s]
      by (simp add: chunks_nonempty)
  qed simp
qed

text \<open>A string is valid UTF-8 when no byte of it decodes to an error of width one.\<close>

definition valid_utf8 :: "string \<Rightarrow> bool" where
  "valid_utf8 s \<longleftrightarrow> (rune_error, 1) \<notin> (\<lambda>(r, b). (r, length b)) ` set (chunks s)"

lemma valid_utf8_Nil [simp]: "valid_utf8 []"
  by (simp add: valid_utf8_def)

lemma valid_utf8_append:
  "t = [] \<or> rune_start (hd t) \<Longrightarrow> valid_utf8 (s @ t) \<longleftrightarrow> valid_utf8 s \<and> valid_utf8 t"
  by (auto simp: valid_utf8_def chunks_append)

text \<open>Encoding undoes decoding wherever decoding did not fail.\<close>

lemma encode_decode2:
  fixes x y :: nat
  assumes "2 \<le> x" "x < 32" "y < 64"
  shows "encode_rune (x * 64 + y) = [char_of (192 + x), char_of (128 + y)]"
proof -
  have "(x * 64 + y) div 64 = x" "(x * 64 + y) mod 64 = y" using assms by simp_all
  moreover have "128 \<le> x * 64 + y" "x * 64 + y < 2048" using assms by linarith+
  ultimately show ?thesis by (simp add: encode_rune_def)
qed

lemma encode_decode3:
  fixes x y z :: nat
  assumes "x < 16" "y < 64" "z < 64" "x = 0 \<longrightarrow> 32 \<le> y" "x = 13 \<longrightarrow> y < 32"
  shows "encode_rune (x * 4096 + y * 64 + z) = [char_of (224 + x), char_of (128 + y), char_of (128 + z)]"
proof -
  let ?r = "x * 4096 + y * 64 + z"
  have d1: "?r div 4096 = x" by (rule div_nat_eqI) (use assms in simp_all)
  have "?r div 64 = x * 64 + y" by (rule div_nat_eqI) (use assms in simp_all)
  then have d2: "?r div 64 mod 64 = y" using assms by simp
  have "?r = (x * 64 + y) * 64 + z" by simp
  then have d3: "?r mod 64 = z" using assms by (metis mod_less mod_mult_self3)
  have r: "2048 \<le> ?r" "?r < 65536" using assms by (cases "x = 0"; linarith)+
  have s: "\<not> (55296 \<le> ?r \<and> ?r \<le> 57343)"
  proof (cases "x = 13")
    case True
    then show ?thesis using assms by linarith
  next
    case False
    then have "x \<le> 12 \<or> 14 \<le> x" by linarith
    then show ?thesis using assms by (elim disjE) linarith+
  qed
  have t: "\<not> 1114111 < ?r" "\<not> ?r < 128" "\<not> ?r < 2048" using r by linarith+
  show ?thesis unfolding encode_rune_def using r s t d1 d2 d3 by simp
qed

lemma encode_decode4:
  fixes x y z w :: nat
  assumes "x \<le> 4" "y < 64" "z < 64" "w < 64" "x = 0 \<longrightarrow> 16 \<le> y" "x = 4 \<longrightarrow> y < 16"
  shows "encode_rune (x * 262144 + y * 4096 + z * 64 + w)
     = [char_of (240 + x), char_of (128 + y), char_of (128 + z), char_of (128 + w)]"
proof -
  let ?r = "x * 262144 + y * 4096 + z * 64 + w"
  have d1: "?r div 262144 = x" by (rule div_nat_eqI) (use assms in simp_all)
  have "?r div 4096 = x * 64 + y" by (rule div_nat_eqI) (use assms in simp_all)
  then have d2: "?r div 4096 mod 64 = y" using assms by simp
  have "?r div 64 = (x * 64 + y) * 64 + z" by (rule div_nat_eqI) (use assms in simp_all)
  then have d3: "?r div 64 mod 64 = z" using assms by (metis mod_less mod_mult_self3)
  have "?r = ((x * 64 + y) * 64 + z) * 64 + w" by simp
  then have d4: "?r mod 64 = w" using assms by (metis mod_less mod_mult_self3)
  have r: "65536 \<le> ?r" using assms by (cases "x = 0"; linarith)
  have t: "?r \<le> 1114111" using assms by (cases "x = 4") linarith+
  have n: "\<not> 1114111 < ?r" "\<not> ?r < 128" "\<not> ?r < 2048" "\<not> ?r < 65536" "\<not> ?r \<le> 57343" using r t by linarith+
  show ?thesis unfolding encode_rune_def using n d1 d2 d3 d4 by simp
qed

lemma cont_byte: "\<not> rune_start c \<Longrightarrow> 128 \<le> bv c \<and> bv c < 192"
  by (auto simp: rune_start_def)

lemma encode_decode_rune:
  assumes "s \<noteq> []" and "decode_rune s \<noteq> (rune_error, 1)"
  shows "encode_rune (fst (decode_rune s)) = take (snd (decode_rune s)) s"
proof -
  obtain c0 s1 where s: "s = c0 # s1" using assms(1) by (cases s) auto
  show ?thesis
  proof (cases "bv c0 < 128")
    case True
    then show ?thesis by (simp add: s encode_rune_def)
  next
    case c0: False
    then obtain c1 s2 where s1: "s1 = c1 # s2" and b0: "194 \<le> bv c0" "bv c0 \<le> 244" and ok: "second_ok (bv c0) (bv c1)"
      using assms(2) by (auto simp: s decode_rune_def Let_def split: list.splits if_splits)
    have b1: "128 \<le> bv c1" "bv c1 < 192" using ok by (auto simp: second_ok_def split: if_splits)
    show ?thesis
    proof (cases "bv c0 < 224")
      case True
      then have d: "decode_rune s = ((bv c0 - 192) * 64 + (bv c1 - 128), 2)"
        using c0 b0 ok by (simp add: s s1 decode_rune_def)
      have "encode_rune ((bv c0 - 192) * 64 + (bv c1 - 128))
          = [char_of (192 + (bv c0 - 192)), char_of (128 + (bv c1 - 128))]"
        by (rule encode_decode2) (use True b0 b1 in linarith)+
      then show ?thesis using d b0 b1 by (simp add: s s1)
    next
      case three: False
      then obtain c2 s3 where s2: "s2 = c2 # s3" and c2: "\<not> rune_start c2"
        using assms(2) c0 b0 ok by (auto simp: s s1 decode_rune_def Let_def split: list.splits if_splits)
      note b2 = cont_byte [OF c2]
      show ?thesis
      proof (cases "bv c0 < 240")
        case True
        then have d: "decode_rune s = ((bv c0 - 224) * 4096 + (bv c1 - 128) * 64 + (bv c2 - 128), 3)"
          using c0 b0 ok three c2 by (simp add: s s1 s2 decode_rune_def)
        have "encode_rune ((bv c0 - 224) * 4096 + (bv c1 - 128) * 64 + (bv c2 - 128))
            = [char_of (224 + (bv c0 - 224)), char_of (128 + (bv c1 - 128)), char_of (128 + (bv c2 - 128))]"
        proof (rule encode_decode3)
          show "bv c0 - 224 = 0 \<longrightarrow> 32 \<le> bv c1 - 128"
            using ok three by (auto simp: second_ok_def)
          show "bv c0 - 224 = 13 \<longrightarrow> bv c1 - 128 < 32"
          proof
            assume "bv c0 - 224 = 13"
            then have "bv c0 = 237" using three by linarith
            then have "bv c1 \<le> 159" using ok by (simp add: second_ok_def)
            then show "bv c1 - 128 < 32" by linarith
          qed
        qed (use True three b1 b2 in linarith)+
        then show ?thesis using d three b1 b2 by (simp add: s s1 s2)
      next
        case four: False
        then obtain c3 s4 where s3: "s3 = c3 # s4" and c3: "\<not> rune_start c3"
          using assms(2) c0 b0 ok three c2 by (auto simp: s s1 s2 decode_rune_def Let_def split: list.splits if_splits)
        note b3 = cont_byte [OF c3]
        have d: "decode_rune s = ((bv c0 - 240) * 262144 + (bv c1 - 128) * 4096 + (bv c2 - 128) * 64
            + (bv c3 - 128), 4)"
          using c0 b0 ok three four c2 c3 by (simp add: s s1 s2 s3 decode_rune_def)
        have "encode_rune ((bv c0 - 240) * 262144 + (bv c1 - 128) * 4096 + (bv c2 - 128) * 64 + (bv c3 - 128))
            = [char_of (240 + (bv c0 - 240)), char_of (128 + (bv c1 - 128)), char_of (128 + (bv c2 - 128)),
               char_of (128 + (bv c3 - 128))]"
        proof (rule encode_decode4)
          show "bv c0 - 240 = 0 \<longrightarrow> 16 \<le> bv c1 - 128"
            using ok four by (auto simp: second_ok_def)
          show "bv c0 - 240 = 4 \<longrightarrow> bv c1 - 128 < 16"
          proof
            assume "bv c0 - 240 = 4"
            then have "bv c0 = 244" using four by linarith
            then have "bv c1 \<le> 143" using ok by (simp add: second_ok_def)
            then show "bv c1 - 128 < 16" by linarith
          qed
        qed (use b0 b1 b2 b3 in linarith)+
        then show ?thesis using d four b1 b2 b3 by (simp add: s s1 s2 s3)
      qed
    qed
  qed
qed

lemma encode_chunks:
  assumes "valid_utf8 s" and "rb \<in> set (chunks s)"
  shows "encode_rune (fst rb) = snd rb"
  using assms
proof (induction s rule: chunks.induct)
  case (1 s)
  have ne: "s \<noteq> []" using 1(3) by auto
  have len: "length (take (snd (decode_rune s)) s) = snd (decode_rune s)"
    using decode_rune_width(2) [of s] by simp
  have valid: "decode_rune s \<noteq> (rune_error, 1)" "valid_utf8 (drop (snd (decode_rune s)) s)"
    using 1(2) len by (auto simp: valid_utf8_def chunks_nonempty [OF ne] image_iff)
  from 1(3) consider "rb = (fst (decode_rune s), take (snd (decode_rune s)) s)"
    | "rb \<in> set (chunks (drop (snd (decode_rune s)) s))"
    by (auto simp: chunks_nonempty [OF ne])
  then show ?case
  proof cases
    case 1
    then show ?thesis using encode_decode_rune [OF ne valid(1)] by simp
  next
    case 2
    then show ?thesis using "1.IH" [OF ne valid(2)] by simp
  qed
qed

lemma reencode_valid: "valid_utf8 s \<Longrightarrow> concat (map (encode_rune \<circ> fst) (chunks s)) = s"
proof -
  assume "valid_utf8 s"
  then have "map (encode_rune \<circ> fst) (chunks s) = map snd (chunks s)"
    by (intro map_cong) (simp_all add: encode_chunks)
  then show ?thesis by (simp only: concat_chunks)
qed

section \<open>White space\<close>

text \<open>\<open>unicode.IsSpace\<close>: the Latin-1 spaces and the runes of category White\_Space above.\<close>

definition is_space :: "nat \<Rightarrow> bool" where
  "is_space r \<longleftrightarrow> r \<in> {9, 10, 11, 12, 13, 32, 133, 160, 5760, 8232, 8233, 8239, 8287, 12288}
     \<or> (8192 \<le> r \<and> r \<le> 8202)"

definition space_chunk :: "nat \<times> string \<Rightarrow> bool" where
  "space_chunk rb \<longleftrightarrow> is_space (fst rb)"

text \<open>\<open>strings.TrimSpace\<close>.\<close>

definition trim_space :: "string \<Rightarrow> string" where
  "trim_space s =
     concat (map snd (rev (dropWhile space_chunk (rev (dropWhile space_chunk (chunks s))))))"

lemma split_fields_shorter:
  assumes "dropWhile space_chunk cs \<noteq> []"
  shows "length (dropWhile (\<lambda>c. \<not> space_chunk c) (dropWhile space_chunk cs)) < length cs"
proof -
  obtain c rest where c: "dropWhile space_chunk cs = c # rest" "\<not> space_chunk c"
    using assms by (metis dropWhile_Cons_not list.exhaust)
  have "length (dropWhile (\<lambda>c. \<not> space_chunk c) rest) \<le> length rest"
    by (rule length_dropWhile_le)
  also have "\<dots> < length cs"
    using length_dropWhile_le [of space_chunk cs] c by simp
  finally show ?thesis using c by simp
qed

text \<open>\<open>strings.Fields\<close>: the maximal runs of runes that are not spaces.\<close>

function split_fields :: "(nat \<times> string) list \<Rightarrow> string list" where
  "split_fields cs = (let cs' = dropWhile space_chunk cs in
     if cs' = [] then []
     else concat (map snd (takeWhile (\<lambda>c. \<not> space_chunk c) cs')) #
          split_fields (dropWhile (\<lambda>c. \<not> space_chunk c) cs'))"
  by pat_completeness auto
termination
  by (relation "measure length") (simp_all add: split_fields_shorter del: dropWhile_eq_Nil_conv)

declare split_fields.simps [simp del]

definition str_fields :: "string \<Rightarrow> string list" where
  "str_fields s = split_fields (chunks s)"

section \<open>Searching, cutting and joining\<close>

text \<open>\<open>strings.HasPrefix\<close> and \<open>strings.HasSuffix\<close> are the library's \<open>prefix\<close> and \<open>suffix\<close>.\<close>

text \<open>\<open>strings.Index\<close>, with \<open>None\<close> for -1.\<close>

fun str_index :: "string \<Rightarrow> string \<Rightarrow> nat option" where
  "str_index sub [] = (if sub = [] then Some 0 else None)"
| "str_index sub (c # cs) =
     (if prefix sub (c # cs) then Some 0 else map_option Suc (str_index sub cs))"

definition str_contains :: "string \<Rightarrow> string \<Rightarrow> bool" where
  "str_contains s sub \<longleftrightarrow> str_index sub s \<noteq> None"

lemma str_index_Some:
  "str_index sub s = Some i \<Longrightarrow> i \<le> length s \<and> prefix sub (drop i s)"
proof (induction s arbitrary: i)
  case (Cons c cs)
  then show ?case by (fastforce split: if_splits)
qed (simp split: if_splits)

lemma str_index_least:
  "str_index sub s = Some i \<Longrightarrow> j < i \<Longrightarrow> \<not> prefix sub (drop j s)"
proof (induction s arbitrary: i j)
  case (Cons c cs)
  then show ?case by (cases j) (auto split: if_splits)
qed (simp split: if_splits)

lemma str_index_None: "str_index sub s = None \<Longrightarrow> \<not> prefix sub (drop j s)"
proof (induction s arbitrary: j)
  case (Cons c cs)
  then show ?case by (cases j) (auto split: if_splits)
qed (simp split: if_splits)

text \<open>\<open>strings.TrimPrefix\<close> and \<open>strings.TrimSuffix\<close>.\<close>

definition trim_prefix :: "string \<Rightarrow> string \<Rightarrow> string" where
  "trim_prefix p s = (if prefix p s then drop (length p) s else s)"

definition trim_suffix :: "string \<Rightarrow> string \<Rightarrow> string" where
  "trim_suffix p s = (if suffix p s then take (length s - length p) s else s)"

text \<open>\<open>strings.Split\<close> with a one-byte separator, and \<open>strings.Join\<close>.\<close>

fun split_byte :: "char \<Rightarrow> string \<Rightarrow> string list" where
  "split_byte sep [] = [[]]"
| "split_byte sep (c # cs) =
     (if c = sep then [] # split_byte sep cs
      else case split_byte sep cs of [] \<Rightarrow> [[c]] | x # xs \<Rightarrow> (c # x) # xs)"

fun join :: "string \<Rightarrow> string list \<Rightarrow> string" where
  "join sep [] = []"
| "join sep [x] = x"
| "join sep (x # xs) = x @ sep @ join sep xs"

lemma split_byte_nonempty [simp]: "split_byte sep s \<noteq> []"
  by (cases s) (simp_all split: list.split)

lemma join_split_byte [simp]: "join [sep] (split_byte sep s) = s"
proof (induction s)
  case (Cons c cs)
  obtain x xs where "split_byte sep cs = x # xs"
    by (cases "split_byte sep cs") simp_all
  with Cons show ?case by (cases xs) auto
qed simp

lemma split_byte_no_sep: "x \<in> set (split_byte sep s) \<Longrightarrow> sep \<notin> set x"
proof (induction s arbitrary: x)
  case (Cons c cs)
  then show ?case
    by (cases "split_byte sep cs") (auto split: if_splits)
qed simp

lemma split_byte_append:
  "sep \<notin> set x \<Longrightarrow> split_byte sep (x @ sep # s) = x # split_byte sep s"
  by (induction x) auto

lemma split_byte_single: "sep \<notin> set x \<Longrightarrow> split_byte sep x = [x]"
  by (induction x) auto

lemma join_Cons_nonempty: "xs \<noteq> [] \<Longrightarrow> join sep (x # xs) = x @ sep @ join sep xs"
  by (cases xs) simp_all

text \<open>\<open>strings.Trim\<close> with a one-byte cut set, and \<open>strings.Count\<close> of one byte.\<close>

definition trim_byte :: "char \<Rightarrow> string \<Rightarrow> string" where
  "trim_byte c s = rev (dropWhile (\<lambda>x. x = c) (rev (dropWhile (\<lambda>x. x = c) s)))"

section \<open>Case mapping\<close>

text \<open>\<open>strings.ToLower\<close>. \<open>lc\<close> is \<open>unicode.ToLower\<close> on the runes outside ASCII.\<close>

definition rune_lower :: "(nat \<Rightarrow> nat) \<Rightarrow> nat \<Rightarrow> nat" where
  "rune_lower lc r = (if r < 128 then (if 65 \<le> r \<and> r \<le> 90 then r + 32 else r) else lc r)"

definition to_lower :: "(nat \<Rightarrow> nat) \<Rightarrow> string \<Rightarrow> string" where
  "to_lower lc s = concat (map (\<lambda>c. encode_rune (rune_lower lc (fst c))) (chunks s))"

text \<open>
  \<open>strings.EqualFold\<close>: \<open>sf\<close> gives a rune outside ASCII the representative of its simple-folding
  orbit, so that the long s and the Kelvin sign fold to letters of ASCII.
\<close>

definition fold_rune :: "(nat \<Rightarrow> nat) \<Rightarrow> nat \<Rightarrow> nat" where
  "fold_rune sf r = (if r < 128 then (if 65 \<le> r \<and> r \<le> 90 then r + 32 else r) else sf r)"

definition EqualFold :: "(nat \<Rightarrow> nat) \<Rightarrow> string \<Rightarrow> string \<Rightarrow> bool" where
  "EqualFold sf s t \<longleftrightarrow> map (fold_rune sf \<circ> fst) (chunks s) = map (fold_rune sf \<circ> fst) (chunks t)"

lemma EqualFold_refl [simp]: "EqualFold sf s s"
  by (simp add: EqualFold_def)

definition ascii_lower :: "char \<Rightarrow> char" where
  "ascii_lower c = (if 65 \<le> bv c \<and> bv c \<le> 90 then char_of (bv c + 32) else c)"

lemma encode_rune_ascii: "bv c < 128 \<Longrightarrow> encode_rune (rune_lower lc (bv c)) = [ascii_lower c]"
  by (simp add: encode_rune_def rune_lower_def ascii_lower_def)

lemma to_lower_ascii: "\<forall>c \<in> set s. bv c < 128 \<Longrightarrow> to_lower lc s = map ascii_lower s"
  by (induction s) (simp_all add: to_lower_def encode_rune_ascii)

section \<open>Decimal numbers\<close>

definition is_digit :: "char \<Rightarrow> bool" where
  "is_digit c \<longleftrightarrow> 48 \<le> bv c \<and> bv c \<le> 57"

definition digit_val :: "char \<Rightarrow> int" where
  "digit_val c = int (bv c) - 48"

lemma digit_val_range: "is_digit c \<Longrightarrow> 0 \<le> digit_val c \<and> digit_val c \<le> 9"
  by (simp add: is_digit_def digit_val_def)

text \<open>The number a string of digits denotes, with no bound on its size.\<close>

fun dec_value :: "int \<Rightarrow> string \<Rightarrow> int" where
  "dec_value v [] = v"
| "dec_value v (c # cs) = dec_value (v * 10 + digit_val c) cs"

lemma dec_value_mono:
  "\<forall>c \<in> set s. is_digit c \<Longrightarrow> 0 \<le> v \<Longrightarrow> v \<le> dec_value v s"
proof (induction s arbitrary: v)
  case (Cons c cs)
  have "0 \<le> digit_val c" using Cons.prems by (simp add: digit_val_range)
  then have "v \<le> v * 10 + digit_val c" using Cons.prems by simp
  also have "\<dots> \<le> dec_value (v * 10 + digit_val c) cs"
    using Cons \<open>0 \<le> digit_val c\<close> by simp
  finally show ?case by simp
qed simp

text \<open>\<open>strconv.ParseInt(s, 10, 64)\<close>: a sign is allowed, an empty or non-digit string and a value out of
  range are errors.\<close>

definition ParseInt :: "string \<Rightarrow> int option" where
  "ParseInt s =
    (let neg = (case s of c # cs \<Rightarrow> c = CHR ''-'' | [] \<Rightarrow> False);
         ds = (case s of c # cs \<Rightarrow> if c = CHR ''-'' \<or> c = CHR ''+'' then cs else s | [] \<Rightarrow> []);
         v = (if neg then - dec_value 0 ds else dec_value 0 ds)
     in if ds = [] \<or> \<not> (\<forall>c \<in> set ds. is_digit c) \<or> v > max_i64 \<or> v < - max_i64 - 1
        then None else Some v)"

text \<open>\<open>strconv.FormatInt(i, 10)\<close>.\<close>

fun digits_of :: "nat \<Rightarrow> string" where
  "digits_of n = (if n < 10 then [char_of (48 + n)] else digits_of (n div 10) @ [char_of (48 + n mod 10)])"

declare digits_of.simps [simp del]

definition FormatInt :: "int \<Rightarrow> string" where
  "FormatInt i = (if i < 0 then CHR ''-'' # digits_of (nat (- i)) else digits_of (nat i))"

end
