(* ===== verification/MediaStorage.thy ===== *)
theory MediaStorage
  imports GoStrings
begin

text \<open>
  The blob directory (\<open>pkg/storage/storage.go\<close>): keys resolved under a base directory, an atomic
  write, and the reads and deletes. The file system is a map from path to content; directories
  and symbolic links are left out, as the containment the code promises is lexical. Each
  operating system call that can fail does so where the caller of the model says.
\<close>

section \<open>\<open>path/filepath\<close>\<close>

definition path_elems :: "string \<Rightarrow> string list" where
  "path_elems p = filter (\<lambda>e. e \<noteq> [] \<and> e \<noteq> ''.'') (split_byte (CHR ''/'') p)"

definition path_is_abs :: "string \<Rightarrow> bool" where
  "path_is_abs p = (case p of [] \<Rightarrow> False | c # cs \<Rightarrow> c = CHR ''/'')"

text \<open>The elements kept so far are a stack; a leading \<open>..\<close> survives in a relative path only.\<close>

fun clean_elems :: "bool \<Rightarrow> string list \<Rightarrow> string list \<Rightarrow> string list" where
  "clean_elems rooted stack [] = rev stack"
| "clean_elems rooted stack (e # es) =
     (if e = ''..'' then
        (case stack of
           [] \<Rightarrow> if rooted then clean_elems rooted [] es else clean_elems rooted [''..''] es
         | t # ts \<Rightarrow> if t = ''..'' then clean_elems rooted (''..'' # stack) es else clean_elems rooted ts es)
      else clean_elems rooted (e # stack) es)"

definition path_of :: "bool \<Rightarrow> string list \<Rightarrow> string" where
  "path_of rooted es = (if rooted then CHR ''/'' # join ''/'' es else if es = [] then ''.'' else join ''/'' es)"

definition Clean :: "string \<Rightarrow> string" where
  "Clean p = path_of (path_is_abs p) (clean_elems (path_is_abs p) [] (path_elems p))"

definition path_Join :: "string \<Rightarrow> string \<Rightarrow> string" where
  "path_Join a b = Clean (a @ ''/'' @ b)"

section \<open>Keys\<close>

datatype storage_error = ErrInvalidKey | ErrNotExist | StorageFailed

text \<open>A \<open>Local\<close> is its cleaned base.\<close>

definition NewLocal :: "string \<Rightarrow> string" where
  "NewLocal base = Clean base"

definition Local_resolve :: "string \<Rightarrow> string \<Rightarrow> storage_error + string \<times> string" where
  "Local_resolve base p =
    (if p = [] \<or> path_is_abs p then Inl ErrInvalidKey
     else
       let cleaned = Clean p in
       if cleaned = ''.'' \<or> cleaned = ''..'' \<or> prefix ''../'' cleaned then Inl ErrInvalidKey
       else Inr (path_Join base cleaned, cleaned))"

section \<open>Blobs\<close>

type_synonym filesystem = "string \<rightharpoonup> string"

text \<open>Where a write fails, if it does: \<open>CopyFails\<close> after writing some of the bytes.\<close>

datatype put_fault = NoFault | MkdirFails | CreateTempFails | CopyFails string | CloseFails | RenameFails

text \<open>
  The states of the file system a write goes through, as another process may see them. \<open>tmp\<close> is
  the path \<open>CreateTemp\<close> picks; removing it on the way out is best effort.
\<close>

definition put_states :: "put_fault \<Rightarrow> bool \<Rightarrow> string \<Rightarrow> string \<Rightarrow> string \<Rightarrow> filesystem \<Rightarrow> bool \<times> filesystem list" where
  "put_states fault removeFails tmp full content fs =
    (let created = fs(tmp \<mapsto> []);
         written = fs(tmp \<mapsto> content);
         cleanup = (\<lambda>s. if removeFails then s else s(tmp := None))
     in case fault of
       MkdirFails \<Rightarrow> (False, [fs])
     | CreateTempFails \<Rightarrow> (False, [fs])
     | CopyFails part \<Rightarrow> (False, [fs, created, fs(tmp \<mapsto> part), cleanup (fs(tmp \<mapsto> part))])
     | CloseFails \<Rightarrow> (False, [fs, created, written, cleanup written])
     | RenameFails \<Rightarrow> (False, [fs, created, written, cleanup written])
     | NoFault \<Rightarrow> (True, [fs, created, written, (written(tmp := None))(full \<mapsto> content)]))"

definition Local_Put ::
  "string \<Rightarrow> bool \<Rightarrow> put_fault \<Rightarrow> bool \<Rightarrow> string \<Rightarrow> string \<Rightarrow> string \<Rightarrow> filesystem
     \<Rightarrow> (storage_error + string) \<times> filesystem list" where
  "Local_Put base cancelled fault removeFails tmp key content fs =
    (if cancelled then (Inl StorageFailed, [fs])
     else case Local_resolve base key of
       Inl err \<Rightarrow> (Inl err, [fs])
     | Inr (full, rel) \<Rightarrow> (case put_states fault removeFails tmp full content fs of
         (ok, states) \<Rightarrow> (if ok then Inr rel else Inl StorageFailed, states)))"

definition Local_Get :: "string \<Rightarrow> string \<Rightarrow> filesystem \<Rightarrow> storage_error + string" where
  "Local_Get base path fs = and_then (Local_resolve base path) (\<lambda>(full, rel).
     case fs full of None \<Rightarrow> Inl ErrNotExist | Some content \<Rightarrow> Inr content)"

definition Local_Delete :: "string \<Rightarrow> bool \<Rightarrow> string \<Rightarrow> filesystem \<Rightarrow> (storage_error + unit) \<times> filesystem" where
  "Local_Delete base fails path fs =
    (case Local_resolve base path of
       Inl err \<Rightarrow> (Inl err, fs)
     | Inr (full, rel) \<Rightarrow>
         if fs full = None then (Inr (), fs)
         else if fails then (Inl StorageFailed, fs)
         else (Inr (), fs(full := None)))"

section \<open>Cleaned paths\<close>

definition proper :: "string \<Rightarrow> bool" where
  "proper e \<longleftrightarrow> e \<noteq> [] \<and> e \<noteq> ''.'' \<and> CHR ''/'' \<notin> set e"

text \<open>Leading \<open>..\<close> elements, none in a rooted path, and none after.\<close>

definition normal :: "bool \<Rightarrow> string list \<Rightarrow> bool" where
  "normal rooted es \<longleftrightarrow> list_all proper es
     \<and> ''..'' \<notin> set (dropWhile (\<lambda>e. e = ''..'') es) \<and> (rooted \<longrightarrow> ''..'' \<notin> set es)"

lemma path_elems_proper: "list_all proper (path_elems p)"
  by (auto simp: path_elems_def list_all_iff proper_def dest: split_byte_no_sep)

lemma split_join_elems:
  "list_all proper es \<Longrightarrow> es \<noteq> [] \<Longrightarrow> split_byte (CHR ''/'') (join ''/'' es) = es"
proof (induction es)
  case (Cons e es)
  then show ?case
    by (cases "es = []") (simp_all add: proper_def split_byte_single split_byte_append join_Cons_nonempty)
qed simp

lemma path_elems_join: "list_all proper es \<Longrightarrow> path_elems (join ''/'' es) = es"
proof (cases "es = []")
  case False
  assume p: "list_all proper es"
  then have "filter (\<lambda>e. e \<noteq> [] \<and> e \<noteq> ''.'') es = es"
    by (auto simp: filter_id_conv list_all_iff proper_def)
  then show ?thesis by (simp add: path_elems_def split_join_elems [OF p False])
qed (simp add: path_elems_def)

lemma path_elems_slash: "path_elems (CHR ''/'' # p) = path_elems p"
  by (simp add: path_elems_def)

lemma path_elems_path_of: "list_all proper es \<Longrightarrow> path_elems (path_of rooted es) = es"
  by (auto simp: path_of_def path_elems_slash path_elems_join) (simp add: path_elems_def)

lemma join_hd: "list_all proper es \<Longrightarrow> es \<noteq> [] \<Longrightarrow> \<not> path_is_abs (join ''/'' es)"
proof (cases es)
  case (Cons e fs)
  assume "list_all proper es"
  then obtain c cs where "e = c # cs" "c \<noteq> CHR ''/''" using Cons by (cases e) (auto simp: proper_def)
  then show ?thesis using Cons by (cases fs) (simp_all add: path_is_abs_def)
qed simp

lemma join_nonempty: "list_all proper es \<Longrightarrow> es \<noteq> [] \<Longrightarrow> join ''/'' es \<noteq> []"
  by (cases es; cases "tl es") (auto simp: proper_def)

lemma path_of_abs: "list_all proper es \<Longrightarrow> path_is_abs (path_of rooted es) = rooted"
  using join_hd [of es] by (auto simp: path_of_def) (simp_all add: path_is_abs_def)

lemma path_elems_append_slash: "path_elems (a @ ''/'' @ b) = path_elems a @ path_elems b"
proof -
  have "split_byte (CHR ''/'') (a @ CHR ''/'' # b) = split_byte (CHR ''/'') a @ split_byte (CHR ''/'') b"
    by (induction a) (auto split: list.split)
  then show ?thesis by (simp add: path_elems_def)
qed

lemma clean_plain:
  "''..'' \<notin> set es \<Longrightarrow> clean_elems rooted stack es = rev stack @ es"
  by (induction es arbitrary: stack) auto

lemma clean_dots:
  "\<not> rooted \<Longrightarrow> clean_elems rooted (replicate n ''..'') (replicate k ''..'' @ es)
     = clean_elems rooted (replicate (n + k) ''..'') es"
proof (induction k arbitrary: n)
  case (Suc k)
  have "clean_elems rooted (replicate n ''..'') (replicate (Suc k) ''..'' @ es)
      = clean_elems rooted (replicate (Suc n) ''..'') (replicate k ''..'' @ es)"
    using Suc.prems by (cases n) simp_all
  also have "\<dots> = clean_elems rooted (replicate (Suc n + k) ''..'') es" by (rule Suc.IH [OF Suc.prems])
  finally show ?case by simp
qed simp

lemma normal_split:
  assumes "normal rooted es"
  obtains k ds where "es = replicate k ''..'' @ ds" "''..'' \<notin> set ds" "rooted \<longrightarrow> k = 0"
proof -
  let ?P = "\<lambda>e. e = ''..''"
  have "takeWhile ?P es = replicate (length (takeWhile ?P es)) ''..''"
    by (rule replicate_eqI) (auto dest: set_takeWhileD)
  then have "es = replicate (length (takeWhile ?P es)) ''..'' @ dropWhile ?P es"
    by (metis takeWhile_dropWhile_id)
  moreover have "rooted \<longrightarrow> length (takeWhile ?P es) = 0"
    using assms by (cases es) (auto simp: normal_def)
  ultimately show ?thesis using that assms by (metis normal_def)
qed

lemma clean_normal:
  assumes "normal rooted es" and "''..'' \<notin> set rel"
  shows "clean_elems rooted [] (es @ rel) = es @ rel"
proof -
  obtain k ds where es: "es = replicate k ''..'' @ ds" "''..'' \<notin> set ds" "rooted \<longrightarrow> k = 0"
    using assms(1) by (rule normal_split)
  show ?thesis
  proof (cases rooted)
    case True
    then show ?thesis using es assms(2) by (simp add: clean_plain)
  next
    case False
    then show ?thesis
      using es assms(2) clean_dots [OF False, of 0 k "ds @ rel"] by (simp add: clean_plain)
  qed
qed

lemma normal_Cons_dots: "normal False (replicate k ''..'')"
proof -
  have "dropWhile (\<lambda>e. e = ''..'') (replicate k ''..'') = []" by (induction k) simp_all
  then show ?thesis by (simp add: normal_def list_all_iff proper_def)
qed

lemma normal_snoc: "normal r es \<Longrightarrow> proper e \<Longrightarrow> e \<noteq> ''..'' \<Longrightarrow> normal r (es @ [e])"
  by (auto simp: normal_def dropWhile_append)

lemma normal_butlast: "normal r (es @ [e]) \<Longrightarrow> normal r es"
proof (cases "\<forall>x \<in> set es. x = ''..''")
  case True
  then have "dropWhile (\<lambda>x. x = ''..'') es = []" by simp
  then show "normal r (es @ [e]) \<Longrightarrow> normal r es" by (simp add: normal_def del: dropWhile_eq_Nil_conv)
qed (auto simp: normal_def dropWhile_append)

lemma normal_all_dots: "normal r (es @ [''..'']) \<Longrightarrow> normal r (es @ [''..'', ''..''])"
  by (auto simp: normal_def dropWhile_append split: if_splits)

lemma clean_is_normal:
  "normal r (rev stack) \<Longrightarrow> list_all proper es \<Longrightarrow> normal r (clean_elems r stack es)"
proof (induction r stack es rule: clean_elems.induct)
  case (2 r stack e es)
  show ?case
  proof (cases "e = ''..''")
    case False
    with 2 show ?thesis by (simp add: normal_snoc)
  next
    case True
    show ?thesis
    proof (cases stack)
      case Nil
      with 2 True show ?thesis using normal_Cons_dots [of 1] by auto
    next
      case (Cons t ts)
      show ?thesis
      proof (cases "t = ''..''")
        case dots: True
        have "normal r (rev (''..'' # stack))"
          using 2(6) normal_all_dots [of r "rev ts"] by (simp add: Cons dots)
        from 2(3) [OF True Cons dots this] 2(7) show ?thesis by (simp add: True Cons dots)
      next
        case False
        have "normal r (rev ts)" using 2(6) normal_butlast [of r "rev ts" t] by (simp add: Cons)
        from 2(4) [OF True Cons False this] 2(7) show ?thesis by (simp add: True Cons False)
      qed
    qed
  qed
qed simp

lemma Clean_normal: "\<exists>es. Clean p = path_of (path_is_abs p) es \<and> normal (path_is_abs p) es"
  unfolding Clean_def using clean_is_normal [of "path_is_abs p" "[]" "path_elems p"] path_elems_proper
  by (auto simp: normal_def)

lemma path_of_inj:
  "list_all proper es \<Longrightarrow> list_all proper fs \<Longrightarrow> path_of r es = path_of r fs \<longleftrightarrow> es = fs"
  by (metis path_elems_path_of)

section \<open>Keys stay under the base\<close>

text \<open>A resolved key: its elements, no \<open>..\<close> among them, appended to those of the base.\<close>

lemma Local_resolve_Inr:
  assumes "Local_resolve (NewLocal b) p = Inr (full, rel)"
  obtains bs rs where "NewLocal b = path_of (path_is_abs b) bs" "normal (path_is_abs b) bs"
    "rel = path_of False rs" "list_all proper rs" "rs \<noteq> []" "''..'' \<notin> set rs"
    "full = path_of (path_is_abs b) (bs @ rs)"
proof -
  from assms have rel: "rel = Clean p" "\<not> path_is_abs p" "rel \<noteq> ''.''" "rel \<noteq> ''..''" "\<not> prefix ''../'' rel"
    and full: "full = path_Join (NewLocal b) rel"
    by (auto simp: Local_resolve_def Let_def split: if_splits)
  obtain rs where rs: "rel = path_of False rs" "normal False rs" using Clean_normal [of p] rel(1,2) by auto
  then have pr: "list_all proper rs" by (simp add: normal_def)
  have ne: "rs \<noteq> []" using rs(1) rel(3) by (auto simp: path_of_def)
  have no_dots: "''..'' \<notin> set rs"
  proof
    assume "''..'' \<in> set rs"
    then obtain fs where "rs = ''..'' # fs" using rs(2) by (cases rs) (auto simp: normal_def split: if_splits)
    then have "rel = ''..'' \<or> prefix ''../'' rel"
      using rs(1) by (cases fs) (simp_all add: path_of_def)
    with rel(4,5) show False by simp
  qed
  obtain bs where bs: "NewLocal b = path_of (path_is_abs b) bs" "normal (path_is_abs b) bs"
    using Clean_normal [of b] by (auto simp: NewLocal_def)
  then have pb: "list_all proper bs" by (simp add: normal_def)
  have abs: "path_is_abs (NewLocal b @ ''/'' @ rel) = path_is_abs b"
  proof (cases "NewLocal b")
    case Nil
    then show ?thesis using bs(1) join_nonempty [OF pb] by (auto simp: path_of_def split: if_splits)
  next
    case (Cons c cs)
    then show ?thesis using path_of_abs [OF pb, of "path_is_abs b"] by (simp add: bs(1) path_is_abs_def)
  qed
  have "path_elems (NewLocal b @ ''/'' @ rel) = bs @ rs"
    unfolding path_elems_append_slash by (simp add: bs(1) rs(1) path_elems_path_of pb pr)
  then have "full = path_of (path_is_abs b) (bs @ rs)"
    using clean_normal [OF bs(2) no_dots] abs by (simp add: full path_Join_def Clean_def)
  with that [OF bs rs(1) pr ne no_dots] show ?thesis .
qed

lemma resolve_again:
  assumes "Local_resolve (NewLocal b) p = Inr (full, rel)"
  shows "Local_resolve (NewLocal b) rel = Inr (full, rel)"
proof -
  obtain rs where rs: "rel = path_of False rs" "list_all proper rs" "rs \<noteq> []" "''..'' \<notin> set rs"
    using assms by (rule Local_resolve_Inr)
  have rel: "\<not> path_is_abs rel" "rel \<noteq> []"
    using join_hd [OF rs(2,3)] join_nonempty [OF rs(2,3)] rs(1,3) by (simp_all add: path_of_def)
  have "Clean rel = rel"
    using rel(1) by (simp add: Clean_def rs(1) path_elems_path_of rs(2) clean_plain rs(4))
  with assms rel show ?thesis by (auto simp: Local_resolve_def Let_def split: if_splits)
qed

lemma resolve_same_file:
  assumes "Local_resolve (NewLocal b) p = Inr (full, rel)" and "Local_resolve (NewLocal b) q = Inr (full, rel')"
  shows "rel' = rel"
proof -
  obtain bs rs where p: "NewLocal b = path_of (path_is_abs b) bs" "normal (path_is_abs b) bs"
    "rel = path_of False rs" "list_all proper rs" "full = path_of (path_is_abs b) (bs @ rs)"
    using assms(1) by (rule Local_resolve_Inr)
  obtain cs qs where q: "NewLocal b = path_of (path_is_abs b) cs" "normal (path_is_abs b) cs"
    "rel' = path_of False qs" "list_all proper qs" "full = path_of (path_is_abs b) (cs @ qs)"
    using assms(2) by (rule Local_resolve_Inr)
  have proper: "list_all proper bs" "list_all proper cs" using p(2) q(2) by (simp_all add: normal_def)
  then have "bs = cs" using p(1) q(1) path_of_inj by metis
  moreover have "path_elems full = bs @ rs" unfolding p(5) by (simp add: path_elems_path_of p(4) proper)
  moreover have "path_elems full = cs @ qs" unfolding q(5) by (simp add: path_elems_path_of q(4) proper)
  ultimately show ?thesis using p(3) q(3) by simp
qed

text \<open>
  C31: A key can name no file outside the base directory: whatever it holds, it is refused or
  resolves to the base's elements followed by at least one more, none of them \<open>..\<close>; and the key
  that is stored for it resolves to the same file.
\<close>

theorem resolve_contained:
  assumes "Local_resolve (NewLocal b) p = Inr (full, rel)"
  shows "path_elems full = path_elems (NewLocal b) @ path_elems rel \<and> path_elems rel \<noteq> []
    \<and> ''..'' \<notin> set (path_elems rel) \<and> path_is_abs full = path_is_abs b
    \<and> Local_resolve (NewLocal b) rel = Inr (full, rel)"
proof -
  obtain bs rs where r: "NewLocal b = path_of (path_is_abs b) bs" "normal (path_is_abs b) bs"
    "rel = path_of False rs" "list_all proper rs" "rs \<noteq> []" "''..'' \<notin> set rs"
    "full = path_of (path_is_abs b) (bs @ rs)"
    using assms by (rule Local_resolve_Inr)
  have "list_all proper bs" using r(2) by (simp add: normal_def)
  then show ?thesis
    using resolve_again [OF assms] r(4-6) path_of_abs [of "bs @ rs" "path_is_abs b"]
    by (simp add: r(1,3,7) path_elems_path_of)
qed

theorem resolve_contained_witness:
  "Local_resolve (NewLocal ''/srv//media/'') ''a/../triggers/./x'' = Inr (''/srv/media/triggers/x'', ''triggers/x'')
   \<and> path_elems ''/srv/media/triggers/x'' = path_elems (NewLocal ''/srv//media/'') @ path_elems ''triggers/x''
   \<and> Local_resolve (NewLocal ''/srv//media/'') ''a/../../etc/passwd'' = Inl ErrInvalidKey"
proof -
  have run: "Local_resolve (NewLocal ''/srv//media/'') ''a/../triggers/./x'' = Inr (''/srv/media/triggers/x'', ''triggers/x'')"
    by code_simp
  moreover from resolve_contained [OF this]
  have "path_elems ''/srv/media/triggers/x'' = path_elems (NewLocal ''/srv//media/'') @ path_elems ''triggers/x''" by blast
  moreover have "Local_resolve (NewLocal ''/srv//media/'') ''a/../../etc/passwd'' = Inl ErrInvalidKey" by code_simp
  ultimately show ?thesis by blast
qed

section \<open>Writes are atomic\<close>

lemma put_states_atomic:
  assumes "put_states fault rf tmp full content fs = (ok, states)" and "fs tmp = None" and "tmp \<noteq> full"
  shows "list_all (\<lambda>s. (\<forall>p. p \<noteq> tmp \<and> p \<noteq> full \<longrightarrow> s p = fs p) \<and> (s full = fs full \<or> s full = Some content)) states
    \<and> states \<noteq> [] \<and> (ok \<longrightarrow> last states = fs(full \<mapsto> content)) \<and> (\<not> ok \<longrightarrow> last states full = fs full)
    \<and> (\<not> rf \<longrightarrow> last states tmp = None)"
proof -
  have "fs(tmp := None) = fs" using assms(2) by (simp add: fun_upd_idem)
  then show ?thesis
    using assms by (cases fault) (auto simp: put_states_def Let_def)
qed

text \<open>
  A write is atomic and what it stores is read back: at no moment is the key's file anything
  but what it was or the whole new content, whichever step fails, and no other blob changes; a
  failed write leaves it as it was; after a successful one the key, and the path that was
  returned, read the content, every other key reads what it did, and a delete makes it missing.
\<close>

theorem blob_write_atomic:
  assumes "Local_Put (NewLocal b) cancelled fault removeFails tmp key content fs = (res, states)"
    and "Local_resolve (NewLocal b) key = Inr (full, rel)" and "fs tmp = None" and "tmp \<noteq> full"
  shows "list_all (\<lambda>s. s full = fs full \<or> s full = Some content) states
    \<and> (case res of
         Inl err \<Rightarrow> last states full = fs full
       | Inr path \<Rightarrow> path = rel \<and> Local_Get (NewLocal b) key (last states) = Inr content
           \<and> Local_Get (NewLocal b) path (last states) = Inr content
           \<and> (case Local_Delete (NewLocal b) False path (last states) of
               (r, fs') \<Rightarrow> r = Inr () \<and> Local_Get (NewLocal b) key fs' = Inl ErrNotExist))
    \<and> (Local_resolve (NewLocal b) other = Inr (full', rel') \<and> rel' \<noteq> rel \<and> tmp \<noteq> full' \<longrightarrow>
        list_all (\<lambda>s. Local_Get (NewLocal b) other s = Local_Get (NewLocal b) other fs) states)"
proof (cases cancelled)
  case True
  with assms show ?thesis by (auto simp: Local_Put_def)
next
  case False
  obtain ok where p: "put_states fault removeFails tmp full content fs = (ok, states)"
    "res = (if ok then Inr rel else Inl StorageFailed)"
    using assms(1,2) False by (auto simp: Local_Put_def split: prod.splits)
  note atomic = put_states_atomic [OF p(1) assms(3,4)]
  have again: "Local_resolve (NewLocal b) rel = Inr (full, rel)" by (rule resolve_again [OF assms(2)])
  have others: "list_all (\<lambda>s. Local_Get (NewLocal b) other s = Local_Get (NewLocal b) other fs) states"
    if "Local_resolve (NewLocal b) other = Inr (full', rel')" "rel' \<noteq> rel" "tmp \<noteq> full'"
  proof -
    have "full' \<noteq> full" using resolve_same_file [OF assms(2)] that(1,2) by blast
    with atomic that(1,3) show ?thesis by (auto simp: list_all_iff Local_Get_def)
  qed
  have "case res of Inl err \<Rightarrow> last states full = fs full
       | Inr path \<Rightarrow> path = rel \<and> Local_Get (NewLocal b) key (last states) = Inr content
           \<and> Local_Get (NewLocal b) path (last states) = Inr content
           \<and> (case Local_Delete (NewLocal b) False path (last states) of
               (r, fs') \<Rightarrow> r = Inr () \<and> Local_Get (NewLocal b) key fs' = Inl ErrNotExist)"
    using atomic p(2) by (auto simp: Local_Get_def Local_Delete_def assms(2) again)
  moreover have "list_all (\<lambda>s. s full = fs full \<or> s full = Some content) states"
    using atomic by (simp add: list_all_iff)
  ultimately show ?thesis using others by blast
qed

theorem blob_write_atomic_witness:
  "case Local_Put (NewLocal ''/srv'') False NoFault False ''/srv/ab/.upload-1'' ''ab/abcd'' ''png'' Map.empty of
     (res, states) \<Rightarrow> res = Inr ''ab/abcd'' \<and> length states = 4
       \<and> Local_Get (NewLocal ''/srv'') ''ab/abcd'' (last states) = Inr ''png''"
proof -
  let ?put = "Local_Put (NewLocal ''/srv'') False NoFault False ''/srv/ab/.upload-1'' ''ab/abcd'' ''png'' Map.empty"
  have res: "fst ?put = Inr ''ab/abcd''" "length (snd ?put) = 4"
    "Local_resolve (NewLocal ''/srv'') ''ab/abcd'' = Inr (''/srv/ab/abcd'', ''ab/abcd'')"
    by code_simp+
  have "(Map.empty :: filesystem) ''/srv/ab/.upload-1'' = None" "''/srv/ab/.upload-1'' \<noteq> ''/srv/ab/abcd''" by simp_all
  from blob_write_atomic [OF prod.collapse [symmetric, of ?put] res(3) this] res
  show ?thesis by (simp add: case_prod_beta)
qed

end
