(* ===== verification/GoTime.thy ===== *)
theory GoTime
  imports GoStrings
begin

text \<open>
  The part of Go's package \<open>time\<close> the reminder parser uses: the proleptic Gregorian calendar,
  \<open>time.Date\<close>, and \<open>time.Parse\<close>/\<open>ParseInLocation\<close> for layouts made of the elements the bot's
  layouts contain. A location is the pair of conversions its time-zone rules define, both on
  nanoseconds; the zone database itself is not modelled, so a location is an argument.
\<close>

section \<open>Calendar\<close>

definition days_from_civil :: "int \<Rightarrow> int \<Rightarrow> int \<Rightarrow> int" where
  "days_from_civil y m d =
    (let y' = (if m \<le> 2 then y - 1 else y); era = y' div 400; yoe = y' mod 400;
         doy = (153 * ((m + 9) mod 12) + 2) div 5 + d - 1;
         doe = yoe * 365 + yoe div 4 - yoe div 100 + doy
     in era * 146097 + doe - 719468)"

text \<open>Year, month and day of a day number; the inverse of the above on real dates.\<close>

definition civil_from_days :: "int \<Rightarrow> int \<times> int \<times> int" where
  "civil_from_days z0 =
    (let z = z0 + 719468; era = z div 146097; doe = z mod 146097;
         yoe = (doe - doe div 1460 + doe div 36524 - doe div 146096) div 365;
         doy = doe - (365 * yoe + yoe div 4 - yoe div 100);
         mp = (5 * doy + 2) div 153;
         d = doy - (153 * mp + 2) div 5 + 1;
         m = (if mp < 10 then mp + 3 else mp - 9);
         y = yoe + era * 400
     in (if m \<le> 2 then y + 1 else y, m, d))"

definition leap :: "int \<Rightarrow> bool" where
  "leap y \<longleftrightarrow> y mod 4 = 0 \<and> (y mod 100 \<noteq> 0 \<or> y mod 400 = 0)"

definition daysIn :: "int \<Rightarrow> int \<Rightarrow> int" where
  "daysIn m y = (if m = 2 then (if leap y then 29 else 28)
     else if m \<in> {4, 6, 9, 11} then 30 else 31)"

record location =
  utc_of_wall :: "int \<Rightarrow> instant"
  wall_of_utc :: "instant \<Rightarrow> int"

definition UTC :: location where
  "UTC = \<lparr>utc_of_wall = (\<lambda>w. w), wall_of_utc = (\<lambda>t. t)\<rparr>"

definition day_ns :: int where
  "day_ns = 86400000000000"

text \<open>\<open>time.Date\<close>, with the nanoseconds since the wall clock's epoch as the intermediate value.\<close>

definition wall_clock :: "int \<Rightarrow> int \<Rightarrow> int \<Rightarrow> int \<Rightarrow> int \<Rightarrow> int \<Rightarrow> int \<Rightarrow> int" where
  "wall_clock y m d h mi s ns =
     days_from_civil y m d * day_ns + h * Hour + mi * Minute + s * Second + ns"

definition Date :: "int \<Rightarrow> int \<Rightarrow> int \<Rightarrow> int \<Rightarrow> int \<Rightarrow> int \<Rightarrow> int \<Rightarrow> location \<Rightarrow> instant" where
  "Date y m d h mi s ns loc = utc_of_wall loc (wall_clock y m d h mi s ns)"

definition civil_in :: "location \<Rightarrow> instant \<Rightarrow> int \<times> int \<times> int" where
  "civil_in loc t = civil_from_days (wall_of_utc loc t div day_ns)"

definition year_in :: "location \<Rightarrow> instant \<Rightarrow> int" where
  "year_in loc t = fst (civil_in loc t)"

definition month_in :: "location \<Rightarrow> instant \<Rightarrow> int" where
  "month_in loc t = fst (snd (civil_in loc t))"

definition day_in :: "location \<Rightarrow> instant \<Rightarrow> int" where
  "day_in loc t = snd (snd (civil_in loc t))"

section \<open>Layouts\<close>

text \<open>
  The elements of the accepted layouts: \<open>2006\<close>, \<open>01\<close>, \<open>02\<close>, \<open>15\<close>, \<open>04\<close>, \<open>05\<close>, a literal byte,
  a space, \<open>Z07:00\<close> and \<open>-0700\<close>.
\<close>

datatype layout_elem = LYear | LMonth | LDay | LHour | LMinute | LSecond | LByte char | LSpace | LZone | LNumZone

record clock_fields =
  f_year :: int
  f_month :: int
  f_day :: int
  f_hour :: int
  f_min :: int
  f_sec :: int
  f_ns :: int
  f_zone :: "int option"

definition no_fields :: clock_fields where
  "no_fields = \<lparr>f_year = 0, f_month = 1, f_day = 1, f_hour = 0, f_min = 0, f_sec = 0, f_ns = 0,
     f_zone = None\<rparr>"

text \<open>\<open>getnum\<close>: two digits, or one when not \<open>fixed\<close>.\<close>

definition getnum :: "bool \<Rightarrow> string \<Rightarrow> (int \<times> string) option" where
  "getnum fixed s = (case s of
     a # b # r \<Rightarrow> if \<not> is_digit a then None
       else if \<not> is_digit b then (if fixed then None else Some (digit_val a, b # r))
       else Some (digit_val a * 10 + digit_val b, r)
   | [a] \<Rightarrow> if is_digit a \<and> \<not> fixed then Some (digit_val a, []) else None
   | [] \<Rightarrow> None)"

definition in_range :: "int \<Rightarrow> int \<Rightarrow> (int \<times> string) option \<Rightarrow> (int \<times> string) option" where
  "in_range lo hi r = (case r of None \<Rightarrow> None
     | Some (v, s) \<Rightarrow> if lo \<le> v \<and> v \<le> hi then Some (v, s) else None)"

text \<open>A fraction after the seconds is accepted though no layout names one; 9 digits count.\<close>

definition get_fraction :: "string \<Rightarrow> int \<times> string" where
  "get_fraction s = (case s of
     p # c # r \<Rightarrow> if (p = CHR ''.'' \<or> p = CHR '','') \<and> is_digit c
       then (let ds = takeWhile is_digit (c # r); used = take 9 ds in
             (dec_value 0 used * 10 ^ (9 - length used), dropWhile is_digit (c # r)))
       else (0, s)
   | _ \<Rightarrow> (0, s))"

definition get_zone :: "string \<Rightarrow> (int \<times> string) option" where
  "get_zone s = (case s of
     CHR ''Z'' # r \<Rightarrow> Some (0, r)
   | sg # h1 # h2 # colon # m1 # m2 # r \<Rightarrow>
       (case (getnum True [h1, h2], getnum True [m1, m2]) of
          (Some (hr, _), Some (mm, _)) \<Rightarrow>
            if colon \<noteq> CHR '':'' \<or> hr > 24 \<or> mm > 60 then None
            else if sg = CHR ''+'' then Some ((hr * 60 + mm) * 60, r)
            else if sg = CHR ''-'' then Some (- ((hr * 60 + mm) * 60), r)
            else None
        | _ \<Rightarrow> None)
   | _ \<Rightarrow> None)"

definition get_num_zone :: "string \<Rightarrow> (int \<times> string) option" where
  "get_num_zone s = (case s of
     sg # h1 # h2 # m1 # m2 # r \<Rightarrow>
       (case (getnum True [h1, h2], getnum True [m1, m2]) of
          (Some (hr, _), Some (mm, _)) \<Rightarrow>
            if hr > 24 \<or> mm > 60 then None
            else if sg = CHR ''+'' then Some ((hr * 60 + mm) * 60, r)
            else if sg = CHR ''-'' then Some (- ((hr * 60 + mm) * 60), r)
            else None
        | _ \<Rightarrow> None)
   | _ \<Rightarrow> None)"

fun parse_elem :: "layout_elem \<Rightarrow> string \<Rightarrow> clock_fields \<Rightarrow> (string \<times> clock_fields) option" where
  "parse_elem LYear s f =
     (if length s \<ge> 4 \<and> (\<forall>c \<in> set (take 4 s). is_digit c)
      then Some (drop 4 s, f\<lparr>f_year := dec_value 0 (take 4 s)\<rparr>) else None)"
| "parse_elem LMonth s f = map_option (\<lambda>(v, r). (r, f\<lparr>f_month := v\<rparr>)) (in_range 1 12 (getnum True s))"
| "parse_elem LDay s f = map_option (\<lambda>(v, r). (r, f\<lparr>f_day := v\<rparr>)) (getnum True s)"
| "parse_elem LHour s f = map_option (\<lambda>(v, r). (r, f\<lparr>f_hour := v\<rparr>)) (in_range 0 23 (getnum False s))"
| "parse_elem LMinute s f = map_option (\<lambda>(v, r). (r, f\<lparr>f_min := v\<rparr>)) (in_range 0 59 (getnum True s))"
| "parse_elem LSecond s f = map_option (\<lambda>(v, r).
      (snd (get_fraction r), f\<lparr>f_sec := v, f_ns := fst (get_fraction r)\<rparr>)) (in_range 0 59 (getnum True s))"
| "parse_elem (LByte c) s f = (case s of [] \<Rightarrow> None | a # r \<Rightarrow> if a = c then Some (r, f) else None)"
| "parse_elem LSpace s f = (case s of [] \<Rightarrow> Some ([], f)
     | a # r \<Rightarrow> if a = CHR '' '' then Some (dropWhile (\<lambda>x. x = CHR '' '') s, f) else None)"
| "parse_elem LZone s f = map_option (\<lambda>(v, r). (r, f\<lparr>f_zone := Some v\<rparr>)) (get_zone s)"
| "parse_elem LNumZone s f = map_option (\<lambda>(v, r). (r, f\<lparr>f_zone := Some v\<rparr>)) (get_num_zone s)"

fun parse_elems :: "layout_elem list \<Rightarrow> string \<Rightarrow> clock_fields \<Rightarrow> clock_fields option" where
  "parse_elems [] s f = (if s = [] then Some f else None)"
| "parse_elems (e # es) s f =
     (case parse_elem e s f of None \<Rightarrow> None | Some (r, g) \<Rightarrow> parse_elems es r g)"

text \<open>\<open>time.ParseInLocation\<close>; \<open>time.Parse\<close> is the same with UTC.\<close>

definition ParseInLocation :: "layout_elem list \<Rightarrow> string \<Rightarrow> location \<Rightarrow> instant option" where
  "ParseInLocation layout value loc =
    (case parse_elems layout value no_fields of
       None \<Rightarrow> None
     | Some f \<Rightarrow>
        if f_day f < 1 \<or> f_day f > daysIn (f_month f) (f_year f) then None
        else let wall = wall_clock (f_year f) (f_month f) (f_day f) (f_hour f) (f_min f) (f_sec f) (f_ns f)
          in (case f_zone f of
               Some off \<Rightarrow> Some (wall - off * Second)
             | None \<Rightarrow> Some (utc_of_wall loc wall)))"

text \<open>A layout that starts with the year and a literal byte only reads values holding that byte.\<close>

lemma parse_elems_byte:
  assumes "parse_elems (LYear # LByte c # es) s f = Some g"
  shows "c \<in> set s"
proof -
  have "hd (drop 4 s) = c" "drop 4 s \<noteq> []"
    using assms by (auto split: option.splits list.splits if_splits)
  then have "c \<in> set (drop 4 s)" using hd_in_set by blast
  then show ?thesis by (rule in_set_dropD)
qed

lemma ParseInLocation_byte:
  "ParseInLocation (LYear # LByte c # es) s loc = Some t \<Longrightarrow> c \<in> set s"
  unfolding ParseInLocation_def
  by (cases "parse_elems (LYear # LByte c # es) s no_fields")
    (auto simp del: parse_elems.simps dest: parse_elems_byte)

end
