(* ===== verification/ReminderStore.thy ===== *)
theory ReminderStore
  imports GoTime
begin

text \<open>
  The reminder table and the statements of \<open>pkg/db/reminder.go\<close>, with the parts of the
  instance, destination and platform_user tables they join. A table is the list of its rows;
  an \<open>UPDATE\<close> maps the rows its \<open>WHERE\<close> selects, a \<open>SELECT\<close> filters, and each function is one
  atomic step, as each is one SQL statement or one transaction (\<open>CreateReminder\<close> runs under
  the per-owner advisory lock). Columns no statement here reads (created_at, updated_at) are
  left out. A failed statement changes nothing; the handlers model failure.
\<close>

section \<open>Rows\<close>

definition STATUS_PENDING :: int where "STATUS_PENDING = 1"
definition STATUS_SENT :: int where "STATUS_SENT = 2"
definition STATUS_DELIVERED :: int where "STATUS_DELIVERED = 3"
definition STATUS_FAILED :: int where "STATUS_FAILED = 4"

lemmas status_defs = STATUS_PENDING_def STATUS_SENT_def STATUS_DELIVERED_def STATUS_FAILED_def

record reminder_row =
  r_ID :: string
  r_Datetime :: instant
  r_Timezone :: string
  r_RepeatCron :: "string option"
  r_DestinationID :: int
  r_Status :: int
  r_UserID :: "string option"
  r_Message :: "string option"
  r_ParentID :: "string option"
  r_Deleted :: bool
  r_ClaimedAt :: "instant option"
  r_DeliveryAttempts :: int
  r_Ref :: int

text \<open>
  The jsonb columns hold objects with string fields; equal objects are equal lists here, so a
  \<open>meta\<close> lists its fields in a fixed order.
\<close>

type_synonym meta = "(string \<times> string) list"

record instance_row =
  i_ID :: int
  i_Platform :: int
  i_Meta :: meta
  i_DefaultChannel :: "string option"
  i_Deleted :: bool

record destination_row =
  d_ID :: int
  d_InstanceID :: int
  d_Meta :: meta
  d_Deleted :: bool

record platform_user_row =
  pu_UserID :: string
  pu_Platform :: int
  pu_UID :: string
  pu_Deleted :: bool

record db =
  reminders :: "reminder_row list"
  instances :: "instance_row list"
  destinations :: "destination_row list"
  platform_users :: "platform_user_row list"
  action_records :: "(int \<times> string option \<times> int option) list"

definition staleClaimGrace :: duration where
  "staleClaimGrace = 2 * Minute"

definition maxDeliveryAttempts :: int where
  "maxDeliveryAttempts = 5"

lemmas store_consts = staleClaimGrace_def maxDeliveryAttempts_def time_units

text \<open>\<open>nullStr\<close>: an empty string is a NULL column.\<close>

definition nullStr :: "string \<Rightarrow> string option" where
  "nullStr s = (if s = [] then None else Some s)"

section \<open>Reads\<close>

definition GetReminder :: "db \<Rightarrow> string \<Rightarrow> reminder_row option" where
  "GetReminder s rid = find (\<lambda>r. r_ID r = rid \<and> \<not> r_Deleted r) (reminders s)"

definition GetReminderByRef :: "db \<Rightarrow> string \<Rightarrow> int \<Rightarrow> reminder_row option" where
  "GetReminderByRef s userID ref =
     find (\<lambda>r. r_UserID r = Some userID \<and> r_Ref r = ref \<and> \<not> r_Deleted r) (reminders s)"

definition active :: "string \<Rightarrow> reminder_row \<Rightarrow> bool" where
  "active userID r \<longleftrightarrow> r_UserID r = Some userID \<and> r_Status r = STATUS_PENDING \<and> \<not> r_Deleted r"

definition CountActiveReminders :: "db \<Rightarrow> string \<Rightarrow> int" where
  "CountActiveReminders s userID = int (length (filter (active userID) (reminders s)))"

record reminder_filter =
  lf_UserID :: string
  lf_Limit :: int
  lf_Offset :: int
  lf_MessageSearch :: string
  lf_Status :: "int option"
  lf_PeriodStart :: "instant option"
  lf_PeriodEnd :: "instant option"

definition defaultReminderListLimit :: int where
  "defaultReminderListLimit = 50"

text \<open>
  The \<open>WHERE\<close> clause \<open>ListRemindersByUser\<close> assembles. \<open>ilike\<close> is Postgres' \<open>ILIKE\<close> of a text
  against a pattern; a NULL message matches no pattern.
\<close>

definition listed :: "(string \<Rightarrow> string \<Rightarrow> bool) \<Rightarrow> reminder_filter \<Rightarrow> reminder_row \<Rightarrow> bool" where
  "listed ilike f r \<longleftrightarrow>
     r_UserID r = Some (lf_UserID f) \<and> \<not> r_Deleted r
     \<and> (case lf_Status f of None \<Rightarrow> True | Some st \<Rightarrow> r_Status r = st)
     \<and> (if lf_MessageSearch f = [] then True
        else case r_Message r of None \<Rightarrow> False | Some m \<Rightarrow> ilike m (''%'' @ lf_MessageSearch f @ ''%''))
     \<and> (case lf_PeriodStart f of None \<Rightarrow> True | Some t \<Rightarrow> t \<le> r_Datetime r)
     \<and> (case lf_PeriodEnd f of None \<Rightarrow> True | Some t \<Rightarrow> r_Datetime r \<le> t)"

definition has_destination :: "db \<Rightarrow> reminder_row \<Rightarrow> bool" where
  "has_destination s r \<longleftrightarrow> (\<exists>d \<in> set (destinations s). d_ID d = r_DestinationID r
     \<and> (\<exists>i \<in> set (instances s). i_ID i = d_InstanceID d))"

text \<open>A negative offset is a Postgres error (\<open>None\<close>); rows of equal time come in table order.\<close>

definition ListRemindersByUser ::
  "(string \<Rightarrow> string \<Rightarrow> bool) \<Rightarrow> db \<Rightarrow> reminder_filter \<Rightarrow> reminder_row list option" where
  "ListRemindersByUser ilike s f =
    (let limit = (if lf_Limit f \<le> 0 then defaultReminderListLimit else lf_Limit f);
         rows = sort_key r_Datetime (filter (\<lambda>r. listed ilike f r \<and> has_destination s r) (reminders s))
     in if lf_Offset f < 0 then None
        else Some (take (nat limit) (drop (nat (lf_Offset f)) rows)))"

section \<open>Writes\<close>

definition update_where ::
  "(reminder_row \<Rightarrow> bool) \<Rightarrow> (reminder_row \<Rightarrow> reminder_row) \<Rightarrow> db \<Rightarrow> db" where
  "update_where c f s = s\<lparr>reminders := map (\<lambda>r. if c r then f r else r) (reminders s)\<rparr>"

definition affected :: "(reminder_row \<Rightarrow> bool) \<Rightarrow> db \<Rightarrow> bool" where
  "affected c s \<longleftrightarrow> (\<exists>r \<in> set (reminders s). c r)"

record create_req =
  cr_Datetime :: instant
  cr_Timezone :: string
  cr_RepeatCron :: string
  cr_Message :: string
  cr_ParentID :: string

datatype create_error = ErrReminderCapReached

text \<open>\<open>COALESCE(MAX(ref), 0) + 1\<close> over all of the owner's rows, the deleted ones included.\<close>

definition next_ref :: "db \<Rightarrow> string \<Rightarrow> int" where
  "next_ref s userID =
     (case map r_Ref (filter (\<lambda>r. r_UserID r = Some userID) (reminders s)) of
        [] \<Rightarrow> 1
      | x # xs \<Rightarrow> foldl max x xs + 1)"

definition CreateReminder ::
  "string \<Rightarrow> create_req \<Rightarrow> string \<Rightarrow> int \<Rightarrow> int \<Rightarrow> db \<Rightarrow> (create_error + (string \<times> int)) \<times> db" where
  "CreateReminder newID req userID destinationID maxActive s =
    (if CountActiveReminders s userID \<ge> maxActive then (Inl ErrReminderCapReached, s)
     else
       let ref = next_ref s userID;
           row = \<lparr>r_ID = newID, r_Datetime = cr_Datetime req, r_Timezone = cr_Timezone req,
                  r_RepeatCron = nullStr (cr_RepeatCron req), r_DestinationID = destinationID,
                  r_Status = STATUS_PENDING, r_UserID = Some userID,
                  r_Message = nullStr (cr_Message req), r_ParentID = nullStr (cr_ParentID req),
                  r_Deleted = False, r_ClaimedAt = None, r_DeliveryAttempts = 0, r_Ref = ref\<rparr>
       in (Inr (newID, ref), s\<lparr>reminders := reminders s @ [row]\<rparr>))"

definition SetReminderStatus :: "string \<Rightarrow> int \<Rightarrow> db \<Rightarrow> db" where
  "SetReminderStatus rid st = update_where (\<lambda>r. r_ID r = rid) (\<lambda>r. r\<lparr>r_Status := st\<rparr>)"

record claimed_reminder =
  c_ID :: string
  c_Message :: "string option"
  c_Platform :: int
  c_DestinationUID :: "string option"
  c_OwnerPlatformUID :: "string option"

definition due :: "instant \<Rightarrow> reminder_row \<Rightarrow> bool" where
  "due now r \<longleftrightarrow> r_Datetime r \<le> now \<and> r_Status r = STATUS_PENDING \<and> \<not> r_Deleted r"

definition claim_row :: "instant \<Rightarrow> reminder_row \<Rightarrow> reminder_row" where
  "claim_row now r = r\<lparr>r_Status := STATUS_SENT, r_ClaimedAt := Some now,
     r_DeliveryAttempts := r_DeliveryAttempts r + 1\<rparr>"

text \<open>The owner's live identities on a platform; a LEFT JOIN keeps the row when there is none.\<close>

definition owner_uids :: "db \<Rightarrow> reminder_row \<Rightarrow> int \<Rightarrow> string option list" where
  "owner_uids s r platform =
    (let us = map (\<lambda>u. Some (pu_UID u)) (filter (\<lambda>u. Some (pu_UserID u) = r_UserID r
                \<and> pu_Platform u = platform \<and> \<not> pu_Deleted u) (platform_users s))
     in if us = [] then [None] else us)"

definition claim_output :: "db \<Rightarrow> reminder_row \<Rightarrow> claimed_reminder list" where
  "claim_output s r =
    concat (map (\<lambda>d. concat (map (\<lambda>i.
      map (\<lambda>u. \<lparr>c_ID = r_ID r, c_Message = r_Message r, c_Platform = i_Platform i,
                c_DestinationUID = map_of (d_Meta d) ''destination_uid'', c_OwnerPlatformUID = u\<rparr>)
        (owner_uids s r (i_Platform i)))
      (filter (\<lambda>i. i_ID i = d_InstanceID d) (instances s))))
     (filter (\<lambda>d. d_ID d = r_DestinationID r) (destinations s)))"

definition ClaimDueReminders :: "instant \<Rightarrow> db \<Rightarrow> claimed_reminder list \<times> db" where
  "ClaimDueReminders now s =
    (concat (map (claim_output s) (filter (due now) (reminders s))),
     update_where (due now) (claim_row now) s)"

definition stale :: "instant \<Rightarrow> reminder_row \<Rightarrow> bool" where
  "stale cutoff r \<longleftrightarrow> r_Status r = STATUS_SENT \<and> \<not> r_Deleted r
     \<and> (case r_ClaimedAt r of None \<Rightarrow> False | Some t \<Rightarrow> t \<le> cutoff)"

definition reclaim_row :: "reminder_row \<Rightarrow> reminder_row" where
  "reclaim_row r = r\<lparr>r_Status := (if r_DeliveryAttempts r \<ge> maxDeliveryAttempts
     then STATUS_FAILED else STATUS_PENDING), r_ClaimedAt := None\<rparr>"

record reclaim_outcome =
  o_Retried :: int
  o_FailedOut :: int

definition ReclaimStaleReminders :: "instant \<Rightarrow> db \<Rightarrow> reclaim_outcome \<times> db" where
  "ReclaimStaleReminders now s =
    (let cutoff = now + - staleClaimGrace;
         new = map (r_Status \<circ> reclaim_row) (filter (stale cutoff) (reminders s))
     in (\<lparr>o_Retried = int (length (filter (\<lambda>st. st \<noteq> STATUS_FAILED) new)),
          o_FailedOut = int (length (filter (\<lambda>st. st = STATUS_FAILED) new))\<rparr>,
         update_where (stale cutoff) reclaim_row s))"

definition sent_with_id :: "string \<Rightarrow> reminder_row \<Rightarrow> bool" where
  "sent_with_id rid r \<longleftrightarrow> r_ID r = rid \<and> r_Status r = STATUS_SENT \<and> \<not> r_Deleted r"

definition AdvanceReminderStatusIfSent :: "string \<Rightarrow> int \<Rightarrow> db \<Rightarrow> bool \<times> db" where
  "AdvanceReminderStatusIfSent rid st s =
    (affected (sent_with_id rid) s,
     update_where (sent_with_id rid) (\<lambda>r. r\<lparr>r_Status := st, r_ClaimedAt := None\<rparr>) s)"

definition RescheduleReminderIfSent :: "string \<Rightarrow> instant \<Rightarrow> db \<Rightarrow> bool \<times> db" where
  "RescheduleReminderIfSent rid nxt s =
    (affected (sent_with_id rid) s,
     update_where (sent_with_id rid) (\<lambda>r. r\<lparr>r_Datetime := nxt, r_Status := STATUS_PENDING,
       r_ClaimedAt := None, r_DeliveryAttempts := 0\<rparr>) s)"

definition owned_live :: "string \<Rightarrow> string \<Rightarrow> reminder_row \<Rightarrow> bool" where
  "owned_live rid userID r \<longleftrightarrow> r_ID r = rid \<and> r_UserID r = Some userID \<and> \<not> r_Deleted r"

text \<open>\<open>False\<close> as the first component is \<open>ErrNotFound\<close>: no row was affected.\<close>

definition SoftDeleteReminderByUser :: "string \<Rightarrow> string \<Rightarrow> db \<Rightarrow> bool \<times> db" where
  "SoftDeleteReminderByUser rid userID s =
    (affected (owned_live rid userID) s,
     update_where (owned_live rid userID) (\<lambda>r. r\<lparr>r_Deleted := True\<rparr>) s)"

record reminder_update =
  u_ID :: string
  u_UserID :: string
  u_Datetime :: instant
  u_Timezone :: string
  u_DestinationID :: int
  u_UpdateMessage :: bool
  u_Message :: string
  u_UpdateRepeat :: bool
  u_RepeatCron :: string

definition edit_row :: "reminder_update \<Rightarrow> reminder_row \<Rightarrow> reminder_row" where
  "edit_row u r = r\<lparr>r_Datetime := u_Datetime u, r_Timezone := u_Timezone u,
     r_Message := (if u_UpdateMessage u then nullStr (u_Message u) else r_Message r),
     r_DestinationID := u_DestinationID u,
     r_RepeatCron := (if u_UpdateRepeat u then nullStr (u_RepeatCron u) else r_RepeatCron r),
     r_Status := STATUS_PENDING, r_ClaimedAt := None, r_DeliveryAttempts := 0\<rparr>"

definition UpdateReminderByUser :: "reminder_update \<Rightarrow> db \<Rightarrow> bool \<times> db" where
  "UpdateReminderByUser u s =
    (affected (owned_live (u_ID u) (u_UserID u)) s,
     update_where (owned_live (u_ID u) (u_UserID u)) (edit_row u) s)"

end
