(* ===== verification/UserStore.thy ===== *)
theory UserStore
  imports ReminderStore
begin

text \<open>
  User accounts and their platform identities (\<open>pkg/db/user.go\<close>, the \<open>User\<close> of
  \<open>internal/model/model.go\<close>). The columns no code of the repository writes (avatar, birthday,
  last_congratulated_at) and the two timestamps are left out, and so is \<open>user_meta\<close>, which is
  stored and never read. Each function is one statement or one transaction.
\<close>

section \<open>Rows\<close>

definition CLEARANCE_REGISTERED :: int where "CLEARANCE_REGISTERED = 1"
definition CLEARANCE_MODERATOR :: int where "CLEARANCE_MODERATOR = 20"
definition CLEARANCE_ADMINISTRATOR :: int where "CLEARANCE_ADMINISTRATOR = 50"

lemmas clearance_defs =
  CLEARANCE_REGISTERED_def CLEARANCE_MODERATOR_def CLEARANCE_ADMINISTRATOR_def

record user_row =
  us_ID :: string
  us_Username :: string
  us_Clearance :: int
  us_Locale :: "string option"
  us_Timezone :: "string option"
  us_Deleted :: bool

record accounts =
  users :: "user_row list"
  identities :: "platform_user_row list"

datatype user_error = ErrAlreadyExists | ErrUserNotFound

section \<open>Statements\<close>

definition identity_taken :: "int \<Rightarrow> string \<Rightarrow> accounts \<Rightarrow> bool" where
  "identity_taken platform uid a \<longleftrightarrow>
     list_ex (\<lambda>p. pu_Platform p = platform \<and> pu_UID p = uid) (identities a)"

definition CreateUser ::
  "string \<Rightarrow> string \<Rightarrow> int \<Rightarrow> string \<Rightarrow> string \<Rightarrow> accounts \<Rightarrow> (user_error + string) \<times> accounts" where
  "CreateUser newID username platform uid locale a =
    (let a1 = a\<lparr>users := users a @ [\<lparr>us_ID = newID, us_Username = username,
           us_Clearance = CLEARANCE_REGISTERED, us_Locale = nullStr locale, us_Timezone = None,
           us_Deleted = False\<rparr>]\<rparr> in
     if identity_taken platform uid a1 then (Inl ErrAlreadyExists, a)
     else (Inr newID, a1\<lparr>identities := identities a1 @ [\<lparr>pu_UserID = newID, pu_Platform = platform,
           pu_UID = uid, pu_Deleted = False\<rparr>]\<rparr>))"

definition GetUser :: "string \<Rightarrow> accounts \<Rightarrow> user_row option" where
  "GetUser uid a = find (\<lambda>u. us_ID u = uid \<and> \<not> us_Deleted u) (users a)"

definition GetUserByPlatformUID :: "int \<Rightarrow> string \<Rightarrow> accounts \<Rightarrow> user_row option" where
  "GetUserByPlatformUID platform uid a =
     find (\<lambda>u. \<not> us_Deleted u \<and> list_ex (\<lambda>p. pu_UserID p = us_ID u \<and> pu_Platform p = platform
         \<and> pu_UID p = uid) (identities a)) (users a)"

definition setUserPreference ::
  "(user_row \<Rightarrow> user_row) \<Rightarrow> string \<Rightarrow> accounts \<Rightarrow> (user_error + unit) \<times> accounts" where
  "setUserPreference upd uid a =
    (let hit = (\<lambda>u. us_ID u = uid \<and> \<not> us_Deleted u) in
     if \<not> list_ex hit (users a) then (Inl ErrUserNotFound, a)
     else (Inr (), a\<lparr>users := map (\<lambda>u. if hit u then upd u else u) (users a)\<rparr>))"

definition SetUserLocale :: "string \<Rightarrow> string \<Rightarrow> accounts \<Rightarrow> (user_error + unit) \<times> accounts" where
  "SetUserLocale uid locale = setUserPreference (\<lambda>u. u\<lparr>us_Locale := nullStr locale\<rparr>) uid"

definition SetUserTimezone :: "string \<Rightarrow> string \<Rightarrow> accounts \<Rightarrow> (user_error + unit) \<times> accounts" where
  "SetUserTimezone uid timezone = setUserPreference (\<lambda>u. u\<lparr>us_Timezone := nullStr timezone\<rparr>) uid"

section \<open>The invariant of the two tables\<close>

text \<open>
  Primary key of \<open>user_account\<close>, the unique constraint and the foreign key of
  \<open>platform_user\<close>, and what only \<open>CreateUser\<close>'s transaction gives: an account has an identity.
\<close>

definition accounts_ok :: "accounts \<Rightarrow> bool" where
  "accounts_ok a \<longleftrightarrow> distinct (map us_ID (users a))
     \<and> distinct (map (\<lambda>p. (pu_Platform p, pu_UID p)) (identities a))
     \<and> us_ID ` set (users a) = pu_UserID ` set (identities a)"

lemma CreateUser_ok [keeps]:
  assumes "accounts_ok a" and "newID \<notin> us_ID ` set (users a)"
  shows "accounts_ok (snd (CreateUser newID username platform uid locale a))"
  using assms by (auto simp: accounts_ok_def CreateUser_def Let_def identity_taken_def list_ex_iff)

lemma setUserPreference_ok [keeps]:
  assumes "accounts_ok a" and "\<And>u. us_ID (upd u) = us_ID u"
  shows "accounts_ok (snd (setUserPreference upd uid a))"
proof -
  let ?g = "\<lambda>u. if us_ID u = uid \<and> \<not> us_Deleted u then upd u else u"
  have same: "us_ID (?g u) = us_ID u" for u using assms(2) by simp
  have "map us_ID (map ?g (users a)) = map us_ID (users a)"
    and "us_ID ` set (map ?g (users a)) = us_ID ` set (users a)"
    by (simp_all only: map_map comp_def same image_image set_map)
  with assms(1) show ?thesis
    by (simp add: accounts_ok_def setUserPreference_def Let_def del: map_map set_map)
qed

text \<open>An identity resolves to at most one account, and to the one that registered it.\<close>

lemma CreateUser_resolves:
  assumes "accounts_ok a" and "newID \<notin> us_ID ` set (users a)"
    and "CreateUser newID username platform uid locale a = (Inr rid, a')"
  shows "rid = newID \<and> (case GetUserByPlatformUID platform uid a' of None \<Rightarrow> False
     | Some u \<Rightarrow> us_ID u = newID \<and> us_Clearance u = CLEARANCE_REGISTERED)"
proof -
  from assms(2) have noid: "newID \<notin> pu_UserID ` set (identities a)"
    using assms(1) by (simp add: accounts_ok_def)
  from assms(3) have free: "\<not> identity_taken platform uid a" and rid: "rid = newID"
    and a': "identities a' = identities a @ [\<lparr>pu_UserID = newID, pu_Platform = platform, pu_UID = uid,
        pu_Deleted = False\<rparr>]"
      "users a' = users a @ [\<lparr>us_ID = newID, us_Username = username,
        us_Clearance = CLEARANCE_REGISTERED, us_Locale = nullStr locale, us_Timezone = None,
        us_Deleted = False\<rparr>]"
    by (auto simp: CreateUser_def Let_def identity_taken_def split: if_splits)
  have "find (\<lambda>u. \<not> us_Deleted u \<and> list_ex (\<lambda>p. pu_UserID p = us_ID u \<and> pu_Platform p = platform
         \<and> pu_UID p = uid) (identities a')) (users a) = None"
    using free assms(2) by (auto simp: find_None_iff a' list_ex_iff identity_taken_def)
  then show ?thesis by (simp add: GetUserByPlatformUID_def a' find_append rid)
qed

end
