(* ===== verification/DestinationStore.thy ===== *)
theory DestinationStore
  imports ReminderStore
begin

text \<open>
  The instance and destination tables (\<open>pkg/db/destination.go\<close>), the analytics insert
  (\<open>pkg/db/analytics.go\<close>), the instance lookups (\<open>pkg/db/instance.go\<close>) and the wire form of a reminder row (\<open>internal/model/model.go\<close>).
  Generated ids (\<open>bigserial\<close>) are arguments. A \<open>ReminderDestination\<close> message has optional fields.
\<close>

section \<open>Wire values\<close>

record reminder_destination =
  rd_PlatformEnum :: "int option"
  rd_InstanceMeta :: "meta option"
  rd_DestinationMeta :: "meta option"

record pb_reminder =
  pb_Id :: string
  pb_Datetime :: instant
  pb_Timezone :: string
  pb_RepeatCron :: "string option"
  pb_Destination :: "reminder_destination option"
  pb_Status :: int
  pb_UserId :: "string option"
  pb_Message :: "string option"
  pb_ParentId :: "string option"
  pb_Ref :: int

definition ToProto :: "reminder_row \<Rightarrow> reminder_destination option \<Rightarrow> pb_reminder" where
  "ToProto r destination =
     \<lparr>pb_Id = r_ID r, pb_Datetime = r_Datetime r, pb_Timezone = r_Timezone r,
      pb_RepeatCron = r_RepeatCron r, pb_Destination = destination, pb_Status = r_Status r,
      pb_UserId = r_UserID r, pb_Message = r_Message r, pb_ParentId = r_ParentID r,
      pb_Ref = r_Ref r\<rparr>"

section \<open>Statements\<close>

definition find_instance :: "int \<Rightarrow> meta \<Rightarrow> db \<Rightarrow> instance_row option" where
  "find_instance platform imeta s =
     find (\<lambda>i. i_Platform i = platform \<and> i_Meta i = imeta) (instances s)"

definition find_destination :: "int \<Rightarrow> meta \<Rightarrow> db \<Rightarrow> destination_row option" where
  "find_destination instanceID dmeta s =
     find (\<lambda>d. d_InstanceID d = instanceID \<and> d_Meta d = dmeta) (destinations s)"

text \<open>
  \<open>INSERT ... ON CONFLICT DO UPDATE ... RETURNING id\<close>, on each of the two tables; the update
  writes the value that is there. An absent message field is its zero value.
\<close>

definition upsert_instance :: "int \<Rightarrow> int \<Rightarrow> meta \<Rightarrow> db \<Rightarrow> int \<times> db" where
  "upsert_instance newID platform imeta s =
    (case find_instance platform imeta s of
       Some i \<Rightarrow> (i_ID i, s)
     | None \<Rightarrow> (newID, s\<lparr>instances := instances s
         @ [\<lparr>i_ID = newID, i_Platform = platform, i_Meta = imeta, i_DefaultChannel = None,
             i_Deleted = False\<rparr>]\<rparr>))"

definition upsert_destination :: "int \<Rightarrow> int \<Rightarrow> meta \<Rightarrow> db \<Rightarrow> int \<times> db" where
  "upsert_destination newID instanceID dmeta s =
    (case find_destination instanceID dmeta s of
       Some d \<Rightarrow> (d_ID d, s)
     | None \<Rightarrow> (newID, s\<lparr>destinations := destinations s
         @ [\<lparr>d_ID = newID, d_InstanceID = instanceID, d_Meta = dmeta, d_Deleted = False\<rparr>]\<rparr>))"

definition GetOrCreateDestinationByMeta ::
  "int \<Rightarrow> int \<Rightarrow> reminder_destination \<Rightarrow> db \<Rightarrow> int \<times> db" where
  "GetOrCreateDestinationByMeta newInstance newDestination destination s =
    (let platformEnum = (case rd_PlatformEnum destination of None \<Rightarrow> 0 | Some p \<Rightarrow> p);
         instanceMeta = (case rd_InstanceMeta destination of None \<Rightarrow> [] | Some m \<Rightarrow> m);
         destinationMeta = (case rd_DestinationMeta destination of None \<Rightarrow> [] | Some m \<Rightarrow> m);
         (instanceID, s1) = upsert_instance newInstance platformEnum instanceMeta s
     in upsert_destination newDestination instanceID destinationMeta s1)"

text \<open>A second destination with the same key breaks the unique constraint: \<open>None\<close>, an error.\<close>

definition CreateDestination :: "int \<Rightarrow> int \<Rightarrow> meta \<Rightarrow> db \<Rightarrow> (int \<times> db) option" where
  "CreateDestination newID instanceID dmeta s =
    (if find_destination instanceID dmeta s \<noteq> None then None
     else Some (newID, s\<lparr>destinations := destinations s
         @ [\<lparr>d_ID = newID, d_InstanceID = instanceID, d_Meta = dmeta, d_Deleted = False\<rparr>]\<rparr>))"

definition GetDestinationIDByMeta :: "int \<Rightarrow> meta \<Rightarrow> db \<Rightarrow> int option" where
  "GetDestinationIDByMeta instanceID dmeta s =
     map_option d_ID (find (\<lambda>d. d_InstanceID d = instanceID \<and> d_Meta d = dmeta \<and> \<not> d_Deleted d)
       (destinations s))"

text \<open>\<open>None\<close> is \<open>ErrNotFound\<close>.\<close>

definition GetReminderDestination :: "int \<Rightarrow> db \<Rightarrow> reminder_destination option" where
  "GetReminderDestination destinationID s =
    (case find (\<lambda>d. d_ID d = destinationID) (destinations s) of
       None \<Rightarrow> None
     | Some d \<Rightarrow> (case find (\<lambda>i. i_ID i = d_InstanceID d) (instances s) of
         None \<Rightarrow> None
       | Some i \<Rightarrow> Some \<lparr>rd_PlatformEnum = Some (i_Platform i), rd_InstanceMeta = Some (i_Meta i),
           rd_DestinationMeta = Some (d_Meta d)\<rparr>))"

text \<open>The instance lookups and insert of \<open>pkg/db/instance.go\<close>.\<close>

definition CreateInstance :: "int \<Rightarrow> int \<Rightarrow> meta \<Rightarrow> string \<Rightarrow> db \<Rightarrow> (int \<times> db) option" where
  "CreateInstance newID platform imeta defaultChannel s =
    (if find_instance platform imeta s \<noteq> None then None
     else Some (newID, s\<lparr>instances := instances s
         @ [\<lparr>i_ID = newID, i_Platform = platform, i_Meta = imeta,
             i_DefaultChannel = nullStr defaultChannel, i_Deleted = False\<rparr>]\<rparr>))"

definition GetInstanceByID :: "int \<Rightarrow> db \<Rightarrow> instance_row option" where
  "GetInstanceByID rid s = find (\<lambda>i. i_ID i = rid \<and> \<not> i_Deleted i) (instances s)"

definition GetInstanceByMeta :: "int \<Rightarrow> meta \<Rightarrow> db \<Rightarrow> instance_row option" where
  "GetInstanceByMeta platform imeta s =
     find (\<lambda>i. i_Platform i = platform \<and> i_Meta i = imeta \<and> \<not> i_Deleted i) (instances s)"

definition CreateActionRecord :: "int \<Rightarrow> string \<Rightarrow> int option \<Rightarrow> db \<Rightarrow> db" where
  "CreateActionRecord actionType actorID actionTime s =
     s\<lparr>action_records := action_records s @ [(actionType, nullStr actorID, actionTime)]\<rparr>"

section \<open>Get or create\<close>

text \<open>Primary keys, the two unique constraints and the foreign key of the schema.\<close>

definition places_ok :: "db \<Rightarrow> bool" where
  "places_ok s \<longleftrightarrow> distinct (map i_ID (instances s)) \<and> distinct (map d_ID (destinations s))
     \<and> distinct (map (\<lambda>i. (i_Platform i, i_Meta i)) (instances s))
     \<and> distinct (map (\<lambda>d. (d_InstanceID d, d_Meta d)) (destinations s))
     \<and> (\<forall>d \<in> set (destinations s). d_InstanceID d \<in> i_ID ` set (instances s))"

lemma upsert_instance_spec:
  assumes "upsert_instance n p m s = (i, s')" and "places_ok s" and "n \<notin> i_ID ` set (instances s)"
  shows "places_ok s' \<and> (\<exists>row \<in> set (instances s'). i_ID row = i \<and> i_Platform row = p \<and> i_Meta row = m)
    \<and> destinations s' = destinations s \<and> reminders s' = reminders s"
proof (cases "find_instance p m s")
  case (Some row)
  then show ?thesis
    using assms find_SomeD [OF Some [unfolded find_instance_def]] by (auto simp: upsert_instance_def)
next
  case None
  then have fresh: "(p, m) \<notin> (\<lambda>i. (i_Platform i, i_Meta i)) ` set (instances s)"
    by (auto simp: find_instance_def find_None_iff)
  show ?thesis
    using assms None fresh by (auto simp: upsert_instance_def places_ok_def)
qed

lemma upsert_destination_spec:
  assumes "upsert_destination n i m s = (d, s')" and "places_ok s" and "n \<notin> d_ID ` set (destinations s)"
    and "i \<in> i_ID ` set (instances s)"
  shows "places_ok s' \<and> (\<exists>row \<in> set (destinations s'). d_ID row = d \<and> d_InstanceID row = i \<and> d_Meta row = m)
    \<and> instances s' = instances s \<and> reminders s' = reminders s"
proof (cases "find_destination i m s")
  case (Some row)
  then show ?thesis
    using assms find_SomeD [OF Some [unfolded find_destination_def]] by (auto simp: upsert_destination_def)
next
  case None
  then have fresh: "(i, m) \<notin> (\<lambda>d. (d_InstanceID d, d_Meta d)) ` set (destinations s)"
    by (auto simp: find_destination_def find_None_iff)
  show ?thesis
    using assms None fresh by (auto simp: upsert_destination_def places_ok_def)
qed

lemma get_destination_rows:
  assumes "places_ok s" and "d \<in> set (destinations s)" and "i \<in> set (instances s)"
    and "d_InstanceID d = i_ID i"
  shows "GetReminderDestination (d_ID d) s = Some \<lparr>rd_PlatformEnum = Some (i_Platform i),
     rd_InstanceMeta = Some (i_Meta i), rd_DestinationMeta = Some (d_Meta d)\<rparr>"
  using assms find_unique [of d_ID "destinations s" d] find_unique [of i_ID "instances s" i]
  by (simp add: GetReminderDestination_def places_ok_def)

text \<open>
  Resolving a destination and reading it back is the identity, and keeps the keys of the
  two tables: what a reminder is stored with is the place the request named, whether the rows
  were already there or not.
\<close>

theorem destination_roundtrip:
  assumes "places_ok s" and "ni \<notin> i_ID ` set (instances s)" and "nd \<notin> d_ID ` set (destinations s)"
    and "GetOrCreateDestinationByMeta ni nd \<lparr>rd_PlatformEnum = Some p, rd_InstanceMeta = Some im,
      rd_DestinationMeta = Some dm\<rparr> s = (d, s')"
  shows "GetReminderDestination d s' = Some \<lparr>rd_PlatformEnum = Some p, rd_InstanceMeta = Some im,
      rd_DestinationMeta = Some dm\<rparr> \<and> places_ok s'"
proof -
  obtain i s1 where up1: "upsert_instance ni p im s = (i, s1)" by fastforce
  with assms(4) have up2: "upsert_destination nd i dm s1 = (d, s')"
    by (simp add: GetOrCreateDestinationByMeta_def)
  from upsert_instance_spec [OF up1 assms(1,2)] obtain irow where
    irow: "places_ok s1" "destinations s1 = destinations s" "irow \<in> set (instances s1)"
      "i_ID irow = i" "i_Platform irow = p" "i_Meta irow = im" by blast
  have "i \<in> i_ID ` set (instances s1)" using irow(3,4) by blast
  with upsert_destination_spec [OF up2 irow(1)] irow(2) assms(3) obtain drow where
    drow: "places_ok s'" "instances s' = instances s1" "drow \<in> set (destinations s')"
      "d_ID drow = d" "d_InstanceID drow = i" "d_Meta drow = dm" by auto
  have "GetReminderDestination (d_ID drow) s' = Some \<lparr>rd_PlatformEnum = Some (i_Platform irow),
      rd_InstanceMeta = Some (i_Meta irow), rd_DestinationMeta = Some (d_Meta drow)\<rparr>"
    using drow irow by (intro get_destination_rows) simp_all
  with drow irow show ?thesis by simp
qed

definition empty_db :: db where
  "empty_db = \<lparr>reminders = [], instances = [], destinations = [], platform_users = [], action_records = []\<rparr>"

theorem destination_roundtrip_witness:
  "GetReminderDestination 9 (snd (GetOrCreateDestinationByMeta 7 9 \<lparr>rd_PlatformEnum = Some 1,
      rd_InstanceMeta = Some [(''instance_uid'', ''g'')], rd_DestinationMeta = Some [(''destination_uid'', ''c'')]\<rparr> empty_db))
   = Some \<lparr>rd_PlatformEnum = Some 1, rd_InstanceMeta = Some [(''instance_uid'', ''g'')],
      rd_DestinationMeta = Some [(''destination_uid'', ''c'')]\<rparr>"
proof -
  let ?r = "\<lparr>rd_PlatformEnum = Some 1, rd_InstanceMeta = Some [(''instance_uid'', ''g'')],
      rd_DestinationMeta = Some [(''destination_uid'', ''c'')]\<rparr>"
  have "GetOrCreateDestinationByMeta 7 9 ?r empty_db
      = (9, snd (GetOrCreateDestinationByMeta 7 9 ?r empty_db))"
    by (simp add: GetOrCreateDestinationByMeta_def upsert_instance_def upsert_destination_def
        find_instance_def find_destination_def empty_db_def)
  from destination_roundtrip [OF _ _ _ this] show ?thesis
    by (simp add: places_ok_def empty_db_def)
qed

end
