(* ===== verification/RpcInterceptors.thy ===== *)
theory RpcInterceptors
  imports UserStore DestinationStore
begin

text \<open>
  What stands between the network and a handler: caller identity and origin as request headers
  (\<open>pkg/grpc/callermeta\<close>) and the server's interceptors (\<open>pkg/grpc/interceptor\<close>), in the order
  \<open>cmd/ginbot-server/main.go\<close> chains them. A context is the record of the three values the
  interceptors put there; a handler maps a context and the server's state to an outcome, which
  may be a panic. Error messages leave out the quoted header value; log lines are left out.
\<close>

section \<open>Enumerations\<close>

definition Platform_value :: "(string \<times> int) list" where
  "Platform_value = [(''PLATFORM_UNSPECIFIED'', 0), (''PLATFORM_DISCORD'', 1),
     (''PLATFORM_MATRIX_PROTOCOL'', 2), (''PLATFORM_TELEGRAM'', 3), (''PLATFORM_LINE'', 4),
     (''PLATFORM_EMAIL'', 5), (''PLATFORM_SNAIL_MAIL'', 6)]"

definition Clearance_value :: "(string \<times> int) list" where
  "Clearance_value = [(''CLEARANCE_UNSPECIFIED'', 0), (''CLEARANCE_REGISTERED'', 1),
     (''CLEARANCE_MEMBER'', 10), (''CLEARANCE_MODERATOR'', 20), (''CLEARANCE_ADMINISTRATOR'', 50),
     (''CLEARANCE_OWNER'', 100)]"

text \<open>The generated \<open>String\<close> method: the name of the number, or the number itself.\<close>

definition enum_String :: "(string \<times> int) list \<Rightarrow> int \<Rightarrow> string" where
  "enum_String names n = (case find (\<lambda>e. snd e = n) names of Some e \<Rightarrow> fst e | None \<Rightarrow> FormatInt n)"

definition declared :: "int \<Rightarrow> bool" where
  "declared p \<longleftrightarrow> list_ex (\<lambda>e. snd e = p) Platform_value"

section \<open>Caller metadata\<close>

record caller_meta =
  cm_PlatformEnum :: int
  cm_PlatformUID :: "string option"

record origin =
  og_InstanceUID :: string
  og_DestinationUID :: string

definition FieldInstanceUID :: string where "FieldInstanceUID = ''instance_uid''"
definition FieldDestinationUID :: string where "FieldDestinationUID = ''destination_uid''"

definition InstanceMeta :: "origin \<Rightarrow> meta" where
  "InstanceMeta o' = [(FieldInstanceUID, og_InstanceUID o')]"

definition DestinationMeta :: "origin \<Rightarrow> meta" where
  "DestinationMeta o' = [(FieldDestinationUID, og_DestinationUID o')]"

definition HeaderPlatformEnum :: string where "HeaderPlatformEnum = ''ginbot-platform-enum''"
definition HeaderUserID :: string where "HeaderUserID = ''ginbot-user-id''"
definition HeaderInstanceUID :: string where "HeaderInstanceUID = ''ginbot-instance-uid''"
definition HeaderDestinationUID :: string where "HeaderDestinationUID = ''ginbot-destination-uid''"

lemmas header_names = HeaderPlatformEnum_def HeaderUserID_def HeaderInstanceUID_def
  HeaderDestinationUID_def

text \<open>\<open>http.Header\<close> with one value per name; \<open>Get\<close> of an absent name is empty.\<close>

type_synonym header = "string \<rightharpoonup> string"

definition header_Get :: "header \<Rightarrow> string \<Rightarrow> string" where
  "header_Get h k = (case h k of None \<Rightarrow> [] | Some v \<Rightarrow> v)"

text \<open>The client's side: what an outgoing context carries.\<close>

record outgoing =
  out_Caller :: "(int \<times> string) option"
  out_Origin :: "origin option"

definition NewOutgoingContext :: "int \<Rightarrow> string \<Rightarrow> outgoing \<Rightarrow> outgoing" where
  "NewOutgoingContext platform platformUID ctx = ctx\<lparr>out_Caller := Some (platform, platformUID)\<rparr>"

definition NewOutgoingOrigin :: "origin \<Rightarrow> outgoing \<Rightarrow> outgoing" where
  "NewOutgoingOrigin o' ctx = (if og_InstanceUID o' = [] then ctx else ctx\<lparr>out_Origin := Some o'\<rparr>)"

definition WriteHeader :: "outgoing \<Rightarrow> header \<Rightarrow> header" where
  "WriteHeader ctx h =
    (let h1 = (case out_Caller ctx of None \<Rightarrow> h
         | Some (platform, platformUID) \<Rightarrow>
             (let h' = h(HeaderPlatformEnum \<mapsto> enum_String Platform_value platform) in
              if platformUID = [] then h' else h'(HeaderUserID \<mapsto> platformUID)))
     in case out_Origin ctx of None \<Rightarrow> h1
        | Some o' \<Rightarrow>
            (let h' = h1(HeaderInstanceUID \<mapsto> og_InstanceUID o') in
             if og_DestinationUID o' = [] then h'
             else h'(HeaderDestinationUID \<mapsto> og_DestinationUID o')))"

definition FromHeader :: "header \<Rightarrow> caller_meta rpc" where
  "FromHeader h =
    (let platformValue = header_Get h HeaderPlatformEnum in
     if platformValue = [] then Inl (InvalidArgument, HeaderPlatformEnum @ '' is required'')
     else case map_of Platform_value platformValue of
       None \<Rightarrow> Inl (InvalidArgument, ''unknown '' @ HeaderPlatformEnum)
     | Some platform \<Rightarrow>
         if platform = 0 then Inl (InvalidArgument, HeaderPlatformEnum @ '' must not be unspecified'')
         else
           let userValue = header_Get h HeaderUserID in
           Inr \<lparr>cm_PlatformEnum = platform,
                cm_PlatformUID = (if userValue = [] then None else Some userValue)\<rparr>)"

definition OriginFromHeader :: "header \<Rightarrow> origin option" where
  "OriginFromHeader h =
    (let instanceValue = header_Get h HeaderInstanceUID in
     if instanceValue = [] then None
     else Some \<lparr>og_InstanceUID = instanceValue, og_DestinationUID = header_Get h HeaderDestinationUID\<rparr>)"

section \<open>Contexts and handlers\<close>

record call_ctx =
  cx_Meta :: "caller_meta option"
  cx_Caller :: "user_row option"
  cx_Origin :: "origin option"

definition background :: call_ctx where
  "background = \<lparr>cx_Meta = None, cx_Caller = None, cx_Origin = None\<rparr>"

datatype 'a outcome = Returned 'a | Panicked

type_synonym ('s, 'r) handler = "call_ctx \<Rightarrow> 's \<Rightarrow> 'r rpc outcome \<times> 's"

text \<open>What a handler reads back of the caller (\<open>callerUser\<close> of \<open>pkg/grpc/server/common.go\<close>).\<close>

definition caller_user :: "call_ctx \<Rightarrow> user_row rpc" where
  "caller_user ctx = (case cx_Caller ctx of
     None \<Rightarrow> Inl (Internal, ''caller was not resolved'')
   | Some u \<Rightarrow> Inr u)"

section \<open>Clearance\<close>

type_synonym requirements = "(string \<times> int) list"

datatype resolve_error = ResolveNotFound | ResolveFailed

type_synonym caller_resolver = "int \<Rightarrow> string \<Rightarrow> resolve_error + user_row option"

definition resolveCaller :: "caller_resolver \<Rightarrow> caller_meta rpc \<Rightarrow> user_row rpc" where
  "resolveCaller resolve metaResult =
    and_then metaResult (\<lambda>m.
      case cm_PlatformUID m of
        None \<Rightarrow> Inl (InvalidArgument, HeaderUserID @ '' metadata is required'')
      | Some uid \<Rightarrow> (case resolve (cm_PlatformEnum m) uid of
          Inl ResolveNotFound \<Rightarrow> Inl (FailedPrecondition, ''caller is not registered'')
        | Inl ResolveFailed \<Rightarrow> Inl (Internal, ''failed to resolve caller'')
        | Inr None \<Rightarrow> Inl (FailedPrecondition, ''caller is not registered'')
        | Inr (Some caller) \<Rightarrow> Inr caller))"

definition stash_meta :: "header \<Rightarrow> call_ctx \<Rightarrow> call_ctx" where
  "stash_meta h ctx = (case FromHeader h of Inl err \<Rightarrow> ctx | Inr m \<Rightarrow> ctx\<lparr>cx_Meta := Some m\<rparr>)"

definition too_low :: "string \<Rightarrow> int \<Rightarrow> rpc_error" where
  "too_low procedure minimum = (PermissionDenied,
     procedure @ '' requires '' @ enum_String Clearance_value minimum @ '' clearance'')"

definition Clearance_WrapUnary ::
  "requirements \<Rightarrow> caller_resolver option \<Rightarrow> string \<Rightarrow> header \<Rightarrow> ('s, 'r) handler \<Rightarrow> ('s, 'r) handler" where
  "Clearance_WrapUnary reqs resolver procedure h nxt ctx s =
    (let ctx1 = stash_meta h ctx in
     case map_of reqs procedure of
       None \<Rightarrow> nxt ctx1 s
     | Some minimum \<Rightarrow> (case resolver of
         None \<Rightarrow> (Returned (Inl (Internal, ''caller resolution is not configured'')), s)
       | Some resolve \<Rightarrow> (case resolveCaller resolve (FromHeader h) of
           Inl err \<Rightarrow> (Returned (Inl err), s)
         | Inr caller \<Rightarrow>
             if us_Clearance caller < minimum then (Returned (Inl (too_low procedure minimum)), s)
             else nxt (ctx1\<lparr>cx_Caller := Some caller\<rparr>) s)))"

text \<open>The streaming wrapper: a stream's one set of headers, an error as the only result.\<close>

definition Clearance_WrapStreamingHandler ::
  "requirements \<Rightarrow> caller_resolver option \<Rightarrow> string \<Rightarrow> header \<Rightarrow> ('s, unit) handler \<Rightarrow> ('s, unit) handler" where
  "Clearance_WrapStreamingHandler reqs resolver procedure h nxt ctx s =
    (let ctx1 = stash_meta h ctx in
     case map_of reqs procedure of
       None \<Rightarrow> nxt ctx1 s
     | Some minimum \<Rightarrow> (case resolver of
         None \<Rightarrow> (Returned (Inl (Internal, ''caller resolution is not configured'')), s)
       | Some resolve \<Rightarrow> (case resolveCaller resolve (FromHeader h) of
           Inl err \<Rightarrow> (Returned (Inl err), s)
         | Inr caller \<Rightarrow>
             if us_Clearance caller < minimum then (Returned (Inl (too_low procedure minimum)), s)
             else nxt (ctx1\<lparr>cx_Caller := Some caller\<rparr>) s)))"

lemma stream_is_unary: "Clearance_WrapStreamingHandler = Clearance_WrapUnary"
  by (intro ext) (simp add: Clearance_WrapStreamingHandler_def Clearance_WrapUnary_def)

definition proc :: "string \<Rightarrow> string \<Rightarrow> string" where
  "proc service_name method_name = ''/ginbot.v1.'' @ service_name @ ''/'' @ method_name"

definition DefaultRequirements :: requirements where
  "DefaultRequirements =
    [(proc ''AnalyticsService'' ''CreateActionRecord'', CLEARANCE_REGISTERED),
     (proc ''AnalyticsService'' ''ListActionRecords'', CLEARANCE_REGISTERED),
     (proc ''DiscordService'' ''SetDiscordActivityType'', CLEARANCE_ADMINISTRATOR),
     (proc ''EntertainmentService'' ''SetBirthday'', CLEARANCE_REGISTERED),
     (proc ''InstanceService'' ''GetInstance'', CLEARANCE_REGISTERED),
     (proc ''InstanceService'' ''ListInstances'', CLEARANCE_REGISTERED),
     (proc ''InstanceService'' ''CreateInstance'', CLEARANCE_ADMINISTRATOR),
     (proc ''InstanceService'' ''UpdateInstance'', CLEARANCE_ADMINISTRATOR),
     (proc ''InstanceService'' ''DeleteInstance'', CLEARANCE_ADMINISTRATOR),
     (proc ''ReminderService'' ''GetReminder'', CLEARANCE_REGISTERED),
     (proc ''ReminderService'' ''ListReminders'', CLEARANCE_REGISTERED),
     (proc ''ReminderService'' ''CreateReminder'', CLEARANCE_REGISTERED),
     (proc ''ReminderService'' ''UpdateReminder'', CLEARANCE_REGISTERED),
     (proc ''ReminderService'' ''DeleteReminder'', CLEARANCE_REGISTERED),
     (proc ''ReminderService'' ''ConfirmDelivery'', CLEARANCE_REGISTERED),
     (proc ''RepostService'' ''CheckRepost'', CLEARANCE_REGISTERED),
     (proc ''ReverseService'' ''OpenClientActionStream'', CLEARANCE_REGISTERED),
     (proc ''TriggerService'' ''TryTrigger'', CLEARANCE_REGISTERED),
     (proc ''TriggerService'' ''ExecTrigger'', CLEARANCE_REGISTERED),
     (proc ''TriggerService'' ''GetTrigger'', CLEARANCE_REGISTERED),
     (proc ''TriggerService'' ''ListTriggers'', CLEARANCE_REGISTERED),
     (proc ''TriggerService'' ''CreateTrigger'', CLEARANCE_REGISTERED),
     (proc ''TriggerService'' ''UpdateTrigger'', CLEARANCE_REGISTERED),
     (proc ''TriggerService'' ''DeleteTrigger'', CLEARANCE_REGISTERED),
     (proc ''TriggerService'' ''GetTriggerStats'', CLEARANCE_REGISTERED),
     (proc ''TriggerService'' ''GetFile'', CLEARANCE_REGISTERED),
     (proc ''UserService'' ''GetUser'', CLEARANCE_REGISTERED),
     (proc ''UserService'' ''GetCongratulableBirthdays'', CLEARANCE_REGISTERED),
     (proc ''UserService'' ''SetLocale'', CLEARANCE_REGISTERED),
     (proc ''UserService'' ''SetTimezone'', CLEARANCE_REGISTERED)]"

text \<open>
  The procedures of the services \<open>pkg/grpc/service/service.go\<close> mounts, as their protobuf
  definitions declare them, and those that are meant to be public.
\<close>

definition Handlers :: "(string \<times> string list) list" where
  "Handlers =
    [(''InstanceService'', [''GetInstance'', ''ListInstances'', ''CreateInstance'',
        ''UpdateInstance'', ''DeleteInstance'']),
     (''UserService'', [''GetUser'', ''Register'', ''GetCongratulableBirthdays'', ''SetLocale'',
        ''SetTimezone'']),
     (''UtilityService'', [''HealthCheck'', ''Ping'']),
     (''ReminderService'', [''GetReminder'', ''ListReminders'', ''CreateReminder'',
        ''UpdateReminder'', ''DeleteReminder'', ''ConfirmDelivery'']),
     (''AnalyticsService'', [''CreateActionRecord'', ''ListActionRecords'']),
     (''EntertainmentService'', [''GetRandomNumber'', ''SetBirthday'']),
     (''ReverseService'', [''OpenClientActionStream'']),
     (''TriggerService'', [''TryTrigger'', ''ExecTrigger'', ''GetTrigger'', ''ListTriggers'',
        ''CreateTrigger'', ''UpdateTrigger'', ''DeleteTrigger'', ''GetTriggerStats'', ''GetFile'']),
     (''RepostService'', [''CheckRepost''])]"

definition mounted :: "string list" where
  "mounted = concat (map (\<lambda>(svc, ms). map (proc svc) ms) Handlers)"

definition public_procs :: "string list" where
  "public_procs = [proc ''UserService'' ''Register'', proc ''UtilityService'' ''HealthCheck'',
     proc ''UtilityService'' ''Ping'', proc ''EntertainmentService'' ''GetRandomNumber'']"

section \<open>Origin\<close>

text \<open>
  The cache of origins whose rows were written: the keys in the order they were remembered.
  \<open>iter\<close> is the order in which one \<open>range\<close> over the map yields its keys, which Go leaves open.
\<close>

definition originCacheMaxEntries :: nat where "originCacheMaxEntries = 4096"
definition originCacheEvictDivisor :: nat where "originCacheEvictDivisor = 4"

type_synonym seen = "string list"

definition known :: "string \<Rightarrow> seen \<Rightarrow> bool" where
  "known key seen \<longleftrightarrow> key \<in> set seen"

fun evict_loop :: "nat \<Rightarrow> string list \<Rightarrow> string list" where
  "evict_loop remaining [] = []"
| "evict_loop remaining (key # ks) =
     (let remaining' = remaining - 1 in if remaining' = 0 then ks else evict_loop remaining' ks)"

definition evictLocked :: "(string list \<Rightarrow> string list) \<Rightarrow> seen \<Rightarrow> seen" where
  "evictLocked iter seen =
    (let remaining = length seen div originCacheEvictDivisor in
     evict_loop (if remaining = 0 then 1 else remaining) (iter seen))"

definition remember :: "(string list \<Rightarrow> string list) \<Rightarrow> string \<Rightarrow> seen \<Rightarrow> seen" where
  "remember iter key seen =
    (let seen1 = (if originCacheMaxEntries \<le> length seen then evictLocked iter seen else seen) in
     if key \<in> set seen1 then seen1 else seen1 @ [key])"

definition originKey :: "int \<Rightarrow> origin \<Rightarrow> string" where
  "originKey platform o' =
     join [CHR 0x00] [enum_String Platform_value platform, og_InstanceUID o', og_DestinationUID o']"

text \<open>An \<open>OriginResolver\<close>: the destination id, or an error (\<open>None\<close>).\<close>

type_synonym 'd origin_resolver = "reminder_destination \<Rightarrow> 'd \<Rightarrow> int option \<times> 'd"

definition bootstrapOrigin :: "'d origin_resolver \<Rightarrow> int \<Rightarrow> origin \<Rightarrow> 'd \<Rightarrow> bool \<times> 'd" where
  "bootstrapOrigin resolve platform o' d =
    (case resolve \<lparr>rd_PlatformEnum = Some platform, rd_InstanceMeta = Some (InstanceMeta o'),
         rd_DestinationMeta = Some (DestinationMeta o')\<rparr> d of
       (None, d') \<Rightarrow> (False, d')
     | (Some destinationID, d') \<Rightarrow> (True, d'))"

definition bootstrap_new ::
  "(string list \<Rightarrow> string list) \<Rightarrow> 'd origin_resolver \<Rightarrow> int \<Rightarrow> origin \<Rightarrow> seen \<times> 'd \<Rightarrow> seen \<times> 'd" where
  "bootstrap_new iter resolve platform o' st =
    (let (seen, d) = st; key = originKey platform o' in
     if known key seen then (seen, d)
     else (case bootstrapOrigin resolve platform o' d of
         (True, d') \<Rightarrow> (remember iter key seen, d')
       | (False, d') \<Rightarrow> (seen, d')))"

definition bootstrap ::
  "(string list \<Rightarrow> string list) \<Rightarrow> 'd origin_resolver option \<Rightarrow> header \<Rightarrow> call_ctx \<Rightarrow> seen \<times> 'd
     \<Rightarrow> call_ctx \<times> (seen \<times> 'd)" where
  "bootstrap iter resolver h ctx st =
    (if cx_Caller ctx = None then (ctx, st)
     else case OriginFromHeader h of
       None \<Rightarrow> (ctx, st)
     | Some o' \<Rightarrow>
         let ctx1 = ctx\<lparr>cx_Origin := Some o'\<rparr> in
         (case resolver of
            None \<Rightarrow> (ctx1, st)
          | Some resolve \<Rightarrow>
              if og_DestinationUID o' = [] then (ctx1, st)
              else (case cx_Meta ctx1 of
                  None \<Rightarrow> (ctx1, st)
                | Some m \<Rightarrow> (ctx1, bootstrap_new iter resolve (cm_PlatformEnum m) o' st))))"

text \<open>The handler behind the interceptor has the state \<open>'d\<close>; the cache is the interceptor's.\<close>

definition Origin_WrapUnary ::
  "(string list \<Rightarrow> string list) \<Rightarrow> 'd origin_resolver option \<Rightarrow> header \<Rightarrow> ('d, 'r) handler
     \<Rightarrow> (seen \<times> 'd, 'r) handler" where
  "Origin_WrapUnary iter resolver h nxt ctx st =
    (case bootstrap iter resolver h ctx st of
       (ctx', (seen, d)) \<Rightarrow> (case nxt ctx' d of (res, d') \<Rightarrow> (res, (seen, d'))))"

section \<open>Recovery and the chain\<close>

definition Recover_WrapUnary :: "('s, 'r) handler \<Rightarrow> call_ctx \<Rightarrow> 's \<Rightarrow> 'r rpc \<times> 's" where
  "Recover_WrapUnary nxt ctx s =
    (case nxt ctx s of
       (Returned r, s') \<Rightarrow> (r, s')
     | (Panicked, s') \<Rightarrow> (Inl (Internal, ''internal error''), s'))"

text \<open>
  One call through the chain of \<open>main.go\<close>: recovery, validation (\<open>violation\<close> is what the
  protovalidate interceptor says of the request), clearance, origin, handler.
\<close>

definition serve ::
  "(string list \<Rightarrow> string list) \<Rightarrow> rpc_error option \<Rightarrow> caller_resolver option \<Rightarrow> 'd origin_resolver option
     \<Rightarrow> string \<Rightarrow> header \<Rightarrow> ('d, 'r) handler \<Rightarrow> seen \<times> 'd \<Rightarrow> 'r rpc \<times> (seen \<times> 'd)" where
  "serve iter violation resolver originResolver procedure h nxt st =
     Recover_WrapUnary (\<lambda>ctx st. case violation of
         Some err \<Rightarrow> (Returned (Inl err), st)
       | None \<Rightarrow> Clearance_WrapUnary DefaultRequirements resolver procedure h
           (Origin_WrapUnary iter originResolver h nxt) ctx st) background st"


section \<open>Headers carry what the client attached\<close>

lemma platform_value_names: "map_of Platform_value n = Some p \<Longrightarrow> enum_String Platform_value p = n"
  by (auto simp: Platform_value_def enum_String_def split: if_splits)

lemma platform_name_value:
  "declared p \<Longrightarrow> map_of Platform_value (enum_String Platform_value p) = Some p"
  by (auto simp: declared_def Platform_value_def enum_String_def)

lemma platform_name_nonempty: "declared p \<Longrightarrow> enum_String Platform_value p \<noteq> []"
  by (auto simp: declared_def Platform_value_def enum_String_def)

text \<open>
  What the platform client attaches to a call is what the server reads from its headers: the
  platform and the user id (none for an empty id), and the origin, with none for a direct message;
  an unspecified platform is refused.
\<close>

theorem header_roundtrip:
  assumes "declared p"
  shows "FromHeader (WriteHeader (NewOutgoingOrigin o' (NewOutgoingContext p uid ctx)) Map.empty)
       = (if p = 0 then Inl (InvalidArgument, ''ginbot-platform-enum must not be unspecified'')
          else Inr \<lparr>cm_PlatformEnum = p, cm_PlatformUID = (if uid = [] then None else Some uid)\<rparr>)
    \<and> (out_Origin ctx = None \<longrightarrow>
       OriginFromHeader (WriteHeader (NewOutgoingOrigin o' (NewOutgoingContext p uid ctx)) Map.empty)
       = (if og_InstanceUID o' = [] then None else Some o'))"
  using assms platform_name_value [OF assms] platform_name_nonempty [OF assms]
  by (auto simp: FromHeader_def OriginFromHeader_def WriteHeader_def NewOutgoingOrigin_def
      NewOutgoingContext_def header_Get_def header_names Let_def split: option.splits)

theorem header_roundtrip_witness:
  "FromHeader (WriteHeader (NewOutgoingOrigin \<lparr>og_InstanceUID = ''g'', og_DestinationUID = ''c''\<rparr>
      (NewOutgoingContext 1 ''u'' \<lparr>out_Caller = None, out_Origin = None\<rparr>)) Map.empty)
   = Inr \<lparr>cm_PlatformEnum = 1, cm_PlatformUID = Some ''u''\<rparr>
   \<and> OriginFromHeader (WriteHeader (NewOutgoingOrigin \<lparr>og_InstanceUID = ''g'', og_DestinationUID = ''c''\<rparr>
      (NewOutgoingContext 1 ''u'' \<lparr>out_Caller = None, out_Origin = None\<rparr>)) Map.empty)
   = Some \<lparr>og_InstanceUID = ''g'', og_DestinationUID = ''c''\<rparr>"
  using header_roundtrip [of 1 "\<lparr>og_InstanceUID = ''g'', og_DestinationUID = ''c''\<rparr>" "''u''"
      "\<lparr>out_Caller = None, out_Origin = None\<rparr>"]
  by (simp add: declared_def Platform_value_def)

section \<open>Only resolved callers reach a guarded handler\<close>

lemma unguarded_are_public:
  "set (filter (\<lambda>p. map_of DefaultRequirements p = None) mounted) = set public_procs"
  by code_simp

lemma guarded_minimum: "list_all (\<lambda>e. CLEARANCE_REGISTERED \<le> snd e) DefaultRequirements"
  by code_simp

lemma guarded_procedure:
  assumes "procedure \<in> set mounted" and "procedure \<notin> set public_procs"
  obtains minimum where "map_of DefaultRequirements procedure = Some minimum"
    and "CLEARANCE_REGISTERED \<le> minimum"
proof -
  from assms unguarded_are_public obtain minimum where
    m: "map_of DefaultRequirements procedure = Some minimum" by fastforce
  moreover from map_of_SomeD [OF m] guarded_minimum have "CLEARANCE_REGISTERED \<le> minimum"
    by (auto simp: list_all_iff)
  ultimately show ?thesis by (rule that)
qed

text \<open>The header names an identity that resolves to a user with enough clearance.\<close>

definition may_run :: "caller_resolver \<Rightarrow> int \<Rightarrow> header \<Rightarrow> caller_meta \<Rightarrow> user_row \<Rightarrow> bool" where
  "may_run resolve minimum h m u \<longleftrightarrow> FromHeader h = Inr m \<and> minimum \<le> us_Clearance u
     \<and> (case cm_PlatformUID m of None \<Rightarrow> False
        | Some uid \<Rightarrow> resolve (cm_PlatformEnum m) uid = Inr (Some u))"

lemma resolveCaller_Inr:
  "resolveCaller resolve r = Inr u \<longleftrightarrow> (\<exists>m uid. r = Inr m \<and> cm_PlatformUID m = Some uid
     \<and> resolve (cm_PlatformEnum m) uid = Inr (Some u))"
proof (cases r)
  case (Inr m)
  then show ?thesis
    by (cases "cm_PlatformUID m")
      (auto simp: resolveCaller_def split: option.split sum.split resolve_error.split)
qed (simp add: resolveCaller_def)

lemma may_run_iff: "may_run resolve minimum h m u \<longleftrightarrow> FromHeader h = Inr m
    \<and> resolveCaller resolve (FromHeader h) = Inr u \<and> minimum \<le> us_Clearance u"
  by (auto simp: may_run_def resolveCaller_Inr split: option.splits)

lemma clearance_runs:
  assumes "map_of reqs procedure = Some minimum" and "may_run resolve minimum h m u"
  shows "Clearance_WrapUnary reqs (Some resolve) procedure h nxt ctx s
     = nxt (ctx\<lparr>cx_Meta := Some m, cx_Caller := Some u\<rparr>) s"
  using assms by (auto simp: Clearance_WrapUnary_def stash_meta_def may_run_iff)

lemma clearance_refuses:
  assumes "map_of reqs procedure = Some minimum" and "\<And>m u. \<not> may_run resolve minimum h m u"
  shows "\<exists>err. Clearance_WrapUnary reqs (Some resolve) procedure h nxt ctx s = (Returned (Inl err), s)"
proof (cases "resolveCaller resolve (FromHeader h)")
  case (Inl err)
  with assms(1) show ?thesis by (simp add: Clearance_WrapUnary_def)
next
  case (Inr u)
  then obtain m where "FromHeader h = Inr m" unfolding resolveCaller_Inr by blast
  with Inr assms(2) [of m u] have "us_Clearance u < minimum" by (simp add: may_run_iff)
  with Inr assms(1) show ?thesis by (simp add: Clearance_WrapUnary_def)
qed

text \<open>
  C4: Every procedure the server mounts, the four public ones apart, has a clearance floor of at
  least REGISTERED: its handler runs exactly when the headers name an identity that resolves to a
  user at or above the floor, with that user as the caller, and otherwise the call is refused with
  nothing run and nothing written, not even the origin's rows.
\<close>

theorem guarded_calls_authenticated:
  assumes "procedure \<in> set mounted" and "procedure \<notin> set public_procs"
  shows "case map_of DefaultRequirements procedure of None \<Rightarrow> False | Some minimum \<Rightarrow>
     CLEARANCE_REGISTERED \<le> minimum
   \<and> (\<forall>m u. may_run resolve minimum h m u \<longrightarrow>
        serve iter None (Some resolve) originResolver procedure h nxt st
        = Recover_WrapUnary (Origin_WrapUnary iter originResolver h nxt)
            \<lparr>cx_Meta = Some m, cx_Caller = Some u, cx_Origin = None\<rparr> st)
   \<and> ((\<forall>m u. \<not> may_run resolve minimum h m u) \<longrightarrow>
        (\<exists>err. serve iter None (Some resolve) originResolver procedure h nxt st = (Inl err, st)))"
proof -
  from assms obtain minimum where
    m: "map_of DefaultRequirements procedure = Some minimum" "CLEARANCE_REGISTERED \<le> minimum"
    by (rule guarded_procedure)
  have "serve iter None (Some resolve) originResolver procedure h nxt st
        = Recover_WrapUnary (Origin_WrapUnary iter originResolver h nxt)
            \<lparr>cx_Meta = Some c, cx_Caller = Some u, cx_Origin = None\<rparr> st"
    if "may_run resolve minimum h c u" for c u
    by (simp add: serve_def Recover_WrapUnary_def clearance_runs [OF m(1) that] background_def)
  moreover have "\<exists>err. serve iter None (Some resolve) originResolver procedure h nxt st = (Inl err, st)"
    if none: "\<forall>m u. \<not> may_run resolve minimum h m u"
  proof -
    have "\<exists>err. Clearance_WrapUnary DefaultRequirements (Some resolve) procedure h
         (Origin_WrapUnary iter originResolver h nxt) background st = (Returned (Inl err), st)"
      by (rule clearance_refuses [OF m(1)]) (simp add: none)
    then obtain err where
      "Clearance_WrapUnary DefaultRequirements (Some resolve) procedure h
         (Origin_WrapUnary iter originResolver h nxt) background st = (Returned (Inl err), st)" ..
    then show ?thesis by (simp add: serve_def Recover_WrapUnary_def)
  qed
  ultimately show ?thesis using m by simp
qed

definition example_header :: header where
  "example_header = WriteHeader \<lparr>out_Caller = Some (1, ''42''),
     out_Origin = Some \<lparr>og_InstanceUID = ''g'', og_DestinationUID = ''c''\<rparr>\<rparr> Map.empty"

definition example_user :: user_row where
  "example_user = \<lparr>us_ID = ''u'', us_Username = ''gin'', us_Clearance = 1, us_Locale = None,
     us_Timezone = None, us_Deleted = False\<rparr>"

theorem guarded_calls_authenticated_witness:
  "serve (\<lambda>xs. xs) None (Some (\<lambda>platform uid. if platform = 1 \<and> uid = ''42'' then Inr (Some example_user)
       else Inl ResolveNotFound)) None (proc ''TriggerService'' ''GetFile'') example_header
     (\<lambda>ctx n. (Returned (Inr (map_option us_ID (cx_Caller ctx))), n + 1)) ([], 0 :: nat)
   = (Inr (Some ''u''), ([], 1))"
proof -
  let ?resolve = "\<lambda>platform uid. if platform = 1 \<and> uid = ''42'' then Inr (Some example_user)
       else Inl ResolveNotFound"
  let ?m = "\<lparr>cm_PlatformEnum = 1, cm_PlatformUID = Some ''42''\<rparr>"
  have h: "FromHeader example_header = Inr ?m" by code_simp
  have "map_of DefaultRequirements (proc ''TriggerService'' ''GetFile'') = Some 1" by code_simp
  moreover have "may_run ?resolve 1 example_header ?m example_user"
    by (simp add: may_run_def h example_user_def)
  moreover have "proc ''TriggerService'' ''GetFile'' \<in> set mounted"
    "proc ''TriggerService'' ''GetFile'' \<notin> set public_procs" by code_simp+
  ultimately have "serve (\<lambda>xs. xs) None (Some ?resolve) None (proc ''TriggerService'' ''GetFile'') example_header
     (\<lambda>ctx n. (Returned (Inr (map_option us_ID (cx_Caller ctx))), n + 1)) ([], 0 :: nat)
   = Recover_WrapUnary (Origin_WrapUnary (\<lambda>xs. xs) None example_header
       (\<lambda>ctx n. (Returned (Inr (map_option us_ID (cx_Caller ctx))), n + 1)))
       \<lparr>cx_Meta = Some ?m, cx_Caller = Some example_user, cx_Origin = None\<rparr> ([], 0)"
    using guarded_calls_authenticated [of "proc ''TriggerService'' ''GetFile''" ?resolve example_header
        "\<lambda>xs. xs" None "\<lambda>ctx n. (Returned (Inr (map_option us_ID (cx_Caller ctx))), n + 1)" "([], 0 :: nat)"]
    by simp
  also have "\<dots> = (Inr (Some ''u''), ([], 1))"
    by (simp add: Recover_WrapUnary_def Origin_WrapUnary_def bootstrap_def example_user_def
        split: option.split)
  finally show ?thesis .
qed

section \<open>What the origin cache vouches for\<close>

lemma evict_loop_drop: "0 < n \<Longrightarrow> evict_loop n ks = drop n ks"
proof (induction ks arbitrary: n)
  case (Cons k ks)
  then show ?case by (cases "n = 1") (auto simp: Let_def drop_Cons' )
qed simp

text \<open>A \<open>range\<close> over the map yields each key once.\<close>

definition iterates :: "(string list \<Rightarrow> string list) \<Rightarrow> bool" where
  "iterates iter \<longleftrightarrow> (\<forall>ks. distinct ks \<longrightarrow> distinct (iter ks) \<and> set (iter ks) = set ks)"

lemma evictLocked_spec:
  assumes "iterates iter" and "distinct seen"
  shows "distinct (evictLocked iter seen) \<and> set (evictLocked iter seen) \<subseteq> set seen
    \<and> (seen \<noteq> [] \<longrightarrow> length (evictLocked iter seen) < length seen)"
proof -
  have it: "distinct (iter seen)" "set (iter seen) = set seen"
    using assms by (auto simp: iterates_def)
  then have len: "length (iter seen) = length seen"
    using assms(2) by (metis distinct_card)
  let ?n = "if length seen div originCacheEvictDivisor = 0 then 1 else length seen div originCacheEvictDivisor"
  have "evictLocked iter seen = drop ?n (iter seen)"
    by (simp add: evictLocked_def evict_loop_drop Let_def)
  moreover have "0 < ?n" by simp
  ultimately show ?thesis using it len set_drop_subset [of ?n "iter seen"] by auto
qed

lemma remember_spec:
  assumes "iterates iter" and "distinct seen" and "length seen \<le> originCacheMaxEntries"
  shows "distinct (remember iter key seen) \<and> length (remember iter key seen) \<le> originCacheMaxEntries
    \<and> set (remember iter key seen) \<subseteq> insert key (set seen) \<and> key \<in> set (remember iter key seen)"
proof (cases "originCacheMaxEntries \<le> length seen")
  case True
  then have "seen \<noteq> []" by (auto simp: originCacheMaxEntries_def)
  with evictLocked_spec [OF assms(1,2)] assms(3) True show ?thesis
    by (auto simp: remember_def Let_def)
next
  case False
  with assms show ?thesis by (auto simp: remember_def Let_def)
qed

text \<open>The two rows a bootstrap writes.\<close>

definition rows_present :: "int \<Rightarrow> origin \<Rightarrow> db \<Rightarrow> bool" where
  "rows_present platform o' d \<longleftrightarrow>
     list_ex (\<lambda>i. i_Platform i = platform \<and> i_Meta i = InstanceMeta o'
       \<and> list_ex (\<lambda>t. d_InstanceID t = i_ID i \<and> d_Meta t = DestinationMeta o') (destinations d))
     (instances d)"

definition keeps_rows :: "db \<Rightarrow> db \<Rightarrow> bool" where
  "keeps_rows d d' \<longleftrightarrow> set (instances d) \<subseteq> set (instances d') \<and> set (destinations d) \<subseteq> set (destinations d')"

lemma rows_present_mono: "keeps_rows d d' \<Longrightarrow> rows_present p o' d \<Longrightarrow> rows_present p o' d'"
  unfolding keeps_rows_def rows_present_def list_ex_iff by blast

text \<open>\<open>db.GetOrCreateDestinationByMeta\<close> as the resolver, with the ids its inserts draw.\<close>

definition db_resolver :: "int \<Rightarrow> int \<Rightarrow> bool \<Rightarrow> db origin_resolver" where
  "db_resolver newInstance newDestination down dest d =
    (if down then (None, d)
     else map_prod Some id (GetOrCreateDestinationByMeta newInstance newDestination dest d))"

lemma get_or_create_keeps: "keeps_rows d (snd (GetOrCreateDestinationByMeta ni nd dest d))"
  by (auto simp: keeps_rows_def GetOrCreateDestinationByMeta_def upsert_instance_def
      upsert_destination_def Let_def split: option.splits prod.splits)

lemma upsert_instance_row:
  assumes "upsert_instance n p m d = (i, d')"
  shows "\<exists>row \<in> set (instances d'). i_ID row = i \<and> i_Platform row = p \<and> i_Meta row = m"
proof (cases "find_instance p m d")
  case (Some row)
  with assms find_SomeD [OF Some [unfolded find_instance_def]] show ?thesis
    by (auto simp: upsert_instance_def)
qed (use assms in \<open>auto simp: upsert_instance_def\<close>)

lemma upsert_destination_row:
  assumes "upsert_destination n i m d = (r, d')"
  shows "(\<exists>row \<in> set (destinations d'). d_InstanceID row = i \<and> d_Meta row = m) \<and> instances d' = instances d"
proof (cases "find_destination i m d")
  case (Some row)
  with assms find_SomeD [OF Some [unfolded find_destination_def]] show ?thesis
    by (auto simp: upsert_destination_def)
qed (use assms in \<open>auto simp: upsert_destination_def\<close>)

lemma get_or_create_present:
  "rows_present p o' (snd (GetOrCreateDestinationByMeta ni nd \<lparr>rd_PlatformEnum = Some p,
     rd_InstanceMeta = Some (InstanceMeta o'), rd_DestinationMeta = Some (DestinationMeta o')\<rparr> d))"
proof -
  obtain i d1 where up1: "upsert_instance ni p (InstanceMeta o') d = (i, d1)" by fastforce
  obtain r d2 where up2: "upsert_destination nd i (DestinationMeta o') d1 = (r, d2)" by fastforce
  from upsert_instance_row [OF up1] upsert_destination_row [OF up2] have "rows_present p o' d2"
    by (fastforce simp: rows_present_def list_ex_iff)
  then show ?thesis by (simp add: GetOrCreateDestinationByMeta_def up1 up2)
qed

section \<open>Keys\<close>

text \<open>Header values carry no NUL byte, so a key determines its parts.\<close>

definition nul_free :: "origin \<Rightarrow> bool" where
  "nul_free o' \<longleftrightarrow> CHR 0x00 \<notin> set (og_InstanceUID o') \<and> CHR 0x00 \<notin> set (og_DestinationUID o')"

lemma platform_name_nul: "declared p \<Longrightarrow> CHR 0x00 \<notin> set (enum_String Platform_value p)"
  by (auto simp: declared_def Platform_value_def enum_String_def)

lemma split_originKey:
  assumes "declared p" and "nul_free o'"
  shows "split_byte (CHR 0x00) (originKey p o')
     = [enum_String Platform_value p, og_InstanceUID o', og_DestinationUID o']"
  using assms platform_name_nul [OF assms(1)]
  by (simp add: originKey_def nul_free_def split_byte_append split_byte_single)

lemma originKey_inj:
  assumes "declared p" "nul_free o'" "declared p'" "nul_free o''"
    and "originKey p o' = originKey p' o''"
  shows "p = p' \<and> o' = o''"
proof -
  have "[enum_String Platform_value p, og_InstanceUID o', og_DestinationUID o']
      = [enum_String Platform_value p', og_InstanceUID o'', og_DestinationUID o'']"
    using split_originKey [OF assms(1,2)] split_originKey [OF assms(3,4)] assms(5) by metis
  moreover from this have "p = p'"
    using platform_name_value [OF assms(1)] platform_name_value [OF assms(3)]
    by (metis list.inject option.inject)
  ultimately show ?thesis by (cases o', cases o'') simp
qed

section \<open>Reachable states of the cache and the tables\<close>

text \<open>
  The context the clearance interceptor hands on, bootstraps from any calls, and any other
  statement in between, none of which removes an instance or a destination.
\<close>

definition call_context :: "header \<Rightarrow> user_row option \<Rightarrow> call_ctx" where
  "call_context h caller = (stash_meta h background)\<lparr>cx_Caller := caller\<rparr>"

definition header_nul_free :: "header \<Rightarrow> bool" where
  "header_nul_free h \<longleftrightarrow> (case OriginFromHeader h of None \<Rightarrow> True | Some o' \<Rightarrow> nul_free o')"

inductive origin_reachable :: "(string list \<Rightarrow> string list) \<Rightarrow> seen \<times> db \<Rightarrow> bool" for iter where
  start: "origin_reachable iter ([], d)"
| call: "origin_reachable iter st \<Longrightarrow> header_nul_free h \<Longrightarrow>
     bootstrap iter (Some (db_resolver ni nd down)) h (call_context h caller) st = (ctx', st') \<Longrightarrow>
     origin_reachable iter st'"
| other: "origin_reachable iter (seen, d) \<Longrightarrow> keeps_rows d d' \<Longrightarrow> origin_reachable iter (seen, d')"

definition cache_ok :: "seen \<times> db \<Rightarrow> bool" where
  "cache_ok st \<longleftrightarrow> distinct (fst st) \<and> length (fst st) \<le> originCacheMaxEntries
     \<and> (\<forall>key \<in> set (fst st). \<exists>p o'. declared p \<and> nul_free o'
          \<and> key = originKey p o' \<and> rows_present p o' (snd st))"

lemma FromHeader_declared:
  assumes "FromHeader h = Inr m"
  shows "declared (cm_PlatformEnum m)"
proof -
  from assms have "map_of Platform_value (header_Get h HeaderPlatformEnum) = Some (cm_PlatformEnum m)"
    by (auto simp: FromHeader_def Let_def split: if_splits option.splits)
  from map_of_SomeD [OF this] show ?thesis unfolding declared_def list_ex_iff by (metis snd_conv)
qed

lemma context_platform:
  "cx_Meta (call_context h caller) = Some m \<Longrightarrow> declared (cm_PlatformEnum m)"
  by (auto simp: call_context_def stash_meta_def background_def FromHeader_declared
      split: sum.splits)

lemma bootstrap_new_ok:
  assumes "iterates iter" and "cache_ok st" and "declared p" and "nul_free o'"
  shows "cache_ok (bootstrap_new iter (db_resolver ni nd down) p o' st)
    \<and> (known (originKey p o') (fst st) \<or> \<not> down \<longrightarrow>
       rows_present p o' (snd (bootstrap_new iter (db_resolver ni nd down) p o' st)))"
proof -
  obtain seen d where st: "st = (seen, d)" by fastforce
  let ?key = "originKey p o'"
  show ?thesis
  proof (cases "known ?key seen")
    case True
    then obtain p' o'' where o'': "declared p'" "nul_free o''"
        "?key = originKey p' o''" "rows_present p' o'' d"
      using assms(2) unfolding cache_ok_def known_def st fst_conv snd_conv by blast
    with originKey_inj [OF assms(3,4) o''(1,2)] True assms(2) show ?thesis
      by (simp add: bootstrap_new_def st)
  next
    case False
    show ?thesis
    proof (cases down)
      case True
      with False assms(2) show ?thesis
        by (simp add: bootstrap_new_def st bootstrapOrigin_def db_resolver_def)
    next
      case up: False
      define d' where "d' = snd (GetOrCreateDestinationByMeta ni nd \<lparr>rd_PlatformEnum = Some p,
        rd_InstanceMeta = Some (InstanceMeta o'), rd_DestinationMeta = Some (DestinationMeta o')\<rparr> d)"
      have new: "bootstrap_new iter (db_resolver ni nd down) p o' st = (remember iter ?key seen, d')"
        using False up
        by (simp add: bootstrap_new_def st bootstrapOrigin_def db_resolver_def d'_def
            map_prod_def split_beta)
      have here: "rows_present p o' d'" unfolding d'_def by (rule get_or_create_present)
      have keep: "keeps_rows d d'" unfolding d'_def by (rule get_or_create_keeps)
      have seen: "distinct seen" "length seen \<le> originCacheMaxEntries"
        using assms(2) by (simp_all add: cache_ok_def st)
      have "\<exists>p o'. declared p \<and> nul_free o' \<and> key = originKey p o'
          \<and> rows_present p o' d'" if "key \<in> set (remember iter ?key seen)" for key
      proof (cases "key = ?key")
        case True
        with here assms(3,4) show ?thesis by blast
      next
        case False
        with that remember_spec [OF assms(1) seen, of ?key] have "key \<in> set seen" by blast
        with assms(2) rows_present_mono [OF keep] show ?thesis
          by (fastforce simp: cache_ok_def st)
      qed
      with remember_spec [OF assms(1) seen, of ?key] here show ?thesis
        by (simp add: new cache_ok_def)
    qed
  qed
qed

lemma bootstrap_ok:
  assumes "iterates iter" and "cache_ok st" and "header_nul_free h"
  shows "cache_ok (snd (bootstrap iter (Some (db_resolver ni nd down)) h (call_context h caller) st))"
proof -
  have "cache_ok (bootstrap_new iter (db_resolver ni nd down) (cm_PlatformEnum m) o' st)"
    if "OriginFromHeader h = Some o'" and "cx_Meta (call_context h caller) = Some m" for o' m
    using bootstrap_new_ok [OF assms(1,2) context_platform [OF that(2)], of o'] that(1) assms(3)
    by (simp add: header_nul_free_def)
  then show ?thesis using assms(2) by (auto simp: bootstrap_def Let_def split: option.split)
qed

lemma reachable_cache_ok:
  assumes "iterates iter"
  shows "origin_reachable iter st \<Longrightarrow> cache_ok st"
proof (induction rule: origin_reachable.induct)
  case (call st h ni nd down caller ctx' st')
  with bootstrap_ok [OF assms call.IH call.hyps(2), of ni nd down caller] show ?case by simp
next
  case (other seen d d')
  with rows_present_mono [OF other.hyps(2)] show ?case by (fastforce simp: cache_ok_def)
qed (simp add: cache_ok_def)

text \<open>
  The origin cache never holds more than 4096 keys, and it only ever saves a write that is not
  needed: after the bootstrap of a guarded call that names a channel, the instance and destination
  rows of that very place exist, whether they were written now or the cache skipped the write,
  unless the database was down on first contact.
\<close>

theorem origin_cache_sound:
  assumes "iterates iter" and "origin_reachable iter (seen, d)"
    and "FromHeader h = Inr m" and "OriginFromHeader h = Some o'" and "og_DestinationUID o' \<noteq> []"
    and "nul_free o'" and "known (originKey (cm_PlatformEnum m) o') seen \<or> \<not> down"
    and "bootstrap iter (Some (db_resolver ni nd down)) h (call_context h (Some u)) (seen, d)
       = (ctx', (seen', d'))"
  shows "length seen' \<le> 4096 \<and> cx_Origin ctx' = Some o' \<and> rows_present (cm_PlatformEnum m) o' d'"
proof -
  have ctx: "cx_Meta (call_context h (Some u)) = Some m" "cx_Caller (call_context h (Some u)) = Some u"
    using assms(3) by (simp_all add: call_context_def stash_meta_def)
  have ok: "cache_ok (seen, d)" by (rule reachable_cache_ok [OF assms(1,2)])
  have run: "ctx' = (call_context h (Some u))\<lparr>cx_Origin := Some o'\<rparr>"
      "bootstrap_new iter (db_resolver ni nd down) (cm_PlatformEnum m) o' (seen, d) = (seen', d')"
    using assms(4,5,8) ctx by (simp_all add: bootstrap_def Let_def)
  have "cache_ok (seen', d') \<and> rows_present (cm_PlatformEnum m) o' d'"
    using bootstrap_new_ok [OF assms(1) ok context_platform [OF ctx(1)] assms(6), of ni nd down] assms(7)
    by (simp add: run(2))
  then show ?thesis by (simp add: run(1) cache_ok_def originCacheMaxEntries_def)
qed

theorem origin_cache_sound_witness:
  "let o' = \<lparr>og_InstanceUID = ''g'', og_DestinationUID = ''c''\<rparr> in
   case bootstrap (\<lambda>xs. xs) (Some (db_resolver 7 9 False)) example_header
       (call_context example_header (Some example_user)) ([], empty_db) of
     (ctx', (seen', d')) \<Rightarrow> seen' = [originKey 1 o'] \<and> cx_Origin ctx' = Some o' \<and> rows_present 1 o' d'"
proof -
  let ?o = "\<lparr>og_InstanceUID = ''g'', og_DestinationUID = ''c''\<rparr>"
  let ?m = "\<lparr>cm_PlatformEnum = 1, cm_PlatformUID = Some ''42''\<rparr>"
  obtain ctx' seen' d' where run: "bootstrap (\<lambda>xs. xs) (Some (db_resolver 7 9 False)) example_header
      (call_context example_header (Some example_user)) ([], empty_db) = (ctx', (seen', d'))"
    using prod_cases3 by blast
  have "fst (snd (bootstrap (\<lambda>xs. xs) (Some (db_resolver 7 9 False)) example_header
      (call_context example_header (Some example_user)) ([], empty_db))) = [originKey 1 ?o]"
    by code_simp
  with run have seen': "seen' = [originKey 1 ?o]" by simp
  have h: "FromHeader example_header = Inr ?m" "OriginFromHeader example_header = Some ?o"
    by code_simp+
  have "cx_Origin ctx' = Some ?o \<and> rows_present 1 ?o d'"
    using origin_cache_sound [OF _ origin_reachable.start h _ _ _ run]
    by (simp add: iterates_def nul_free_def)
  with run seen' show ?thesis by simp
qed

end
