(* ===== verification/AccountServer.thy ===== *)
theory AccountServer
  imports RpcInterceptors
begin

text \<open>
  The services without a subsystem of their own (\<open>pkg/grpc/server\<close>: user.go, instance.go,
  analytics.go, entertainment.go, utility.go). The state is the accounts and the database of the
  reminder store, whose \<open>platform_users\<close> are the identities of the accounts. The zone database,
  the random source and which statement fails are parameters.
\<close>

section \<open>State and environment\<close>

record account_state =
  as_Accounts :: accounts
  as_Db :: db

definition with_accounts :: "accounts \<Rightarrow> account_state \<Rightarrow> account_state" where
  "with_accounts a s = s\<lparr>as_Accounts := a, as_Db := (as_Db s)\<lparr>platform_users := identities a\<rparr>\<rparr>"

datatype account_stmt = StmtCreateUser | StmtGetUser | StmtSetLocale | StmtSetTimezone
  | StmtCreateInstance | StmtGetInstance | StmtActionRecord

text \<open>\<open>ae_Int64N n\<close> is the next random number below \<open>n\<close>; Go panics when \<open>n\<close> is not positive.\<close>

record account_env =
  ae_Ctx :: call_ctx
  ae_Header :: header
  ae_Down :: "account_stmt \<Rightarrow> bool"
  ae_NewUserID :: string
  ae_NewInstanceID :: int
  ae_LoadLocation :: "string \<Rightarrow> bool"
  ae_Int64N :: "int \<Rightarrow> int"

section \<open>Users\<close>

definition localTimezone :: string where "localTimezone = ''Local''"

record register_req =
  rq_Username :: "string option"
  rq_Locale :: string

definition check_register :: "account_env \<Rightarrow> register_req \<Rightarrow> (int \<times> string \<times> string) rpc" where
  "check_register e req =
    and_then (FromHeader (ae_Header e)) (\<lambda>m.
      case cm_PlatformUID m of
        None \<Rightarrow> Inl (InvalidArgument, HeaderUserID @ '' metadata is required'')
      | Some uid \<Rightarrow> (case rq_Username req of
          None \<Rightarrow> Inl (InvalidArgument, ''username is required'')
        | Some username \<Rightarrow> Inr (cm_PlatformEnum m, uid, username)))"

definition UserServer_Register :: "account_env \<Rightarrow> register_req \<Rightarrow> account_state \<Rightarrow> string rpc \<times> account_state" where
  "UserServer_Register e req s =
    checked (check_register e req) (\<lambda>(platform, uid, username).
      if ae_Down e StmtCreateUser then (Inl (Internal, ''failed to create user''), s)
      else (case CreateUser (ae_NewUserID e) username platform uid (rq_Locale req) (as_Accounts s) of
          (Inl ErrAlreadyExists, a) \<Rightarrow>
            (Inl (AlreadyExists, ''this platform identity is already registered''), s)
        | (Inl err, a) \<Rightarrow> (Inl (Internal, ''failed to create user''), s)
        | (Inr userID, a) \<Rightarrow> (Inr userID, with_accounts a s))) s"

definition UserServer_GetUser :: "account_env \<Rightarrow> string option \<Rightarrow> account_state \<Rightarrow> user_row rpc" where
  "UserServer_GetUser e rid s =
    and_then (caller_user (ae_Ctx e)) (\<lambda>caller.
      if rid = None \<or> rid = Some (us_ID caller) then Inr caller
      else if us_Clearance caller < CLEARANCE_MODERATOR then
        Inl (PermissionDenied, ''cannot read another user'')
      else if ae_Down e StmtGetUser then Inl (Internal, ''failed to get user'')
      else (case GetUser (case rid of None \<Rightarrow> [] | Some x \<Rightarrow> x) (as_Accounts s) of
          None \<Rightarrow> Inl (NotFound, ''user not found'')
        | Some u \<Rightarrow> Inr u))"

definition set_result :: "string \<Rightarrow> (user_error + unit) \<times> accounts \<Rightarrow> account_state \<Rightarrow> unit rpc \<times> account_state" where
  "set_result failure r s =
    (case r of
       (Inl ErrUserNotFound, a) \<Rightarrow> (Inl (NotFound, ''user not found''), s)
     | (Inl err, a) \<Rightarrow> (Inl (Internal, failure), s)
     | (Inr u, a) \<Rightarrow> (Inr (), with_accounts a s))"

definition UserServer_SetLocale ::
  "account_env \<Rightarrow> string option \<Rightarrow> account_state \<Rightarrow> unit rpc \<times> account_state" where
  "UserServer_SetLocale e locale s =
    checked (and_then (caller_user (ae_Ctx e)) (\<lambda>caller.
        case locale of
          None \<Rightarrow> Inl (InvalidArgument, ''locale is required'')
        | Some l \<Rightarrow> if l = [] then Inl (InvalidArgument, ''locale is required'') else Inr (caller, l)))
      (\<lambda>(caller, l).
        if ae_Down e StmtSetLocale then (Inl (Internal, ''failed to set locale''), s)
        else set_result ''failed to set locale'' (SetUserLocale (us_ID caller) l (as_Accounts s)) s) s"

definition check_timezone :: "account_env \<Rightarrow> string option \<Rightarrow> string rpc" where
  "check_timezone e timezone =
    (case timezone of
       None \<Rightarrow> Inl (InvalidArgument, ''timezone is required'')
     | Some z \<Rightarrow>
         if z = [] then Inl (InvalidArgument, ''timezone is required'')
         else if z = localTimezone then
           Inl (InvalidArgument, ''timezone must be a named IANA zone, such as Europe/Helsinki'')
         else if \<not> ae_LoadLocation e z then Inl (InvalidArgument, ''unknown timezone'')
         else Inr z)"

definition UserServer_SetTimezone ::
  "account_env \<Rightarrow> string option \<Rightarrow> account_state \<Rightarrow> unit rpc \<times> account_state" where
  "UserServer_SetTimezone e timezone s =
    checked (and_then (caller_user (ae_Ctx e)) (\<lambda>caller.
        and_then (check_timezone e timezone) (\<lambda>z. Inr (caller, z))))
      (\<lambda>(caller, z).
        if ae_Down e StmtSetTimezone then (Inl (Internal, ''failed to set timezone''), s)
        else set_result ''failed to set timezone'' (SetUserTimezone (us_ID caller) z (as_Accounts s)) s) s"

section \<open>Instances and analytics\<close>

record create_instance_req =
  iq_PlatformEnum :: "int option"
  iq_InstanceMeta :: "meta option"
  iq_DefaultChannel :: string

text \<open>Every failure of the insert, a duplicate among them, is internal.\<close>

definition InstanceServer_CreateInstance ::
  "account_env \<Rightarrow> create_instance_req \<Rightarrow> account_state \<Rightarrow> int rpc \<times> account_state" where
  "InstanceServer_CreateInstance e req s =
    (case (iq_PlatformEnum req, iq_InstanceMeta req) of
       (Some platform, Some imeta) \<Rightarrow>
         if ae_Down e StmtCreateInstance then (Inl (Internal, ''failed to create instance''), s)
         else (case CreateInstance (ae_NewInstanceID e) platform imeta (iq_DefaultChannel req) (as_Db s) of
             None \<Rightarrow> (Inl (Internal, ''failed to create instance''), s)
           | Some (instanceID, d) \<Rightarrow> (Inr instanceID, s\<lparr>as_Db := d\<rparr>))
     | _ \<Rightarrow> (Inl (InvalidArgument, ''platform_enum and instance_meta are required''), s))"

definition InstanceServer_GetInstance :: "account_env \<Rightarrow> int option \<Rightarrow> account_state \<Rightarrow> instance_row rpc" where
  "InstanceServer_GetInstance e rid s =
    (case rid of
       None \<Rightarrow> Inl (InvalidArgument, ''id is required'')
     | Some i \<Rightarrow>
         if ae_Down e StmtGetInstance then Inl (Internal, ''failed to get instance'')
         else (case GetInstanceByID i (as_Db s) of
             None \<Rightarrow> Inl (NotFound, ''instance not found'')
           | Some row \<Rightarrow> Inr row))"

definition AnalyticsServer_CreateActionRecord ::
  "account_env \<Rightarrow> int option \<Rightarrow> int option \<Rightarrow> account_state \<Rightarrow> unit rpc \<times> account_state" where
  "AnalyticsServer_CreateActionRecord e actionType actionTime s =
    checked (and_then (caller_user (ae_Ctx e)) (\<lambda>caller.
        case actionType of
          None \<Rightarrow> Inl (InvalidArgument, ''action_type is required'')
        | Some t \<Rightarrow> Inr (caller, t)))
      (\<lambda>(caller, t).
        if ae_Down e StmtActionRecord then (Inl (Internal, ''failed to create action record''), s)
        else (Inr (), s\<lparr>as_Db := CreateActionRecord t (us_ID caller) actionTime (as_Db s)\<rparr>)) s"

definition unimplemented :: "string \<Rightarrow> 'a rpc" where
  "unimplemented method_name = Inl (Unimplemented, method_name @ '' is not implemented yet'')"

section \<open>Entertainment and utility\<close>

definition maxDigits :: int where "maxDigits = 18"

definition DOUBLES :: int where "DOUBLES = 0"
definition INTERVAL :: int where "INTERVAL = 1"
definition ANY :: int where "ANY = 2"

lemmas request_types = DOUBLES_def INTERVAL_def ANY_def

record random_req =
  nq_Type :: int
  nq_Digits :: int
  nq_Lower :: int
  nq_Upper :: int
  nq_MsgId :: string

text \<open>\<open>math.Pow10\<close> is exact up to the eighteenth power, the largest asked for.\<close>

definition GetRandomNumber :: "(int \<Rightarrow> int) \<Rightarrow> random_req \<Rightarrow> string rpc" where
  "GetRandomNumber roll req =
    (if nq_Type req = DOUBLES then
       let digits = nq_Digits req in
       if digits < 1 \<or> digits > maxDigits then
         Inl (InvalidArgument, ''digits must be between 1 and '' @ FormatInt maxDigits @ '', got '' @ FormatInt digits)
       else
         let value = FormatInt (roll (10 ^ nat digits)) in
         Inr (if int (length value) < digits then replicate (nat digits - length value) (CHR ''0'') @ value else value)
     else if nq_Type req = INTERVAL then
       let lower = nq_Lower req; upper = nq_Upper req in
       if upper \<le> lower then
         Inl (InvalidArgument, ''upper ('' @ FormatInt upper @ '') must be greater than lower ('' @ FormatInt lower @ '')'')
       else
         let span = i64 (upper - lower) in
         if span \<le> 0 then
           Inl (InvalidArgument, ''range between '' @ FormatInt lower @ '' and '' @ FormatInt upper @ '' is too large'')
         else Inr (FormatInt (i64 (roll span + lower)))
     else if nq_Type req = ANY then Inr (nq_MsgId req)
     else Inl (InvalidArgument, ''unsupported request type''))"

datatype health_status = HEALTH_STATUS_OK | HEALTH_STATUS_ERROR

text \<open>A probe is absent or says whether it failed; the response never is an error.\<close>

definition HealthCheck :: "bool option \<Rightarrow> health_status rpc" where
  "HealthCheck probe = Inr (if probe = Some True then HEALTH_STATUS_ERROR else HEALTH_STATUS_OK)"

definition Ping :: "string rpc" where "Ping = Inr ''pong''"

section \<open>Random numbers\<close>

lemma digits_of_digits: "list_all is_digit (digits_of n)"
  by (induction n rule: digits_of.induct) (subst digits_of.simps, auto simp: is_digit_def list_all_iff)

lemma digits_of_length: "n < 10 ^ Suc k \<Longrightarrow> length (digits_of n) \<le> Suc k"
proof (induction k arbitrary: n)
  case 0
  then show ?case by (simp add: digits_of.simps)
next
  case (Suc k)
  have "n div 10 < 10 ^ Suc k" using Suc.prems by (simp add: less_mult_imp_div_less mult.commute)
  from Suc.IH [OF this] show ?case by (subst digits_of.simps) simp
qed

text \<open>A 64-bit integer, and a source of random numbers below a positive bound.\<close>

definition is_i64 :: "int \<Rightarrow> bool" where
  "is_i64 x \<longleftrightarrow> - max_i64 - 1 \<le> x \<and> x \<le> max_i64"

definition rolls_below :: "(int \<Rightarrow> int) \<Rightarrow> bool" where
  "rolls_below roll \<longleftrightarrow> (\<forall>n > 0. 0 \<le> roll n \<and> roll n < n)"

lemma span_fits:
  assumes "is_i64 lower" and "is_i64 upper" and "lower < upper"
  shows "0 < i64 (upper - lower) \<longleftrightarrow> upper - lower \<le> max_i64"
proof (cases "upper - lower \<le> max_i64")
  case True
  with assms(3) show ?thesis by (simp add: max_i64_def)
next
  case False
  moreover have "upper - lower \<le> 3 * max_i64" using assms(1,2) by (simp add: is_i64_def max_i64_def)
  ultimately have "i64 (upper - lower) = upper - lower - 18446744073709551616" by (intro i64_over) simp_all
  with False assms show ?thesis by (simp add: is_i64_def max_i64_def)
qed

definition random_ok :: "random_req \<Rightarrow> bool" where
  "random_ok req \<longleftrightarrow> (if nq_Type req = DOUBLES then 1 \<le> nq_Digits req \<and> nq_Digits req \<le> 18
     else if nq_Type req = INTERVAL then nq_Lower req < nq_Upper req \<and> nq_Upper req - nq_Lower req \<le> max_i64
     else nq_Type req = ANY)"

definition random_value_ok :: "random_req \<Rightarrow> string \<Rightarrow> bool" where
  "random_value_ok req v \<longleftrightarrow>
     (if nq_Type req = DOUBLES then int (length v) = nq_Digits req \<and> list_all is_digit v
      else if nq_Type req = INTERVAL then (\<exists>n. v = FormatInt n \<and> nq_Lower req \<le> n \<and> n < nq_Upper req)
      else v = nq_MsgId req)"

lemma random_doubles:
  assumes "rolls_below roll" and "nq_Type req = DOUBLES" and "1 \<le> nq_Digits req" and "nq_Digits req \<le> 18"
  shows "\<exists>v. GetRandomNumber roll req = Inr v \<and> random_value_ok req v"
proof -
  obtain k where k: "nat (nq_Digits req) = Suc k" using assms(3) by (metis Suc_diff_1 nat_less_iff order_less_le_trans zero_less_nat_eq zero_less_one)
  let ?n = "roll (10 ^ nat (nq_Digits req))"
  have n: "0 \<le> ?n" "?n < 10 ^ nat (nq_Digits req)" using assms(1) by (simp_all add: rolls_below_def)
  then have "nat ?n < 10 ^ Suc k" unfolding k by (simp add: nat_less_iff)
  then have "length (FormatInt ?n) \<le> nat (nq_Digits req)"
    using n(1) k digits_of_length by (simp add: FormatInt_def)
  moreover have "list_all is_digit (FormatInt ?n)" using n(1) digits_of_digits by (simp add: FormatInt_def)
  moreover have "is_digit (CHR ''0'')" by (simp add: is_digit_def)
  ultimately show ?thesis
    using assms(2-4) by (auto simp: GetRandomNumber_def maxDigits_def Let_def random_value_ok_def list_all_iff
        split: if_splits)
qed

lemma random_interval:
  assumes "rolls_below roll" and "nq_Type req = INTERVAL" and "is_i64 (nq_Lower req)" and "is_i64 (nq_Upper req)"
    and "nq_Lower req < nq_Upper req" and "nq_Upper req - nq_Lower req \<le> max_i64"
  shows "\<exists>v. GetRandomNumber roll req = Inr v \<and> random_value_ok req v"
proof -
  let ?span = "nq_Upper req - nq_Lower req"
  have span: "i64 ?span = ?span" using assms(5,6) by (simp add: max_i64_def)
  have "0 \<le> roll ?span" "roll ?span < ?span" using assms(1,5) by (simp_all add: rolls_below_def)
  then have "i64 (roll ?span + nq_Lower req) = roll ?span + nq_Lower req"
    "nq_Lower req \<le> roll ?span + nq_Lower req" "roll ?span + nq_Lower req < nq_Upper req"
    using assms(3,4) by (simp_all add: is_i64_def)
  then show ?thesis
    using assms(2,5) span by (auto simp: GetRandomNumber_def random_value_ok_def Let_def request_types)
qed

text \<open>
  A random number is what was asked for: exactly the requests with one to eighteen digits, with
  a non-empty interval no wider than 63 bits, or for any number are served; the answer then has
  exactly that many digits, or lies in the interval with its upper end excluded; every other
  request is an invalid argument.
\<close>

theorem random_number_in_range:
  assumes "rolls_below roll" and "is_i64 (nq_Lower req)" and "is_i64 (nq_Upper req)"
  shows "case GetRandomNumber roll req of
      Inl err \<Rightarrow> fst err = InvalidArgument \<and> \<not> random_ok req
    | Inr v \<Rightarrow> random_ok req \<and> random_value_ok req v"
proof (cases "random_ok req")
  case True
  then have "\<exists>v. GetRandomNumber roll req = Inr v \<and> random_value_ok req v"
    using random_doubles [OF assms(1)] random_interval [OF assms(1) _ assms(2,3)]
    by (cases "nq_Type req = ANY") (auto simp: random_ok_def request_types GetRandomNumber_def random_value_ok_def
        split: if_splits)
  with True show ?thesis by auto
next
  case False
  then have "\<exists>msg. GetRandomNumber roll req = Inl (InvalidArgument, msg)"
    using span_fits [OF assms(2,3)]
    by (auto simp: random_ok_def GetRandomNumber_def maxDigits_def Let_def not_less split: if_splits)
  with False show ?thesis by auto
qed

theorem random_number_in_range_witness:
  "random_value_ok \<lparr>nq_Type = INTERVAL, nq_Digits = 0, nq_Lower = -3, nq_Upper = 4, nq_MsgId = []\<rparr> ''3''
   \<and> GetRandomNumber (\<lambda>n. n - 1) \<lparr>nq_Type = INTERVAL, nq_Digits = 0, nq_Lower = -3, nq_Upper = 4, nq_MsgId = []\<rparr> = Inr ''3''
   \<and> GetRandomNumber (\<lambda>n. 7) \<lparr>nq_Type = DOUBLES, nq_Digits = 3, nq_Lower = 0, nq_Upper = 0, nq_MsgId = []\<rparr> = Inr ''007''"
proof -
  let ?req = "\<lparr>nq_Type = INTERVAL, nq_Digits = 0, nq_Lower = -3, nq_Upper = 4, nq_MsgId = []\<rparr>"
  have run: "GetRandomNumber (\<lambda>n. n - 1) ?req = Inr ''3''"
    "GetRandomNumber (\<lambda>n. 7) \<lparr>nq_Type = DOUBLES, nq_Digits = 3, nq_Lower = 0, nq_Upper = 0, nq_MsgId = []\<rparr> = Inr ''007''"
    by code_simp+
  have "rolls_below (\<lambda>n. n - 1)" by (simp add: rolls_below_def)
  from random_number_in_range [OF this, of ?req] run show ?thesis by (simp add: is_i64_def max_i64_def)
qed

section \<open>Whose account a call touches\<close>

datatype account_call = RegisterCall register_req | GetUserCall "string option" | SetLocaleCall "string option"
  | SetTimezoneCall "string option" | CreateInstanceCall create_instance_req | GetInstanceCall "int option"
  | ActionRecordCall "int option" "int option"

datatype account_resp = GaveId string | GaveUser user_row | GaveInstance instance_row | GaveNumber int | GaveNothing

fun handle_account ::
  "account_env \<Rightarrow> account_call \<Rightarrow> account_state \<Rightarrow> account_resp rpc \<times> account_state" where
  "handle_account e (RegisterCall req) s = map_prod (map_sum id GaveId) id (UserServer_Register e req s)"
| "handle_account e (GetUserCall rid) s = (map_sum id GaveUser (UserServer_GetUser e rid s), s)"
| "handle_account e (SetLocaleCall l) s = map_prod (map_sum id (\<lambda>_. GaveNothing)) id (UserServer_SetLocale e l s)"
| "handle_account e (SetTimezoneCall z) s = map_prod (map_sum id (\<lambda>_. GaveNothing)) id (UserServer_SetTimezone e z s)"
| "handle_account e (CreateInstanceCall req) s = map_prod (map_sum id GaveNumber) id (InstanceServer_CreateInstance e req s)"
| "handle_account e (GetInstanceCall rid) s = (map_sum id GaveInstance (InstanceServer_GetInstance e rid s), s)"
| "handle_account e (ActionRecordCall a d) s =
     map_prod (map_sum id (\<lambda>_. GaveNothing)) id (AnalyticsServer_CreateActionRecord e a d s)"

definition account_ok :: "account_state \<Rightarrow> bool" where
  "account_ok s \<longleftrightarrow> accounts_ok (as_Accounts s) \<and> platform_users (as_Db s) = identities (as_Accounts s)"

text \<open>The same account but for the caller's two preferences.\<close>

definition same_but_preferences :: "user_row \<Rightarrow> user_row \<Rightarrow> bool" where
  "same_but_preferences u u' \<longleftrightarrow> us_ID u' = us_ID u \<and> us_Username u' = us_Username u
     \<and> us_Clearance u' = us_Clearance u \<and> us_Deleted u' = us_Deleted u"

text \<open>What a call of \<open>caller\<close> (the empty id: nobody) may do to the accounts.\<close>

definition accounts_step :: "account_env \<Rightarrow> string \<Rightarrow> accounts \<Rightarrow> accounts \<Rightarrow> bool" where
  "accounts_step e caller a a' \<longleftrightarrow> (\<exists>new.
     length (users a') = length (users a) + length new \<and>
     list_all2 (\<lambda>u u'. u' = u \<or> (us_ID u = caller \<and> same_but_preferences u u')) (users a) (take (length (users a)) (users a'))
     \<and> drop (length (users a)) (users a') = new
     \<and> (new = [] \<and> identities a' = identities a
        \<or> (\<exists>u m uid. new = [u] \<and> us_ID u = ae_NewUserID e \<and> us_Clearance u = CLEARANCE_REGISTERED
             \<and> FromHeader (ae_Header e) = Inr m \<and> cm_PlatformUID m = Some uid
             \<and> \<not> identity_taken (cm_PlatformEnum m) uid a
             \<and> identities a' = identities a @ [\<lparr>pu_UserID = us_ID u, pu_Platform = cm_PlatformEnum m,
                  pu_UID = uid, pu_Deleted = False\<rparr>])))"

lemma accounts_step_refl [simp]: "accounts_step e c a a"
  by (auto simp: accounts_step_def list_all2_refl intro: exI [of _ "[]"])

lemma register_step:
  assumes "UserServer_Register e req s = (resp, s')" and "account_ok s"
    and "ae_NewUserID e \<notin> us_ID ` set (users (as_Accounts s))"
  shows "account_ok s' \<and> accounts_step e c (as_Accounts s) (as_Accounts s')"
proof (cases "check_register e req")
  case (Inl err)
  with assms show ?thesis by (auto simp: UserServer_Register_def)
next
  case (Inr x)
  obtain platform uid username where x: "x = (platform, uid, username)" by (cases x)
  with Inr obtain m where m: "FromHeader (ae_Header e) = Inr m" "cm_PlatformUID m = Some uid" "platform = cm_PlatformEnum m"
    by (auto simp: check_register_def split: option.splits)
  obtain r a where create: "CreateUser (ae_NewUserID e) username platform uid (rq_Locale req) (as_Accounts s) = (r, a)"
    by fastforce
  have ok: "accounts_ok a"
    using CreateUser_ok [OF _ assms(3), of username platform uid "rq_Locale req"] assms(2) create by (simp add: account_ok_def)
  show ?thesis
  proof (cases "s' = s")
    case False
    then have s': "s' = with_accounts a s" and "\<exists>i. r = Inr i"
      using assms(1) Inr x create
      by (auto simp: UserServer_Register_def split: if_splits sum.splits user_error.splits)
    then have a: "\<not> identity_taken platform uid (as_Accounts s)"
      "users a = users (as_Accounts s) @ [\<lparr>us_ID = ae_NewUserID e, us_Username = username,
         us_Clearance = CLEARANCE_REGISTERED, us_Locale = nullStr (rq_Locale req), us_Timezone = None, us_Deleted = False\<rparr>]"
      "identities a = identities (as_Accounts s) @ [\<lparr>pu_UserID = ae_NewUserID e, pu_Platform = platform, pu_UID = uid,
         pu_Deleted = False\<rparr>]"
      using create by (auto simp: CreateUser_def Let_def identity_taken_def split: if_splits)
    with s' ok m show ?thesis
      by (auto simp: account_ok_def with_accounts_def accounts_step_def list_all2_refl)
  qed (use assms(2) in simp)
qed

lemma preference_step:
  assumes "setUserPreference upd c a = (r, a')" and "\<And>u. same_but_preferences u (upd u)"
  shows "accounts_step e c a a'"
proof (cases "a' = a")
  case False
  let ?g = "\<lambda>u. if us_ID u = c \<and> \<not> us_Deleted u then upd u else u"
  have "a' = a\<lparr>users := map ?g (users a)\<rparr>"
    using assms(1) False by (auto simp: setUserPreference_def Let_def split: if_splits)
  moreover have "list_all2 (\<lambda>u u'. u' = u \<or> (us_ID u = c \<and> same_but_preferences u u')) (users a) (map ?g (users a))"
    using assms(2) by (auto simp: list_all2_conv_all_nth)
  ultimately show ?thesis by (simp add: accounts_step_def)
qed simp

lemma set_result_step:
  assumes "set_result failure (setUserPreference upd c (as_Accounts s)) s = (resp, s')" and "account_ok s"
    and "\<And>u. same_but_preferences u (upd u)"
  shows "account_ok s' \<and> accounts_step e c (as_Accounts s) (as_Accounts s')"
proof -
  obtain r a where pref: "setUserPreference upd c (as_Accounts s) = (r, a)" by fastforce
  have "us_ID (upd u) = us_ID u" for u using assms(3) by (simp add: same_but_preferences_def)
  then have "accounts_ok a"
    using setUserPreference_ok [of "as_Accounts s" upd c] assms(2) pref by (simp add: account_ok_def)
  moreover have "identities a = identities (as_Accounts s)"
    using pref by (auto simp: setUserPreference_def Let_def split: if_splits)
  ultimately show ?thesis
    using assms(1,2) pref preference_step [OF pref assms(3)]
    by (auto simp: set_result_def account_ok_def with_accounts_def split: sum.splits user_error.splits)
qed

definition caller_id :: "account_env \<Rightarrow> string" where
  "caller_id e = (case cx_Caller (ae_Ctx e) of None \<Rightarrow> [] | Some u \<Rightarrow> us_ID u)"

lemma caller_user_Inr [simp]: "caller_user ctx = Inr u \<longleftrightarrow> cx_Caller ctx = Some u"
  by (simp add: caller_user_def split: option.split)

lemma locale_step:
  assumes "UserServer_SetLocale e l s = (resp, s')" and "account_ok s"
  shows "account_ok s' \<and> accounts_step e (caller_id e) (as_Accounts s) (as_Accounts s')"
proof (cases "s' = s")
  case False
  then obtain caller x where "cx_Caller (ae_Ctx e) = Some caller"
    "set_result ''failed to set locale'' (SetUserLocale (us_ID caller) x (as_Accounts s)) s = (resp, s')"
    using assms(1) by (auto simp: UserServer_SetLocale_def checked_def caller_user_def and_then_def
        split: option.splits if_splits)
  with set_result_step [OF _ assms(2)] show ?thesis
    by (auto simp: SetUserLocale_def caller_id_def same_but_preferences_def)
qed (use assms(2) in simp)

lemma timezone_step:
  assumes "UserServer_SetTimezone e z s = (resp, s')" and "account_ok s"
  shows "account_ok s' \<and> accounts_step e (caller_id e) (as_Accounts s) (as_Accounts s')"
proof (cases "s' = s")
  case False
  then obtain caller x where "cx_Caller (ae_Ctx e) = Some caller"
    "set_result ''failed to set timezone'' (SetUserTimezone (us_ID caller) x (as_Accounts s)) s = (resp, s')"
    using assms(1) by (auto simp: UserServer_SetTimezone_def checked_def caller_user_def and_then_def
        split: option.splits if_splits sum.splits)
  with set_result_step [OF _ assms(2)] show ?thesis
    by (auto simp: SetUserTimezone_def caller_id_def same_but_preferences_def)
qed (use assms(2) in simp)

lemma other_calls_step:
  assumes "account_ok s"
  shows "account_ok (snd (InstanceServer_CreateInstance e q s)) \<and> as_Accounts (snd (InstanceServer_CreateInstance e q s)) = as_Accounts s"
    and "account_ok (snd (AnalyticsServer_CreateActionRecord e a d s))
      \<and> as_Accounts (snd (AnalyticsServer_CreateActionRecord e a d s)) = as_Accounts s"
  using assms
  by (auto simp: InstanceServer_CreateInstance_def AnalyticsServer_CreateActionRecord_def checked_def account_ok_def
      CreateInstance_def CreateActionRecord_def split: option.splits sum.splits)

text \<open>Who may be shown an account: its owner, and a moderator.\<close>

definition may_see :: "account_env \<Rightarrow> account_state \<Rightarrow> account_resp rpc \<Rightarrow> bool" where
  "may_see e s resp = (case resp of
     Inr (GaveUser u) \<Rightarrow> (case cx_Caller (ae_Ctx e) of
         None \<Rightarrow> False
       | Some caller \<Rightarrow> u = caller \<or> (CLEARANCE_MODERATOR \<le> us_Clearance caller \<and> u \<in> set (users (as_Accounts s))
            \<and> \<not> us_Deleted u))
   | _ \<Rightarrow> True)"

lemma get_user_seen: "may_see e s (map_sum id GaveUser (UserServer_GetUser e rid s))"
  by (auto simp: may_see_def UserServer_GetUser_def GetUser_def caller_user_def find_Some_iff
      split: option.splits if_splits sum.splits account_resp.splits)

text \<open>
  C17: No call of these services touches anybody else's account: a call adds an account only for the
  identity its headers name, registered and no higher, when that identity had none, changes only
  the caller's own locale and timezone, and shows an account only to its owner or a moderator; so
  no call raises a clearance, and the tables keep their keys, every account its identity.
\<close>

theorem accounts_isolated:
  assumes "handle_account e call s = (resp, s')" and "account_ok s"
    and "ae_NewUserID e \<notin> us_ID ` set (users (as_Accounts s))"
  shows "account_ok s' \<and> accounts_step e (caller_id e) (as_Accounts s) (as_Accounts s') \<and> may_see e s resp"
proof -
  have "account_ok s' \<and> accounts_step e (caller_id e) (as_Accounts s) (as_Accounts s')"
  proof (cases call)
    case (RegisterCall q)
    with assms(1) obtain r where "UserServer_Register e q s = (r, s')" by (auto simp: map_prod_id_eq)
    with assms(2,3) show ?thesis by (rule register_step [rotated])
  next
    case (SetLocaleCall l)
    with assms(1) obtain r where "UserServer_SetLocale e l s = (r, s')" by (auto simp: map_prod_id_eq)
    with assms(2) show ?thesis by (rule locale_step [rotated])
  next
    case (SetTimezoneCall z)
    with assms(1) obtain r where "UserServer_SetTimezone e z s = (r, s')" by (auto simp: map_prod_id_eq)
    with assms(2) show ?thesis by (rule timezone_step [rotated])
  next
    case (CreateInstanceCall q)
    with assms(1) other_calls_step(1) [OF assms(2), of e q] show ?thesis by (auto simp: map_prod_id_eq)
  next
    case (ActionRecordCall a d)
    with assms(1) other_calls_step(2) [OF assms(2), of e a d] show ?thesis by (auto simp: map_prod_id_eq)
  qed (use assms(1,2) in auto)
  moreover have "may_see e s resp"
  proof (cases "\<exists>u. resp = Inr (GaveUser u)")
    case True
    then obtain rid where "call = GetUserCall rid"
      using assms(1) by (cases call) (auto simp: map_prod_id_eq Inr_map_sum Inr_map_sum [THEN eq_commute [THEN trans]])
    with assms(1) get_user_seen show ?thesis by auto
  next
    case False
    then show ?thesis by (auto simp: may_see_def split: sum.split account_resp.split)
  qed
  ultimately show ?thesis by blast
qed

definition example_accounts :: account_state where
  "example_accounts = \<lparr>as_Accounts = \<lparr>users = [], identities = []\<rparr>, as_Db = empty_db\<rparr>"

definition account_call_env :: "user_row option \<Rightarrow> account_env" where
  "account_call_env caller = \<lparr>ae_Ctx = background\<lparr>cx_Caller := caller\<rparr>, ae_Header = example_header,
     ae_Down = (\<lambda>_. False), ae_NewUserID = ''u'', ae_NewInstanceID = 1, ae_LoadLocation = (\<lambda>z. z = ''Europe/Helsinki''),
     ae_Int64N = (\<lambda>_. 0)\<rparr>"

definition registration :: account_call where
  "registration = RegisterCall \<lparr>rq_Username = Some ''gin'', rq_Locale = []\<rparr>"

theorem accounts_isolated_witness:
  "users (as_Accounts (snd (handle_account (account_call_env None) registration example_accounts))) = [example_user]
   \<and> accounts_step (account_call_env None) [] (as_Accounts example_accounts)
       (as_Accounts (snd (handle_account (account_call_env None) registration example_accounts)))"
proof
  have "account_ok example_accounts"
    by (simp add: account_ok_def example_accounts_def accounts_ok_def empty_db_def)
  from accounts_isolated [OF prod.collapse [symmetric] this, of "account_call_env None" registration]
  show "accounts_step (account_call_env None) [] (as_Accounts example_accounts)
       (as_Accounts (snd (handle_account (account_call_env None) registration example_accounts)))"
    by (simp add: example_accounts_def caller_id_def account_call_env_def background_def)
qed code_simp

section \<open>A registered caller is served\<close>

text \<open>The resolver \<open>main.go\<close> gives the clearance interceptor.\<close>

definition resolver_of :: "account_state \<Rightarrow> caller_resolver" where
  "resolver_of s platform uid = (case GetUserByPlatformUID platform uid (as_Accounts s) of
     None \<Rightarrow> Inl ResolveNotFound | Some u \<Rightarrow> Inr (Some u))"

text \<open>
  C19: Registering is enough, and once: after a successful registration every procedure of the
  server whose floor is REGISTERED is served to calls with the same headers, with the new account
  as the caller and no more than its clearance, and a second registration is refused and changes
  nothing.
\<close>

theorem registered_is_served:
  assumes "UserServer_Register e req s = (Inr uid, s')" and "account_ok s"
    and "ae_NewUserID e \<notin> us_ID ` set (users (as_Accounts s))"
    and "map_of DefaultRequirements procedure = Some CLEARANCE_REGISTERED"
    and "ae_Header e' = ae_Header e" and "rq_Username req' \<noteq> None" and "\<not> ae_Down e' StmtCreateUser"
  shows "(\<exists>m u. us_ID u = uid \<and> us_Clearance u = CLEARANCE_REGISTERED \<and> FromHeader (ae_Header e) = Inr m
      \<and> serve iter None (Some (resolver_of s')) originResolver procedure (ae_Header e) nxt st
        = Recover_WrapUnary (Origin_WrapUnary iter originResolver (ae_Header e) nxt)
            \<lparr>cx_Meta = Some m, cx_Caller = Some u, cx_Origin = None\<rparr> st)
    \<and> UserServer_Register e' req' s' = (Inl (AlreadyExists, ''this platform identity is already registered''), s')"
proof -
  from assms(1) obtain platform puid username a where reg: "check_register e req = Inr (platform, puid, username)"
    "CreateUser (ae_NewUserID e) username platform puid (rq_Locale req) (as_Accounts s) = (Inr uid, a)"
    "s' = with_accounts a s"
    by (auto simp: UserServer_Register_def checked_def split: sum.splits prod.splits if_splits user_error.splits)
  then obtain m where m: "FromHeader (ae_Header e) = Inr m" "cm_PlatformUID m = Some puid" "platform = cm_PlatformEnum m"
    by (auto simp: check_register_def split: option.splits)
  have acc: "as_Accounts s' = a" using reg(3) by (simp add: with_accounts_def)
  obtain u where u: "GetUserByPlatformUID platform puid a = Some u" "us_ID u = uid" "us_Clearance u = CLEARANCE_REGISTERED"
    using CreateUser_resolves [OF _ assms(3) reg(2)] assms(2) by (auto simp: account_ok_def split: option.splits)
  then have runs: "may_run (resolver_of s') CLEARANCE_REGISTERED (ae_Header e) m u"
    using m acc by (simp add: may_run_def resolver_of_def)
  have "serve iter None (Some (resolver_of s')) originResolver procedure (ae_Header e) nxt st
        = Recover_WrapUnary (Origin_WrapUnary iter originResolver (ae_Header e) nxt)
            \<lparr>cx_Meta = Some m, cx_Caller = Some u, cx_Origin = None\<rparr> st"
    by (simp add: serve_def Recover_WrapUnary_def background_def clearance_runs [OF assms(4) runs])
  moreover have "identity_taken platform puid a"
    using reg(2) by (auto simp: CreateUser_def identity_taken_def Let_def split: if_splits)
  then have "UserServer_Register e' req' s' = (Inl (AlreadyExists, ''this platform identity is already registered''), s')"
    using m assms(5-7) acc
    by (auto simp: UserServer_Register_def check_register_def CreateUser_def identity_taken_def Let_def)
  ultimately show ?thesis using u m by blast
qed

definition after_registration :: account_state where
  "after_registration = snd (UserServer_Register (account_call_env None) \<lparr>rq_Username = Some ''gin'', rq_Locale = []\<rparr> example_accounts)"

theorem registered_is_served_witness:
  "UserServer_Register (account_call_env None) \<lparr>rq_Username = Some ''x'', rq_Locale = []\<rparr> after_registration
     = (Inl (AlreadyExists, ''this platform identity is already registered''), after_registration)
   \<and> users (as_Accounts after_registration) = [example_user]"
proof
  have run: "UserServer_Register (account_call_env None) \<lparr>rq_Username = Some ''gin'', rq_Locale = []\<rparr> example_accounts
    = (Inr ''u'', after_registration)" unfolding after_registration_def by code_simp
  have "account_ok example_accounts" "map_of DefaultRequirements (proc ''UserService'' ''GetUser'') = Some CLEARANCE_REGISTERED"
    by (simp_all add: account_ok_def example_accounts_def accounts_ok_def empty_db_def) code_simp
  from registered_is_served [OF run this(1) _ this(2), of "account_call_env None" "\<lparr>rq_Username = Some ''x'', rq_Locale = []\<rparr>"
      "\<lambda>xs. xs" None "\<lambda>ctx n. (Returned (Inr ()), n :: nat)" "([], 0)"]
  show "UserServer_Register (account_call_env None) \<lparr>rq_Username = Some ''x'', rq_Locale = []\<rparr> after_registration
     = (Inl (AlreadyExists, ''this platform identity is already registered''), after_registration)"
    by (simp add: account_call_env_def example_accounts_def)
qed code_simp

end
