(* ===== verification/ReverseStream.thy ===== *)
theory ReverseStream
  imports RpcInterceptors
begin

text \<open>
  The server's half of the client action streams (\<open>pkg/grpc/server/reverse.go\<close>): the registry,
  each stream's buffered channel, its sender goroutine and its handler's select loop. Every
  critical section and every channel operation is one event, in any order the goroutines may take.
  Ids are 64-bit; sending on a closed channel panics, as in Go. The drain timer only delays a
  handler that already returned and is left out.
\<close>

section \<open>State\<close>

definition clientSendBuffer :: nat where "clientSendBuffer = 64"
definition maxStreamClients :: nat where "maxStreamClients = 64"

record client_action =
  an_Platform :: int
  an_Action :: int
  an_Payload :: string

datatype sender = SenderRunning | SenderFailed | SenderDone

text \<open>
  A stream of one client: its channel (\<open>st_Queue\<close>, closed or not), its sender goroutine and what
  that has sent.
\<close>

record stream =
  sm_ID :: int
  sm_Platform :: int
  sm_Queue :: "client_action list"
  sm_Closed :: bool
  sm_Sender :: sender
  sm_Sent :: "client_action list"

text \<open>
  All streams ever admitted, whose goroutines may outlive their registration; the registry holds
  the ids of some. \<open>rv_Panicked\<close> is a send on a closed channel.
\<close>

record reverse_server =
  rs_Streams :: "stream list"
  rs_Clients :: "int list"
  rs_NextID :: int
  rs_Done :: bool
  rs_Panicked :: bool

definition NewReverseServer :: reverse_server where
  "NewReverseServer = \<lparr>rs_Streams = [], rs_Clients = [], rs_NextID = 0, rs_Done = False, rs_Panicked = False\<rparr>"

definition Shutdown :: "reverse_server \<Rightarrow> reverse_server" where
  "Shutdown s = s\<lparr>rs_Done := True\<rparr>"

section \<open>The registry\<close>

text \<open>\<open>None\<close> is a registry at capacity.\<close>

definition register :: "int \<Rightarrow> reverse_server \<Rightarrow> (int \<times> reverse_server) option" where
  "register platform s =
    (if maxStreamClients \<le> length (rs_Clients s) then None
     else
       let newID = (rs_NextID s + 1) mod 2 ^ 64;
           c = \<lparr>sm_ID = newID, sm_Platform = platform, sm_Queue = [], sm_Closed = False,
                sm_Sender = SenderRunning, sm_Sent = []\<rparr>
       in Some (newID, s\<lparr>rs_NextID := newID, rs_Streams := rs_Streams s @ [c],
            rs_Clients := (if newID \<in> set (rs_Clients s) then rs_Clients s else rs_Clients s @ [newID])\<rparr>))"

text \<open>The two halves of \<open>deregister\<close>: the deletion under the lock, then the close.\<close>

definition deregister_delete :: "int \<Rightarrow> reverse_server \<Rightarrow> reverse_server" where
  "deregister_delete i s = s\<lparr>rs_Clients := filter (\<lambda>j. j \<noteq> i) (rs_Clients s)\<rparr>"

definition update_stream :: "int \<Rightarrow> (stream \<Rightarrow> stream) \<Rightarrow> reverse_server \<Rightarrow> reverse_server" where
  "update_stream i f s = s\<lparr>rs_Streams := map (\<lambda>c. if sm_ID c = i then f c else c) (rs_Streams s)\<rparr>"

definition deregister_close :: "int \<Rightarrow> reverse_server \<Rightarrow> reverse_server" where
  "deregister_close i s = update_stream i (\<lambda>c. c\<lparr>sm_Closed := True\<rparr>) s"

text \<open>
  The arms of the non-blocking send to one client: delivered, dropped or, on a closed channel, a
  panic (\<open>None\<close>).
\<close>

definition offer :: "client_action \<Rightarrow> stream \<Rightarrow> stream option" where
  "offer a c =
    (if sm_Closed c then None
     else if length (sm_Queue c) < clientSendBuffer then Some (c\<lparr>sm_Queue := sm_Queue c @ [a]\<rparr>)
     else Some c)"

definition targets :: "client_action \<Rightarrow> reverse_server \<Rightarrow> stream \<Rightarrow> bool" where
  "targets a s c \<longleftrightarrow> sm_ID c \<in> set (rs_Clients s) \<and> sm_Platform c = an_Platform a"

definition SendAction :: "client_action \<Rightarrow> reverse_server \<Rightarrow> reverse_server" where
  "SendAction a s =
    (if list_ex (\<lambda>c. targets a s c \<and> offer a c = None) (rs_Streams s) then s\<lparr>rs_Panicked := True\<rparr>
     else s\<lparr>rs_Streams := map (\<lambda>c. if targets a s c then (case offer a c of None \<Rightarrow> c | Some c' \<Rightarrow> c') else c)
              (rs_Streams s)\<rparr>)"

section \<open>The goroutines of a stream\<close>

text \<open>One turn of the sender: it takes the head of the channel, or finds it closed and empty.\<close>

definition pump :: "bool \<Rightarrow> stream \<Rightarrow> stream" where
  "pump ok c =
    (if sm_Sender c \<noteq> SenderRunning then c
     else case sm_Queue c of
       [] \<Rightarrow> if sm_Closed c then c\<lparr>sm_Sender := SenderDone\<rparr> else c
     | a # as \<Rightarrow>
         if ok then c\<lparr>sm_Queue := as, sm_Sent := sm_Sent c @ [a]\<rparr>
         else c\<lparr>sm_Queue := as, sm_Sender := SenderFailed\<rparr>)"

text \<open>The arms of the handler's select, and what each returns: \<open>None\<close> goes round the loop.\<close>

datatype arm = ArmDone | ArmCancelled rpc_error | ArmSendDone "rpc_error option" | ArmEOF
  | ArmReceiveError rpc_error | ArmMessage

fun select_arm :: "arm \<Rightarrow> unit rpc option" where
  "select_arm ArmDone = Some (Inr ())"
| "select_arm (ArmCancelled err) = Some (Inl err)"
| "select_arm (ArmSendDone sendErr) = Some (case sendErr of None \<Rightarrow> Inr () | Some err \<Rightarrow> Inl err)"
| "select_arm ArmEOF = Some (Inr ())"
| "select_arm (ArmReceiveError err) = Some (Inl err)"
| "select_arm ArmMessage = None"

text \<open>A handler up to its loop: the checks, then the registration.\<close>

definition open_stream :: "call_ctx \<Rightarrow> reverse_server \<Rightarrow> int rpc \<times> reverse_server" where
  "open_stream ctx s =
    (case cx_Meta ctx of
       None \<Rightarrow> (Inl (Internal, ''caller metadata was not resolved''), s)
     | Some m \<Rightarrow>
         if cm_PlatformEnum m = 0 then (Inl (InvalidArgument, ''platform is required''), s)
         else (case register (cm_PlatformEnum m) s of
             None \<Rightarrow> (Inl (ResourceExhausted, ''too many client action streams''), s)
           | Some (i, s') \<Rightarrow> (Inr i, s')))"

text \<open>
  What may happen next. A handler leaves when a ready arm of its select returns: \<open>ArmDone\<close> only
  after a shutdown and \<open>ArmSendDone\<close> only after its sender stopped.
\<close>

datatype event = EvOpen call_ctx | EvSend client_action | EvPump int bool | EvLeave int arm | EvClose int | EvShutdown

definition arm_ready :: "reverse_server \<Rightarrow> int \<Rightarrow> arm \<Rightarrow> bool" where
  "arm_ready s i a = (case a of
     ArmDone \<Rightarrow> rs_Done s
   | ArmSendDone err \<Rightarrow> list_ex (\<lambda>c. sm_ID c = i \<and> sm_Sender c \<noteq> SenderRunning) (rs_Streams s)
   | _ \<Rightarrow> True)"

fun stream_step :: "event \<Rightarrow> reverse_server \<Rightarrow> reverse_server" where
  "stream_step (EvOpen ctx) s = snd (open_stream ctx s)"
| "stream_step (EvSend a) s = SendAction a s"
| "stream_step (EvPump i ok) s = update_stream i (pump ok) s"
| "stream_step (EvLeave i a) s =
     (if arm_ready s i a \<and> select_arm a \<noteq> None then deregister_delete i s else s)"
| "stream_step (EvClose i) s = (if i \<in> set (rs_Clients s) then s else deregister_close i s)"
| "stream_step EvShutdown s = Shutdown s"

fun run_events :: "event list \<Rightarrow> reverse_server \<Rightarrow> reverse_server" where
  "run_events [] s = s"
| "run_events (ev # evs) s = run_events evs (stream_step ev s)"

section \<open>What every interleaving keeps\<close>

text \<open>Every action handed to \<open>SendAction\<close>, in order.\<close>

fun sends :: "event list \<Rightarrow> client_action list" where
  "sends [] = []"
| "sends (EvSend a # evs) = a # sends evs"
| "sends (ev # evs) = sends evs"

definition stream_ok :: "client_action list \<Rightarrow> stream \<Rightarrow> bool" where
  "stream_ok log c \<longleftrightarrow> length (sm_Queue c) \<le> clientSendBuffer
     \<and> subseq (sm_Sent c @ sm_Queue c) (filter (\<lambda>a. an_Platform a = sm_Platform c) log)"

definition reverse_ok :: "client_action list \<Rightarrow> reverse_server \<Rightarrow> bool" where
  "reverse_ok log s \<longleftrightarrow> \<not> rs_Panicked s \<and> 0 \<le> rs_NextID s
     \<and> distinct (map sm_ID (rs_Streams s)) \<and> list_all (\<lambda>c. sm_ID c \<le> rs_NextID s) (rs_Streams s)
     \<and> distinct (rs_Clients s) \<and> length (rs_Clients s) \<le> maxStreamClients
     \<and> list_all (\<lambda>i. list_ex (\<lambda>c. sm_ID c = i \<and> \<not> sm_Closed c) (rs_Streams s)) (rs_Clients s)
     \<and> list_all (stream_ok log) (rs_Streams s)"

lemma stream_ok_log: "stream_ok log c \<Longrightarrow> stream_ok (log @ [a]) c"
  unfolding stream_ok_def by (auto intro: subseq_order.trans)

lemma registered_open:
  assumes "reverse_ok log s" and "c \<in> set (rs_Streams s)" and "sm_ID c \<in> set (rs_Clients s)"
  shows "\<not> sm_Closed c"
proof -
  obtain c' where "c' \<in> set (rs_Streams s)" "sm_ID c' = sm_ID c" "\<not> sm_Closed c'"
    using assms by (auto simp: reverse_ok_def list_all_iff list_ex_iff)
  moreover have "inj_on sm_ID (set (rs_Streams s))" using assms(1) by (simp add: reverse_ok_def distinct_map)
  ultimately show ?thesis using assms(2) by (auto dest: inj_onD)
qed

text \<open>Changing one stream in place.\<close>

lemma map_streams_ok:
  assumes "reverse_ok log s" and "\<And>c. sm_ID (f c) = sm_ID c"
    and "\<And>c. c \<in> set (rs_Streams s) \<Longrightarrow> stream_ok log c \<Longrightarrow> stream_ok log' (f c)"
    and "\<And>c. sm_ID c \<in> set (rs_Clients s) \<Longrightarrow> sm_Closed (f c) = sm_Closed c"
  shows "reverse_ok log' (s\<lparr>rs_Streams := map f (rs_Streams s)\<rparr>)"
proof -
  have ids: "map sm_ID (map f (rs_Streams s)) = map sm_ID (rs_Streams s)"
    by (simp add: assms(2))
  have "\<exists>c \<in> set (rs_Streams s). sm_ID (f c) = i \<and> \<not> sm_Closed (f c)" if "i \<in> set (rs_Clients s)" for i
    using assms(1,2,4) that by (fastforce simp: reverse_ok_def list_all_iff list_ex_iff)
  with assms ids show ?thesis
    by (simp add: reverse_ok_def list_all_iff list_ex_iff del: map_map)
qed

lemma update_ok:
  assumes "reverse_ok log s" and "\<And>c. sm_ID (f c) = sm_ID c" and "\<And>c. stream_ok log c \<Longrightarrow> stream_ok log (f c)"
    and "\<And>c. i \<in> set (rs_Clients s) \<Longrightarrow> sm_Closed (f c) = sm_Closed c"
  shows "reverse_ok log (update_stream i f s)"
  unfolding update_stream_def by (rule map_streams_ok [OF assms(1)]) (use assms in auto)

lemma pump_ok: "stream_ok log c \<Longrightarrow> stream_ok log (pump ok c)"
proof (cases "sm_Queue c")
  case (Cons a as)
  assume "stream_ok log c"
  moreover have "subseq (sm_Sent c @ as) (sm_Sent c @ a # as)"
    by (intro list_emb_append_mono subseq_order.refl list_emb_Cons)
  ultimately show ?thesis
    using Cons by (auto simp: stream_ok_def pump_def intro: subseq_order.trans)
qed (auto simp: stream_ok_def pump_def)

lemma SendAction_ok:
  assumes "reverse_ok log s"
  shows "reverse_ok (log @ [a]) (SendAction a s)"
proof -
  have "offer a c \<noteq> None" if "c \<in> set (rs_Streams s)" "targets a s c" for c
    using registered_open [OF assms that(1)] that(2) by (simp add: targets_def offer_def)
  then have "\<not> list_ex (\<lambda>c. targets a s c \<and> offer a c = None) (rs_Streams s)" by (auto simp: list_ex_iff)
  then have "SendAction a s = s\<lparr>rs_Streams := map (\<lambda>c. if targets a s c
      then (case offer a c of None \<Rightarrow> c | Some c' \<Rightarrow> c') else c) (rs_Streams s)\<rparr>"
    by (simp add: SendAction_def)
  also have "reverse_ok (log @ [a]) \<dots>"
  proof (rule map_streams_ok [OF assms])
    fix c assume c: "stream_ok log c"
    have "stream_ok (log @ [a]) (c\<lparr>sm_Queue := sm_Queue c @ [a]\<rparr>)"
      if "targets a s c" "length (sm_Queue c) < clientSendBuffer"
      using c that by (auto simp: stream_ok_def targets_def simp flip: append_assoc intro: list_emb_append_mono)
    with c stream_ok_log show "stream_ok (log @ [a])
        (if targets a s c then (case offer a c of None \<Rightarrow> c | Some c' \<Rightarrow> c') else c)"
      by (auto simp: offer_def)
  qed (auto simp: offer_def)
  finally show ?thesis .
qed

lemma register_ok:
  assumes "reverse_ok log s" and "register platform s = Some (i, s')" and "rs_NextID s < 2 ^ 64 - 1"
  shows "reverse_ok log s' \<and> rs_NextID s' = rs_NextID s + 1 \<and> i \<in> set (rs_Clients s')"
proof -
  have "(rs_NextID s + 1) mod 2 ^ 64 = rs_NextID s + 1"
    using assms(1,3) by (intro mod_pos_pos_trivial) (simp_all add: reverse_ok_def)
  then have s': "i = rs_NextID s + 1" "length (rs_Clients s) < maxStreamClients"
    "s' = s\<lparr>rs_NextID := i, rs_Streams := rs_Streams s @ [\<lparr>sm_ID = i, sm_Platform = platform, sm_Queue = [],
        sm_Closed = False, sm_Sender = SenderRunning, sm_Sent = []\<rparr>],
      rs_Clients := (if i \<in> set (rs_Clients s) then rs_Clients s else rs_Clients s @ [i])\<rparr>"
    using assms(2) by (auto simp: register_def Let_def split: if_splits)
  have new: "i \<notin> sm_ID ` set (rs_Streams s)"
    using assms(1) s'(1) by (auto simp: reverse_ok_def list_all_iff)
  then have "i \<notin> set (rs_Clients s)" using assms(1) by (auto simp: reverse_ok_def list_all_iff list_ex_iff)
  moreover have "list_all (\<lambda>c. sm_ID c \<le> i) (rs_Streams s)"
    using assms(1) s'(1) by (fastforce simp: reverse_ok_def list_all_iff)
  ultimately show ?thesis
    using assms(1) s'(2) new unfolding s'(3)
    by (simp add: s'(1) reverse_ok_def stream_ok_def) (auto simp: list_all_iff list_ex_iff)
qed

lemma step_ok:
  assumes "reverse_ok log s" and "rs_NextID s < 2 ^ 64 - 1"
  shows "reverse_ok (log @ sends [ev]) (stream_step ev s) \<and> rs_NextID (stream_step ev s) \<le> rs_NextID s + 1"
proof (cases ev)
  case (EvOpen ctx)
  then show ?thesis
    using assms register_ok [OF assms(1) _ assms(2)] by (auto simp: open_stream_def split: option.splits)
next
  case (EvSend a)
  then show ?thesis using SendAction_ok [OF assms(1), of a] by (simp add: SendAction_def)
next
  case (EvPump i ok)
  have "reverse_ok log (update_stream i (pump ok) s)"
    by (rule update_ok [OF assms(1) _ pump_ok]) (simp_all add: pump_def split: list.split)
  with EvPump show ?thesis by (simp add: update_stream_def)
next
  case (EvLeave i a)
  with assms show ?thesis by (auto simp: deregister_delete_def reverse_ok_def list_all_iff intro: le_trans [OF length_filter_le])
next
  case (EvClose i)
  have "reverse_ok log (deregister_close i s)" if "i \<notin> set (rs_Clients s)"
    unfolding deregister_close_def by (rule update_ok [OF assms(1)]) (use that in \<open>simp_all add: stream_ok_def\<close>)
  with EvClose assms(1) show ?thesis by (simp add: deregister_close_def update_stream_def)
next
  case EvShutdown
  with assms(1) show ?thesis by (simp add: Shutdown_def reverse_ok_def)
qed

lemma sends_Cons: "sends (ev # evs) = sends [ev] @ sends evs"
  by (cases ev) simp_all

lemma run_ok:
  assumes "reverse_ok log s" and "rs_NextID s + int (length evs) < 2 ^ 64"
  shows "reverse_ok (log @ sends evs) (run_events evs s)"
  using assms
proof (induction evs arbitrary: log s)
  case (Cons ev evs)
  then have "rs_NextID s < 2 ^ 64 - 1" by simp
  from step_ok [OF Cons.prems(1) this, of ev] have step: "reverse_ok (log @ sends [ev]) (stream_step ev s)"
    "rs_NextID (stream_step ev s) + int (length evs) < 2 ^ 64" using Cons.prems(2) by simp_all
  from Cons.IH [OF step] show ?case by (subst sends_Cons) simp
qed simp

text \<open>
  C18: However registrations, actions, senders, departures and closes interleave (over fewer than 2^64
  events), no action is sent on a closed channel, at most 64 streams are registered, each under its
  own id with an open channel, no buffer holds more than 64 actions, and what a stream has sent and
  still holds are actions for its own platform in the order they were given, none twice.
\<close>

theorem streams_ordered:
  assumes "length evs < 2 ^ 64"
  shows "\<not> rs_Panicked (run_events evs NewReverseServer)
    \<and> distinct (rs_Clients (run_events evs NewReverseServer))
    \<and> length (rs_Clients (run_events evs NewReverseServer)) \<le> 64
    \<and> list_all (\<lambda>i. list_ex (\<lambda>c. sm_ID c = i \<and> \<not> sm_Closed c) (rs_Streams (run_events evs NewReverseServer)))
        (rs_Clients (run_events evs NewReverseServer))
    \<and> distinct (map sm_ID (rs_Streams (run_events evs NewReverseServer)))
    \<and> list_all (\<lambda>c. length (sm_Queue c) \<le> 64
         \<and> subseq (sm_Sent c @ sm_Queue c) (filter (\<lambda>a. an_Platform a = sm_Platform c) (sends evs)))
        (rs_Streams (run_events evs NewReverseServer))"
proof -
  have "reverse_ok [] NewReverseServer" by (simp add: reverse_ok_def NewReverseServer_def)
  moreover have "rs_NextID NewReverseServer + int (length evs) < 2 ^ 64"
    using assms by (simp add: NewReverseServer_def)
  ultimately have "reverse_ok ([] @ sends evs) (run_events evs NewReverseServer)" by (rule run_ok)
  then show ?thesis by (simp add: reverse_ok_def stream_ok_def [abs_def] clientSendBuffer_def maxStreamClients_def)
qed

theorem streams_ordered_witness:
  "map sm_Sent (rs_Streams (run_events [EvOpen (background\<lparr>cx_Meta := Some \<lparr>cm_PlatformEnum = 1, cm_PlatformUID = None\<rparr>\<rparr>),
      EvSend \<lparr>an_Platform = 1, an_Action = 2, an_Payload = ''r''\<rparr>, EvSend \<lparr>an_Platform = 2, an_Action = 2, an_Payload = ''q''\<rparr>,
      EvPump 1 True, EvLeave 1 ArmEOF, EvSend \<lparr>an_Platform = 1, an_Action = 2, an_Payload = ''s''\<rparr>, EvClose 1]
      NewReverseServer)) = [[\<lparr>an_Platform = 1, an_Action = 2, an_Payload = ''r''\<rparr>]]
   \<and> \<not> rs_Panicked (run_events [EvOpen background, EvClose 1] NewReverseServer)"
proof
  show "\<not> rs_Panicked (run_events [EvOpen background, EvClose 1] NewReverseServer)"
    using streams_ordered [of "[EvOpen background, EvClose 1]"] by simp
qed code_simp

section \<open>Nothing queued is lost\<close>

fun pumps :: "nat \<Rightarrow> stream \<Rightarrow> stream" where
  "pumps 0 c = c"
| "pumps (Suc n) c = pumps n (pump True c)"

lemma pumps_drain:
  "sm_Sender c = SenderRunning \<Longrightarrow> length (sm_Queue c) = n \<Longrightarrow>
     pumps n c = c\<lparr>sm_Queue := [], sm_Sent := sm_Sent c @ sm_Queue c\<rparr>"
proof (induction n arbitrary: c)
  case (Suc n)
  then obtain a as where q: "sm_Queue c = a # as" by (cases "sm_Queue c") auto
  with Suc.prems(1) have "pump True c = c\<lparr>sm_Queue := as, sm_Sent := sm_Sent c @ [a]\<rparr>" by (simp add: pump_def)
  with Suc q show ?case by simp
qed simp

lemma pumps_last: "pumps (Suc n) c = pump True (pumps n c)"
  by (induction n arbitrary: c) simp_all

text \<open>
  An action for a registered client whose buffer has room is queued there, behind what is
  already queued, and is sent when the sender has taken that many actions, even when the client is
  deregistered and its channel closed in between; then the sender ends.
\<close>

theorem queued_is_sent:
  assumes "reverse_ok log s" and "c \<in> set (rs_Streams s)" and "sm_ID c \<in> set (rs_Clients s)"
    and "sm_Platform c = an_Platform a" and "length (sm_Queue c) < 64" and "sm_Sender c = SenderRunning"
  shows "case find (\<lambda>d. sm_ID d = sm_ID c)
        (rs_Streams (deregister_close (sm_ID c) (deregister_delete (sm_ID c) (SendAction a s)))) of
      None \<Rightarrow> False
    | Some d \<Rightarrow> (let d' = pumps (length (sm_Queue c) + 2) d in
        sm_Sent d' = sm_Sent c @ sm_Queue c @ [a] \<and> sm_Queue d' = [] \<and> sm_Sender d' = SenderDone)"
proof -
  let ?s = "deregister_close (sm_ID c) (deregister_delete (sm_ID c) (SendAction a s))"
  let ?c = "c\<lparr>sm_Queue := sm_Queue c @ [a], sm_Closed := True\<rparr>"
  have "\<not> list_ex (\<lambda>c. targets a s c \<and> offer a c = None) (rs_Streams s)"
    using registered_open [OF assms(1)] by (auto simp: list_ex_iff offer_def targets_def)
  then have streams: "rs_Streams ?s = map (\<lambda>d. if sm_ID d = sm_ID c then d\<lparr>sm_Closed := True\<rparr> else d)
      (map (\<lambda>c. if targets a s c then (case offer a c of None \<Rightarrow> c | Some c' \<Rightarrow> c') else c) (rs_Streams s))"
    by (simp add: SendAction_def deregister_close_def deregister_delete_def update_stream_def)
  have "\<not> sm_Closed c" by (rule registered_open [OF assms(1-3)])
  then have "offer a c = Some (c\<lparr>sm_Queue := sm_Queue c @ [a]\<rparr>)" "targets a s c"
    using assms(3-5) by (simp_all add: offer_def targets_def clientSendBuffer_def)
  with assms(2) have "?c \<in> set (rs_Streams ?s)" unfolding streams by force
  moreover have "map sm_ID (rs_Streams ?s) = map sm_ID (rs_Streams s)"
    unfolding streams by (auto simp: offer_def)
  then have "distinct (map sm_ID (rs_Streams ?s))" using assms(1) by (simp add: reverse_ok_def)
  ultimately have "find (\<lambda>d. sm_ID d = sm_ID c) (rs_Streams ?s) = Some ?c"
    by (intro find_unique) simp_all
  moreover have "pumps (length (sm_Queue c) + 2) ?c = pump True (pumps (length (sm_Queue ?c)) ?c)"
    using pumps_last [of "length (sm_Queue ?c)" ?c] by simp
  moreover have "pumps (length (sm_Queue ?c)) ?c = ?c\<lparr>sm_Queue := [], sm_Sent := sm_Sent c @ sm_Queue c @ [a]\<rparr>"
    using pumps_drain [of ?c] assms(6) by simp
  ultimately show ?thesis using assms(6) by (simp add: pump_def Let_def)
qed

definition one_stream :: reverse_server where
  "one_stream = run_events [EvOpen (background\<lparr>cx_Meta := Some \<lparr>cm_PlatformEnum = 1, cm_PlatformUID = None\<rparr>\<rparr>)] NewReverseServer"

theorem queued_is_sent_witness:
  "let a = \<lparr>an_Platform = 1, an_Action = 2, an_Payload = ''r''\<rparr> in
   case find (\<lambda>d. sm_ID d = 1) (rs_Streams (deregister_close 1 (deregister_delete 1 (SendAction a one_stream)))) of
     None \<Rightarrow> False | Some d \<Rightarrow> sm_Sent (pumps 2 d) = [a]"
proof -
  have "reverse_ok [] NewReverseServer" by (simp add: reverse_ok_def NewReverseServer_def)
  then have ok: "reverse_ok [] one_stream"
    unfolding one_stream_def
    using run_ok [of "[]" NewReverseServer "[EvOpen (background\<lparr>cx_Meta := Some \<lparr>cm_PlatformEnum = 1, cm_PlatformUID = None\<rparr>\<rparr>)]"]
    by (simp add: NewReverseServer_def)
  let ?c = "\<lparr>sm_ID = 1, sm_Platform = 1, sm_Queue = [], sm_Closed = False, sm_Sender = SenderRunning, sm_Sent = []\<rparr>"
  let ?a = "\<lparr>an_Platform = 1, an_Action = 2, an_Payload = ''r''\<rparr>"
  have rows: "rs_Streams one_stream = [?c]" "rs_Clients one_stream = [1]" unfolding one_stream_def by code_simp+
  from queued_is_sent [OF ok, of ?c ?a] rows show ?thesis by (simp add: Let_def numeral_2_eq_2 split: option.splits)
qed

end
