(* ===== verification/RpcClient.thy ===== *)
theory RpcClient
  imports AccountServer ReverseStream
begin

text \<open>
  The platform clients' half of the RPC boundary (\<open>pkg/grpc/client\<close>): retries and deadlines of unary
  calls, the check of the server's URL, and the reconnecting action stream with the registration
  before every attempt. What the server, the transport and the clock do is a script the client
  meets; the HTTP/2 transport itself is left out.
\<close>

section \<open>Dialling\<close>

datatype dial_error = DialUnparsed | DialScheme | DialNoHost

definition validateBaseURL :: "(string \<Rightarrow> (string \<times> string) option) \<Rightarrow> string \<Rightarrow> dial_error + unit" where
  "validateBaseURL parse baseURL =
    (case parse baseURL of
       None \<Rightarrow> Inl DialUnparsed
     | Some (scheme, host) \<Rightarrow>
         if scheme \<noteq> ''http'' \<and> scheme \<noteq> ''https'' then Inl DialScheme
         else if host = [] then Inl DialNoHost
         else Inr ())"

definition defaultCallTimeout :: duration where "defaultCallTimeout = 30 * Second"

definition call_timeout :: "duration \<Rightarrow> duration" where
  "call_timeout configured = (if configured \<le> 0 then defaultCallTimeout else configured)"

section \<open>Unary calls\<close>

text \<open>The deadline interceptor: a call without a deadline gets one.\<close>

definition with_deadline :: "duration \<Rightarrow> instant \<Rightarrow> instant option \<Rightarrow> instant" where
  "with_deadline timeout now deadline = (case deadline of None \<Rightarrow> now + timeout | Some d \<Rightarrow> d)"

definition retryMaxAttempts :: nat where "retryMaxAttempts = 2"

definition retryBackoffs :: "duration list" where "retryBackoffs = [100000000, 200000000]"

definition retryMinRoundTrip :: duration where "retryMinRoundTrip = 50000000"

definition retryableProcedures :: "string list" where
  "retryableProcedures = [proc ''UtilityService'' ''Ping'', proc ''UtilityService'' ''HealthCheck'',
     proc ''UserService'' ''GetUser'', proc ''ReminderService'' ''GetReminder'',
     proc ''ReminderService'' ''ListReminders'', proc ''TriggerService'' ''GetTrigger'',
     proc ''TriggerService'' ''ListTriggers'', proc ''TriggerService'' ''GetTriggerStats'']"

text \<open>
  What the n-th turn of the loop meets: the time left to the deadline, if there is one, and whether
  the context ends before the backoff does.
\<close>

record turn =
  tu_Left :: "duration option"
  tu_Cancelled :: bool

definition unavailable :: "'r rpc \<Rightarrow> bool" where
  "unavailable r = (case r of Inl err \<Rightarrow> fst err = Unavailable | Inr x \<Rightarrow> False)"

fun retry_loop ::
  "(nat \<Rightarrow> turn) \<Rightarrow> ('s \<Rightarrow> 'r rpc \<times> 's) \<Rightarrow> nat \<Rightarrow> duration list \<Rightarrow> 'r rpc \<times> 's \<Rightarrow> 'r rpc \<times> 's" where
  "retry_loop turns nxt attempt [] (resp, s) = (resp, s)"
| "retry_loop turns nxt attempt (backoff # bs) (resp, s) =
     (if \<not> unavailable resp then (resp, s)
      else if (case tu_Left (turns attempt) of None \<Rightarrow> False | Some left \<Rightarrow> left < backoff + retryMinRoundTrip)
        then (resp, s)
      else if tu_Cancelled (turns attempt) then (resp, s)
      else retry_loop turns nxt (attempt + 1) bs (nxt s))"

definition Retry_WrapUnary ::
  "(nat \<Rightarrow> turn) \<Rightarrow> string \<Rightarrow> ('s \<Rightarrow> 'r rpc \<times> 's) \<Rightarrow> 's \<Rightarrow> 'r rpc \<times> 's" where
  "Retry_WrapUnary turns procedure nxt s =
    (if procedure \<notin> set retryableProcedures then nxt s
     else retry_loop turns nxt 0 retryBackoffs (nxt s))"

text \<open>A server that answers the n-th request of a call with \<open>script n\<close>.\<close>

definition answering :: "(nat \<Rightarrow> 'r rpc) \<Rightarrow> nat \<Rightarrow> 'r rpc \<times> nat" where
  "answering script n = (script n, n + 1)"

definition retry_allowed :: "(nat \<Rightarrow> turn) \<Rightarrow> nat \<Rightarrow> bool" where
  "retry_allowed turns k \<longleftrightarrow> \<not> tu_Cancelled (turns k)
     \<and> (case tu_Left (turns k) of None \<Rightarrow> True | Some left \<Rightarrow> retryBackoffs ! k + retryMinRoundTrip \<le> left)"

text \<open>
  A call is repeated only when that is harmless and useful: at most three requests are sent, more
  than one only of an allow-listed procedure; each but the last was answered Unavailable, with time
  left for the backoff and one more round trip; the caller gets the answer to the last; and it gets
  Unavailable only when a repetition was not allowed or all three were answered so.
\<close>

theorem retries_bounded:
  assumes "Retry_WrapUnary turns procedure (answering script) 0 = (r, n)"
  shows "1 \<le> n \<and> n \<le> 3 \<and> r = script (n - 1)
    \<and> (1 < n \<longrightarrow> procedure \<in> set retryableProcedures)
    \<and> list_all (\<lambda>k. unavailable (script k) \<and> retry_allowed turns k) [0..<n - 1]
    \<and> (unavailable r \<and> procedure \<in> set retryableProcedures \<longrightarrow> n = 3 \<or> \<not> retry_allowed turns (n - 1))"
proof (cases "procedure \<in> set retryableProcedures")
  case False
  with assms show ?thesis by (auto simp: Retry_WrapUnary_def answering_def)
next
  case True
  then show ?thesis
    using assms
    by (auto simp: Retry_WrapUnary_def answering_def retryBackoffs_def retry_allowed_def numeral_2_eq_2
        not_le split: if_splits option.splits)
qed

theorem retries_bounded_witness:
  "Retry_WrapUnary (\<lambda>k. \<lparr>tu_Left = Some 400000000, tu_Cancelled = False\<rparr>) (proc ''UtilityService'' ''Ping'')
     (answering (\<lambda>n. if n < 2 then Inl (Unavailable, ''x'') else Inr ''pong'')) 0 = (Inr ''pong'', 3)
   \<and> list_all (\<lambda>k. retry_allowed (\<lambda>k. \<lparr>tu_Left = Some 400000000, tu_Cancelled = False\<rparr>) k) [0, 1]"
proof -
  let ?turns = "\<lambda>k. \<lparr>tu_Left = Some 400000000, tu_Cancelled = False\<rparr>"
  have run: "Retry_WrapUnary ?turns (proc ''UtilityService'' ''Ping'')
     (answering (\<lambda>n. if n < 2 then Inl (Unavailable, ''x'') else Inr ''pong'')) 0 = (Inr ''pong'', 3)"
    by code_simp
  from retries_bounded [OF this] run show ?thesis by (simp add: upt_rec)
qed

section \<open>The action stream\<close>

definition reconnectMinBackoff :: duration where "reconnectMinBackoff = 1 * Second"
definition reconnectMaxBackoff :: duration where "reconnectMaxBackoff = 30 * Second"

lemmas backoff_bounds = reconnectMinBackoff_def reconnectMaxBackoff_def Second_def

datatype streamOutcome = streamUnreachable | streamEstablished | streamRejected

definition nextBackoff :: "duration \<Rightarrow> streamOutcome \<Rightarrow> duration" where
  "nextBackoff current outcome =
    (if outcome = streamEstablished then reconnectMinBackoff
     else let nxt = i64 (current * 2) in
       if nxt > reconnectMaxBackoff then reconnectMaxBackoff else nxt)"

definition recvOutcome :: "rpc_error \<Rightarrow> streamOutcome" where
  "recvOutcome err =
    (if fst err \<in> {ResourceExhausted, PermissionDenied, Unimplemented, FailedPrecondition}
     then streamRejected else streamEstablished)"

text \<open>
  A handler's effect on the client and whether it panicked: a panic is recovered, with what the
  handler did before it. An action without a handler is ignored.
\<close>

type_synonym 's action_handlers = "int \<Rightarrow> (client_action \<Rightarrow> 's \<Rightarrow> 's \<times> bool) option"

definition dispatch :: "'s action_handlers \<Rightarrow> client_action \<Rightarrow> 's \<Rightarrow> 's" where
  "dispatch handlers a s = (case handlers (an_Action a) of None \<Rightarrow> s | Some h \<Rightarrow> fst (h a s))"

datatype received = Received client_action | ReceivedEOF | ReceiveFailed rpc_error

text \<open>The pump: \<open>None\<close> is a stream still open when the script ends.\<close>

fun receive_loop :: "'s action_handlers \<Rightarrow> received list \<Rightarrow> 's \<Rightarrow> streamOutcome option \<times> 's" where
  "receive_loop handlers [] s = (None, s)"
| "receive_loop handlers (Received a # rs) s = receive_loop handlers rs (dispatch handlers a s)"
| "receive_loop handlers (ReceivedEOF # rs) s = (Some streamEstablished, s)"
| "receive_loop handlers (ReceiveFailed err # rs) s = (Some (recvOutcome err), s)"

definition ensureRegistered :: "'r rpc \<Rightarrow> unit rpc" where
  "ensureRegistered r = (case r of
     Inr x \<Rightarrow> Inr ()
   | Inl err \<Rightarrow> if fst err = AlreadyExists then Inr () else Inl err)"

text \<open>
  One attempt: how the registration and the hello end, what is received, and whether the context is
  found ended before the attempt or during the wait after it.
\<close>

record stream_try =
  ty_Cancelled :: bool
  ty_Register :: "unit rpc"
  ty_Send :: "rpc_error option"
  ty_Receive :: "received list"
  ty_CancelledWaiting :: bool

definition runOnce :: "'s action_handlers \<Rightarrow> stream_try \<Rightarrow> 's \<Rightarrow> streamOutcome option \<times> 's" where
  "runOnce handlers a s =
    (case ensureRegistered (ty_Register a) of
       Inl err \<Rightarrow> (Some streamUnreachable, s)
     | Inr x \<Rightarrow> (case ty_Send a of
         Some err \<Rightarrow> (Some streamUnreachable, s)
       | None \<Rightarrow> receive_loop handlers (ty_Receive a) s))"

text \<open>The reconnect loop: the delays it waited and what the handlers did.\<close>

fun runClientActionStream ::
  "'s action_handlers \<Rightarrow> duration \<Rightarrow> stream_try list \<Rightarrow> 's \<Rightarrow> duration list \<times> 's" where
  "runClientActionStream handlers backoff [] s = ([], s)"
| "runClientActionStream handlers backoff (a # as) s =
     (if ty_Cancelled a then ([], s)
      else case runOnce handlers a s of
        (None, s') \<Rightarrow> ([], s')
      | (Some outcome, s') \<Rightarrow>
          let backoff' = nextBackoff backoff outcome in
          if ty_CancelledWaiting a then ([backoff'], s')
          else (case runClientActionStream handlers backoff' as s' of (waits, s'') \<Rightarrow> (backoff' # waits, s'')))"

section \<open>The delays\<close>

text \<open>How many attempts, counted from the last, failed since a stream was established.\<close>

definition failures :: "streamOutcome list \<Rightarrow> nat" where
  "failures os = length (takeWhile (\<lambda>x. x \<noteq> streamEstablished) (rev os))"

fun backoffs :: "duration \<Rightarrow> streamOutcome list \<Rightarrow> duration list" where
  "backoffs b [] = []"
| "backoffs b (x # xs) = nextBackoff b x # backoffs (nextBackoff b x) xs"

definition delay_after :: "nat \<Rightarrow> duration" where
  "delay_after k = min reconnectMaxBackoff (reconnectMinBackoff * 2 ^ k)"

lemma delay_after_range: "0 < delay_after k" "delay_after k \<le> reconnectMaxBackoff"
  by (simp_all add: delay_after_def backoff_bounds)

lemma nextBackoff_delay:
  "nextBackoff (delay_after k) x = delay_after (if x = streamEstablished then 0 else Suc k)"
proof (cases "x = streamEstablished")
  case False
  have "i64 (delay_after k * 2) = delay_after k * 2"
    using delay_after_range [of k] by (simp add: backoff_bounds max_i64_def)
  with False show ?thesis by (auto simp: nextBackoff_def delay_after_def backoff_bounds Let_def min_def)
qed (simp add: nextBackoff_def delay_after_def backoff_bounds)

lemma failures_snoc: "failures (os @ [x]) = (if x = streamEstablished then 0 else Suc (failures os))"
  by (simp add: failures_def)

lemma backoffs_delay:
  "backoffs (delay_after (failures before)) os
     = map (\<lambda>i. delay_after (failures (before @ take (Suc i) os))) [0..<length os]"
proof (induction os arbitrary: before)
  case (Cons x os)
  have "nextBackoff (delay_after (failures before)) x = delay_after (failures (before @ [x]))"
    by (simp add: nextBackoff_delay failures_snoc)
  with Cons.IH [of "before @ [x]"] show ?case
    by (simp add: map_upt_Suc del: upt_Suc)
qed simp

text \<open>The outcomes of the attempts the loop makes, in order.\<close>

fun outcomes :: "'s action_handlers \<Rightarrow> stream_try list \<Rightarrow> 's \<Rightarrow> streamOutcome list" where
  "outcomes handlers [] s = []"
| "outcomes handlers (a # as) s =
     (if ty_Cancelled a then []
      else case runOnce handlers a s of
        (None, s') \<Rightarrow> []
      | (Some outcome, s') \<Rightarrow> outcome # (if ty_CancelledWaiting a then [] else outcomes handlers as s'))"

lemma run_waits: "fst (runClientActionStream handlers b as s) = backoffs b (outcomes handlers as s)"
  by (induction handlers b as s rule: runClientActionStream.induct)
    (auto simp: Let_def split: prod.splits option.splits)

text \<open>
  The client reconnects patiently: before each new attempt it waits one second doubled once for
  every attempt that failed since a stream was last established, and never more than thirty
  seconds; a refusal by the server counts as a failure, so it does not reset the delay.
\<close>

theorem reconnect_delays:
  "fst (runClientActionStream handlers reconnectMinBackoff as s)
     = map (\<lambda>i. min (30 * Second) (Second * 2 ^ failures (take (Suc i) (outcomes handlers as s))))
         [0..<length (outcomes handlers as s)]
   \<and> (fst err \<in> {ResourceExhausted, PermissionDenied, Unimplemented, FailedPrecondition} \<longleftrightarrow>
        recvOutcome err \<noteq> streamEstablished)"
proof
  have "reconnectMinBackoff = delay_after (failures [])" by (simp add: delay_after_def failures_def backoff_bounds)
  with backoffs_delay [of "[]" "outcomes handlers as s"]
  show "fst (runClientActionStream handlers reconnectMinBackoff as s)
     = map (\<lambda>i. min (30 * Second) (Second * 2 ^ failures (take (Suc i) (outcomes handlers as s))))
         [0..<length (outcomes handlers as s)]"
    by (simp add: run_waits delay_after_def reconnectMinBackoff_def reconnectMaxBackoff_def)
qed (simp add: recvOutcome_def)

section \<open>What reaches the handlers\<close>

fun until_end :: "received list \<Rightarrow> client_action list" where
  "until_end (Received a # rs) = a # until_end rs"
| "until_end rs = []"

text \<open>Every action received before the stream ends is handled once, in the order of arrival.\<close>

lemma receive_loop_fold:
  "snd (receive_loop handlers rs s) = fold (dispatch handlers) (until_end rs) s"
  by (induction handlers rs s rule: receive_loop.induct) simp_all

text \<open>
  An account that is marked deleted keeps its identity: registering it again is answered
  AlreadyExists, which the client takes for success, and the stream is refused for ever.
\<close>

theorem deleted_account_stuck:
  assumes "u \<in> set (users (as_Accounts s))" and "accounts_ok (as_Accounts s)" and "us_Deleted u"
    and "\<lparr>pu_UserID = us_ID u, pu_Platform = cm_PlatformEnum m, pu_UID = uid, pu_Deleted = d\<rparr> \<in> set (identities (as_Accounts s))"
    and "FromHeader (ae_Header e) = Inr m" and "cm_PlatformUID m = Some uid" and "rq_Username req \<noteq> None"
    and "\<not> ae_Down e StmtCreateUser"
  shows "ensureRegistered (map_sum id (\<lambda>_. ()) (fst (UserServer_Register e req s))) = Inr ()
    \<and> resolver_of s (cm_PlatformEnum m) uid = Inl ResolveNotFound"
proof
  have "identity_taken (cm_PlatformEnum m) uid (as_Accounts s)"
    using assms(4) by (force simp: identity_taken_def list_ex_iff)
  then show "ensureRegistered (map_sum id (\<lambda>_. ()) (fst (UserServer_Register e req s))) = Inr ()"
    using assms(5-8)
    by (auto simp: UserServer_Register_def check_register_def CreateUser_def identity_taken_def Let_def ensureRegistered_def)
  have "us_ID v = us_ID u" if "v \<in> set (users (as_Accounts s))" "p \<in> set (identities (as_Accounts s))"
    "pu_UserID p = us_ID v" "pu_Platform p = cm_PlatformEnum m" "pu_UID p = uid" for v p
  proof -
    have "inj_on (\<lambda>p. (pu_Platform p, pu_UID p)) (set (identities (as_Accounts s)))"
      using assms(2) by (simp add: accounts_ok_def distinct_map)
    from inj_onD [OF this _ that(2) assms(4)] that(3-5) show ?thesis by auto
  qed
  moreover have "inj_on us_ID (set (users (as_Accounts s)))"
    using assms(2) by (simp add: accounts_ok_def distinct_map)
  ultimately have "GetUserByPlatformUID (cm_PlatformEnum m) uid (as_Accounts s) = None"
    using assms(1,3) by (auto simp: GetUserByPlatformUID_def find_None_iff list_ex_iff dest: inj_onD)
  then show "resolver_of s (cm_PlatformEnum m) uid = Inl ResolveNotFound" by (simp add: resolver_of_def)
qed

end
