(* ===== verification/CommandRegistry.thy ===== *)
theory CommandRegistry
  imports GoStrings "HOL-Library.AList"
begin

text \<open>
  The command catalogue of \<open>pkg/command/command.go\<close>: declarations, the registry and the
  resolution of names, aliases and groups. A Go map is an association list with distinct keys;
  \<open>lc\<close> is the Unicode lower-case table, and a handler is a value of any type.
\<close>

section \<open>Declarations\<close>

datatype anyval = VString string | VInt64 int | VInt int | VInt32 int | VBool bool | VOther

definition ArgString :: int where "ArgString = 0"
definition ArgInt :: int where "ArgInt = 1"
definition ArgBool :: int where "ArgBool = 2"

lemmas arg_types = ArgString_def ArgInt_def ArgBool_def

record arg =
  arg_Name :: string
  arg_Description :: string
  arg_Type :: int
  arg_Required :: bool
  arg_Default :: "anyval option"

record 'h command =
  cmd_Name :: string
  cmd_Aliases :: "string list"
  cmd_Description :: string
  cmd_Args :: "arg list"
  cmd_Group :: string
  cmd_Sub :: string
  cmd_Clearance :: int
  cmd_Slow :: bool
  cmd_Ephemeral :: bool
  cmd_Handler :: "'h option"

record commandGroup =
  group_name :: string
  group_members :: "(string \<times> string) list"

record 'h registry =
  reg_commands :: "(string \<times> 'h command) list"
  reg_canonical :: "(string \<times> string) list"
  reg_groups :: "(string \<times> commandGroup) list"

definition NewRegistry :: "'h registry" where
  "NewRegistry = \<lparr>reg_commands = [], reg_canonical = [], reg_groups = []\<rparr>"

definition fold_name :: "(nat \<Rightarrow> nat) \<Rightarrow> string \<Rightarrow> string" where
  "fold_name lc name = to_lower lc (trim_space name)"

section \<open>Registration\<close>

datatype register_error =
    EmptyName | NoHandler | UnnamedArgument | DuplicateArgument string | UnknownArgType int
  | RequiredAfterOptional string | SubWithoutGroup | GroupWithoutSub | BlankGroup | BlankSub
  | EmptyAlias | NameTaken string string | DeclaredTwice string | IsGroup string
  | OwnGroup string | GroupIsCommand string | MemberTaken string

fun validate_args_loop ::
  "(nat \<Rightarrow> nat) \<Rightarrow> string list \<Rightarrow> bool \<Rightarrow> arg list \<Rightarrow> register_error + unit" where
  "validate_args_loop lc seen optionalSeen [] = Inr ()"
| "validate_args_loop lc seen optionalSeen (a # as) =
    (let name = fold_name lc (arg_Name a) in
     if name = [] then Inl UnnamedArgument
     else if name \<in> set seen then Inl (DuplicateArgument (arg_Name a))
     else if arg_Type a < ArgString \<or> arg_Type a > ArgBool then Inl (UnknownArgType (arg_Type a))
     else if arg_Required a \<and> optionalSeen then Inl (RequiredAfterOptional (arg_Name a))
     else validate_args_loop lc (name # seen) (optionalSeen \<or> \<not> arg_Required a) as)"

definition validateArgs :: "(nat \<Rightarrow> nat) \<Rightarrow> 'h command \<Rightarrow> register_error + unit" where
  "validateArgs lc cmd = validate_args_loop lc [] False (cmd_Args cmd)"

definition validateGrouping :: "(nat \<Rightarrow> nat) \<Rightarrow> 'h command \<Rightarrow> register_error + unit" where
  "validateGrouping lc cmd =
    (if cmd_Group cmd = [] \<and> cmd_Sub cmd = [] then Inr ()
     else if cmd_Group cmd = [] then Inl SubWithoutGroup
     else if cmd_Sub cmd = [] then Inl GroupWithoutSub
     else if fold_name lc (cmd_Group cmd) = [] then Inl BlankGroup
     else if fold_name lc (cmd_Sub cmd) = [] then Inl BlankSub
     else Inr ())"

text \<open>The keys of a command: its folded name and aliases; an alias that folds to nothing is refused.\<close>

fun alias_keys :: "(nat \<Rightarrow> nat) \<Rightarrow> string list \<Rightarrow> register_error + string list" where
  "alias_keys lc [] = Inr []"
| "alias_keys lc (a # as) =
    (if fold_name lc a = [] then Inl EmptyAlias
     else and_then (alias_keys lc as) (\<lambda>ks. Inr (fold_name lc a # ks)))"

fun check_keys :: "'h registry \<Rightarrow> string \<Rightarrow> string list \<Rightarrow> string list \<Rightarrow> register_error + unit" where
  "check_keys r grp seen [] = Inr ()"
| "check_keys r grp seen (key # keys) =
    (case map_of (reg_canonical r) key of
       Some existing \<Rightarrow> Inl (NameTaken key existing)
     | None \<Rightarrow>
         if key \<in> set seen then Inl (DeclaredTwice key)
         else if map_of (reg_groups r) key \<noteq> None then Inl (IsGroup key)
         else if key = grp then Inl (OwnGroup key)
         else check_keys r grp (key # seen) keys)"

definition members_of :: "'h registry \<Rightarrow> string \<Rightarrow> (string \<times> string) list" where
  "members_of r grp = (case map_of (reg_groups r) grp of None \<Rightarrow> [] | Some g \<Rightarrow> group_members g)"

definition check_group :: "'h registry \<Rightarrow> string \<Rightarrow> string \<Rightarrow> register_error + unit" where
  "check_group r grp sub =
    (if grp = [] then Inr ()
     else case map_of (reg_canonical r) grp of
       Some existing \<Rightarrow> Inl (GroupIsCommand existing)
     | None \<Rightarrow> (case map_of (members_of r grp) sub of
         Some existing \<Rightarrow> Inl (MemberTaken existing)
       | None \<Rightarrow> Inr ()))"

definition insert_command ::
  "string \<Rightarrow> string list \<Rightarrow> string \<Rightarrow> string \<Rightarrow> 'h command \<Rightarrow> 'h registry \<Rightarrow> 'h registry" where
  "insert_command name keys grp sub cmd r =
    \<lparr>reg_commands = AList.update name cmd (reg_commands r),
     reg_canonical = foldl (\<lambda>m key. AList.update key name m) (reg_canonical r) keys,
     reg_groups = (if grp = [] then reg_groups r
       else let gname = (case map_of (reg_groups r) grp of
                   None \<Rightarrow> trim_space (cmd_Group cmd) | Some g \<Rightarrow> group_name g)
            in AList.update grp
                 \<lparr>group_name = gname, group_members = AList.update sub name (members_of r grp)\<rparr>
                 (reg_groups r))\<rparr>"

definition Register ::
  "(nat \<Rightarrow> nat) \<Rightarrow> 'h command \<Rightarrow> 'h registry \<Rightarrow> (register_error + unit) \<times> 'h registry" where
  "Register lc cmd r =
    (let name = fold_name lc (cmd_Name cmd);
         grp = fold_name lc (cmd_Group cmd);
         sub = fold_name lc (cmd_Sub cmd);
         checked =
           and_then (guard_that (name \<noteq> []) EmptyName) (\<lambda>_.
           and_then (guard_that (cmd_Handler cmd \<noteq> None) NoHandler) (\<lambda>_.
           and_then (validateArgs lc cmd) (\<lambda>_.
           and_then (validateGrouping lc cmd) (\<lambda>_.
           and_then (alias_keys lc (cmd_Aliases cmd)) (\<lambda>aliases.
           and_then (check_keys r grp [] (name # aliases)) (\<lambda>_.
           and_then (check_group r grp sub) (\<lambda>_. Inr (name # aliases))))))))
     in case checked of
          Inl e \<Rightarrow> (Inl e, r)
        | Inr keys \<Rightarrow> (Inr (), insert_command name keys grp sub cmd r))"

section \<open>Resolution\<close>

definition Lookup :: "(nat \<Rightarrow> nat) \<Rightarrow> 'h registry \<Rightarrow> string \<Rightarrow> 'h command option" where
  "Lookup lc r name = (case map_of (reg_canonical r) (fold_name lc name) of
     None \<Rightarrow> None | Some canonical \<Rightarrow> map_of (reg_commands r) canonical)"

definition ResolveChat ::
  "(nat \<Rightarrow> nat) \<Rightarrow> 'h registry \<Rightarrow> string \<Rightarrow> string list \<Rightarrow> ('h command \<times> string list) option" where
  "ResolveChat lc r name args =
    (case Lookup lc r name of
       Some cmd \<Rightarrow> Some (cmd, args)
     | None \<Rightarrow> (case map_of (reg_groups r) (fold_name lc name) of
         None \<Rightarrow> None
       | Some grp \<Rightarrow> (case args of
           [] \<Rightarrow> None
         | a # rest \<Rightarrow> (case map_of (group_members grp) (fold_name lc a) of
             None \<Rightarrow> None
           | Some canonical \<Rightarrow> (case map_of (reg_commands r) canonical of
               None \<Rightarrow> None
             | Some cmd \<Rightarrow> Some (cmd, rest))))))"

definition Groups :: "'h registry \<Rightarrow> string list" where
  "Groups r = sort (map (group_name \<circ> snd) (reg_groups r))"

definition All_commands :: "'h registry \<Rightarrow> 'h command list" where
  "All_commands r = sort_key cmd_Name (map snd (reg_commands r))"

section \<open>Invocations\<close>

record invocation =
  inv_Args :: "string \<rightharpoonup> anyval"
  inv_specs :: "string \<rightharpoonup> arg"

definition toInt64 :: "anyval option \<Rightarrow> int option" where
  "toInt64 value = (case value of
     Some (VInt64 n) \<Rightarrow> Some n | Some (VInt n) \<Rightarrow> Some n | Some (VInt32 n) \<Rightarrow> Some n | _ \<Rightarrow> None)"

text \<open>The default of an undeclared name is the zero \<open>Arg\<close>'s, nil.\<close>

definition spec_default :: "invocation \<Rightarrow> string \<Rightarrow> anyval option" where
  "spec_default call name = (case inv_specs call name of None \<Rightarrow> None | Some a \<Rightarrow> arg_Default a)"

definition Inv_String :: "invocation \<Rightarrow> string \<Rightarrow> string" where
  "Inv_String call name =
    (case inv_Args call name of Some (VString s) \<Rightarrow> s
     | _ \<Rightarrow> (case spec_default call name of Some (VString s) \<Rightarrow> s | _ \<Rightarrow> []))"

definition Inv_Int :: "invocation \<Rightarrow> string \<Rightarrow> int" where
  "Inv_Int call name =
    (case toInt64 (inv_Args call name) of Some n \<Rightarrow> n
     | None \<Rightarrow> (case toInt64 (spec_default call name) of Some n \<Rightarrow> n | None \<Rightarrow> 0))"

definition Inv_Bool :: "invocation \<Rightarrow> string \<Rightarrow> bool" where
  "Inv_Bool call name =
    (case inv_Args call name of Some (VBool b) \<Rightarrow> b
     | _ \<Rightarrow> (case spec_default call name of Some (VBool b) \<Rightarrow> b | _ \<Rightarrow> False))"

definition Has :: "invocation \<Rightarrow> string \<Rightarrow> bool" where
  "Has call name \<longleftrightarrow> inv_Args call name \<noteq> None"

section \<open>The registry invariant\<close>

text \<open>
  Every key leads to a registered command that owns it, no key is a group, and every group
  member leads to a registered command of that group and sub.
\<close>

definition cmd_keys :: "(nat \<Rightarrow> nat) \<Rightarrow> 'h command \<Rightarrow> string set" where
  "cmd_keys lc cmd = insert (fold_name lc (cmd_Name cmd)) (fold_name lc ` set (cmd_Aliases cmd))"

definition registry_ok :: "(nat \<Rightarrow> nat) \<Rightarrow> 'h registry \<Rightarrow> bool" where
  "registry_ok lc r \<longleftrightarrow>
     (\<forall>n cmd. map_of (reg_commands r) n = Some cmd \<longrightarrow> n = fold_name lc (cmd_Name cmd)
        \<and> (\<forall>k \<in> cmd_keys lc cmd. map_of (reg_canonical r) k = Some n)
        \<and> (fold_name lc (cmd_Group cmd) \<noteq> [] \<longrightarrow>
            map_of (members_of r (fold_name lc (cmd_Group cmd))) (fold_name lc (cmd_Sub cmd)) = Some n))
     \<and> (\<forall>k n. map_of (reg_canonical r) k = Some n \<longrightarrow>
          (\<exists>cmd. map_of (reg_commands r) n = Some cmd \<and> k \<in> cmd_keys lc cmd))
     \<and> (\<forall>g s n. map_of (members_of r g) s = Some n \<longrightarrow>
          (\<exists>cmd. map_of (reg_commands r) n = Some cmd \<and> fold_name lc (cmd_Group cmd) = g
             \<and> fold_name lc (cmd_Sub cmd) = s))
     \<and> dom (map_of (reg_canonical r)) \<inter> dom (map_of (reg_groups r)) = {}"

lemma NewRegistry_ok [keeps]: "registry_ok lc NewRegistry"
  by (simp add: registry_ok_def NewRegistry_def members_of_def)

lemma map_of_insert_keys:
  "map_of (foldl (\<lambda>m key. AList.update key n m) al keys) k
     = (if k \<in> set keys then Some n else map_of al k)"
  by (induction keys arbitrary: al) (auto simp: update_conv)

lemma alias_keys_Inr: "alias_keys lc as = Inr ks \<longleftrightarrow> ks = map (fold_name lc) as \<and> [] \<notin> set ks"
  by (induction as arbitrary: ks) auto

lemma check_keys_Inr:
  "check_keys r grp seen keys = Inr () \<longleftrightarrow>
     distinct keys \<and> set keys \<inter> set seen = {} \<and> grp \<notin> set keys
     \<and> set keys \<inter> dom (map_of (reg_canonical r)) = {} \<and> set keys \<inter> dom (map_of (reg_groups r)) = {}"
  by (induction keys arbitrary: seen) (auto split: option.splits)

lemma check_group_Inr:
  "check_group r grp sub = Inr () \<longleftrightarrow>
     grp = [] \<or> grp \<notin> dom (map_of (reg_canonical r)) \<and> sub \<notin> dom (map_of (members_of r grp))"
  by (auto simp: check_group_def split: option.splits)

lemma members_of_insert:
  "map_of (members_of (insert_command name keys grp sub cmd r) g) s
     = (if grp \<noteq> [] \<and> g = grp \<and> s = sub then Some name else map_of (members_of r g) s)"
  by (auto simp: members_of_def insert_command_def update_conv Let_def)

lemma Register_Inr:
  assumes "Register lc cmd r = (Inr (), r')"
  shows "\<exists>keys. r' = insert_command (fold_name lc (cmd_Name cmd)) keys (fold_name lc (cmd_Group cmd))
       (fold_name lc (cmd_Sub cmd)) cmd r
     \<and> set keys = cmd_keys lc cmd \<and> check_keys r (fold_name lc (cmd_Group cmd)) [] keys = Inr ()
     \<and> check_group r (fold_name lc (cmd_Group cmd)) (fold_name lc (cmd_Sub cmd)) = Inr ()"
  using assms
  by (auto simp: Register_def Let_def alias_keys_Inr cmd_keys_def split: sum.splits)

lemma Register_Inl: "Register lc cmd r = (Inl e, r') \<Longrightarrow> r' = r"
  by (auto simp: Register_def Let_def split: sum.splits)

text \<open>The parts of the invariant, as rules.\<close>

lemma registry_okD:
  assumes "registry_ok lc r"
  shows "map_of (reg_commands r) n = Some cmd \<Longrightarrow> n = fold_name lc (cmd_Name cmd)"
    and "map_of (reg_commands r) n = Some cmd \<Longrightarrow> k \<in> cmd_keys lc cmd \<Longrightarrow> map_of (reg_canonical r) k = Some n"
    and "map_of (reg_commands r) n = Some cmd \<Longrightarrow> fold_name lc (cmd_Group cmd) \<noteq> [] \<Longrightarrow>
      map_of (members_of r (fold_name lc (cmd_Group cmd))) (fold_name lc (cmd_Sub cmd)) = Some n"
    and "map_of (reg_canonical r) k = Some n \<Longrightarrow>
      \<exists>cmd. map_of (reg_commands r) n = Some cmd \<and> k \<in> cmd_keys lc cmd"
    and "map_of (members_of r g) s = Some n \<Longrightarrow> \<exists>cmd. map_of (reg_commands r) n = Some cmd
      \<and> fold_name lc (cmd_Group cmd) = g \<and> fold_name lc (cmd_Sub cmd) = s"
    and "map_of (reg_canonical r) k = Some n \<Longrightarrow> map_of (reg_groups r) k = None"
  using assms unfolding registry_ok_def by (blast, blast, blast, blast, blast, force)

lemma name_in_keys [simp]: "fold_name lc (cmd_Name cmd) \<in> cmd_keys lc cmd"
  by (simp add: cmd_keys_def)

lemma insert_keeps:
  assumes ok: "registry_ok lc r"
    and N: "N = fold_name lc (cmd_Name cmd)" and G: "G = fold_name lc (cmd_Group cmd)"
    and S: "S = fold_name lc (cmd_Sub cmd)" and K: "set keys = cmd_keys lc cmd"
    and fresh: "\<And>k. k \<in> set keys \<Longrightarrow> map_of (reg_canonical r) k = None \<and> map_of (reg_groups r) k = None \<and> k \<noteq> G"
    and grp: "G = [] \<or> map_of (reg_canonical r) G = None \<and> map_of (members_of r G) S = None"
  shows "registry_ok lc (insert_command N keys G S cmd r)"
proof -
  let ?r = "insert_command N keys G S cmd r"
  have cmds: "map_of (reg_commands ?r) n = (if n = N then Some cmd else map_of (reg_commands r) n)" for n
    by (simp add: insert_command_def update_conv)
  have canon: "map_of (reg_canonical ?r) k = (if k \<in> set keys then Some N else map_of (reg_canonical r) k)" for k
    by (simp add: insert_command_def map_of_insert_keys)
  have grps: "map_of (reg_groups ?r) k = None \<longleftrightarrow> map_of (reg_groups r) k = None \<and> (G = [] \<or> k \<noteq> G)" for k
    by (auto simp: insert_command_def update_conv Let_def)
  note mem = members_of_insert [of N keys G S cmd r]
  have NK: "N \<in> set keys" by (simp add: N K)
  have new_name: "map_of (reg_commands r) N = None"
  proof (cases "map_of (reg_commands r) N")
    case (Some cmd')
    with registry_okD(1,2) [OF ok Some] fresh [OF NK] show ?thesis by (metis name_in_keys option.distinct(1))
  qed
  have old: "map_of (reg_commands r) n = Some cmd' \<Longrightarrow> n \<noteq> N" for n cmd' using new_name by auto
  have A: "n = fold_name lc (cmd_Name cmd') \<and> (\<forall>k \<in> cmd_keys lc cmd'. map_of (reg_canonical ?r) k = Some n)
      \<and> (fold_name lc (cmd_Group cmd') \<noteq> [] \<longrightarrow>
          map_of (members_of ?r (fold_name lc (cmd_Group cmd'))) (fold_name lc (cmd_Sub cmd')) = Some n)"
    if "map_of (reg_commands ?r) n = Some cmd'" for n cmd'
  proof (cases "n = N")
    case True
    with that have "cmd' = cmd" by (simp add: cmds)
    with True show ?thesis by (simp add: N [symmetric] canon K mem G [symmetric] S [symmetric])
  next
    case False
    with that have c: "map_of (reg_commands r) n = Some cmd'" by (simp add: cmds)
    have "map_of (reg_canonical ?r) k = Some n" if "k \<in> cmd_keys lc cmd'" for k
      using registry_okD(2) [OF ok c that] fresh [of k] by (auto simp: canon)
    moreover have "map_of (members_of ?r (fold_name lc (cmd_Group cmd'))) (fold_name lc (cmd_Sub cmd')) = Some n"
      if "fold_name lc (cmd_Group cmd') \<noteq> []"
      using registry_okD(3) [OF ok c that] grp by (auto simp: mem)
    ultimately show ?thesis using registry_okD(1) [OF ok c] by blast
  qed
  have B: "\<exists>cmd'. map_of (reg_commands ?r) n = Some cmd' \<and> k \<in> cmd_keys lc cmd'"
    if "map_of (reg_canonical ?r) k = Some n" for k n
  proof (cases "k \<in> set keys")
    case True
    then have "n = N" using that by (simp add: canon)
    then show ?thesis using cmds [of N] True K by simp
  next
    case False
    then have "map_of (reg_canonical r) k = Some n" using that by (simp add: canon)
    from registry_okD(4) [OF ok this] old show ?thesis by (auto simp: cmds)
  qed
  have C: "\<exists>cmd'. map_of (reg_commands ?r) n = Some cmd' \<and> fold_name lc (cmd_Group cmd') = g
      \<and> fold_name lc (cmd_Sub cmd') = s" if "map_of (members_of ?r g) s = Some n" for g s n
  proof (cases "G \<noteq> [] \<and> g = G \<and> s = S")
    case True
    then have "n = N" using that by (simp add: mem)
    then show ?thesis using cmds [of N] True G S by auto
  next
    case False
    then have "map_of (members_of r g) s = Some n" using that by (simp add: mem split: if_splits)
    from registry_okD(5) [OF ok this] old show ?thesis by (auto simp: cmds)
  qed
  have D: "map_of (reg_groups ?r) k = None" if "map_of (reg_canonical ?r) k = Some n" for k n
  proof -
    have "map_of (reg_groups r) k = None \<and> (G = [] \<or> k \<noteq> G)"
      using that registry_okD(6) [OF ok, of k n] fresh [of k] grp
      by (cases "k \<in> set keys") (auto simp: canon)
    then show ?thesis by (simp only: grps)
  qed
  show ?thesis
    unfolding registry_ok_def using A B C D by (auto simp: domIff)
qed

lemma Register_keeps [keeps]:
  assumes "registry_ok lc r"
  shows "registry_ok lc (snd (Register lc cmd r))"
proof (cases "Register lc cmd r")
  case (Pair res r')
  show ?thesis
  proof (cases res)
    case (Inl e)
    with Pair Register_Inl [of lc cmd r e r'] assms show ?thesis by simp
  next
    case (Inr u)
    with Pair have reg: "Register lc cmd r = (Inr (), r')" by simp
    from Register_Inr [OF this] obtain keys where
      r': "r' = insert_command (fold_name lc (cmd_Name cmd)) keys (fold_name lc (cmd_Group cmd))
         (fold_name lc (cmd_Sub cmd)) cmd r" and K: "set keys = cmd_keys lc cmd"
      and ck: "check_keys r (fold_name lc (cmd_Group cmd)) [] keys = Inr ()"
      and cg: "check_group r (fold_name lc (cmd_Group cmd)) (fold_name lc (cmd_Sub cmd)) = Inr ()"
      by blast
    have "registry_ok lc r'"
      unfolding r'
      by (rule insert_keeps [OF assms refl refl refl K])
         (use ck cg in \<open>auto simp: check_keys_Inr check_group_Inr domIff\<close>)
    with Pair show ?thesis by simp
  qed
qed

section \<open>Registered commands stay reachable\<close>

definition register_all :: "(nat \<Rightarrow> nat) \<Rightarrow> 'h command list \<Rightarrow> 'h registry \<Rightarrow> 'h registry" where
  "register_all lc cmds r = foldl (\<lambda>r cmd. snd (Register lc cmd r)) r cmds"

lemma register_all_ok: "registry_ok lc r \<Longrightarrow> registry_ok lc (register_all lc cmds r)"
  by (induction cmds arbitrary: r) (simp_all add: register_all_def Register_keeps)

lemma Register_registers:
  "Register lc cmd r = (Inr (), r') \<Longrightarrow> map_of (reg_commands r') (fold_name lc (cmd_Name cmd)) = Some cmd"
  by (auto dest!: Register_Inr simp: insert_command_def update_conv)

lemma Register_extends:
  assumes "registry_ok lc r" and c: "map_of (reg_commands r) n = Some c"
  shows "map_of (reg_commands (snd (Register lc cmd r))) n = Some c"
proof (cases "Register lc cmd r")
  case (Pair res r')
  show ?thesis
  proof (cases res)
    case (Inl e)
    with Pair Register_Inl [of lc cmd r e r'] c show ?thesis by simp
  next
    case (Inr u)
    with Pair have "Register lc cmd r = (Inr (), r')" by simp
    from Register_Inr [OF this] obtain keys where
      r': "r' = insert_command (fold_name lc (cmd_Name cmd)) keys (fold_name lc (cmd_Group cmd))
         (fold_name lc (cmd_Sub cmd)) cmd r" and K: "set keys = cmd_keys lc cmd"
      and ck: "check_keys r (fold_name lc (cmd_Group cmd)) [] keys = Inr ()" by blast
    have "fold_name lc (cmd_Name cmd) \<in> set keys" by (simp add: K)
    then have "map_of (reg_canonical r) (fold_name lc (cmd_Name cmd)) = None"
      using ck by (auto simp: check_keys_Inr domIff)
    moreover have "map_of (reg_canonical r) n = Some n"
      using registry_okD(1,2) [OF assms(1) c] by simp
    ultimately have "n \<noteq> fold_name lc (cmd_Name cmd)" by auto
    with c r' Pair show ?thesis by (simp add: insert_command_def update_conv)
  qed
qed

lemma register_all_extends:
  "registry_ok lc r \<Longrightarrow> map_of (reg_commands r) n = Some c \<Longrightarrow>
     map_of (reg_commands (register_all lc cmds r)) n = Some c"
  by (induction cmds arbitrary: r) (simp_all add: register_all_def Register_extends Register_keeps)

lemma resolves:
  assumes ok: "registry_ok lc r" and c: "map_of (reg_commands r) n = Some cmd"
  shows "fold_name lc x \<in> cmd_keys lc cmd \<Longrightarrow> ResolveChat lc r x args = Some (cmd, args)"
    and "fold_name lc (cmd_Group cmd) \<noteq> [] \<Longrightarrow> fold_name lc g = fold_name lc (cmd_Group cmd) \<Longrightarrow>
      fold_name lc y = fold_name lc (cmd_Sub cmd) \<Longrightarrow> ResolveChat lc r g (y # args) = Some (cmd, args)"
proof -
  show "ResolveChat lc r x args = Some (cmd, args)" if "fold_name lc x \<in> cmd_keys lc cmd"
    using registry_okD(2) [OF ok c that] c by (simp add: ResolveChat_def Lookup_def)
  show "ResolveChat lc r g (y # args) = Some (cmd, args)"
    if "fold_name lc (cmd_Group cmd) \<noteq> []" and g: "fold_name lc g = fold_name lc (cmd_Group cmd)"
      and y: "fold_name lc y = fold_name lc (cmd_Sub cmd)"
  proof -
    have mem: "map_of (members_of r (fold_name lc g)) (fold_name lc y) = Some n"
      using registry_okD(3) [OF ok c that(1)] by (simp add: g y)
    then obtain grp where grp: "map_of (reg_groups r) (fold_name lc g) = Some grp"
      "map_of (group_members grp) (fold_name lc y) = Some n"
      by (auto simp: members_of_def split: option.splits)
    have "map_of (reg_canonical r) (fold_name lc g) = None"
      using registry_okD(6) [OF ok, of "fold_name lc g"] grp(1) by (cases "map_of (reg_canonical r) (fold_name lc g)") auto
    with grp c show ?thesis by (simp add: ResolveChat_def Lookup_def)
  qed
qed

text \<open>
  No command is ever shadowed: once \<open>Register\<close> has accepted a command, every spelling of its
  name and aliases, and of its group and sub when it has them, resolves to it with the right
  remaining arguments, whatever is registered, accepted or refused, before and after it.
\<close>

theorem registered_resolves:
  assumes "Register lc cmd (register_all lc before NewRegistry) = (Inr (), r)"
  shows "(fold_name lc x \<in> cmd_keys lc cmd \<longrightarrow>
      ResolveChat lc (register_all lc later r) x args = Some (cmd, args))
    \<and> (fold_name lc (cmd_Group cmd) \<noteq> [] \<and> fold_name lc g = fold_name lc (cmd_Group cmd)
        \<and> fold_name lc y = fold_name lc (cmd_Sub cmd) \<longrightarrow>
      ResolveChat lc (register_all lc later r) g (y # args) = Some (cmd, args))"
proof -
  have "registry_ok lc (register_all lc before NewRegistry)"
    by (rule register_all_ok) (rule NewRegistry_ok)
  then have ok: "registry_ok lc r" using Register_keeps assms by (metis snd_conv)
  have "map_of (reg_commands (register_all lc later r)) (fold_name lc (cmd_Name cmd)) = Some cmd"
    by (rule register_all_extends [OF ok Register_registers [OF assms]])
  with register_all_ok [OF ok] resolves show ?thesis by metis
qed

definition demo_command :: "string \<Rightarrow> string \<Rightarrow> string \<Rightarrow> nat command" where
  "demo_command name grp sub = \<lparr>cmd_Name = name, cmd_Aliases = [name @ ''!''], cmd_Description = [], cmd_Args = [],
     cmd_Group = grp, cmd_Sub = sub, cmd_Clearance = 0, cmd_Slow = False, cmd_Ephemeral = False,
     cmd_Handler = Some 1\<rparr>"

theorem registered_resolves_witness:
  "ResolveChat id (register_all id [demo_command ''Trigger'' [] []]
      (snd (Register id (demo_command ''TrigAdd'' ''trigger'' ''add'') NewRegistry))) ''Trigger'' ['' ADD '', ''x'']
     = Some (demo_command ''TrigAdd'' ''trigger'' ''add'', [''x''])"
proof -
  have reg: "Register id (demo_command ''TrigAdd'' ''trigger'' ''add'') (register_all id [] NewRegistry)
      = (Inr (), snd (Register id (demo_command ''TrigAdd'' ''trigger'' ''add'') NewRegistry))"
    by code_simp
  have "fold_name id (cmd_Group (demo_command ''TrigAdd'' ''trigger'' ''add'')) \<noteq> []
      \<and> fold_name id ''Trigger'' = fold_name id (cmd_Group (demo_command ''TrigAdd'' ''trigger'' ''add''))
      \<and> fold_name id '' ADD '' = fold_name id (cmd_Sub (demo_command ''TrigAdd'' ''trigger'' ''add''))"
    by code_simp
  then show ?thesis using registered_resolves [OF reg] by blast
qed

end
