(* ===== verification/DiscordRespond.thy ===== *)
theory DiscordRespond
  imports CommandRegistry
begin

text \<open>
  How a command's result or failure becomes Discord messages (\<open>pkg/discord/respond.go\<close>,
  \<open>timestamp.go\<close>). The Discord session is the log of the requests made so far; \<open>down\<close> says
  which request, by its position in the log, fails. Log lines of the bot are left out.
\<close>

section \<open>Requests\<close>

datatype request_kind =
    RespondInteraction | DeferInteraction | DeferUpdate | EditInteraction | Followup
  | ChannelSend string | OpenDM string | DeleteMessage string string

text \<open>\<open>None\<close> for the allowed mentions is the omitted field: Discord then parses every mention.\<close>

record request =
  rq_kind :: request_kind
  rq_content :: string
  rq_ephemeral :: bool
  rq_mentions :: "string list option"
  rq_components :: "string list"
  rq_files :: "(string \<times> string \<times> string) list"
  rq_reference :: "string option"

definition plain :: "request_kind \<Rightarrow> request" where
  "plain k = \<lparr>rq_kind = k, rq_content = [], rq_ephemeral = False, rq_mentions = None,
     rq_components = [], rq_files = [], rq_reference = None\<rparr>"

type_synonym session = "request list"

definition call_discord :: "(nat \<Rightarrow> bool) \<Rightarrow> request \<Rightarrow> session \<Rightarrow> bool \<times> session" where
  "call_discord down r s = (\<not> down (length s), s @ [r])"

definition noMentions :: "string list option" where
  "noMentions = Some []"

record response_file =
  file_Name :: string
  file_MIMEType :: string
  file_Content :: string

record response =
  resp_Content :: string
  resp_Ephemeral :: bool
  resp_ReRollID :: string
  resp_File :: "response_file option"
  resp_DirectWhenLong :: bool

section \<open>Texts\<close>

text \<open>An error without a code (not a Connect error) is \<open>None\<close>, with code Unknown.\<close>

definition errorMessage :: "rpc_error option \<Rightarrow> string" where
  "errorMessage err = (case err of
     None \<Rightarrow> ''Something went wrong.''
   | Some (c, message) \<Rightarrow> (case c of
       InvalidArgument \<Rightarrow> message
     | FailedPrecondition \<Rightarrow> message
     | PermissionDenied \<Rightarrow> ''You are not allowed to do that.''
     | NotFound \<Rightarrow> ''Not found.''
     | Unimplemented \<Rightarrow> ''That is not implemented yet.''
     | Unavailable \<Rightarrow> ''The bot''
         @ [CHR 0x27] @ ''s backend is unreachable right now. Try again in a moment.''
     | _ \<Rightarrow> ''Something went wrong.''))"

definition maxChatContent :: nat where
  "maxChatContent = 2000"

text \<open>\<open>for cut > 0 && !utf8.RuneStart(content[cut]) { cut-- }\<close>.\<close>

fun cut_back :: "string \<Rightarrow> nat \<Rightarrow> nat" where
  "cut_back content 0 = 0"
| "cut_back content (Suc n) =
     (if rune_start (content ! Suc n) then Suc n else cut_back content n)"

definition ellipsis :: string where
  "ellipsis = [CHR 0xE2, CHR 0x80, CHR 0xA6]"

definition truncateContent :: "string \<Rightarrow> string" where
  "truncateContent content =
    (if length content \<le> maxChatContent then content
     else take (cut_back content (maxChatContent - length ellipsis)) content @ ellipsis)"

text \<open>
  The cuts of one line longer than the limit: the parts and what remains. A limit of zero
  never ends, so the result is an option.
\<close>

partial_function (option) cut_line :: "nat \<Rightarrow> string list \<Rightarrow> string \<Rightarrow> (string list \<times> string) option" where
  [code]: "cut_line limit parts remaining =
    (if length remaining \<le> limit then Some (parts, remaining)
     else
       let c = cut_back remaining limit; cut = (if c = 0 then limit else c) in
       cut_line limit (parts @ [take cut remaining]) (drop cut remaining))"

fun split_lines :: "nat \<Rightarrow> string list \<Rightarrow> string \<Rightarrow> string list \<Rightarrow> (string list \<times> string) option" where
  "split_lines limit parts current [] = Some (parts, current)"
| "split_lines limit parts current (line # ls) =
    (let joined = (if current \<noteq> [] then length current + 1 else 0) + length line in
     if joined \<le> limit then
       split_lines limit parts (current @ (if current \<noteq> [] then [CHR 0x0A] else []) @ line) ls
     else
       (case cut_line limit (if current \<noteq> [] then parts @ [current] else parts) line of
          None \<Rightarrow> None
        | Some (parts', remaining) \<Rightarrow> split_lines limit parts' remaining ls))"

definition splitContent :: "string \<Rightarrow> nat \<Rightarrow> string list option" where
  "splitContent content limit =
    (if content = [] then Some []
     else if length content \<le> limit then Some [content]
     else map_option (\<lambda>(parts, current). if current \<noteq> [] then parts @ [current] else parts)
       (split_lines limit [] [] (split_byte (CHR 0x0A) content)))"

definition timestampTag :: "instant \<Rightarrow> string \<Rightarrow> string" where
  "timestampTag t style = ''<t:'' @ FormatInt (t div 1000000000) @ '':'' @ style @ ''>''"

definition timestampWithRelative :: "instant \<Rightarrow> string" where
  "timestampWithRelative t = timestampTag t ''F'' @ '' ('' @ timestampTag t ''R'' @ '')''"

section \<open>Plans\<close>

datatype commandSource = SourceSlash | SourceChat | SourceReRoll

record responsePlan =
  plan_content :: string
  plan_components :: "string list"
  plan_files :: "(string \<times> string \<times> string) list"
  plan_allowedMentions :: "string list option"

definition mentions :: "responsePlan \<Rightarrow> string list option" where
  "mentions p = (case plan_allowedMentions p of None \<Rightarrow> noMentions | Some m \<Rightarrow> Some m)"

definition responseFiles :: "response option \<Rightarrow> (string \<times> string \<times> string) list" where
  "responseFiles resp = (case resp of
     None \<Rightarrow> []
   | Some r \<Rightarrow> (case resp_File r of
       None \<Rightarrow> []
     | Some f \<Rightarrow> if file_Content f = [] then []
         else [(if file_Name f = [] then ''attachment'' else file_Name f, file_MIMEType f, file_Content f)]))"

text \<open>A re-roll button is the id it carries.\<close>

definition reRollComponents :: "response \<Rightarrow> string list" where
  "reRollComponents resp = (if resp_ReRollID resp = [] then [] else [resp_ReRollID resp])"

definition attributeRoll :: "string \<Rightarrow> string \<Rightarrow> string" where
  "attributeRoll content invokerID =
    (if content = [] \<or> invokerID = [] then content else content @ '' <@'' @ invokerID @ ''>'')"

definition planResponse :: "commandSource \<Rightarrow> response \<Rightarrow> string \<Rightarrow> responsePlan" where
  "planResponse source resp invokerID =
    (if source = SourceReRoll
     then \<lparr>plan_content = attributeRoll (resp_Content resp) invokerID, plan_components = [],
           plan_files = responseFiles (Some resp), plan_allowedMentions = noMentions\<rparr>
     else \<lparr>plan_content = resp_Content resp, plan_components = reRollComponents resp,
           plan_files = responseFiles (Some resp), plan_allowedMentions = noMentions\<rparr>)"

section \<open>Answering interactions\<close>

type_synonym 'a discord = "session \<Rightarrow> 'a \<times> session"

definition respondError :: "(nat \<Rightarrow> bool) \<Rightarrow> rpc_error option \<Rightarrow> session \<Rightarrow> session" where
  "respondError down err s =
     snd (call_discord down ((plain RespondInteraction)\<lparr>rq_content := errorMessage err, rq_ephemeral := True\<rparr>) s)"

definition respondStale :: "(nat \<Rightarrow> bool) \<Rightarrow> session \<Rightarrow> session" where
  "respondStale down s =
     snd (call_discord down ((plain RespondInteraction)
       \<lparr>rq_content := ''That control is no longer available. Run the command again.'',
        rq_ephemeral := True\<rparr>) s)"

definition respondCommand :: "(nat \<Rightarrow> bool) \<Rightarrow> response option \<Rightarrow> session \<Rightarrow> session" where
  "respondCommand down resp s = (case resp of
     None \<Rightarrow> s
   | Some r \<Rightarrow>
       let plan = planResponse SourceSlash r [] in
       snd (call_discord down ((plain RespondInteraction)
         \<lparr>rq_content := truncateContent (plan_content plan), rq_ephemeral := resp_Ephemeral r,
          rq_mentions := mentions plan, rq_components := plan_components plan,
          rq_files := plan_files plan\<rparr>) s))"

definition deferReRoll :: "(nat \<Rightarrow> bool) \<Rightarrow> bool discord" where
  "deferReRoll down s = call_discord down (plain DeferUpdate) s"

definition respondReRollError :: "(nat \<Rightarrow> bool) \<Rightarrow> rpc_error option \<Rightarrow> session \<Rightarrow> session" where
  "respondReRollError down err s =
     snd (call_discord down ((plain Followup)\<lparr>rq_content := errorMessage err, rq_ephemeral := True,
       rq_mentions := noMentions\<rparr>) s)"

text \<open>A plan as a channel message; the error of a failed send carries no Connect code.\<close>

definition plan_reply :: "string \<Rightarrow> responsePlan \<Rightarrow> string option \<Rightarrow> request" where
  "plan_reply channelID plan reference = (plain (ChannelSend channelID))
     \<lparr>rq_content := truncateContent (plan_content plan), rq_mentions := mentions plan,
      rq_components := plan_components plan, rq_files := plan_files plan, rq_reference := reference\<rparr>"

definition respondReRoll ::
  "(nat \<Rightarrow> bool) \<Rightarrow> string \<Rightarrow> string option \<Rightarrow> string option \<Rightarrow> response option \<Rightarrow> session \<Rightarrow> session" where
  "respondReRoll down channelID user clicked resp s = (case resp of
     None \<Rightarrow> s
   | Some r \<Rightarrow>
       let invokerID = (case user of None \<Rightarrow> [] | Some u \<Rightarrow> u);
           plan = planResponse SourceReRoll r invokerID;
           (ok, s') = call_discord down (plan_reply channelID plan clicked) s
       in if ok then s' else respondReRollError down None s')"

definition deferInteraction :: "(nat \<Rightarrow> bool) \<Rightarrow> bool \<Rightarrow> bool discord" where
  "deferInteraction down ephemeral s =
     call_discord down ((plain DeferInteraction)\<lparr>rq_ephemeral := ephemeral\<rparr>) s"

text \<open>Sends in order, stopping at the first failure.\<close>

fun send_all :: "(nat \<Rightarrow> bool) \<Rightarrow> request list \<Rightarrow> bool discord" where
  "send_all down [] s = (True, s)"
| "send_all down (r # rs) s =
    (let (ok, s') = call_discord down r s in if ok then send_all down rs s' else (False, s'))"

definition empty_response :: response where
  "empty_response = \<lparr>resp_Content = [], resp_Ephemeral = False, resp_ReRollID = [], resp_File = None,
     resp_DirectWhenLong = False\<rparr>"

definition deferred_edit :: "response \<Rightarrow> string list \<Rightarrow> request" where
  "deferred_edit resp parts =
    (let files = responseFiles (Some resp);
         first0 = (case parts of [] \<Rightarrow> [] | c # _ \<Rightarrow> c);
         first = (if first0 = [] \<and> files = [] then ''Done.'' else first0)
     in (plain EditInteraction)\<lparr>rq_content := first, rq_mentions := noMentions,
          rq_components := reRollComponents resp, rq_files := files\<rparr>)"

definition followup_chunk :: "bool \<Rightarrow> string \<Rightarrow> request" where
  "followup_chunk ephemeral chunk = (plain Followup)
     \<lparr>rq_content := chunk, rq_ephemeral := ephemeral, rq_mentions := noMentions\<rparr>"

text \<open>\<open>None\<close> would be a split that does not end; the limit is the constant 2000.\<close>

definition respondDeferred :: "(nat \<Rightarrow> bool) \<Rightarrow> response option \<Rightarrow> bool \<Rightarrow> session \<Rightarrow> session option" where
  "respondDeferred down resp0 ephemeral s =
    (let resp = (case resp0 of None \<Rightarrow> empty_response\<lparr>resp_Content := errorMessage None\<rparr> | Some r \<Rightarrow> r)
     in case splitContent (resp_Content resp) maxChatContent of
          None \<Rightarrow> None
        | Some parts \<Rightarrow>
            let (ok, s1) = call_discord down (deferred_edit resp parts) s
            in if \<not> ok then Some s1
               else Some (snd (send_all down (map (followup_chunk ephemeral) (tl parts)) s1)))"

definition respondDeferredError :: "(nat \<Rightarrow> bool) \<Rightarrow> rpc_error option \<Rightarrow> session \<Rightarrow> session" where
  "respondDeferredError down err s =
     snd (call_discord down ((plain EditInteraction)\<lparr>rq_content := errorMessage err,
       rq_mentions := noMentions\<rparr>) s)"

section \<open>Answering chat messages\<close>

record chat_message =
  msg_ID :: string
  msg_ChannelID :: string
  msg_AuthorID :: string

text \<open>The posted message's id is a function of the request's position in the log.\<close>

definition sent_id :: "(nat \<Rightarrow> string) \<Rightarrow> (bool \<times> session) \<Rightarrow> string option \<times> session" where
  "sent_id new_id res = (case res of (ok, s) \<Rightarrow> (if ok then Some (new_id (length s)) else None, s))"

definition respondChatError :: "(nat \<Rightarrow> bool) \<Rightarrow> chat_message \<Rightarrow> rpc_error option \<Rightarrow> session \<Rightarrow> session" where
  "respondChatError down m err s =
     snd (call_discord down ((plain (ChannelSend (msg_ChannelID m)))
       \<lparr>rq_content := truncateContent (errorMessage err), rq_mentions := noMentions,
        rq_reference := Some (msg_ID m)\<rparr>) s)"

definition sendDMChunks ::
  "(nat \<Rightarrow> bool) \<Rightarrow> (string \<Rightarrow> string) \<Rightarrow> string \<Rightarrow> string list \<Rightarrow> bool discord" where
  "sendDMChunks down dm_of userID parts s =
    (if parts = [] then (False, s)
     else let (ok, s1) = call_discord down (plain (OpenDM userID)) s in
       if \<not> ok then (False, s1)
       else send_all down (map (\<lambda>chunk. (plain (ChannelSend (dm_of userID)))\<lparr>rq_content := chunk,
         rq_mentions := noMentions\<rparr>) parts) s1)"

definition dm_failed_text :: string where
  "dm_failed_text = ''That'' @ [CHR 0x27] @ ''s too long to post here, and I could not send it to you by DM. Check that you allow DMs from server members.''"

definition dm_sent_text :: string where
  "dm_sent_text = ''Sent you a DM '' @ [CHR 0xE2, CHR 0x80, CHR 0x94] @ '' it was too long to post here.''"

definition respondChatDirect ::
  "(nat \<Rightarrow> bool) \<Rightarrow> (nat \<Rightarrow> string) \<Rightarrow> (string \<Rightarrow> string) \<Rightarrow> chat_message \<Rightarrow> response \<Rightarrow> session
     \<Rightarrow> (string option \<times> session) option" where
  "respondChatDirect down new_id dm_of m resp s =
    (case splitContent (resp_Content resp) maxChatContent of
       None \<Rightarrow> None
     | Some parts \<Rightarrow>
         let (ok, s1) = sendDMChunks down dm_of (msg_AuthorID m) parts s in
         Some (sent_id new_id (call_discord down ((plain (ChannelSend (msg_ChannelID m)))
           \<lparr>rq_content := (if ok then dm_sent_text else dm_failed_text), rq_mentions := noMentions,
            rq_reference := Some (msg_ID m)\<rparr>) s1)))"

definition respondChat ::
  "(nat \<Rightarrow> bool) \<Rightarrow> (nat \<Rightarrow> string) \<Rightarrow> (string \<Rightarrow> string) \<Rightarrow> chat_message \<Rightarrow> response option \<Rightarrow> session
     \<Rightarrow> (string option \<times> session) option" where
  "respondChat down new_id dm_of m resp0 s = (case resp0 of
     None \<Rightarrow> Some (None, s)
   | Some resp \<Rightarrow>
       if resp_DirectWhenLong resp \<and> length (resp_Content resp) > maxChatContent
       then respondChatDirect down new_id dm_of m resp s
       else
         let plan = planResponse SourceChat resp [] in
         Some (sent_id new_id (call_discord down (plan_reply (msg_ChannelID m) plan (Some (msg_ID m))) s)))"

section \<open>Rune boundaries\<close>

lemma valid_starts: "valid_utf8 s \<Longrightarrow> s \<noteq> [] \<Longrightarrow> rune_start (hd s)"
proof -
  assume v: "valid_utf8 s" and ne: "s \<noteq> []"
  have len: "length (take (snd (decode_rune s)) s) = snd (decode_rune s)"
    using decode_rune_width(2) [of s] by simp
  have "decode_rune s \<noteq> (rune_error, 1)"
    using v len by (auto simp: valid_utf8_def chunks_nonempty [OF ne] image_iff)
  then show ?thesis
    using ne by (auto simp: decode_rune_def rune_start_def Let_def split: list.splits if_splits)
qed

lemma valid_drop_rune:
  assumes "valid_utf8 s" and "s \<noteq> []"
  shows "valid_utf8 (drop (snd (decode_rune s)) s)"
  using assms by (auto simp: valid_utf8_def chunks_nonempty)

lemma start_near:
  "valid_utf8 s \<Longrightarrow> i < length s \<Longrightarrow> \<exists>j \<le> i. i \<le> j + 3 \<and> rune_start (s ! j)"
proof (induction s arbitrary: i rule: chunks.induct)
  case (1 s)
  let ?w = "snd (decode_rune s)"
  have ne: "s \<noteq> []" using 1(3) by auto
  show ?case
  proof (cases "i < ?w")
    case True
    then have "i \<le> 0 + 3" using decode_rune_width(3) [of s] by linarith
    then show ?thesis using valid_starts [OF 1(2) ne] ne by (metis hd_conv_nth le0)
  next
    case False
    have "i - ?w < length (drop ?w s)" using 1(3) False by simp
    from 1(1) [OF ne valid_drop_rune [OF 1(2) ne] this] obtain j where
      j: "j \<le> i - ?w" "i - ?w \<le> j + 3" "rune_start (drop ?w s ! j)" by blast
    have "?w \<le> length s" by (rule decode_rune_width(2))
    then have "drop ?w s ! j = s ! (?w + j)" by (rule nth_drop)
    with j False show ?thesis by (intro exI [of _ "?w + j"]) auto
  qed
qed

lemma cut_back_le: "cut_back content n \<le> n"
  by (induction n) auto

lemma cut_back_start: "0 < cut_back content n \<Longrightarrow> rune_start (content ! cut_back content n)"
  by (induction n) auto

lemma cut_back_ge: "rune_start (content ! j) \<Longrightarrow> j \<le> n \<Longrightarrow> 0 < j \<Longrightarrow> j \<le> cut_back content n"
  by (induction n) (auto simp: le_Suc_eq)

lemma cut_back_pos:
  assumes "valid_utf8 s" and "n < length s" and "4 \<le> n"
  shows "0 < cut_back s n"
proof -
  from start_near [OF assms(1,2)] obtain j where "j \<le> n" "n \<le> j + 3" "rune_start (s ! j)" by blast
  with cut_back_ge [of s j n] assms(3) show ?thesis by linarith
qed

lemma valid_cut:
  assumes "valid_utf8 s" and "n \<le> length s" and "n = length s \<or> rune_start (s ! n)"
  shows "valid_utf8 (take n s) \<and> valid_utf8 (drop n s)"
proof -
  have "drop n s = [] \<or> rune_start (hd (drop n s))"
    using assms(2,3) hd_drop_conv_nth [of n s] by (cases "n = length s") auto
  from valid_utf8_append [OF this, of "take n s"] assms(1) show ?thesis by simp
qed

text \<open>
  Truncation: the result is at most 2000 bytes, is the text itself when that fits and
  otherwise a proper prefix of it with an ellipsis, and is valid UTF-8 whenever the text is.
\<close>

theorem truncateContent_spec:
  "length (truncateContent content) \<le> 2000
    \<and> (if length content \<le> 2000 then truncateContent content = content
       else \<exists>n < length content. truncateContent content = take n content @ ellipsis)
    \<and> (valid_utf8 content \<longrightarrow> valid_utf8 (truncateContent content))"
proof (cases "length content \<le> 2000")
  case True
  then show ?thesis by (simp add: truncateContent_def maxChatContent_def)
next
  case False
  let ?n = "cut_back content 1997"
  have eq: "truncateContent content = take ?n content @ ellipsis"
    using False by (simp add: truncateContent_def maxChatContent_def ellipsis_def)
  have n: "?n \<le> 1997" by (rule cut_back_le)
  have "valid_utf8 (take ?n content)" if "valid_utf8 content"
  proof (cases "?n = 0")
    case False
    then show ?thesis
      using valid_cut [OF that, of ?n] cut_back_start [of content 1997] n \<open>\<not> length content \<le> 2000\<close> by simp
  qed simp
  moreover have "valid_utf8 ellipsis" "rune_start (hd ellipsis)"
    by code_simp+
  ultimately have "valid_utf8 (truncateContent content)" if "valid_utf8 content"
    using that by (simp add: eq valid_utf8_append)
  moreover have "\<exists>n < length content. truncateContent content = take n content @ ellipsis"
    using n False by (intro exI [of _ ?n]) (simp add: eq)
  moreover have "length (truncateContent content) \<le> 2000"
    using n by (simp add: eq ellipsis_def)
  ultimately show ?thesis using False by auto
qed

theorem truncateContent_spec_witness:
  "length (truncateContent (replicate 3000 CHR ''a'')) \<le> 2000
   \<and> valid_utf8 (truncateContent (replicate 3000 CHR ''a''))"
proof -
  have "chunks (replicate 3000 CHR ''a'') = map (\<lambda>c. (bv c, [c])) (replicate 3000 CHR ''a'')"
    by (rule chunks_ascii) simp
  then have "valid_utf8 (replicate 3000 CHR ''a'')"
    by (auto simp: valid_utf8_def rune_error_def)
  then show ?thesis using truncateContent_spec [of "replicate 3000 CHR ''a''"] by blast
qed

section \<open>Splitting\<close>

definition no_newlines :: "string \<Rightarrow> string" where
  "no_newlines s = filter (\<lambda>c. c \<noteq> CHR 0x0A) s"

definition pieces_ok :: "nat \<Rightarrow> string list \<Rightarrow> bool" where
  "pieces_ok limit cs \<longleftrightarrow> (\<forall>c \<in> set cs. c \<noteq> [] \<and> length c \<le> limit)"

lemma pieces_ok_simps [simp]:
  "pieces_ok limit []"
  "pieces_ok limit (cs @ ds) \<longleftrightarrow> pieces_ok limit cs \<and> pieces_ok limit ds"
  "pieces_ok limit [c] \<longleftrightarrow> c \<noteq> [] \<and> length c \<le> limit"
  by (auto simp: pieces_ok_def)

lemma no_newlines_append [simp]: "no_newlines (s @ t) = no_newlines s @ no_newlines t"
  by (simp add: no_newlines_def)

lemma cut_line_spec:
  assumes "0 < limit"
  shows "\<exists>cs r. cut_line limit parts s = Some (parts @ cs, r) \<and> concat cs @ r = s \<and> pieces_ok limit cs
    \<and> length r \<le> limit \<and> (4 \<le> limit \<longrightarrow> valid_utf8 s \<longrightarrow> list_all valid_utf8 (r # cs))"
proof (induction s arbitrary: parts rule: measure_induct_rule [of length])
  case (less s)
  show ?case
  proof (cases "length s \<le> limit")
    case True
    then have "cut_line limit parts s = Some (parts, s)" by (subst cut_line.simps) simp
    with True show ?thesis by (intro exI [of _ "[]"] exI [of _ s]) simp
  next
    case False
    define cut where "cut = (if cut_back s limit = 0 then limit else cut_back s limit)"
    have cut: "0 < cut" "cut \<le> limit" "cut < length s"
      using assms False cut_back_le [of s limit] by (auto simp: cut_def)
    have step: "cut_line limit parts s = cut_line limit (parts @ [take cut s]) (drop cut s)"
      using False by (subst cut_line.simps) (simp add: cut_def Let_def)
    have "length (drop cut s) < length s" using cut by simp
    from less.IH [OF this] obtain cs r where IH:
      "cut_line limit (parts @ [take cut s]) (drop cut s) = Some ((parts @ [take cut s]) @ cs, r)"
      "concat cs @ r = drop cut s" "pieces_ok limit cs" "length r \<le> limit"
      "4 \<le> limit \<longrightarrow> valid_utf8 (drop cut s) \<longrightarrow> list_all valid_utf8 (r # cs)" by blast
    have "valid_utf8 (take cut s) \<and> valid_utf8 (drop cut s)" if "4 \<le> limit" "valid_utf8 s"
    proof -
      have "0 < cut_back s limit" using cut_back_pos [OF that(2) _ that(1)] False by simp
      then have "cut = cut_back s limit" by (simp add: cut_def)
      with cut_back_start [OF \<open>0 < cut_back s limit\<close>] valid_cut [OF that(2), of cut] cut show ?thesis by simp
    qed
    then have "4 \<le> limit \<longrightarrow> valid_utf8 s \<longrightarrow> list_all valid_utf8 (r # take cut s # cs)"
      using IH(5) by simp
    moreover have "concat (take cut s # cs) @ r = s" using IH(2) by simp
    moreover have "pieces_ok limit (take cut s # cs)"
      using IH(3) cut by (auto simp: pieces_ok_def)
    ultimately show ?thesis
      using IH(1,4) step by (intro exI [of _ "take cut s # cs"] exI [of _ r]) simp
  qed
qed

lemma valid_newline: "valid_utf8 (CHR 0x0A # s) = valid_utf8 s"
  by (simp add: valid_utf8_def rune_error_def)

lemma valid_join_newline: "valid_utf8 (s @ CHR 0x0A # t) \<longleftrightarrow> valid_utf8 s \<and> valid_utf8 t"
  by (subst valid_utf8_append) (simp_all add: rune_start_def valid_newline)

lemma valid_lines: "valid_utf8 (join [CHR 0x0A] ls) \<Longrightarrow> list_all valid_utf8 ls"
proof (induction ls)
  case (Cons l ls)
  then show ?case by (cases "ls = []") (simp_all add: join_Cons_nonempty valid_join_newline)
qed simp

lemma split_lines_spec:
  assumes "0 < limit"
  shows "length current \<le> limit \<Longrightarrow>
    \<exists>cs r. split_lines limit parts current ls = Some (parts @ cs, r) \<and> pieces_ok limit cs \<and> length r \<le> limit
      \<and> no_newlines (concat cs @ r) = no_newlines (current @ concat ls)
      \<and> (4 \<le> limit \<longrightarrow> list_all valid_utf8 (current # ls) \<longrightarrow> list_all valid_utf8 (r # cs))"
proof (induction ls arbitrary: parts current)
  case (Cons line ls)
  let ?joined = "(if current \<noteq> [] then length current + 1 else 0) + length line"
  show ?case
  proof (cases "?joined \<le> limit")
    case True
    let ?cur = "current @ (if current \<noteq> [] then [CHR 0x0A] else []) @ line"
    have "length ?cur \<le> limit" using True by (simp split: if_splits)
    from Cons.IH [OF this] obtain cs r where IH:
      "split_lines limit parts ?cur ls = Some (parts @ cs, r)" "pieces_ok limit cs" "length r \<le> limit"
      "no_newlines (concat cs @ r) = no_newlines (?cur @ concat ls)"
      "4 \<le> limit \<longrightarrow> list_all valid_utf8 (?cur # ls) \<longrightarrow> list_all valid_utf8 (r # cs)" by blast
    have nl: "no_newlines ?cur = no_newlines (current @ line)" by (simp add: no_newlines_def)
    have valid: "list_all valid_utf8 (current # line # ls) \<Longrightarrow> list_all valid_utf8 (?cur # ls)"
      by (simp add: valid_join_newline)
    have "split_lines limit parts current (line # ls) = Some (parts @ cs, r)"
      using True IH(1) by (simp add: Let_def)
    with IH(2,3,5) valid show ?thesis
      using IH(4) nl by (intro exI [of _ cs] exI [of _ r]) auto
  next
    case False
    let ?parts = "if current \<noteq> [] then parts @ [current] else parts"
    from cut_line_spec [OF assms, of ?parts line] obtain cs r where cut:
      "cut_line limit ?parts line = Some (?parts @ cs, r)" "concat cs @ r = line" "pieces_ok limit cs"
      "length r \<le> limit" "4 \<le> limit \<longrightarrow> valid_utf8 line \<longrightarrow> list_all valid_utf8 (r # cs)" by blast
    from Cons.IH [OF cut(4), of "?parts @ cs"] obtain cs' r' where IH:
      "split_lines limit (?parts @ cs) r ls = Some ((?parts @ cs) @ cs', r')" "pieces_ok limit cs'"
      "length r' \<le> limit" "no_newlines (concat cs' @ r') = no_newlines (r @ concat ls)"
      "4 \<le> limit \<longrightarrow> list_all valid_utf8 (r # ls) \<longrightarrow> list_all valid_utf8 (r' # cs')" by blast
    let ?first = "if current \<noteq> [] then [current] else []"
    have "split_lines limit parts current (line # ls) = Some (parts @ (?first @ cs @ cs'), r')"
      using False cut(1) IH(1) by (simp add: Let_def)
    moreover have "pieces_ok limit (?first @ cs @ cs')"
      using cut(3) IH(2) Cons.prems by simp
    moreover have "no_newlines (concat (?first @ cs @ cs') @ r') = no_newlines (current @ concat (line # ls))"
    proof -
      have "no_newlines line = no_newlines (concat cs) @ no_newlines r"
        using cut(2) no_newlines_append by metis
      with IH(4) show ?thesis by simp
    qed
    moreover have "4 \<le> limit \<longrightarrow> list_all valid_utf8 (current # line # ls) \<longrightarrow>
        list_all valid_utf8 (r' # ?first @ cs @ cs')"
      using cut(5) IH(5) by simp
    ultimately show ?thesis using IH(3) by blast
  qed
qed (simp add: no_newlines_def)

lemma concat_split_newlines: "no_newlines (concat (split_byte (CHR 0x0A) s)) = no_newlines s"
proof -
  have "no_newlines (join [CHR 0x0A] ls) = no_newlines (concat ls)" for ls
  proof (induction ls)
    case (Cons l ls)
    then show ?case by (cases "ls = []") (simp_all add: join_Cons_nonempty no_newlines_def)
  qed (simp add: no_newlines_def)
  then show ?thesis using join_split_byte [of "CHR 0x0A" s] by metis
qed

lemma splitContent_pieces:
  assumes "0 < limit"
  shows "\<exists>cs. splitContent content limit = Some cs \<and> pieces_ok limit cs
    \<and> no_newlines (concat cs) = no_newlines content
    \<and> (4 \<le> limit \<longrightarrow> valid_utf8 content \<longrightarrow> list_all valid_utf8 cs)"
proof (cases "length content \<le> limit")
  case True
  then show ?thesis by (cases "content = []") (simp_all add: splitContent_def)
next
  case False
  from split_lines_spec [OF assms, of "[]" "[]" "split_byte (CHR 0x0A) content"]
  obtain cs r where s: "split_lines limit [] [] (split_byte (CHR 0x0A) content) = Some (cs, r)"
    "pieces_ok limit cs" "length r \<le> limit"
    "no_newlines (concat cs @ r) = no_newlines (concat (split_byte (CHR 0x0A) content))"
    "4 \<le> limit \<longrightarrow> list_all valid_utf8 (split_byte (CHR 0x0A) content) \<longrightarrow> list_all valid_utf8 (r # cs)"
    by auto
  have valid: "valid_utf8 content \<Longrightarrow> list_all valid_utf8 (split_byte (CHR 0x0A) content)"
    using valid_lines [of "split_byte (CHR 0x0A) content"] by simp
  have "content \<noteq> []" using False by auto
  then have "splitContent content limit = Some (cs @ (if r \<noteq> [] then [r] else []))"
    using False s(1) by (simp add: splitContent_def)
  with s valid concat_split_newlines [of content] show ?thesis
    by (intro exI [of _ "cs @ (if r \<noteq> [] then [r] else [])"]) auto
qed

text \<open>
  C36: Splitting: for every positive limit the split ends; no chunk is empty or longer than the
  limit, the chunks in order hold every byte of the text but newlines, and with a limit of at
  least four bytes each chunk of a valid text is valid UTF-8.
\<close>

theorem splitContent_spec:
  assumes "0 < limit"
  shows "\<exists>cs. splitContent content limit = Some cs
    \<and> (\<forall>c \<in> set cs. c \<noteq> [] \<and> length c \<le> limit)
    \<and> no_newlines (concat cs) = no_newlines content
    \<and> (4 \<le> limit \<and> valid_utf8 content \<longrightarrow> list_all valid_utf8 cs)"
  using splitContent_pieces [OF assms, of content] by (auto simp: pieces_ok_def)

theorem splitContent_spec_witness:
  "\<exists>cs. splitContent (''ab'' @ [CHR 0x0A, CHR 0x0A] @ ''cdefgh'') 4 = Some cs
     \<and> cs = [''ab'' @ [CHR 0x0A], ''cdef'', ''gh''] \<and> (\<forall>c \<in> set cs. c \<noteq> [] \<and> length c \<le> 4)"
proof -
  have "splitContent (''ab'' @ [CHR 0x0A, CHR 0x0A] @ ''cdefgh'') 4 = Some [''ab'' @ [CHR 0x0A], ''cdef'', ''gh'']"
    by code_simp
  then show ?thesis
    using splitContent_spec [of 4 "''ab'' @ [CHR 0x0A, CHR 0x0A] @ ''cdefgh''"] by auto
qed

section \<open>What reaches Discord\<close>

text \<open>A request Discord accepts and that pings nobody: at most 2000 bytes, an empty allow-list.\<close>

definition safe_request :: "request \<Rightarrow> bool" where
  "safe_request r \<longleftrightarrow> length (rq_content r) \<le> 2000 \<and>
     (rq_mentions r = Some [] \<or> rq_kind r \<in> {DeferInteraction, DeferUpdate} \<or> (\<exists>u. rq_kind r = OpenDM u))"

definition only_safe :: "session \<Rightarrow> session \<Rightarrow> bool" where
  "only_safe s s' \<longleftrightarrow> (\<exists>new. s' = s @ new \<and> list_all safe_request new)"

lemma only_safe_refl [simp]: "only_safe s s"
  by (simp add: only_safe_def)

lemma only_safe_trans: "only_safe s t \<Longrightarrow> only_safe t u \<Longrightarrow> only_safe s u"
  by (force simp: only_safe_def)

lemma call_safe: "safe_request r \<Longrightarrow> only_safe s (snd (call_discord down r s))"
  by (simp add: call_discord_def only_safe_def)

lemma send_all_safe: "list_all safe_request rs \<Longrightarrow> only_safe s (snd (send_all down rs s))"
proof (induction rs arbitrary: s)
  case (Cons r rs)
  then have "only_safe s (snd (call_discord down r s))" by (simp add: call_safe)
  with Cons show ?case
    by (auto simp: Let_def split_beta intro: only_safe_trans)
qed simp

lemma truncated: "length (truncateContent c) \<le> 2000"
  using cut_back_le [of c 1997] by (auto simp: truncateContent_def maxChatContent_def ellipsis_def)

lemma plan_mentions [simp]: "mentions (planResponse src r i) = Some []"
  by (simp add: mentions_def planResponse_def noMentions_def)

lemma split_2000:
  obtains cs where "splitContent c maxChatContent = Some cs" and "\<forall>x \<in> set cs. length x \<le> 2000"
    and "no_newlines (concat cs) = no_newlines c"
  using splitContent_pieces [of maxChatContent c] by (auto simp: pieces_ok_def maxChatContent_def)

lemma errorMessage_None: "length (errorMessage None) \<le> 2000"
  by (simp add: errorMessage_def)

lemma respondDeferred_safe:
  "\<exists>s'. respondDeferred down resp e s = Some s' \<and> only_safe s s'"
proof -
  define r where "r = (case resp of None \<Rightarrow> empty_response\<lparr>resp_Content := errorMessage None\<rparr> | Some r \<Rightarrow> r)"
  obtain cs where cs: "splitContent (resp_Content r) maxChatContent = Some cs" "\<forall>x \<in> set cs. length x \<le> 2000"
    by (rule split_2000)
  have "safe_request (deferred_edit r cs)"
    using cs(2) by (auto simp: deferred_edit_def safe_request_def noMentions_def Let_def split: list.splits)
  then have a: "only_safe s (snd (call_discord down (deferred_edit r cs) s))" by (rule call_safe)
  have "list_all safe_request (map (followup_chunk e) (tl cs))"
    using cs(2) by (cases cs) (auto simp: followup_chunk_def safe_request_def noMentions_def list_all_iff)
  from only_safe_trans [OF a send_all_safe [OF this]] a show ?thesis
    by (simp add: respondDeferred_def r_def [symmetric] cs(1) Let_def split_beta)
qed

lemma plan_reply_safe: "safe_request (plan_reply ch (planResponse src r i) ref)"
  by (simp add: plan_reply_def safe_request_def truncated)

lemma sendDMChunks_safe:
  "\<forall>x \<in> set cs. length x \<le> 2000 \<Longrightarrow> only_safe s (snd (sendDMChunks down dm_of u cs s))"
proof -
  assume cs: "\<forall>x \<in> set cs. length x \<le> 2000"
  have a: "only_safe s (snd (call_discord down (plain (OpenDM u)) s))"
    by (rule call_safe) (simp add: safe_request_def plain_def)
  have "list_all safe_request (map (\<lambda>chunk. (plain (ChannelSend (dm_of u)))\<lparr>rq_content := chunk,
      rq_mentions := noMentions\<rparr>) cs)"
    using cs by (auto simp: safe_request_def noMentions_def list_all_iff)
  from only_safe_trans [OF a send_all_safe [OF this]] a show ?thesis
    by (simp add: sendDMChunks_def Let_def split_beta)
qed

lemma respondChat_safe:
  "\<exists>res s'. respondChat down new_id dm_of m resp s = Some (res, s') \<and> only_safe s s'"
proof (cases resp)
  case (Some r)
  show ?thesis
  proof (cases "resp_DirectWhenLong r \<and> length (resp_Content r) > maxChatContent")
    case True
    obtain cs where cs: "splitContent (resp_Content r) maxChatContent = Some cs" "\<forall>x \<in> set cs. length x \<le> 2000"
      by (rule split_2000)
    have "only_safe (snd (sendDMChunks down dm_of (msg_AuthorID m) cs s)) (snd (call_discord down
      ((plain (ChannelSend (msg_ChannelID m)))\<lparr>rq_content := (if ok then dm_sent_text else dm_failed_text),
         rq_mentions := noMentions, rq_reference := Some (msg_ID m)\<rparr>)
      (snd (sendDMChunks down dm_of (msg_AuthorID m) cs s))))" for ok
      by (rule call_safe) (simp add: safe_request_def noMentions_def dm_sent_text_def dm_failed_text_def)
    from only_safe_trans [OF sendDMChunks_safe [OF cs(2)] this] True cs(1) Some show ?thesis
      by (simp add: respondChat_def respondChatDirect_def sent_id_def Let_def split_beta)
  next
    case False
    then show ?thesis
      using Some call_safe [OF plan_reply_safe]
      by (auto simp: respondChat_def sent_id_def Let_def split_beta)
  qed
qed (simp add: respondChat_def)

text \<open>
  C35: No answer to a command can be refused for its length or ping anyone: whichever requests
  fail, every request the command, re-roll, deferred, chat and chat-error responders make holds
  at most 2000 bytes and, where it can show content, an allow-list of mentions that is present
  and empty. The deferred and chat responders always come to an end.
\<close>

theorem responses_safe:
  "only_safe s (respondCommand down resp s)
    \<and> only_safe s (respondReRoll down channel user clicked resp s)
    \<and> only_safe s (respondChatError down m err s)
    \<and> (\<exists>s'. respondDeferred down resp e s = Some s' \<and> only_safe s s')
    \<and> (\<exists>res s'. respondChat down new_id dm_of m resp s = Some (res, s') \<and> only_safe s s')"
proof -
  have "only_safe s (respondCommand down resp s)"
    by (auto simp: respondCommand_def Let_def safe_request_def truncated intro!: call_safe split: option.split)
  moreover have "only_safe s (respondChatError down m err s)"
    unfolding respondChatError_def
    by (rule call_safe) (simp add: safe_request_def truncated noMentions_def)
  moreover have "only_safe s (respondReRoll down channel user clicked resp s)"
  proof (cases resp)
    case (Some r)
    have a: "only_safe s (snd (call_discord down (plan_reply channel (planResponse SourceReRoll r i) clicked) s))" for i
      by (rule call_safe) (rule plan_reply_safe)
    have "only_safe t (respondReRollError down None t)" for t
      unfolding respondReRollError_def
      by (rule call_safe) (simp add: safe_request_def noMentions_def errorMessage_None)
    from only_safe_trans [OF a this] a show ?thesis
      by (simp add: respondReRoll_def Some Let_def split_beta)
  qed (simp add: respondReRoll_def)
  ultimately show ?thesis using respondDeferred_safe respondChat_safe by blast
qed

text \<open>
  The error answer to a slash command is the exception: its text is neither cut nor given an
  allow-list, so an error that echoes a long argument is refused by Discord.
\<close>

lemma respondError_unbounded:
  "respondError down (Some (InvalidArgument, text)) s
     = s @ [(plain RespondInteraction)\<lparr>rq_content := text, rq_ephemeral := True\<rparr>]
   \<and> rq_mentions ((plain RespondInteraction)\<lparr>rq_content := text, rq_ephemeral := True\<rparr>) = None"
  by (simp add: respondError_def call_discord_def errorMessage_def plain_def)

end
