(* ===== verification/ReminderDelivery.thy ===== *)
theory ReminderDelivery
  imports ReminderStore
begin

text \<open>
  The life of a reminder row: which states the statements of \<open>ReminderStore\<close> can reach, what
  every one of them keeps, how often and how far apart a reminder is handed to a client, and
  the cron job that does it (\<open>pkg/cron/cronjob/remind.go\<close>).
\<close>

section \<open>The row with a given id\<close>

definition row_of :: "string \<Rightarrow> db \<Rightarrow> reminder_row option" where
  "row_of rid s = find (\<lambda>r. r_ID r = rid) (reminders s)"

lemma row_of_update_where:
  assumes "\<And>r. r_ID (f r) = r_ID r"
  shows "row_of rid (update_where c f s) = map_option (\<lambda>r. if c r then f r else r) (row_of rid s)"
proof -
  have "(\<lambda>x. r_ID (if c x then f x else x) = rid) = (\<lambda>x. r_ID x = rid)"
    using assms by (simp add: fun_eq_iff)
  then show ?thesis by (simp add: row_of_def update_where_def find_map)
qed

lemma ids_update_where:
  assumes "\<And>r. r_ID (f r) = r_ID r"
  shows "map r_ID (reminders (update_where c f s)) = map r_ID (reminders s)"
  using assms by (simp add: update_where_def)

lemma row_of_Some: "row_of rid s = Some r \<Longrightarrow> r \<in> set (reminders s) \<and> r_ID r = rid"
  unfolding row_of_def by (rule find_SomeD)

lemma row_of_None: "row_of rid s = None \<longleftrightarrow> (\<forall>r \<in> set (reminders s). r_ID r \<noteq> rid)"
  by (auto simp: row_of_def find_None_iff)

lemma row_of_unique:
  "distinct (map r_ID (reminders s)) \<Longrightarrow> r \<in> set (reminders s) \<Longrightarrow> row_of (r_ID r) s = Some r"
  unfolding row_of_def by (rule find_unique) simp_all

section \<open>Steps\<close>

text \<open>
  One statement of the store that the bot executes, with the values it is called with.
  \<open>SetReminderStatus\<close> has no caller outside the tests.
\<close>

datatype store_op =
    OpCreate string create_req string int int
  | OpClaim instant
  | OpReclaim instant
  | OpAdvance string int
  | OpReschedule string instant
  | OpDelete string string
  | OpUpdate reminder_update

fun apply_op :: "store_op \<Rightarrow> db \<Rightarrow> db" where
  "apply_op (OpCreate i req u d cap) s = snd (CreateReminder i req u d cap s)"
| "apply_op (OpClaim now) s = snd (ClaimDueReminders now s)"
| "apply_op (OpReclaim now) s = snd (ReclaimStaleReminders now s)"
| "apply_op (OpAdvance i st) s = snd (AdvanceReminderStatusIfSent i st s)"
| "apply_op (OpReschedule i t) s = snd (RescheduleReminderIfSent i t s)"
| "apply_op (OpDelete i u) s = snd (SoftDeleteReminderByUser i u s)"
| "apply_op (OpUpdate u) s = snd (UpdateReminderByUser u s)"

text \<open>
  What the callers guarantee: an id is the fresh value the database generated, and a
  confirmation moves a reminder to DELIVERED or FAILED.
\<close>

fun op_ok :: "store_op \<Rightarrow> db \<Rightarrow> bool" where
  "op_ok (OpCreate i req u d cap) s = (row_of i s = None)"
| "op_ok (OpAdvance i st) s = (st = STATUS_DELIVERED \<or> st = STATUS_FAILED)"
| "op_ok _ s = True"

inductive reachable :: "db \<Rightarrow> bool" where
  start: "reminders s = [] \<Longrightarrow> reachable s"
| step: "reachable s \<Longrightarrow> op_ok op s \<Longrightarrow> reachable (apply_op op s)"

lemmas op_defs = CreateReminder_def ClaimDueReminders_def ReclaimStaleReminders_def
  AdvanceReminderStatusIfSent_def RescheduleReminderIfSent_def SoftDeleteReminderByUser_def
  UpdateReminderByUser_def

lemmas row_defs = claim_row_def reclaim_row_def edit_row_def

lemmas cond_defs = due_def stale_def sent_with_id_def owned_live_def

section \<open>The row invariant\<close>

definition row_ok :: "reminder_row \<Rightarrow> bool" where
  "row_ok r \<longleftrightarrow>
     r_Status r \<in> {STATUS_PENDING, STATUS_SENT, STATUS_DELIVERED, STATUS_FAILED}
     \<and> (r_Status r = STATUS_SENT \<longleftrightarrow> r_ClaimedAt r \<noteq> None)
     \<and> 0 \<le> r_DeliveryAttempts r \<and> r_DeliveryAttempts r \<le> maxDeliveryAttempts
     \<and> (r_Status r = STATUS_PENDING \<longrightarrow> r_DeliveryAttempts r < maxDeliveryAttempts)"

definition owner_refs :: "db \<Rightarrow> (string \<times> int) list" where
  "owner_refs s = concat (map (\<lambda>r. case r_UserID r of None \<Rightarrow> [] | Some u \<Rightarrow> [(u, r_Ref r)]) (reminders s))"

definition store_ok :: "db \<Rightarrow> bool" where
  "store_ok s \<longleftrightarrow> (\<forall>r \<in> set (reminders s). row_ok r)
     \<and> distinct (map r_ID (reminders s)) \<and> distinct (owner_refs s)
     \<and> (\<forall>(u, n) \<in> set (owner_refs s). 1 \<le> n)"

text \<open>An update that keeps ids, owners and refs keeps the store well-formed if it keeps rows so.\<close>

lemma update_where_ok:
  assumes "store_ok s"
    and f: "\<And>r. r_ID (f r) = r_ID r \<and> r_UserID (f r) = r_UserID r \<and> r_Ref (f r) = r_Ref r"
    and ok: "\<And>r. row_ok r \<Longrightarrow> c r \<Longrightarrow> row_ok (f r)"
  shows "store_ok (update_where c f s)"
proof -
  have "owner_refs (update_where c f s) = owner_refs s"
    unfolding owner_refs_def update_where_def
    by (simp add: o_def) (rule arg_cong [of _ _ concat], rule map_cong, auto simp: f split: option.splits)
  moreover have "map r_ID (reminders (update_where c f s)) = map r_ID (reminders s)"
    using f by (simp add: ids_update_where)
  moreover have "\<forall>r \<in> set (reminders (update_where c f s)). row_ok r"
    using assms(1) ok by (auto simp: store_ok_def update_where_def)
  ultimately show ?thesis using assms(1) by (simp add: store_ok_def)
qed

lemma foldl_max_ge:
  fixes x :: int
  shows "x \<le> foldl max x xs \<and> (\<forall>y \<in> set xs. y \<le> foldl max x xs)"
proof (induction xs arbitrary: x)
  case (Cons a xs)
  from Cons [of "max x a"] show ?case by auto
qed simp

lemma next_ref_above:
  assumes "r \<in> set (reminders s)" and "r_UserID r = Some u"
  shows "r_Ref r < next_ref s u"
proof (cases "map r_Ref (filter (\<lambda>r. r_UserID r = Some u) (reminders s))")
  case Nil
  with assms show ?thesis by (auto simp: filter_empty_conv)
next
  case (Cons x xs)
  have "r_Ref r \<in> set (map r_Ref (filter (\<lambda>r. r_UserID r = Some u) (reminders s)))"
    using assms by simp
  then have "r_Ref r \<in> set (x # xs)" by (simp only: Cons)
  with foldl_max_ge [of x xs] show ?thesis
    by (auto simp: next_ref_def Cons le_imp_less_or_eq)
qed

lemma set_owner_refs: "(u, n) \<in> set (owner_refs s) \<longleftrightarrow>
    (\<exists>r \<in> set (reminders s). r_UserID r = Some u \<and> r_Ref r = n)"
  unfolding owner_refs_def by (auto split: option.splits intro!: bexI)

lemma next_ref_pos:
  assumes "store_ok s"
  shows "1 \<le> next_ref s u"
proof (cases "\<exists>r \<in> set (reminders s). r_UserID r = Some u")
  case True
  then obtain r where r: "r \<in> set (reminders s)" "r_UserID r = Some u" by blast
  then have "(u, r_Ref r) \<in> set (owner_refs s)" by (auto simp: set_owner_refs)
  then have "1 \<le> r_Ref r" using assms by (auto simp: store_ok_def)
  with next_ref_above [OF r] show ?thesis by simp
next
  case False
  then show ?thesis by (simp add: next_ref_def filter_False)
qed

section \<open>Every statement keeps the store well-formed\<close>

text \<open>A new row takes the owner's next ref.\<close>

lemma append_row_ok:
  assumes "store_ok s" and "row_ok row" and "r_ID row \<notin> set (map r_ID (reminders s))"
    and "r_UserID row = Some u" and "r_Ref row = next_ref s u"
  shows "store_ok (s\<lparr>reminders := reminders s @ [row]\<rparr>)"
proof -
  have "(u, next_ref s u) \<notin> set (owner_refs s)"
    using next_ref_above [of _ s u] by (force simp: set_owner_refs)
  moreover have "owner_refs (s\<lparr>reminders := reminders s @ [row]\<rparr>) = owner_refs s @ [(u, next_ref s u)]"
    by (simp add: owner_refs_def assms)
  ultimately show ?thesis
    using assms next_ref_pos [OF assms(1), of u] by (auto simp: store_ok_def)
qed

lemma create_keeps [keeps]:
  assumes "store_ok s" and "row_of i s = None"
  shows "store_ok (snd (CreateReminder i req u d cap s))"
proof (cases "CountActiveReminders s u \<ge> cap")
  case True
  with assms show ?thesis by (simp add: CreateReminder_def)
next
  case False
  have "i \<notin> set (map r_ID (reminders s))" using assms(2) by (auto simp: row_of_None)
  with False assms(1) show ?thesis
    by (simp add: CreateReminder_def Let_def append_row_ok row_ok_def status_defs store_consts)
qed

lemma claim_keeps [keeps]: "store_ok s \<Longrightarrow> store_ok (snd (ClaimDueReminders now s))"
  unfolding ClaimDueReminders_def snd_conv
  by (rule update_where_ok)
     (auto simp: claim_row_def row_ok_def due_def status_defs store_consts)

lemma reclaim_keeps [keeps]: "store_ok s \<Longrightarrow> store_ok (snd (ReclaimStaleReminders now s))"
  unfolding ReclaimStaleReminders_def Let_def snd_conv
  by (rule update_where_ok) (auto simp: reclaim_row_def row_ok_def status_defs store_consts)

lemma advance_keeps [keeps]:
  "store_ok s \<Longrightarrow> st = STATUS_DELIVERED \<or> st = STATUS_FAILED \<Longrightarrow>
     store_ok (snd (AdvanceReminderStatusIfSent i st s))"
  unfolding AdvanceReminderStatusIfSent_def snd_conv
  by (rule update_where_ok) (auto simp: row_ok_def status_defs store_consts)

lemma reschedule_keeps [keeps]: "store_ok s \<Longrightarrow> store_ok (snd (RescheduleReminderIfSent i t s))"
  unfolding RescheduleReminderIfSent_def snd_conv
  by (rule update_where_ok) (auto simp: row_ok_def status_defs store_consts)

lemma delete_keeps [keeps]: "store_ok s \<Longrightarrow> store_ok (snd (SoftDeleteReminderByUser i u s))"
  unfolding SoftDeleteReminderByUser_def snd_conv
  by (rule update_where_ok) (auto simp: row_ok_def)

lemma update_keeps [keeps]: "store_ok s \<Longrightarrow> store_ok (snd (UpdateReminderByUser u s))"
  unfolding UpdateReminderByUser_def snd_conv
  by (rule update_where_ok) (auto simp: edit_row_def row_ok_def status_defs store_consts)

lemma op_keeps: "store_ok s \<Longrightarrow> op_ok op s \<Longrightarrow> store_ok (apply_op op s)"
  by (cases op) (simp_all add: keeps)

lemma reachable_ok: "reachable s \<Longrightarrow> store_ok s"
  by (induction rule: reachable.induct) (simp_all add: op_keeps, simp add: store_ok_def owner_refs_def)

text \<open>
  C26: The reminder table's invariant: in every state the bot's statements can reach, a reminder
  has a claim time exactly while it is SENT, has been handed out at most five times, fewer
  while it still waits, and refs are positive and unique per owner, deleted reminders included.
\<close>

theorem reachable_store_ok:
  assumes "reachable s"
  shows "store_ok s"
  using assms by (rule reachable_ok)

section \<open>Creating under the cap\<close>

definition demo_req :: create_req where
  "demo_req = \<lparr>cr_Datetime = 1000, cr_Timezone = ''UTC'', cr_RepeatCron = [], cr_Message = ''hi'', cr_ParentID = []\<rparr>"

definition demo_db :: db where
  "demo_db = \<lparr>reminders = [],
     instances = [\<lparr>i_ID = 1, i_Platform = 1, i_Meta = [(''instance_uid'', ''g'')],
        i_DefaultChannel = None, i_Deleted = False\<rparr>],
     destinations = [\<lparr>d_ID = 1, d_InstanceID = 1, d_Meta = [(''destination_uid'', ''chan'')],
       d_Deleted = False\<rparr>],
     platform_users = [\<lparr>pu_UserID = ''u'', pu_Platform = 1, pu_UID = ''4'', pu_Deleted = False\<rparr>],
     action_records = []\<rparr>"

theorem reachable_store_ok_witness:
  "store_ok (apply_op (OpClaim 2000) (apply_op (OpCreate ''a'' demo_req ''u'' 1 100) demo_db))
   \<and> map r_Status (reminders (apply_op (OpClaim 2000) (apply_op (OpCreate ''a'' demo_req ''u'' 1 100) demo_db)))
     = [STATUS_SENT]"
proof
  have "reachable demo_db" by (rule reachable.start) (simp add: demo_db_def)
  then have "reachable (apply_op (OpCreate ''a'' demo_req ''u'' 1 100) demo_db)"
    by (rule reachable.step) (simp add: demo_db_def row_of_def)
  then have "reachable (apply_op (OpClaim 2000) (apply_op (OpCreate ''a'' demo_req ''u'' 1 100) demo_db))"
    by (rule reachable.step) simp
  then show "store_ok (apply_op (OpClaim 2000) (apply_op (OpCreate ''a'' demo_req ''u'' 1 100) demo_db))"
    by (rule reachable_store_ok)
qed code_simp

text \<open>
  The cap holds under creation: \<open>CreateReminder\<close> fails exactly when the owner already has
  the maximum of pending reminders, changing nothing; otherwise it adds one pending row, so the
  owner's count stays within the maximum, under a ref above every ref the owner ever had.
\<close>

theorem CreateReminder_cap:
  "case CreateReminder i req u d cap s of
     (Inl e, s') \<Rightarrow> cap \<le> CountActiveReminders s u \<and> s' = s
   | (Inr (rid, ref), s') \<Rightarrow> CountActiveReminders s u < cap \<and> rid = i
       \<and> CountActiveReminders s' u = CountActiveReminders s u + 1
       \<and> CountActiveReminders s' u \<le> cap
       \<and> filter (\<lambda>r. r_UserID r = Some u \<and> ref \<le> r_Ref r) (reminders s) = []
       \<and> (\<exists>row. reminders s' = reminders s @ [row] \<and> r_ID row = i \<and> r_Ref row = ref \<and> active u row)"
proof (cases "CountActiveReminders s u \<ge> cap")
  case True
  then show ?thesis by (simp add: CreateReminder_def)
next
  case False
  have "filter (\<lambda>r. r_UserID r = Some u \<and> next_ref s u \<le> r_Ref r) (reminders s) = []"
    using next_ref_above by (force simp: filter_empty_conv)
  with False show ?thesis
    by (simp add: CreateReminder_def CountActiveReminders_def active_def Let_def)
qed

section \<open>How often and how far apart a reminder is handed out\<close>

text \<open>The times at which a run of statements hands the reminder \<open>rid\<close> to a client.\<close>

fun deliveries :: "string \<Rightarrow> db \<Rightarrow> store_op list \<Rightarrow> instant list" where
  "deliveries rid s [] = []"
| "deliveries rid s (op # ops) =
     (case op of
        OpClaim now \<Rightarrow> if rid \<in> c_ID ` set (fst (ClaimDueReminders now s)) then [now] else []
      | _ \<Rightarrow> []) @ deliveries rid (apply_op op s) ops"

fun ops_ok :: "db \<Rightarrow> store_op list \<Rightarrow> bool" where
  "ops_ok s [] = True"
| "ops_ok s (op # ops) = (op_ok op s \<and> ops_ok (apply_op op s) ops)"

fun clock :: "store_op \<Rightarrow> instant list" where
  "clock (OpClaim t) = [t]"
| "clock (OpReclaim t) = [t]"
| "clock _ = []"

text \<open>The statements that put the reminder \<open>rid\<close> back to the start of its life.\<close>

fun rearms :: "string \<Rightarrow> store_op \<Rightarrow> bool" where
  "rearms rid (OpCreate i _ _ _ _) = (i = rid)"
| "rearms rid (OpReschedule i _) = (i = rid)"
| "rearms rid (OpUpdate u) = (u_ID u = rid)"
| "rearms rid _ = False"

text \<open>What the other statements do to the one row.\<close>

fun row_after :: "store_op \<Rightarrow> reminder_row \<Rightarrow> reminder_row" where
  "row_after (OpClaim t) r = (if due t r then claim_row t r else r)"
| "row_after (OpReclaim t) r = (if stale (t + - staleClaimGrace) r then reclaim_row r else r)"
| "row_after (OpAdvance i st) r =
     (if sent_with_id i r then r\<lparr>r_Status := st, r_ClaimedAt := None\<rparr> else r)"
| "row_after (OpDelete i u) r = (if owned_live i u r then r\<lparr>r_Deleted := True\<rparr> else r)"
| "row_after _ r = r"

fun row_claims :: "reminder_row \<Rightarrow> store_op list \<Rightarrow> instant list" where
  "row_claims r [] = []"
| "row_claims r (op # ops) =
     (case op of OpClaim t \<Rightarrow> if due t r then [t] else [] | _ \<Rightarrow> []) @ row_claims (row_after op r) ops"

lemma row_of_create:
  "i \<noteq> rid \<Longrightarrow> row_of rid (snd (CreateReminder i req u d cap s)) = row_of rid s"
  by (simp add: CreateReminder_def Let_def row_of_def find_append split: option.split)

lemma row_of_step:
  assumes "row_of rid s = Some r" and "\<not> rearms rid op"
  shows "row_of rid (apply_op op s) = Some (row_after op r)"
proof -
  have id: "r_ID r = rid" using row_of_Some [OF assms(1)] by simp
  show ?thesis
  proof (cases op)
    case OpCreate
    with assms show ?thesis by (simp add: row_of_create)
  qed (use assms id in \<open>auto simp: op_defs row_defs cond_defs row_of_update_where Let_def\<close>)
qed

lemma row_of_step_None:
  assumes "row_of rid s = None" and "\<not> rearms rid op"
  shows "row_of rid (apply_op op s) = None"
proof (cases op)
  case OpCreate
  with assms show ?thesis by (simp add: row_of_create)
qed (use assms in \<open>auto simp: op_defs row_defs row_of_update_where Let_def\<close>)

lemma claimed_was_due:
  assumes "distinct (map r_ID (reminders s))"
    and "rid \<in> c_ID ` set (fst (ClaimDueReminders now s))"
  shows "\<exists>r. row_of rid s = Some r \<and> due now r"
proof -
  from assms(2) obtain r where "r \<in> set (reminders s)" "due now r" "rid = r_ID r"
    by (auto simp: ClaimDueReminders_def claim_output_def)
  with row_of_unique [OF assms(1)] show ?thesis by blast
qed

lemma deliveries_None:
  "row_of rid s = None \<Longrightarrow> store_ok s \<Longrightarrow> ops_ok s ops \<Longrightarrow> \<forall>op \<in> set ops. \<not> rearms rid op
     \<Longrightarrow> deliveries rid s ops = []"
proof (induction ops arbitrary: s)
  case (Cons op ops)
  have "\<And>now. rid \<notin> c_ID ` set (fst (ClaimDueReminders now s))"
    using claimed_was_due [of s rid] Cons.prems(1,2) by (auto simp: store_ok_def)
  with Cons row_of_step_None [of rid s op] op_keeps [of s op] show ?case
    by (auto split: store_op.splits)
qed simp

lemma deliveries_claims:
  "row_of rid s = Some r \<Longrightarrow> store_ok s \<Longrightarrow> ops_ok s ops \<Longrightarrow> \<forall>op \<in> set ops. \<not> rearms rid op
     \<Longrightarrow> subseq (deliveries rid s ops) (row_claims r ops)"
proof (induction ops arbitrary: s r)
  case (Cons op ops)
  have "\<And>now. rid \<in> c_ID ` set (fst (ClaimDueReminders now s)) \<Longrightarrow> due now r"
    using claimed_was_due [of s rid] Cons.prems(1,2) by (auto simp: store_ok_def)
  moreover have "subseq (deliveries rid (apply_op op s) ops) (row_claims (row_after op r) ops)"
    using Cons row_of_step [of rid s r op] op_keeps [of s op] by simp
  ultimately show ?case
    by (auto intro!: list_emb_append_mono split: store_op.splits)
qed simp

lemma row_after_ok:
  assumes "row_ok r" and "op_ok op s"
  shows "row_ok (row_after op r)"
  using assms
  by (cases op) (auto simp: row_defs cond_defs row_ok_def status_defs store_consts)

text \<open>The claims a row has left, and the wait before the next one.\<close>

lemma row_claims_bound:
  "row_ok r \<Longrightarrow> ops_ok s ops \<Longrightarrow>
     int (length (row_claims r ops)) \<le> maxDeliveryAttempts - r_DeliveryAttempts r"
proof (induction ops arbitrary: r s)
  case (Cons op ops)
  then have ok: "row_ok (row_after op r)" by (simp add: row_after_ok [of r op s])
  have "int (length (row_claims (row_after op r) ops))
      \<le> maxDeliveryAttempts - r_DeliveryAttempts (row_after op r)"
    using Cons ok by auto
  then show ?case
    by (cases op) (auto simp: row_defs)
qed (simp add: row_ok_def)

lemma row_claims_closed:
  "r_Deleted r \<or> r_Status r = STATUS_DELIVERED \<or> r_Status r = STATUS_FAILED
     \<Longrightarrow> row_claims r ops = []"
proof (induction ops arbitrary: r)
  case (Cons op ops)
  then have "r_Deleted (row_after op r) \<or> r_Status (row_after op r) = STATUS_DELIVERED
      \<or> r_Status (row_after op r) = STATUS_FAILED"
    by (cases op) (auto simp: row_defs cond_defs status_defs)
  with Cons show ?case
    by (auto simp: due_def status_defs split: store_op.splits)
qed simp

lemma row_claims_times: "t \<in> set (row_claims r ops) \<Longrightarrow> t \<in> set (concat (map clock ops))"
  by (induction ops arbitrary: r) (auto split: store_op.splits if_splits)

lemma row_claims_wait:
  "r_Status r = STATUS_SENT \<Longrightarrow> r_ClaimedAt r = Some t0 \<Longrightarrow> sorted (concat (map clock ops))
     \<Longrightarrow> ops_ok s ops \<Longrightarrow> t \<in> set (row_claims r ops) \<Longrightarrow> t0 + staleClaimGrace \<le> t"
proof (induction ops arbitrary: r s)
  case (Cons op ops)
  have now: "t \<in> set (row_claims (row_after op r) ops)"
    using Cons.prems(1,5) by (auto simp: due_def status_defs split: store_op.splits)
  have later: "sorted (concat (map clock ops))" "ops_ok (apply_op op s) ops"
    using Cons.prems(3,4) by (auto simp: sorted_append)
  show ?case
  proof (cases "row_after op r = r")
    case True
    with Cons.IH [of r] Cons.prems(1,2) now later show ?thesis by simp
  next
    case False
    show ?thesis
    proof (cases op)
      case (OpReclaim t1)
      with False Cons.prems(1,2) have "t0 + staleClaimGrace \<le> t1"
        by (auto simp: stale_def split: if_splits)
      moreover have "t1 \<le> t"
        using Cons.prems(3) row_claims_times [OF now] by (auto simp: OpReclaim)
      ultimately show ?thesis by simp
    next
      case (OpAdvance i st)
      with False Cons.prems(4) have "r_Status (row_after op r) = STATUS_DELIVERED
          \<or> r_Status (row_after op r) = STATUS_FAILED"
        by (auto split: if_splits)
      with now row_claims_closed [of "row_after op r" ops] show ?thesis by auto
    next
      case (OpDelete i u)
      with False have "r_Deleted (row_after op r)" by (auto split: if_splits)
      with now row_claims_closed [of "row_after op r" ops] show ?thesis by auto
    qed (use False Cons.prems(1) in \<open>auto simp: due_def status_defs\<close>)
  qed
qed simp

lemma row_claims_spaced:
  "sorted (concat (map clock ops)) \<Longrightarrow> ops_ok s ops \<Longrightarrow>
     sorted_wrt (\<lambda>t t'. t + staleClaimGrace \<le> t') (row_claims r ops)"
proof (induction ops arbitrary: r s)
  case (Cons op ops)
  have later: "sorted (concat (map clock ops))" "ops_ok (apply_op op s) ops"
    using Cons.prems by (auto simp: sorted_append)
  note rest = Cons.IH [OF later, of "row_after op r"]
  show ?case
  proof (cases op)
    case (OpClaim t)
    show ?thesis
    proof (cases "due t r")
      case True
      have "\<forall>t' \<in> set (row_claims (claim_row t r) ops). t + staleClaimGrace \<le> t'"
        using row_claims_wait [OF _ _ later, of "claim_row t r" t] by (simp add: claim_row_def)
      with rest show ?thesis by (simp add: OpClaim True)
    qed (use rest in \<open>simp add: OpClaim\<close>)
  qed (use rest in simp_all)
qed simp

lemma subseq_sorted_wrt:
  assumes "subseq xs ys" and "sorted_wrt P ys"
  shows "sorted_wrt P xs"
  using assms
proof (induction rule: list_emb.induct)
  case (list_emb_Cons2 x y xs ys)
  then show ?case by (auto dest: list_emb_set)
qed simp_all


definition demo_run :: "store_op list" where
  "demo_run = [OpClaim 2000, OpReclaim 120000002000, OpClaim 120000002000, OpClaim 120000003000]"


end
