(* ===== verification/ReminderSchedule.thy ===== *)
theory ReminderSchedule
  imports GoTime
begin

text \<open>
  Repeat schedules of \<open>pkg/reminder/cron.go\<close>. The cron library is the argument \<open>parse_cron\<close>
  (\<open>cron.ParseStandard\<close>); what it returns is a record of the two things the code asks of a
  \<open>cron.Schedule\<close>: its \<open>Next\<close>, which reads the location of its argument and gives \<open>None\<close> for
  the zero time, and, when it is a \<open>cron.ConstantDelaySchedule\<close>, its \<open>Delay\<close>.
\<close>

section \<open>Definitions\<close>

record schedule =
  sched_Next :: "location \<Rightarrow> instant \<Rightarrow> instant option"
  sched_Delay :: "duration option"

datatype schedule_error =
    InvalidSchedule | NeverFires | FiresOnlyOnce | TooFrequent duration duration | NeverFiresAgain

definition MinIntervalPublic :: duration where "MinIntervalPublic = 12 * Hour"
definition MinIntervalDM :: duration where "MinIntervalDM = 10 * Minute"

definition parseCron :: "(string \<Rightarrow> schedule option) \<Rightarrow> string \<Rightarrow> schedule_error + schedule" where
  "parseCron parse_cron spec =
    (case parse_cron spec of None \<Rightarrow> Inl InvalidSchedule | Some s \<Rightarrow> Inr s)"

definition ValidateCron :: "(string \<Rightarrow> schedule option) \<Rightarrow> string \<Rightarrow> schedule_error + unit" where
  "ValidateCron parse_cron spec = and_then (parseCron parse_cron spec) (\<lambda>_. Inr ())"

definition minInterval :: "bool \<Rightarrow> duration" where
  "minInterval isDM = (if isDM then MinIntervalDM else MinIntervalPublic)"

text \<open>Midnight, 1 January 2000, UTC.\<close>

definition intervalSampleBase :: instant where
  "intervalSampleBase = Date 2000 1 1 0 0 0 0 UTC"

definition ValidateRepeatInterval ::
  "(string \<Rightarrow> schedule option) \<Rightarrow> string \<Rightarrow> bool \<Rightarrow> schedule_error + unit" where
  "ValidateRepeatInterval parse_cron spec isDM =
    and_then (parseCron parse_cron spec) (\<lambda>schedule.
      case sched_Next schedule UTC intervalSampleBase of
        None \<Rightarrow> Inl NeverFires
      | Some first \<Rightarrow> (case sched_Next schedule UTC first of
          None \<Rightarrow> Inl FiresOnlyOnce
        | Some second \<Rightarrow>
            let gap = time_sub second first; floor = minInterval isDM in
            if gap < floor then Inl (TooFrequent floor gap) else Inr ()))"

definition or_UTC :: "location option \<Rightarrow> location" where
  "or_UTC loc = (case loc of None \<Rightarrow> UTC | Some l \<Rightarrow> l)"

definition NextOccurrence ::
  "(string \<Rightarrow> schedule option) \<Rightarrow> string \<Rightarrow> instant \<Rightarrow> location option \<Rightarrow> schedule_error + instant" where
  "NextOccurrence parse_cron spec after loc =
    and_then (parseCron parse_cron spec) (\<lambda>schedule.
      case sched_Next schedule (or_UTC loc) after of
        None \<Rightarrow> Inl NeverFiresAgain
      | Some t \<Rightarrow> Inr t)"

definition maxScheduleAdvanceSteps :: nat where
  "maxScheduleAdvanceSteps = 30 * 24 * 6"

definition advanceFromNow :: "schedule \<Rightarrow> location \<Rightarrow> instant \<Rightarrow> schedule_error + (instant \<times> bool)" where
  "advanceFromNow schedule loc now =
    (case sched_Next schedule loc now of
       None \<Rightarrow> Inl NeverFiresAgain
     | Some t \<Rightarrow> Inr (t, True))"

definition constantDelay :: "schedule \<Rightarrow> duration option" where
  "constantDelay schedule = (case sched_Delay schedule of
     None \<Rightarrow> None | Some d \<Rightarrow> if d \<le> 0 then None else Some d)"

definition nanosecond :: "instant \<Rightarrow> int" where
  "nanosecond t = t mod 1000000000"

definition advanceByDelay :: "instant \<Rightarrow> instant \<Rightarrow> duration \<Rightarrow> instant option" where
  "advanceByDelay anchor now delay =
    (let first = anchor + i64 (delay - nanosecond anchor) in
     if first > now then Some first
     else
       let n = first + i64 (i64 (go_div (time_sub now first) delay + 1) * delay) in
       if \<not> n > now then None else Some n)"

text \<open>The calendar walk, with the steps that are left; \<open>None\<close> is the exhausted bound.\<close>

fun advance_walk ::
  "nat \<Rightarrow> (instant \<Rightarrow> instant option) \<Rightarrow> instant \<Rightarrow> instant \<Rightarrow> (schedule_error + instant) option" where
  "advance_walk 0 nxt t now = None"
| "advance_walk (Suc k) nxt t now =
    (case nxt t of
       None \<Rightarrow> Some (Inl NeverFiresAgain)
     | Some t' \<Rightarrow> if t' > now then Some (Inr t') else advance_walk k nxt t' now)"

definition advanceSchedule ::
  "schedule \<Rightarrow> location \<Rightarrow> instant \<Rightarrow> instant \<Rightarrow> schedule_error + (instant \<times> bool)" where
  "advanceSchedule schedule loc anchor now =
    (case constantDelay schedule of
       Some delay \<Rightarrow> (case advanceByDelay anchor now delay of
           Some t \<Rightarrow> Inr (t, False)
         | None \<Rightarrow> advanceFromNow schedule loc now)
     | None \<Rightarrow>
        (case advance_walk maxScheduleAdvanceSteps (sched_Next schedule loc) anchor now of
           Some (Inl e) \<Rightarrow> Inl e
         | Some (Inr t) \<Rightarrow> Inr (t, False)
         | None \<Rightarrow> advanceFromNow schedule loc now))"

definition NextOccurrenceAfter ::
  "(string \<Rightarrow> schedule option) \<Rightarrow> string \<Rightarrow> instant \<Rightarrow> instant \<Rightarrow> location option
     \<Rightarrow> schedule_error + (instant \<times> bool)" where
  "NextOccurrenceAfter parse_cron spec anchor now loc =
    and_then (parseCron parse_cron spec) (\<lambda>schedule.
      advanceSchedule schedule (or_UTC loc) anchor now)"

section \<open>The arithmetic jump is the walk\<close>

text \<open>
  What the cron library documents of \<open>ConstantDelaySchedule.Next\<close>: the delay is added and the
  result is rounded down to the second. Delays are whole seconds.
\<close>

definition delay_next :: "duration \<Rightarrow> instant \<Rightarrow> instant" where
  "delay_next d t = t + d - nanosecond t"

lemma delay_next_iterate:
  assumes "d mod 1000000000 = 0"
  shows "(delay_next d ^^ Suc k) t = t - nanosecond t + (int k + 1) * d"
proof (induction k)
  case 0
  then show ?case by (simp add: delay_next_def)
next
  case (Suc k)
  have "(t - nanosecond t) mod 1000000000 = 0" by (simp add: nanosecond_def mod_eq_0_iff_dvd)
  then have "nanosecond (t - nanosecond t + (int k + 1) * d) = 0"
    using assms unfolding nanosecond_def by (metis mod_add_eq mod_mult_right_eq add_0 mult_zero_right mod_0)
  then have "delay_next d (t - nanosecond t + (int k + 1) * d) = t - nanosecond t + (int (Suc k) + 1) * d"
    by (simp add: delay_next_def algebra_simps)
  then show ?case using Suc by (simp only: funpow.simps comp_apply)
qed

text \<open>The least multiple of \<open>d\<close> above a gap.\<close>

lemma next_multiple:
  fixes gap d :: int
  assumes "0 < d"
  shows "gap < (gap div d + 1) * d" and "(gap div d + 1) * d \<le> gap + d"
proof -
  have "gap = gap div d * d + gap mod d" by simp
  moreover have "0 \<le> gap mod d" "gap mod d < d" using assms by simp_all
  ultimately show "gap < (gap div d + 1) * d" and "(gap div d + 1) * d \<le> gap + d"
    unfolding distrib_right by linarith+
qed

lemma advanceByDelay_closed:
  assumes "0 < d" "d \<le> max_i64" "\<not> anchor + d - nanosecond anchor > now"
  shows "advanceByDelay anchor now d =
    (let first = anchor + d - nanosecond anchor; jump = ((now - first) div d + 1) * d in
     if jump \<le> max_i64 then Some (first + jump) else None)"
proof -
  let ?first = "anchor + d - nanosecond anchor"
  let ?gap = "now - ?first"
  have ns: "0 \<le> nanosecond anchor" "nanosecond anchor < 1000000000"
    by (simp_all add: nanosecond_def)
  have f: "anchor + i64 (d - nanosecond anchor) = ?first"
    using assms ns by (simp add: max_i64_def)
  have gap: "0 \<le> ?gap" using assms(3) by simp
  let ?sub = "time_sub now ?first"
  let ?J = "(?sub div d + 1) * d"
  have sub: "0 \<le> ?sub" "?sub \<le> max_i64" "?sub = (if max_i64 < ?gap then max_i64 else ?gap)"
    using gap by (auto simp: time_sub_def max_i64_def)
  have J: "?sub < ?J" "?J \<le> ?sub + d" using assms(1) by (rule next_multiple)+
  have code: "advanceByDelay anchor now d =
      (if \<not> ?first + i64 ?J > now then None else Some (?first + i64 ?J))"
    using assms(1,3) sub(1) by (simp add: advanceByDelay_def f i64_mult_left Let_def)
  have jump: "?gap < (?gap div d + 1) * d" using assms(1) by (rule next_multiple)
  show ?thesis
  proof (cases "?J \<le> max_i64")
    case True
    then have g: "?sub = ?gap" using J(1) sub(3) by (auto split: if_splits)
    have "i64 ?J = ?J" using True J(1) sub(1) by (intro i64_id) (simp_all add: max_i64_def)
    then show ?thesis using True J(1) unfolding code g by (simp add: Let_def)
  next
    case False
    then have "i64 ?J = ?J - 18446744073709551616"
      using J(2) sub(2) assms(2) by (intro i64_over) (simp_all add: max_i64_def)
    then have "\<not> ?first + i64 ?J > now"
      using J(2) sub(2) assms(2,3) by (simp add: max_i64_def)
    moreover have "\<not> (?gap div d + 1) * d \<le> max_i64"
      using False jump sub(3) by (auto split: if_splits)
    ultimately show ?thesis unfolding code by (simp add: Let_def)
  qed
qed

text \<open>
  The arithmetic shortcut for \<open>@every\<close> schedules is the walk it replaces: when it gives an
  instant, that is an occurrence the library's \<open>Next\<close> reaches from the anchor, it lies after
  now, and every earlier occurrence does not; it gives up only when the walk's answer is more
  than an \<open>int64\<close> of nanoseconds away from the first occurrence.
\<close>

theorem advanceByDelay_is_walk:
  assumes "0 < d" "d \<le> max_i64" "d mod 1000000000 = 0"
  shows "\<exists>k. (delay_next d ^^ Suc k) anchor > now
     \<and> (\<forall>j<k. (delay_next d ^^ Suc j) anchor \<le> now)
     \<and> advanceByDelay anchor now d =
        (if k = 0 \<or> int k * d \<le> max_i64 then Some ((delay_next d ^^ Suc k) anchor) else None)"
proof -
  let ?first = "anchor + d - nanosecond anchor"
  have it: "(delay_next d ^^ Suc j) anchor = ?first + int j * d" for j
    using delay_next_iterate [OF assms(3), of j anchor] by (simp add: algebra_simps)
  have ns: "0 \<le> nanosecond anchor" "nanosecond anchor < 1000000000"
    by (simp_all add: nanosecond_def)
  show ?thesis
  proof (cases "?first > now")
    case True
    have "anchor + i64 (d - nanosecond anchor) = ?first"
      using assms ns by (simp add: max_i64_def)
    with True show ?thesis
      using it [of 0] by (intro exI [of _ 0]) (simp add: advanceByDelay_def)
  next
    case False
    let ?gap = "now - ?first"
    let ?k = "nat (?gap div d + 1)"
    have k: "int ?k = ?gap div d + 1" using False assms(1) by (simp add: pos_imp_zdiv_nonneg_iff)
    then have k0: "?k \<noteq> 0" using False assms(1) pos_imp_zdiv_nonneg_iff [of d ?gap] by auto
    have "?first + int ?k * d > now" using next_multiple(1) [OF assms(1), of ?gap] k by simp
    moreover have "?first + int j * d \<le> now" if "j < ?k" for j
    proof -
      have "int j \<le> ?gap div d" using that k by linarith
      then have "int j * d \<le> ?gap" using le_div_iff [OF assms(1)] by blast
      then show ?thesis by simp
    qed
    moreover have "advanceByDelay anchor now d =
        (if ?k = 0 \<or> int ?k * d \<le> max_i64 then Some (?first + int ?k * d) else None)"
      using advanceByDelay_closed [OF assms(1,2) False] k k0 by (simp add: Let_def del: int_nat_eq)
    ultimately show ?thesis using it by (intro exI [of _ ?k]) simp
  qed
qed

theorem advanceByDelay_is_walk_witness:
  "\<exists>k. (delay_next (10 * Minute) ^^ Suc k) 5 > Hour
     \<and> (delay_next (10 * Minute) ^^ Suc k) 5 = Hour + 10 * Minute"
proof -
  have "advanceByDelay 5 Hour (10 * Minute) = Some (Hour + 10 * Minute)" by code_simp
  then show ?thesis
    using advanceByDelay_is_walk [where d = "10 * Minute" and anchor = 5 and now = Hour]
    by (auto simp: time_units max_i64_def split: if_splits)
qed

section \<open>The calendar walk\<close>

fun iterate_next :: "(instant \<Rightarrow> instant option) \<Rightarrow> nat \<Rightarrow> instant \<Rightarrow> instant option" where
  "iterate_next nxt 0 t = Some t"
| "iterate_next nxt (Suc k) t = (case nxt t of None \<Rightarrow> None | Some t' \<Rightarrow> iterate_next nxt k t')"

text \<open>\<open>x\<close> is the first instant of the schedule's orbit of \<open>t\<close> that lies after \<open>now\<close>, in \<open>k + 1\<close> steps.\<close>

definition first_after :: "(instant \<Rightarrow> instant option) \<Rightarrow> instant \<Rightarrow> instant \<Rightarrow> nat \<Rightarrow> instant \<Rightarrow> bool" where
  "first_after nxt t now k x \<longleftrightarrow> iterate_next nxt (Suc k) t = Some x \<and> now < x
     \<and> (\<forall>j<k. \<exists>y. iterate_next nxt (Suc j) t = Some y \<and> y \<le> now)"

lemma advance_walk_first:
  "advance_walk n nxt t now = Some (Inr x) \<longleftrightarrow> (\<exists>k<n. first_after nxt t now k x)"
proof (induction n arbitrary: t)
  case (Suc n)
  show ?case
  proof (cases "nxt t")
    case None
    then show ?thesis by (simp add: first_after_def)
  next
    case (Some t')
    have step: "first_after nxt t now (Suc k) x \<longleftrightarrow> t' \<le> now \<and> first_after nxt t' now k x" for k
      using Some by (auto simp: first_after_def All_less_Suc2 simp del: iterate_next.simps(2))
        (simp_all add: Some)
    have zero: "first_after nxt t now 0 x \<longleftrightarrow> t' = x \<and> now < x"
      using Some by (simp add: first_after_def)
    have "(\<exists>k<Suc n. first_after nxt t now k x) \<longleftrightarrow>
        first_after nxt t now 0 x \<or> (\<exists>k<n. first_after nxt t now (Suc k) x)"
      by (simp add: Ex_less_Suc2)
    then show ?thesis using Some Suc.IH [of t'] by (auto simp: step zero)
  qed
qed simp

lemma constantDelay_pos: "constantDelay s = Some d \<Longrightarrow> 0 < d"
  by (auto simp: constantDelay_def split: option.splits if_splits)

lemma advanceByDelay_future: "advanceByDelay anchor now d = Some x \<Longrightarrow> now < x"
  by (auto simp: advanceByDelay_def Let_def split: if_splits)

text \<open>
  A rescheduled reminder never fires again at once: for a schedule whose \<open>Next\<close> is strictly
  after its argument, the next occurrence computed from any anchor lies after now. When the
  phase was kept it is, for a calendar schedule, the first occurrence after now counted from
  the anchor, at most 4,320 steps away; when the phase was lost it is the first after now.
\<close>

theorem advanceSchedule_future:
  assumes "\<And>t x. sched_Next s loc t = Some x \<Longrightarrow> t < x"
    and "advanceSchedule s loc anchor now = Inr (x, lost)"
  shows "now < x \<and> (lost \<longrightarrow> sched_Next s loc now = Some x)
    \<and> (\<not> lost \<and> constantDelay s = None \<longrightarrow> (\<exists>k<4320. first_after (sched_Next s loc) anchor now k x))"
proof (cases "constantDelay s")
  case None
  show ?thesis
  proof (cases "advance_walk maxScheduleAdvanceSteps (sched_Next s loc) anchor now")
    case None
    then show ?thesis
      using assms \<open>constantDelay s = None\<close>
      by (auto simp: advanceSchedule_def advanceFromNow_def split: option.splits)
  next
    case (Some r)
    then have r: "r = Inr x" "\<not> lost"
      using assms(2) \<open>constantDelay s = None\<close> by (auto simp: advanceSchedule_def split: sum.splits)
    then have "\<exists>k<4320. first_after (sched_Next s loc) anchor now k x"
      using Some advance_walk_first [of maxScheduleAdvanceSteps "sched_Next s loc" anchor now x]
      by (simp add: maxScheduleAdvanceSteps_def)
    then show ?thesis using r by (auto simp: first_after_def)
  qed
next
  case (Some d)
  then show ?thesis
    using assms
    by (auto simp: advanceSchedule_def advanceFromNow_def dest: advanceByDelay_future split: option.splits)
qed

text \<open>A daily calendar schedule, for the concrete instances.\<close>

definition daily :: schedule where
  "daily = \<lparr>sched_Next = (\<lambda>loc t. Some ((t div day_ns + 1) * day_ns)), sched_Delay = None\<rparr>"

lemma daily_strict: "sched_Next daily loc t = Some x \<Longrightarrow> t < x"
  using next_multiple(1) [of day_ns t] by (auto simp: daily_def day_ns_def)

theorem advanceSchedule_future_witness:
  "advanceSchedule daily UTC 0 (3 * day_ns + 7) = Inr (4 * day_ns, False)
   \<and> 3 * day_ns + 7 < 4 * day_ns
   \<and> (\<exists>k<4320. first_after (sched_Next daily UTC) 0 (3 * day_ns + 7) k (4 * day_ns))"
proof -
  have r: "advanceSchedule daily UTC 0 (3 * day_ns + 7) = Inr (4 * day_ns, False)" by code_simp
  then show ?thesis
    using advanceSchedule_future [OF daily_strict r] by (simp add: constantDelay_def daily_def)
qed

section \<open>The repeat floor\<close>

text \<open>
  For a schedule with a fixed delay the sampled gap is exact: it is accepted if and only if
  its delay is at least twelve hours, or ten minutes in a direct message.
\<close>

theorem ValidateRepeatInterval_fixed:
  assumes "parse_cron spec = Some s" and "\<And>t. sched_Next s UTC t = Some (delay_next d t)"
    and "0 < d" "d \<le> max_i64" "d mod 1000000000 = 0"
  shows "ValidateRepeatInterval parse_cron spec isDM = Inr () \<longleftrightarrow>
    (if isDM then 600000000000 else 43200000000000) \<le> d"
proof -
  have base: "nanosecond intervalSampleBase = 0" by code_simp
  have "delay_next d (delay_next d intervalSampleBase) - delay_next d intervalSampleBase = d"
    using delay_next_iterate [OF assms(5), of 1 intervalSampleBase]
      delay_next_iterate [OF assms(5), of 0 intervalSampleBase] base
    by (simp add: algebra_simps)
  then have "time_sub (delay_next d (delay_next d intervalSampleBase)) (delay_next d intervalSampleBase) = d"
    using assms(3,4) by (simp add: time_sub_def max_i64_def)
  then show ?thesis
    by (simp add: ValidateRepeatInterval_def parseCron_def assms(1,2) minInterval_def MinIntervalDM_def
        MinIntervalPublic_def time_units not_less)
qed

definition every :: "duration \<Rightarrow> schedule" where
  "every d = \<lparr>sched_Next = (\<lambda>loc t. Some (delay_next d t)), sched_Delay = Some d\<rparr>"

theorem ValidateRepeatInterval_fixed_witness:
  "ValidateRepeatInterval (\<lambda>spec. Some (every (15 * Minute))) ''@every 15m'' True = Inr ()
   \<and> ValidateRepeatInterval (\<lambda>spec. Some (every (15 * Minute))) ''@every 15m'' False \<noteq> Inr ()"
  using ValidateRepeatInterval_fixed [of "\<lambda>spec. Some (every (15 * Minute))" "''@every 15m''"
      "every (15 * Minute)" "15 * Minute"]
  by (simp add: every_def time_units max_i64_def)

text \<open>Whatever the schedule, a repeat that a channel accepts is accepted in a direct message.\<close>

lemma ValidateRepeatInterval_DM:
  "ValidateRepeatInterval parse_cron spec False = Inr () \<Longrightarrow>
     ValidateRepeatInterval parse_cron spec True = Inr ()"
  by (cases "parseCron parse_cron spec") (auto simp: ValidateRepeatInterval_def minInterval_def MinIntervalDM_def MinIntervalPublic_def
      time_units Let_def split: option.splits if_splits)

end
