(* ===== verification/ReminderServer.thy ===== *)
theory ReminderServer
  imports ReminderDelivery DestinationStore ReminderSchedule
begin

text \<open>
  The handlers of \<open>pkg/grpc/server/reminder.go\<close> and the cron job of
  \<open>pkg/cron/cronjob/remind.go\<close>, over the tables of \<open>ReminderStore\<close> and \<open>DestinationStore\<close>.
  A handler takes the environment of one call: the caller the clearance interceptor resolved,
  the clock, the values the database generates, the cron library, the zone database, and the
  statements that fail in this call (a failed statement changes nothing). Log lines are left
  out. An id is the canonical text of a uuid.
\<close>

section \<open>Environment and requests\<close>

datatype db_call =
    CallGetReminder | CallGetReminderByRef | CallGetReminderDestination | CallListReminders
  | CallGetOrCreateDestination | CallCreateReminder | CallDeleteReminder | CallUpdateReminder
  | CallAdvance | CallReschedule | CallActionRecord | CallReclaim | CallClaim

record env =
  e_Caller :: "string option"
  e_Now :: instant
  e_Down :: "db_call \<Rightarrow> bool"
  e_ParseCron :: "string \<Rightarrow> schedule option"
  e_LoadLocation :: "string \<Rightarrow> location option"
  e_ILike :: "string \<Rightarrow> string \<Rightarrow> bool"
  e_ErrorText :: "schedule_error \<Rightarrow> string"
  e_NewID :: string
  e_NewInstance :: int
  e_NewDestination :: int

record list_reminders_req =
  lq_Message :: "string option"
  lq_Status :: "int option"
  lq_PeriodStart :: "instant option"
  lq_PeriodEnd :: "instant option"
  lq_Limit :: int
  lq_Offset :: int

record create_reminder_req =
  cq_Datetime :: "instant option"
  cq_Timezone :: "string option"
  cq_Message :: "string option"
  cq_Destination :: "reminder_destination option"
  cq_RepeatCron :: "string option"
  cq_ParentID :: "string option"

record update_reminder_req =
  uq_ID :: "string option"
  uq_Datetime :: "instant option"
  uq_Timezone :: "string option"
  uq_Message :: "string option"
  uq_Destination :: "reminder_destination option"
  uq_RepeatCron :: "string option"

definition maxActiveRemindersPerUser :: int where
  "maxActiveRemindersPerUser = 100"

definition ACTION_REMINDER_CREATED :: int where "ACTION_REMINDER_CREATED = 3"
definition ACTION_REMINDER_DELIVERED :: int where "ACTION_REMINDER_DELIVERED = 4"

definition get_str :: "string option \<Rightarrow> string" where
  "get_str x = (case x of None \<Rightarrow> [] | Some s \<Rightarrow> s)"

section \<open>Shared steps\<close>

definition callerUser :: "env \<Rightarrow> string rpc" where
  "callerUser e = (case e_Caller e of
     None \<Rightarrow> Inl (Internal, ''caller was not resolved'')
   | Some u \<Rightarrow> Inr u)"

definition not_found :: rpc_error where
  "not_found = (NotFound, ''reminder not found'')"

definition resolveReminderID :: "env \<Rightarrow> db \<Rightarrow> string \<Rightarrow> string rpc" where
  "resolveReminderID e s raw =
    (case ParseInt raw of
       None \<Rightarrow> Inr raw
     | Some ref \<Rightarrow>
         if ref \<le> 0 then Inr raw
         else and_then (callerUser e) (\<lambda>caller.
           if e_Down e CallGetReminderByRef then Inl (Internal, ''failed to resolve reminder'')
           else (case GetReminderByRef s caller ref of
               None \<Rightarrow> Inl not_found
             | Some row \<Rightarrow> Inr (r_ID row))))"

definition isDMDestination :: "reminder_destination \<Rightarrow> bool" where
  "isDMDestination destination = (case rd_InstanceMeta destination of
     None \<Rightarrow> True
   | Some imeta \<Rightarrow> (case map_of imeta ''instance_uid'' of None \<Rightarrow> True | Some v \<Rightarrow> v = []))"

definition reminderLocation :: "env \<Rightarrow> string \<Rightarrow> location" where
  "reminderLocation e timezone =
    (if timezone = [] then UTC
     else case e_LoadLocation e timezone of None \<Rightarrow> UTC | Some loc \<Rightarrow> loc)"

definition complete_destination :: "reminder_destination option \<Rightarrow> reminder_destination rpc" where
  "complete_destination d = (case d of
     None \<Rightarrow> Inl (InvalidArgument, ''destination is required'')
   | Some dest \<Rightarrow>
       if rd_PlatformEnum dest = None \<or> rd_InstanceMeta dest = None \<or> rd_DestinationMeta dest = None
       then Inl (InvalidArgument, ''destination is required'')
       else Inr dest)"

definition check_repeat :: "env \<Rightarrow> string \<Rightarrow> reminder_destination \<Rightarrow> unit rpc" where
  "check_repeat e spec dest =
    (case ValidateRepeatInterval (e_ParseCron e) spec (isDMDestination dest) of
       Inl err \<Rightarrow> Inl (InvalidArgument, e_ErrorText e err)
     | Inr u \<Rightarrow> Inr u)"

definition require_id :: "string option \<Rightarrow> string rpc" where
  "require_id rid = (case rid of None \<Rightarrow> Inl (InvalidArgument, ''id is required'') | Some i \<Rightarrow> Inr i)"

section \<open>Reading handlers\<close>

definition ReminderServer_GetReminder :: "env \<Rightarrow> db \<Rightarrow> string option \<Rightarrow> pb_reminder rpc" where
  "ReminderServer_GetReminder e s reqID =
    and_then (callerUser e) (\<lambda>caller.
    and_then (require_id reqID) (\<lambda>raw.
    and_then (resolveReminderID e s raw) (\<lambda>rid.
      if e_Down e CallGetReminder then Inl (Internal, ''failed to get reminder'')
      else (case GetReminder s rid of
          None \<Rightarrow> Inl not_found
        | Some row \<Rightarrow>
            if r_UserID row \<noteq> Some caller then Inl not_found
            else if e_Down e CallGetReminderDestination
              then Inl (Internal, ''failed to resolve reminder destination'')
            else Inr (ToProto row (GetReminderDestination (r_DestinationID row) s))))))"

definition ReminderServer_ListReminders :: "env \<Rightarrow> db \<Rightarrow> list_reminders_req \<Rightarrow> pb_reminder list rpc" where
  "ReminderServer_ListReminders e s req =
    and_then (callerUser e) (\<lambda>caller.
      let f = \<lparr>lf_UserID = caller, lf_Limit = lq_Limit req, lf_Offset = lq_Offset req,
               lf_MessageSearch = get_str (lq_Message req), lf_Status = lq_Status req,
               lf_PeriodStart = lq_PeriodStart req, lf_PeriodEnd = lq_PeriodEnd req\<rparr>
      in if e_Down e CallListReminders then Inl (Internal, ''failed to list reminders'')
         else (case ListRemindersByUser (e_ILike e) s f of
             None \<Rightarrow> Inl (Internal, ''failed to list reminders'')
           | Some rows \<Rightarrow>
               Inr (map (\<lambda>r. ToProto r (GetReminderDestination (r_DestinationID r) s)) rows)))"

section \<open>Writing handlers\<close>

definition record_action :: "env \<Rightarrow> int \<Rightarrow> string \<Rightarrow> db \<Rightarrow> db" where
  "record_action e actionType actor s =
     (if e_Down e CallActionRecord then s else CreateActionRecord actionType actor None s)"

text \<open>The destination row, or the error with which the handler stops.\<close>

definition with_destination ::
  "env \<Rightarrow> reminder_destination \<Rightarrow> db \<Rightarrow> (int \<Rightarrow> db \<Rightarrow> 'b rpc \<times> db) \<Rightarrow> 'b rpc \<times> db" where
  "with_destination e dest s k =
    (if e_Down e CallGetOrCreateDestination then (Inl (Internal, ''failed to resolve destination''), s)
     else let (d, s') = GetOrCreateDestinationByMeta (e_NewInstance e) (e_NewDestination e) dest s
          in k d s')"

definition ReminderServer_CreateReminder ::
  "env \<Rightarrow> create_reminder_req \<Rightarrow> db \<Rightarrow> (string \<times> int) rpc \<times> db" where
  "ReminderServer_CreateReminder e req s =
    checked (callerUser e) (\<lambda>caller.
      case (cq_Datetime req, cq_Timezone req) of
        (Some datetime, Some timezone) \<Rightarrow>
          checked (complete_destination (cq_Destination req)) (\<lambda>dest.
          checked (case cq_RepeatCron req of None \<Rightarrow> Inr () | Some spec \<Rightarrow> check_repeat e spec dest) (\<lambda>_.
          with_destination e dest s (\<lambda>destinationID s1.
            if e_Down e CallCreateReminder then (Inl (Internal, ''failed to create reminder''), s1)
            else (case CreateReminder (e_NewID e)
                \<lparr>cr_Datetime = datetime, cr_Timezone = timezone,
                 cr_RepeatCron = get_str (cq_RepeatCron req), cr_Message = get_str (cq_Message req),
                 cr_ParentID = get_str (cq_ParentID req)\<rparr> caller destinationID
                maxActiveRemindersPerUser s1 of
                (Inl ErrReminderCapReached, s2) \<Rightarrow>
                  (Inl (FailedPrecondition, ''you already have the maximum of 100 active reminders''), s2)
              | (Inr (rid, ref), s2) \<Rightarrow>
                  (Inr (rid, ref), record_action e ACTION_REMINDER_CREATED caller s2)))) s) s
      | _ \<Rightarrow> (Inl (InvalidArgument, ''datetime and timezone are required''), s)) s"

definition ReminderServer_DeleteReminder :: "env \<Rightarrow> string option \<Rightarrow> db \<Rightarrow> unit rpc \<times> db" where
  "ReminderServer_DeleteReminder e reqID s =
    checked (callerUser e) (\<lambda>caller.
    checked (require_id reqID) (\<lambda>raw.
    checked (resolveReminderID e s raw) (\<lambda>rid.
      if e_Down e CallDeleteReminder then (Inl (Internal, ''failed to delete reminder''), s)
      else (case SoftDeleteReminderByUser rid caller s of
          (False, s') \<Rightarrow> (Inl not_found, s')
        | (True, s') \<Rightarrow> (Inr (), s'))) s) s) s"

definition ReminderServer_UpdateReminder :: "env \<Rightarrow> update_reminder_req \<Rightarrow> db \<Rightarrow> unit rpc \<times> db" where
  "ReminderServer_UpdateReminder e req s =
    checked (callerUser e) (\<lambda>caller.
    checked (require_id (uq_ID req)) (\<lambda>raw.
      case (uq_Datetime req, uq_Timezone req) of
        (Some datetime, Some timezone) \<Rightarrow>
          checked (complete_destination (uq_Destination req)) (\<lambda>dest.
          checked (guard_that (datetime > e_Now e) (InvalidArgument, ''datetime must be in the future'')) (\<lambda>_.
          checked (resolveReminderID e s raw) (\<lambda>rid.
          let updateRepeat = (uq_RepeatCron req \<noteq> None); repeatCron = get_str (uq_RepeatCron req) in
          checked (if updateRepeat \<and> repeatCron \<noteq> [] then check_repeat e repeatCron dest else Inr ()) (\<lambda>_.
          with_destination e dest s (\<lambda>destinationID s1.
            if e_Down e CallUpdateReminder then (Inl (Internal, ''failed to update reminder''), s1)
            else (case UpdateReminderByUser
                \<lparr>u_ID = rid, u_UserID = caller, u_Datetime = datetime, u_Timezone = timezone,
                 u_DestinationID = destinationID, u_UpdateMessage = (uq_Message req \<noteq> None),
                 u_Message = get_str (uq_Message req), u_UpdateRepeat = updateRepeat,
                 u_RepeatCron = repeatCron\<rparr> s1 of
                (False, s2) \<Rightarrow> (Inl not_found, s2)
              | (True, s2) \<Rightarrow> (Inr (), s2)))) s) s) s) s
      | _ \<Rightarrow> (Inl (InvalidArgument, ''datetime and timezone are required''), s)) s) s"

text \<open>
  The transition a confirmation asks for: FAILED, DELIVERED, or the next occurrence of a repeat.
  The result is whether a row changed, or the error with which the handler stops.
\<close>

definition advance_or_down :: "env \<Rightarrow> string \<Rightarrow> int \<Rightarrow> db \<Rightarrow> bool rpc \<times> db" where
  "advance_or_down e rid st s =
     (if e_Down e CallAdvance then (Inl (Internal, ''failed to confirm delivery''), s)
      else let (advanced, s') = AdvanceReminderStatusIfSent rid st s in (Inr advanced, s'))"

definition confirm_delivered :: "env \<Rightarrow> string \<Rightarrow> reminder_row \<Rightarrow> db \<Rightarrow> bool rpc \<times> db" where
  "confirm_delivered e rid row s =
    (case r_RepeatCron row of
       None \<Rightarrow> advance_or_down e rid STATUS_DELIVERED s
     | Some spec \<Rightarrow>
         if spec = [] then advance_or_down e rid STATUS_DELIVERED s
         else
           let loc = reminderLocation e (r_Timezone row) in
           (case NextOccurrenceAfter (e_ParseCron e) spec (r_Datetime row) (e_Now e) (Some loc) of
              Inl nextErr \<Rightarrow> advance_or_down e rid STATUS_DELIVERED s
            | Inr (nxt, phaseLost) \<Rightarrow>
                if e_Down e CallReschedule then (Inl (Internal, ''failed to confirm delivery''), s)
                else let (advanced, s') = RescheduleReminderIfSent rid nxt s in (Inr advanced, s')))"

definition ReminderServer_ConfirmDelivery ::
  "env \<Rightarrow> string option \<Rightarrow> bool \<Rightarrow> db \<Rightarrow> unit rpc \<times> db" where
  "ReminderServer_ConfirmDelivery e reqID delivered s =
    checked (callerUser e) (\<lambda>caller.
    checked (require_id reqID) (\<lambda>rid.
      if e_Down e CallGetReminder then (Inl (Internal, ''failed to confirm delivery''), s)
      else (case GetReminder s rid of
          None \<Rightarrow> (Inl not_found, s)
        | Some row \<Rightarrow>
            if r_UserID row \<noteq> Some caller then (Inl not_found, s)
            else if \<not> delivered then
              (case advance_or_down e rid STATUS_FAILED s of
                 (Inl err, s') \<Rightarrow> (Inl err, s')
               | (Inr failed, s') \<Rightarrow> (Inr (), s'))
            else
              (case confirm_delivered e rid row s of
                 (Inl err, s') \<Rightarrow> (Inl err, s')
               | (Inr advanced, s') \<Rightarrow>
                   if \<not> advanced then (Inr (), s')
                   else (Inr (), record_action e ACTION_REMINDER_DELIVERED caller s')))) s) s"

section \<open>The cron job\<close>

text \<open>What is pushed over the reverse stream for one claimed reminder.\<close>

record reminder_delivery =
  dv_Platform :: int
  dv_ReminderID :: string
  dv_Message :: string
  dv_DestinationUID :: string
  dv_OwnerUID :: string

definition deref :: "string option \<Rightarrow> string" where
  "deref s = (case s of None \<Rightarrow> [] | Some x \<Rightarrow> x)"

definition delivery_of :: "claimed_reminder \<Rightarrow> reminder_delivery" where
  "delivery_of c = \<lparr>dv_Platform = c_Platform c, dv_ReminderID = c_ID c, dv_Message = deref (c_Message c),
     dv_DestinationUID = deref (c_DestinationUID c), dv_OwnerUID = deref (c_OwnerPlatformUID c)\<rparr>"

definition remind :: "(db_call \<Rightarrow> bool) \<Rightarrow> instant \<Rightarrow> db \<Rightarrow> reminder_delivery list \<times> db" where
  "remind down now s =
    (let s1 = (if down CallReclaim then s else snd (ReclaimStaleReminders now s)) in
     if down CallClaim then ([], s1)
     else let (claimed, s2) = ClaimDueReminders now s1 in (map delivery_of claimed, s2))"

section \<open>One entry point\<close>

datatype reminder_call =
    GetCall "string option"
  | ListCall list_reminders_req
  | CreateCall create_reminder_req
  | DeleteCall "string option"
  | UpdateCall update_reminder_req
  | ConfirmCall "string option" bool

datatype reminder_resp =
    RespReminder "pb_reminder rpc"
  | RespList "pb_reminder list rpc"
  | RespCreated "(string \<times> int) rpc"
  | RespDone "unit rpc"

fun handle :: "env \<Rightarrow> reminder_call \<Rightarrow> db \<Rightarrow> reminder_resp \<times> db" where
  "handle e (GetCall i) s = (RespReminder (ReminderServer_GetReminder e s i), s)"
| "handle e (ListCall q) s = (RespList (ReminderServer_ListReminders e s q), s)"
| "handle e (CreateCall q) s = map_prod RespCreated id (ReminderServer_CreateReminder e q s)"
| "handle e (DeleteCall i) s = map_prod RespDone id (ReminderServer_DeleteReminder e i s)"
| "handle e (UpdateCall q) s = map_prod RespDone id (ReminderServer_UpdateReminder e q s)"
| "handle e (ConfirmCall i d) s = map_prod RespDone id (ReminderServer_ConfirmDelivery e i d s)"

section \<open>A caller's world\<close>

definition mine :: "string \<Rightarrow> reminder_row \<Rightarrow> bool" where
  "mine u r \<longleftrightarrow> r_UserID r = Some u"

definition own :: "string \<Rightarrow> db \<Rightarrow> db" where
  "own u s = s\<lparr>reminders := filter (mine u) (reminders s)\<rparr>"

definition others :: "string \<Rightarrow> db \<Rightarrow> reminder_row list" where
  "others u s = filter (\<lambda>r. \<not> mine u r) (reminders s)"

definition ids_ok :: "db \<Rightarrow> bool" where
  "ids_ok s \<longleftrightarrow> distinct (map r_ID (reminders s))"

lemma own_tables [simp]:
  "instances (own u s) = instances s" "destinations (own u s) = destinations s"
  "platform_users (own u s) = platform_users s" "action_records (own u s) = action_records s"
  "reminders (own u s) = filter (mine u) (reminders s)"
  by (simp_all add: own_def)

lemma find_filter_implied: "(\<And>x. P x \<Longrightarrow> Q x) \<Longrightarrow> find P (filter Q xs) = find P xs"
  by (induction xs) auto

lemma find_filter_key:
  "distinct (map k xs) \<Longrightarrow> (\<And>x. P x \<Longrightarrow> k x = v) \<Longrightarrow> find P (filter Q xs)
     = (case find P xs of None \<Rightarrow> None | Some x \<Rightarrow> if Q x then Some x else None)"
proof (induction xs)
  case (Cons a xs)
  show ?case
  proof (cases "P a")
    case True
    with Cons.prems have "\<forall>x \<in> set xs. \<not> P x" by (auto simp: image_iff)
    then have "find P (filter Q xs) = None" by (simp add: find_None_iff)
    with True show ?thesis by simp
  qed (use Cons in simp)
qed simp

lemma own_GetReminder:
  "ids_ok s \<Longrightarrow> GetReminder (own u s) rid
     = (case GetReminder s rid of None \<Rightarrow> None | Some r \<Rightarrow> if r_UserID r = Some u then Some r else None)"
  unfolding GetReminder_def ids_ok_def own_tables mine_def
  by (rule find_filter_key [where k = r_ID and v = rid]) auto

lemma own_GetReminderByRef [simp]: "GetReminderByRef (own u s) u ref = GetReminderByRef s u ref"
  unfolding GetReminderByRef_def own_tables by (rule find_filter_implied) (simp add: mine_def)

lemma own_GetReminderDestination [simp]:
  "GetReminderDestination d (own u s) = GetReminderDestination d s"
  by (simp add: GetReminderDestination_def cong: option.case_cong)

lemma own_ListRemindersByUser:
  "lf_UserID f = u \<Longrightarrow> ListRemindersByUser ilike (own u s) f = ListRemindersByUser ilike s f"
  by (auto simp: ListRemindersByUser_def has_destination_def listed_def mine_def conj_ac
      intro!: arg_cong [of _ _ "take _"] arg_cong [of _ _ "drop _"] arg_cong [of _ _ "sort_key _"] filter_cong)

lemma own_CreateReminder:
  "CreateReminder i req u d cap (own u s) = map_prod id (own u) (CreateReminder i req u d cap s)"
proof -
  have "CountActiveReminders (own u s) u = CountActiveReminders s u"
    by (auto simp: CountActiveReminders_def active_def mine_def intro!: arg_cong [of _ _ length] filter_cong)
  moreover have "next_ref (own u s) u = next_ref s u"
    by (simp add: next_ref_def mine_def)
  ultimately show ?thesis
    by (simp add: CreateReminder_def Let_def own_def mine_def)
qed

lemma others_CreateReminder [simp]: "others u (snd (CreateReminder i req u d cap s)) = others u s"
  by (simp add: CreateReminder_def Let_def others_def mine_def)

lemma filter_update:
  "(\<And>r. r_UserID (f r) = r_UserID r) \<Longrightarrow>
     filter (mine u) (map (\<lambda>r. if c r then f r else r) rs)
       = map (\<lambda>r. if c r then f r else r) (filter (mine u) rs)"
  by (induction rs) (auto simp: mine_def)

lemma filter_update_others:
  "(\<And>r. r_UserID (f r) = r_UserID r) \<Longrightarrow> \<forall>r \<in> set rs. c r \<longrightarrow> mine u r \<Longrightarrow>
     filter (\<lambda>r. \<not> mine u r) (map (\<lambda>r. if c r then f r else r) rs) = filter (\<lambda>r. \<not> mine u r) rs"
  by (induction rs) (auto simp: mine_def)

lemma own_update_where:
  "(\<And>r. r_UserID (f r) = r_UserID r) \<Longrightarrow> update_where c f (own u s) = own u (update_where c f s)"
  by (simp add: update_where_def own_def filter_update)

lemma others_update_where:
  "(\<And>r. r_UserID (f r) = r_UserID r) \<Longrightarrow> \<forall>r \<in> set (reminders s). c r \<longrightarrow> mine u r \<Longrightarrow>
     others u (update_where c f s) = others u s"
  by (simp add: update_where_def others_def filter_update_others)

lemma affected_own: "\<forall>r \<in> set (reminders s). c r \<longrightarrow> mine u r \<Longrightarrow> affected c (own u s) = affected c s"
  by (auto simp: affected_def)

text \<open>The caller's row is the only one with its id.\<close>

lemma sent_is_mine:
  assumes "ids_ok s" and "GetReminder s rid = Some row" and "r_UserID row = Some u"
  shows "\<forall>r \<in> set (reminders s). sent_with_id rid r \<longrightarrow> mine u r"
proof -
  from assms(2) have "row \<in> set (reminders s)" "r_ID row = rid"
    unfolding GetReminder_def by (auto dest: find_SomeD)
  then have "\<And>r. r \<in> set (reminders s) \<Longrightarrow> r_ID r = rid \<Longrightarrow> r = row"
    using assms(1) by (auto simp: ids_ok_def distinct_map inj_on_def)
  then show ?thesis using assms(3) by (auto simp: sent_with_id_def mine_def)
qed

lemma owned_is_mine: "\<forall>r \<in> set (reminders s). owned_live rid u r \<longrightarrow> mine u r"
  by (simp add: owned_live_def mine_def)

text \<open>One step of a caller on the whole table and on the caller's rows.\<close>

definition confined :: "string \<Rightarrow> (db \<Rightarrow> 'r \<times> db) \<Rightarrow> db \<Rightarrow> bool" where
  "confined u f s \<longleftrightarrow> f (own u s) = map_prod id (own u) (f s) \<and> others u (snd (f s)) = others u s"

lemma confined_update:
  assumes "\<And>r. r_UserID (g r) = r_UserID r" and "\<forall>r \<in> set (reminders s). c r \<longrightarrow> mine u r"
  shows "confined u (\<lambda>s. (affected c s, update_where c g s)) s"
  using assms by (simp add: confined_def own_update_where others_update_where affected_own)

lemma confined_delete: "confined u (SoftDeleteReminderByUser rid u) s"
  unfolding SoftDeleteReminderByUser_def by (rule confined_update) (simp_all add: owned_is_mine)

lemma confined_edit: "u_UserID q = u \<Longrightarrow> confined u (UpdateReminderByUser q) s"
  unfolding UpdateReminderByUser_def
  by (rule confined_update) (simp_all add: owned_is_mine edit_row_def)

lemma confined_create: "confined u (CreateReminder i req u d cap) s"
  by (simp add: confined_def own_CreateReminder)

lemma confined_advance:
  assumes "ids_ok s" and "GetReminder s rid = Some row" and "r_UserID row = Some u"
  shows "confined u (AdvanceReminderStatusIfSent rid st) s"
  unfolding AdvanceReminderStatusIfSent_def
  by (rule confined_update) (simp_all add: sent_is_mine [OF assms])

lemma confined_reschedule:
  assumes "ids_ok s" and "GetReminder s rid = Some row" and "r_UserID row = Some u"
  shows "confined u (RescheduleReminderIfSent rid t) s"
  unfolding RescheduleReminderIfSent_def
  by (rule confined_update) (simp_all add: sent_is_mine [OF assms])

text \<open>How confinement goes through the handlers' control flow.\<close>

lemma confined_return: "confined u (\<lambda>s. (r, s)) s"
  by (simp add: confined_def)

lemma confined_checked:
  assumes "r (own u s) = r s" and "\<And>x. r s = Inr x \<Longrightarrow> confined u (f x) s"
  shows "confined u (\<lambda>s. checked (r s) (\<lambda>x. f x s) s) s"
  using assms by (cases "r s") (auto simp: confined_def)

lemma confined_then:
  assumes "confined u f s" and "\<And>r. confined u (g r) (snd (f s))"
  shows "confined u (\<lambda>s. case f s of (r, s') \<Rightarrow> g r s') s"
  using assms by (cases "f s") (auto simp: confined_def)

lemma confined_if: "(b \<Longrightarrow> confined u f s) \<Longrightarrow> (\<not> b \<Longrightarrow> confined u g s) \<Longrightarrow>
    confined u (\<lambda>s. if b then f s else g s) s"
  by (cases b) auto

lemma confined_option:
  "(b = None \<Longrightarrow> confined u f s) \<Longrightarrow> (\<And>x. b = Some x \<Longrightarrow> confined u (g x) s) \<Longrightarrow>
    confined u (\<lambda>s. case b of None \<Rightarrow> f s | Some x \<Rightarrow> g x s) s"
  by (cases b) auto

lemma confined_sum:
  "(\<And>x. b = Inl x \<Longrightarrow> confined u (f x) s) \<Longrightarrow> (\<And>x. b = Inr x \<Longrightarrow> confined u (g x) s) \<Longrightarrow>
    confined u (\<lambda>s. case b of Inl x \<Rightarrow> f x s | Inr x \<Rightarrow> g x s) s"
  by (cases b) auto

lemma confined_pair:
  "(\<And>x y. b = (x, y) \<Longrightarrow> confined u (f x y) s) \<Longrightarrow> confined u (\<lambda>s. case b of (x, y) \<Rightarrow> f x y s) s"
  by (cases b) auto

lemma confined_bool:
  "confined u f s \<Longrightarrow> confined u g s \<Longrightarrow> confined u (\<lambda>s. case b of True \<Rightarrow> f s | False \<Rightarrow> g s) s"
  by (cases b) auto

lemma confined_cap:
  "confined u f s \<Longrightarrow> confined u (\<lambda>s. case b of ErrReminderCapReached \<Rightarrow> f s) s"
  by (cases b) auto

lemma confined_record: "confined u (\<lambda>s. (r, record_action e a actor s)) s"
  by (simp add: confined_def record_action_def CreateActionRecord_def own_def others_def)

lemma own_resolve: "e_Caller e = Some u \<Longrightarrow> resolveReminderID e (own u s) raw = resolveReminderID e s raw"
  by (simp add: resolveReminderID_def callerUser_def split: option.split)

lemma confined_GetOrCreate: "confined u (GetOrCreateDestinationByMeta a b dest) s"
  unfolding GetOrCreateDestinationByMeta_def Let_def
proof (rule confined_then)
  show "confined u (upsert_instance a p m) s" for p m
    by (simp add: confined_def upsert_instance_def find_instance_def own_def others_def split: option.split)
  show "confined u (upsert_destination b r m) s" for r m s
    by (simp add: confined_def upsert_destination_def find_destination_def own_def others_def split: option.split)
qed

lemma confined_with_destination:
  assumes "\<And>d s. confined u (k d) s"
  shows "confined u (\<lambda>s. with_destination e dest s k) s"
  unfolding with_destination_def Let_def
  by (rule confined_if, rule confined_return, rule confined_then [OF confined_GetOrCreate]) (rule assms)

lemmas confined_rules = confined_checked confined_if confined_return confined_record
  confined_with_destination confined_option confined_sum confined_bool confined_cap confined_pair

lemma callerUser_Some: "e_Caller e = Some u \<Longrightarrow> callerUser e = Inr u"
  by (simp add: callerUser_def)

lemma confined_DeleteReminder:
  assumes "e_Caller e = Some u"
  shows "confined u (ReminderServer_DeleteReminder e i) s"
  unfolding ReminderServer_DeleteReminder_def callerUser_Some [OF assms] checked_simps
  by (intro confined_rules confined_then [OF confined_delete] own_resolve assms refl)

lemma confined_CreateReminder:
  assumes "e_Caller e = Some u"
  shows "confined u (ReminderServer_CreateReminder e q) s"
  unfolding ReminderServer_CreateReminder_def callerUser_Some [OF assms] checked_simps prod.case
  by (intro confined_rules confined_then [OF confined_create] refl)

lemma confined_UpdateReminder:
  assumes "e_Caller e = Some u"
  shows "confined u (ReminderServer_UpdateReminder e q) s"
  unfolding ReminderServer_UpdateReminder_def callerUser_Some [OF assms] checked_simps prod.case Let_def
  by (intro confined_rules confined_then [OF confined_edit] own_resolve assms refl) simp

lemma confined_advance_or_down:
  assumes "ids_ok s" and "GetReminder s rid = Some row" and "r_UserID row = Some u"
  shows "confined u (advance_or_down e rid st) s"
  unfolding advance_or_down_def Let_def
  by (intro confined_if confined_return confined_then [OF confined_advance [OF assms]])

lemma confined_confirm_delivered:
  assumes "ids_ok s" and "GetReminder s rid = Some row" and "r_UserID row = Some u"
  shows "confined u (confirm_delivered e rid row) s"
proof -
  note adv = confined_advance_or_down [OF assms]
  have res: "confined u (\<lambda>s. if e_Down e CallReschedule
        then (Inl (Internal, ''failed to confirm delivery''), s)
        else let (advanced, s') = RescheduleReminderIfSent rid t s in (Inr advanced, s')) s" for t
    unfolding Let_def
    by (intro confined_if confined_return confined_then [OF confined_reschedule [OF assms]])
  show ?thesis
    unfolding confirm_delivered_def Let_def
    by (intro confined_rules adv res [unfolded Let_def])
qed

lemma confined_ConfirmDelivery:
  assumes "e_Caller e = Some u" and ok: "ids_ok s"
  shows "confined u (ReminderServer_ConfirmDelivery e i d) s"
proof (cases "i")
  case None
  then show ?thesis
    by (simp add: ReminderServer_ConfirmDelivery_def callerUser_Some [OF assms(1)] require_id_def
        confined_def)
next
  case (Some rid)
  note start = ReminderServer_ConfirmDelivery_def callerUser_Some [OF assms(1)] checked_simps Some
    require_id_def option.case
  show ?thesis
  proof (cases "e_Down e CallGetReminder \<or> GetReminder s rid = None
      \<or> r_UserID (the (GetReminder s rid)) \<noteq> Some u")
    case True
    then show ?thesis
      by (auto simp: start confined_def own_GetReminder [OF ok] split: option.split)
  next
    case False
    then obtain row where row: "GetReminder s rid = Some row" "r_UserID row = Some u" by auto
    have own_row: "GetReminder (own u s) rid = Some row"
      using row own_GetReminder [OF ok, of u rid] by simp
    let ?body = "\<lambda>s. if \<not> d then (case advance_or_down e rid STATUS_FAILED s of
          (Inl err, s') \<Rightarrow> (Inl err, s') | (Inr failed, s') \<Rightarrow> (Inr (), s'))
        else (case confirm_delivered e rid row s of
          (Inl err, s') \<Rightarrow> (Inl err, s')
        | (Inr advanced, s') \<Rightarrow> if \<not> advanced then (Inr (), s')
            else (Inr (), record_action e ACTION_REMINDER_DELIVERED u s'))"
    have "confined u ?body s"
      by (intro confined_rules confined_then [OF confined_advance_or_down [OF ok row]]
          confined_then [OF confined_confirm_delivered [OF ok row]])
    then show ?thesis
      using False row own_row by (simp add: confined_def start)
  qed
qed

lemma own_reads:
  assumes "e_Caller e = Some u" and "ids_ok s"
  shows "ReminderServer_GetReminder e (own u s) i = ReminderServer_GetReminder e s i"
    and "ReminderServer_ListReminders e (own u s) q = ReminderServer_ListReminders e s q"
proof -
  show "ReminderServer_GetReminder e (own u s) i = ReminderServer_GetReminder e s i"
    unfolding ReminderServer_GetReminder_def callerUser_Some [OF assms(1)] and_then_simps
      own_resolve [OF assms(1)] own_GetReminder [OF assms(2)] own_GetReminderDestination
    by (intro arg_cong2 [of _ _ _ _ and_then] refl ext) (auto split: option.split)
  show "ReminderServer_ListReminders e (own u s) q = ReminderServer_ListReminders e s q"
    by (simp add: ReminderServer_ListReminders_def callerUser_Some [OF assms(1)] Let_def
        own_ListRemindersByUser split: option.split)
qed


definition demo_env :: "string \<Rightarrow> env" where
  "demo_env u = \<lparr>e_Caller = Some u, e_Now = 2000, e_Down = (\<lambda>_. False), e_ParseCron = (\<lambda>_. None),
     e_LoadLocation = (\<lambda>_. None), e_ILike = (\<lambda>_ _. True), e_ErrorText = (\<lambda>_. []), e_NewID = ''x'',
     e_NewInstance = 7, e_NewDestination = 9\<rparr>"

definition demo_sent :: db where
  "demo_sent = apply_op (OpClaim 2000) (apply_op (OpCreate ''b'' demo_req ''v'' 1 100)
     (apply_op (OpCreate ''a'' demo_req ''u'' 1 100) demo_db))"


section \<open>Retried confirmations\<close>

definition unsent :: "string \<Rightarrow> db \<Rightarrow> bool" where
  "unsent rid s \<longleftrightarrow> \<not> affected (sent_with_id rid) s"

lemma update_where_none: "\<not> affected c s \<Longrightarrow> update_where c f s = s"
proof -
  assume "\<not> affected c s"
  then have "map (\<lambda>r. if c r then f r else r) (reminders s) = reminders s"
    by (intro map_idI) (auto simp: affected_def)
  then show ?thesis by (simp add: update_where_def)
qed

lemma GetReminder_update_where:
  assumes "\<And>r. r_ID (f r) = r_ID r \<and> r_Deleted (f r) = r_Deleted r"
  shows "GetReminder (update_where c f s) rid = map_option (\<lambda>r. if c r then f r else r) (GetReminder s rid)"
proof -
  have "(\<lambda>x. r_ID (if c x then f x else x) = rid \<and> \<not> r_Deleted (if c x then f x else x))
      = (\<lambda>x. r_ID x = rid \<and> \<not> r_Deleted x)"
    using assms by (simp add: fun_eq_iff)
  then show ?thesis by (simp add: GetReminder_def update_where_def find_map)
qed

lemma unsent_update_where:
  "(\<And>r. r_ID (f r) = r_ID r \<and> r_Status (f r) \<noteq> STATUS_SENT) \<Longrightarrow>
     unsent rid (update_where (sent_with_id rid) f s)"
  by (auto simp: unsent_def affected_def update_where_def sent_with_id_def)

lemma record_action_rows [simp]:
  "GetReminder (record_action e a actor s) rid = GetReminder s rid"
  "unsent rid (record_action e a actor s) = unsent rid s"
  by (simp_all add: record_action_def CreateActionRecord_def GetReminder_def unsent_def affected_def)

text \<open>What a transition that went through leaves behind.\<close>

definition settled :: "string \<Rightarrow> string option \<Rightarrow> db \<Rightarrow> bool" where
  "settled rid owner s \<longleftrightarrow> unsent rid s \<and> map_option r_UserID (GetReminder s rid) = Some owner"

lemma advance_settles:
  assumes "advance_or_down e rid st s = (Inr b, s')" and "GetReminder s rid = Some row"
    and "st \<noteq> STATUS_SENT"
  shows "settled rid (r_UserID row) s'"
  using assms
  by (auto simp: advance_or_down_def AdvanceReminderStatusIfSent_def settled_def
      GetReminder_update_where intro!: unsent_update_where split: if_splits)

lemma reschedule_settles:
  assumes "RescheduleReminderIfSent rid t s = (b, s')" and "GetReminder s rid = Some row"
  shows "settled rid (r_UserID row) s'"
  using assms
  by (auto simp: RescheduleReminderIfSent_def settled_def GetReminder_update_where status_defs
      intro!: unsent_update_where)

lemma delivered_settles:
  assumes "confirm_delivered e rid row s = (Inr b, s')" and "GetReminder s rid = Some row"
  shows "settled rid (r_UserID row) s'"
proof -
  have st: "STATUS_DELIVERED \<noteq> STATUS_SENT" by (simp add: status_defs)
  from assms show ?thesis
    by (auto simp: confirm_delivered_def Let_def dest: advance_settles [OF _ _ st] reschedule_settles
        split: option.splits sum.splits prod.splits if_splits)
qed

lemma confirm_settles:
  assumes "ReminderServer_ConfirmDelivery e (Some rid) d s = (Inr (), s')"
  shows "\<exists>u. e_Caller e = Some u \<and> settled rid (Some u) s'"
proof -
  have st: "STATUS_FAILED \<noteq> STATUS_SENT" by (simp add: status_defs)
  obtain u where u: "e_Caller e = Some u"
    using assms by (cases "e_Caller e") (auto simp: ReminderServer_ConfirmDelivery_def callerUser_def)
  obtain row where row: "GetReminder s rid = Some row" "r_UserID row = Some u"
    using assms by (auto simp: ReminderServer_ConfirmDelivery_def callerUser_Some [OF u] require_id_def
        split: if_splits option.splits)
  have "settled rid (r_UserID row) s'"
    using assms row
    by (auto simp: ReminderServer_ConfirmDelivery_def callerUser_Some [OF u] require_id_def settled_def
        dest!: advance_settles [OF _ row(1) st] delivered_settles
        split: if_splits sum.splits prod.splits)
  with u row show ?thesis by simp
qed

lemma settled_confirm:
  assumes "settled rid (Some u) s" and "e_Caller e = Some u" and "\<forall>c. \<not> e_Down e c"
  shows "ReminderServer_ConfirmDelivery e (Some rid) d s = (Inr (), s)"
proof -
  obtain row where row: "GetReminder s rid = Some row" "r_UserID row = Some u"
    using assms(1) by (auto simp: settled_def)
  have none: "\<not> affected (sent_with_id rid) s" using assms(1) by (simp add: settled_def unsent_def)
  have adv: "advance_or_down e rid st s = (Inr False, s)" for st
    using assms(3) none by (simp add: advance_or_down_def AdvanceReminderStatusIfSent_def update_where_none)
  have "confirm_delivered e rid row s = (Inr False, s)"
    using assms(3) none adv
    by (auto simp: confirm_delivered_def RescheduleReminderIfSent_def update_where_none Let_def
        split: option.split sum.split prod.split)
  with adv row assms(3) show ?thesis
    by (simp add: ReminderServer_ConfirmDelivery_def callerUser_Some [OF assms(2)] require_id_def)
qed

text \<open>
  Confirmations may be retried: once a confirmation has succeeded, confirming again, with
  either outcome and at any later time, succeeds and changes nothing: the status, the repeat's
  next time and the analytics rows stay as the first one left them.
\<close>

theorem ConfirmDelivery_retry:
  assumes "ReminderServer_ConfirmDelivery e (Some rid) d s = (Inr (), s')"
    and "e_Caller e' = e_Caller e" and "\<forall>c. \<not> e_Down e' c"
  shows "ReminderServer_ConfirmDelivery e' (Some rid) d' s' = (Inr (), s')"
  using confirm_settles [OF assms(1)] settled_confirm assms(2,3) by force

theorem ConfirmDelivery_retry_witness:
  "ReminderServer_ConfirmDelivery (demo_env ''u'') (Some ''a'') False
      (snd (ReminderServer_ConfirmDelivery (demo_env ''u'') (Some ''a'') True demo_sent))
     = (Inr (), snd (ReminderServer_ConfirmDelivery (demo_env ''u'') (Some ''a'') True demo_sent))
   \<and> action_records (snd (ReminderServer_ConfirmDelivery (demo_env ''u'') (Some ''a'') True demo_sent))
     = [(ACTION_REMINDER_DELIVERED, Some ''u'', None)]"
proof
  have "fst (ReminderServer_ConfirmDelivery (demo_env ''u'') (Some ''a'') True demo_sent) = Inr ()"
    by code_simp
  then have "ReminderServer_ConfirmDelivery (demo_env ''u'') (Some ''a'') True demo_sent
      = (Inr (), snd (ReminderServer_ConfirmDelivery (demo_env ''u'') (Some ''a'') True demo_sent))"
    by (metis prod.collapse)
  from ConfirmDelivery_retry [OF this, of "demo_env ''u''" False]
  show "ReminderServer_ConfirmDelivery (demo_env ''u'') (Some ''a'') False
      (snd (ReminderServer_ConfirmDelivery (demo_env ''u'') (Some ''a'') True demo_sent))
     = (Inr (), snd (ReminderServer_ConfirmDelivery (demo_env ''u'') (Some ''a'') True demo_sent))"
    by (simp add: demo_env_def)
qed code_simp

section \<open>The cron job's ticks are runs of the store\<close>

definition tick_ops :: "(db_call \<Rightarrow> bool) \<Rightarrow> instant \<Rightarrow> store_op list" where
  "tick_ops down now = (if down CallReclaim then [] else [OpReclaim now])
     @ (if down CallClaim then [] else [OpClaim now])"

lemma remind_ops: "snd (remind down now s) = foldl (\<lambda>s op. apply_op op s) s (tick_ops down now)"
  by (simp add: remind_def tick_ops_def Let_def split_beta)

lemma remind_deliveries:
  "rid \<in> dv_ReminderID ` set (fst (remind down now s)) \<longleftrightarrow> deliveries rid s (tick_ops down now) \<noteq> []"
proof -
  have "dv_ReminderID ` set (map delivery_of cs) = c_ID ` set cs" for cs
    by (simp add: delivery_of_def image_image)
  then show ?thesis by (simp add: remind_def tick_ops_def Let_def split_beta)
qed

lemma claimed_is_output:
  assumes "r \<in> set (reminders s)" and "due now r" and "has_destination s r"
  shows "r_ID r \<in> c_ID ` set (fst (ClaimDueReminders now s))"
proof -
  from assms(3) obtain d i where d: "d \<in> set (destinations s)" "d_ID d = r_DestinationID r"
    and i: "i \<in> set (instances s)" "i_ID i = d_InstanceID d"
    by (auto simp: has_destination_def)
  have "owner_uids s r (i_Platform i) \<noteq> []" by (simp add: owner_uids_def Let_def)
  then obtain ou where "ou \<in> set (owner_uids s r (i_Platform i))" by (cases "owner_uids s r (i_Platform i)") auto
  with d i have "\<exists>c \<in> set (claim_output s r). c_ID c = r_ID r"
    by (fastforce simp: claim_output_def)
  then obtain c where "c \<in> set (claim_output s r)" "c_ID c = r_ID r" by blast
  moreover from this(1) assms(1,2) have "c \<in> set (fst (ClaimDueReminders now s))"
    by (auto simp: ClaimDueReminders_def)
  ultimately show ?thesis by (metis imageI)
qed

text \<open>
  C14: No due reminder is lost: a tick whose statements go through pushes every reminder that is
  due and either still pending or stuck in SENT for two minutes with attempts left (a lost
  client, a lost confirmation, a crash between claim and push).
\<close>

theorem remind_hands_out:
  assumes "r \<in> set (reminders s)" and "has_destination s r" and "\<not> r_Deleted r"
    and "r_Datetime r \<le> now" and "\<not> down CallReclaim" and "\<not> down CallClaim"
    and "r_Status r = STATUS_PENDING
      \<or> r_Status r = STATUS_SENT \<and> r_DeliveryAttempts r < 5
         \<and> (\<exists>t. r_ClaimedAt r = Some t \<and> t + 120000000000 \<le> now)"
  shows "r_ID r \<in> dv_ReminderID ` set (fst (remind down now s))"
proof -
  let ?s1 = "snd (ReclaimStaleReminders now s)"
  let ?r1 = "if stale (now + - staleClaimGrace) r then reclaim_row r else r"
  have r1: "?r1 \<in> set (reminders ?s1)"
    using assms(1) by (auto simp: ReclaimStaleReminders_def Let_def update_where_def)
  have id: "r_ID ?r1 = r_ID r" "r_DestinationID ?r1 = r_DestinationID r" by (simp_all add: reclaim_row_def)
  have "due now ?r1"
    using assms(3,4,7) by (auto simp: due_def stale_def reclaim_row_def status_defs store_consts)
  moreover have "has_destination ?s1 ?r1"
    using assms(2) id by (simp add: has_destination_def ReclaimStaleReminders_def Let_def update_where_def)
  ultimately have "r_ID ?r1 \<in> c_ID ` set (fst (ClaimDueReminders now ?s1))"
    by (rule claimed_is_output [OF r1])
  moreover have "dv_ReminderID ` set (map delivery_of cs) = c_ID ` set cs" for cs
    by (simp add: delivery_of_def image_image)
  ultimately show ?thesis
    using assms(5,6) id by (simp add: remind_def Let_def split_beta)
qed

theorem remind_hands_out_witness:
  "r_ID (reminders demo_sent ! 0) \<in> dv_ReminderID ` set (fst (remind (\<lambda>_. False) 120000002000 demo_sent))
   \<and> fst (remind (\<lambda>_. False) 120000001999 demo_sent) = []"
proof
  show "r_ID (reminders demo_sent ! 0) \<in> dv_ReminderID ` set (fst (remind (\<lambda>_. False) 120000002000 demo_sent))"
  proof (rule remind_hands_out)
    show "reminders demo_sent ! 0 \<in> set (reminders demo_sent)" by (rule nth_mem) code_simp
    show "has_destination demo_sent (reminders demo_sent ! 0)" by code_simp
    show "\<not> r_Deleted (reminders demo_sent ! 0)" by code_simp
    show "r_Datetime (reminders demo_sent ! 0) \<le> 120000002000" by code_simp
    have "r_Status (reminders demo_sent ! 0) = STATUS_SENT" by code_simp
    moreover have "r_DeliveryAttempts (reminders demo_sent ! 0) < 5" by code_simp
    moreover have "r_ClaimedAt (reminders demo_sent ! 0) = Some 2000" by code_simp
    ultimately show "r_Status (reminders demo_sent ! 0) = STATUS_PENDING
      \<or> r_Status (reminders demo_sent ! 0) = STATUS_SENT \<and> r_DeliveryAttempts (reminders demo_sent ! 0) < 5
         \<and> (\<exists>t. r_ClaimedAt (reminders demo_sent ! 0) = Some t \<and> t + 120000000000 \<le> 120000002000)"
      by simp
  qed simp_all
qed code_simp

section \<open>The cap bounds creation only\<close>

text \<open>
  Editing re-arms any live reminder of the caller to PENDING, a delivered or failed one too,
  and does not count: with the maximum of active reminders an edit makes one more.
\<close>

lemma UpdateReminderByUser_passes_cap:
  assumes "reminders s = xs @ [r]" and "owned_live (u_ID q) (u_UserID q) r"
    and "r_Status r \<noteq> STATUS_PENDING" and "\<forall>x \<in> set xs. r_ID x \<noteq> u_ID q"
  shows "CountActiveReminders (snd (UpdateReminderByUser q s)) (u_UserID q)
    = CountActiveReminders s (u_UserID q) + 1"
proof -
  have "map (\<lambda>x. if owned_live (u_ID q) (u_UserID q) x then edit_row q x else x) xs = xs"
    using assms(4) by (intro map_idI) (auto simp: owned_live_def)
  then show ?thesis
    using assms(1-3)
    by (simp add: UpdateReminderByUser_def update_where_def CountActiveReminders_def active_def
        owned_live_def edit_row_def)
qed

end
