(* ===== verification/DiscordNotify.thy ===== *)
theory DiscordNotify
  imports DiscordRespond RpcClient ReminderServer
begin

text \<open>
  What the Discord client does with the actions the server pushes (\<open>pkg/discord/actions.go\<close>): a
  reminder is posted to its channel or, failing that, as a direct message, and the outcome is
  confirmed to the server. The state is the Discord session with the server behind the RPC
  clients; \<open>confirm\<close> is the call of \<open>ConfirmDelivery\<close> with the outgoing context's headers,
  \<open>dm_of\<close> the channel of the direct messages with a user. The reading of the pushed message is
  generated code and an argument. Log lines are left out.
\<close>

section \<open>The pushed message\<close>

datatype action_payload = PayloadDelivery reminder_delivery | PayloadTest instant | PayloadNotSet

definition reminderDelivery :: "action_payload \<Rightarrow> reminder_delivery option" where
  "reminderDelivery p = (case p of PayloadDelivery d \<Rightarrow> Some d | PayloadTest t \<Rightarrow> None | PayloadNotSet \<Rightarrow> None)"

definition CLIENT_ACTION_SEND_NOTIFICATION :: int where "CLIENT_ACTION_SEND_NOTIFICATION = 1"
definition CLIENT_ACTION_SEND_NOTIFICATION_URGENT :: int where "CLIENT_ACTION_SEND_NOTIFICATION_URGENT = 2"
definition CLIENT_ACTION_SEND_TEST :: int where "CLIENT_ACTION_SEND_TEST = 999"

definition PLATFORM_DISCORD :: int where "PLATFORM_DISCORD = 1"

section \<open>Routes and texts\<close>

datatype routeKind = RouteChannel | RouteDirectMessage

record deliveryRoute =
  route_Kind :: routeKind
  route_Target :: string

definition deliveryPlan :: "string \<Rightarrow> string \<Rightarrow> deliveryRoute list" where
  "deliveryPlan channelID ownerUID =
     (if channelID \<noteq> [] then [\<lparr>route_Kind = RouteChannel, route_Target = channelID\<rparr>] else [])
     @ (if ownerUID \<noteq> [] then [\<lparr>route_Kind = RouteDirectMessage, route_Target = ownerUID\<rparr>] else [])"

definition emptyReminderBody :: string where
  "emptyReminderBody = encode_rune 0x23F0 @ '' Reminder''"

definition channelNotification :: "string \<Rightarrow> string \<Rightarrow> string" where
  "channelNotification message ownerUID =
    (let body = (if message = [] then emptyReminderBody else message)
     in truncateContent (if ownerUID \<noteq> [] then ''<@'' @ ownerUID @ ''> '' @ body else body))"

definition directMessageNotification :: "string \<Rightarrow> string" where
  "directMessageNotification message = (if message = [] then emptyReminderBody else truncateContent message)"

text \<open>The allow-list: nothing is parsed, and only the users listed are pinged.\<close>

definition mentionOwnerOnly :: "string \<Rightarrow> string list option" where
  "mentionOwnerOnly ownerUID = (if ownerUID = [] then noMentions else Some [ownerUID])"

section \<open>Posting\<close>

definition sendChannelMessage :: "(nat \<Rightarrow> bool) \<Rightarrow> string \<Rightarrow> string \<Rightarrow> string list option \<Rightarrow> bool discord" where
  "sendChannelMessage down channelID body allowed s =
     call_discord down ((plain (ChannelSend channelID))\<lparr>rq_content := body, rq_mentions := allowed\<rparr>) s"

definition sendDirectMessage :: "(nat \<Rightarrow> bool) \<Rightarrow> (string \<Rightarrow> string) \<Rightarrow> string \<Rightarrow> string \<Rightarrow> bool discord" where
  "sendDirectMessage down dm_of userID body s =
    (let (ok, s1) = call_discord down (plain (OpenDM userID)) s in
     if \<not> ok then (False, s1)
     else call_discord down ((plain (ChannelSend (dm_of userID)))\<lparr>rq_content := body, rq_mentions := noMentions\<rparr>) s1)"

fun try_routes :: "(nat \<Rightarrow> bool) \<Rightarrow> (string \<Rightarrow> string) \<Rightarrow> string \<Rightarrow> string \<Rightarrow> deliveryRoute list \<Rightarrow> bool discord" where
  "try_routes down dm_of message ownerUID [] s = (False, s)"
| "try_routes down dm_of message ownerUID (route # routes) s =
    (let (ok, s1) = (case route_Kind route of
          RouteChannel \<Rightarrow> sendChannelMessage down (route_Target route) (channelNotification message ownerUID)
            (mentionOwnerOnly ownerUID) s
        | RouteDirectMessage \<Rightarrow>
            sendDirectMessage down dm_of (route_Target route) (directMessageNotification message) s)
     in if ok then (True, s1) else try_routes down dm_of message ownerUID routes s1)"

definition postNotification :: "(nat \<Rightarrow> bool) \<Rightarrow> (string \<Rightarrow> string) \<Rightarrow> reminder_delivery \<Rightarrow> bool discord" where
  "postNotification down dm_of d s =
     try_routes down dm_of (dv_Message d) (dv_OwnerUID d) (deliveryPlan (dv_DestinationUID d) (dv_OwnerUID d)) s"

section \<open>Confirming\<close>

type_synonym 'b confirm_rpc = "outgoing \<Rightarrow> string \<Rightarrow> bool \<Rightarrow> 'b \<Rightarrow> unit rpc \<times> 'b"

definition confirmDelivery ::
  "'b confirm_rpc \<Rightarrow> outgoing \<Rightarrow> string \<Rightarrow> string \<Rightarrow> bool \<Rightarrow> 'b \<Rightarrow> 'b" where
  "confirmDelivery confirm ctx reminderID ownerUID delivered b =
     snd (confirm (NewOutgoingContext PLATFORM_DISCORD ownerUID ctx) reminderID delivered b)"

definition handleSendNotification ::
  "(nat \<Rightarrow> bool) \<Rightarrow> (string \<Rightarrow> string) \<Rightarrow> 'b confirm_rpc \<Rightarrow> outgoing \<Rightarrow> action_payload
     \<Rightarrow> session \<times> 'b \<Rightarrow> session \<times> 'b" where
  "handleSendNotification down dm_of confirm ctx p st =
    (let (s, b) = st in
     case reminderDelivery p of
       None \<Rightarrow> (s, b)
     | Some d \<Rightarrow>
         if dv_ReminderID d = [] then (s, b)
         else let (delivered, s') = postNotification down dm_of d s
              in (s', confirmDelivery confirm ctx (dv_ReminderID d) (dv_OwnerUID d) delivered b))"

text \<open>A test heartbeat is only logged.\<close>

definition handleSendTest :: "action_payload \<Rightarrow> session \<times> 'b \<Rightarrow> session \<times> 'b" where
  "handleSendTest p st = st"

definition actionHandlers ::
  "(string \<Rightarrow> action_payload) \<Rightarrow> (nat \<Rightarrow> bool) \<Rightarrow> (string \<Rightarrow> string) \<Rightarrow> 'b confirm_rpc \<Rightarrow> outgoing
     \<Rightarrow> (session \<times> 'b) action_handlers" where
  "actionHandlers decode down dm_of confirm ctx action =
    (if action = CLIENT_ACTION_SEND_TEST then Some (\<lambda>a st. (handleSendTest (decode (an_Payload a)) st, False))
     else if action = CLIENT_ACTION_SEND_NOTIFICATION \<or> action = CLIENT_ACTION_SEND_NOTIFICATION_URGENT
       then Some (\<lambda>a st. (handleSendNotification down dm_of confirm ctx (decode (an_Payload a)) st, False))
     else None)"

section \<open>One post, one confirmation, and the truth\<close>

text \<open>The positions of the session at which a message was posted from position \<open>n\<close> on.\<close>

definition posts :: "(nat \<Rightarrow> bool) \<Rightarrow> nat \<Rightarrow> session \<Rightarrow> nat list" where
  "posts down n s = filter (\<lambda>i. (\<exists>c. rq_kind (s ! i) = ChannelSend c) \<and> \<not> down i) [n..<length s]"

definition notify_request :: "(string \<Rightarrow> string) \<Rightarrow> reminder_delivery \<Rightarrow> request \<Rightarrow> bool" where
  "notify_request dm_of d r \<longleftrightarrow>
     (rq_kind r = ChannelSend (dv_DestinationUID d) \<and> rq_mentions r = mentionOwnerOnly (dv_OwnerUID d)
        \<and> dv_DestinationUID d \<noteq> []
      \<or> rq_kind r = OpenDM (dv_OwnerUID d) \<and> dv_OwnerUID d \<noteq> []
      \<or> rq_kind r = ChannelSend (dm_of (dv_OwnerUID d)) \<and> rq_mentions r = Some [] \<and> dv_OwnerUID d \<noteq> [])
     \<and> length (rq_content r) \<le> 2000"

lemma posts_step:
  "posts down (length s) (s @ r # new) =
    (if (\<exists>c. rq_kind r = ChannelSend c) \<and> \<not> down (length s) then [length s] else [])
      @ posts down (length (s @ [r])) ((s @ [r]) @ new)"
  by (simp add: posts_def upt_conv_Cons nth_append del: upt.simps)

lemma posts_Nil [simp]: "posts down (length s) s = []"
  by (simp add: posts_def)

lemma texts_bounded:
  "length (channelNotification message owner) \<le> 2000" "length (directMessageNotification message) \<le> 2000"
  by (simp_all add: channelNotification_def directMessageNotification_def Let_def truncated emptyReminderBody_def
      encode_rune_def)

lemma send_channel_posts:
  "sendChannelMessage down ch body allowed s = (ok, s') \<Longrightarrow>
     s' = s @ [(plain (ChannelSend ch))\<lparr>rq_content := body, rq_mentions := allowed\<rparr>]
     \<and> posts down (length s) s' = (if ok then [length s] else [])"
  by (auto simp: sendChannelMessage_def call_discord_def posts_def plain_def)

lemma send_direct_posts:
  assumes "sendDirectMessage down dm_of u body s = (ok, s')"
  shows "\<exists>new. s' = s @ new \<and> set new \<subseteq> {plain (OpenDM u),
      (plain (ChannelSend (dm_of u)))\<lparr>rq_content := body, rq_mentions := noMentions\<rparr>}
    \<and> length (posts down (length s) s') = (if ok then 1 else 0)"
proof (cases "down (length s)")
  case True
  with assms show ?thesis by (auto simp: sendDirectMessage_def call_discord_def posts_def plain_def)
next
  case False
  let ?m = "(plain (ChannelSend (dm_of u)))\<lparr>rq_content := body, rq_mentions := noMentions\<rparr>"
  have run: "s' = s @ [plain (OpenDM u), ?m]" "ok = (\<not> down (Suc (length s)))"
    using assms False by (auto simp: sendDirectMessage_def call_discord_def)
  have "posts down (length s) s' = (if ok then [Suc (length s)] else [])"
    using run by (simp add: posts_def plain_def upt_conv_Cons nth_append)
  with run show ?thesis by auto
qed

text \<open>A stretch of posting that reports \<open>ok\<close>: the requests it made and the one message it posted.\<close>

definition posted :: "(nat \<Rightarrow> bool) \<Rightarrow> (string \<Rightarrow> string) \<Rightarrow> reminder_delivery \<Rightarrow> session \<Rightarrow> bool \<times> session \<Rightarrow> bool" where
  "posted down dm_of d s res \<longleftrightarrow> (\<exists>new. snd res = s @ new \<and> list_all (notify_request dm_of d) new
     \<and> length (posts down (length s) (snd res)) = (if fst res then 1 else 0))"

lemma direct_posted:
  assumes "dv_OwnerUID d \<noteq> []"
  shows "posted down dm_of d s (sendDirectMessage down dm_of (dv_OwnerUID d) (directMessageNotification (dv_Message d)) s)"
proof -
  let ?res = "sendDirectMessage down dm_of (dv_OwnerUID d) (directMessageNotification (dv_Message d)) s"
  from send_direct_posts [OF prod.collapse [symmetric, of ?res]] obtain new where new: "snd ?res = s @ new"
    "set new \<subseteq> {plain (OpenDM (dv_OwnerUID d)), (plain (ChannelSend (dm_of (dv_OwnerUID d))))
      \<lparr>rq_content := directMessageNotification (dv_Message d), rq_mentions := noMentions\<rparr>}"
    "length (posts down (length s) (snd ?res)) = (if fst ?res then 1 else 0)" by blast
  have "notify_request dm_of d r" if "r \<in> set new" for r
    using new(2) that assms texts_bounded(2) by (auto simp: notify_request_def plain_def noMentions_def)
  with new show ?thesis by (auto simp: posted_def list_all_iff)
qed

lemma owner_route_posted:
  "posted down dm_of d s (try_routes down dm_of (dv_Message d) (dv_OwnerUID d)
     (if dv_OwnerUID d \<noteq> [] then [\<lparr>route_Kind = RouteDirectMessage, route_Target = dv_OwnerUID d\<rparr>] else []) s)"
proof (cases "dv_OwnerUID d = []")
  case True
  then show ?thesis by (simp add: posted_def)
next
  case False
  then have "try_routes down dm_of (dv_Message d) (dv_OwnerUID d)
      [\<lparr>route_Kind = RouteDirectMessage, route_Target = dv_OwnerUID d\<rparr>] s
      = sendDirectMessage down dm_of (dv_OwnerUID d) (directMessageNotification (dv_Message d)) s"
    by (simp add: split_beta prod_eq_iff)
  with direct_posted [OF False, of down dm_of s] False show ?thesis by simp
qed

lemma post_notification: "posted down dm_of d s (postNotification down dm_of d s)"
proof (cases "dv_DestinationUID d = []")
  case True
  with owner_route_posted [of down dm_of d s] show ?thesis by (simp add: postNotification_def deliveryPlan_def)
next
  case False
  let ?ch = "(plain (ChannelSend (dv_DestinationUID d)))
      \<lparr>rq_content := channelNotification (dv_Message d) (dv_OwnerUID d), rq_mentions := mentionOwnerOnly (dv_OwnerUID d)\<rparr>"
  obtain ok s1 where send: "sendChannelMessage down (dv_DestinationUID d)
      (channelNotification (dv_Message d) (dv_OwnerUID d)) (mentionOwnerOnly (dv_OwnerUID d)) s = (ok, s1)" by fastforce
  note ch = send_channel_posts [OF send]
  have mine: "notify_request dm_of d ?ch" using False texts_bounded(1) by (simp add: notify_request_def plain_def)
  show ?thesis
  proof (cases ok)
    case True
    with send False have "postNotification down dm_of d s = (True, s1)" by (simp add: postNotification_def deliveryPlan_def)
    moreover have "s1 = s @ [?ch]" by (rule conjunct1 [OF ch])
    moreover have "posts down (length s) s1 = [length s]" using conjunct2 [OF ch] True by metis
    ultimately show ?thesis unfolding posted_def using mine by (intro exI [of _ "[?ch]"]) simp
  next
    case not_ok: False
    have run: "postNotification down dm_of d s = try_routes down dm_of (dv_Message d) (dv_OwnerUID d)
        (if dv_OwnerUID d \<noteq> [] then [\<lparr>route_Kind = RouteDirectMessage, route_Target = dv_OwnerUID d\<rparr>] else []) s1"
      using send not_ok False by (simp add: postNotification_def deliveryPlan_def)
    from owner_route_posted [of down dm_of d s1] obtain new where new: "snd (postNotification down dm_of d s) = s1 @ new"
      "list_all (notify_request dm_of d) new" "length (posts down (length s1) (snd (postNotification down dm_of d s)))
        = (if fst (postNotification down dm_of d s) then 1 else 0)" by (auto simp: run posted_def)
    have "down (length s)" using send not_ok by (auto simp: sendChannelMessage_def call_discord_def)
    then have "posts down (length s) (snd (postNotification down dm_of d s))
        = posts down (length s1) (snd (postNotification down dm_of d s))"
      using posts_step [of down s ?ch new] new(1) ch by simp
    with new ch mine show ?thesis unfolding posted_def by (intro exI [of _ "?ch # new"]) simp
  qed
qed


section \<open>The server settles what was pushed\<close>

text \<open>The confirmation as the server handles it; \<open>server\<close> is the environment of a call by its headers.\<close>

definition confirm_at :: "(outgoing \<Rightarrow> env) \<Rightarrow> db confirm_rpc" where
  "confirm_at server out rid delivered db = ReminderServer_ConfirmDelivery (server out) (Some rid) delivered db"

lemma sent_row_affected:
  assumes "GetReminder s rid = Some row" and "r_Status row = STATUS_SENT"
  shows "sent_with_id rid row" and "affected (sent_with_id rid) s"
  using find_SomeD [OF assms(1) [unfolded GetReminder_def]] assms(2) by (auto simp: sent_with_id_def affected_def)

lemma confirm_sent:
  assumes row: "GetReminder db rid = Some row" "r_Status row = STATUS_SENT" "r_UserID row = Some u"
    and e: "e_Caller e = Some u" "\<forall>c. \<not> e_Down e c"
  shows "\<exists>db'. ReminderServer_ConfirmDelivery e (Some rid) delivered db = (Inr (), db')
    \<and> (\<not> delivered \<longrightarrow> map_option r_Status (GetReminder db' rid) = Some STATUS_FAILED)
    \<and> (delivered \<and> r_RepeatCron row = None \<longrightarrow> map_option r_Status (GetReminder db' rid) = Some STATUS_DELIVERED)"
proof -
  have adv: "advance_or_down e rid st db = (Inr True, snd (AdvanceReminderStatusIfSent rid st db))" for st
    using e(2) sent_row_affected [OF row(1,2)] by (simp add: advance_or_down_def AdvanceReminderStatusIfSent_def)
  have status: "map_option r_Status (GetReminder (snd (AdvanceReminderStatusIfSent rid st db)) rid) = Some st" for st
    using sent_row_affected(1) [OF row(1,2)] row(1)
    by (simp add: AdvanceReminderStatusIfSent_def GetReminder_update_where)
  show ?thesis
  proof (cases delivered)
    case False
    with row e adv status show ?thesis
      by (simp add: ReminderServer_ConfirmDelivery_def callerUser_Some require_id_def)
  next
    case True
    have "\<exists>b db'. confirm_delivered e rid row db = (Inr b, db')"
      using e(2) adv by (auto simp: confirm_delivered_def Let_def split: option.split sum.split prod.split)
    then obtain b db' where cd: "confirm_delivered e rid row db = (Inr b, db')" by blast
    have "map_option r_Status (GetReminder db' rid) = Some STATUS_DELIVERED" if "r_RepeatCron row = None"
      using cd that adv [of STATUS_DELIVERED] status [of STATUS_DELIVERED] by (simp add: confirm_delivered_def)
    with True row e cd show ?thesis
      by (cases b) (simp_all add: ReminderServer_ConfirmDelivery_def callerUser_Some require_id_def)
  qed
qed


section \<open>A channel the bot cannot post to\<close>

definition demo_delivery :: reminder_delivery where
  "demo_delivery = \<lparr>dv_Platform = 1, dv_ReminderID = ''a'', dv_Message = ''@everyone'', dv_DestinationUID = ''c'',
     dv_OwnerUID = ''o''\<rparr>"

definition demo_outgoing :: outgoing where "demo_outgoing = \<lparr>out_Caller = None, out_Origin = None\<rparr>"

definition demo_handled :: "session \<times> db" where
  "demo_handled = handleSendNotification (\<lambda>i. i = 0) (\<lambda>u. ''dm'') (confirm_at (\<lambda>out. demo_env ''u'')) demo_outgoing
     (PayloadDelivery demo_delivery) ([], demo_sent)"



end
