(* ===== verification/TriggerMatch.thy ===== *)
theory TriggerMatch
  imports GoStrings
begin

text \<open>
  The matching engine of \<open>pkg/trigger\<close>: spoiler stripping (\<open>spoiler.go\<close>), the firing chance
  (\<open>chance.go\<close>), the patterns phrases are compiled to (\<open>pattern.go\<close>) and the selection of a
  candidate (\<open>select.go\<close>). The regular-expression engine is an argument: \<open>rx_compile\<close> is
  \<open>regexp.Compile\<close> and \<open>rx_match\<close> is \<open>Regexp.MatchString\<close>; \<open>uw\<close> says which runes outside
  ASCII are in Unicode's categories L, N or M.
\<close>

section \<open>Constants and candidates\<close>

definition DefaultChance :: int where "DefaultChance = 5"
definition ExactChanceMultiplier :: int where "ExactChanceMultiplier = 3"
definition MaxChance :: int where "MaxChance = 100"
definition MaxPatternLength :: nat where "MaxPatternLength = 200"
definition MaxCandidates :: nat where "MaxCandidates = 500"

text \<open>\<open>pb.TriggerMode\<close> is an open enum: an \<open>int32\<close> with four named values.\<close>

type_synonym trigger_mode = int

definition MODE_UNSPECIFIED :: trigger_mode where "MODE_UNSPECIFIED = 0"
definition MODE_ANY :: trigger_mode where "MODE_ANY = 2"
definition MODE_EXACT :: trigger_mode where "MODE_EXACT = 1"
definition MODE_REGEX :: trigger_mode where "MODE_REGEX = 3"

lemmas mode_defs = MODE_UNSPECIFIED_def MODE_ANY_def MODE_EXACT_def MODE_REGEX_def
lemmas chance_consts = DefaultChance_def ExactChanceMultiplier_def MaxChance_def

record 'p candidate =
  cand_ID :: string
  cand_Mode :: trigger_mode
  cand_Chance :: int
  cand_Pattern :: "'p option"

section \<open>The firing chance\<close>

definition EffectiveChance :: "int \<Rightarrow> trigger_mode \<Rightarrow> int" where
  "EffectiveChance stored mode =
    (let s1 = (if stored < 0 then 0 else stored);
         s2 = (if s1 = 0 then DefaultChance else s1);
         s3 = (if mode = MODE_EXACT then i32 (s2 * ExactChanceMultiplier) else s2)
     in if s3 > MaxChance then MaxChance else s3)"

definition Fires :: "'p candidate \<Rightarrow> (int \<Rightarrow> int) \<Rightarrow> bool" where
  "Fires c roll \<longleftrightarrow> roll MaxChance < EffectiveChance (cand_Chance c) (cand_Mode c)"

section \<open>Spoilers\<close>

definition spoilerMarker :: string where
  "spoilerMarker = ''||''"

text \<open>
  The loop of \<open>StripSpoilers\<close>: \<open>b\<close> is what the builder holds, \<open>s\<close> is \<open>s[i:]\<close>. The marker
  search after the opening marker is the source's \<open>strings.Index(s[searchFrom:], ...)\<close>.
\<close>

function strip_loop :: "string \<Rightarrow> string \<Rightarrow> string" where
  "strip_loop b s =
    (if s = [] then b
     else case str_index spoilerMarker s of
       None \<Rightarrow> b @ s
     | Some relStart \<Rightarrow>
        (let tail = drop (relStart + length spoilerMarker) s in
         case str_index spoilerMarker tail of
           None \<Rightarrow> b @ s
         | Some relEnd \<Rightarrow>
             strip_loop (b @ take relStart s @ '' '') (drop (relEnd + length spoilerMarker) tail)))"
  by pat_completeness auto
termination
  by (relation "measure (\<lambda>(b, s). length s)") (auto simp: spoilerMarker_def)

declare strip_loop.simps [simp del]

definition StripSpoilers :: "string \<Rightarrow> string" where
  "StripSpoilers s = join '' '' (str_fields (strip_loop [] s))"

section \<open>Patterns\<close>

text \<open>\<open>regexp.QuoteMeta\<close>.\<close>

definition rx_special :: "char \<Rightarrow> bool" where
  "rx_special c \<longleftrightarrow> c \<in> set (CHR 0x5C # ''.+*?()|[]{}^$'')"

fun QuoteMeta :: "string \<Rightarrow> string" where
  "QuoteMeta [] = []"
| "QuoteMeta (c # cs) = (if rx_special c then CHR 0x5C # c # QuoteMeta cs else c # QuoteMeta cs)"

definition isWordRune :: "(nat \<Rightarrow> bool) \<Rightarrow> nat \<Rightarrow> bool" where
  "isWordRune uw r \<longleftrightarrow>
    (if r < 128 then (65 \<le> r \<and> r \<le> 90) \<or> (97 \<le> r \<and> r \<le> 122) \<or> (48 \<le> r \<and> r \<le> 57) else uw r)
    \<or> r = 95"

definition nonWordClass :: string where
  "nonWordClass = ''[^'' @ [CHR 0x5C] @ ''p{L}'' @ [CHR 0x5C] @ ''p{N}'' @ [CHR 0x5C] @ ''p{M}_]''"

text \<open>\<open>utf8.DecodeLastRuneInString\<close>: the last rune of a left-to-right decoding.\<close>

definition decode_last_rune :: "string \<Rightarrow> nat" where
  "decode_last_rune s = (if s = [] then rune_error else fst (last (chunks s)))"

definition wordBoundaryBefore :: "(nat \<Rightarrow> bool) \<Rightarrow> string \<Rightarrow> string" where
  "wordBoundaryBefore uw phrase =
    (if isWordRune uw (fst (decode_rune phrase)) then ''(?:^|'' @ nonWordClass @ '')'' else [])"

definition wordBoundaryAfter :: "(nat \<Rightarrow> bool) \<Rightarrow> string \<Rightarrow> string" where
  "wordBoundaryAfter uw phrase =
    (if isWordRune uw (decode_last_rune phrase) then ''(?:$|'' @ nonWordClass @ '')'' else [])"

definition BuildPattern :: "(nat \<Rightarrow> bool) \<Rightarrow> string \<Rightarrow> trigger_mode \<Rightarrow> string" where
  "BuildPattern uw phrase mode =
    (if mode = MODE_REGEX then ''(?i)'' @ phrase
     else if mode = MODE_EXACT then ''(?i)^'' @ QuoteMeta phrase @ ''$''
     else ''(?i)'' @ wordBoundaryBefore uw phrase @ QuoteMeta phrase @ wordBoundaryAfter uw phrase)"

datatype compile_error = ErrEmptyPhrase | ErrPatternTooLong | ErrRegexp

definition Compile ::
  "(nat \<Rightarrow> bool) \<Rightarrow> (string \<Rightarrow> 'p option) \<Rightarrow> string \<Rightarrow> trigger_mode \<Rightarrow> compile_error + 'p" where
  "Compile uw rx_compile phrase mode =
    (if trim_space phrase = [] then Inl ErrEmptyPhrase
     else if length phrase > MaxPatternLength then Inl ErrPatternTooLong
     else case rx_compile (BuildPattern uw phrase mode) of
       None \<Rightarrow> Inl ErrRegexp
     | Some compiled \<Rightarrow> Inr compiled)"

section \<open>Selection\<close>

definition cand_matches :: "('p \<Rightarrow> string \<Rightarrow> bool) \<Rightarrow> string \<Rightarrow> 'p candidate \<Rightarrow> bool" where
  "cand_matches rx_match text c = (case cand_Pattern c of None \<Rightarrow> False | Some p \<Rightarrow> rx_match p text)"

definition Select ::
  "('p \<Rightarrow> string \<Rightarrow> bool) \<Rightarrow> string \<Rightarrow> 'p candidate list \<Rightarrow> (int \<Rightarrow> int) \<Rightarrow> 'p candidate option" where
  "Select rx_match message candidates roll =
    (let normalised = StripSpoilers message in
     if normalised = [] then None
     else
       let limit = min (length candidates) MaxCandidates;
           matched = filter (cand_matches rx_match normalised) (take limit candidates);
           exactMatched = filter (\<lambda>c. cand_Mode c = MODE_EXACT) matched;
           matched' = (if exactMatched \<noteq> [] then exactMatched else matched)
       in if matched' = [] then None
          else
            let r = roll (int (length matched'));
                idx = (if r < 0 \<or> r \<ge> int (length matched') then 0 else r)
            in Some (matched' ! nat idx))"

section \<open>Chance: range and overflow\<close>

text \<open>
  For every stored chance whose tripling does not leave \<open>int32\<close>, whatever the mode, the
  effective chance is a percentage from 1 to 100: a stored trigger can always fire, and an
  exact trigger never fires less often than an unanchored one with the same stored chance.
\<close>

theorem EffectiveChance_percentage:
  assumes "stored \<le> 715827882"
  shows "1 \<le> EffectiveChance stored mode \<and> EffectiveChance stored mode \<le> 100
    \<and> EffectiveChance stored MODE_ANY \<le> EffectiveChance stored MODE_EXACT"
  using assms by (auto simp: EffectiveChance_def chance_consts mode_defs Let_def)

theorem EffectiveChance_percentage_witness:
  "EffectiveChance 40 MODE_EXACT = 100 \<and> 1 \<le> EffectiveChance 40 MODE_REGEX
    \<and> EffectiveChance 40 MODE_ANY \<le> EffectiveChance 40 MODE_EXACT"
  using EffectiveChance_percentage [of 40 MODE_REGEX] EffectiveChance_percentage [of 40 MODE_EXACT]
  by (simp add: EffectiveChance_def chance_consts mode_defs)

text \<open>Past that bound the multiplication wraps: a huge stored chance can mean "never" or "2%".\<close>

lemma EffectiveChance_wraps:
  "EffectiveChance 715827883 MODE_EXACT = - 2147483647"
  "EffectiveChance 1431655766 MODE_EXACT = 2"
  by (simp_all add: EffectiveChance_def chance_consts mode_defs i32_def)

section \<open>Spoilers: hidden text does not reach the matcher\<close>

text \<open>A stretch of text in which no marker begins, also when a marker follows it.\<close>

definition no_marker :: "string \<Rightarrow> bool" where
  "no_marker v \<longleftrightarrow> \<not> str_contains v spoilerMarker \<and> (v = [] \<or> last v \<noteq> CHR ''|'')"

lemma str_index_no_marker:
  "no_marker v \<Longrightarrow> str_index spoilerMarker (v @ spoilerMarker @ t) = Some (length v)"
proof (induction v)
  case Nil
  then show ?case by (simp add: spoilerMarker_def)
next
  case (Cons c v)
  have "no_marker v"
    using Cons.prems by (auto simp: no_marker_def str_contains_def split: if_splits)
  moreover have "\<not> prefix spoilerMarker (c # v @ spoilerMarker @ t)"
    using Cons.prems by (cases v) (auto simp: no_marker_def str_contains_def spoilerMarker_def)
  ultimately show ?case using Cons.IH by simp
qed

lemma strip_loop_acc: "strip_loop b s = b @ strip_loop [] s"
proof (induction s arbitrary: b rule: length_induct)
  case (1 s)
  show ?case
  proof (cases "s = [] \<or> str_index spoilerMarker s = None")
    case True
    then show ?thesis
      by (auto simp: strip_loop.simps [of b s] strip_loop.simps [of "[]" s])
  next
    case False
    then obtain i where i: "str_index spoilerMarker s = Some i" and s: "s \<noteq> []" by auto
    let ?tail = "drop (i + length spoilerMarker) s"
    show ?thesis
    proof (cases "str_index spoilerMarker ?tail")
      case None
      with s i show ?thesis
        by (simp add: strip_loop.simps [of b s] strip_loop.simps [of "[]" s])
    next
      case (Some j)
      let ?r = "drop (j + length spoilerMarker) ?tail"
      have "length ?r < length s" using s by (auto simp: spoilerMarker_def)
      then have ih: "\<And>b'. strip_loop b' ?r = b' @ strip_loop [] ?r" using "1.IH" by blast
      have "strip_loop b s = strip_loop (b @ take i s @ '' '') ?r"
        using s i Some by (simp add: strip_loop.simps [of b s])
      moreover have "strip_loop [] s = strip_loop (take i s @ '' '') ?r"
        using s i Some by (simp add: strip_loop.simps [of "[]" s])
      ultimately show ?thesis
        using ih [of "b @ take i s @ '' ''"] ih [of "take i s @ '' ''"] by simp
    qed
  qed
qed

lemma strip_loop_span:
  assumes "no_marker v" and "no_marker h"
  shows "strip_loop [] (v @ spoilerMarker @ h @ spoilerMarker @ r) = v @ '' '' @ strip_loop [] r"
proof -
  let ?s = "v @ spoilerMarker @ h @ spoilerMarker @ r"
  have "strip_loop [] ?s = strip_loop (v @ '' '') r"
    using str_index_no_marker [OF assms(1), of "h @ spoilerMarker @ r"]
      str_index_no_marker [OF assms(2), of r]
    by (simp add: strip_loop.simps [of "[]" ?s]) (simp add: spoilerMarker_def)
  then show ?thesis using strip_loop_acc [of "v @ '' ''" r] by simp
qed

text \<open>
  Two messages look the same to someone who opens no spoiler: they differ only inside closed
  \<open>||...||\<close> spans.
\<close>

inductive same_visible :: "string \<Rightarrow> string \<Rightarrow> bool" where
  same_text: "same_visible s s"
| hidden_span: "no_marker v \<Longrightarrow> no_marker h \<Longrightarrow> no_marker h' \<Longrightarrow> same_visible r r' \<Longrightarrow>
    same_visible (v @ spoilerMarker @ h @ spoilerMarker @ r) (v @ spoilerMarker @ h' @ spoilerMarker @ r')"

lemma same_visible_strip: "same_visible s t \<Longrightarrow> strip_loop [] s = strip_loop [] t"
  by (induction rule: same_visible.induct) (simp_all add: strip_loop_span)

text \<open>A small candidate set for the concrete instances.\<close>

definition demo_candidates :: "string candidate list" where
  "demo_candidates =
     [\<lparr>cand_ID = ''a'', cand_Mode = MODE_ANY, cand_Chance = 0, cand_Pattern = Some ''hi''\<rparr>,
      \<lparr>cand_ID = ''b'', cand_Mode = MODE_EXACT, cand_Chance = 7, cand_Pattern = Some ''hi''\<rparr>,
      \<lparr>cand_ID = ''c'', cand_Mode = MODE_ANY, cand_Chance = 0, cand_Pattern = None\<rparr>]"

text \<open>
  Hidden text cannot fire a trigger: two messages that differ only inside closed spoiler
  spans, however many, select the same candidate for every candidate set, engine and roller.
\<close>

theorem Select_ignores_hidden_text:
  assumes "same_visible s t"
  shows "Select rx_match s candidates roll = Select rx_match t candidates roll"
  using same_visible_strip [OF assms] by (simp add: Select_def StripSpoilers_def)

theorem Select_ignores_hidden_text_witness:
  "Select (\<lambda>p x. p = x) ''hi ||no|| you'' demo_candidates (\<lambda>n. 0)
     = Select (\<lambda>p x. p = x) ''hi ||hello there|| you'' demo_candidates (\<lambda>n. 0)"
proof (rule Select_ignores_hidden_text)
  have "same_visible (''hi '' @ spoilerMarker @ ''no'' @ spoilerMarker @ '' you'')
    (''hi '' @ spoilerMarker @ ''hello there'' @ spoilerMarker @ '' you'')"
    by (intro hidden_span same_text) (simp_all add: no_marker_def str_contains_def spoilerMarker_def)
  then show "same_visible ''hi ||no|| you'' ''hi ||hello there|| you''"
    by (simp add: spoilerMarker_def)
qed

section \<open>Selection: soundness and completeness\<close>

text \<open>The candidates the pick is made from.\<close>

definition select_pool :: "('p \<Rightarrow> string \<Rightarrow> bool) \<Rightarrow> string \<Rightarrow> 'p candidate list \<Rightarrow> 'p candidate list" where
  "select_pool rx_match text candidates =
    (let ms = filter (cand_matches rx_match text) (take MaxCandidates candidates);
         es = filter (\<lambda>c. cand_Mode c = MODE_EXACT) ms
     in if es \<noteq> [] then es else ms)"

lemma take_min_length: "take (min (length xs) n) xs = take n xs"
  by (simp add: min_def)

lemma Select_pool:
  "Select rx_match message candidates roll =
    (let pool = select_pool rx_match (StripSpoilers message) candidates;
         r = roll (int (length pool))
     in if StripSpoilers message = [] \<or> pool = [] then None
        else Some (pool ! nat (if r < 0 \<or> r \<ge> int (length pool) then 0 else r)))"
  unfolding Select_def select_pool_def Let_def take_min_length by simp

lemma select_pool_in:
  "c \<in> set (select_pool rx_match text cs) \<Longrightarrow>
     c \<in> set (take MaxCandidates cs) \<and> cand_matches rx_match text c"
  by (auto simp: select_pool_def Let_def split: if_splits)

lemma select_pool_exact:
  assumes "c \<in> set (select_pool rx_match text cs)"
    and "e \<in> set (take MaxCandidates cs)" "cand_matches rx_match text e" "cand_Mode e = MODE_EXACT"
  shows "cand_Mode c = MODE_EXACT"
proof -
  have "filter (\<lambda>c. cand_Mode c = MODE_EXACT) (filter (cand_matches rx_match text) (take MaxCandidates cs)) \<noteq> []"
    using assms(2-4) by (auto simp: filter_empty_conv)
  then show ?thesis using assms(1) by (auto simp: select_pool_def Let_def)
qed

lemma select_pool_empty:
  "select_pool rx_match text cs = [] \<longleftrightarrow> (\<forall>c \<in> set (take MaxCandidates cs). \<not> cand_matches rx_match text c)"
  by (auto simp: select_pool_def Let_def filter_empty_conv)

lemma Select_in_pool:
  assumes "Select rx_match message cs roll = Some c"
  shows "c \<in> set (select_pool rx_match (StripSpoilers message) cs)"
proof -
  let ?pool = "select_pool rx_match (StripSpoilers message) cs"
  let ?r = "roll (int (length ?pool))"
  let ?i = "nat (if ?r < 0 \<or> ?r \<ge> int (length ?pool) then 0 else ?r)"
  have "?pool \<noteq> []" and c: "c = ?pool ! ?i"
    using assms by (auto simp: Select_pool Let_def split: if_splits)
  then have "?i < length ?pool" by auto
  with c show ?thesis by (metis nth_mem)
qed

text \<open>
  C30: Whatever the roller returns, also out of range, a selected candidate is one of the first
  500, its compiled pattern matches the message without its spoilers, and it is exact whenever
  any of those candidates is an exact match.
\<close>

theorem Select_sound:
  assumes "Select rx_match message candidates roll = Some c"
  shows "c \<in> set (take 500 candidates) \<and> cand_matches rx_match (StripSpoilers message) c
    \<and> ((\<exists>e \<in> set (take 500 candidates). cand_matches rx_match (StripSpoilers message) e
           \<and> cand_Mode e = MODE_EXACT) \<longrightarrow> cand_Mode c = MODE_EXACT)"
  using Select_in_pool [OF assms] select_pool_in select_pool_exact MaxCandidates_def by metis

lemma StripSpoilers_hi: "StripSpoilers ''hi'' = ''hi''"
  by (simp add: StripSpoilers_def strip_loop.simps str_fields_def split_fields.simps
      spoilerMarker_def space_chunk_def is_space_def)

theorem Select_sound_witness:
  "cand_matches (\<lambda>p x. p = x) (StripSpoilers ''hi'') (demo_candidates ! 1)
    \<and> cand_Mode (demo_candidates ! 1) = MODE_EXACT"
proof -
  have "Select (\<lambda>p x. p = x) ''hi'' demo_candidates (\<lambda>n. 99) = Some (demo_candidates ! 1)"
    by (simp add: Select_pool select_pool_def StripSpoilers_hi demo_candidates_def cand_matches_def
        mode_defs MaxCandidates_def Let_def)
  from Select_sound [OF this] show ?thesis
    by (simp add: demo_candidates_def)
qed

text \<open>
  Selection is complete: it returns nothing exactly when the message is blank once its
  spoilers are gone or none of the first 500 candidates matches it.
\<close>

theorem Select_None_iff:
  "Select rx_match message candidates roll = None \<longleftrightarrow>
     StripSpoilers message = []
     \<or> filter (cand_matches rx_match (StripSpoilers message)) (take 500 candidates) = []"
  by (simp add: Select_pool Let_def select_pool_empty filter_empty_conv MaxCandidates_def)

section \<open>Patterns quote the phrase\<close>

text \<open>
  Reads a piece of a regular expression that consists of plain characters and escaped
  metacharacters only, giving the text it matches; anything else is \<open>None\<close>.
\<close>

fun rx_literal :: "string \<Rightarrow> string option" where
  "rx_literal [] = Some []"
| "rx_literal (c # cs) =
    (if c = CHR 0x5C then
       (case cs of [] \<Rightarrow> None
        | d # ds \<Rightarrow> if rx_special d then map_option (Cons d) (rx_literal ds) else None)
     else if rx_special c then None
     else map_option (Cons c) (rx_literal cs))"

lemma rx_literal_QuoteMeta: "rx_literal (QuoteMeta p) = Some p"
  by (induction p) (auto simp: rx_special_def)

text \<open>
  A phrase cannot smuggle an operator into a pattern of any mode but regex: the pattern is
  the case-insensitive flag, an anchor or boundary group, a literal that reads back as exactly
  the phrase, and an anchor or boundary group.
\<close>

theorem BuildPattern_literal:
  assumes "mode \<noteq> MODE_REGEX"
  shows "\<exists>before body after.
     BuildPattern uw phrase mode = ''(?i)'' @ before @ body @ after \<and> rx_literal body = Some phrase
     \<and> before \<in> {[], ''^'', ''(?:^|'' @ nonWordClass @ '')''}
     \<and> after \<in> {[], ''$'', ''(?:$|'' @ nonWordClass @ '')''}"
proof (cases "mode = MODE_EXACT")
  case True
  then have "BuildPattern uw phrase mode = ''(?i)'' @ ''^'' @ QuoteMeta phrase @ ''$''"
    by (simp add: BuildPattern_def mode_defs)
  then show ?thesis using rx_literal_QuoteMeta by blast
next
  case False
  then have "BuildPattern uw phrase mode
      = ''(?i)'' @ wordBoundaryBefore uw phrase @ QuoteMeta phrase @ wordBoundaryAfter uw phrase"
    using assms by (simp add: BuildPattern_def)
  moreover have "wordBoundaryBefore uw phrase \<in> {[], ''^'', ''(?:^|'' @ nonWordClass @ '')''}"
    "wordBoundaryAfter uw phrase \<in> {[], ''$'', ''(?:$|'' @ nonWordClass @ '')''}"
    by (simp_all add: wordBoundaryBefore_def wordBoundaryAfter_def)
  ultimately show ?thesis using rx_literal_QuoteMeta by blast
qed

theorem BuildPattern_literal_witness:
  "\<exists>before body after.
     BuildPattern (\<lambda>r. False) ''a.*b'' MODE_ANY = ''(?i)'' @ before @ body @ after
     \<and> rx_literal body = Some ''a.*b''"
  using BuildPattern_literal [of MODE_ANY "\<lambda>r. False" "''a.*b''"] by (auto simp: mode_defs)

end
