(* ===== verification/DiscordCatalogue.thy ===== *)
theory DiscordCatalogue
  imports DiscordRespond TriggerMatch RpcInterceptors
begin

text \<open>
  The commands of the Discord client and their translation into Discord's application commands
  (\<open>pkg/discord/commands.go\<close> and the command declarations of \<open>triggers.go\<close>, \<open>reminders.go\<close>,
  \<open>tools.go\<close>, \<open>entertainment.go\<close> and \<open>utility.go\<close>). A handler is named by a value; what the
  handlers do is in the theories of their files. Texts outside ASCII are written as their bytes.
\<close>

section \<open>Handlers and shared texts\<close>

record digitRoll =
  roll_name :: string
  roll_description :: string
  roll_digits :: int

datatype handler_id =
    HealthCheckH | HelpH | InfoH | SetLocaleH | NumberH | PingH | RegisterH | RemindH | ListRemindersH
  | DeleteRemindersH | ReminderInfoH | ModifyReminderH | SetTimezoneH | AddTriggerH | DeleteTriggerH
  | ExecTriggerH | TriggerInfoH | ListTriggersH | ModifyTriggerH | TriggerStatsH | UserInfoH
  | DigitRollH digitRoll

definition dq :: "string \<Rightarrow> string" where
  "dq s = [CHR 0x22] @ s @ [CHR 0x22]"

definition apostrophe :: string where "apostrophe = [CHR 0x27]"

definition triggerGroup :: string where "triggerGroup = ''trigger''"
definition reminderGroup :: string where "reminderGroup = ''reminder''"

definition triggerListDefaultLimit :: int where "triggerListDefaultLimit = 15"
definition triggerListMaxLimit :: int where "triggerListMaxLimit = 100"
definition triggerStatsDefaultLimit :: int where "triggerStatsDefaultLimit = 10"
definition triggerStatsMaxLimit :: int where "triggerStatsMaxLimit = 25"

definition triggerModeWords :: "(string \<times> trigger_mode) list" where
  "triggerModeWords = [(''exact'', MODE_EXACT), (''any'', MODE_ANY), (''regex'', MODE_REGEX)]"

definition triggerModeNames :: string where
  "triggerModeNames = join '', '' (map fst triggerModeWords)"

record statsKind =
  sk_word :: string
  sk_label :: string
  sk_actionType :: int

definition statsKindWords :: "statsKind list" where
  "statsKindWords =
    [\<lparr>sk_word = ''occurred'', sk_label = ''random fires'', sk_actionType = 1\<rparr>,
     \<lparr>sk_word = ''called'', sk_label = ''forced fires'', sk_actionType = 2\<rparr>]"

definition statsKindNames :: string where
  "statsKindNames = join '', '' (map sk_word statsKindWords)"

definition fileArgDescription :: string where
  "fileArgDescription = ''Discord CDN link to reply with, e.g. copied from an existing attachment''"

definition modeArgDescription :: string where
  "modeArgDescription = ''How the phrase is matched: '' @ triggerModeNames @ '' (default any)''"

definition chanceArgDescription :: string where
  "chanceArgDescription = ''Percent chance of firing, 0-'' @ FormatInt MaxChance
     @ ''. 0 means the default, which exact mode triples''"

definition kindArgDescription :: string where
  "kindArgDescription = ''Which counter to rank by: '' @ statsKindNames"

definition repeatArgDescription :: string where
  "repeatArgDescription = ''Repeat schedule: 5-field cron ('' @ dq ''0 9 * * *'' @ ''), @daily, or @every 12h''"

definition clearRepeatSentinel :: string where "clearRepeatSentinel = ''none''"

definition limit_description :: "int \<Rightarrow> int \<Rightarrow> string" where
  "limit_description most dflt =
     ''How many to show, up to '' @ FormatInt most @ '' (default '' @ FormatInt dflt @ '')''"

definition numberDefaultLower :: int where "numberDefaultLower = 0"
definition numberDefaultUpper :: int where "numberDefaultUpper = 10"

text \<open>An argument and a command as a composite literal leaves them: the fields not given are zero.\<close>

definition argument :: "string \<Rightarrow> string \<Rightarrow> int \<Rightarrow> arg" where
  "argument name description typ = \<lparr>arg_Name = name, arg_Description = description, arg_Type = typ,
     arg_Required = False, arg_Default = None\<rparr>"

definition required :: "string \<Rightarrow> string \<Rightarrow> int \<Rightarrow> arg" where
  "required name description typ = (argument name description typ)\<lparr>arg_Required := True\<rparr>"

definition declare_command :: "string \<Rightarrow> string \<Rightarrow> handler_id \<Rightarrow> handler_id command" where
  "declare_command name description h = \<lparr>cmd_Name = name, cmd_Aliases = [], cmd_Description = description,
     cmd_Args = [], cmd_Group = [], cmd_Sub = [], cmd_Clearance = 0, cmd_Slow = False,
     cmd_Ephemeral = False, cmd_Handler = Some h\<rparr>"

definition grouped :: "string \<Rightarrow> string \<Rightarrow> 'h command \<Rightarrow> 'h command" where
  "grouped grp sub cmd = cmd\<lparr>cmd_Group := grp, cmd_Sub := sub, cmd_Clearance := CLEARANCE_REGISTERED,
     cmd_Slow := True, cmd_Ephemeral := True\<rparr>"

section \<open>Localisations and aliases\<close>

record localization =
  loc_names :: "(string \<times> string) list"
  loc_descriptions :: "(string \<times> string) list"

definition health_name_ja :: string where
  "health_name_ja = concat (map encode_rune
    [0x30D8, 0x30EB, 0x30B9, 0x30C1, 0x30A7, 0x30C3, 0x30AF])"

definition health_description_ja :: string where
  "health_description_ja = concat (map encode_rune
    [0x44, 0x42, 0x306A, 0x3069, 0x306E, 0x30B5, 0x30FC, 0x30D3, 0x30B9, 0x306E,
     0x30D8, 0x30EB, 0x30B9, 0x30C1, 0x30A7, 0x30C3, 0x30AF, 0x3002])"

definition commandLocalizations :: "(string \<times> localization) list" where
  "commandLocalizations =
    [(''healthcheck'', \<lparr>loc_names = [(''ja'', health_name_ja)], loc_descriptions = [(''ja'', health_description_ja)]\<rparr>),
     (''doubles'', \<lparr>loc_names = [(''fi'', ''tuplat'')], loc_descriptions = []\<rparr>),
     (''triples'', \<lparr>loc_names = [(''fi'', ''triplat'')], loc_descriptions = []\<rparr>)]"

definition commandChatAliases :: "(string \<times> string list) list" where
  "commandChatAliases =
    [(''doubles'', [''tuplat'', ''tuplilla'', ''tuplil'']),
     (''triples'', [''triplat'', ''triploilla'', ''triploil'']),
     (''quads'', [''quadit'', ''quadeilla'', ''quadeil'']),
     (''quints'', [''quintit'', ''quinteill'' @ [CHR 0xC3, CHR 0xA4], ''quinteil'']),
     (''sexts'', [''sextit'', ''sexteill'' @ [CHR 0xC3, CHR 0xA4], ''sexteil''])]"

definition commandGroupDescriptions :: "string \<Rightarrow> string" where
  "commandGroupDescriptions g =
    (if g = reminderGroup then ''Create and manage your reminders''
     else if g = triggerGroup then ''Create and manage auto-responder triggers'' else [])"

fun append_unique :: "(nat \<Rightarrow> nat) \<Rightarrow> string list \<Rightarrow> string list \<Rightarrow> string list" where
  "append_unique lc seen [] = []"
| "append_unique lc seen (alias # rest) =
    (let key = fold_name lc alias in
     if key \<in> set seen then append_unique lc seen rest else alias # append_unique lc (key # seen) rest)"

definition chatAliases :: "(nat \<Rightarrow> nat) \<Rightarrow> string \<Rightarrow> string list" where
  "chatAliases lc name =
    (let localized = (case map_of commandLocalizations name of None \<Rightarrow> [] | Some l \<Rightarrow> map snd (loc_names l));
         colloquial = (case map_of commandChatAliases name of None \<Rightarrow> [] | Some as \<Rightarrow> as)
     in sort (append_unique lc [] (sort localized @ colloquial)))"

section \<open>The declarations\<close>

definition triggerAddCommand :: "handler_id command" where
  "triggerAddCommand = grouped triggerGroup ''add''
     ((declare_command ''triggeradd'' ''Create an auto-responder that fires when a phrase appears in chat'' AddTriggerH)
       \<lparr>cmd_Aliases := [''triggercreate''],
        cmd_Args := [required ''phrase'' ''What to look for in a message'' ArgString,
          argument ''reply'' ''Text to reply with; required unless you give a file'' ArgString,
          argument ''file'' fileArgDescription ArgString,
          argument ''chance'' chanceArgDescription ArgInt,
          argument ''mode'' modeArgDescription ArgString]\<rparr>)"

definition trigger_id_arg :: arg where
  "trigger_id_arg = required ''id'' ''Trigger id or ref'' ArgString"

definition triggerDelCommand :: "handler_id command" where
  "triggerDelCommand = grouped triggerGroup ''del''
     ((declare_command ''triggerdel'' ''Delete one of your triggers by id'' DeleteTriggerH)
       \<lparr>cmd_Aliases := [''triggerremove''], cmd_Args := [trigger_id_arg]\<rparr>)"

definition triggerModCommand :: "handler_id command" where
  "triggerModCommand = grouped triggerGroup ''mod''
     ((declare_command ''triggermod'' ''Change one of your triggers'' ModifyTriggerH)
       \<lparr>cmd_Aliases := [''triggeredit''],
        cmd_Args := [trigger_id_arg,
          argument ''phrase'' ''New phrase to look for; omit to keep it'' ArgString,
          argument ''reply'' ''New reply text; omit to keep it'' ArgString,
          argument ''file'' fileArgDescription ArgString,
          argument ''chance'' chanceArgDescription ArgInt,
          argument ''mode'' modeArgDescription ArgString]\<rparr>)"

definition triggerListCommand :: "handler_id command" where
  "triggerListCommand = grouped triggerGroup ''list''
     ((declare_command ''triggers'' ''List the triggers on this server'' ListTriggersH)
       \<lparr>cmd_Aliases := [''triggerlist''],
        cmd_Args := [argument ''search'' ''Only triggers whose phrase contains this'' ArgString,
          argument ''all'' (''List everyone'' @ apostrophe @ ''s triggers on this server, not just your own'') ArgBool,
          argument ''limit'' (limit_description triggerListMaxLimit triggerListDefaultLimit) ArgInt,
          argument ''offset'' ''Skip this many triggers, for paging past the limit'' ArgInt]\<rparr>)"

definition triggerInfoCommand :: "handler_id command" where
  "triggerInfoCommand = grouped triggerGroup ''info''
     ((declare_command ''triggerinfo'' ''Show one trigger in detail'' TriggerInfoH)
       \<lparr>cmd_Args := [trigger_id_arg]\<rparr>)"

definition triggerStatsCommand :: "handler_id command" where
  "triggerStatsCommand = grouped triggerGroup ''stats''
     ((declare_command ''triggerstats'' ''Show the most-fired triggers on this server'' TriggerStatsH)
       \<lparr>cmd_Args := [argument ''kind'' kindArgDescription ArgString,
          argument ''limit'' (limit_description triggerStatsMaxLimit triggerStatsDefaultLimit) ArgInt]\<rparr>)"

definition triggerExecCommand :: "handler_id command" where
  "triggerExecCommand = (grouped triggerGroup ''exec''
     ((declare_command ''triggerexec'' ''Fire one trigger by id, ignoring its chance'' ExecTriggerH)
       \<lparr>cmd_Aliases := [''triggerbyid''], cmd_Args := [trigger_id_arg]\<rparr>))\<lparr>cmd_Ephemeral := False\<rparr>"

definition remindCommand :: "handler_id command" where
  "remindCommand = grouped reminderGroup ''add''
     ((declare_command ''remind'' (''Set a reminder, e.g. '' @ dq ''in 2 hours'' @ '' '' @ dq ''stretch'') RemindH)
       \<lparr>cmd_Aliases := [''remindme'', ''reminderadd''],
        cmd_Args := [required ''when'' (''When to remind, e.g. '' @ dq ''in 2 hours'' @ '', 2h30m, ''
             @ dq ''next tuesday at 9'') ArgString,
          required ''message'' ''What to remind you about'' ArgString,
          argument ''repeat'' repeatArgDescription ArgString]\<rparr>)"

definition remindersCommand :: "handler_id command" where
  "remindersCommand = grouped reminderGroup ''list'' (declare_command ''reminders'' ''List your reminders'' ListRemindersH)"

definition reminder_id_arg :: arg where
  "reminder_id_arg = required ''id'' ''Reminder id or ref'' ArgString"

definition reminderInfoCommand :: "handler_id command" where
  "reminderInfoCommand = grouped reminderGroup ''info''
     ((declare_command ''reminderinfo'' ''Show one of your reminders'' ReminderInfoH)
       \<lparr>cmd_Aliases := [''reminderdetails''], cmd_Args := [reminder_id_arg]\<rparr>)"

definition reminderDelCommand :: "handler_id command" where
  "reminderDelCommand = grouped reminderGroup ''del''
     ((declare_command ''reminderdel'' ''Delete one or more of your reminders by id'' DeleteRemindersH)
       \<lparr>cmd_Args := [required ''ids'' ''Reminder ids or refs, space-separated'' ArgString]\<rparr>)"

definition reminderModCommand :: "handler_id command" where
  "reminderModCommand = grouped reminderGroup ''mod''
     ((declare_command ''remindermod'' (''Change a reminder'' @ apostrophe @ ''s time, message and repeat'') ModifyReminderH)
       \<lparr>cmd_Args := [reminder_id_arg,
          required ''when'' (''New time, e.g. '' @ dq ''in 2 hours'' @ '', 2h30m'') ArgString,
          required ''message'' ''New message'' ArgString,
          argument ''repeat'' (''New repeat; omit to keep it, '' @ dq clearRepeatSentinel @ '' to remove it'') ArgString]\<rparr>)"

definition pingCommand :: "handler_id command" where
  "pingCommand = (declare_command ''ping'' ''Check that the bot is responding, and how quickly'' PingH)\<lparr>cmd_Slow := True\<rparr>"

definition infoCommand :: "handler_id command" where
  "infoCommand = declare_command ''info''
     (''Show the bot'' @ apostrophe @ ''s version, environment and uptime'') InfoH"

definition helpCommand :: "handler_id command" where
  "helpCommand = (declare_command ''help'' ''List the commands, or explain one of them'' HelpH)
     \<lparr>cmd_Args := [argument ''command'' ''Command to explain. Omit to list them all'' ArgString],
      cmd_Ephemeral := True\<rparr>"

definition registerCommand :: "handler_id command" where
  "registerCommand = (declare_command ''register'' ''Create your GinBot account'' RegisterH)
     \<lparr>cmd_Slow := True, cmd_Ephemeral := True\<rparr>"

definition own_account :: "'h command \<Rightarrow> 'h command" where
  "own_account cmd = cmd\<lparr>cmd_Clearance := CLEARANCE_REGISTERED, cmd_Slow := True, cmd_Ephemeral := True\<rparr>"

definition userInfoCommand :: "handler_id command" where
  "userInfoCommand = own_account (declare_command ''userinfo'' ''Show your GinBot account'' UserInfoH)"

definition localeCommand :: "handler_id command" where
  "localeCommand = own_account
     ((declare_command ''locale'' ''Set your language. Supported: en, fi, ja'' SetLocaleH)
       \<lparr>cmd_Args := [required ''locale'' ''Language code: en, fi or ja'' ArgString]\<rparr>)"

definition timezoneCommand :: "handler_id command" where
  "timezoneCommand = own_account
     ((declare_command ''timezone'' ''Set your timezone, e.g. Europe/Helsinki'' SetTimezoneH)
       \<lparr>cmd_Args := [required ''timezone'' ''IANA timezone name, e.g. Europe/Helsinki'' ArgString]\<rparr>)"

definition healthCheckCommand :: "(nat \<Rightarrow> nat) \<Rightarrow> handler_id command" where
  "healthCheckCommand lc = (declare_command ''healthcheck'' ''Health check of services such as DB.'' HealthCheckH)
     \<lparr>cmd_Aliases := chatAliases lc ''healthcheck'', cmd_Slow := True\<rparr>"

definition numberCommand :: "handler_id command" where
  "numberCommand = (declare_command ''number'' ''Roll a random number between an interval'' NumberH)
     \<lparr>cmd_Args :=
        [(argument ''lower'' ''Lower bound, inclusive. Defaults to 0'' ArgInt)
           \<lparr>arg_Default := Some (VInt64 numberDefaultLower)\<rparr>,
         (argument ''upper'' ''Upper bound, exclusive. Defaults to 10'' ArgInt)
           \<lparr>arg_Default := Some (VInt64 numberDefaultUpper)\<rparr>],
      cmd_Slow := True\<rparr>"

definition digitRolls :: "digitRoll list" where
  "digitRolls =
    [\<lparr>roll_name = ''doubles'', roll_description = ''Roll for doubles'', roll_digits = 2\<rparr>,
     \<lparr>roll_name = ''triples'', roll_description = ''Roll for triples'', roll_digits = 3\<rparr>,
     \<lparr>roll_name = ''quads'', roll_description = ''Roll for quads'', roll_digits = 4\<rparr>,
     \<lparr>roll_name = ''quints'', roll_description = ''Roll for quints'', roll_digits = 5\<rparr>,
     \<lparr>roll_name = ''sexts'', roll_description = ''Roll for sexts'', roll_digits = 6\<rparr>]"

definition digitRollCommands :: "(nat \<Rightarrow> nat) \<Rightarrow> handler_id command list" where
  "digitRollCommands lc = map (\<lambda>roll. (declare_command (roll_name roll) (roll_description roll) (DigitRollH roll))
     \<lparr>cmd_Aliases := chatAliases lc (roll_name roll), cmd_Slow := True\<rparr>) digitRolls"

definition commandDefinitions :: "(nat \<Rightarrow> nat) \<Rightarrow> handler_id command list" where
  "commandDefinitions lc =
    [healthCheckCommand lc, helpCommand, infoCommand, localeCommand, numberCommand, pingCommand,
     registerCommand, remindCommand, remindersCommand, reminderDelCommand, reminderInfoCommand,
     reminderModCommand, timezoneCommand, triggerAddCommand, triggerDelCommand, triggerExecCommand,
     triggerInfoCommand, triggerListCommand, triggerModCommand, triggerStatsCommand, userInfoCommand]
    @ digitRollCommands lc"

section \<open>Application commands\<close>

datatype app_option = AppOption (op_Name: string) (op_Description: string) (op_Type: int) (op_Required: bool)
  (op_Options: "app_option list")

record application_command =
  ac_Name :: string
  ac_Description :: string
  ac_Options :: "app_option list"
  ac_Localization :: "localization option"

text \<open>Discord's numbers of the option types.\<close>

definition OptionSubCommand :: int where "OptionSubCommand = 1"
definition OptionString :: int where "OptionString = 3"
definition OptionInteger :: int where "OptionInteger = 4"
definition OptionBoolean :: int where "OptionBoolean = 5"

definition applicationCommandOptionType :: "int \<Rightarrow> int" where
  "applicationCommandOptionType argType =
    (if argType = ArgInt then OptionInteger else if argType = ArgBool then OptionBoolean else OptionString)"

definition applicationCommandOptions :: "arg list \<Rightarrow> app_option list" where
  "applicationCommandOptions as = map (\<lambda>a. AppOption (arg_Name a) (arg_Description a)
     (applicationCommandOptionType (arg_Type a)) (arg_Required a) []) as"

definition subCommandOption :: "'h command \<Rightarrow> app_option" where
  "subCommandOption cmd = AppOption (cmd_Sub cmd) (cmd_Description cmd) OptionSubCommand False
     (applicationCommandOptions (cmd_Args cmd))"

text \<open>A missing localisation, or a map of it that is empty, leaves the field unset.\<close>

definition topLevelApplicationCommand :: "'h command \<Rightarrow> application_command" where
  "topLevelApplicationCommand cmd = \<lparr>ac_Name = cmd_Name cmd, ac_Description = cmd_Description cmd,
     ac_Options = applicationCommandOptions (cmd_Args cmd),
     ac_Localization = map_of commandLocalizations (cmd_Name cmd)\<rparr>"

text \<open>The applications so far, and the position of the parent of every group by its folded name.\<close>

definition add_application :: "(nat \<Rightarrow> nat) \<Rightarrow> 'h command
     \<Rightarrow> application_command list \<times> (string \<rightharpoonup> nat) \<Rightarrow> application_command list \<times> (string \<rightharpoonup> nat)" where
  "add_application lc cmd st =
    (let (apps, parents) = st in
     if cmd_Group cmd = [] then (apps @ [topLevelApplicationCommand cmd], parents)
     else
       let key = to_lower lc (cmd_Group cmd);
           (i, apps', parents') = (case parents key of
               Some i \<Rightarrow> (i, apps, parents)
             | None \<Rightarrow> (length apps, apps @ [\<lparr>ac_Name = cmd_Group cmd,
                 ac_Description = commandGroupDescriptions (cmd_Group cmd), ac_Options = [],
                 ac_Localization = None\<rparr>], parents(key \<mapsto> length apps)))
       in (apps'[i := (apps' ! i)\<lparr>ac_Options := ac_Options (apps' ! i) @ [subCommandOption cmd]\<rparr>], parents'))"

definition applicationCommands :: "(nat \<Rightarrow> nat) \<Rightarrow> 'h registry \<Rightarrow> application_command list" where
  "applicationCommands lc r = fst (fold (add_application lc) (All_commands r) ([], Map.empty))"

section \<open>Discord's limits\<close>

definition maxCommandName :: nat where "maxCommandName = 32"
definition maxCommandDescription :: nat where "maxCommandDescription = 100"
definition maxOptionName :: nat where "maxOptionName = 32"
definition maxOptionDescription :: nat where "maxOptionDescription = 100"
definition maxOptionsPerCommand :: nat where "maxOptionsPerCommand = 25"

lemmas discord_limits = maxCommandName_def maxCommandDescription_def maxOptionName_def
  maxOptionDescription_def maxOptionsPerCommand_def

text \<open>What is wrong, with the enclosing names and the length found.\<close>

datatype invalid_definition =
    NameLength "string list" nat | NotLowercase "string list" | DescriptionLength "string list" nat
  | TooManyOptions "string list" nat

fun validateApplicationCommandOption ::
  "(nat \<Rightarrow> nat) \<Rightarrow> string list \<Rightarrow> app_option \<Rightarrow> invalid_definition + unit"
and validate_options :: "(nat \<Rightarrow> nat) \<Rightarrow> string list \<Rightarrow> app_option list \<Rightarrow> invalid_definition + unit" where
  "validateApplicationCommandOption lc path (AppOption name description typ req options) =
    (let here = path @ [name] in
     if name = [] \<or> maxOptionName < length name then Inl (NameLength here (length name))
     else if name \<noteq> to_lower lc name then Inl (NotLowercase here)
     else if description = [] \<or> maxOptionDescription < length description
       then Inl (DescriptionLength here (length description))
     else if maxOptionsPerCommand < length options then Inl (TooManyOptions here (length options))
     else validate_options lc here options)"
| "validate_options lc path [] = Inr ()"
| "validate_options lc path (o1 # os) =
     and_then (validateApplicationCommandOption lc path o1) (\<lambda>_. validate_options lc path os)"

definition validate_application :: "(nat \<Rightarrow> nat) \<Rightarrow> application_command \<Rightarrow> invalid_definition + unit" where
  "validate_application lc a =
    (let here = [ac_Name a] in
     if ac_Name a = [] \<or> maxCommandName < length (ac_Name a) then Inl (NameLength here (length (ac_Name a)))
     else if ac_Name a \<noteq> to_lower lc (ac_Name a) then Inl (NotLowercase here)
     else if ac_Description a = [] \<or> maxCommandDescription < length (ac_Description a)
       then Inl (DescriptionLength here (length (ac_Description a)))
     else if maxOptionsPerCommand < length (ac_Options a) then Inl (TooManyOptions here (length (ac_Options a)))
     else validate_options lc here (ac_Options a))"

fun validateApplicationCommands :: "(nat \<Rightarrow> nat) \<Rightarrow> application_command list \<Rightarrow> invalid_definition + unit" where
  "validateApplicationCommands lc [] = Inr ()"
| "validateApplicationCommands lc (a # as) =
     and_then (validate_application lc a) (\<lambda>_. validateApplicationCommands lc as)"

section \<open>Start-up\<close>

text \<open>A failure ends the process (\<open>log.Z.Fatal\<close>).\<close>

datatype init_error = CannotRegister string register_error | NoGroupDescription string
  | InvalidDefinition invalid_definition

fun register_definitions :: "(nat \<Rightarrow> nat) \<Rightarrow> 'h command list \<Rightarrow> 'h registry \<Rightarrow> init_error + 'h registry" where
  "register_definitions lc [] r = Inr r"
| "register_definitions lc (cmd # cmds) r =
    (case Register lc cmd r of
       (Inl err, r') \<Rightarrow> Inl (CannotRegister (cmd_Name cmd) err)
     | (Inr _, r') \<Rightarrow> register_definitions lc cmds r')"

definition initCommands :: "(nat \<Rightarrow> nat) \<Rightarrow> init_error + handler_id registry" where
  "initCommands lc =
    and_then (register_definitions lc (commandDefinitions lc) NewRegistry) (\<lambda>r.
    and_then (case find (\<lambda>g. commandGroupDescriptions g = []) (Groups r) of
        Some g \<Rightarrow> Inl (NoGroupDescription g) | None \<Rightarrow> Inr ()) (\<lambda>_.
    case validateApplicationCommands lc (applicationCommands lc r) of
      Inl err \<Rightarrow> Inl (InvalidDefinition err)
    | Inr _ \<Rightarrow> Inr r))"

section \<open>What validation accepts\<close>

text \<open>Discord's limits, at every depth of an option.\<close>

fun option_ok :: "(nat \<Rightarrow> nat) \<Rightarrow> app_option \<Rightarrow> bool" where
  "option_ok lc (AppOption name description typ req options) \<longleftrightarrow>
     name \<noteq> [] \<and> length name \<le> 32 \<and> name = to_lower lc name \<and> description \<noteq> [] \<and> length description \<le> 100
     \<and> length options \<le> 25 \<and> list_all (option_ok lc) options"

definition application_ok :: "(nat \<Rightarrow> nat) \<Rightarrow> application_command \<Rightarrow> bool" where
  "application_ok lc a \<longleftrightarrow> ac_Name a \<noteq> [] \<and> length (ac_Name a) \<le> 32 \<and> ac_Name a = to_lower lc (ac_Name a)
     \<and> ac_Description a \<noteq> [] \<and> length (ac_Description a) \<le> 100 \<and> length (ac_Options a) \<le> 25
     \<and> list_all (option_ok lc) (ac_Options a)"

lemma validate_option_iff:
  "validateApplicationCommandOption lc path o1 = Inr () \<longleftrightarrow> option_ok lc o1"
  "validate_options lc path os = Inr () \<longleftrightarrow> list_all (option_ok lc) os"
  by (induction lc path o1 and lc path os rule: validateApplicationCommandOption_validate_options.induct)
    (auto simp: Let_def discord_limits not_less)

lemma validate_application_iff: "validate_application lc a = Inr () \<longleftrightarrow> application_ok lc a"
  by (auto simp: validate_application_def application_ok_def Let_def discord_limits validate_option_iff)

lemma validate_applications_iff: "validateApplicationCommands lc as = Inr () \<longleftrightarrow> list_all (application_ok lc) as"
  by (induction as) (auto simp: validate_application_iff)

section \<open>Every command of the registry is an application command\<close>

definition group_key :: "(nat \<Rightarrow> nat) \<Rightarrow> 'h command \<Rightarrow> string" where
  "group_key lc cmd = to_lower lc (cmd_Group cmd)"

definition in_group :: "(nat \<Rightarrow> nat) \<Rightarrow> string \<Rightarrow> 'h command \<Rightarrow> bool" where
  "in_group lc key cmd \<longleftrightarrow> cmd_Group cmd \<noteq> [] \<and> group_key lc cmd = key"

definition group_keys :: "(nat \<Rightarrow> nat) \<Rightarrow> 'h command list \<Rightarrow> string set" where
  "group_keys lc cmds = group_key lc ` {c \<in> set cmds. cmd_Group c \<noteq> []}"

definition parent_of :: "(nat \<Rightarrow> nat) \<Rightarrow> 'h command list \<Rightarrow> string \<Rightarrow> application_command \<Rightarrow> bool" where
  "parent_of lc cmds key a \<longleftrightarrow> to_lower lc (ac_Name a) = key
     \<and> ac_Description a = commandGroupDescriptions (ac_Name a)
     \<and> ac_Options a = map subCommandOption (filter (in_group lc key) cmds)"

text \<open>
  The state of the translation after a prefix of the commands: every key of a group has its
  parent, everything else is a top-level command, in the order of the commands.
\<close>

definition translated :: "(nat \<Rightarrow> nat) \<Rightarrow> 'h command list \<Rightarrow> application_command list \<times> (string \<rightharpoonup> nat) \<Rightarrow> bool" where
  "translated lc cmds st \<longleftrightarrow> (let (apps, parents) = st in
     dom parents = group_keys lc cmds
     \<and> (\<forall>key i. parents key = Some i \<longrightarrow> i < length apps \<and> parent_of lc cmds key (apps ! i))
     \<and> (\<forall>c \<in> set cmds. cmd_Group c = [] \<longrightarrow> (\<exists>i < length apps. i \<notin> ran parents \<and> apps ! i = topLevelApplicationCommand c))
     \<and> length apps = length (filter (\<lambda>c. cmd_Group c = []) cmds) + card (group_keys lc cmds))"

lemma translatedD:
  assumes "translated lc cmds (apps, parents)"
  shows "dom parents = group_keys lc cmds"
    and "parents key = Some i \<Longrightarrow> i < length apps" and "parents key = Some i \<Longrightarrow> parent_of lc cmds key (apps ! i)"
    and "d \<in> set cmds \<Longrightarrow> cmd_Group d = [] \<Longrightarrow>
      \<exists>i < length apps. i \<notin> ran parents \<and> apps ! i = topLevelApplicationCommand d"
    and "length apps = length (filter (\<lambda>c. cmd_Group c = []) cmds) + card (group_keys lc cmds)"
  using assms unfolding translated_def Let_def split by blast+

lemma group_keys_snoc: "group_keys lc (cmds @ [c]) =
    (if cmd_Group c = [] then group_keys lc cmds else insert (group_key lc c) (group_keys lc cmds))"
  by (auto simp: group_keys_def)

lemma finite_group_keys [simp]: "finite (group_keys lc cmds)"
  by (simp add: group_keys_def)

lemma ungrouped_step:
  assumes "translated lc cmds (apps, parents)" and "cmd_Group c = []"
  shows "translated lc (cmds @ [c]) (apps @ [topLevelApplicationCommand c], parents)"
proof -
  have fresh: "length apps \<notin> ran parents" using translatedD(2) [OF assms(1)] by (auto simp: ran_def)
  have "parent_of lc (cmds @ [c]) key a = parent_of lc cmds key a" for key a
    using assms(2) by (simp add: parent_of_def in_group_def)
  moreover have "\<exists>i < Suc (length apps). i \<notin> ran parents \<and> (apps @ [topLevelApplicationCommand c]) ! i = topLevelApplicationCommand d"
    if d: "d \<in> set cmds \<union> {c}" "cmd_Group d = []" for d
  proof (cases "d = c")
    case True
    then show ?thesis using fresh by (intro exI [of _ "length apps"]) simp
  next
    case False
    then obtain i where "i < length apps" "i \<notin> ran parents" "apps ! i = topLevelApplicationCommand d"
      using translatedD(4) [OF assms(1)] d False by blast
    then show ?thesis by (intro exI [of _ i]) (simp add: nth_append)
  qed
  ultimately show ?thesis using assms
    by (auto simp: translated_def group_keys_snoc nth_append intro: less_SucI)
qed

lemma parent_grows:
  assumes "parent_of lc cmds key a" and "cmd_Group c \<noteq> []"
  shows "key = group_key lc c \<Longrightarrow> parent_of lc (cmds @ [c]) key (a\<lparr>ac_Options := ac_Options a @ [subCommandOption c]\<rparr>)"
    and "key \<noteq> group_key lc c \<Longrightarrow> parent_of lc (cmds @ [c]) key a"
  using assms by (auto simp: parent_of_def in_group_def)

lemma new_parent:
  assumes "group_key lc c \<notin> group_keys lc cmds" and "cmd_Group c \<noteq> []"
  shows "parent_of lc (cmds @ [c]) (group_key lc c) \<lparr>ac_Name = cmd_Group c,
     ac_Description = commandGroupDescriptions (cmd_Group c), ac_Options = [subCommandOption c], ac_Localization = None\<rparr>"
proof -
  have "filter (in_group lc (group_key lc c)) cmds = []"
    using assms(1) unfolding filter_empty_conv in_group_def group_keys_def by (metis (mono_tags, lifting) image_eqI mem_Collect_eq)
  with assms(2) show ?thesis by (simp add: parent_of_def in_group_def group_key_def)
qed

lemma add_application_translated:
  assumes "translated lc cmds (apps, parents)"
  shows "translated lc (cmds @ [c]) (add_application lc c (apps, parents))"
proof (cases "cmd_Group c = []")
  case True
  with ungrouped_step [OF assms] show ?thesis by (simp add: add_application_def)
next
  case False
  note inv = translatedD [OF assms]
  have keys: "group_keys lc (cmds @ [c]) = insert (group_key lc c) (group_keys lc cmds)" using False by (simp add: group_keys_snoc)
  show ?thesis
  proof (cases "parents (group_key lc c)")
    case (Some i)
    then have old: "group_key lc c \<in> group_keys lc cmds" using inv(1) by blast
    have other: "j \<noteq> i" if "parents key = Some j" "key \<noteq> group_key lc c" for key j
      using inv(3) [OF that(1)] inv(3) [OF Some] that(2) by (auto simp: parent_of_def)
    define apps' where "apps' = apps[i := (apps ! i)\<lparr>ac_Options := ac_Options (apps ! i) @ [subCommandOption c]\<rparr>]"
    have step: "add_application lc c (apps, parents) = (apps', parents)"
      using False Some by (simp add: add_application_def group_key_def apps'_def)
    have "j < length apps' \<and> parent_of lc (cmds @ [c]) key (apps' ! j)" if "parents key = Some j" for key j
    proof (cases "key = group_key lc c")
      case True
      then have j: "j = i" using that Some by simp
      have i: "i < length apps" and "parent_of lc cmds key (apps ! i)" using inv(2,3) that j by blast+
      from parent_grows(1) [OF this(2) False True] i show ?thesis by (simp only: apps'_def j length_list_update nth_list_update_eq)
    next
      case ne: False
      with other [OF that ne] inv(2,3) [OF that] parent_grows(2) [OF _ False ne] show ?thesis by (simp add: apps'_def)
    qed
    moreover have "\<exists>j<length apps'. j \<notin> ran parents \<and> apps' ! j = topLevelApplicationCommand d"
      if d: "d \<in> set cmds" "cmd_Group d = []" for d
    proof -
      obtain j where j: "j < length apps" "j \<notin> ran parents" "apps ! j = topLevelApplicationCommand d"
        using inv(4) [OF d] by blast
      moreover have "j \<noteq> i" using j(2) Some by (auto simp: ran_def)
      ultimately show ?thesis by (auto simp: apps'_def)
    qed
    moreover have "length apps' = length apps" by (simp add: apps'_def)
    ultimately show ?thesis using inv(1,5) old False by (auto simp: step translated_def keys insert_absorb)
  next
    case None
    then have new: "group_key lc c \<notin> group_keys lc cmds" using inv(1) by blast
    let ?a = "\<lparr>ac_Name = cmd_Group c, ac_Description = commandGroupDescriptions (cmd_Group c),
      ac_Options = [subCommandOption c], ac_Localization = None\<rparr>"
    have step: "add_application lc c (apps, parents) = (apps @ [?a], parents(group_key lc c \<mapsto> length apps))"
      using False None by (simp add: add_application_def group_key_def)
    have "j < length apps \<and> parent_of lc (cmds @ [c]) key (apps ! j)" if "parents key = Some j" for key j
    proof -
      have "key \<noteq> group_key lc c" using that None by auto
      with inv(2,3) [OF that] parent_grows(2) [OF _ False] show ?thesis by blast
    qed
    then have "j < Suc (length apps) \<and> parent_of lc (cmds @ [c]) key ((apps @ [?a]) ! j)"
      if "(parents(group_key lc c \<mapsto> length apps)) key = Some j" for key j
      using that new_parent [OF new False] by (auto simp: nth_append split: if_splits intro: less_SucI)
    moreover have "\<exists>j<Suc (length apps). j \<notin> ran (parents(group_key lc c \<mapsto> length apps))
        \<and> (apps @ [?a]) ! j = topLevelApplicationCommand d" if d: "d \<in> set cmds" "cmd_Group d = []" for d
    proof -
      obtain j where "j < length apps" "j \<notin> ran parents" "apps ! j = topLevelApplicationCommand d"
        using inv(4) [OF d] by blast
      then show ?thesis using None by (intro exI [of _ j]) (auto simp: nth_append)
    qed
    ultimately show ?thesis using inv(1,5) new False by (auto simp: step translated_def keys card_insert_if)
  qed
qed

lemma fold_translated:
  "translated lc done st \<Longrightarrow> translated lc (done @ cmds) (fold (add_application lc) cmds st)"
proof (induction cmds arbitrary: "done" st)
  case (Cons c cmds)
  from Cons.prems have "translated lc (done @ [c]) (add_application lc c st)"
    by (cases st) (simp add: add_application_translated)
  from Cons.IH [OF this] show ?case by simp
qed simp

text \<open>
  The slash surface is complete: whatever the registry holds, each command without a group is
  an application command of its own with its arguments as options, the commands of a group (its
  name compared after folding) are, in the registry's order, the subcommands of one parent that
  carries the group's description, and there is nothing else.
\<close>

theorem applications_complete:
  defines "cmds \<equiv> \<lambda>r. All_commands r"
  shows "(\<forall>cmd \<in> set (cmds r). cmd_Group cmd = [] \<longrightarrow> topLevelApplicationCommand cmd \<in> set (applicationCommands lc r))
    \<and> (\<forall>cmd \<in> set (cmds r). cmd_Group cmd \<noteq> [] \<longrightarrow>
         (\<exists>a \<in> set (applicationCommands lc r). to_lower lc (ac_Name a) = to_lower lc (cmd_Group cmd)
            \<and> ac_Description a = commandGroupDescriptions (ac_Name a)
            \<and> ac_Options a = map subCommandOption
                (filter (\<lambda>c. cmd_Group c \<noteq> [] \<and> to_lower lc (cmd_Group c) = to_lower lc (cmd_Group cmd)) (cmds r))))
    \<and> length (applicationCommands lc r) = length (filter (\<lambda>c. cmd_Group c = []) (cmds r))
        + card (to_lower lc ` cmd_Group ` {c \<in> set (cmds r). cmd_Group c \<noteq> []})"
proof -
  have "translated lc [] ([], Map.empty)" by (simp add: translated_def group_keys_def)
  from fold_translated [OF this, of "cmds r"] obtain parents where
    inv: "translated lc (cmds r) (applicationCommands lc r, parents)"
    by (simp add: applicationCommands_def cmds_def) (metis prod.collapse)
  note inv = translatedD [OF inv]
  have "topLevelApplicationCommand cmd \<in> set (applicationCommands lc r)" if "cmd \<in> set (cmds r)" "cmd_Group cmd = []" for cmd
    using inv(4) [OF that] by (metis nth_mem)
  moreover have "\<exists>a \<in> set (applicationCommands lc r). parent_of lc (cmds r) (group_key lc cmd) a"
    if "cmd \<in> set (cmds r)" "cmd_Group cmd \<noteq> []" for cmd
  proof -
    have "group_key lc cmd \<in> group_keys lc (cmds r)" using that by (auto simp: group_keys_def)
    then obtain i where "parents (group_key lc cmd) = Some i" using inv(1) by blast
    from inv(2,3) [OF this] show ?thesis by (metis nth_mem)
  qed
  moreover have "group_keys lc (cmds r) = to_lower lc ` cmd_Group ` {c \<in> set (cmds r). cmd_Group c \<noteq> []}"
    by (auto simp: group_keys_def group_key_def image_image)
  ultimately show ?thesis
    using inv(5) by (simp add: parent_of_def in_group_def [abs_def] group_key_def)
qed

definition two_commands :: "handler_id registry" where
  "two_commands = snd (Register id triggerAddCommand (snd (Register id pingCommand NewRegistry)))"

lemma two_commands_All: "All_commands two_commands = [pingCommand, triggerAddCommand]"
  by code_simp

theorem applications_complete_witness:
  "topLevelApplicationCommand pingCommand \<in> set (applicationCommands id two_commands)
   \<and> length (applicationCommands id two_commands) = 2"
proof -
  have "cmd_Group pingCommand = []" "cmd_Group triggerAddCommand = ''trigger''"
    by (simp_all add: pingCommand_def triggerAddCommand_def grouped_def declare_command_def triggerGroup_def)
  then show ?thesis
    using applications_complete [of two_commands id] by (simp add: two_commands_All Collect_conv_if conj_disj_distribR Collect_disj_eq)
qed

section \<open>Starting\<close>

lemma register_definitions_Inr:
  "register_definitions lc cmds r = Inr r' \<Longrightarrow> registry_ok lc r \<Longrightarrow> registry_ok lc r'
     \<and> (\<forall>n c. map_of (reg_commands r) n = Some c \<longrightarrow> map_of (reg_commands r') n = Some c)
     \<and> (\<forall>cmd \<in> set cmds. map_of (reg_commands r') (fold_name lc (cmd_Name cmd)) = Some cmd)"
proof (induction cmds arbitrary: r)
  case (Cons cmd cmds)
  from Cons.prems(1) obtain r1 where reg: "Register lc cmd r = (Inr (), r1)" "register_definitions lc cmds r1 = Inr r'"
    by (auto split: prod.splits sum.splits)
  have "registry_ok lc r1" using Register_keeps [OF Cons.prems(2), of cmd] reg(1) by simp
  with Cons.IH [OF reg(2)] Register_extends [OF Cons.prems(2), of _ _ cmd] Register_registers [OF reg(1)] reg(1)
  show ?case by auto
qed simp

lemma started:
  assumes "initCommands lc = Inr r"
  shows "registry_ok lc r \<and> list_all (application_ok lc) (applicationCommands lc r)
    \<and> (\<forall>cmd \<in> set (commandDefinitions lc). map_of (reg_commands r) (fold_name lc (cmd_Name cmd)) = Some cmd)"
  using assms register_definitions_Inr [OF _ NewRegistry_ok, of lc "commandDefinitions lc" r]
  by (auto simp: initCommands_def validate_applications_iff split: option.splits sum.splits)

end
