(* ===== verification/TriggerStore.thy ===== *)
theory TriggerStore
  imports TriggerMatch DestinationStore "HOL-Library.Product_Lexorder"
begin

text \<open>
  The trigger, trigger_instance and file tables with the statements of \<open>pkg/db/trigger.go\<close> and
  \<open>pkg/db/file.go\<close>, and the rows of \<open>internal/model/model.go\<close> they return. The checks, unique
  indexes and foreign keys of the migrations are part of the statements that can violate them.
  \<open>lower\<close> is Postgres' \<open>lower\<close>, \<open>ilike\<close> its \<open>ILIKE\<close>; generated ids and the clock are
  arguments. \<open>updated_at\<close>, which a database trigger keeps, is left out. An id is the canonical
  text of a uuid, whose order is the order of the column.
\<close>

section \<open>Rows\<close>

record trigger_row =
  t_ID :: string
  t_Phrase :: string
  t_Reply :: "string option"
  t_FileID :: "string option"
  t_UserID :: "string option"
  t_Chance :: int
  t_Mode :: trigger_mode
  t_Deleted :: bool
  t_CreatedAt :: instant
  t_Ref :: int

record file_row =
  f_ID :: string
  f_Category :: int
  f_Path :: string
  f_MimeType :: string
  f_ByteSize :: int
  f_FileHash :: string
  f_OriginalFilename :: string
  f_Deleted :: bool
  f_CreatedAt :: instant

record fire_row =
  fr_ActionType :: int
  fr_ActorID :: "string option"
  fr_SubjectID :: "string option"
  fr_Timestamp :: instant

text \<open>
  \<open>fires\<close> holds the rows of action_record with a subject; \<open>next_ref\<close> is the sequence behind
  \<open>trigger.ref\<close>, which a failed insert does not give back; \<open>places\<close> are the shared tables.
\<close>

record trigger_db =
  triggers :: "trigger_row list"
  trigger_instances :: "(string \<times> int) list"
  files :: "file_row list"
  fires :: "fire_row list"
  next_trigger_ref :: int
  places :: db

datatype trigger_error = ErrExactPhraseTaken | ErrNoInstance | ErrTriggerNotFound | ErrStatement

section \<open>Triggers: writes\<close>

record create_trigger_params =
  tp_Phrase :: string
  tp_Reply :: string
  tp_FileID :: string
  tp_UserID :: string
  tp_Chance :: int
  tp_Mode :: trigger_mode
  tp_InstanceIDs :: "int list"

text \<open>The \<open>CHECK\<close>s of the table, the file's foreign key, and the partial unique index.\<close>

definition file_known :: "trigger_db \<Rightarrow> string option \<Rightarrow> bool" where
  "file_known s fid = (case fid of None \<Rightarrow> True | Some i \<Rightarrow> list_ex (\<lambda>f. f_ID f = i) (files s))"

definition row_valid :: "trigger_row \<Rightarrow> trigger_db \<Rightarrow> bool" where
  "row_valid r s \<longleftrightarrow> (t_Reply r \<noteq> None \<or> t_FileID r \<noteq> None) \<and> 0 \<le> t_Chance r \<and> t_Chance r \<le> 100
     \<and> file_known s (t_FileID r)"

definition exact_live :: "trigger_row \<Rightarrow> bool" where
  "exact_live r \<longleftrightarrow> t_Mode r = MODE_EXACT \<and> \<not> t_Deleted r"

definition phrase_taken :: "(string \<Rightarrow> string) \<Rightarrow> trigger_row \<Rightarrow> trigger_db \<Rightarrow> bool" where
  "phrase_taken lower r s \<longleftrightarrow> exact_live r \<and>
     list_ex (\<lambda>r'. t_ID r' \<noteq> t_ID r \<and> exact_live r' \<and> lower (t_Phrase r') = lower (t_Phrase r)) (triggers s)"

definition instance_known :: "trigger_db \<Rightarrow> int \<Rightarrow> bool" where
  "instance_known s i \<longleftrightarrow> list_ex (\<lambda>r. i_ID r = i) (instances (places s))"

fun add_pairs :: "string \<Rightarrow> int list \<Rightarrow> (string \<times> int) list \<Rightarrow> (string \<times> int) list" where
  "add_pairs tid [] pairs = pairs"
| "add_pairs tid (i # is) pairs =
     add_pairs tid is (if (tid, i) \<in> set pairs then pairs else pairs @ [(tid, i)])"

definition new_row :: "string \<Rightarrow> instant \<Rightarrow> create_trigger_params \<Rightarrow> int \<Rightarrow> trigger_row" where
  "new_row newID now p ref = \<lparr>t_ID = newID, t_Phrase = tp_Phrase p, t_Reply = nullStr (tp_Reply p),
     t_FileID = nullStr (tp_FileID p), t_UserID = nullStr (tp_UserID p), t_Chance = tp_Chance p,
     t_Mode = tp_Mode p, t_Deleted = False, t_CreatedAt = now, t_Ref = ref\<rparr>"

definition CreateTrigger ::
  "(string \<Rightarrow> string) \<Rightarrow> string \<Rightarrow> instant \<Rightarrow> create_trigger_params \<Rightarrow> trigger_db
     \<Rightarrow> (trigger_error + string \<times> int) \<times> trigger_db" where
  "CreateTrigger lower newID now p s =
    (if tp_InstanceIDs p = [] then (Inl ErrNoInstance, s)
     else
       let ref = next_trigger_ref s;
           s1 = s\<lparr>next_trigger_ref := ref + 1\<rparr>;
           row = new_row newID now p ref
       in if \<not> row_valid row s1 then (Inl ErrStatement, s1)
          else if phrase_taken lower row s1 then (Inl ErrExactPhraseTaken, s1)
          else if \<not> list_all (instance_known s1) (tp_InstanceIDs p) then (Inl ErrStatement, s1)
          else (Inr (newID, ref), s1\<lparr>triggers := triggers s1 @ [row],
             trigger_instances := add_pairs newID (tp_InstanceIDs p) (trigger_instances s1)\<rparr>))"

record trigger_update =
  tu_ID :: string
  tu_UserID :: string
  tu_UpdatePhrase :: bool
  tu_Phrase :: string
  tu_UpdateReply :: bool
  tu_Reply :: string
  tu_UpdateFile :: bool
  tu_FileID :: string
  tu_UpdateChance :: bool
  tu_Chance :: int
  tu_UpdateMode :: bool
  tu_Mode :: trigger_mode

definition patched :: "trigger_update \<Rightarrow> trigger_row \<Rightarrow> trigger_row" where
  "patched u r = r\<lparr>
     t_Phrase := (if tu_UpdatePhrase u then tu_Phrase u else t_Phrase r),
     t_Reply := (if tu_UpdateReply u then nullStr (tu_Reply u) else t_Reply r),
     t_FileID := (if tu_UpdateFile u then nullStr (tu_FileID u) else t_FileID r),
     t_Chance := (if tu_UpdateChance u then tu_Chance u else t_Chance r),
     t_Mode := (if tu_UpdateMode u then tu_Mode u else t_Mode r)\<rparr>"

definition own_trigger :: "string \<Rightarrow> string \<Rightarrow> trigger_row \<Rightarrow> bool" where
  "own_trigger tid userID r \<longleftrightarrow> t_ID r = tid \<and> t_UserID r = Some userID \<and> \<not> t_Deleted r"

definition UpdateTriggerByUser ::
  "(string \<Rightarrow> string) \<Rightarrow> trigger_update \<Rightarrow> trigger_db \<Rightarrow> (trigger_error + unit) \<times> trigger_db" where
  "UpdateTriggerByUser lower u s =
    (case find (own_trigger (tu_ID u) (tu_UserID u)) (triggers s) of
       None \<Rightarrow> (Inl ErrTriggerNotFound, s)
     | Some r \<Rightarrow>
         if \<not> row_valid (patched u r) s then (Inl ErrStatement, s)
         else if phrase_taken lower (patched u r) s then (Inl ErrExactPhraseTaken, s)
         else (Inr (), s\<lparr>triggers := map (\<lambda>r. if own_trigger (tu_ID u) (tu_UserID u) r
             then patched u r else r) (triggers s)\<rparr>))"

definition SoftDeleteTriggerByUser ::
  "string \<Rightarrow> string \<Rightarrow> trigger_db \<Rightarrow> (trigger_error + unit) \<times> trigger_db" where
  "SoftDeleteTriggerByUser tid userID s =
    (if \<not> list_ex (own_trigger tid userID) (triggers s) then (Inl ErrTriggerNotFound, s)
     else (Inr (), s\<lparr>triggers := map (\<lambda>r. if own_trigger tid userID r then r\<lparr>t_Deleted := True\<rparr> else r)
         (triggers s)\<rparr>))"

definition RecordTriggerFire :: "int \<Rightarrow> string \<Rightarrow> string \<Rightarrow> instant \<Rightarrow> trigger_db \<Rightarrow> trigger_db" where
  "RecordTriggerFire actionType triggerID actorID now s =
     s\<lparr>fires := fires s @ [\<lparr>fr_ActionType = actionType, fr_ActorID = nullStr actorID,
        fr_SubjectID = nullStr triggerID, fr_Timestamp = now\<rparr>]\<rparr>"

section \<open>Triggers: reads\<close>

definition GetTrigger :: "trigger_db \<Rightarrow> string \<Rightarrow> trigger_row option" where
  "GetTrigger s tid = find (\<lambda>r. t_ID r = tid \<and> \<not> t_Deleted r) (triggers s)"

definition GetTriggerByRef :: "trigger_db \<Rightarrow> int \<Rightarrow> trigger_row option" where
  "GetTriggerByRef s ref = find (\<lambda>r. t_Ref r = ref \<and> \<not> t_Deleted r) (triggers s)"

definition ListTriggerInstanceIDs :: "trigger_db \<Rightarrow> string \<Rightarrow> int list" where
  "ListTriggerInstanceIDs s tid = map snd (filter (\<lambda>p. fst p = tid) (trigger_instances s))"

text \<open>A \<open>TriggerInstance\<close> message.\<close>

record trigger_instance =
  ti_PlatformEnum :: "int option"
  ti_InstanceMeta :: "meta option"

definition instance_messages :: "trigger_db \<Rightarrow> int \<Rightarrow> trigger_instance list" where
  "instance_messages s i =
     map (\<lambda>r. \<lparr>ti_PlatformEnum = Some (i_Platform r), ti_InstanceMeta = Some (i_Meta r)\<rparr>)
       (filter (\<lambda>r. i_ID r = i \<and> \<not> i_Deleted r) (instances (places s)))"

definition GetTriggerInstances :: "trigger_db \<Rightarrow> string \<Rightarrow> trigger_instance list" where
  "GetTriggerInstances s tid = concat (map (instance_messages s) (ListTriggerInstanceIDs s tid))"

definition GetTriggerInstancesBatch ::
  "trigger_db \<Rightarrow> string list \<Rightarrow> (string \<rightharpoonup> trigger_instance list)" where
  "GetTriggerInstancesBatch s ids = (\<lambda>tid.
     if tid \<in> set ids \<and> GetTriggerInstances s tid \<noteq> [] then Some (GetTriggerInstances s tid) else None)"

record list_triggers_filter =
  tf_UserID :: string
  tf_InstanceID :: int
  tf_PhraseSearch :: string
  tf_ReplySearch :: string
  tf_Mode :: "int option"
  tf_PeriodStart :: "instant option"
  tf_PeriodEnd :: "instant option"
  tf_Limit :: int
  tf_Offset :: int

definition defaultTriggerListLimit :: int where "defaultTriggerListLimit = 50"
definition maxTriggerListLimit :: int where "maxTriggerListLimit = 200"

definition trigger_listed ::
  "(string \<Rightarrow> string \<Rightarrow> bool) \<Rightarrow> trigger_db \<Rightarrow> list_triggers_filter \<Rightarrow> trigger_row \<Rightarrow> bool" where
  "trigger_listed ilike s f r \<longleftrightarrow> \<not> t_Deleted r
     \<and> (tf_UserID f = [] \<or> t_UserID r = Some (tf_UserID f))
     \<and> (tf_InstanceID f = 0 \<or> (t_ID r, tf_InstanceID f) \<in> set (trigger_instances s))
     \<and> (tf_PhraseSearch f = [] \<or> ilike (t_Phrase r) (''%'' @ tf_PhraseSearch f @ ''%''))
     \<and> (tf_ReplySearch f = [] \<or> (case t_Reply r of None \<Rightarrow> False
          | Some x \<Rightarrow> ilike x (''%'' @ tf_ReplySearch f @ ''%'')))
     \<and> (case tf_Mode f of None \<Rightarrow> True | Some m \<Rightarrow> t_Mode r = m)
     \<and> (case tf_PeriodStart f of None \<Rightarrow> True | Some t \<Rightarrow> t \<le> t_CreatedAt r)
     \<and> (case tf_PeriodEnd f of None \<Rightarrow> True | Some t \<Rightarrow> t_CreatedAt r \<le> t)"

definition ListTriggers ::
  "(string \<Rightarrow> string \<Rightarrow> bool) \<Rightarrow> trigger_db \<Rightarrow> list_triggers_filter \<Rightarrow> trigger_row list" where
  "ListTriggers ilike s f =
    (let l1 = (if tf_Limit f \<le> 0 then defaultTriggerListLimit else tf_Limit f);
         limit = (if l1 > maxTriggerListLimit then maxTriggerListLimit else l1);
         offset = max (tf_Offset f) 0
     in take (nat limit) (drop (nat offset)
          (rev (sort_key (\<lambda>r. (t_CreatedAt r, t_ID r)) (filter (trigger_listed ilike s f) (triggers s))))))"

record active_trigger =
  at_ID :: string
  at_Phrase :: string
  at_Chance :: int
  at_Mode :: int

definition ListActiveTriggersByInstance :: "trigger_db \<Rightarrow> int \<Rightarrow> active_trigger list" where
  "ListActiveTriggersByInstance s instanceID =
     map (\<lambda>r. \<lparr>at_ID = t_ID r, at_Phrase = t_Phrase r, at_Chance = t_Chance r, at_Mode = t_Mode r\<rparr>)
       (take MaxCandidates (sort_key t_ID (filter (\<lambda>r. (t_ID r, instanceID) \<in> set (trigger_instances s)
          \<and> \<not> t_Deleted r) (triggers s))))"

record trigger_stat_row =
  ts_TriggerID :: string
  ts_Phrase :: string
  ts_Count :: int
  ts_Chance :: int
  ts_Mode :: int

record trigger_stats_filter =
  sf_InstanceID :: int
  sf_ActionType :: int
  sf_PeriodStart :: "instant option"
  sf_PeriodEnd :: "instant option"
  sf_Limit :: int

definition defaultTriggerStatsLimit :: int where "defaultTriggerStatsLimit = 10"
definition maxTriggerStatsLimit :: int where "maxTriggerStatsLimit = 100"

definition counted :: "trigger_stats_filter \<Rightarrow> string \<Rightarrow> fire_row \<Rightarrow> bool" where
  "counted f tid a \<longleftrightarrow> fr_SubjectID a = Some tid \<and> fr_ActionType a = sf_ActionType f
     \<and> (case sf_PeriodStart f of None \<Rightarrow> True | Some t \<Rightarrow> t \<le> fr_Timestamp a)
     \<and> (case sf_PeriodEnd f of None \<Rightarrow> True | Some t \<Rightarrow> fr_Timestamp a \<le> t)"

definition stat_of :: "trigger_db \<Rightarrow> trigger_stats_filter \<Rightarrow> trigger_row \<Rightarrow> trigger_stat_row" where
  "stat_of s f r = \<lparr>ts_TriggerID = t_ID r, ts_Phrase = t_Phrase r,
     ts_Count = int (length (filter (counted f (t_ID r)) (fires s))),
     ts_Chance = t_Chance r, ts_Mode = t_Mode r\<rparr>"

definition ListTriggerStats :: "trigger_db \<Rightarrow> trigger_stats_filter \<Rightarrow> trigger_stat_row list" where
  "ListTriggerStats s f =
    (let l1 = (if sf_Limit f \<le> 0 then defaultTriggerStatsLimit else sf_Limit f);
         limit = (if l1 > maxTriggerStatsLimit then maxTriggerStatsLimit else l1);
         groups = filter (\<lambda>g. 0 < ts_Count g) (map (stat_of s f)
            (filter (\<lambda>r. (t_ID r, sf_InstanceID f) \<in> set (trigger_instances s) \<and> \<not> t_Deleted r)
               (triggers s)))
     in take (nat limit) (sort_key (\<lambda>g. (- ts_Count g, ts_TriggerID g)) groups))"

section \<open>Files\<close>

definition FileCategoryLocal :: int where "FileCategoryLocal = 2"

definition live_hash :: "string \<Rightarrow> file_row \<Rightarrow> bool" where
  "live_hash hash f \<longleftrightarrow> f_FileHash f = hash \<and> \<not> f_Deleted f"

definition GetOrCreateFileByHash ::
  "string \<Rightarrow> instant \<Rightarrow> string \<Rightarrow> string \<Rightarrow> string \<Rightarrow> int \<Rightarrow> string \<Rightarrow> trigger_db
     \<Rightarrow> (string \<times> bool) \<times> trigger_db" where
  "GetOrCreateFileByHash newID now hash path mimeType byteSize originalFilename s =
    (case find (live_hash hash) (files s) of
       Some f \<Rightarrow> ((f_ID f, False), s\<lparr>files := map (\<lambda>g. if live_hash hash g
           then g\<lparr>f_OriginalFilename := (if f_OriginalFilename g = [] then originalFilename
              else f_OriginalFilename g)\<rparr> else g) (files s)\<rparr>)
     | None \<Rightarrow> ((newID, True), s\<lparr>files := files s @ [\<lparr>f_ID = newID, f_Category = FileCategoryLocal,
           f_Path = path, f_MimeType = mimeType, f_ByteSize = byteSize, f_FileHash = hash,
           f_OriginalFilename = originalFilename, f_Deleted = False, f_CreatedAt = now\<rparr>]\<rparr>))"

definition GetFile :: "trigger_db \<Rightarrow> string \<Rightarrow> file_row option" where
  "GetFile s fid = find (\<lambda>f. f_ID f = fid \<and> \<not> f_Deleted f) (files s)"

definition GetFilesByIDs :: "trigger_db \<Rightarrow> string list \<Rightarrow> (string \<rightharpoonup> file_row)" where
  "GetFilesByIDs s ids = (\<lambda>fid. if fid \<in> set ids then GetFile s fid else None)"

definition orphan :: "trigger_db \<Rightarrow> instant \<Rightarrow> file_row \<Rightarrow> bool" where
  "orphan s olderThan f \<longleftrightarrow> f_Category f = FileCategoryLocal \<and> \<not> f_Deleted f
     \<and> f_CreatedAt f < olderThan
     \<and> \<not> list_ex (\<lambda>r. t_FileID r = Some (f_ID f) \<and> \<not> t_Deleted r) (triggers s)"

definition ListOrphanFiles :: "trigger_db \<Rightarrow> instant \<Rightarrow> int \<Rightarrow> file_row list" where
  "ListOrphanFiles s olderThan limit =
     take (nat limit) (sort_key f_CreatedAt (filter (orphan s olderThan) (files s)))"

definition SoftDeleteFile :: "string \<Rightarrow> trigger_db \<Rightarrow> (trigger_error + unit) \<times> trigger_db" where
  "SoftDeleteFile fid s =
    (if \<not> list_ex (\<lambda>f. f_ID f = fid \<and> \<not> f_Deleted f) (files s) then (Inl ErrTriggerNotFound, s)
     else (Inr (), s\<lparr>files := map (\<lambda>f. if f_ID f = fid \<and> \<not> f_Deleted f
         then f\<lparr>f_Deleted := True\<rparr> else f) (files s)\<rparr>))"

definition FileVisibleToCaller :: "trigger_db \<Rightarrow> string \<Rightarrow> string \<Rightarrow> int \<Rightarrow> bool" where
  "FileVisibleToCaller s fileID userID instanceID \<longleftrightarrow>
     list_ex (\<lambda>r. t_FileID r = Some fileID \<and> \<not> t_Deleted r
       \<and> ((case nullStr userID of None \<Rightarrow> False | Some u \<Rightarrow> t_UserID r = Some u)
          \<or> (t_ID r, instanceID) \<in> set (trigger_instances s))) (triggers s)"

section \<open>The invariant of the tables\<close>

definition exact_phrases :: "(string \<Rightarrow> string) \<Rightarrow> trigger_row list \<Rightarrow> string list" where
  "exact_phrases lower rs = map (lower \<circ> t_Phrase) (filter exact_live rs)"

definition triggers_ok :: "(string \<Rightarrow> string) \<Rightarrow> trigger_db \<Rightarrow> bool" where
  "triggers_ok lower s \<longleftrightarrow> distinct (map t_ID (triggers s)) \<and> distinct (map t_Ref (triggers s))
     \<and> list_all (\<lambda>r. 0 < t_Ref r \<and> t_Ref r < next_trigger_ref s \<and> row_valid r s) (triggers s)
     \<and> distinct (exact_phrases lower (triggers s))"

definition scopes_ok :: "trigger_db \<Rightarrow> bool" where
  "scopes_ok s \<longleftrightarrow> distinct (trigger_instances s)
     \<and> list_all (\<lambda>p. fst p \<in> t_ID ` set (triggers s) \<and> instance_known s (snd p)) (trigger_instances s)
     \<and> list_all (\<lambda>r. t_ID r \<in> fst ` set (trigger_instances s)) (triggers s)"

definition files_ok :: "trigger_db \<Rightarrow> bool" where
  "files_ok s \<longleftrightarrow> distinct (map f_ID (files s))
     \<and> distinct (map f_FileHash (filter (\<lambda>f. \<not> f_Deleted f) (files s)))"

definition trigger_db_ok :: "(string \<Rightarrow> string) \<Rightarrow> trigger_db \<Rightarrow> bool" where
  "trigger_db_ok lower s \<longleftrightarrow> triggers_ok lower s \<and> scopes_ok s \<and> files_ok s \<and> 0 < next_trigger_ref s"

lemmas trigger_invariants = trigger_db_ok_def triggers_ok_def scopes_ok_def files_ok_def

lemma add_pairs_set: "set (add_pairs tid is pairs) = set pairs \<union> Pair tid ` set is"
  by (induction tid "is" pairs rule: add_pairs.induct) auto

lemma add_pairs_distinct: "distinct pairs \<Longrightarrow> distinct (add_pairs tid is pairs)"
  by (induction tid "is" pairs rule: add_pairs.induct) auto

text \<open>What the statements read of a state, for the rows they leave alone.\<close>

lemma file_known_mono:
  "f_ID ` set (files s) \<subseteq> f_ID ` set (files s') \<Longrightarrow> file_known s fid \<Longrightarrow> file_known s' fid"
  by (fastforce simp: file_known_def list_ex_iff split: option.splits)

lemma row_valid_files:
  "f_ID ` set (files s) \<subseteq> f_ID ` set (files s') \<Longrightarrow> row_valid r s \<Longrightarrow> row_valid r s'"
  using file_known_mono by (auto simp: row_valid_def)

lemma file_known_same: "files s = files s' \<Longrightarrow> file_known s fid = file_known s' fid"
  by (cases fid) (simp_all add: file_known_def)

lemma row_valid_same: "files s = files s' \<Longrightarrow> row_valid r s = row_valid r s'"
  using file_known_same [of s s'] by (simp add: row_valid_def)

lemma instance_known_same: "places s = places s' \<Longrightarrow> instance_known s i = instance_known s' i"
  by (simp add: instance_known_def)

lemma row_valid_next [simp]: "row_valid r (s\<lparr>next_trigger_ref := n\<rparr>) = row_valid r s"
  by (rule row_valid_same) simp

lemma phrase_taken_next [simp]: "phrase_taken lower r (s\<lparr>next_trigger_ref := n\<rparr>) = phrase_taken lower r s"
  by (simp add: phrase_taken_def)

lemma instance_known_next [simp]: "instance_known (s\<lparr>next_trigger_ref := n\<rparr>) = instance_known s"
  by (rule ext) (simp add: instance_known_def)

text \<open>A created trigger.\<close>

lemma CreateTrigger_Inr:
  assumes "CreateTrigger lower newID now p s = (Inr res, s')"
  defines "row \<equiv> new_row newID now p (next_trigger_ref s)"
  shows "res = (newID, next_trigger_ref s)" "row_valid row s" "\<not> phrase_taken lower row s"
    "tp_InstanceIDs p \<noteq> []" "list_all (instance_known s) (tp_InstanceIDs p)"
    "s' = s\<lparr>next_trigger_ref := next_trigger_ref s + 1, triggers := triggers s @ [row],
       trigger_instances := add_pairs newID (tp_InstanceIDs p) (trigger_instances s)\<rparr>"
  using assms by (auto simp: CreateTrigger_def Let_def split: if_splits)

lemma CreateTrigger_Inl:
  "CreateTrigger lower newID now p s = (Inl err, s') \<Longrightarrow>
     s' = s \<or> s' = s\<lparr>next_trigger_ref := next_trigger_ref s + 1\<rparr>"
  by (auto simp: CreateTrigger_def Let_def split: if_splits)

lemma new_row_simps [simp]:
  "t_ID (new_row newID now p ref) = newID" "t_Deleted (new_row newID now p ref) = False"
  "t_Ref (new_row newID now p ref) = ref" "t_Phrase (new_row newID now p ref) = tp_Phrase p"
  "t_Mode (new_row newID now p ref) = tp_Mode p" "t_Chance (new_row newID now p ref) = tp_Chance p"
  "t_UserID (new_row newID now p ref) = nullStr (tp_UserID p)"
  "t_FileID (new_row newID now p ref) = nullStr (tp_FileID p)"
  by (simp_all add: new_row_def)

text \<open>Appending one row to the table, or changing the row of one id, under the unique index.\<close>

lemma exact_phrases_append:
  assumes "distinct (exact_phrases lower (triggers s))" and "\<not> phrase_taken lower row s"
    and "t_ID row \<notin> t_ID ` set (triggers s)"
  shows "distinct (exact_phrases lower (triggers s @ [row]))"
proof -
  have "lower (t_Phrase r) \<noteq> lower (t_Phrase row)"
    if "r \<in> set (triggers s)" "exact_live r" "exact_live row" for r
  proof -
    from that(1) assms(3) have "t_ID r \<noteq> t_ID row" by (metis imageI)
    with that assms(2) show ?thesis by (auto simp: phrase_taken_def list_ex_iff)
  qed
  then show ?thesis using assms(1) by (auto simp: exact_phrases_def dest: sym)
qed

lemma trigger_db_ok_next:
  assumes "trigger_db_ok lower s"
  shows "trigger_db_ok lower (s\<lparr>next_trigger_ref := next_trigger_ref s + 1\<rparr>)"
proof -
  have "0 < t_Ref r \<and> t_Ref r < next_trigger_ref s + 1 \<and> row_valid r s" if "r \<in> set (triggers s)" for r
    using assms that by (fastforce simp: trigger_db_ok_def triggers_ok_def list_all_iff)
  then show ?thesis using assms by (simp add: trigger_invariants list_all_iff)
qed

lemma CreateTrigger_ok [keeps]:
  assumes "trigger_db_ok lower s" and "newID \<notin> t_ID ` set (triggers s)"
  shows "trigger_db_ok lower (snd (CreateTrigger lower newID now p s))"
proof (cases "CreateTrigger lower newID now p s")
  case (Pair res s')
  show ?thesis
  proof (cases res)
    case (Inl err)
    with CreateTrigger_Inl Pair have "s' = s \<or> s' = s\<lparr>next_trigger_ref := next_trigger_ref s + 1\<rparr>"
      by blast
    with assms(1) Pair show ?thesis by (auto intro: trigger_db_ok_next)
  next
    case (Inr res')
    note made = CreateTrigger_Inr [OF Pair [unfolded Inr]]
    define row where "row = new_row newID now p (next_trigger_ref s)"
    have id: "t_ID row = newID" "t_Ref row = next_trigger_ref s" by (simp_all add: row_def)
    have s': "triggers s' = triggers s @ [row]" "next_trigger_ref s' = next_trigger_ref s + 1"
      "files s' = files s" "places s' = places s"
      "trigger_instances s' = add_pairs newID (tp_InstanceIDs p) (trigger_instances s)"
      by (simp_all add: made(6) row_def)
    note valid = row_valid_same [OF s'(3)] and known = instance_known_same [OF s'(4)]
    have "distinct (exact_phrases lower (triggers s'))"
      unfolding s'(1) using assms made(3)
      by (intro exact_phrases_append) (simp_all add: trigger_invariants exact_phrases_def row_def)
    then have "triggers_ok lower s'"
      using assms made(2) id
      by (auto simp: trigger_invariants exact_phrases_def valid list_all_iff s' row_def [symmetric])
    moreover have "scopes_ok s'"
      using assms made(4,5) id
      by (auto simp: trigger_invariants known list_all_iff s' add_pairs_set add_pairs_distinct
          image_Un image_image image_constant_conv)
    ultimately show ?thesis using assms(1) by (simp add: trigger_db_ok_def files_ok_def s' Pair)
  qed
qed

text \<open>An update or a deletion: rows of one id change, the keys and the scope stay.\<close>

lemma map_if_keys:
  assumes "\<And>r. k (g r) = k r"
  shows "map k (map (\<lambda>r. if P r then g r else r) rs) = map k rs"
  using assms by simp

lemma patched_simps [simp]:
  "t_ID (patched u r) = t_ID r" "t_Ref (patched u r) = t_Ref r" "t_Deleted (patched u r) = t_Deleted r"
  "t_UserID (patched u r) = t_UserID r" "t_CreatedAt (patched u r) = t_CreatedAt r"
  by (simp_all add: patched_def)

lemma own_trigger_find:
  assumes "distinct (map t_ID rs)" and "find (own_trigger tid userID) rs = Some r"
  shows "\<forall>x \<in> set rs. own_trigger tid userID x = (x = r)"
proof -
  from find_SomeD [OF assms(2)] have r: "r \<in> set rs" "own_trigger tid userID r" by simp_all
  show ?thesis
  proof
    fix x assume "x \<in> set rs"
    moreover have "t_ID x = t_ID r \<Longrightarrow> x = r"
      using assms(1) r(1) \<open>x \<in> set rs\<close> by (simp add: distinct_map inj_on_def)
    ultimately show "own_trigger tid userID x = (x = r)" using r by (auto simp: own_trigger_def)
  qed
qed

lemma exact_phrases_update:
  assumes "distinct (map t_ID rs)" and "distinct (exact_phrases lower rs)" and "r \<in> set rs"
    and "t_ID r' = t_ID r"
    and "exact_live r' \<Longrightarrow> \<forall>x \<in> set rs. t_ID x \<noteq> t_ID r \<longrightarrow> exact_live x \<longrightarrow>
        lower (t_Phrase x) \<noteq> lower (t_Phrase r')"
  shows "distinct (exact_phrases lower (map (\<lambda>x. if x = r then r' else x) rs))"
  using assms
proof (induction rs)
  case (Cons x rs)
  let ?upd = "map (\<lambda>x. if x = r then r' else x)"
  have distinct: "distinct (map t_ID rs)" "distinct (exact_phrases lower rs)"
    using Cons.prems(1,2) by (auto simp: exact_phrases_def split: if_splits)
  show ?case
  proof (cases "x = r")
    case True
    then have notin: "r \<notin> set rs" using Cons.prems(1) by (auto simp: image_iff)
    then have same: "?upd rs = rs" by (induction rs) auto
    have "t_ID y \<noteq> t_ID r" if "y \<in> set rs" for y
      using Cons.prems(1) True that by (auto simp: image_iff)
    then have "exact_live r' \<Longrightarrow> y \<in> set rs \<Longrightarrow> exact_live y \<Longrightarrow>
        lower (t_Phrase y) \<noteq> lower (t_Phrase r')" for y
      using Cons.prems(5) by simp
    then show ?thesis using distinct(2) True by (auto simp: exact_phrases_def same dest: sym)
  next
    case False
    then have r: "r \<in> set rs" using Cons.prems(3) by simp
    have IH: "distinct (exact_phrases lower (?upd rs))"
      by (rule Cons.IH [OF distinct r Cons.prems(4)]) (use Cons.prems(5) in simp)
    have "t_ID x \<noteq> t_ID r" using Cons.prems(1) r by (auto simp: image_iff)
    have "lower (t_Phrase x) \<notin> set (exact_phrases lower (?upd rs))" if live: "exact_live x"
    proof
      assume "lower (t_Phrase x) \<in> set (exact_phrases lower (?upd rs))"
      then obtain y where y: "y \<in> set rs" "exact_live (if y = r then r' else y)"
          "lower (t_Phrase x) = lower (t_Phrase (if y = r then r' else y))"
        by (auto simp: exact_phrases_def)
      show False
      proof (cases "y = r")
        case True
        with y Cons.prems(5) \<open>t_ID x \<noteq> t_ID r\<close> live show False by auto
      next
        case False
        with y have "lower (t_Phrase x) \<in> set (exact_phrases lower rs)"
          by (auto simp: exact_phrases_def)
        with Cons.prems(2) live show False by (simp add: exact_phrases_def)
      qed
    qed
    with IH False show ?thesis by (simp add: exact_phrases_def)
  qed
qed simp

lemma UpdateTriggerByUser_Inr:
  assumes "UpdateTriggerByUser lower u s = (Inr x, s')"
  obtains r where "find (own_trigger (tu_ID u) (tu_UserID u)) (triggers s) = Some r"
    "row_valid (patched u r) s" "\<not> phrase_taken lower (patched u r) s"
    "s' = s\<lparr>triggers := map (\<lambda>r. if own_trigger (tu_ID u) (tu_UserID u) r then patched u r else r)
       (triggers s)\<rparr>"
  using assms by (auto simp: UpdateTriggerByUser_def split: option.splits if_splits)

lemma UpdateTriggerByUser_Inl: "UpdateTriggerByUser lower u s = (Inl err, s') \<Longrightarrow> s' = s"
  by (auto simp: UpdateTriggerByUser_def split: option.splits if_splits)

text \<open>One row of a good table replaced by a row that keeps its keys and satisfies the constraints.\<close>

lemma replace_row_ok:
  assumes ok: "trigger_db_ok lower s" and r: "r \<in> set (triggers s)"
    and keys: "t_ID r' = t_ID r" "t_Ref r' = t_Ref r"
    and valid: "row_valid r' s" and free: "\<not> phrase_taken lower r' s"
  shows "trigger_db_ok lower (s\<lparr>triggers := map (\<lambda>x. if x = r then r' else x) (triggers s)\<rparr>)"
proof -
  let ?rs = "triggers s"
  let ?upd = "map (\<lambda>x. if x = r then r' else x) ?rs"
  let ?s = "s\<lparr>triggers := ?upd\<rparr>"
  have ids: "distinct (map t_ID ?rs)" "distinct (exact_phrases lower ?rs)"
    using ok by (simp_all add: trigger_db_ok_def triggers_ok_def)
  have same: "map t_ID ?upd = map t_ID ?rs" "map t_Ref ?upd = map t_Ref ?rs"
    using keys by (simp_all add: comp_def)
  then have idset: "t_ID ` set ?upd = t_ID ` set ?rs" by (metis set_map)
  have phrases: "distinct (exact_phrases lower ?upd)"
    by (rule exact_phrases_update [OF ids r keys(1)])
      (use free keys(1) in \<open>auto simp: phrase_taken_def list_ex_iff\<close>)
  have valid': "row_valid x ?s = row_valid x s" and known': "instance_known ?s i = instance_known s i" for x i
    by (rule row_valid_same, simp) (rule instance_known_same, simp)
  have rows: "0 < t_Ref x \<and> t_Ref x < next_trigger_ref s \<and> row_valid x s \<and> t_ID x \<in> fst ` set (trigger_instances s)"
    if "x \<in> set ?upd" for x
    using that ok r valid keys by (auto simp: trigger_invariants list_all_iff split: if_splits)
  have "triggers_ok lower ?s"
    using ids same phrases rows ok by (simp add: triggers_ok_def trigger_db_ok_def list_all_iff valid' del: map_map set_map)
  moreover have "scopes_ok ?s"
    using ok rows idset by (simp add: trigger_invariants list_all_iff known' del: set_map)
  moreover have "files_ok ?s" using ok by (simp add: trigger_db_ok_def files_ok_def)
  ultimately show ?thesis using ok by (simp add: trigger_db_ok_def)
qed

lemma own_trigger_map:
  assumes "trigger_db_ok lower s" and "find (own_trigger tid userID) (triggers s) = Some r"
  shows "map (\<lambda>x. if own_trigger tid userID x then g x else x) (triggers s)
     = map (\<lambda>x. if x = r then g r else x) (triggers s)"
  using own_trigger_find [OF _ assms(2)] assms(1) by (auto simp: trigger_db_ok_def triggers_ok_def)

lemma UpdateTriggerByUser_ok [keeps]:
  assumes "trigger_db_ok lower s"
  shows "trigger_db_ok lower (snd (UpdateTriggerByUser lower u s))"
proof (cases "UpdateTriggerByUser lower u s")
  case (Pair res s')
  show ?thesis
  proof (cases res)
    case (Inl err)
    with Pair UpdateTriggerByUser_Inl assms show ?thesis by fastforce
  next
    case (Inr x)
    from Pair [unfolded Inr] obtain r where
      r: "find (own_trigger (tu_ID u) (tu_UserID u)) (triggers s) = Some r"
        "row_valid (patched u r) s" "\<not> phrase_taken lower (patched u r) s"
        "s' = s\<lparr>triggers := map (\<lambda>r. if own_trigger (tu_ID u) (tu_UserID u) r then patched u r else r)
           (triggers s)\<rparr>"
      by (rule UpdateTriggerByUser_Inr)
    from find_SomeD [OF r(1)] have "r \<in> set (triggers s)" by simp
    with replace_row_ok [OF assms this _ _ r(2,3)] show ?thesis
      by (simp add: Pair r(4) own_trigger_map [OF assms r(1)])
  qed
qed

lemma SoftDeleteTriggerByUser_ok [keeps]:
  assumes "trigger_db_ok lower s"
  shows "trigger_db_ok lower (snd (SoftDeleteTriggerByUser tid userID s))"
proof (cases "find (own_trigger tid userID) (triggers s)")
  case None
  then show ?thesis
    using assms by (auto simp: SoftDeleteTriggerByUser_def find_None_iff list_ex_iff)
next
  case (Some r)
  from find_SomeD [OF Some] have r: "r \<in> set (triggers s)" "own_trigger tid userID r" by simp_all
  then have "row_valid (r\<lparr>t_Deleted := True\<rparr>) s"
    using assms by (simp add: trigger_invariants list_all_iff row_valid_def)
  then have "trigger_db_ok lower (s\<lparr>triggers := map (\<lambda>x. if x = r then r\<lparr>t_Deleted := True\<rparr> else x) (triggers s)\<rparr>)"
    by (intro replace_row_ok [OF assms r(1)]) (simp_all add: phrase_taken_def exact_live_def)
  moreover have "list_ex (own_trigger tid userID) (triggers s)" using r by (auto simp: list_ex_iff)
  ultimately show ?thesis
    by (simp add: SoftDeleteTriggerByUser_def own_trigger_map [OF assms Some])
qed

lemma RecordTriggerFire_ok [keeps]:
  "trigger_db_ok lower s \<Longrightarrow> trigger_db_ok lower (RecordTriggerFire a t u now s)"
  using row_valid_same [of s "RecordTriggerFire a t u now s"]
    instance_known_same [of s "RecordTriggerFire a t u now s"]
  by (simp add: trigger_invariants RecordTriggerFire_def)

text \<open>Changing the file table only, keeping every id.\<close>

lemma files_update_ok:
  assumes "trigger_db_ok lower s" and "files_ok (s\<lparr>files := fs\<rparr>)"
    and "f_ID ` set (files s) \<subseteq> f_ID ` set fs"
  shows "trigger_db_ok lower (s\<lparr>files := fs\<rparr>)"
proof -
  have "row_valid r s \<Longrightarrow> row_valid r (s\<lparr>files := fs\<rparr>)" for r
    by (rule row_valid_files) (use assms(3) in simp_all)
  moreover have "instance_known (s\<lparr>files := fs\<rparr>) i = instance_known s i" for i
    by (rule instance_known_same) simp
  ultimately show ?thesis using assms(1,2)
    by (simp add: trigger_db_ok_def triggers_ok_def scopes_ok_def list_all_iff)
qed

lemma live_hashes_update:
  assumes "\<And>f. f_FileHash (g f) = f_FileHash f" and "\<And>f. f_Deleted (g f) = f_Deleted f"
  shows "map f_FileHash (filter (\<lambda>f. \<not> f_Deleted f) (map g fs))
       = map f_FileHash (filter (\<lambda>f. \<not> f_Deleted f) fs)"
  by (induction fs) (simp_all add: assms)

lemma GetOrCreateFileByHash_ok [keeps]:
  assumes "trigger_db_ok lower s" and "newID \<notin> f_ID ` set (files s)"
  shows "trigger_db_ok lower (snd (GetOrCreateFileByHash newID now hash path mt bs fname s))"
proof (cases "find (live_hash hash) (files s)")
  case (Some f)
  define g where "g = (\<lambda>f. if live_hash hash f then f\<lparr>f_OriginalFilename := (if f_OriginalFilename f = []
      then fname else f_OriginalFilename f)\<rparr> else f)"
  have g: "f_ID (g f) = f_ID f" "f_FileHash (g f) = f_FileHash f" "f_Deleted (g f) = f_Deleted f" for f
    by (simp_all add: g_def)
  have run: "snd (GetOrCreateFileByHash newID now hash path mt bs fname s) = s\<lparr>files := map g (files s)\<rparr>"
    by (simp add: GetOrCreateFileByHash_def Some g_def)
  show ?thesis unfolding run
  proof (rule files_update_ok [OF assms(1)])
    show "files_ok (s\<lparr>files := map g (files s)\<rparr>)"
      using assms(1) live_hashes_update [of g, OF g(2,3)]
      by (simp add: trigger_db_ok_def files_ok_def comp_def g(1) del: filter_map)
    show "f_ID ` set (files s) \<subseteq> f_ID ` set (map g (files s))" by (auto simp: image_image g)
  qed
next
  case None
  then have free: "hash \<notin> f_FileHash ` set (filter (\<lambda>f. \<not> f_Deleted f) (files s))"
    by (auto simp: find_None_iff live_hash_def)
  let ?new = "\<lparr>f_ID = newID, f_Category = FileCategoryLocal, f_Path = path, f_MimeType = mt,
    f_ByteSize = bs, f_FileHash = hash, f_OriginalFilename = fname, f_Deleted = False, f_CreatedAt = now\<rparr>"
  have "trigger_db_ok lower (s\<lparr>files := files s @ [?new]\<rparr>)"
    by (rule files_update_ok [OF assms(1)]) (use assms free in \<open>auto simp: trigger_db_ok_def files_ok_def\<close>)
  then show ?thesis by (simp add: GetOrCreateFileByHash_def None)
qed

lemma SoftDeleteFile_ok [keeps]:
  assumes "trigger_db_ok lower s"
  shows "trigger_db_ok lower (snd (SoftDeleteFile fid s))"
proof -
  define g :: "file_row \<Rightarrow> file_row" where "g = (\<lambda>f. if f_ID f = fid \<and> \<not> f_Deleted f then f\<lparr>f_Deleted := True\<rparr> else f)"
  have g: "f_ID (g f) = f_ID f" "f_FileHash (g f) = f_FileHash f" for f by (simp_all add: g_def)
  have "filter (\<lambda>f. \<not> f_Deleted f) (map g fs) = filter (\<lambda>f. \<not> f_Deleted f \<and> f_ID f \<noteq> fid) fs" for fs
    by (induction fs) (auto simp: g_def)
  moreover have "distinct (map f_FileHash (filter (\<lambda>f. \<not> f_Deleted f \<and> f_ID f \<noteq> fid) fs))"
    if "distinct (map f_FileHash (filter (\<lambda>f. \<not> f_Deleted f) fs))" for fs :: "file_row list"
    using that by (induction fs) (auto split: if_splits)
  ultimately have "files_ok (s\<lparr>files := map g (files s)\<rparr>)"
    using assms by (simp add: trigger_db_ok_def files_ok_def comp_def g del: filter_map)
  then have "trigger_db_ok lower (s\<lparr>files := map g (files s)\<rparr>)"
    by (rule files_update_ok [OF assms]) (auto simp: image_image g)
  then show ?thesis using assms by (simp add: SoftDeleteFile_def g_def)
qed

text \<open>Other components only add to the shared tables.\<close>

lemma places_ids_ok:
  assumes "trigger_db_ok lower s" and "i_ID ` set (instances (places s)) \<subseteq> i_ID ` set (instances d)"
  shows "trigger_db_ok lower (s\<lparr>places := d\<rparr>)"
proof -
  have "instance_known s i \<Longrightarrow> instance_known (s\<lparr>places := d\<rparr>) i" for i
    using assms(2) by (fastforce simp: instance_known_def list_ex_iff)
  moreover have "row_valid r (s\<lparr>places := d\<rparr>) = row_valid r s" for r by (rule row_valid_same) simp
  ultimately show ?thesis using assms(1) by (simp add: trigger_invariants list_all_iff)
qed

lemma places_grow_ok [keeps]:
  "trigger_db_ok lower s \<Longrightarrow> set (instances (places s)) \<subseteq> set (instances d) \<Longrightarrow>
     trigger_db_ok lower (s\<lparr>places := d\<rparr>)"
  by (rule places_ids_ok) auto

section \<open>Reachable tables\<close>

text \<open>Any interleaving of the statements, each with fresh uuids where it generates one.\<close>

inductive trigger_reachable :: "(string \<Rightarrow> string) \<Rightarrow> trigger_db \<Rightarrow> bool" for lower where
  empty: "trigger_reachable lower
     \<lparr>triggers = [], trigger_instances = [], files = [], fires = [], next_trigger_ref = 1, places = d\<rparr>"
| create: "trigger_reachable lower s \<Longrightarrow> newID \<notin> t_ID ` set (triggers s) \<Longrightarrow>
     trigger_reachable lower (snd (CreateTrigger lower newID now p s))"
| update: "trigger_reachable lower s \<Longrightarrow> trigger_reachable lower (snd (UpdateTriggerByUser lower u s))"
| delete: "trigger_reachable lower s \<Longrightarrow> trigger_reachable lower (snd (SoftDeleteTriggerByUser tid userID s))"
| fired: "trigger_reachable lower s \<Longrightarrow> trigger_reachable lower (RecordTriggerFire a tid userID now s)"
| new_file: "trigger_reachable lower s \<Longrightarrow> newID \<notin> f_ID ` set (files s) \<Longrightarrow>
     trigger_reachable lower (snd (GetOrCreateFileByHash newID now hash path mt bs fname s))"
| drop_file: "trigger_reachable lower s \<Longrightarrow> trigger_reachable lower (snd (SoftDeleteFile fid s))"
| others: "trigger_reachable lower s \<Longrightarrow> set (instances (places s)) \<subseteq> set (instances d) \<Longrightarrow>
     trigger_reachable lower (s\<lparr>places := d\<rparr>)"

lemma reachable_trigger_db_ok: "trigger_reachable lower s \<Longrightarrow> trigger_db_ok lower s"
proof (induction rule: trigger_reachable.induct)
  case (empty d)
  then show ?case by (simp add: trigger_invariants exact_phrases_def)
qed (simp_all add: keeps)


definition example_places :: db where
  "example_places = empty_db\<lparr>instances := [\<lparr>i_ID = 4, i_Platform = 1, i_Meta = [(''instance_uid'', ''g'')],
     i_DefaultChannel = None, i_Deleted = False\<rparr>]\<rparr>"

definition example_triggers :: trigger_db where
  "example_triggers = snd (CreateTrigger id ''t1'' 7 \<lparr>tp_Phrase = ''hello'', tp_Reply = ''hi'', tp_FileID = [],
     tp_UserID = ''u'', tp_Chance = 30, tp_Mode = MODE_EXACT, tp_InstanceIDs = [4, 4]\<rparr>
     \<lparr>triggers = [], trigger_instances = [], files = [], fires = [], next_trigger_ref = 1,
      places = example_places\<rparr>)"

lemma example_triggers_reachable: "trigger_reachable id example_triggers"
  unfolding example_triggers_def by (rule trigger_reachable.create [OF trigger_reachable.empty]) simp


end
