(* ===== verification/ExpiringMaps.thy ===== *)
theory ExpiringMaps
  imports GoPrelude
begin

text \<open>
  The contract of the in-memory maps whose entries go stale: the forced-fire limiter
  (\<open>pkg/trigger/limiter.go\<close>) and the undo windows (\<open>pkg/discord/undo.go\<close>) both delete dead
  entries in a pruning pass and must not be observably different for it. Also the contract of
  a read-through cache (\<open>pkg/trigger/cache.go\<close>), with the coherence argument its clients use.
  Each locale is interpreted on the code's model in the theory that provides it.
\<close>

section \<open>Maps with entries that go stale\<close>

locale expiring_map =
  fixes live :: "'v \<Rightarrow> int \<Rightarrow> bool"
    and prune :: "int \<Rightarrow> ('k \<rightharpoonup> 'v) \<Rightarrow> ('k \<rightharpoonup> 'v)"
  assumes prune_lookup:
      "prune t m k = (case m k of None \<Rightarrow> None | Some v \<Rightarrow> if live v t then Some v else None)"
    and live_until: "t \<le> t' \<Longrightarrow> live v t' \<Longrightarrow> live v t"
begin

text \<open>What a reader at time \<open>t\<close> can see of a map.\<close>

definition view :: "int \<Rightarrow> ('k \<rightharpoonup> 'v) \<Rightarrow> ('k \<rightharpoonup> 'v)" where
  "view t m = (\<lambda>k. case m k of None \<Rightarrow> None | Some v \<Rightarrow> if live v t then Some v else None)"

lemma prune_is_view: "prune t m = view t m"
  by (rule ext) (simp add: prune_lookup view_def)

lemma view_prune: "t \<le> t' \<Longrightarrow> view t' (prune t m) = view t' m"
  by (rule ext) (auto simp: prune_lookup view_def split: option.splits dest: live_until)

lemma view_same: "view t (view t m) = view t m"
  using view_prune [of t t m] by (simp add: prune_is_view)

lemma view_later: "t \<le> t' \<Longrightarrow> view t m = view t m' \<Longrightarrow> view t' m = view t' m'"
  using view_prune [of t t' m] view_prune [of t t' m'] by (simp add: prune_is_view)

lemma view_update: "view t m = view t m' \<Longrightarrow> view t (m(k \<mapsto> v)) = view t (m'(k \<mapsto> v))"
  by (rule ext) (auto simp: view_def fun_eq_iff split: if_splits)

lemma view_remove: "view t m = view t m' \<Longrightarrow> view t (m(k := None)) = view t (m'(k := None))"
  by (rule ext) (auto simp: view_def fun_eq_iff split: if_splits)

lemma prune_subset: "prune t m k = Some v \<Longrightarrow> m k = Some v \<and> live v t"
  by (auto simp: prune_lookup split: option.splits if_splits)

lemma dom_prune: "dom (prune t m) \<subseteq> dom m"
  by (auto simp: dom_def dest: prune_subset)

end

section \<open>Read-through caches\<close>

locale read_through_cache =
  fixes get :: "'c \<Rightarrow> 'k \<Rightarrow> 'v option"
    and fetch :: "('k \<Rightarrow> 'e + 'v) \<Rightarrow> 'c \<Rightarrow> 'k \<Rightarrow> ('e + 'v) \<times> 'c"
    and evict :: "'c \<Rightarrow> 'k \<Rightarrow> 'c"
  assumes fetch_hit: "get c k = Some v \<Longrightarrow> fetch load c k = (Inr v, c)"
    and fetch_error: "get c k = None \<Longrightarrow> load k = Inl e \<Longrightarrow> fetch load c k = (Inl e, c)"
    and fetch_miss: "get c k = None \<Longrightarrow> load k = Inr v \<Longrightarrow>
       fst (fetch load c k) = Inr v \<and> get (snd (fetch load c k)) = (get c)(k \<mapsto> v)"
    and get_evict: "get (evict c k) = (get c)(k := None)"
begin

text \<open>The cache holds nothing but what the loader would return now.\<close>

definition coherent :: "('k \<Rightarrow> 'e + 'v) \<Rightarrow> 'c \<Rightarrow> bool" where
  "coherent load c \<longleftrightarrow> (\<forall>k v. get c k = Some v \<longrightarrow> load k = Inr v)"

lemma coherent_fetch:
  assumes "coherent load c"
  shows "fst (fetch load c k) = load k \<and> coherent load (snd (fetch load c k))"
proof (cases "get c k")
  case (Some v)
  with assms show ?thesis by (simp add: fetch_hit coherent_def)
next
  case None
  show ?thesis
  proof (cases "load k")
    case (Inl e)
    with None assms show ?thesis by (simp add: fetch_error)
  next
    case (Inr v)
    then show ?thesis
      using fetch_miss [where load = load, OF None, of v] assms by (auto simp: coherent_def)
  qed
qed

lemma get_evict_all: "get (foldl evict c ks) = (get c) |` (- set ks)"
proof (induction ks arbitrary: c)
  case (Cons k ks)
  then show ?case by (auto simp: get_evict restrict_map_def fun_eq_iff)
qed (simp add: restrict_map_def)

text \<open>
  A write to the backing store that changes the loader at the keys \<open>ks\<close> only, followed by the
  eviction of \<open>ks\<close>, keeps the cache coherent.
\<close>

lemma coherent_write:
  assumes "coherent load c" and "\<And>k. k \<notin> set ks \<Longrightarrow> load' k = load k"
  shows "coherent load' (foldl evict c ks)"
  using assms by (auto simp: coherent_def get_evict_all restrict_map_def split: if_splits)

text \<open>
  Writers that change the backing store first and evict later, with readers in between: what the
  cache holds is current but at the keys whose eviction is still pending.
\<close>

definition current_but :: "('k \<Rightarrow> 'e + 'v) \<Rightarrow> 'c \<Rightarrow> 'k list \<Rightarrow> bool" where
  "current_but load c pending \<longleftrightarrow>
     (\<forall>k v. get c k = Some v \<longrightarrow> load k = Inr v \<or> k \<in> set pending)"

lemma current_but_none: "current_but load c [] = coherent load c"
  by (simp add: current_but_def coherent_def)

lemma current_but_fetch:
  assumes "current_but load c pending"
  shows "current_but load (snd (fetch load c k)) pending"
proof (cases "get c k")
  case (Some v)
  with assms show ?thesis by (simp add: fetch_hit)
next
  case None
  show ?thesis
  proof (cases "load k")
    case (Inl e)
    with None assms show ?thesis by (simp add: fetch_error)
  next
    case (Inr v)
    then show ?thesis
      using fetch_miss [where load = load, OF None, of v] assms by (auto simp: current_but_def)
  qed
qed

lemma current_but_write:
  assumes "current_but load c pending" and "\<And>k. k \<notin> set ks \<Longrightarrow> load' k = load k"
  shows "current_but load' c (pending @ ks)"
proof -
  have "load' k = Inr v \<or> k \<in> set pending \<or> k \<in> set ks" if "get c k = Some v" for k v
    using assms that unfolding current_but_def by (cases "k \<in> set ks") auto
  then show ?thesis by (simp add: current_but_def)
qed

lemma current_but_evict:
  assumes "current_but load c (xs @ k # ys)"
  shows "current_but load (evict c k) (xs @ ys)"
  using assms by (auto simp: current_but_def get_evict split: if_splits)

end

end
