(* ===== verification/TriggerRuntime.thy ===== *)
theory TriggerRuntime
  imports TriggerMatch ExpiringMaps
begin

text \<open>
  The two pieces of mutable state behind the trigger handlers: the per-instance cache of
  compiled candidates (\<open>pkg/trigger/cache.go\<close>) and the limiter on forced fires
  (\<open>pkg/trigger/limiter.go\<close>). Both guard their map with one mutex, so each method is one step
  on the map; the clock reading is an argument of the step.
\<close>

section \<open>Cache\<close>

type_synonym 'v cache = "int \<rightharpoonup> 'v"

definition NewCache :: "'v cache" where
  "NewCache = Map.empty"

definition Candidates :: "(int \<Rightarrow> 'e + 'v) \<Rightarrow> 'v cache \<Rightarrow> int \<Rightarrow> ('e + 'v) \<times> 'v cache" where
  "Candidates load c instanceID =
    (case c instanceID of
       Some cached \<Rightarrow> (Inr cached, c)
     | None \<Rightarrow> (case load instanceID of
         Inl err \<Rightarrow> (Inl err, c)
       | Inr loaded \<Rightarrow> (Inr loaded, c(instanceID \<mapsto> loaded))))"

definition Invalidate :: "'v cache \<Rightarrow> int \<Rightarrow> 'v cache" where
  "Invalidate c instanceID = c(instanceID := None)"

definition InvalidateAll :: "'v cache \<Rightarrow> 'v cache" where
  "InvalidateAll c = Map.empty"

interpretation tc: read_through_cache "\<lambda>c. c" Candidates Invalidate
  by unfold_locales (simp_all add: Candidates_def Invalidate_def)

lemma NewCache_coherent: "tc.coherent load NewCache"
  by (simp add: tc.coherent_def NewCache_def)

lemma InvalidateAll_coherent: "tc.coherent load (InvalidateAll c)"
  by (simp add: tc.coherent_def InvalidateAll_def)

section \<open>Forced-fire limiter\<close>

definition ForcedInterval :: duration where
  "ForcedInterval = 60 * Second"

type_synonym limiter = "string \<rightharpoonup> instant"

definition NewForcedLimiter :: limiter where
  "NewForcedLimiter = Map.empty"

definition Allow :: "instant \<Rightarrow> string \<Rightarrow> limiter \<Rightarrow> bool \<times> limiter" where
  "Allow now authorID l =
    (if authorID = [] then (False, l)
     else if (case l authorID of Some t \<Rightarrow> time_sub now t < ForcedInterval | None \<Rightarrow> False)
       then (False, l)
     else (True, l(authorID \<mapsto> now)))"

definition Prune :: "instant \<Rightarrow> limiter \<Rightarrow> limiter" where
  "Prune now l =
    (let cutoff = now + - ForcedInterval in
     (\<lambda>author. case l author of None \<Rightarrow> None
        | Some t \<Rightarrow> if t < cutoff then None else Some t))"

definition recent :: "instant \<Rightarrow> int \<Rightarrow> bool" where
  "recent t now \<longleftrightarrow> \<not> t < now - ForcedInterval"

interpretation lim: expiring_map recent Prune
  by unfold_locales (auto simp: Prune_def recent_def Let_def split: option.splits)

lemma ForcedInterval_ns: "ForcedInterval = 60000000000"
  by (simp add: ForcedInterval_def Second_def)

lemma Allow_refused_by: "time_sub now t < 60000000000 \<longleftrightarrow> now - t < 60000000000"
  by (simp add: time_sub_less max_i64_def)

text \<open>The answer and the next state depend on what is recent only.\<close>

lemma Allow_view:
  assumes "lim.view now l = lim.view now l'"
  shows "fst (Allow now a l) = fst (Allow now a l')
    \<and> lim.view now (snd (Allow now a l)) = lim.view now (snd (Allow now a l'))"
proof -
  have refuses: "(case l a of Some t \<Rightarrow> time_sub now t < ForcedInterval | None \<Rightarrow> False)
      = (case l' a of Some t \<Rightarrow> time_sub now t < ForcedInterval | None \<Rightarrow> False)"
    using fun_cong [OF assms, of a]
    by (auto simp: lim.view_def recent_def Allow_refused_by ForcedInterval_ns
        split: option.splits if_splits)
  show ?thesis
    using lim.view_update [OF assms, of a now] assms by (simp add: Allow_def refuses)
qed

text \<open>A history of calls, in the order they took the lock, and the answers of its \<open>Allow\<close>s.\<close>

datatype limiter_call = CallAllow string instant | CallPrune instant

fun call_time :: "limiter_call \<Rightarrow> instant" where
  "call_time (CallAllow a t) = t"
| "call_time (CallPrune t) = t"

fun run_limiter :: "limiter \<Rightarrow> limiter_call list \<Rightarrow> (string \<times> instant \<times> bool) list" where
  "run_limiter l [] = []"
| "run_limiter l (CallAllow a t # cs) =
     (a, t, fst (Allow t a l)) # run_limiter (snd (Allow t a l)) cs"
| "run_limiter l (CallPrune t # cs) = run_limiter (Prune t l) cs"

fun is_allow :: "limiter_call \<Rightarrow> bool" where
  "is_allow (CallAllow _ _) = True"
| "is_allow (CallPrune _) = False"

lemma run_limiter_view:
  "sorted (map call_time cs) \<Longrightarrow> \<forall>c \<in> set cs. t0 \<le> call_time c \<Longrightarrow> lim.view t0 l = lim.view t0 l' \<Longrightarrow>
     run_limiter l cs = run_limiter l' (filter is_allow cs)"
proof (induction cs arbitrary: l l' t0)
  case (Cons c cs)
  have later: "sorted (map call_time cs)" "\<forall>d \<in> set cs. call_time c \<le> call_time d" "t0 \<le> call_time c"
    using Cons.prems by auto
  have same: "lim.view (call_time c) l = lim.view (call_time c) l'"
    using Cons.prems(3) later(3) by (metis lim.view_later)
  show ?case
  proof (cases c)
    case (CallAllow a t)
    with same have step: "fst (Allow t a l) = fst (Allow t a l')"
      "lim.view t (snd (Allow t a l)) = lim.view t (snd (Allow t a l'))"
      using Allow_view [of t l l' a] by auto
    show ?thesis
      using Cons.IH [OF later(1,2), of "snd (Allow t a l)" "snd (Allow t a l')"] step
      by (simp add: CallAllow)
  next
    case (CallPrune t)
    have "lim.view t (Prune t l) = lim.view t l'"
      using same lim.view_prune [of t t l] by (simp add: CallPrune)
    then show ?thesis
      using Cons.IH [OF later(1,2), of "Prune t l" l'] by (simp add: CallPrune)
  qed
qed simp

lemma run_limiter_no_prune:
  assumes "sorted (map call_time cs)"
  shows "run_limiter l cs = run_limiter l (filter is_allow cs)"
proof (cases cs)
  case (Cons c rest)
  then have "\<forall>d \<in> set cs. call_time c \<le> call_time d" using assms by auto
  then show ?thesis by (rule run_limiter_view [OF assms]) simp
qed simp

text \<open>
  Pruning is invisible: however many prunes are interleaved with a history of forced
  fires whose clock readings do not go back, every \<open>Allow\<close> answers as it would with no prune.
\<close>

theorem Prune_invisible:
  assumes "sorted (map call_time cs)"
  shows "run_limiter l cs = run_limiter l (filter is_allow cs)"
  using assms by (rule run_limiter_no_prune)

theorem Prune_invisible_witness:
  "run_limiter NewForcedLimiter
      [CallAllow ''a'' 0, CallPrune 60000000000, CallAllow ''a'' 60000000000, CallPrune 120000000001]
   = run_limiter NewForcedLimiter [CallAllow ''a'' 0, CallAllow ''a'' 60000000000]"
  using Prune_invisible [of "[CallAllow ''a'' 0, CallPrune 60000000000,
    CallAllow ''a'' 60000000000, CallPrune 120000000001]" NewForcedLimiter] by simp

text \<open>What the limiter remembers about an author is the author's last permitted fire.\<close>

definition spaced :: "(string \<times> instant \<times> bool) list \<Rightarrow> bool" where
  "spaced h \<longleftrightarrow> sorted_wrt (\<lambda>(a, t, ok) (a', t', ok').
      ok \<longrightarrow> ok' \<longrightarrow> a = a' \<longrightarrow> t + 60000000000 \<le> t') h"

lemma run_limiter_after:
  "(a, t, True) \<in> set (run_limiter l (filter is_allow cs)) \<Longrightarrow> l a = Some t0 \<Longrightarrow> t0 + 60000000000 \<le> t"
proof (induction cs arbitrary: l t0)
  case (Cons c cs)
  show ?case
  proof (cases c)
    case (CallAllow a' t')
    show ?thesis
    proof (cases "fst (Allow t' a' l)")
      case True
      show ?thesis
      proof (cases "a' = a")
        case True
        with \<open>fst (Allow t' a' l)\<close> Cons.prems(2) have step: "t0 + 60000000000 \<le> t'"
          "snd (Allow t' a' l) a = Some t'"
          by (auto simp: Allow_def ForcedInterval_ns Allow_refused_by split: if_splits)
        from Cons.prems(1) CallAllow consider "t = t'"
          | "(a, t, True) \<in> set (run_limiter (snd (Allow t' a' l)) (filter is_allow cs))" by auto
        then show ?thesis
        proof cases
          case 2
          from Cons.IH [OF this step(2)] step(1) show ?thesis by simp
        qed (use step in simp)
      next
        case False
        then have "snd (Allow t' a' l) a = Some t0" using Cons.prems(2) by (simp add: Allow_def)
        with Cons.IH Cons.prems(1) CallAllow False show ?thesis by auto
      qed
    next
      case False
      then have "snd (Allow t' a' l) = l" by (auto simp: Allow_def split: if_splits)
      with Cons.IH Cons.prems CallAllow False show ?thesis by auto
    qed
  next
    case (CallPrune t')
    with Cons show ?thesis by simp
  qed
qed simp

lemma spaced_allows: "spaced (run_limiter l (filter is_allow cs))"
proof (induction cs arbitrary: l)
  case (Cons c cs)
  show ?case
  proof (cases c)
    case (CallAllow a t)
    have "\<And>t'. (a, t', True) \<in> set (run_limiter (snd (Allow t a l)) (filter is_allow cs)) \<Longrightarrow>
        fst (Allow t a l) \<Longrightarrow> t + 60000000000 \<le> t'"
      by (rule run_limiter_after [of a _ "snd (Allow t a l)" cs]) (auto simp: Allow_def)
    with Cons.IH [of "snd (Allow t a l)"] show ?thesis
      by (auto simp: CallAllow spaced_def)
  qed (use Cons.IH in simp)
qed (simp add: spaced_def)

text \<open>
  The forced-fire rate limit: in every history of \<open>Allow\<close> and \<open>Prune\<close> calls whose clock
  readings do not go back, two permitted fires of one author are at least 60 seconds apart.
\<close>

theorem forced_fires_spaced:
  assumes "sorted (map call_time cs)"
  shows "spaced (run_limiter NewForcedLimiter cs)"
  using spaced_allows [of NewForcedLimiter cs] run_limiter_no_prune [OF assms, of NewForcedLimiter]
  by simp

theorem forced_fires_spaced_witness:
  "spaced (run_limiter NewForcedLimiter
     [CallAllow ''a'' 0, CallAllow ''b'' 5, CallAllow ''a'' 59999999999, CallAllow ''a'' 60000000000])
   \<and> run_limiter NewForcedLimiter
     [CallAllow ''a'' 0, CallAllow ''b'' 5, CallAllow ''a'' 59999999999, CallAllow ''a'' 60000000000]
     = [(''a'', 0, True), (''b'', 5, True), (''a'', 59999999999, False), (''a'', 60000000000, True)]"
  using forced_fires_spaced [of "[CallAllow ''a'' 0, CallAllow ''b'' 5, CallAllow ''a'' 59999999999,
    CallAllow ''a'' 60000000000]"]
  by (simp add: NewForcedLimiter_def Allow_def ForcedInterval_ns time_sub_def max_i64_def)

end
