(* ===== verification/TriggerMedia.thy ===== *)
theory TriggerMedia
  imports TriggerStore TriggerRuntime RpcInterceptors
begin

text \<open>
  The environment of one trigger RPC, and the part of \<open>pkg/grpc/server/trigger.go\<close> that handles
  files: fetching and storing a reply's media, describing it, and streaming it back (\<open>GetFile\<close>);
  with the sweep of unreferenced files (\<open>pkg/cron/cronjob/orphan.go\<close>). The fetcher, the blob
  store's failures and the reads of a blob are arguments; so are the statements that fail in a
  call, whose failure changes nothing.
\<close>

section \<open>Environment\<close>

datatype trigger_stmt =
    StmtInstance | StmtByRef | StmtGet | StmtScope | StmtList | StmtInstances | StmtFile
  | StmtFileUpsert | StmtCreate | StmtUpdate | StmtDelete | StmtRecord | StmtStats | StmtActive
  | StmtVisible | StmtBlobPut | StmtBlobGet

datatype fetch_error = ErrHostNotAllowed | ErrTooLarge | ErrUnsupportedType | FetchFailed

record fetched =
  fe_Content :: string
  fe_MIMEType :: string
  fe_Filename :: string
  fe_Hash :: string

text \<open>What does not change from call to call: the regular-expression engine and Postgres' text functions.\<close>

record 'p engine =
  en_WordRune :: "nat \<Rightarrow> bool"
  en_Compile :: "string \<Rightarrow> 'p option"
  en_Match :: "'p \<Rightarrow> string \<Rightarrow> bool"
  en_Lower :: "string \<Rightarrow> string"
  en_ILike :: "string \<Rightarrow> string \<Rightarrow> bool"

text \<open>
  One call: its context, the clock, the failing statements, the numbers the roller draws (one for
  the choice, one for the chance), the ids it would generate, and what a download gives.
\<close>

record trigger_env =
  te_Ctx :: call_ctx
  te_Now :: instant
  te_Down :: "trigger_stmt \<Rightarrow> bool"
  te_PickRoll :: "int \<Rightarrow> int"
  te_ChanceRoll :: "int \<Rightarrow> int"
  te_NewTriggerID :: string
  te_NewFileID :: string
  te_Fetch :: "string \<Rightarrow> fetch_error + fetched"

text \<open>The server: the tables, the cache, the limiter, and the blob store (\<open>None\<close> when unset).\<close>

record 'p trigger_state =
  st_DB :: trigger_db
  st_Cache :: "'p candidate list cache"
  st_Limiter :: limiter
  st_Blobs :: "(string \<rightharpoonup> string) option"

definition MaxFileBytes :: int where
  "MaxFileBytes = 8388608"

definition internal :: "string \<Rightarrow> rpc_error" where
  "internal msg = (Internal, msg)"

definition resolved_caller :: "trigger_env \<Rightarrow> user_row rpc" where
  "resolved_caller e = caller_user (te_Ctx e)"

definition getMetadata :: "trigger_env \<Rightarrow> caller_meta rpc" where
  "getMetadata e = (case cx_Meta (te_Ctx e) of
     None \<Rightarrow> Inl (internal ''caller metadata was not resolved'')
   | Some m \<Rightarrow> Inr m)"

definition callerOriginInstanceID :: "trigger_env \<Rightarrow> trigger_db \<Rightarrow> int option" where
  "callerOriginInstanceID e s = (case cx_Origin (te_Ctx e) of
     None \<Rightarrow> None
   | Some o' \<Rightarrow> (case getMetadata e of
       Inl err \<Rightarrow> None
     | Inr m \<Rightarrow>
         if te_Down e StmtInstance then None
         else map_option i_ID (GetInstanceByMeta (cm_PlatformEnum m) (InstanceMeta o') (places s))))"

section \<open>Describing a file\<close>

definition mimeExtensions :: "(string \<times> string) list" where
  "mimeExtensions = [(''image/png'', ''.png''), (''image/jpeg'', ''.jpg''), (''image/gif'', ''.gif''),
     (''image/webp'', ''.webp''), (''video/mp4'', ''.mp4''), (''video/webm'', ''.webm''),
     (''audio/mpeg'', ''.mp3''), (''audio/ogg'', ''.ogg''), (''audio/wave'', ''.wav'')]"

definition displayFilename :: "file_row \<Rightarrow> string" where
  "displayFilename f = (if f_OriginalFilename f \<noteq> [] then f_OriginalFilename f
     else f_ID f @ (case map_of mimeExtensions (f_MimeType f) of None \<Rightarrow> [] | Some x \<Rightarrow> x))"

record trigger_file =
  pf_FileId :: string
  pf_Filename :: string
  pf_MimeType :: string
  pf_ByteSize :: int

definition file_ToProto :: "file_row \<Rightarrow> string \<Rightarrow> trigger_file" where
  "file_ToProto f filename = \<lparr>pf_FileId = f_ID f, pf_Filename = filename, pf_MimeType = f_MimeType f,
     pf_ByteSize = f_ByteSize f\<rparr>"

definition buildTriggerFile :: "trigger_env \<Rightarrow> trigger_db \<Rightarrow> string \<Rightarrow> trigger_file rpc" where
  "buildTriggerFile e s fileID =
    (if te_Down e StmtFile then Inl (internal ''failed to load trigger file'')
     else case GetFile s fileID of
       None \<Rightarrow> Inl (internal ''failed to load trigger file'')
     | Some f \<Rightarrow> Inr (file_ToProto f (displayFilename f)))"

section \<open>Storing a file\<close>

definition mapFetchError :: "fetch_error \<Rightarrow> rpc_error" where
  "mapFetchError err = (case err of
     ErrHostNotAllowed \<Rightarrow> (InvalidArgument, ''file_url host is not allowed'')
   | ErrTooLarge \<Rightarrow> (InvalidArgument, ''file_url content exceeds the maximum size of ''
        @ FormatInt MaxFileBytes @ '' bytes'')
   | ErrUnsupportedType \<Rightarrow> (InvalidArgument, ''file_url content type is not supported'')
   | FetchFailed \<Rightarrow> internal ''failed to fetch file'')"

definition triggerFileKeyPrefix :: string where
  "triggerFileKeyPrefix = ''trigger/''"

definition file_key :: "string \<Rightarrow> string" where
  "file_key hash = triggerFileKeyPrefix @ take 2 hash @ ''/'' @ hash"

definition fetchAndStoreFile ::
  "trigger_env \<Rightarrow> string \<Rightarrow> 'p trigger_state \<Rightarrow> string rpc \<times> 'p trigger_state" where
  "fetchAndStoreFile e fileURL st =
    (case te_Fetch e fileURL of
       Inl err \<Rightarrow> (Inl (mapFetchError err), st)
     | Inr f \<Rightarrow>
         let key = file_key (fe_Hash f) in
         if te_Down e StmtFileUpsert then (Inl (internal ''failed to store file''), st)
         else
           let ((fileID, inserted), d) = GetOrCreateFileByHash (te_NewFileID e) (te_Now e) (fe_Hash f) key
                 (fe_MIMEType f) (i32 (int (length (fe_Content f)))) (fe_Filename f) (st_DB st);
               st1 = st\<lparr>st_DB := d\<rparr>
           in if \<not> inserted then (Inr fileID, st1)
              else (case st_Blobs st1 of
                  None \<Rightarrow> (Inl (internal ''failed to store file''), st1)
                | Some blobs \<Rightarrow>
                    if te_Down e StmtBlobPut then (Inl (internal ''failed to store file''), st1)
                    else (Inr fileID, st1\<lparr>st_Blobs := Some (blobs(key \<mapsto> fe_Content f))\<rparr>)))"

section \<open>Streaming a file back\<close>

text \<open>
  \<open>reads\<close> is what the successive \<open>Read\<close>s of the open blob give: bytes (possibly none) with no
  error, with \<open>io.EOF\<close>, or with another error. \<open>sendFails k\<close> says that the \<open>k\<close>-th \<open>Send\<close> of
  the stream fails, \<open>cancelled k\<close> that the context is done before the \<open>k\<close>-th read. The result
  is \<open>None\<close> while the reads given do not bring the handler to its end.
\<close>

datatype read_end = ReadMore | ReadEOF | ReadFailed

type_synonym read_result = "string \<times> read_end"

datatype file_chunk = ChunkMeta trigger_file | ChunkContent string

definition over_cap :: rpc_error where
  "over_cap = internal ''file exceeds the maximum size''"

fun stream_loop ::
  "(nat \<Rightarrow> bool) \<Rightarrow> (nat \<Rightarrow> bool) \<Rightarrow> nat \<Rightarrow> int \<Rightarrow> read_result list \<Rightarrow> file_chunk list
     \<Rightarrow> unit rpc option \<times> file_chunk list" where
  "stream_loop sendFails cancelled k readSoFar [] sent =
     (if cancelled k then (Some (Inl (Canceled, ''context canceled'')), sent) else (None, sent))"
| "stream_loop sendFails cancelled k readSoFar ((buf, readErr) # reads) sent =
     (if cancelled k then (Some (Inl (Canceled, ''context canceled'')), sent)
      else
        let readNow = readSoFar + int (length buf) in
        if buf \<noteq> [] \<and> readNow > MaxFileBytes then (Some (Inl over_cap), sent)
        else if buf \<noteq> [] \<and> sendFails (length sent) then (Some (Inl (Unknown, ''send'')), sent)
        else
          let sent' = (if buf \<noteq> [] then sent @ [ChunkContent buf] else sent) in
          (case readErr of
             ReadEOF \<Rightarrow> (Some (Inr ()), sent')
           | ReadFailed \<Rightarrow> (Some (Inl (internal ''failed to get file'')), sent')
           | ReadMore \<Rightarrow> stream_loop sendFails cancelled (Suc k) readNow reads sent'))"

definition stream_file ::
  "(nat \<Rightarrow> bool) \<Rightarrow> (nat \<Rightarrow> bool) \<Rightarrow> (string \<Rightarrow> read_result list) \<Rightarrow> file_row \<Rightarrow> string
     \<Rightarrow> unit rpc option \<times> file_chunk list" where
  "stream_file sendFails cancelled reader f blob =
    (if sendFails 0 then (Some (Inl (Unknown, ''send'')), [])
     else stream_loop sendFails cancelled 0 0 (reader blob)
       [ChunkMeta (file_ToProto f (displayFilename f))])"

text \<open>The checks before the first \<open>Send\<close>: the row and the open blob, or the refusal.\<close>

definition file_to_stream :: "trigger_env \<Rightarrow> 'p trigger_state \<Rightarrow> string option \<Rightarrow> (file_row \<times> string) rpc" where
  "file_to_stream e st reqFileID =
    and_then (resolved_caller e) (\<lambda>caller.
    and_then (case reqFileID of None \<Rightarrow> Inl (InvalidArgument, ''file_id is required'')
       | Some fid \<Rightarrow> Inr fid) (\<lambda>fid.
    and_then (if te_Down e StmtFile then Inl (internal ''failed to get file'')
       else case GetFile (st_DB st) fid of None \<Rightarrow> Inl (NotFound, ''file not found'')
       | Some f \<Rightarrow> Inr f) (\<lambda>f.
    let originInstanceID = (case callerOriginInstanceID e (st_DB st) of None \<Rightarrow> 0 | Some i \<Rightarrow> i) in
    and_then (guard_that (\<not> te_Down e StmtVisible) (internal ''failed to get file'')) (\<lambda>_.
    and_then (guard_that (FileVisibleToCaller (st_DB st) (f_ID f) (us_ID caller) originInstanceID)
       (NotFound, ''file not found'')) (\<lambda>_.
    and_then (guard_that (f_ByteSize f \<le> MaxFileBytes) over_cap) (\<lambda>_.
    and_then (case st_Blobs st of None \<Rightarrow> Inl (internal ''failed to get file'')
       | Some blobs \<Rightarrow> Inr blobs) (\<lambda>blobs.
    if te_Down e StmtBlobGet then Inl (internal ''failed to get file'')
    else (case blobs (f_Path f) of None \<Rightarrow> Inl (internal ''failed to get file'')
      | Some blob \<Rightarrow> Inr (f, blob)))))))))"

definition TriggerServer_GetFile ::
  "(nat \<Rightarrow> bool) \<Rightarrow> (nat \<Rightarrow> bool) \<Rightarrow> (string \<Rightarrow> read_result list) \<Rightarrow> trigger_env \<Rightarrow> 'p trigger_state
     \<Rightarrow> string option \<Rightarrow> unit rpc option \<times> file_chunk list" where
  "TriggerServer_GetFile sendFails cancelled reader e st reqFileID =
    (case file_to_stream e st reqFileID of
       Inl err \<Rightarrow> (Some (Inl err), [])
     | Inr (f, blob) \<Rightarrow> stream_file sendFails cancelled reader f blob)"

section \<open>The sweep of unreferenced files\<close>

definition orphanGracePeriod :: duration where "orphanGracePeriod = Hour"
definition orphanBatchLimit :: int where "orphanBatchLimit = 100"

type_synonym sweep_state = "trigger_db \<times> (string \<rightharpoonup> string) option"

text \<open>One orphan: the row first, then the blob; \<open>True\<close> counts it as deleted, \<open>False\<close> as failed.\<close>

definition sweep_one ::
  "(string \<Rightarrow> bool) \<Rightarrow> (string \<Rightarrow> bool) \<Rightarrow> file_row \<Rightarrow> sweep_state \<Rightarrow> bool \<times> sweep_state" where
  "sweep_one rowDown blobDown f st =
    (let (s, blobs) = st in
     if rowDown (f_ID f) then (False, st)
     else (case SoftDeleteFile (f_ID f) s of
         (Inl err, s') \<Rightarrow> (False, (s', blobs))
       | (Inr u, s') \<Rightarrow> (case blobs of
           None \<Rightarrow> (False, (s', blobs))
         | Some m \<Rightarrow> if blobDown (f_Path f) then (False, (s', blobs))
             else (True, (s', Some (m(f_Path f := None)))))))"

fun sweep_loop ::
  "(nat \<Rightarrow> bool) \<Rightarrow> (string \<Rightarrow> bool) \<Rightarrow> (string \<Rightarrow> bool) \<Rightarrow> nat \<Rightarrow> file_row list \<Rightarrow> int \<times> int
     \<Rightarrow> sweep_state \<Rightarrow> (int \<times> int) \<times> sweep_state" where
  "sweep_loop cancelled rowDown blobDown k [] counts st = (counts, st)"
| "sweep_loop cancelled rowDown blobDown k (f # fs) counts st =
     (if cancelled k then (counts, st)
      else (case sweep_one rowDown blobDown f st of
          (True, st') \<Rightarrow> sweep_loop cancelled rowDown blobDown (Suc k) fs (fst counts + 1, snd counts) st'
        | (False, st') \<Rightarrow> sweep_loop cancelled rowDown blobDown (Suc k) fs (fst counts, snd counts + 1) st'))"

definition collectOrphanFiles ::
  "bool \<Rightarrow> (nat \<Rightarrow> bool) \<Rightarrow> (string \<Rightarrow> bool) \<Rightarrow> (string \<Rightarrow> bool) \<Rightarrow> instant \<Rightarrow> sweep_state
     \<Rightarrow> (int \<times> int) \<times> sweep_state" where
  "collectOrphanFiles listDown cancelled rowDown blobDown now st =
    (if listDown then ((0, 0), st)
     else sweep_loop cancelled rowDown blobDown 0
       (ListOrphanFiles (fst st) (now + - orphanGracePeriod) orphanBatchLimit) (0, 0) st)"

section \<open>What a file stream delivers\<close>

definition content_of :: "file_chunk list \<Rightarrow> string" where
  "content_of cs = concat (map (\<lambda>c. case c of ChunkMeta f \<Rightarrow> [] | ChunkContent b \<Rightarrow> b) cs)"

lemma content_of_simps [simp]:
  "content_of [] = []" "content_of (ChunkMeta f # cs) = content_of cs"
  "content_of (ChunkContent b # cs) = b @ content_of cs"
  "content_of (cs @ ds) = content_of cs @ content_of ds"
  by (simp_all add: content_of_def)

text \<open>Reads that give a whole blob: no failure, end of file exactly at the last.\<close>

definition reads_whole :: "read_result list \<Rightarrow> string \<Rightarrow> bool" where
  "reads_whole reads blob \<longleftrightarrow> reads \<noteq> [] \<and> list_all (\<lambda>r. snd r = ReadMore) (butlast reads)
     \<and> snd (last reads) = ReadEOF \<and> concat (map fst reads) = blob"

lemma stream_loop_cap:
  "stream_loop sf cn k n reads sent = (res, sent') \<Longrightarrow> n = int (length (content_of sent)) \<Longrightarrow>
     n \<le> MaxFileBytes \<Longrightarrow>
     int (length (content_of sent')) \<le> MaxFileBytes \<and> prefix sent sent'
     \<and> prefix (content_of sent') (content_of sent @ concat (map fst reads))"
proof (induction sf cn k n reads sent arbitrary: res sent' rule: stream_loop.induct)
  case (1 sf cn k n sent)
  then show ?case by (auto split: if_splits)
next
  case (2 sf cn k n buf err reads sent)
  let ?n = "n + int (length buf)"
  let ?sent = "if buf \<noteq> [] then sent @ [ChunkContent buf] else sent"
  show ?case
  proof (cases "cn k \<or> (buf \<noteq> [] \<and> ?n > MaxFileBytes) \<or> (buf \<noteq> [] \<and> sf (length sent)) \<or> err \<noteq> ReadMore")
    case True
    then show ?thesis using 2(2-4) by (cases err) (auto simp: Let_def split: if_splits)
  next
    case False
    then have run: "stream_loop sf cn (Suc k) ?n reads ?sent = (res, sent')"
      using 2(2) by (auto simp: Let_def split: if_splits)
    have "?n = int (length (content_of ?sent))" "?n \<le> MaxFileBytes" using 2(3,4) False by auto
    from 2(1) [OF _ refl _ _ refl _ run this] False have
      "int (length (content_of sent')) \<le> MaxFileBytes" "prefix ?sent sent'"
      "prefix (content_of sent') (content_of ?sent @ concat (map fst reads))" by auto
    then show ?thesis by (auto split: if_splits intro: prefix_order.trans [of _ "sent @ [ChunkContent buf]"])
  qed
qed

lemma stream_loop_whole:
  assumes "reads_whole reads blob" and "n = int (length (content_of sent))" and "n \<le> MaxFileBytes"
  shows "case stream_loop (\<lambda>_. False) (\<lambda>_. False) k n reads sent of (res, sent') \<Rightarrow>
     (if n + int (length blob) \<le> MaxFileBytes
      then res = Some (Inr ()) \<and> content_of sent' = content_of sent @ blob
      else res = Some (Inl over_cap))"
  using assms
proof (induction reads arbitrary: k n sent blob)
  case (Cons r reads)
  obtain buf err where r: "r = (buf, err)" by fastforce
  show ?case
  proof (cases reads)
    case Nil
    with Cons.prems r show ?thesis by (auto simp: reads_whole_def Let_def)
  next
    case (Cons r' reads')
    have more: "err = ReadMore" and rest: "reads_whole reads (concat (map fst reads))"
      and blob: "blob = buf @ concat (map fst reads)"
      using Cons.prems(1) local.Cons r by (auto simp: reads_whole_def)
    show ?thesis
    proof (cases "buf \<noteq> [] \<and> n + int (length buf) > MaxFileBytes")
      case True
      then show ?thesis by (simp add: r blob Let_def)
    next
      case False
      let ?sent = "if buf \<noteq> [] then sent @ [ChunkContent buf] else sent"
      have "n + int (length buf) = int (length (content_of ?sent))" "n + int (length buf) \<le> MaxFileBytes"
        using Cons.prems(2,3) False by auto
      from Cons.IH [OF rest this, of "Suc k"] False show ?thesis
        by (auto simp: r more blob Let_def split: prod.splits if_splits)
    qed
  qed
qed (simp add: reads_whole_def)

lemma stream_loop_success:
  "reads_whole reads blob \<Longrightarrow> stream_loop sf cn k n reads sent = (Some (Inr ()), sent') \<Longrightarrow>
     content_of sent' = content_of sent @ blob"
proof (induction reads arbitrary: k n sent blob)
  case (Cons r reads)
  obtain buf err where r: "r = (buf, err)" by fastforce
  let ?sent = "if buf \<noteq> [] then sent @ [ChunkContent buf] else sent"
  show ?case
  proof (cases reads)
    case Nil
    with Cons.prems r show ?thesis by (auto simp: reads_whole_def Let_def split: if_splits)
  next
    case (Cons r' reads')
    have more: "err = ReadMore" and rest: "reads_whole reads (concat (map fst reads))"
      and blob: "blob = buf @ concat (map fst reads)"
      using Cons.prems(1) local.Cons r by (auto simp: reads_whole_def)
    have "stream_loop sf cn (Suc k) (n + int (length buf)) reads ?sent = (Some (Inr ()), sent')"
      using Cons.prems(2) by (auto simp: r more Let_def split: if_splits)
    from Cons.IH [OF rest this] show ?thesis by (auto simp: blob)
  qed
qed (simp add: reads_whole_def)

lemma file_to_stream_Inr:
  assumes "file_to_stream e st req = Inr (f, blob)"
  obtains caller blobs where "resolved_caller e = Inr caller" "req = Some (f_ID f)"
      "FileVisibleToCaller (st_DB st) (f_ID f) (us_ID caller)
         (case callerOriginInstanceID e (st_DB st) of None \<Rightarrow> 0 | Some i \<Rightarrow> i)"
      "st_Blobs st = Some blobs" "blobs (f_Path f) = Some blob"
proof -
  have "GetFile (st_DB st) fid = Some f \<Longrightarrow> f_ID f = fid" for fid
    by (auto simp: GetFile_def dest: find_SomeD)
  with assms that show ?thesis
    by (auto simp: file_to_stream_def Let_def split: option.splits if_splits)
qed

lemma stream_file_shape:
  assumes "stream_file sf cn reader f blob = (res, sent)" and "\<And>blob. reads_whole (reader blob) blob"
  shows "sent = [] \<and> res \<noteq> Some (Inr ())
    \<or> (\<exists>rest. sent = ChunkMeta (file_ToProto f (displayFilename f)) # rest)
      \<and> int (length (content_of sent)) \<le> MaxFileBytes \<and> prefix (content_of sent) blob
      \<and> (res = Some (Inr ()) \<longrightarrow> content_of sent = blob)"
proof (cases "sf 0")
  case True
  with assms(1) show ?thesis by (auto simp: stream_file_def)
next
  case False
  let ?meta = "[ChunkMeta (file_ToProto f (displayFilename f))]"
  from assms(1) False have run: "stream_loop sf cn 0 0 (reader blob) ?meta = (res, sent)"
    by (simp add: stream_file_def)
  from stream_loop_cap [OF run] have cap: "int (length (content_of sent)) \<le> MaxFileBytes"
    "prefix ?meta sent" "prefix (content_of sent) (concat (map fst (reader blob)))"
    by (simp_all add: MaxFileBytes_def)
  have "concat (map fst (reader blob)) = blob" using assms(2) by (simp add: reads_whole_def)
  moreover have "res = Some (Inr ()) \<Longrightarrow> content_of sent = blob"
    using stream_loop_success [OF assms(2)] run by fastforce
  ultimately show ?thesis using cap by (auto simp: prefix_def)
qed


text \<open>A blob within the cap is delivered whole when nothing fails; one over it never succeeds.\<close>

lemma stream_file_delivers:
  assumes "\<And>blob. reads_whole (reader blob) blob"
  shows "case stream_file (\<lambda>_. False) (\<lambda>_. False) reader f blob of (res, sent) \<Rightarrow>
     (if int (length blob) \<le> MaxFileBytes then res = Some (Inr ()) \<and> content_of sent = blob
      else res = Some (Inl over_cap))"
  using stream_loop_whole [where reads = "reader blob" and blob = blob and n = 0 and k = 0
      and sent = "[ChunkMeta (file_ToProto f (displayFilename f))]"] assms
  by (simp add: stream_file_def MaxFileBytes_def split: prod.splits)

section \<open>Deduplicated storage\<close>

text \<open>
  The row is committed before the blob is written, and a later upload of the same content finds
  the row and writes nothing: a blob whose write failed once stays missing, while the upload and
  the trigger that uses it succeed.
\<close>

theorem lost_blob_stays_lost:
  assumes "te_Fetch e url = Inr f" and "te_Fetch e2 url = Inr f"
    and "\<not> te_Down e StmtFileUpsert" and "te_Down e StmtBlobPut"
    and "find (live_hash (fe_Hash f)) (files (st_DB st)) = None"
    and "st_Blobs st = Some blobs" and "blobs (file_key (fe_Hash f)) = None"
    and "\<And>x. \<not> te_Down e2 x"
  shows "case fetchAndStoreFile e url st of (res1, st1) \<Rightarrow>
      (case fetchAndStoreFile e2 url st1 of (res2, st2) \<Rightarrow>
         res1 = Inl (internal ''failed to store file'') \<and> res2 = Inr (te_NewFileID e)
         \<and> st_Blobs st2 = Some blobs)"
proof -
  have "find (live_hash (fe_Hash f)) (files (st_DB st) @ [r]) = Some r"
    if "f_FileHash r = fe_Hash f" "\<not> f_Deleted r" for r
    using assms(5) that by (simp add: find_append live_hash_def)
  then show ?thesis
    using assms by (simp add: fetchAndStoreFile_def GetOrCreateFileByHash_def)
qed

section \<open>What a sweep leaves alone\<close>

lemma file_key_inj: "file_key a = file_key b \<Longrightarrow> length a = length b \<Longrightarrow> a = b"
  by (auto simp: file_key_def)

definition paths_ok :: "trigger_db \<Rightarrow> bool" where
  "paths_ok s \<longleftrightarrow> distinct (map f_Path (filter (\<lambda>f. \<not> f_Deleted f) (files s)))"

lemma GetFile_SoftDelete_other:
  fixes g :: file_row
  assumes other: "f_ID g \<noteq> fid"
  shows "GetFile (snd (SoftDeleteFile (f_ID g) s)) fid = GetFile s fid"
proof -
  have "find (\<lambda>f. f_ID f = fid \<and> \<not> f_Deleted f)
      (map (\<lambda>f. if f_ID f = f_ID g \<and> \<not> f_Deleted f then f\<lparr>f_Deleted := True\<rparr> else f) fs)
    = find (\<lambda>f. f_ID f = fid \<and> \<not> f_Deleted f) fs" for fs :: "file_row list"
    using other by (induction fs) auto
  then show ?thesis by (simp add: SoftDeleteFile_def GetFile_def)
qed

lemma SoftDeleteFile_tables [simp]:
  "triggers (snd (SoftDeleteFile fid s)) = triggers s"
  "trigger_instances (snd (SoftDeleteFile fid s)) = trigger_instances s"
  by (simp_all add: SoftDeleteFile_def)

lemma sweep_one_spares:
  assumes "sweep_one rd bd g (s, blobs) = (ok, (s', blobs'))" and "f_ID g \<noteq> fid" and "f_Path g \<noteq> path"
  shows "GetFile s' fid = GetFile s fid \<and> triggers s' = triggers s
    \<and> map_option (\<lambda>m. m path) blobs' = map_option (\<lambda>m. m path) blobs"
proof -
  from assms(1) have "s' = s \<or> s' = snd (SoftDeleteFile (f_ID g) s)"
    and "map_option (\<lambda>m. m path) blobs' = map_option (\<lambda>m. m path) blobs"
    using assms(3) by (auto simp: sweep_one_def Let_def split: if_splits option.splits sum.splits prod.splits)
  then show ?thesis using GetFile_SoftDelete_other [OF assms(2)] by auto
qed

lemma sweep_loop_spares:
  "sweep_loop cn rd bd k gs counts (s, blobs) = (counts', (s', blobs')) \<Longrightarrow>
     \<forall>g \<in> set gs. f_ID g \<noteq> fid \<and> f_Path g \<noteq> path \<Longrightarrow>
     GetFile s' fid = GetFile s fid \<and> triggers s' = triggers s
     \<and> map_option (\<lambda>m. m path) blobs' = map_option (\<lambda>m. m path) blobs"
proof (induction gs arbitrary: k counts s blobs)
  case (Cons g gs)
  obtain ok s1 blobs1 where one: "sweep_one rd bd g (s, blobs) = (ok, (s1, blobs1))"
    using prod_cases3 by blast
  have "f_ID g \<noteq> fid" "f_Path g \<noteq> path" using Cons.prems(2) by simp_all
  note step = sweep_one_spares [OF one this]
  show ?case
  proof (cases "cn k")
    case False
    then obtain counts1 where
      "sweep_loop cn rd bd (Suc k) gs counts1 (s1, blobs1) = (counts', (s', blobs'))"
      using Cons.prems(1) one by (cases ok) auto
    from Cons.IH [OF this] Cons.prems(2) step show ?thesis by simp
  qed (use Cons.prems(1) in simp)
qed simp

text \<open>Paths are keys, and keys are told apart by the hashes, which are all hex digests of one length.\<close>

lemma paths_ok_keys:
  assumes "files_ok s" and "\<And>f. f \<in> set (files s) \<Longrightarrow> \<not> f_Deleted f \<Longrightarrow>
      f_Path f = file_key (f_FileHash f) \<and> length (f_FileHash f) = n"
  shows "paths_ok s"
proof -
  have "f_FileHash f = f_FileHash g" if "f \<in> set (filter (\<lambda>f. \<not> f_Deleted f) (files s))"
      "g \<in> set (filter (\<lambda>f. \<not> f_Deleted f) (files s))" "f_Path f = f_Path g" for f g
    using that assms(2) [of f] assms(2) [of g] file_key_inj [of "f_FileHash f" "f_FileHash g"] by simp
  with assms(1) show ?thesis
    unfolding paths_ok_def files_ok_def distinct_map inj_on_def by blast
qed


section \<open>Concrete runs\<close>

definition example_file :: file_row where
  "example_file = \<lparr>f_ID = ''f1'', f_Category = FileCategoryLocal, f_Path = file_key ''abcd'',
     f_MimeType = ''image/png'', f_ByteSize = 3, f_FileHash = ''abcd'', f_OriginalFilename = [],
     f_Deleted = False, f_CreatedAt = 0\<rparr>"

definition example_media :: trigger_db where
  "example_media = example_triggers\<lparr>files := [example_file, example_file\<lparr>f_ID := ''f2'',
       f_Path := file_key ''ffff'', f_FileHash := ''ffff''\<rparr>],
     triggers := map (\<lambda>r. r\<lparr>t_FileID := Some ''f1''\<rparr>) (triggers example_triggers)\<rparr>"

definition example_blobs :: "string \<rightharpoonup> string" where
  "example_blobs = [file_key ''abcd'' \<mapsto> ''png'', file_key ''ffff'' \<mapsto> ''old'']"


definition example_env :: trigger_env where
  "example_env = \<lparr>te_Ctx = \<lparr>cx_Meta = Some \<lparr>cm_PlatformEnum = 1, cm_PlatformUID = Some ''42''\<rparr>,
       cx_Caller = Some example_user, cx_Origin = Some \<lparr>og_InstanceUID = ''g'', og_DestinationUID = ''c''\<rparr>\<rparr>,
     te_Now = 100, te_Down = (\<lambda>_. False), te_PickRoll = (\<lambda>_. 0), te_ChanceRoll = (\<lambda>_. 0),
     te_NewTriggerID = ''t9'', te_NewFileID = ''f9'',
     te_Fetch = (\<lambda>_. Inr \<lparr>fe_Content = ''png'', fe_MIMEType = ''image/png'', fe_Filename = ''a.png'',
        fe_Hash = ''abcd''\<rparr>)\<rparr>"

definition example_stream :: "unit rpc option \<times> file_chunk list" where
  "example_stream = TriggerServer_GetFile (\<lambda>_. False) (\<lambda>_. False) (\<lambda>blob. [(blob, ReadEOF)]) example_env
      \<lparr>st_DB = example_media, st_Cache = (Map.empty :: unit candidate list cache), st_Limiter = Map.empty,
       st_Blobs = Some example_blobs\<rparr> (Some ''f1'')"


text \<open>
  The listing and the deletion of a sweep are separate statements: a trigger created in between,
  whose upload was deduplicated onto a listed row, loses its file.
\<close>

theorem sweep_race:
  "case GetOrCreateFileByHash ''f3'' 7200000000000 ''ffff'' (file_key ''ffff'') ''image/png'' 3 [] example_media of
     ((fileID, inserted), s1) \<Rightarrow>
   (case CreateTrigger id ''t2'' 7200000000000 \<lparr>tp_Phrase = ''late'', tp_Reply = [], tp_FileID = fileID,
       tp_UserID = ''u'', tp_Chance = 0, tp_Mode = MODE_ANY, tp_InstanceIDs = [4]\<rparr> s1 of (created, s2) \<Rightarrow>
   (case sweep_loop (\<lambda>_. False) (\<lambda>_. False) (\<lambda>_. False) 0
       (ListOrphanFiles example_media (7200000000000 + - orphanGracePeriod) orphanBatchLimit) (0, 0)
       (s2, Some example_blobs) of (counts, (s3, blobs3)) \<Rightarrow>
     fileID = ''f2'' \<and> \<not> inserted \<and> created = Inr (''t2'', 2) \<and> counts = (1, 0)
     \<and> map_option t_FileID (GetTrigger s3 ''t2'') = Some (Some ''f2'') \<and> GetFile s3 ''f2'' = None))"
  by code_simp

end
