(* ===== verification/UrlNorm.thy ===== *)
theory UrlNorm
  imports GoStrings "HOL-Library.Product_Lexorder" "HOL-Library.Multiset"
begin

text \<open>
  URL identities (\<open>pkg/repost/urlnorm\<close>): extraction from text, the generic normalisation, the
  tracking parameters, the host table and \<open>Canonicalise\<close>. Of \<open>net/url\<close>, \<open>Hostname\<close>, \<open>Port\<close>,
  \<open>ParseQuery\<close>, \<open>Values.Encode\<close> and \<open>URL.String\<close> are written out; \<open>url.Parse\<close>, whose grammar
  changes between Go releases, is an argument, and nothing proved here restricts it.
\<close>

section \<open>Standard library\<close>

record url =
  url_Scheme :: string
  url_HasUser :: bool
  url_Host :: string
  url_Path :: string
  url_RawQuery :: string

text \<open>\<open>validOptionalPort\<close>, and the split of \<open>host:port\<close> at the last colon if a port follows it.\<close>

definition validOptionalPort :: "string \<Rightarrow> bool" where
  "validOptionalPort port = (case port of [] \<Rightarrow> True | c # cs \<Rightarrow> c = CHR '':'' \<and> list_all is_digit cs)"

definition splitHostPort :: "string \<Rightarrow> string \<times> string" where
  "splitHostPort hostPort =
    (let after = rev (takeWhile (\<lambda>c. c \<noteq> CHR '':'') (rev hostPort));
         before = take (length hostPort - length after - 1) hostPort;
         (host, port) = (if CHR '':'' \<in> set hostPort \<and> validOptionalPort (CHR '':'' # after)
                         then (before, after) else (hostPort, []))
     in (if prefix ''['' host \<and> suffix '']'' host then butlast (tl host) else host, port))"

definition Hostname :: "url \<Rightarrow> string" where
  "Hostname u = fst (splitHostPort (url_Host u))"

definition Port :: "url \<Rightarrow> string" where
  "Port u = snd (splitHostPort (url_Host u))"

definition IsAbs :: "url \<Rightarrow> bool" where
  "IsAbs u \<longleftrightarrow> url_Scheme u \<noteq> []"

definition hex_digit :: "nat \<Rightarrow> char" where
  "hex_digit n = (if n < 10 then char_of (48 + n) else char_of (55 + n))"

definition is_hex :: "char \<Rightarrow> bool" where
  "is_hex c \<longleftrightarrow> is_digit c \<or> (65 \<le> bv c \<and> bv c \<le> 70) \<or> (97 \<le> bv c \<and> bv c \<le> 102)"

definition unhex :: "char \<Rightarrow> nat" where
  "unhex c = (if is_digit c then bv c - 48 else if bv c \<le> 70 then bv c - 55 else bv c - 87)"

definition unreserved :: "char \<Rightarrow> bool" where
  "unreserved c \<longleftrightarrow> (48 \<le> bv c \<and> bv c \<le> 57) \<or> (65 \<le> bv c \<and> bv c \<le> 90)
     \<or> (97 \<le> bv c \<and> bv c \<le> 122) \<or> c \<in> set ''-_.~''"

definition percent :: "char \<Rightarrow> string" where
  "percent c = [CHR ''%'', hex_digit (bv c div 16), hex_digit (bv c mod 16)]"

text \<open>\<open>escape\<close> in the modes \<open>encodeQueryComponent\<close>, \<open>encodePath\<close> and \<open>encodeHost\<close>.\<close>

definition QueryEscape :: "string \<Rightarrow> string" where
  "QueryEscape s = concat (map (\<lambda>c. if c = CHR '' '' then ''+'' else if unreserved c then [c] else percent c) s)"

definition escape_path :: "string \<Rightarrow> string" where
  "escape_path s = concat (map (\<lambda>c. if unreserved c \<or> c \<in> set ''$&+,/:;=@'' then [c] else percent c) s)"

definition escape_host :: "string \<Rightarrow> string" where
  "escape_host s = concat (map (\<lambda>c. if unreserved c \<or> c \<in> set ''!$&()*+,;=:[]<>'' \<or> c = CHR 0x27 \<or> c = CHR 0x22
     then [c] else percent c) s)"

text \<open>\<open>QueryUnescape\<close>: \<open>None\<close> for a percent sign that two hexadecimal digits do not follow.\<close>

fun QueryUnescape :: "string \<Rightarrow> string option" where
  "QueryUnescape [] = Some []"
| "QueryUnescape (c # cs) =
    (if c = CHR ''%'' then
       (case cs of
          h # l # rest \<Rightarrow> if is_hex h \<and> is_hex l
            then map_option (Cons (char_of (unhex h * 16 + unhex l))) (QueryUnescape rest) else None
        | _ \<Rightarrow> None)
     else map_option (Cons (if c = CHR ''+'' then CHR '' '' else c)) (QueryUnescape cs))"

type_synonym query = "(string \<times> string) list"

text \<open>
  \<open>ParseQuery\<close> as the pairs in order of appearance: a \<open>Values\<close> map forgets the order between
  different keys only. A malformed pair is dropped, as the caller ignores the error.
\<close>

definition cut :: "char \<Rightarrow> string \<Rightarrow> string \<times> string" where
  "cut sep s = (takeWhile (\<lambda>c. c \<noteq> sep) s, tl (dropWhile (\<lambda>c. c \<noteq> sep) s))"

definition parse_pair :: "string \<Rightarrow> query" where
  "parse_pair piece =
    (if CHR '';'' \<in> set piece \<or> piece = [] then []
     else let (k, v) = cut (CHR ''='') piece in
       case (QueryUnescape k, QueryUnescape v) of
         (Some key, Some val) \<Rightarrow> [(key, val)]
       | _ \<Rightarrow> [])"

definition ParseQuery :: "string \<Rightarrow> query" where
  "ParseQuery raw = (if raw = [] then [] else concat (map parse_pair (split_byte (CHR ''&'') raw)))"

text \<open>\<open>Values.Get\<close>: the first value of a key, or the empty string.\<close>

definition query_get :: "query \<Rightarrow> string \<Rightarrow> string" where
  "query_get q key = (case map_of q key of None \<Rightarrow> [] | Some v \<Rightarrow> v)"

text \<open>\<open>Values.Encode\<close>: sorted by key, the values of a key in the order they were added.\<close>

definition encode_pair :: "string \<times> string \<Rightarrow> string" where
  "encode_pair kv = QueryEscape (fst kv) @ ''='' @ QueryEscape (snd kv)"

definition Encode :: "query \<Rightarrow> string" where
  "Encode q = join ''&'' (map encode_pair (sort_key fst q))"

definition URL_String :: "url \<Rightarrow> string" where
  "URL_String u =
    (if url_Scheme u = [] then [] else url_Scheme u @ '':'')
     @ (if url_Host u \<noteq> [] \<or> url_Path u \<noteq> [] then ''//'' else [])
     @ escape_host (url_Host u)
     @ (let p = (if url_Path u = ''*'' then ''*'' else escape_path (url_Path u)) in
        (if p \<noteq> [] \<and> \<not> prefix ''/'' p \<and> url_Host u \<noteq> [] then ''/'' else []) @ p)
     @ (if url_RawQuery u \<noteq> [] then ''?'' @ url_RawQuery u else [])"

section \<open>Stage one\<close>

datatype url_error = ErrExcluded | ErrUnsupported

definition canonicalizeGeneric :: "(nat \<Rightarrow> nat) \<Rightarrow> url \<Rightarrow> url_error + url" where
  "canonicalizeGeneric lc u =
    (if \<not> IsAbs u \<or> url_Host u = [] \<or> url_HasUser u then Inl ErrUnsupported
     else
       let scheme = to_lower lc (url_Scheme u) in
       if scheme \<noteq> ''http'' \<and> scheme \<noteq> ''https'' then Inl ErrUnsupported
       else
         let host = trim_prefix ''www.'' (to_lower lc (Hostname u));
             port = (if (scheme = ''http'' \<and> Port u = ''80'') \<or> (scheme = ''https'' \<and> Port u = ''443'')
                     then [] else Port u);
             hostPort = (if port \<noteq> [] then host @ '':'' @ port else host);
             path = (if url_Path u = ''/'' then []
                     else if length (url_Path u) > 1 \<and> suffix ''/'' (url_Path u)
                       then trim_suffix ''/'' (url_Path u)
                     else url_Path u)
         in Inr \<lparr>url_Scheme = scheme, url_HasUser = False, url_Host = hostPort, url_Path = path,
                 url_RawQuery = url_RawQuery u\<rparr>)"

definition trackingParamAlways :: "string list" where
  "trackingParamAlways = [''si'', ''igshid'', ''fbclid'', ''gclid'', ''ref_src'', ''ref'', ''ex'', ''is'', ''hm'']"

definition trackingParamKnownHost :: "string list" where
  "trackingParamKnownHost = [''s'', ''t'', ''feature'', ''app'', ''is_from_webapp'', ''sender_device'']"

definition isTrackingParam :: "string \<Rightarrow> bool \<Rightarrow> bool" where
  "isTrackingParam key knownHost \<longleftrightarrow>
     prefix ''utm_'' key \<or> key \<in> set trackingParamAlways
     \<or> knownHost \<and> key \<in> set trackingParamKnownHost"

text \<open>Pairs are ordered by key, then value, bytewise.\<close>

definition normalizedQuery :: "string \<Rightarrow> bool \<Rightarrow> string" where
  "normalizedQuery rawQuery knownHost =
    (let pairs = filter (\<lambda>kv. \<not> isTrackingParam (fst kv) knownHost) (ParseQuery rawQuery) in
     if pairs = [] then [] else Encode (sort pairs))"

section \<open>Stage two: the host table\<close>

definition pathSegments :: "url \<Rightarrow> string list" where
  "pathSegments u = (let trimmed = trim_byte (CHR ''/'') (url_Path u) in
     if trimmed = [] then [] else split_byte (CHR ''/'') trimmed)"

definition segmentAfterAt :: "string list \<Rightarrow> string \<Rightarrow> int \<Rightarrow> string option" where
  "segmentAfterAt segments marker index =
    (if index < 0 \<or> index + 1 \<ge> int (length segments) then None
     else if segments ! nat index \<noteq> marker then None
     else Some (segments ! nat (index + 1)))"

definition extractFirstSegment :: "url \<Rightarrow> string option" where
  "extractFirstSegment u = (case pathSegments u of [] \<Rightarrow> None | x # _ \<Rightarrow> Some x)"

text \<open>The second segment when the first is one of the given words.\<close>

definition second_after :: "string list \<Rightarrow> url \<Rightarrow> string option" where
  "second_after words u = (let segments = pathSegments u in
     if length segments \<ge> 2 \<and> segments ! 0 \<in> set words then Some (segments ! 1) else None)"

record hostSource =
  hs_source :: string
  hs_hosts :: "string list"
  hs_prefixes :: "string list"
  hs_extract :: "url \<Rightarrow> string option"

definition extract_youtube :: "url \<Rightarrow> string option" where
  "extract_youtube u = (let v = query_get (ParseQuery (url_RawQuery u)) ''v'' in
     if v \<noteq> [] then Some v else second_after [''shorts'', ''live'', ''embed''] u)"

definition extract_reddit :: "url \<Rightarrow> string option" where
  "extract_reddit u = (case segmentAfterAt (pathSegments u) ''comments'' 2 of
     Some i \<Rightarrow> Some i | None \<Rightarrow> segmentAfterAt (pathSegments u) ''s'' 2)"

definition extract_twitch :: "url \<Rightarrow> string option" where
  "extract_twitch u = (case second_after [''videos''] u of
     Some i \<Rightarrow> Some i | None \<Rightarrow> segmentAfterAt (pathSegments u) ''clip'' 1)"

definition extract_bluesky :: "url \<Rightarrow> string option" where
  "extract_bluesky u = (let segments = pathSegments u in
     if length segments \<ge> 4 \<and> segments ! 0 = ''profile'' \<and> segments ! 2 = ''post''
     then Some (segments ! 1 @ ''/'' @ segments ! 3) else None)"

definition hostSources :: "hostSource list" where
  "hostSources =
    [\<lparr>hs_source = ''youtube'', hs_hosts = [''youtube.com'', ''m.youtube.com'', ''music.youtube.com'', ''youtube-nocookie.com''],
      hs_prefixes = [], hs_extract = extract_youtube\<rparr>,
     \<lparr>hs_source = ''youtube'', hs_hosts = [''youtu.be''], hs_prefixes = [], hs_extract = extractFirstSegment\<rparr>,
     \<lparr>hs_source = ''twitter'', hs_hosts = [''twitter.com'', ''x.com'', ''fxtwitter.com'', ''vxtwitter.com'', ''fixupx.com'', ''twittpr.com''],
      hs_prefixes = [''nitter.''], hs_extract = (\<lambda>u. segmentAfterAt (pathSegments u) ''status'' 1)\<rparr>,
     \<lparr>hs_source = ''reddit'', hs_hosts = [''reddit.com'', ''old.reddit.com'', ''new.reddit.com'', ''np.reddit.com''],
      hs_prefixes = [], hs_extract = extract_reddit\<rparr>,
     \<lparr>hs_source = ''reddit'', hs_hosts = [''redd.it'', ''i.redd.it'', ''v.redd.it''], hs_prefixes = [],
      hs_extract = extractFirstSegment\<rparr>,
     \<lparr>hs_source = ''twitch'', hs_hosts = [''twitch.tv''], hs_prefixes = [], hs_extract = extract_twitch\<rparr>,
     \<lparr>hs_source = ''twitch'', hs_hosts = [''clips.twitch.tv''], hs_prefixes = [], hs_extract = extractFirstSegment\<rparr>,
     \<lparr>hs_source = ''tiktok'', hs_hosts = [''tiktok.com''], hs_prefixes = [],
      hs_extract = (\<lambda>u. segmentAfterAt (pathSegments u) ''video'' 1)\<rparr>,
     \<lparr>hs_source = ''tiktok'', hs_hosts = [''vm.tiktok.com'', ''vt.tiktok.com''], hs_prefixes = [],
      hs_extract = extractFirstSegment\<rparr>,
     \<lparr>hs_source = ''instagram'', hs_hosts = [''instagram.com'', ''ddinstagram.com''], hs_prefixes = [],
      hs_extract = second_after [''p'', ''reel'', ''tv'']\<rparr>,
     \<lparr>hs_source = ''bluesky'', hs_hosts = [''bsky.app''], hs_prefixes = [], hs_extract = extract_bluesky\<rparr>]"

definition matchHostSource :: "url \<Rightarrow> hostSource option" where
  "matchHostSource u =
    (let host = Hostname u in
     case find (\<lambda>hs. host \<in> set (hs_hosts hs)) hostSources of
       Some hs \<Rightarrow> Some hs
     | None \<Rightarrow> find (\<lambda>hs. \<exists>p \<in> set (hs_prefixes hs). prefix p host) hostSources)"

section \<open>Canonicalise\<close>

record url_result =
  res_Source :: string
  res_ID :: string
  res_SourceKey :: string
  res_CanonicalURL :: string

text \<open>A canonicaliser is its excluded hosts.\<close>

type_synonym canonicaliser = "string list"

definition New :: "(nat \<Rightarrow> nat) \<Rightarrow> string list \<Rightarrow> canonicaliser" where
  "New lc extraExcludedHosts =
     filter (\<lambda>h. h \<noteq> []) (map (\<lambda>h. trim_prefix ''www.'' (to_lower lc (trim_space h))) extraExcludedHosts)"

definition isExcluded :: "canonicaliser \<Rightarrow> url \<Rightarrow> bool" where
  "isExcluded c normalized \<longleftrightarrow>
     (\<exists>excluded \<in> set c. Hostname normalized = excluded \<or> suffix (''.'' @ excluded) (Hostname normalized))"

definition discordDeepLinkHosts :: "string list" where
  "discordDeepLinkHosts = [''discord.com'', ''discordapp.com'', ''ptb.discord.com'', ''canary.discord.com'']"

definition isPlatformDeepLink :: "url \<Rightarrow> bool" where
  "isPlatformDeepLink normalized \<longleftrightarrow>
     Hostname normalized \<in> set discordDeepLinkHosts \<and> prefix ''/channels/'' (url_Path normalized)
     \<or> Hostname normalized = ''matrix.to''"

definition fallback_result :: "string \<Rightarrow> url_result" where
  "fallback_result canonicalURL = \<lparr>res_Source = ''url'', res_ID = canonicalURL,
     res_SourceKey = ''url:'' @ canonicalURL, res_CanonicalURL = canonicalURL\<rparr>"

text \<open>The end of \<open>Canonicalise\<close>: the id of a known host's rule, or the URL itself.\<close>

definition identify :: "hostSource option \<Rightarrow> url \<Rightarrow> url_result" where
  "identify hs final =
    (let canonicalURL = URL_String final in
     case hs of
       None \<Rightarrow> fallback_result canonicalURL
     | Some h \<Rightarrow> (case hs_extract h final of
         None \<Rightarrow> fallback_result canonicalURL
       | Some i \<Rightarrow>
           if i = [] then fallback_result canonicalURL
           else \<lparr>res_Source = hs_source h, res_ID = i, res_SourceKey = hs_source h @ '':'' @ i,
                 res_CanonicalURL = canonicalURL\<rparr>))"

definition Canonicalise ::
  "(nat \<Rightarrow> nat) \<Rightarrow> (string \<Rightarrow> url option) \<Rightarrow> canonicaliser \<Rightarrow> string \<Rightarrow> url_error + url_result" where
  "Canonicalise lc parse c rawURL =
    (case parse (trim_space rawURL) of
       None \<Rightarrow> Inl ErrUnsupported
     | Some parsed \<Rightarrow> and_then (canonicalizeGeneric lc parsed) (\<lambda>normalized.
         if isExcluded c normalized \<or> isPlatformDeepLink normalized then Inl ErrExcluded
         else
           let hs = matchHostSource normalized;
               query = normalizedQuery (url_RawQuery normalized) (hs \<noteq> None)
           in Inr (identify hs (normalized\<lparr>url_RawQuery := query\<rparr>))))"

section \<open>Extraction from text\<close>

text \<open>
  The pattern \<open>(?i)https?://[^\s<>|]+\<close>, tried at the head of the text. Under \<open>(?i)\<close> Go folds
  the letter s with U+017F (bytes C5 BF) as well. The result is the match and what follows it.
\<close>

definition url_char :: "char \<Rightarrow> bool" where
  "url_char c \<longleftrightarrow> bv c \<notin> {9, 10, 12, 13, 32, 60, 62, 124}"

fun match_fold :: "string \<Rightarrow> string \<Rightarrow> (string \<times> string) option" where
  "match_fold [] s = Some ([], s)"
| "match_fold (p # ps) [] = None"
| "match_fold (p # ps) (c # cs) =
     (if ascii_lower c = p then map_option (\<lambda>(m, r). (c # m, r)) (match_fold ps cs) else None)"

definition match_s :: "string \<Rightarrow> string \<times> string" where
  "match_s s = (case s of
     [] \<Rightarrow> ([], [])
   | c # cs \<Rightarrow> if ascii_lower c = CHR ''s'' then ([c], cs)
       else if prefix [char_of (197::nat), char_of (191::nat)] s then (take 2 s, drop 2 s)
       else ([], s))"

definition match_url :: "string \<Rightarrow> (string \<times> string) option" where
  "match_url s =
    (case match_fold ''http'' s of
       None \<Rightarrow> None
     | Some (h, r1) \<Rightarrow>
         let (so, r2) = match_s r1 in
         if prefix ''://'' r2 then
           let body = takeWhile url_char (drop 3 r2) in
           if body = [] then None
           else Some (h @ so @ ''://'' @ body, dropWhile url_char (drop 3 r2))
         else None)"

lemma match_fold_append: "match_fold p s = Some (m, r) \<Longrightarrow> s = m @ r"
  by (induction p s arbitrary: m r rule: match_fold.induct) (auto split: if_splits)

lemma match_s_append: "match_s s = (m, r) \<Longrightarrow> s = m @ r"
  by (auto simp: match_s_def split: list.splits if_splits)

lemma match_url_append:
  assumes "match_url s = Some (m, r)"
  shows "s = m @ r \<and> m \<noteq> []"
proof -
  from assms obtain h r1 so r2 where m: "match_fold ''http'' s = Some (h, r1)" "match_s r1 = (so, r2)"
    "prefix ''://'' r2" "m = h @ so @ ''://'' @ takeWhile url_char (drop 3 r2)"
    "r = dropWhile url_char (drop 3 r2)"
    by (auto simp: match_url_def Let_def split: option.splits prod.splits if_splits)
  have "s = h @ r1" "r1 = so @ r2" using match_fold_append [OF m(1)] match_s_append [OF m(2)] by simp_all
  moreover have "r2 = ''://'' @ drop 3 r2" using m(3) by (auto simp: prefix_def)
  moreover have "drop 3 r2 = takeWhile url_char (drop 3 r2) @ r" by (simp add: m(5))
  ultimately show ?thesis using m(4) by simp
qed

lemma match_url_shorter: "match_url s = Some (m, r) \<Longrightarrow> length r < length s"
  using match_url_append [of s m r] by auto

text \<open>\<open>FindAllString\<close>: leftmost matches that do not overlap.\<close>

function find_urls :: "string \<Rightarrow> string list" where
  "find_urls s = (case s of [] \<Rightarrow> []
     | c # cs \<Rightarrow> (case match_url s of
         Some (m, r) \<Rightarrow> m # find_urls r
       | None \<Rightarrow> find_urls cs))"
  by pat_completeness auto
termination
  by (relation "measure length") (auto dest: match_url_shorter)

declare find_urls.simps [simp del]

text \<open>\<open>strings.Count\<close> of one byte is \<open>count_list\<close>.\<close>

definition trims_last :: "string \<Rightarrow> bool" where
  "trims_last s \<longleftrightarrow> s \<noteq> [] \<and>
     (last s \<in> set ''.,!?:;'' \<or> last s = CHR 0x22 \<or> last s = CHR 0x27
      \<or> last s = CHR '')'' \<and> count_list s (CHR ''('') < count_list s (CHR '')'')
      \<or> last s = CHR '']'' \<and> count_list s (CHR ''['') < count_list s (CHR '']''))"

function trimTrailingPunctuation :: "string \<Rightarrow> string" where
  "trimTrailingPunctuation s = (if trims_last s then trimTrailingPunctuation (butlast s) else s)"
  by pat_completeness auto
termination
  by (relation "measure length") (auto simp: trims_last_def)

declare trimTrailingPunctuation.simps [simp del]

fun dedupe :: "string list \<Rightarrow> string list \<Rightarrow> string list" where
  "dedupe seen [] = []"
| "dedupe seen (m # ms) =
    (let trimmed = trimTrailingPunctuation m in
     if trimmed = [] then dedupe seen ms
     else if trimmed \<in> set seen then dedupe seen ms
     else trimmed # dedupe (trimmed # seen) ms)"

definition ExtractURLs :: "string \<Rightarrow> string list" where
  "ExtractURLs txt = dedupe [] (find_urls txt)"

section \<open>Query strings\<close>

lemma hex_digit_inverse:
  assumes "n < 16"
  shows "is_hex (hex_digit n) \<and> unhex (hex_digit n) = n"
proof -
  have "n \<in> set [0..<16]" using assms by simp
  then show ?thesis
    by (simp add: upt_rec numeral_eq_Suc, elim disjE)
       (simp_all add: hex_digit_def is_hex_def unhex_def is_digit_def)
qed

lemma QueryUnescape_percent: "QueryUnescape (percent c @ s) = map_option (Cons c) (QueryUnescape s)"
proof -
  have "bv c < 256" by (rule nat_of_char_less_256)
  then have "bv c div 16 < 16" "bv c mod 16 < 16" by (simp_all add: less_mult_imp_div_less)
  moreover have "bv c div 16 * 16 + bv c mod 16 = bv c" by simp
  ultimately show ?thesis
    using hex_digit_inverse [of "bv c div 16"] hex_digit_inverse [of "bv c mod 16"]
    by (simp add: percent_def)
qed

lemma QueryUnescape_escape: "QueryUnescape (QueryEscape s) = Some s"
  unfolding QueryEscape_def
proof (induction s)
  case (Cons c s)
  then show ?case
    by (auto simp: QueryUnescape_percent unreserved_def)
qed simp

lemma hex_clean: "n < 16 \<Longrightarrow> hex_digit n \<notin> set ''&;=''"
  using hex_digit_inverse [of n] by (auto simp: is_hex_def is_digit_def)

lemma percent_clean:
  assumes "x \<in> set (percent c)"
  shows "x \<notin> set ''&;=''"
proof -
  have "bv c < 256" by (rule nat_of_char_less_256)
  then have "bv c div 16 < 16" "bv c mod 16 < 16" by (simp_all add: less_mult_imp_div_less)
  then have "hex_digit (bv c div 16) \<notin> set ''&;=''" "hex_digit (bv c mod 16) \<notin> set ''&;=''"
    by (simp_all only: hex_clean not_False_eq_True)
  moreover have "CHR ''%'' \<notin> set ''&;=''" by simp
  moreover have "x \<in> {CHR ''%'', hex_digit (bv c div 16), hex_digit (bv c mod 16)}"
    using assms by (simp only: percent_def list.set)
  ultimately show ?thesis by (simp only: insert_iff empty_iff) metis
qed

lemma unreserved_clean: "unreserved c \<Longrightarrow> c \<notin> set ''&;=''"
  by (auto simp: unreserved_def)

lemma QueryEscape_clean:
  assumes "x \<in> set (QueryEscape s)"
  shows "x \<notin> set ''&;=''"
proof -
  from assms obtain c where
    "x \<in> set (if c = CHR '' '' then ''+'' else if unreserved c then [c] else percent c)"
    by (auto simp only: QueryEscape_def set_concat set_map UN_iff image_iff)
  then consider "x = CHR ''+''" | "x = c" "unreserved c" | "x \<in> set (percent c)"
    by (auto split: if_splits)
  then show ?thesis
    by cases (simp, simp only: unreserved_clean not_False_eq_True, rule percent_clean)
qed

lemma cut_append: "sep \<notin> set k \<Longrightarrow> cut sep (k @ sep # v) = (k, v)"
  by (induction k) (auto simp: cut_def)

lemma encode_pair_clean: "c \<in> set (encode_pair kv) \<Longrightarrow> c \<notin> set ''&;''"
  using QueryEscape_clean [of c] by (auto simp: encode_pair_def)

lemma parse_encode_pair: "parse_pair (encode_pair kv) = [kv]"
proof -
  have "CHR '';'' \<notin> set (encode_pair kv)" using encode_pair_clean [of "CHR '';''" kv] by auto
  moreover have "encode_pair kv \<noteq> []" by (simp add: encode_pair_def)
  moreover have "CHR ''='' \<notin> set (QueryEscape (fst kv))"
    using QueryEscape_clean [of "CHR ''=''" "fst kv"] by auto
  then have "cut (CHR ''='') (encode_pair kv) = (QueryEscape (fst kv), QueryEscape (snd kv))"
    by (simp add: encode_pair_def cut_append)
  ultimately show ?thesis by (simp add: parse_pair_def QueryUnescape_escape)
qed

lemma split_join_clean:
  "xs \<noteq> [] \<Longrightarrow> \<forall>x \<in> set xs. sep \<notin> set x \<Longrightarrow> split_byte sep (join [sep] xs) = xs"
proof (induction xs)
  case (Cons x xs)
  then show ?case
    by (cases xs) (simp_all add: split_byte_single split_byte_append)
qed simp

lemma ParseQuery_Encode: "ParseQuery (Encode q) = sort_key fst q"
proof (cases "q = []")
  case False
  let ?pieces = "map encode_pair (sort_key fst q)"
  have ne: "?pieces \<noteq> []" using False by (metis length_0_conv length_map length_sort)
  have "\<forall>x \<in> set ?pieces. CHR ''&'' \<notin> set x"
    using encode_pair_clean [of "CHR ''&''"] by auto
  with ne have "split_byte (CHR ''&'') (Encode q) = ?pieces"
    unfolding Encode_def by (rule split_join_clean)
  moreover from this ne have "Encode q \<noteq> []"
    by (cases ?pieces) (auto simp: encode_pair_def Encode_def join_Cons_nonempty dest: split_byte_no_sep)
  moreover have "concat (map (\<lambda>x. [x]) ys) = ys" for ys :: query by (induction ys) simp_all
  ultimately show ?thesis by (simp add: ParseQuery_def o_def parse_encode_pair)
qed (simp add: ParseQuery_def Encode_def)

text \<open>The pairs of a query that carry identity.\<close>

definition kept :: "bool \<Rightarrow> string \<Rightarrow> query" where
  "kept knownHost raw = filter (\<lambda>kv. \<not> isTrackingParam (fst kv) knownHost) (ParseQuery raw)"

lemma sorted_fst: "sorted (q :: query) \<Longrightarrow> sort_key fst q = q"
proof -
  assume "sorted q"
  then have "sorted (map fst q)"
    by (induction q) (auto simp: less_eq_prod_def)
  then show ?thesis by (rule sort_key_id_if_sorted)
qed

lemma kept_normalized: "kept k (normalizedQuery raw k) = sort (kept k raw)"
proof (cases "kept k raw = []")
  case True
  then show ?thesis by (simp add: normalizedQuery_def kept_def ParseQuery_def)
next
  case False
  have "ParseQuery (normalizedQuery raw k) = sort (kept k raw)"
    using False by (simp add: normalizedQuery_def kept_def [symmetric] ParseQuery_Encode sorted_fst)
  then show ?thesis by (simp add: kept_def filter_sort)
qed

lemma normalizedQuery_kept:
  "normalizedQuery raw k = (if kept k raw = [] then [] else Encode (sort (kept k raw)))"
  by (simp add: normalizedQuery_def kept_def)

lemma normalizedQuery_mset:
  "mset (kept k a) = mset (kept k b) \<Longrightarrow> normalizedQuery a k = normalizedQuery b k"
  using properties_for_sort [of "sort (kept k b)" "kept k a"]
  by (auto simp: normalizedQuery_kept)

text \<open>
  Normalising a query is idempotent, and forgets nothing but the order of the parameters
  and the tracking parameters: two raw queries are given the same normal form exactly when
  they hold the same multiset of other pairs.
\<close>

theorem normalizedQuery_canonical:
  "normalizedQuery (normalizedQuery a k) k = normalizedQuery a k
    \<and> (normalizedQuery a k = normalizedQuery b k \<longleftrightarrow> mset (kept k a) = mset (kept k b))"
proof -
  have "mset (kept k a) = mset (kept k b)" if "normalizedQuery a k = normalizedQuery b k"
    using kept_normalized [of k a] kept_normalized [of k b] that by (metis mset_sort)
  moreover have "normalizedQuery (normalizedQuery a k) k = normalizedQuery a k"
    by (rule normalizedQuery_mset) (simp add: kept_normalized)
  ultimately show ?thesis using normalizedQuery_mset by blast
qed

section \<open>Identities\<close>


definition demo_parse :: "string \<Rightarrow> url option" where
  "demo_parse s =
    (if s = ''a'' then Some \<lparr>url_Scheme = ''HTTPS'', url_HasUser = False, url_Host = ''WWW.Example.com:443'',
       url_Path = ''/p/'', url_RawQuery = ''utm_source=x&b=2&a=1''\<rparr>
     else if s = ''b'' then Some \<lparr>url_Scheme = ''https'', url_HasUser = False, url_Host = ''example.com'',
       url_Path = ''/p'', url_RawQuery = ''a=1&b=2&fbclid=z''\<rparr>
     else None)"


text \<open>A source name holds no colon, so the indexed key determines the source and the id.\<close>

lemma hostSources_names: "hs \<in> set hostSources \<Longrightarrow> CHR '':'' \<notin> set (hs_source hs) \<and> hs_source hs \<noteq> ''url''"
  by (auto simp: hostSources_def)

lemma matchHostSource_in: "matchHostSource u = Some hs \<Longrightarrow> hs \<in> set hostSources"
  by (auto simp: matchHostSource_def Let_def dest: find_SomeD split: option.splits)

lemma Canonicalise_shape:
  assumes "Canonicalise lc parse c raw = Inr r"
  shows "CHR '':'' \<notin> set (res_Source r) \<and> res_SourceKey r = res_Source r @ '':'' @ res_ID r
    \<and> (res_Source r = ''url'' \<longrightarrow> res_ID r = res_CanonicalURL r)"
  using assms hostSources_names
  by (auto simp: Canonicalise_def identify_def fallback_result_def Let_def dest!: matchHostSource_in
      split: option.splits if_splits)

text \<open>
  Indexed keys do not collide across sources: when two results carry the same source key,
  they come from the same source and carry the same id, and when that source is the fallback
  they are the same canonical URL.
\<close>

theorem SourceKey_determines:
  assumes "Canonicalise lc parse c a = Inr r" and "Canonicalise lc' parse' c' b = Inr r'"
    and "res_SourceKey r = res_SourceKey r'"
  shows "res_Source r = res_Source r' \<and> res_ID r = res_ID r'
    \<and> (res_Source r = ''url'' \<longrightarrow> r = r')"
proof -
  note shape = Canonicalise_shape [OF assms(1)] Canonicalise_shape [OF assms(2)]
  have "takeWhile (\<lambda>x. x \<noteq> CHR '':'') (res_SourceKey r) = res_Source r"
    and "takeWhile (\<lambda>x. x \<noteq> CHR '':'') (res_SourceKey r') = res_Source r'"
    using shape by (auto intro: takeWhile_append_stop)
  then have src: "res_Source r = res_Source r'" using assms(3) by simp
  then have "res_ID r = res_ID r'" using shape assms(3) by auto
  with src shape assms(3) show ?thesis by (cases r; cases r') auto
qed

theorem SourceKey_determines_witness:
  "res_ID (fallback_result ''https://example.com/p?a=1&b=2'') = ''https://example.com/p?a=1&b=2''
   \<and> Canonicalise id demo_parse [] ''a'' = Inr (fallback_result ''https://example.com/p?a=1&b=2'')"
proof -
  have ab: "Canonicalise id demo_parse [] ''a'' = Inr (fallback_result ''https://example.com/p?a=1&b=2'')"
    "Canonicalise id demo_parse [] ''b'' = Inr (fallback_result ''https://example.com/p?a=1&b=2'')"
    by code_simp+
  from SourceKey_determines [OF ab] ab show ?thesis by (simp add: fallback_result_def)
qed

text \<open>
  \<open>Hostname\<close> drops the brackets of an IPv6 literal and \<open>canonicalizeGeneric\<close> does not put them
  back, so a port and a last group of the address become the same text.
\<close>

lemma ipv6_port_confusion:
  "canonicalizeGeneric id \<lparr>url_Scheme = ''http'', url_HasUser = False, url_Host = ''[::1]:8080'',
      url_Path = ''/a'', url_RawQuery = []\<rparr>
   = canonicalizeGeneric id \<lparr>url_Scheme = ''http'', url_HasUser = False, url_Host = ''[::1:8080]'',
      url_Path = ''/a'', url_RawQuery = []\<rparr>"
  by code_simp

section \<open>What is extracted\<close>

lemma ascii_lower_url_char: "ascii_lower c \<in> set ''https'' \<Longrightarrow> url_char c"
  by (auto simp: ascii_lower_def url_char_def split: if_splits)

lemma match_fold_chars:
  "match_fold p s = Some (m, r) \<Longrightarrow> set p \<subseteq> set ''https'' \<Longrightarrow> list_all url_char m"
  by (induction p s arbitrary: m r rule: match_fold.induct)
     (auto split: if_splits intro!: ascii_lower_url_char)

lemma match_s_chars: "match_s s = (m, r) \<Longrightarrow> list_all url_char m"
proof -
  have fold: "list_all url_char [char_of (197::nat), char_of (191::nat)]"
    by (simp add: url_char_def)
  assume m: "match_s s = (m, r)"
  then consider "m = []" | c where "m = [c]" "ascii_lower c = CHR ''s''"
    | "m = take 2 s" "prefix [char_of (197::nat), char_of (191::nat)] s"
    by (auto simp: match_s_def split: list.splits if_splits)
  then show ?thesis
  proof cases
    case 2
    then show ?thesis using ascii_lower_url_char [of c] by simp
  next
    case 3
    then show ?thesis using fold by (auto simp: prefix_def)
  qed simp
qed

lemma match_url_chars: "match_url s = Some (m, r) \<Longrightarrow> list_all url_char m"
proof -
  have sep: "list_all url_char ''://''" by (simp add: url_char_def)
  have run: "list_all url_char (takeWhile url_char x)" for x by (induction x) auto
  assume "match_url s = Some (m, r)"
  then obtain h r1 so r2 where m: "match_fold ''http'' s = Some (h, r1)" "match_s r1 = (so, r2)"
    "m = h @ so @ ''://'' @ takeWhile url_char (drop 3 r2)"
    by (auto simp: match_url_def Let_def split: option.splits prod.splits if_splits)
  show ?thesis
    unfolding m(3) list_all_append
    using match_fold_chars [OF m(1)] match_s_chars [OF m(2)] sep run by simp
qed

lemma find_urls_Cons:
  "find_urls (c # cs) = (case match_url (c # cs) of
     Some (m, r) \<Rightarrow> m # find_urls r | None \<Rightarrow> find_urls cs)"
  by (subst find_urls.simps) simp

lemma find_urls_sound:
  "m \<in> set (find_urls s) \<Longrightarrow> sublist m s \<and> list_all url_char m"
proof (induction s rule: find_urls.induct)
  case (1 s)
  show ?case
  proof (cases s)
    case Nil
    with 1(3) show ?thesis by (simp add: find_urls.simps [of "[]"])
  next
    case (Cons c cs)
    show ?thesis
    proof (cases "match_url s")
      case None
      have "m \<in> set (find_urls cs)"
        using 1(3) None unfolding Cons find_urls_Cons by simp
      then have "sublist m cs \<and> list_all url_char m" by (rule 1(1) [OF Cons None])
      then show ?thesis by (simp add: Cons sublist_Cons_right)
    next
      case (Some mr)
      obtain m' r where mr: "match_url s = Some (m', r)" using Some by (cases mr) simp
      have s: "s = m' @ r" using match_url_append [OF mr] by simp
      have "m = m' \<or> m \<in> set (find_urls r)"
        using 1(3) mr unfolding Cons find_urls_Cons by simp
      then show ?thesis
      proof
        assume "m = m'"
        then show ?thesis using s match_url_chars [OF mr] by simp
      next
        assume "m \<in> set (find_urls r)"
        then have "sublist m r \<and> list_all url_char m"
          by (rule 1(2) [OF Cons mr refl])
        then show ?thesis using s by (simp add: sublist_append)
      qed
    qed
  qed
qed

lemma trimmed_prefix: "prefix (trimTrailingPunctuation s) s"
proof (induction s rule: trimTrailingPunctuation.induct)
  case (1 s)
  show ?case
  proof (cases "trims_last s")
    case True
    have "prefix (butlast s) s" by (rule prefixeq_butlast)
    with 1 [OF True] True show ?thesis
      by (simp add: trimTrailingPunctuation.simps [of s] prefix_order.order_trans)
  qed (simp add: trimTrailingPunctuation.simps [of s])
qed

lemma trimmed_done: "\<not> trims_last (trimTrailingPunctuation s)"
proof (induction s rule: trimTrailingPunctuation.induct)
  case (1 s)
  then show ?case
    by (cases "trims_last s") (simp_all add: trimTrailingPunctuation.simps [of s])
qed

lemma dedupe_sound:
  "u \<in> set (dedupe seen ms) \<Longrightarrow> u \<notin> set seen \<and> u \<noteq> [] \<and> (\<exists>m \<in> set ms. u = trimTrailingPunctuation m)"
  by (induction seen ms rule: dedupe.induct) (auto simp: Let_def split: if_splits)

lemma dedupe_distinct: "distinct (dedupe seen ms)"
  by (induction seen ms rule: dedupe.induct) (auto simp: Let_def dest: dedupe_sound)

text \<open>
  What is extracted was in the text: every extracted URL is a contiguous piece of the
  message, is not empty, holds no white space, angle bracket or spoiler bar, does not end in
  sentence punctuation or an unbalanced closing bracket, and is listed once.
\<close>

theorem ExtractURLs_sound:
  assumes "u \<in> set (ExtractURLs txt)"
  shows "sublist u txt \<and> u \<noteq> [] \<and> list_all url_char u \<and> \<not> trims_last u
    \<and> distinct (ExtractURLs txt)"
proof -
  from assms obtain m where m: "m \<in> set (find_urls txt)" "u = trimTrailingPunctuation m" "u \<noteq> []"
    unfolding ExtractURLs_def by (blast dest: dedupe_sound)
  have pre: "prefix u m" by (simp add: m(2) trimmed_prefix)
  then have "list_all url_char u"
    using find_urls_sound [OF m(1)] by (auto simp: prefix_def)
  moreover have "sublist u txt"
    using pre find_urls_sound [OF m(1)] by (meson prefix_imp_sublist sublist_order.order_trans)
  ultimately show ?thesis
    using m trimmed_done by (simp add: ExtractURLs_def dedupe_distinct)
qed

theorem ExtractURLs_sound_witness:
  "sublist ''http://a/(b)'' ''(see http://a/(b)). HTTPS://c|| http://a/(b),''
   \<and> ExtractURLs ''(see http://a/(b)). HTTPS://c|| http://a/(b),'' = [''http://a/(b)'', ''HTTPS://c'']"
proof
  show eq: "ExtractURLs ''(see http://a/(b)). HTTPS://c|| http://a/(b),'' = [''http://a/(b)'', ''HTTPS://c'']"
    by code_simp
  have "''http://a/(b)'' \<in> set (ExtractURLs ''(see http://a/(b)). HTTPS://c|| http://a/(b),'')"
    unfolding eq by simp
  then show "sublist ''http://a/(b)'' ''(see http://a/(b)). HTTPS://c|| http://a/(b),''"
    using ExtractURLs_sound by blast
qed

end
