(* ===== verification/RepostGrade.thy ===== *)
theory RepostGrade
  imports GoStrings
begin

text \<open>
  \<open>pkg/repost/kind.go\<close> and \<open>pkg/repost/repost.go\<close>: the kind of a media type, the chunks of a
  perceptual hash that the database index is built on, the distance of two hashes and the
  confidence tiers. A hash is a \<open>64 word\<close>; a chunk, a Go \<open>int16\<close>, is a \<open>16 word\<close>.
\<close>

unbundle bit_operations_syntax

section \<open>Kinds\<close>

definition KIND_IMAGE :: int where "KIND_IMAGE = 2"
definition KIND_VIDEO :: int where "KIND_VIDEO = 3"
definition KIND_FILE :: int where "KIND_FILE = 4"

definition Kind :: "string \<Rightarrow> int" where
  "Kind mimeType =
    (if mimeType \<in> {''image/png'', ''image/jpeg'', ''image/webp''} then KIND_IMAGE
     else if mimeType \<in> {''image/gif'', ''video/mp4'', ''video/webm''} then KIND_VIDEO
     else KIND_FILE)"

definition KindFromContentType :: "(nat \<Rightarrow> nat) \<Rightarrow> string \<Rightarrow> int" where
  "KindFromContentType lc contentType =
     Kind (to_lower lc (trim_space (takeWhile (\<lambda>c. c \<noteq> CHR '';'') contentType)))"

text \<open>\<open>filepath.Ext\<close>: from the last dot of the last path element, the empty string without one.\<close>

definition Ext :: "string \<Rightarrow> string" where
  "Ext path =
    (let tail = takeWhile (\<lambda>c. c \<noteq> CHR ''.'' \<and> c \<noteq> CHR ''/'') (rev path) in
     case dropWhile (\<lambda>c. c \<noteq> CHR ''.'' \<and> c \<noteq> CHR ''/'') (rev path) of
       [] \<Rightarrow> []
     | c # _ \<Rightarrow> if c = CHR ''.'' then c # rev tail else [])"

definition KindFromFilename :: "(nat \<Rightarrow> nat) \<Rightarrow> string \<Rightarrow> int" where
  "KindFromFilename lc filename =
    (let ext = to_lower lc (Ext filename) in
     if ext \<in> {''.png'', ''.jpg'', ''.jpeg'', ''.webp''} then KIND_IMAGE
     else if ext \<in> {''.gif'', ''.mp4'', ''.webm''} then KIND_VIDEO
     else KIND_FILE)"

section \<open>Hashes\<close>

definition MaxDistance :: int where "MaxDistance = 7"
definition ChunkCount :: nat where "ChunkCount = 8"

definition Chunks :: "64 word \<Rightarrow> 16 word list" where
  "Chunks hash = map (\<lambda>i. ucast (drop_bit ((ChunkCount - 1 - i) * 8) hash AND 0xFF)) [0..<ChunkCount]"

text \<open>\<open>bits.OnesCount64\<close>.\<close>

definition OnesCount64 :: "64 word \<Rightarrow> nat" where
  "OnesCount64 x = length (filter (bit x) [0..<64])"

definition Distance :: "64 word \<Rightarrow> 64 word \<Rightarrow> int" where
  "Distance a b = int (OnesCount64 (a XOR b))"

section \<open>Tiers\<close>

record tiers =
  Identical :: int
  High :: int
  Probable :: int

definition CONFIDENCE_UNSPECIFIED :: int where "CONFIDENCE_UNSPECIFIED = 0"
definition CONFIDENCE_IDENTICAL :: int where "CONFIDENCE_IDENTICAL = 1"
definition CONFIDENCE_HIGH :: int where "CONFIDENCE_HIGH = 2"
definition CONFIDENCE_PROBABLE :: int where "CONFIDENCE_PROBABLE = 3"

lemmas confidence_defs = CONFIDENCE_UNSPECIFIED_def CONFIDENCE_IDENTICAL_def CONFIDENCE_HIGH_def
  CONFIDENCE_PROBABLE_def

definition DefaultTiers :: tiers where
  "DefaultTiers = \<lparr>Identical = 0, High = 3, Probable = MaxDistance\<rparr>"

definition clamp :: "int \<Rightarrow> int \<times> bool" where
  "clamp v = (if v < 0 then (0, True) else if v > MaxDistance then (MaxDistance, True) else (v, False))"

definition Normalise :: "tiers \<Rightarrow> tiers \<times> bool" where
  "Normalise t =
    (let (i, c1) = clamp (Identical t);
         (h, c2) = clamp (High t);
         (p, c3) = clamp (Probable t);
         (h', c4) = (if h < i then (i, True) else (h, False));
         (p', c5) = (if p < h' then (h', True) else (p, False))
     in (\<lparr>Identical = i, High = h', Probable = p'\<rparr>, c1 \<or> c2 \<or> c3 \<or> c4 \<or> c5))"

definition Grade :: "tiers \<Rightarrow> int \<Rightarrow> int" where
  "Grade t distance =
    (if distance \<le> Identical t then CONFIDENCE_IDENTICAL
     else if distance \<le> High t then CONFIDENCE_HIGH
     else if distance \<le> Probable t then CONFIDENCE_PROBABLE
     else CONFIDENCE_UNSPECIFIED)"

section \<open>Tiers after normalisation\<close>

definition tiers_ok :: "tiers \<Rightarrow> bool" where
  "tiers_ok t \<longleftrightarrow> 0 \<le> Identical t \<and> Identical t \<le> High t \<and> High t \<le> Probable t
     \<and> Probable t \<le> MaxDistance"

lemma Normalise_ok: "tiers_ok (fst (Normalise t))"
  by (auto simp: tiers_ok_def Normalise_def clamp_def MaxDistance_def Let_def)

text \<open>
  \<open>Normalise\<close> gives ordered tiers within the distance the index covers, leaves tiers that
  already are so alone, and reports a change exactly when there was something to repair.
\<close>

theorem Normalise_repairs:
  "tiers_ok (fst (Normalise t)) \<and> (snd (Normalise t) \<longleftrightarrow> \<not> tiers_ok t)
    \<and> (fst (Normalise t) = t \<longleftrightarrow> tiers_ok t)"
proof -
  have "snd (Normalise t) \<longleftrightarrow> \<not> tiers_ok t"
    by (auto simp: tiers_ok_def Normalise_def clamp_def MaxDistance_def Let_def)
  moreover have "fst (Normalise t) = t \<longleftrightarrow> tiers_ok t"
    by (cases t) (auto simp: tiers_ok_def Normalise_def clamp_def MaxDistance_def Let_def)
  ultimately show ?thesis using Normalise_ok by blast
qed

section \<open>The pigeonhole\<close>

lemma chunk_eq:
  fixes a b :: "64 word"
  assumes "\<And>n. s \<le> n \<Longrightarrow> n < s + 8 \<Longrightarrow> bit a n = bit b n"
  shows "(ucast (drop_bit s a AND 0xFF) :: 16 word) = ucast (drop_bit s b AND 0xFF)"
proof -
  have ff: "(0xFF :: 64 word) = mask 8" by (simp add: mask_eq_exp_minus_1)
  have "n < 8 \<Longrightarrow> bit a (s + n) = bit b (s + n)" for n using assms by simp
  then show ?thesis
    unfolding ff by (intro bit_word_eqI) (auto simp: bit_simps)
qed

lemma Chunks_nth:
  "i < ChunkCount \<Longrightarrow> Chunks a ! i = ucast (drop_bit ((ChunkCount - 1 - i) * 8) a AND 0xFF)"
  by (simp add: Chunks_def)

lemma upt_split: "[0..<64] = concat (map (\<lambda>i. [(ChunkCount - 1 - i) * 8..<(ChunkCount - 1 - i) * 8 + 8]) (rev [0..<ChunkCount]))"
  by (simp add: ChunkCount_def upt_rec numeral_eq_Suc)

lemma sum_list_ge_length: "\<forall>x \<in> set xs. 1 \<le> (f x :: nat) \<Longrightarrow> length xs \<le> sum_list (map f xs)"
  by (induction xs) auto

lemma far_if_chunks_differ:
  assumes "\<forall>i < ChunkCount. Chunks a ! i \<noteq> Chunks b ! i"
  shows "ChunkCount \<le> OnesCount64 (a XOR b)"
proof -
  let ?lo = "\<lambda>i. (ChunkCount - 1 - i) * 8"
  let ?count = "\<lambda>i. length (filter (bit (a XOR b)) [?lo i..<?lo i + 8])"
  have "1 \<le> ?count i" if i: "i < ChunkCount" for i
  proof -
    have "Chunks a ! i \<noteq> Chunks b ! i" using assms i by blast
    then obtain n where "?lo i \<le> n" "n < ?lo i + 8" "bit a n \<noteq> bit b n"
      using chunk_eq [of "?lo i" a b] Chunks_nth [OF i] by metis
    then have "n \<in> set (filter (bit (a XOR b)) [?lo i..<?lo i + 8])"
      by (auto simp: bit_simps dest: bit_imp_le_length)
    then show ?thesis by (metis One_nat_def Suc_leI length_pos_if_in_set)
  qed
  then have "length (rev [0..<ChunkCount]) \<le> sum_list (map ?count (rev [0..<ChunkCount]))"
    by (intro sum_list_ge_length) auto
  also have "\<dots> = OnesCount64 (a XOR b)"
    unfolding OnesCount64_def upt_split by (simp add: filter_concat length_concat o_def)
  finally show ?thesis by simp
qed

text \<open>
  The index misses nothing that would be graded: whatever tiers are configured, two hashes
  whose distance is given a confidence agree on at least one of the eight chunks, so the lookup
  by equal chunk finds the pair.
\<close>

theorem graded_shares_chunk:
  assumes "Grade (fst (Normalise t)) (Distance a b) \<noteq> CONFIDENCE_UNSPECIFIED"
  shows "\<exists>i < 8. Chunks a ! i = Chunks b ! i"
proof (rule ccontr)
  assume "\<not> ?thesis"
  then have "8 \<le> Distance a b"
    using far_if_chunks_differ [of a b] by (simp add: Distance_def ChunkCount_def)
  with Normalise_ok [of t] have "Grade (fst (Normalise t)) (Distance a b) = CONFIDENCE_UNSPECIFIED"
    by (auto simp: Grade_def tiers_ok_def MaxDistance_def)
  with assms show False by simp
qed

lemmas compute_distance = Distance_def OnesCount64_def upt_rec
lemmas compute_chunks = Chunks_def ChunkCount_def upt_rec

theorem graded_shares_chunk_witness:
  "(\<exists>i < 8. Chunks 0x0101010101010100 ! i = Chunks 0 ! i)
   \<and> Distance 0x0101010101010101 0 = 8 \<and> Chunks 0x0101010101010101 = [1, 1, 1, 1, 1, 1, 1, 1]"
proof -
  have "Distance 0x0101010101010100 0 = 7" by (simp add: compute_distance)
  then have "Grade (fst (Normalise DefaultTiers)) (Distance 0x0101010101010100 0) \<noteq> CONFIDENCE_UNSPECIFIED"
    by (simp add: Grade_def Normalise_def clamp_def DefaultTiers_def MaxDistance_def confidence_defs)
  from graded_shares_chunk [OF this]
  have "\<exists>i < 8. Chunks 0x0101010101010100 ! i = Chunks 0 ! i" .
  moreover have "Distance 0x0101010101010101 0 = 8" by (simp add: compute_distance)
  moreover have "Chunks 0x0101010101010101 = [1, 1, 1, 1, 1, 1, 1, 1]" by (simp add: compute_chunks)
  ultimately show ?thesis by blast
qed

end
