(* ===== verification/GoRunes.thy ===== *)
theory GoRunes
  imports GoStrings
begin

text \<open>
  Strings built from runes: a Unicode scalar value encodes to bytes that decode to it, so a
  string written rune by rune is read back as the same runes, and what \<open>strings.TrimSpace\<close> and
  a cut between runes do to the bytes is what they do to the runes.
\<close>

definition scalar :: "nat \<Rightarrow> bool" where
  "scalar r \<longleftrightarrow> r < 55296 \<or> (57343 < r \<and> r \<le> 1114111)"

definition string_of_runes :: "nat list \<Rightarrow> string" where
  "string_of_runes rs = concat (map encode_rune rs)"

definition runes_of :: "string \<Rightarrow> nat list" where
  "runes_of s = map fst (chunks s)"

lemma bv_char_of [simp]: "n < 256 \<Longrightarrow> bv (char_of (n :: nat)) = n"
  by simp

section \<open>Decoding what was encoded\<close>

lemma decode_encode2:
  assumes "128 \<le> r" and "r < 2048"
  shows "decode_rune (encode_rune r @ t) = (r, 2)"
proof -
  have b0: "194 \<le> 192 + r div 64" "192 + r div 64 < 224" using assms by auto
  have "second_ok (192 + r div 64) (128 + r mod 64)" using b0 by (auto simp: second_ok_def)
  moreover have "r div 64 * 64 + r mod 64 = r" by simp
  ultimately show ?thesis using assms b0 by (simp add: encode_rune_def decode_rune_def Let_def)
qed

lemma encoded3:
  assumes "2048 \<le> r" and "r < 65536" and "scalar r"
  shows "encode_rune r = [char_of (224 + r div 4096), char_of (128 + r div 64 mod 64), char_of (128 + r mod 64)]"
    "second_ok (224 + r div 4096) (128 + r div 64 mod 64)"
    "r div 4096 * 4096 + r div 64 mod 64 * 64 + r mod 64 = r"
proof -
  show "encode_rune r = [char_of (224 + r div 4096), char_of (128 + r div 64 mod 64), char_of (128 + r mod 64)]"
    using assms by (auto simp: encode_rune_def scalar_def)
  define x y z where "x = r div 4096" and "y = r div 64 mod 64" and "z = r mod 64"
  have "r div 4096 = r div 64 div 64" by (simp add: div_mult2_eq [symmetric])
  then have "r = (x * 64 + y) * 64 + z" by (simp add: x_def y_def z_def)
  also have "\<dots> = x * 4096 + y * 64 + z" by (simp add: add_mult_distrib)
  finally have r: "r = x * 4096 + y * 64 + z" .
  have lt: "y < 64" "z < 64" by (simp_all add: y_def z_def)
  show "r div 4096 * 4096 + r div 64 mod 64 * 64 + r mod 64 = r"
    unfolding x_def [symmetric] y_def [symmetric] z_def [symmetric] by (rule r [symmetric])
  have low: "x = 0 \<Longrightarrow> 32 \<le> y" using assms(1) r lt by linarith
  have "x = 13 \<Longrightarrow> r < 57344" using r lt by linarith
  then have "x = 13 \<Longrightarrow> r < 55296" using assms(3) by (auto simp: scalar_def)
  then have high: "x = 13 \<Longrightarrow> y < 32" using r lt by linarith
  have "x < 16" using assms(2) r by linarith
  then show "second_ok (224 + r div 4096) (128 + r div 64 mod 64)"
    unfolding x_def [symmetric] y_def [symmetric] using low high lt by (auto simp: second_ok_def)
qed

lemma decode_encode3:
  assumes "2048 \<le> r" and "r < 65536" and "scalar r"
  shows "decode_rune (encode_rune r @ t) = (r, 3)"
proof -
  have b0: "r div 4096 < 16" using assms(2) by auto
  have "\<not> rune_start (char_of (128 + r mod 64))" by (simp add: rune_start_def)
  then show ?thesis
    using encoded3 [OF assms] b0 by (simp add: decode_rune_def Let_def)
qed

lemma encoded4:
  assumes "65536 \<le> r" and "r \<le> 1114111"
  shows "encode_rune r = [char_of (240 + r div 262144), char_of (128 + r div 4096 mod 64),
      char_of (128 + r div 64 mod 64), char_of (128 + r mod 64)]"
    "second_ok (240 + r div 262144) (128 + r div 4096 mod 64)" "r div 262144 \<le> 4"
    "r div 262144 * 262144 + r div 4096 mod 64 * 4096 + r div 64 mod 64 * 64 + r mod 64 = r"
proof -
  show "encode_rune r = [char_of (240 + r div 262144), char_of (128 + r div 4096 mod 64),
      char_of (128 + r div 64 mod 64), char_of (128 + r mod 64)]"
    using assms by (auto simp: encode_rune_def)
  define w x y z where "w = r div 262144" and "x = r div 4096 mod 64" and "y = r div 64 mod 64" and "z = r mod 64"
  have "r div 262144 = r div 4096 div 64" "r div 4096 = r div 64 div 64" by (simp_all add: div_mult2_eq [symmetric])
  then have "r = ((w * 64 + x) * 64 + y) * 64 + z" by (simp add: w_def x_def y_def z_def)
  also have "\<dots> = w * 262144 + x * 4096 + y * 64 + z" by (simp add: add_mult_distrib)
  finally have r: "r = w * 262144 + x * 4096 + y * 64 + z" .
  have lt: "x < 64" "y < 64" "z < 64" by (simp_all add: x_def y_def z_def)
  show "r div 262144 * 262144 + r div 4096 mod 64 * 4096 + r div 64 mod 64 * 64 + r mod 64 = r"
    unfolding w_def [symmetric] x_def [symmetric] y_def [symmetric] z_def [symmetric] by (rule r [symmetric])
  have w4: "w \<le> 4" using assms(2) r by linarith
  then show "r div 262144 \<le> 4" by (simp add: w_def)
  have low: "w = 0 \<Longrightarrow> 16 \<le> x" using assms(1) r lt by linarith
  have high: "w = 4 \<Longrightarrow> x < 16" using assms(2) r lt by linarith
  show "second_ok (240 + r div 262144) (128 + r div 4096 mod 64)"
    unfolding w_def [symmetric] x_def [symmetric] using low high lt w4 by (auto simp: second_ok_def)
qed

lemma decode_encode4:
  assumes "65536 \<le> r" and "r \<le> 1114111"
  shows "decode_rune (encode_rune r @ t) = (r, 4)"
proof -
  have "\<not> rune_start (char_of (128 + r mod 64))" "\<not> rune_start (char_of (128 + r div 64 mod 64))"
    by (simp_all add: rune_start_def)
  then show ?thesis
    using encoded4 [OF assms] by (simp add: decode_rune_def Let_def)
qed

lemma decode_encode:
  assumes "scalar r"
  shows "decode_rune (encode_rune r @ t) = (r, length (encode_rune r))"
proof -
  consider "r < 128" | "128 \<le> r" "r < 2048" | "2048 \<le> r" "r < 65536" | "65536 \<le> r" "r \<le> 1114111"
    using assms by (force simp: scalar_def)
  then show ?thesis
  proof cases
    case 1
    then show ?thesis by (simp add: encode_rune_def)
  next
    case 2
    from decode_encode2 [OF this] 2 show ?thesis by (simp add: encode_rune_def)
  next
    case 3
    from decode_encode3 [OF this assms] encoded3(1) [OF 3 assms] show ?thesis by simp
  next
    case 4
    from decode_encode4 [OF this] encoded4(1) [OF 4] show ?thesis by simp
  qed
qed

lemma encode_rune_nonempty [simp]: "encode_rune r \<noteq> []"
  by (simp add: encode_rune_def)

lemma string_of_runes_simps [simp]:
  "string_of_runes [] = []" "string_of_runes (r # rs) = encode_rune r @ string_of_runes rs"
  "string_of_runes (rs @ qs) = string_of_runes rs @ string_of_runes qs"
  by (simp_all add: string_of_runes_def)

lemma chunks_string_of_runes:
  "list_all scalar rs \<Longrightarrow> chunks (string_of_runes rs) = map (\<lambda>r. (r, encode_rune r)) rs"
  by (induction rs) (simp_all add: chunks_nonempty decode_encode)

lemma runes_of_string: "list_all scalar rs \<Longrightarrow> runes_of (string_of_runes rs) = rs"
  by (simp add: runes_of_def chunks_string_of_runes o_def)

section \<open>Decoded runes are scalar values\<close>

lemma scalar_decode: "scalar (fst (decode_rune s))"
proof (cases "s = [] \<or> decode_rune s = (rune_error, 1)")
  case True
  then show ?thesis by (auto simp: decode_rune_def rune_error_def scalar_def)
next
  case False
  then obtain c0 s1 where s: "s = c0 # s1" by (cases s) auto
  have c0: "bv c0 < 256" by simp
  have bad: "decode_rune s \<noteq> (rune_error, 1)" using False by simp
  show ?thesis
  proof (cases "bv c0 < 128")
    case True
    then show ?thesis by (simp add: s scalar_def)
  next
    case high: False
    then obtain c1 s2 where s1: "s1 = c1 # s2" and b0: "194 \<le> bv c0" "bv c0 \<le> 244" and ok: "second_ok (bv c0) (bv c1)"
      using bad by (auto simp: s decode_rune_def Let_def split: list.splits if_splits)
    have b1: "128 \<le> bv c1" "bv c1 < 192" using ok by (auto simp: second_ok_def split: if_splits)
    show ?thesis
    proof (cases "bv c0 < 224")
      case True
      then have "(bv c0 - 192) * 64 + (bv c1 - 128) < 55296" using b1 by linarith
      then show ?thesis using True high b0 ok by (simp add: s s1 decode_rune_def scalar_def)
    next
      case three: False
      then obtain c2 s3 where s2: "s2 = c2 # s3" and c2: "\<not> rune_start c2"
        using bad high b0 ok by (auto simp: s s1 decode_rune_def Let_def split: list.splits if_splits)
      note b2 = cont_byte [OF c2]
      show ?thesis
      proof (cases "bv c0 < 240")
        case True
        let ?r = "(bv c0 - 224) * 4096 + (bv c1 - 128) * 64 + (bv c2 - 128)"
        have "bv c0 = 237 \<Longrightarrow> bv c1 \<le> 159" using ok by (simp add: second_ok_def)
        then have "bv c0 \<le> 236 \<or> bv c0 = 237 \<and> bv c1 \<le> 159 \<or> 238 \<le> bv c0" by linarith
        then have "?r < 55296 \<or> 57343 < ?r" using three b1 b2 by (elim disjE) linarith+
        moreover have "?r \<le> 1114111" using True b1 b2 by linarith
        ultimately have "scalar ?r" by (auto simp: scalar_def)
        then show ?thesis using high b0 ok three c2 True by (simp add: s s1 s2 decode_rune_def)
      next
        case four: False
        then obtain c3 s4 where s3: "s3 = c3 # s4" and c3: "\<not> rune_start c3"
          using bad high b0 ok three c2 by (auto simp: s s1 s2 decode_rune_def Let_def split: list.splits if_splits)
        note b3 = cont_byte [OF c3]
        let ?r = "(bv c0 - 240) * 262144 + (bv c1 - 128) * 4096 + (bv c2 - 128) * 64 + (bv c3 - 128)"
        have "bv c0 = 240 \<Longrightarrow> 144 \<le> bv c1" "bv c0 = 244 \<Longrightarrow> bv c1 \<le> 143" using ok by (simp_all add: second_ok_def)
        then have "bv c0 \<le> 243 \<or> bv c0 = 244 \<and> bv c1 \<le> 143" "bv c0 = 240 \<and> 144 \<le> bv c1 \<or> 241 \<le> bv c0"
          using b0 four by linarith+
        then have "57343 < ?r \<and> ?r \<le> 1114111" using b1 b2 b3 by (elim disjE) linarith+
        then have "scalar ?r" by (auto simp: scalar_def)
        then show ?thesis using high b0 ok three four c2 c3 by (simp add: s s1 s2 s3 decode_rune_def)
      qed
    qed
  qed
qed

lemma scalar_runes_of: "list_all scalar (runes_of s)"
proof (induction s rule: chunks.induct)
  case (1 s)
  then show ?case
    by (cases "s = []") (simp_all add: runes_of_def chunks_nonempty scalar_decode)
qed

lemma filter_scalar: "list_all scalar rs \<Longrightarrow> list_all scalar (filter P rs)"
  by (simp add: list_all_iff)

section \<open>Operations on the runes\<close>

definition trim_runes :: "nat list \<Rightarrow> nat list" where
  "trim_runes rs = rev (dropWhile is_space (rev (dropWhile is_space rs)))"

lemma set_trim_runes: "set (trim_runes rs) \<subseteq> set rs" "length (trim_runes rs) \<le> length rs"
proof -
  show "set (trim_runes rs) \<subseteq> set rs"
    by (auto simp: trim_runes_def dest!: set_dropWhileD)
  show "length (trim_runes rs) \<le> length rs"
    unfolding trim_runes_def length_rev
    by (rule order_trans [OF length_dropWhile_le]) (simp add: length_dropWhile_le)
qed

lemma trim_space_runes:
  assumes "list_all scalar rs"
  shows "trim_space (string_of_runes rs) = string_of_runes (trim_runes rs)"
proof -
  let ?g = "\<lambda>r. (r, encode_rune r)"
  have g: "space_chunk \<circ> ?g = is_space" by (rule ext) (simp add: space_chunk_def)
  have "rev (dropWhile space_chunk (rev (dropWhile space_chunk (map ?g rs)))) = map ?g (trim_runes rs)"
    by (simp add: dropWhile_map g rev_map trim_runes_def del: comp_apply)
  then show ?thesis
    by (simp add: trim_space_def chunks_string_of_runes [OF assms]) (simp add: string_of_runes_def o_def)
qed

end
