(* ===== verification/MediaFetch.thy ===== *)
theory MediaFetch
  imports TriggerMedia UrlNorm RepostGrade GoRunes
begin

text \<open>
  Downloading user-supplied media (\<open>pkg/storage/fetch.go\<close>): the host allow-list, re-checked on
  every redirect, the size cap on what is read, the sniffed type, and the display name. A
  transport answers a request with a redirect, a response or a failure; which URLs were asked
  of it is part of the result. \<open>url.Parse\<close>, the content sniffer and SHA-256 are parameters.
\<close>

section \<open>The allow-list\<close>

definition maxRedirects :: nat where "maxRedirects = 5"
definition sniffSampleSize :: nat where "sniffSampleSize = 512"

definition DefaultAllowedHosts :: "string list" where
  "DefaultAllowedHosts = [''cdn.discordapp.com'', ''media.discordapp.net'']"

record fetcher =
  ft_Hosts :: "string list"
  ft_MaxBytes :: int

definition NewFetcher :: "(nat \<Rightarrow> nat) \<Rightarrow> string list \<Rightarrow> int \<Rightarrow> fetcher" where
  "NewFetcher lc hosts maxBytes = \<lparr>ft_Hosts = map (to_lower lc) hosts,
     ft_MaxBytes = (if maxBytes \<le> 0 then MaxFileBytes else maxBytes)\<rparr>"

definition hostAllowed :: "(nat \<Rightarrow> nat) \<Rightarrow> fetcher \<Rightarrow> url \<Rightarrow> bool" where
  "hostAllowed lc f u =
    (if url_Scheme u \<noteq> ''https'' then False
     else if url_Host u = [] then False
     else if url_HasUser u then False
     else to_lower lc (Hostname u) \<in> set (ft_Hosts f))"

section \<open>The client\<close>

text \<open>
  What one request meets. \<open>rp_Length\<close> is negative without a Content-Length; a body ends, or
  fails after its bytes.
\<close>

record http_response =
  rp_Status :: int
  rp_Length :: int
  rp_Body :: string
  rp_Fails :: bool

datatype answer = Redirect url | Response http_response | NoAnswer

datatype client_error = ClientRefused | ClientFailed

text \<open>
  \<open>Client.Do\<close> with the fetcher's \<open>CheckRedirect\<close>, which sees the number of requests made so far:
  one more, or an error. The log is every URL requested.
\<close>

function client_do ::
  "(nat \<Rightarrow> nat) \<Rightarrow> fetcher \<Rightarrow> (url \<Rightarrow> answer) \<Rightarrow> url list \<Rightarrow> url
     \<Rightarrow> (client_error + http_response) \<times> url list" where
  "client_do lc f transport via u =
    (let via' = via @ [u] in
     case transport u of
       NoAnswer \<Rightarrow> (Inl ClientFailed, via')
     | Response r \<Rightarrow> (Inr r, via')
     | Redirect u' \<Rightarrow>
         if maxRedirects \<le> length via' then (Inl ClientFailed, via')
         else if \<not> hostAllowed lc f u' then (Inl ClientRefused, via')
         else client_do lc f transport via' u')"
  by pat_completeness auto
termination by (relation "measure (\<lambda>(lc, f, transport, via, u). maxRedirects - length via)") simp_all

declare client_do.simps [simp del]

section \<open>The display name\<close>

definition is_control :: "nat \<Rightarrow> bool" where
  "is_control r \<longleftrightarrow> r < 32 \<or> (127 \<le> r \<and> r < 160)"

text \<open>The ranges of the category Cf, and the line and paragraph separators (Zl, Zp).\<close>

definition cf_ranges :: "(nat \<times> nat) list" where
  "cf_ranges = [(0xAD, 0xAD), (0x600, 0x605), (0x61C, 0x61C), (0x6DD, 0x6DD), (0x70F, 0x70F),
     (0x890, 0x891), (0x8E2, 0x8E2), (0x180E, 0x180E), (0x200B, 0x200F), (0x202A, 0x202E),
     (0x2060, 0x2064), (0x2066, 0x206F), (0xFEFF, 0xFEFF), (0xFFF9, 0xFFFB), (0x110BD, 0x110BD),
     (0x110CD, 0x110CD), (0x13430, 0x1343F), (0x1BCA0, 0x1BCA3), (0x1D173, 0x1D17A),
     (0xE0001, 0xE0001), (0xE0020, 0xE007F)]"

definition is_format :: "nat \<Rightarrow> bool" where
  "is_format r \<longleftrightarrow> list_ex (\<lambda>(lo, hi). lo \<le> r \<and> r \<le> hi) cf_ranges \<or> r = 0x2028 \<or> r = 0x2029"

definition dropped_rune :: "nat \<Rightarrow> bool" where
  "dropped_rune r \<longleftrightarrow> r = 47 \<or> r = 92 \<or> is_control r \<or> is_format r"

definition maxFilenameRunes :: nat where "maxFilenameRunes = 128"

definition truncateFilenamePreservingExt :: "string \<Rightarrow> nat \<Rightarrow> string" where
  "truncateFilenamePreservingExt name maxRunes =
    (let runes = runes_of name in
     if length runes \<le> maxRunes then name
     else
       let ext = Ext name; extRunes = runes_of ext in
       if maxRunes \<le> length extRunes then string_of_runes (take maxRunes runes)
       else
         let base = take (length runes - length extRunes) runes;
             keep = maxRunes - length extRunes
         in string_of_runes (take keep base) @ ext)"

definition sanitizeFilename :: "string \<Rightarrow> string" where
  "sanitizeFilename name =
    (let kept = string_of_runes (filter (\<lambda>r. \<not> dropped_rune r) (runes_of name)) in
     trim_space (truncateFilenamePreservingExt (trim_space kept) maxFilenameRunes))"

text \<open>\<open>url.PathUnescape\<close>: as \<open>QueryUnescape\<close>, a plus sign left alone.\<close>

fun PathUnescape :: "string \<Rightarrow> string option" where
  "PathUnescape [] = Some []"
| "PathUnescape (c # cs) =
    (if c = CHR ''%'' then
       (case cs of
          h # l # rest \<Rightarrow> if is_hex h \<and> is_hex l
            then map_option (Cons (char_of (unhex h * 16 + unhex l))) (PathUnescape rest) else None
        | _ \<Rightarrow> None)
     else map_option (Cons c) (PathUnescape cs))"

definition filenameFromURL :: "url \<Rightarrow> string" where
  "filenameFromURL u =
    (let path = rev (takeWhile (\<lambda>c. c \<noteq> CHR ''/'') (rev (url_Path u))) in
     sanitizeFilename (case PathUnescape path of None \<Rightarrow> path | Some decoded \<Rightarrow> decoded))"

section \<open>Fetch\<close>

definition AllowedMIMETypes :: "string list" where
  "AllowedMIMETypes = [''image/png'', ''image/jpeg'', ''image/gif'', ''image/webp'', ''video/mp4'',
     ''video/webm'', ''audio/mpeg'', ''audio/ogg'', ''audio/wave'']"

definition allowedMIMEType :: "string \<Rightarrow> bool" where
  "allowedMIMEType mimeType \<longleftrightarrow> mimeType \<in> set AllowedMIMETypes"

definition stripMIMEParams :: "string \<Rightarrow> string" where
  "stripMIMEParams mimeType =
    (if CHR '';'' \<in> set mimeType then trim_space (takeWhile (\<lambda>c. c \<noteq> CHR '';'') mimeType) else mimeType)"

text \<open>\<open>io.ReadAll\<close> of an \<open>io.LimitReader\<close>: \<open>None\<close> when the body fails before the limit.\<close>

definition read_limited :: "int \<Rightarrow> http_response \<Rightarrow> string option" where
  "read_limited limit r =
    (if int (length (rp_Body r)) < limit \<and> rp_Fails r then None else Some (take (nat limit) (rp_Body r)))"

record sniffer =
  sn_Detect :: "string \<Rightarrow> string"
  sn_Sha256Hex :: "string \<Rightarrow> string"

definition accept_content :: "sniffer \<Rightarrow> url \<Rightarrow> string \<Rightarrow> fetch_error + fetched" where
  "accept_content sn parsed content =
    (let mimeType = stripMIMEParams (sn_Detect sn (take sniffSampleSize content)) in
     if \<not> allowedMIMEType mimeType then Inl ErrUnsupportedType
     else Inr \<lparr>fe_Content = content, fe_MIMEType = mimeType, fe_Filename = filenameFromURL parsed,
            fe_Hash = sn_Sha256Hex sn content\<rparr>)"

definition accept_response :: "fetcher \<Rightarrow> sniffer \<Rightarrow> url \<Rightarrow> http_response \<Rightarrow> fetch_error + fetched" where
  "accept_response f sn parsed r =
    (if rp_Status r < 200 \<or> 300 \<le> rp_Status r then Inl FetchFailed
     else if 0 \<le> rp_Length r \<and> ft_MaxBytes f < rp_Length r then Inl ErrTooLarge
     else (case read_limited (ft_MaxBytes f + 1) r of
         None \<Rightarrow> Inl FetchFailed
       | Some content \<Rightarrow>
           if ft_MaxBytes f < int (length content) then Inl ErrTooLarge
           else accept_content sn parsed content))"

definition Fetch ::
  "(nat \<Rightarrow> nat) \<Rightarrow> (string \<Rightarrow> url option) \<Rightarrow> sniffer \<Rightarrow> fetcher \<Rightarrow> (url \<Rightarrow> answer) \<Rightarrow> string
     \<Rightarrow> (fetch_error + fetched) \<times> url list" where
  "Fetch lc parse sn f transport rawURL =
    (case parse rawURL of
       None \<Rightarrow> (Inl FetchFailed, [])
     | Some parsed \<Rightarrow>
         if \<not> hostAllowed lc f parsed then (Inl ErrHostNotAllowed, [])
         else (case client_do lc f transport [] parsed of
             (Inl ClientRefused, via) \<Rightarrow> (Inl ErrHostNotAllowed, via)
           | (Inl ClientFailed, via) \<Rightarrow> (Inl FetchFailed, via)
           | (Inr r, via) \<Rightarrow> (accept_response f sn parsed r, via)))"

section \<open>Every request is to an allowed host\<close>

lemma client_do_allowed:
  "client_do lc f transport via u = (res, log) \<Longrightarrow> hostAllowed lc f u \<Longrightarrow>
     list_all (hostAllowed lc f) via \<Longrightarrow> length via < maxRedirects \<Longrightarrow>
     list_all (hostAllowed lc f) log \<and> length log \<le> maxRedirects"
proof (induction lc f transport via u arbitrary: res log rule: client_do.induct)
  case (1 lc f transport via u)
  let ?via = "via @ [u]"
  have ok: "list_all (hostAllowed lc f) ?via" "length ?via \<le> maxRedirects" using 1(3-5) by simp_all
  show ?case
  proof (cases "transport u")
    case (Redirect u')
    show ?thesis
    proof (cases "maxRedirects \<le> length ?via \<or> \<not> hostAllowed lc f u'")
      case True
      with 1(2) Redirect ok show ?thesis by (auto simp: client_do.simps [of lc f transport via u] Let_def split: if_splits)
    next
      case False
      then have "client_do lc f transport ?via u' = (res, log)"
        using 1(2) Redirect by (simp add: client_do.simps [of lc f transport via u])
      from 1(1) [OF refl Redirect _ _ this] False ok show ?thesis by simp
    qed
  qed (use 1(2) ok in \<open>simp_all add: client_do.simps [of lc f transport via u]\<close>)
qed

lemma accept_response_Inr:
  assumes "accept_response f sn parsed r = Inr got"
  shows "int (length (fe_Content got)) \<le> ft_MaxBytes f \<and> fe_MIMEType got \<in> set AllowedMIMETypes
    \<and> fe_Content got = rp_Body r \<and> \<not> rp_Fails r \<and> fe_Hash got = sn_Sha256Hex sn (fe_Content got)
    \<and> fe_Filename got = filenameFromURL parsed"
  using assms by (auto simp: accept_response_def read_limited_def accept_content_def allowedMIMEType_def Let_def
      split: if_splits option.splits)

lemma client_do_answer:
  "client_do lc f transport via u = (Inr r, log) \<Longrightarrow> log \<noteq> [] \<and> transport (last log) = Response r"
proof (induction lc f transport via u arbitrary: log rule: client_do.induct)
  case (1 lc f transport via u)
  show ?case
  proof (cases "transport u")
    case (Redirect u')
    from 1(2) Redirect have "\<not> maxRedirects \<le> length (via @ [u])" "\<not> \<not> hostAllowed lc f u'"
      "client_do lc f transport (via @ [u]) u' = (Inr r, log)"
      by (auto simp: client_do.simps [of lc f transport via u] Let_def split: if_splits)
    from 1(1) [OF refl Redirect this] show ?thesis .
  qed (use 1(2) in \<open>auto simp: client_do.simps [of lc f transport via u]\<close>)
qed

text \<open>
  C6: A download asks only allow-listed hosts, over https and without user info, on the first
  request as on every redirect, at most five in all; and what it returns is the whole body the
  last of them sent, within the size cap whatever length the response claimed, of an allowed type.
\<close>

theorem Fetch_contained:
  assumes "Fetch lc parse sn (NewFetcher lc hosts maxBytes) transport rawURL = (res, log)"
  shows "list_all (\<lambda>u. url_Scheme u = ''https'' \<and> \<not> url_HasUser u
           \<and> to_lower lc (Hostname u) \<in> to_lower lc ` set hosts) log \<and> length log \<le> 5
    \<and> (case res of Inl err \<Rightarrow> True | Inr got \<Rightarrow>
         log \<noteq> [] \<and> fe_MIMEType got \<in> set AllowedMIMETypes
         \<and> fe_Hash got = sn_Sha256Hex sn (fe_Content got)
         \<and> int (length (fe_Content got)) \<le> (if maxBytes \<le> 0 then MaxFileBytes else maxBytes)
         \<and> (case transport (last log) of Response r \<Rightarrow> fe_Content got = rp_Body r \<and> \<not> rp_Fails r | _ \<Rightarrow> False))"
proof (cases "parse rawURL")
  case None
  with assms show ?thesis by (auto simp: Fetch_def)
next
  case (Some parsed)
  let ?f = "NewFetcher lc hosts maxBytes"
  have allowed: "list_all (\<lambda>u. url_Scheme u = ''https'' \<and> \<not> url_HasUser u
      \<and> to_lower lc (Hostname u) \<in> to_lower lc ` set hosts) us" if "list_all (hostAllowed lc ?f) us" for us
    using that by (auto simp: list_all_iff hostAllowed_def NewFetcher_def split: if_splits)
  show ?thesis
  proof (cases "hostAllowed lc ?f parsed")
    case False
    with assms Some show ?thesis by (auto simp: Fetch_def)
  next
    case True
    obtain out where out: "client_do lc ?f transport [] parsed = (out, log)"
      using assms Some True by (auto simp: Fetch_def split: prod.splits sum.splits client_error.splits)
    have requests: "list_all (hostAllowed lc ?f) log" "length log \<le> 5"
      using client_do_allowed [OF out True] by (simp_all add: maxRedirects_def)
    have "\<exists>r. out = Inr r \<and> accept_response ?f sn parsed r = Inr got" if "res = Inr got" for got
      using assms Some True out that by (auto simp: Fetch_def split: sum.splits client_error.splits)
    then have "case res of Inl err \<Rightarrow> True | Inr got \<Rightarrow> log \<noteq> [] \<and> fe_MIMEType got \<in> set AllowedMIMETypes
         \<and> fe_Hash got = sn_Sha256Hex sn (fe_Content got)
         \<and> int (length (fe_Content got)) \<le> (if maxBytes \<le> 0 then MaxFileBytes else maxBytes)
         \<and> (case transport (last log) of Response r \<Rightarrow> fe_Content got = rp_Body r \<and> \<not> rp_Fails r | _ \<Rightarrow> False)"
      using client_do_answer [of lc ?f transport "[]" parsed _ log] out accept_response_Inr [of ?f sn parsed]
      by (fastforce simp: NewFetcher_def split: sum.split)
    with allowed [OF requests(1)] requests(2) show ?thesis by blast
  qed
qed

definition example_url :: url where
  "example_url = \<lparr>url_Scheme = ''https'', url_HasUser = False, url_Host = ''cdn.discordapp.com'',
     url_Path = ''/a/pic.png'', url_RawQuery = []\<rparr>"

definition example_transport :: "url \<Rightarrow> answer" where
  "example_transport u = (if url_Path u = ''/a/pic.png''
     then Redirect (example_url\<lparr>url_Host := ''MEDIA.discordapp.net'', url_Path := ''/b''\<rparr>)
     else Response \<lparr>rp_Status = 200, rp_Length = -1, rp_Body = ''bytes'', rp_Fails = False\<rparr>)"

definition example_fetch :: "(fetch_error + fetched) \<times> url list" where
  "example_fetch = Fetch id (\<lambda>_. Some example_url) \<lparr>sn_Detect = (\<lambda>_. ''image/png''), sn_Sha256Hex = (\<lambda>_. ''ab'')\<rparr>
     (NewFetcher id DefaultAllowedHosts 0) example_transport ''x''"

theorem Fetch_contained_witness:
  "(case example_fetch of (Inr got, log) \<Rightarrow> fe_Content got = ''bytes'' \<and> fe_Filename got = ''pic.png'' \<and> length log = 2
     | _ \<Rightarrow> False) \<and> length (snd example_fetch) \<le> 5"
proof
  show "length (snd example_fetch) \<le> 5"
    using Fetch_contained [OF prod.collapse [symmetric, of example_fetch, unfolded example_fetch_def]]
    by (simp add: example_fetch_def)
qed code_simp

section \<open>The display name is harmless\<close>

text \<open>A cut in front of a byte that starts a rune is a cut between runes.\<close>

lemma cut_runes:
  assumes "list_all scalar rs" and "string_of_runes rs = b @ e" and "e = [] \<or> rune_start (hd e)"
  shows "rs = runes_of b @ runes_of e" "e = string_of_runes (runes_of e)"
proof -
  have c: "chunks b @ chunks e = map (\<lambda>r. (r, encode_rune r)) rs"
    using chunks_append [OF assms(3), of b] chunks_string_of_runes [OF assms(1)] assms(2) by simp
  then have "map fst (chunks b @ chunks e) = rs" by (simp add: o_def)
  then show rs: "rs = runes_of b @ runes_of e" by (simp add: runes_of_def)
  have "snd x = encode_rune (fst x)" if "x \<in> set (chunks e)" for x
  proof -
    from that have "x \<in> set (chunks b @ chunks e)" by simp
    then show ?thesis unfolding c by auto
  qed
  then have "map snd (chunks e) = map encode_rune (map fst (chunks e))" by simp
  then have "concat (map snd (chunks e)) = string_of_runes (runes_of e)"
    by (simp only: string_of_runes_def runes_of_def)
  then show "e = string_of_runes (runes_of e)" by (simp only: concat_chunks)
qed

lemma Ext_suffix: "\<exists>b. name = b @ Ext name \<and> (Ext name = [] \<or> hd (Ext name) = CHR ''.'')"
proof -
  let ?P = "\<lambda>c. c \<noteq> CHR ''.'' \<and> c \<noteq> CHR ''/''"
  have split: "rev name = takeWhile ?P (rev name) @ dropWhile ?P (rev name)" by simp
  show ?thesis
  proof (cases "dropWhile ?P (rev name)")
    case Nil
    then have "Ext name = []" by (simp add: Ext_def Let_def del: dropWhile_eq_Nil_conv)
    then show ?thesis by simp
  next
    case (Cons c cs)
    then have "name = rev cs @ c # rev (takeWhile ?P (rev name))"
      using split by (metis append_Cons append_Nil append_assoc rev.simps(2) rev_append rev_rev_ident)
    then show ?thesis using Cons by (auto simp: Ext_def Let_def)
  qed
qed

lemma truncate_runes:
  assumes "list_all scalar rs"
  obtains ts where "truncateFilenamePreservingExt (string_of_runes rs) m = string_of_runes ts"
    "list_all scalar ts" "set ts \<subseteq> set rs" "length ts \<le> m"
proof (cases "length rs \<le> m")
  case True
  with assms that [of rs] show ?thesis by (simp add: truncateFilenamePreservingExt_def runes_of_string)
next
  case False
  let ?name = "string_of_runes rs"
  obtain b where b: "?name = b @ Ext ?name" "Ext ?name = [] \<or> hd (Ext ?name) = CHR ''.''"
    using Ext_suffix [of ?name] by blast
  then have "Ext ?name = [] \<or> rune_start (hd (Ext ?name))" by (auto simp: rune_start_def)
  note cut = cut_runes [OF assms b(1) this]
  show ?thesis
  proof (cases "m \<le> length (runes_of (Ext ?name))")
    case True
    have "list_all scalar (take m rs)" using assms by (auto simp: list_all_iff dest: in_set_takeD)
    moreover have "set (take m rs) \<subseteq> set rs" by (rule set_take_subset)
    ultimately show ?thesis
      using that [of "take m rs"] False True assms
      by (simp add: truncateFilenamePreservingExt_def runes_of_string Let_def)
  next
    case False
    let ?e = "runes_of (Ext ?name)" and ?b = "runes_of b"
    let ?ts = "take (m - length ?e) ?b @ ?e"
    have "truncateFilenamePreservingExt ?name m = string_of_runes (take (m - length ?e) ?b) @ Ext ?name"
    proof -
      have "take (length rs - length ?e) rs = ?b"
        using cut(1) by (metis add_diff_cancel_right' append_eq_conv_conj length_append)
      then show ?thesis
        using \<open>\<not> length rs \<le> m\<close> False
        by (simp only: truncateFilenamePreservingExt_def runes_of_string [OF assms] Let_def if_False)
    qed
    also have "\<dots> = string_of_runes ?ts" using cut(2) by simp
    finally have "truncateFilenamePreservingExt ?name m = string_of_runes ?ts" .
    moreover have sub: "set ?ts \<subseteq> set rs" using cut(1) set_take_subset by (metis Un_mono order_refl set_append)
    moreover have "list_all scalar ?ts" using assms sub by (auto simp: list_all_iff)
    moreover have "length ?ts \<le> m" using False by simp
    ultimately show ?thesis using that by blast
  qed
qed

lemma trim_runes_ends:
  "trim_runes rs \<noteq> [] \<Longrightarrow> \<not> is_space (hd (trim_runes rs)) \<and> \<not> is_space (last (trim_runes rs))"
proof -
  assume ne: "trim_runes rs \<noteq> []"
  let ?d = "dropWhile is_space rs"
  have rev_ne: "dropWhile is_space (rev ?d) \<noteq> []" using ne by (simp add: trim_runes_def)
  have "\<not> is_space (last (trim_runes rs))"
    using hd_dropWhile [OF rev_ne] by (simp add: trim_runes_def last_rev)
  moreover obtain ys where "?d = trim_runes rs @ ys"
    using takeWhile_dropWhile_id [of is_space "rev ?d"] by (metis rev_append rev_rev_ident trim_runes_def)
  then have "hd ?d = hd (trim_runes rs)" "?d \<noteq> []" using ne by auto
  ultimately show ?thesis using hd_dropWhile [of is_space rs] by auto
qed

text \<open>
  The display name of a download, whatever the URL, holds no path separator, no control or
  format character and no line separator, has at most 128 runes, and neither starts nor ends
  with white space.
\<close>

theorem filename_harmless:
  "list_ex dropped_rune (runes_of (filenameFromURL u)) = False
   \<and> length (runes_of (filenameFromURL u)) \<le> 128
   \<and> (runes_of (filenameFromURL u) = [] \<or> \<not> is_space (hd (runes_of (filenameFromURL u)))
        \<and> \<not> is_space (last (runes_of (filenameFromURL u))))
   \<and> CHR ''/'' \<notin> set (filenameFromURL u)"
proof -
  obtain name where name: "filenameFromURL u = sanitizeFilename name" by (simp add: filenameFromURL_def Let_def)
  let ?kept = "filter (\<lambda>r. \<not> dropped_rune r) (runes_of name)"
  have kept: "list_all scalar ?kept" by (rule filter_scalar [OF scalar_runes_of])
  have trimmed: "list_all scalar (trim_runes ?kept)" using kept set_trim_runes(1) [of ?kept] by (auto simp: list_all_iff)
  obtain ts where ts: "truncateFilenamePreservingExt (string_of_runes (trim_runes ?kept)) maxFilenameRunes = string_of_runes ts"
    "list_all scalar ts" "set ts \<subseteq> set (trim_runes ?kept)" "length ts \<le> maxFilenameRunes"
    by (rule truncate_runes [OF trimmed])
  have s: "sanitizeFilename name = string_of_runes (trim_runes ts)"
    by (simp add: sanitizeFilename_def trim_space_runes [OF kept] ts(1) trim_space_runes [OF ts(2)])
  have scalars: "list_all scalar (trim_runes ts)" using ts(2) set_trim_runes(1) [of ts] by (auto simp: list_all_iff)
  have runes: "runes_of (sanitizeFilename name) = trim_runes ts" unfolding s by (rule runes_of_string [OF scalars])
  have clean: "\<not> dropped_rune r" if "r \<in> set (trim_runes ts)" for r
    using that set_trim_runes(1) [of ts] ts(3) set_trim_runes(1) [of ?kept] by auto
  have "CHR ''/'' \<notin> set (encode_rune r)" if "r \<in> set (trim_runes ts)" for r
  proof -
    have "r \<noteq> 47" using clean [OF that] by (auto simp: dropped_rune_def)
    moreover have "bv c < 128 \<longrightarrow> r = bv c" if "c \<in> set (encode_rune r)" for c
      using that by (auto simp: encode_rune_def split: if_splits)
    ultimately show ?thesis by force
  qed
  then have "CHR ''/'' \<notin> set (filenameFromURL u)" by (auto simp: name s string_of_runes_def)
  moreover have "length (trim_runes ts) \<le> 128"
    using ts(4) set_trim_runes(2) [of ts] by (simp add: maxFilenameRunes_def)
  ultimately show ?thesis
    using clean trim_runes_ends [of ts] by (auto simp: name runes list_ex_iff)
qed

end
