(* ===== verification/DiscordContext.thy ===== *)
theory DiscordContext
  imports DiscordCatalogue MediaFetch
begin

text \<open>
  What every command handler of the Discord client shares: the context assembled for it
  (\<open>pkg/discord/interactions.go\<close>) and the rendering helpers of \<open>triggers.go\<close> and \<open>reminders.go\<close>.
  The service clients a context carries are an argument of each handler.
\<close>

section \<open>Contexts\<close>

record invoker =
  ik_ID :: string
  ik_Username :: string

record commandOrigin =
  co_GuildID :: string
  co_ChannelID :: string

record command_ctx =
  cc_Outgoing :: outgoing
  cc_Origin :: "commandOrigin option"
  cc_Invoker :: "invoker option"

definition background_ctx :: command_ctx where
  "background_ctx = \<lparr>cc_Outgoing = \<lparr>out_Caller = None, out_Origin = None\<rparr>, cc_Origin = None, cc_Invoker = None\<rparr>"

definition withInvoker :: "invoker \<Rightarrow> command_ctx \<Rightarrow> command_ctx" where
  "withInvoker user ctx = ctx\<lparr>cc_Invoker := Some user\<rparr>"

definition withOrigin :: "string \<Rightarrow> string \<Rightarrow> command_ctx \<Rightarrow> command_ctx" where
  "withOrigin guildID channelID ctx = ctx\<lparr>cc_Origin := Some \<lparr>co_GuildID = guildID, co_ChannelID = channelID\<rparr>\<rparr>"

definition discordOrigin :: "string \<Rightarrow> string \<Rightarrow> origin" where
  "discordOrigin guildID channelID = \<lparr>og_InstanceUID = guildID, og_DestinationUID = channelID\<rparr>"

definition discord_platform :: int where "discord_platform = 1"

definition commandContext :: "invoker \<Rightarrow> string \<Rightarrow> string \<Rightarrow> command_ctx" where
  "commandContext user guildID channelID =
    (let out = NewOutgoingOrigin (discordOrigin guildID channelID)
           (NewOutgoingContext discord_platform (ik_ID user) (cc_Outgoing background_ctx))
     in withInvoker user (withOrigin guildID channelID (background_ctx\<lparr>cc_Outgoing := out\<rparr>)))"

text \<open>
  The server reads back exactly the invoking user and, for a guild, the place of the command: the
  headers a command's calls carry.
\<close>

lemma command_headers:
  assumes "ik_ID user \<noteq> []"
  shows "FromHeader (WriteHeader (cc_Outgoing (commandContext user guildID channelID)) Map.empty)
      = Inr \<lparr>cm_PlatformEnum = 1, cm_PlatformUID = Some (ik_ID user)\<rparr>"
    and "OriginFromHeader (WriteHeader (cc_Outgoing (commandContext user guildID channelID)) Map.empty)
      = (if guildID = [] then None else Some (discordOrigin guildID channelID))"
  using assms
  by (simp_all add: commandContext_def Let_def withInvoker_def withOrigin_def NewOutgoingOrigin_def
      NewOutgoingContext_def background_ctx_def discordOrigin_def discord_platform_def WriteHeader_def
      FromHeader_def OriginFromHeader_def header_Get_def header_names Platform_value_def enum_String_def)

section \<open>Rendering\<close>

definition orNone :: "string \<Rightarrow> string" where
  "orNone s = (if s = [] then ''-'' else s)"

definition emptyDash :: "string \<Rightarrow> string" where
  "emptyDash s = (if s = [] then encode_rune 0x2014 else s)"

definition backtick :: char where "backtick = CHR 0x60"

definition codeSpan :: "string \<Rightarrow> string" where
  "codeSpan s = [backtick] @ filter (\<lambda>c. c \<noteq> backtick) s @ [backtick]"

definition codeOrNone :: "string \<Rightarrow> string" where
  "codeOrNone s = (if s = [] then orNone s else codeSpan s)"

definition code_of :: "string \<Rightarrow> string" where
  "code_of s = [backtick] @ s @ [backtick]"

definition maxLineFieldRunes :: nat where "maxLineFieldRunes = 60"
definition maxDisplayFilenameRunes :: nat where "maxDisplayFilenameRunes = 20"

definition truncateLineField :: "string \<Rightarrow> nat \<Rightarrow> string" where
  "truncateLineField s maxRunes =
    (let runes = runes_of s in
     if length runes \<le> maxRunes then s else string_of_runes (take maxRunes runes) @ ellipsis)"

definition truncateDisplayFilename :: "string \<Rightarrow> nat \<Rightarrow> string" where
  "truncateDisplayFilename name maxRunes =
    (let runes = runes_of name in
     if length runes \<le> maxRunes \<or> maxRunes < 1 then name
     else
       let ext = Ext name; extRunes = runes_of ext in
       if maxRunes \<le> length extRunes then string_of_runes (take (maxRunes - 1) runes) @ ellipsis
       else
         let base = take (length runes - length extRunes) runes
         in string_of_runes (take (maxRunes - length extRunes - 1) base) @ ellipsis @ ext)"

definition triggerSeparator :: string where
  "triggerSeparator = '' '' @ encode_rune 0xB7 @ '' ''"

definition line_break :: string where "line_break = [CHR 0x0A]"

text \<open>An enum's \<open>String\<close> without its prefix, in lower case.\<close>

definition enum_word :: "(string \<times> int) list \<Rightarrow> string \<Rightarrow> int \<Rightarrow> string" where
  "enum_word names pfx n =
    (let s = enum_String names n in map ascii_lower (if prefix pfx s then drop (length pfx) s else s))"

definition clearanceName :: "int \<Rightarrow> string" where
  "clearanceName clearance = enum_word Clearance_value ''CLEARANCE_'' clearance"

section \<open>Handlers\<close>

text \<open>A handler answers, or fails; \<open>None\<close> is a nil response.\<close>

type_synonym 'b cmd_handler = "command_ctx \<Rightarrow> invocation \<Rightarrow> 'b \<Rightarrow> response option rpc \<times> 'b"

definition private_reply :: "string \<Rightarrow> response" where
  "private_reply content = empty_response\<lparr>resp_Content := content, resp_Ephemeral := True\<rparr>"

text \<open>A call whose error is the handler's and whose result is rendered.\<close>

definition answer_with :: "('a \<Rightarrow> response) \<Rightarrow> 'a rpc \<times> 'b \<Rightarrow> response option rpc \<times> 'b" where
  "answer_with render res = (case res of
     (Inl err, b) \<Rightarrow> (Inl err, b) | (Inr x, b) \<Rightarrow> (Inr (Some (render x)), b))"

section \<open>A displayed filename fits\<close>

lemma ellipsis_runes: "ellipsis = string_of_runes [0x2026]" "scalar 0x2026"
  by code_simp+

lemma runes_append_scalar:
  "list_all scalar rs \<Longrightarrow> list_all scalar ts \<Longrightarrow> runes_of (string_of_runes rs @ string_of_runes ts) = rs @ ts"
  using runes_of_string [of "rs @ ts"] by (simp add: string_of_runes_def)

lemma take_scalar: "list_all scalar rs \<Longrightarrow> list_all scalar (take n rs)"
  by (auto simp: list_all_iff dest: in_set_takeD)

text \<open>
  A name of valid UTF-8 is shown in at most the given number of runes, ellipsis included; a name
  that fits is shown as it is, and a longer one keeps an extension that leaves room for it.
\<close>

lemma display_filename_fits:
  assumes "list_all scalar rs" and "1 \<le> maxRunes"
  defines "shown \<equiv> truncateDisplayFilename (string_of_runes rs) maxRunes"
  shows "length (runes_of shown) \<le> maxRunes \<and> (length rs \<le> maxRunes \<longrightarrow> shown = string_of_runes rs)
    \<and> (length (runes_of (Ext (string_of_runes rs))) < maxRunes \<longrightarrow> (\<exists>b. shown = b @ Ext (string_of_runes rs)))"
proof (cases "length rs \<le> maxRunes")
  case True
  with assms(1) show ?thesis
    using Ext_suffix [of "string_of_runes rs"]
    by (auto simp: shown_def truncateDisplayFilename_def runes_of_string)
next
  case False
  let ?name = "string_of_runes rs"
  obtain b where b: "?name = b @ Ext ?name" "Ext ?name = [] \<or> hd (Ext ?name) = CHR ''.''"
    using Ext_suffix [of ?name] by blast
  then have "Ext ?name = [] \<or> rune_start (hd (Ext ?name))" by (auto simp: rune_start_def)
  note cut = cut_runes [OF assms(1) b(1) this]
  let ?e = "runes_of (Ext ?name)"
  have e: "list_all scalar ?e" "string_of_runes ?e = Ext ?name" using scalar_runes_of cut(2) by simp_all
  have dots: "list_all scalar [0x2026]" using ellipsis_runes(2) by simp
  show ?thesis
  proof (cases "maxRunes \<le> length ?e")
    case True
    then have "shown = string_of_runes (take (maxRunes - 1) rs) @ string_of_runes [0x2026]"
      using False assms(1,2) by (simp add: shown_def truncateDisplayFilename_def runes_of_string Let_def ellipsis_runes(1))
    then have "runes_of shown = take (maxRunes - 1) rs @ [0x2026]"
      using runes_append_scalar [OF take_scalar [OF assms(1)] dots] by simp
    with False True assms(2) show ?thesis by simp
  next
    case short: False
    let ?k = "take (maxRunes - length ?e - 1) (take (length rs - length ?e) rs)"
    have k: "list_all scalar ?k" using assms(1) by (intro take_scalar)
    have shown: "shown = string_of_runes ?k @ ellipsis @ Ext ?name"
      using False short assms(1,2) by (simp add: shown_def truncateDisplayFilename_def runes_of_string Let_def)
    have "shown = string_of_runes ?k @ string_of_runes ([0x2026] @ ?e)"
      unfolding shown using e(2) ellipsis_runes(1) by (simp add: string_of_runes_def)
    then have "runes_of shown = ?k @ [0x2026] @ ?e"
      using runes_append_scalar [OF k, of "[0x2026] @ ?e"] dots e(1) by simp
    with short shown False show ?thesis by auto
  qed
qed

lemma display_filename_example:
  "truncateDisplayFilename ''holiday pictures 2024.jpeg'' 20 = ''holiday pictur'' @ ellipsis @ ''.jpeg''"
  by code_simp

end
