(* ===== verification/ReminderDuration.thy ===== *)
theory ReminderDuration
  imports GoStrings
begin

text \<open>
  \<open>ParseDuration\<close> of \<open>pkg/reminder/parse.go\<close>: the composed durations such as \<open>4M2d8h30s\<close>, with
  every multiplication and addition on \<open>int64\<close> and every overflow guard of the source. The
  grammar it is meant to accept is given separately, with unbounded integers, and the parser
  is proved to be exactly that grammar.
\<close>

section \<open>The parser\<close>

definition unitDay :: duration where "unitDay = 24 * Hour"
definition unitWeek :: duration where "unitWeek = 7 * unitDay"
definition unitMonth :: duration where "unitMonth = 30 * unitDay"

lemmas unit_defs = unitDay_def unitWeek_def unitMonth_def time_units

definition unit_duration :: "char \<Rightarrow> duration option" where
  "unit_duration u =
    (if u = CHR ''M'' then Some unitMonth
     else if u = CHR ''w'' then Some unitWeek
     else if u = CHR ''d'' then Some unitDay
     else if u = CHR ''h'' then Some Hour
     else if u = CHR ''m'' then Some Minute
     else if u = CHR ''s'' then Some Second
     else None)"

datatype duration_error =
    MissingNumber string | DurationOverflow | NoUnit int | UnknownUnit char | RepeatedUnit char
  | NotPositive

text \<open>The inner loop over the digits of one number; \<open>None\<close> is the overflow return.\<close>

fun parse_value :: "int \<Rightarrow> string \<Rightarrow> int option" where
  "parse_value value [] = Some value"
| "parse_value value (r # rs) =
    (let digit = digit_val r in
     if value > go_div (i64 (max_i64 - digit)) 10 then None
     else parse_value (i64 (i64 (value * 10) + digit)) rs)"

text \<open>
  The outer loop. \<open>s\<close> is \<open>input[i:]\<close> and \<open>seen\<close> lists the units already used; the guards are in
  the source's order.
\<close>

function duration_loop :: "duration \<Rightarrow> char list \<Rightarrow> string \<Rightarrow> duration_error + duration" where
  "duration_loop tot seen s =
    (if s = [] then (if tot \<le> 0 then Inl NotPositive else Inr tot)
     else
       let digits = takeWhile is_digit s; rest = dropWhile is_digit s in
       if digits = [] then Inl (MissingNumber s)
       else case parse_value 0 digits of
         None \<Rightarrow> Inl DurationOverflow
       | Some value \<Rightarrow> (case rest of
           [] \<Rightarrow> Inl (NoUnit value)
         | u # rest' \<Rightarrow> (case unit_duration u of
             None \<Rightarrow> Inl (UnknownUnit u)
           | Some unitDur \<Rightarrow>
               if u \<in> set seen then Inl (RepeatedUnit u)
               else if value \<noteq> 0 \<and> unitDur > go_div max_i64 value then Inl DurationOverflow
               else
                 let part = i64 (value * unitDur) in
                 if part > 0 \<and> tot > i64 (max_i64 - part) then Inl DurationOverflow
                 else duration_loop (i64 (tot + part)) (u # seen) rest')))"
  by pat_completeness auto
termination
  by (relation "measure (\<lambda>(tot, seen, s). length s)") (auto dest: dropWhile_Cons_shorter [OF sym])

declare duration_loop.simps [simp del]

definition ParseDuration :: "string \<Rightarrow> duration_error + duration" where
  "ParseDuration input = duration_loop 0 [] input"

section \<open>The grammar\<close>

text \<open>
  One part is a non-empty run of decimal digits and a unit letter; a composed duration is a
  sequence of parts in which no unit repeats. Its length is the exact sum, with no bound.
\<close>

type_synonym part = "string \<times> char"

definition part_ok :: "part \<Rightarrow> bool" where
  "part_ok p \<longleftrightarrow> fst p \<noteq> [] \<and> (\<forall>c \<in> set (fst p). is_digit c) \<and> unit_duration (snd p) \<noteq> None"

definition part_text :: "part \<Rightarrow> string" where
  "part_text p = fst p @ [snd p]"

definition part_length :: "part \<Rightarrow> int" where
  "part_length p = dec_value 0 (fst p) * the (unit_duration (snd p))"

definition composed :: "part list \<Rightarrow> bool" where
  "composed ps \<longleftrightarrow> (\<forall>p \<in> set ps. part_ok p) \<and> distinct (map snd ps)"

definition composed_text :: "part list \<Rightarrow> string" where
  "composed_text ps = concat (map part_text ps)"

definition composed_length :: "part list \<Rightarrow> int" where
  "composed_length ps = sum_list (map part_length ps)"

section \<open>The guards are exact\<close>

lemma unit_duration_pos: "unit_duration u = Some d \<Longrightarrow> 1000000000 \<le> d \<and> d \<le> 2592000000000000"
  by (auto simp: unit_duration_def unit_defs split: if_splits)

lemma unit_duration_not_digit: "unit_duration u = Some d \<Longrightarrow> \<not> is_digit u"
  by (auto simp: unit_duration_def is_digit_def split: if_splits)

lemma parse_value_exact:
  assumes "\<forall>c \<in> set s. is_digit c" and "0 \<le> v" and "v \<le> max_i64"
  shows "parse_value v s = (if dec_value v s \<le> max_i64 then Some (dec_value v s) else None)"
  using assms
proof (induction s arbitrary: v)
  case (Cons c cs)
  have d: "0 \<le> digit_val c" "digit_val c \<le> 9" using Cons.prems by (auto simp: digit_val_range)
  have "go_div (i64 (max_i64 - digit_val c)) 10 = (max_i64 - digit_val c) div 10"
    using d by (simp add: max_i64_def)
  then have guard: "v > go_div (i64 (max_i64 - digit_val c)) 10 \<longleftrightarrow> v * 10 + digit_val c > max_i64"
    using le_div_iff [of 10 v "max_i64 - digit_val c"] by auto
  show ?case
  proof (cases "v * 10 + digit_val c > max_i64")
    case True
    have "v * 10 + digit_val c \<le> dec_value (v * 10 + digit_val c) cs"
      using Cons.prems d by (intro dec_value_mono) auto
    with True guard show ?thesis by simp
  next
    case False
    then have "i64 (i64 (v * 10) + digit_val c) = v * 10 + digit_val c"
      using d Cons.prems by (simp add: max_i64_def)
    with False guard Cons show ?thesis using d by simp
  qed
qed simp

lemma unit_guard_exact:
  assumes "0 \<le> v" and "0 < d"
  shows "(v \<noteq> 0 \<and> d > go_div max_i64 v) \<longleftrightarrow> v * d > max_i64"
proof (cases "v = 0")
  case False
  then have "d \<le> max_i64 div v \<longleftrightarrow> d * v \<le> max_i64" using assms by (intro le_div_iff) simp
  with False assms show ?thesis by (auto simp: max_i64_def not_le mult.commute)
qed (simp add: max_i64_def)

lemma dec_value_nonneg: "\<forall>c \<in> set s. is_digit c \<Longrightarrow> 0 \<le> dec_value 0 s"
  using dec_value_mono [of s 0] by simp

lemma duration_loop_part:
  assumes ds: "ds \<noteq> []" "\<forall>c \<in> set ds. is_digit c" and u: "unit_duration u = Some d"
    and seen: "u \<notin> set seen" and tot: "0 \<le> tot" "tot \<le> max_i64"
  shows "duration_loop tot seen (ds @ u # r) =
    (if tot + dec_value 0 ds * d \<le> max_i64
     then duration_loop (tot + dec_value 0 ds * d) (u # seen) r else Inl DurationOverflow)"
proof -
  let ?v = "dec_value 0 ds"
  have v: "0 \<le> ?v" using ds(2) by (rule dec_value_nonneg)
  have d: "1 \<le> d" "0 < d" using unit_duration_pos [OF u] by auto
  have cut: "takeWhile is_digit (ds @ u # r) = ds" "dropWhile is_digit (ds @ u # r) = u # r"
    using ds(2) unit_duration_not_digit [OF u]
    by (auto intro: takeWhile_append_stop dropWhile_append_stop)
  have pv: "parse_value 0 ds = (if ?v \<le> max_i64 then Some ?v else None)"
    using parse_value_exact [OF ds(2), of 0] by (simp add: max_i64_def)
  have guard: "(?v \<noteq> 0 \<and> go_div max_i64 ?v < d) = (max_i64 < ?v * d)"
    using unit_guard_exact [OF v d(2)] by simp
  show ?thesis
  proof (cases "?v * d \<le> max_i64")
    case False
    then have "\<not> tot + ?v * d \<le> max_i64" using tot by simp
    moreover have "duration_loop tot seen (ds @ u # r) = Inl DurationOverflow"
      using False guard ds(1)
      by (subst duration_loop.simps) (simp add: cut pv u seen)
    ultimately show ?thesis by simp
  next
    case True
    have "?v * 1 \<le> ?v * d" using v d by (intro mult_left_mono) auto
    with True have vm: "?v \<le> max_i64" by simp
    have nonneg: "0 \<le> ?v * d" using v d by simp
    then have part: "i64 (?v * d) = ?v * d" "0 \<le> ?v * d"
      using True by (auto intro!: i64_id simp: max_i64_def)
    have room: "i64 (max_i64 - ?v * d) = max_i64 - ?v * d"
      using True part(2) by (simp add: max_i64_def)
    show ?thesis
    proof (cases "tot + ?v * d \<le> max_i64")
      case ok: True
      have "i64 (tot + ?v * d) = tot + ?v * d" using ok tot part(2) by (simp add: max_i64_def)
      then show ?thesis
        using ok True ds(1)
        by (subst duration_loop.simps) (simp add: cut pv vm u seen part room guard del: conj_imp_eq_imp_imp)
    next
      case over: False
      then have "0 < ?v * d" using tot by simp
      then show ?thesis
        using over True ds(1)
        by (subst duration_loop.simps) (simp add: cut pv vm u seen part room guard del: conj_imp_eq_imp_imp)
    qed
  qed
qed

lemma duration_loop_Inr_part:
  assumes "duration_loop tot seen s = Inr x" and "s \<noteq> []"
  obtains ds u d r where "s = ds @ u # r" "ds \<noteq> []" "\<forall>c \<in> set ds. is_digit c"
    "unit_duration u = Some d" "u \<notin> set seen"
proof -
  let ?ds = "takeWhile is_digit s"
  have ds: "?ds \<noteq> []"
    using assms by (subst (asm) duration_loop.simps) (auto simp: Let_def)
  obtain u r where r: "dropWhile is_digit s = u # r"
    using assms ds by (subst (asm) duration_loop.simps)
      (cases "dropWhile is_digit s"; auto simp: Let_def split: option.splits)
  obtain d where "unit_duration u = Some d" "u \<notin> set seen"
    using assms ds r by (subst (asm) duration_loop.simps)
      (auto simp: Let_def split: option.splits if_splits)
  moreover have "s = ?ds @ u # r" using takeWhile_dropWhile_id [of is_digit s] r by simp
  moreover have "\<forall>c \<in> set ?ds. is_digit c" by (blast dest: set_takeWhile_all)
  ultimately show ?thesis using ds that by blast
qed

lemma duration_loop_sound:
  assumes "0 \<le> tot" "tot \<le> max_i64" "duration_loop tot seen s = Inr x"
  shows "\<exists>ps. composed ps \<and> set (map snd ps) \<inter> set seen = {} \<and> composed_text ps = s
     \<and> x = tot + composed_length ps \<and> 0 < x \<and> x \<le> max_i64"
  using assms
proof (induction s arbitrary: tot seen rule: length_induct)
  case (1 s)
  show ?case
  proof (cases "s = []")
    case True
    then have "x = tot" "0 < tot" using "1.prems" by (auto simp: duration_loop.simps split: if_splits)
    with True "1.prems" show ?thesis
      by (intro exI [of _ "[]"]) (simp add: composed_def composed_text_def composed_length_def)
  next
    case False
    obtain ds u d r where
      p: "s = ds @ u # r" "ds \<noteq> []" "\<forall>c \<in> set ds. is_digit c" "unit_duration u = Some d" "u \<notin> set seen"
      by (rule duration_loop_Inr_part [OF "1.prems"(3) False])
    let ?t = "tot + dec_value 0 ds * d"
    have "(if ?t \<le> max_i64 then duration_loop ?t (u # seen) r else Inl DurationOverflow) = Inr x"
      using "1.prems"(3) duration_loop_part [OF p(2-5) "1.prems"(1,2), of r] p(1) by simp
    then have t: "?t \<le> max_i64" "duration_loop ?t (u # seen) r = Inr x"
      by (simp_all split: if_splits)
    have r: "length r < length s" using p(1) by simp
    have t0: "0 \<le> ?t"
      using "1.prems"(1) dec_value_nonneg [OF p(3)] unit_duration_pos [OF p(4)] by simp
    from "1.IH" [rule_format, OF r t0 t] obtain ps where ps: "composed ps
      \<and> set (map snd ps) \<inter> set (u # seen) = {} \<and> composed_text ps = r
      \<and> x = ?t + composed_length ps \<and> 0 < x \<and> x \<le> max_i64" ..
    then show ?thesis
      using p by (intro exI [of _ "(ds, u) # ps"])
        (auto simp: composed_def composed_text_def composed_length_def part_ok_def part_text_def part_length_def)
  qed
qed

lemma composed_length_nonneg: "composed ps \<Longrightarrow> 0 \<le> composed_length ps"
proof (induction ps)
  case (Cons p ps)
  then obtain d where "unit_duration (snd p) = Some d" "\<forall>c \<in> set (fst p). is_digit c"
    by (auto simp: composed_def part_ok_def)
  then have "0 \<le> part_length p"
    using dec_value_nonneg [of "fst p"] unit_duration_pos [of "snd p" d] by (simp add: part_length_def)
  with Cons show ?case by (simp add: composed_def composed_length_def)
qed (simp add: composed_length_def)

lemma duration_loop_complete:
  assumes "composed ps" "set (map snd ps) \<inter> set seen = {}" "0 \<le> tot"
    and "0 < tot + composed_length ps" "tot + composed_length ps \<le> max_i64"
  shows "duration_loop tot seen (composed_text ps) = Inr (tot + composed_length ps)"
  using assms
proof (induction ps arbitrary: tot seen)
  case Nil
  then show ?case by (simp add: composed_text_def composed_length_def duration_loop.simps)
next
  case (Cons p ps)
  obtain ds u where p: "p = (ds, u)" by (cases p)
  obtain d where d: "unit_duration u = Some d" and ds: "ds \<noteq> []" "\<forall>c \<in> set ds. is_digit c"
    using Cons.prems(1) by (auto simp: p composed_def part_ok_def)
  have ps: "composed ps" "u \<notin> set (map snd ps)" using Cons.prems(1) by (auto simp: p composed_def)
  let ?t = "tot + dec_value 0 ds * d"
  have len: "tot + composed_length (p # ps) = ?t + composed_length ps"
    by (simp add: composed_length_def part_length_def p d)
  have t: "0 \<le> ?t" using Cons.prems(3) dec_value_nonneg [OF ds(2)] unit_duration_pos [OF d] by simp
  moreover have "?t \<le> max_i64" using composed_length_nonneg [OF ps(1)] Cons.prems(5) len by simp
  moreover have "tot \<le> ?t" using dec_value_nonneg [OF ds(2)] unit_duration_pos [OF d] by simp
  ultimately have "duration_loop tot seen (ds @ u # composed_text ps) = duration_loop ?t (u # seen) (composed_text ps)"
    using duration_loop_part [OF ds d, of seen tot "composed_text ps"] Cons.prems by (simp add: p)
  also have "\<dots> = Inr (?t + composed_length ps)"
    using Cons.prems ps t len by (intro Cons.IH) (auto simp: p)
  finally show ?case
    using len by (simp add: composed_text_def part_text_def p)
qed

text \<open>
  C39: The duration parser is exactly its grammar: an input is accepted with the value \<open>d\<close> if
  and only if it is a sequence of digit-and-unit parts with no repeated unit whose exact,
  unbounded sum is \<open>d\<close>, positive and at most the largest \<open>int64\<close>. No accepted value wrapped,
  and no representable duration is refused as an overflow.
\<close>

theorem ParseDuration_iff:
  "ParseDuration input = Inr d \<longleftrightarrow>
     (\<exists>ps. composed ps \<and> composed_text ps = input \<and> composed_length ps = d
        \<and> 0 < d \<and> d \<le> 9223372036854775807)"
  using duration_loop_sound [of 0 "[]" input d] duration_loop_complete [of _ "[]" 0]
  by (auto simp: ParseDuration_def max_i64_def)

text \<open>The source's own example and its overflow test.\<close>

lemma ParseDuration_examples:
  "ParseDuration ''4M2d8h30s'' = Inr 10569630000000000"
  "ParseDuration ''5m5m'' = Inl (RepeatedUnit CHR ''m'')"
  "ParseDuration ''4000000000h'' = Inl DurationOverflow"
  by code_simp+

end
