(* ===== verification/ReminderParse.thy ===== *)
theory ReminderParse
  imports ReminderDuration GoTime
begin

text \<open>
  \<open>ParseWhen\<close> and the absolute and day-first date parsers of \<open>pkg/reminder/parse.go\<close>. The
  natural-language parser (\<open>github.com/olebedev/when\<close>) is the argument \<open>natural\<close>: the phrase
  and the current instant to an instant, or nothing.
\<close>

section \<open>Numbers\<close>

text \<open>The loop of \<open>atoi\<close>: no guard, so the accumulator is an \<open>int\<close> that wraps.\<close>

fun atoi_loop :: "int \<Rightarrow> string \<Rightarrow> int option" where
  "atoi_loop n [] = Some n"
| "atoi_loop n (r # rs) =
    (if \<not> is_digit r then None else atoi_loop (i64 (i64 (n * 10) + digit_val r)) rs)"

definition atoi :: "string \<Rightarrow> int option" where
  "atoi s0 = (let s = trim_space s0 in if s = [] then None else atoi_loop 0 s)"

section \<open>Absolute dates\<close>

definition ymd :: "layout_elem list" where
  "ymd = [LYear, LByte CHR ''-'', LMonth, LByte CHR ''-'', LDay]"

definition hm :: "layout_elem list" where
  "hm = [LHour, LByte CHR '':'', LMinute]"

text \<open>The seven layouts in the source's order, each with whether it carries its own offset.\<close>

definition absoluteLayouts :: "(layout_elem list \<times> bool) list" where
  "absoluteLayouts =
    [(ymd @ [LByte CHR ''T''] @ hm @ [LByte CHR '':'', LSecond, LZone], True),
     (ymd @ [LByte CHR ''T''] @ hm @ [LByte CHR '':'', LSecond], False),
     (ymd @ [LByte CHR ''T''] @ hm, False),
     (ymd @ [LSpace] @ hm @ [LByte CHR '':'', LSecond, LZone], True),
     (ymd @ [LSpace] @ hm @ [LByte CHR '':'', LSecond], False),
     (ymd @ [LSpace] @ hm, False),
     (ymd, False)]"

fun try_layouts :: "(layout_elem list \<times> bool) list \<Rightarrow> string \<Rightarrow> location \<Rightarrow> instant option" where
  "try_layouts [] input loc = None"
| "try_layouts ((layout, zoned) # ls) input loc =
    (case ParseInLocation layout input (if zoned then UTC else loc) of
       Some t \<Rightarrow> Some t
     | None \<Rightarrow> try_layouts ls input loc)"

text \<open>The clock part of a day-first date: \<open>None\<close> is the refusal.\<close>

definition split_clock :: "string \<Rightarrow> (string \<times> int \<times> int) option" where
  "split_clock input =
    (case str_fields input of
       [datePart] \<Rightarrow> Some (input, 0, 0)
     | [datePart, clock] \<Rightarrow>
         (case str_index '':'' clock of
            None \<Rightarrow> None
          | Some i \<Rightarrow> (case (atoi (take i clock), atoi (drop (i + 1) clock)) of
              (Some h, Some m) \<Rightarrow> Some (datePart, h, m)
            | _ \<Rightarrow> None))
     | _ \<Rightarrow> None)"

definition date_separator :: "string \<Rightarrow> char option" where
  "date_separator datePart =
    (if str_contains datePart ''/'' then Some CHR ''/''
     else if str_contains datePart ''.'' then Some CHR ''.'' else None)"

definition split_year :: "string list \<Rightarrow> location \<Rightarrow> instant \<Rightarrow> int option" where
  "split_year parts loc now =
    (if length parts = 3
     then (case atoi (parts ! 2) of None \<Rightarrow> None | Some y \<Rightarrow> Some (if y < 100 then i64 (y + 2000) else y))
     else Some (year_in loc now))"

definition parseSlashDate :: "string \<Rightarrow> location \<Rightarrow> instant \<Rightarrow> instant option" where
  "parseSlashDate input loc now =
    (case split_clock input of
       None \<Rightarrow> None
     | Some (datePart, hour, minute) \<Rightarrow>
    (case date_separator datePart of
       None \<Rightarrow> None
     | Some sep \<Rightarrow>
        let parts = split_byte sep datePart in
        if length parts \<noteq> 2 \<and> length parts \<noteq> 3 then None
        else (case (atoi (parts ! 0), atoi (parts ! 1)) of
           (Some day, Some month) \<Rightarrow>
             (case split_year parts loc now of
                None \<Rightarrow> None
              | Some year \<Rightarrow>
                 if month < 1 \<or> month > 12 \<or> day < 1 \<or> day > 31 \<or> hour < 0 \<or> hour > 23
                   \<or> minute < 0 \<or> minute > 59 then None
                 else let t = Date year month day hour minute 0 0 loc in
                   if day_in loc t \<noteq> day \<or> month_in loc t \<noteq> month then None else Some t)
         | _ \<Rightarrow> None)))"

definition parseAbsolute :: "string \<Rightarrow> location \<Rightarrow> instant \<Rightarrow> instant option" where
  "parseAbsolute input loc now =
    (case try_layouts absoluteLayouts input loc of
       Some t \<Rightarrow> Some t
     | None \<Rightarrow> parseSlashDate input loc now)"

section \<open>ParseWhen\<close>

text \<open>\<open>None\<close> as the location is Go's nil, for which UTC stands; \<open>ErrNoMatch\<close> is the one error.\<close>

datatype when_error = ErrNoMatch string

definition ParseWhen ::
  "(string \<Rightarrow> location \<Rightarrow> instant \<Rightarrow> instant option) \<Rightarrow> string \<Rightarrow> instant \<Rightarrow> location option
     \<Rightarrow> when_error + instant" where
  "ParseWhen natural input0 now loc0 =
    (let input = trim_space input0 in
     if input = [] then Inl (ErrNoMatch [])
     else
       let loc = (case loc0 of None \<Rightarrow> UTC | Some l \<Rightarrow> l) in
       case ParseDuration input of
         Inr d \<Rightarrow> Inr (now + d)
       | Inl _ \<Rightarrow> (case parseAbsolute input loc now of
           Some t \<Rightarrow> Inr t
         | None \<Rightarrow> (case natural input loc now of
             Some t \<Rightarrow> Inr t
           | None \<Rightarrow> Inl (ErrNoMatch input))))"

section \<open>Numbers: exactly the digit strings, modulo 2 to the 64\<close>

lemma atoi_loop_spec:
  "atoi_loop n s = (if \<forall>c \<in> set s. is_digit c then Some (if s = [] then n else i64 (dec_value n s)) else None)"
proof (induction s arbitrary: n)
  case (Cons c cs)
  have step: "i64 (i64 (n * 10) + digit_val c) = i64 (n * 10 + digit_val c)"
    by (rule i64_add_left)
  have "i64 (dec_value (i64 m) cs) = i64 (dec_value m cs)" for m
  proof (induction cs arbitrary: m)
    case Nil
    then show ?case using i64_add_left [of m 0] by simp
  next
    case (Cons d ds)
    have "i64 (dec_value (i64 m * 10 + digit_val d) ds) = i64 (dec_value (i64 (i64 m * 10 + digit_val d)) ds)"
      by (rule Cons [symmetric])
    also have "i64 (i64 m * 10 + digit_val d) = i64 (m * 10 + digit_val d)"
      by (metis i64_add_left i64_mult_left)
    also have "i64 (dec_value \<dots> ds) = i64 (dec_value (m * 10 + digit_val d) ds)"
      by (rule Cons)
    finally show ?case by simp
  qed
  then show ?case using Cons.IH step by (cases cs) auto
qed simp

text \<open>
  The day-first parser's number reader accepts exactly the non-empty digit strings (after
  trimming), and what it returns is the number denoted modulo 2 to the 64 as a signed value:
  it is exact up to the largest \<open>int64\<close> and wraps silently beyond.
\<close>

theorem atoi_spec:
  "atoi s = (if trim_space s \<noteq> [] \<and> list_all is_digit (trim_space s)
     then Some (i64 (dec_value 0 (trim_space s))) else None)"
  by (auto simp: atoi_def Let_def atoi_loop_spec list_all_iff)

text \<open>So a date whose day is 2 to the 64 plus one is read as the first of the month.\<close>

lemma parseSlashDate_wraps:
  "parseSlashDate ''18446744073709551617/2/2026'' UTC 0 = parseSlashDate ''1/2/2026'' UTC 0"
  "parseSlashDate ''1/2/2026'' UTC 0 \<noteq> None"
  by code_simp+

section \<open>Accepted dates were not normalised\<close>

text \<open>
  A day-first date is never approximated: when the parser returns an instant, there are a
  day, month and clock time in range such that the instant is that local date and time, and
  the local calendar shows exactly that day and month (a 31 February is refused, not moved).
\<close>

theorem parseSlashDate_exact:
  assumes "parseSlashDate s loc now = Some t"
  shows "1 \<le> month_in loc t \<and> month_in loc t \<le> 12 \<and> 1 \<le> day_in loc t \<and> day_in loc t \<le> 31
    \<and> (\<exists>year hour minute. 0 \<le> hour \<and> hour \<le> 23 \<and> 0 \<le> minute \<and> minute \<le> 59
         \<and> t = Date year (month_in loc t) (day_in loc t) hour minute 0 0 loc)"
  using assms
  by (auto simp: parseSlashDate_def Let_def not_less split: option.splits prod.splits if_splits; metis)

theorem parseSlashDate_exact_witness:
  "parseSlashDate ''29.2.2024 18:30'' UTC 0 = Some 1709231400000000000
   \<and> parseSlashDate ''29.2.2025'' UTC 0 = None
   \<and> day_in UTC 1709231400000000000 \<le> 31"
proof -
  have "parseSlashDate ''29.2.2024 18:30'' UTC 0 = Some 1709231400000000000" by code_simp
  moreover have "parseSlashDate ''29.2.2025'' UTC 0 = None" by code_simp
  ultimately show ?thesis using parseSlashDate_exact [of "''29.2.2024 18:30''" UTC 0] by blast
qed

section \<open>The three forms\<close>

lemma composed_text_bytes:
  "composed ps \<Longrightarrow> c \<in> set (composed_text ps) \<Longrightarrow> is_digit c \<or> unit_duration c \<noteq> None"
  by (fastforce simp: composed_def composed_text_def part_ok_def part_text_def)

lemma duration_bytes:
  assumes "ParseDuration s = Inr d" and "c \<in> set s"
  shows "is_digit c \<or> unit_duration c \<noteq> None"
  using duration_loop_sound [of 0 "[]" s d] assms composed_text_bytes
  by (auto simp: ParseDuration_def max_i64_def)

lemma duration_no_separator:
  assumes "ParseDuration s = Inr d"
  shows "CHR ''-'' \<notin> set s \<and> CHR ''/'' \<notin> set s \<and> CHR ''.'' \<notin> set s"
  using duration_bytes [OF assms, of "CHR ''-''"] duration_bytes [OF assms, of "CHR ''/''"]
    duration_bytes [OF assms, of "CHR ''.''"]
  by (auto simp: is_digit_def unit_duration_def)

lemma try_layouts_dash: "try_layouts absoluteLayouts s loc = Some t \<Longrightarrow> CHR ''-'' \<in> set s"
  by (auto simp: absoluteLayouts_def ymd_def split: option.splits dest: ParseInLocation_byte)

lemma str_contains_byte: "str_contains s [c] \<longleftrightarrow> c \<in> set s"
  by (induction s) (auto simp: str_contains_def)

lemma set_split_fields: "x \<in> set (split_fields cs) \<Longrightarrow> set x \<subseteq> set (concat (map snd cs))"
proof (induction cs rule: split_fields.induct)
  case (1 cs)
  let ?cs = "dropWhile space_chunk cs"
  show ?case
  proof (cases "?cs = []")
    case True
    then show ?thesis using "1.prems" by (simp add: split_fields.simps)
  next
    case False
    have sub: "set ?cs \<subseteq> set cs" by (meson set_dropWhileD subsetI)
    from "1.prems" False consider "x = concat (map snd (takeWhile (\<lambda>c. \<not> space_chunk c) ?cs))"
      | "x \<in> set (split_fields (dropWhile (\<lambda>c. \<not> space_chunk c) ?cs))"
      by (subst (asm) split_fields.simps) (auto simp: Let_def simp del: dropWhile_eq_Nil_conv)
    then show ?thesis
    proof cases
      case 1
      then show ?thesis using sub set_takeWhileD by fastforce
    next
      case 2
      then have "set x \<subseteq> set (concat (map snd (dropWhile (\<lambda>c. \<not> space_chunk c) ?cs)))"
        using "1.IH" False by blast
      moreover have "set (dropWhile (\<lambda>c. \<not> space_chunk c) ?cs) \<subseteq> set cs"
        using sub by (meson set_dropWhileD subset_iff)
      ultimately show ?thesis by auto
    qed
  qed
qed

lemma set_str_fields: "x \<in> set (str_fields s) \<Longrightarrow> set x \<subseteq> set s"
  using set_split_fields [of x "chunks s"] by (simp add: str_fields_def del: set_concat)

lemma split_clock_date: "split_clock s = Some (datePart, h, m) \<Longrightarrow> set datePart \<subseteq> set s"
  using set_str_fields [of datePart s]
  by (auto simp: split_clock_def split: list.splits option.splits prod.splits)

lemma parseSlashDate_separator:
  "parseSlashDate s loc now = Some t \<Longrightarrow> CHR ''/'' \<in> set s \<or> CHR ''.'' \<in> set s"
  by (auto simp: parseSlashDate_def date_separator_def str_contains_byte
      split: option.splits prod.splits if_splits dest: split_clock_date)

text \<open>
  The first two forms never compete: no input that is a duration is an absolute or
  day-first date in any location, so trying the duration first never hides a date.
\<close>

theorem duration_not_absolute:
  assumes "ParseDuration s = Inr d"
  shows "parseAbsolute s loc now = None"
proof -
  have "try_layouts absoluteLayouts s loc = None"
    using duration_no_separator [OF assms] try_layouts_dash by (metis not_Some_eq)
  moreover have "parseSlashDate s loc now = None"
    using duration_no_separator [OF assms] parseSlashDate_separator by (metis not_Some_eq)
  ultimately show ?thesis by (simp add: parseAbsolute_def)
qed

theorem duration_not_absolute_witness:
  "ParseDuration ''1M2d'' = Inr 2764800000000000 \<and> parseAbsolute ''1M2d'' UTC 0 = None
   \<and> parseAbsolute ''2026-08-22T15:00'' UTC 0 = Some 1787410800000000000"
proof -
  have d: "ParseDuration ''1M2d'' = Inr 2764800000000000" by code_simp
  moreover have "parseAbsolute ''2026-08-22T15:00'' UTC 0 = Some 1787410800000000000" by code_simp
  ultimately show ?thesis using duration_not_absolute [OF d, of UTC 0] by simp
qed

text \<open>
  An input is refused, with the trimmed input in the error, exactly when it is blank or
  none of the three parsers reads it; otherwise the instant is the one the first of duration,
  absolute date and natural language that reads it gives, a duration counting from now.
\<close>

lemma ParseWhen_first_form:
  "ParseWhen natural input now loc0 =
    (let s = trim_space input; loc = (case loc0 of None \<Rightarrow> UTC | Some l \<Rightarrow> l);
         readings = (if s = [] then [] else
           [case ParseDuration s of Inr d \<Rightarrow> Some (now + d) | Inl _ \<Rightarrow> None,
            parseAbsolute s loc now, natural s loc now])
     in case find (\<lambda>r. r \<noteq> None) readings of
          Some (Some t) \<Rightarrow> Inr t
        | _ \<Rightarrow> Inl (ErrNoMatch s))"
  by (auto simp: ParseWhen_def Let_def split: sum.splits option.splits)

end
