(* ===== verification/DiscordReminders.thy ===== *)
theory DiscordReminders
  imports DiscordContext ReminderServer ReminderParse
begin

text \<open>
  The reminder commands of the Discord client (\<open>pkg/discord/reminders.go\<close>): the caller's zone, the
  fire time parsed in it, the request, and the reply. The reminder service's client is a record of
  functions over the state \<open>'b\<close> behind it; a deadline of \<open>boundedReminderCall\<close> shows as an error
  of the call. The clock, the zone database, the reader of natural dates, Unicode's fold and
  \<open>strconv.Quote\<close> are the arguments of \<open>reminder_tools\<close>.
\<close>

section \<open>Clients\<close>

record user_msg =
  ur_Username :: string
  ur_Clearance :: int
  ur_Locale :: string
  ur_Timezone :: string
  ur_CreatedAt :: "instant option"

record reminder_msg =
  rm_Id :: string
  rm_Ref :: int
  rm_Datetime :: instant
  rm_Status :: int
  rm_Message :: string
  rm_RepeatCron :: string
  rm_Destination :: "reminder_destination option"
  rm_CreatedAt :: "instant option"
  rm_UpdatedAt :: "instant option"

record 'b reminder_client =
  rc_Create :: "outgoing \<Rightarrow> create_reminder_req \<Rightarrow> 'b \<Rightarrow> (string \<times> int) rpc \<times> 'b"
  rc_Update :: "outgoing \<Rightarrow> update_reminder_req \<Rightarrow> 'b \<Rightarrow> unit rpc \<times> 'b"
  rc_Delete :: "outgoing \<Rightarrow> string \<Rightarrow> 'b \<Rightarrow> unit rpc \<times> 'b"
  rc_List :: "outgoing \<Rightarrow> list_reminders_req \<Rightarrow> 'b \<Rightarrow> reminder_msg list rpc \<times> 'b"
  rc_Get :: "outgoing \<Rightarrow> string \<Rightarrow> 'b \<Rightarrow> reminder_msg rpc \<times> 'b"
  rc_GetUser :: "outgoing \<Rightarrow> 'b \<Rightarrow> user_msg rpc \<times> 'b"

record reminder_tools =
  rt_Now :: instant
  rt_LoadLocation :: "string \<Rightarrow> location option"
  rt_Natural :: "string \<Rightarrow> location \<Rightarrow> instant \<Rightarrow> instant option"
  rt_Fold :: "nat \<Rightarrow> nat"
  rt_Quote :: "string \<Rightarrow> string"

definition reminderListLimit :: int where "reminderListLimit = 25"
definition defaultTimezone :: string where "defaultTimezone = ''UTC''"

section \<open>Where and when\<close>

definition callerLocation ::
  "reminder_tools \<Rightarrow> 'b reminder_client \<Rightarrow> command_ctx \<Rightarrow> 'b \<Rightarrow> (location \<times> string) \<times> 'b" where
  "callerLocation x c ctx b =
    (case rc_GetUser c (cc_Outgoing ctx) b of
       (Inl err, b') \<Rightarrow> ((UTC, defaultTimezone), b')
     | (Inr user, b') \<Rightarrow>
         (if ur_Timezone user = [] then (UTC, defaultTimezone)
          else case rt_LoadLocation x (ur_Timezone user) of
              None \<Rightarrow> (UTC, defaultTimezone) | Some loc \<Rightarrow> (loc, ur_Timezone user), b'))"

definition currentDestination :: "command_ctx \<Rightarrow> reminder_destination rpc" where
  "currentDestination ctx = (case cc_Origin ctx of
     None \<Rightarrow> Inl (Internal, ''cannot determine where the command was sent'')
   | Some place \<Rightarrow>
       let place_meta = \<lparr>og_InstanceUID = co_GuildID place, og_DestinationUID = co_ChannelID place\<rparr>
       in Inr \<lparr>rd_PlatformEnum = Some discord_platform, rd_InstanceMeta = Some (InstanceMeta place_meta),
            rd_DestinationMeta = Some (DestinationMeta place_meta)\<rparr>)"

text \<open>What \<open>remind\<close> and \<open>modifyReminder\<close> work out before their call.\<close>

definition when_and_where ::
  "reminder_tools \<Rightarrow> location \<Rightarrow> command_ctx \<Rightarrow> invocation \<Rightarrow> (instant \<times> reminder_destination) rpc" where
  "when_and_where x loc ctx call =
    (let whenInput = Inv_String call ''when'' in
     and_then (case ParseWhen (rt_Natural x) whenInput (rt_Now x) (Some loc) of
         Inl err \<Rightarrow> Inl (InvalidArgument, ''could not understand the time '' @ rt_Quote x whenInput)
       | Inr fireAt \<Rightarrow> Inr fireAt) (\<lambda>fireAt.
     and_then (currentDestination ctx) (\<lambda>destination. Inr (fireAt, destination))))"

section \<open>Writing commands\<close>

definition repeat_given :: "reminder_tools \<Rightarrow> invocation \<Rightarrow> string option" where
  "repeat_given x call =
    (let repeat = trim_space (Inv_String call ''repeat'') in
     if repeat \<noteq> [] \<and> \<not> EqualFold (rt_Fold x) repeat clearRepeatSentinel then Some repeat else None)"

definition remind_command :: "reminder_tools \<Rightarrow> 'b reminder_client \<Rightarrow> 'b cmd_handler" where
  "remind_command x c ctx call b =
    (case callerLocation x c ctx b of ((loc, timezone), b1) \<Rightarrow>
      checked (when_and_where x loc ctx call) (\<lambda>(fireAt, destination).
        let repeat = repeat_given x call in
        answer_with (\<lambda>_. private_reply (''Reminder set for '' @ timestampWithRelative fireAt @ ''.''
            @ (case repeat of None \<Rightarrow> [] | Some r \<Rightarrow> '' Repeats: '' @ code_of r @ ''.'')))
          (rc_Create c (cc_Outgoing ctx) \<lparr>cq_Datetime = Some fireAt, cq_Timezone = Some timezone,
             cq_Message = Some (Inv_String call ''message''), cq_Destination = Some destination,
             cq_RepeatCron = repeat, cq_ParentID = None\<rparr> b1)) b1)"

text \<open>The patch of the repeat and the note on it: absent leaves it, the sentinel clears it.\<close>

definition repeat_patch :: "reminder_tools \<Rightarrow> invocation \<Rightarrow> string option \<times> string" where
  "repeat_patch x call =
    (let repeat = trim_space (Inv_String call ''repeat'') in
     if repeat = [] then (None, [])
     else if EqualFold (rt_Fold x) repeat clearRepeatSentinel then (Some [], '' Repeat removed.'')
     else (Some repeat, '' Repeats: '' @ code_of repeat @ ''.''))"

definition modifyReminder :: "reminder_tools \<Rightarrow> 'b reminder_client \<Rightarrow> 'b cmd_handler" where
  "modifyReminder x c ctx call b =
    (case callerLocation x c ctx b of ((loc, timezone), b1) \<Rightarrow>
      checked (when_and_where x loc ctx call) (\<lambda>(fireAt, destination).
        let (repeatCron, repeatNote) = repeat_patch x call in
        answer_with (\<lambda>_. private_reply (''Reminder updated for '' @ timestampWithRelative fireAt @ ''.'' @ repeatNote))
          (rc_Update c (cc_Outgoing ctx) \<lparr>uq_ID = Some (Inv_String call ''id''), uq_Datetime = Some fireAt,
             uq_Timezone = Some timezone, uq_Message = Some (Inv_String call ''message''),
             uq_Destination = Some destination, uq_RepeatCron = repeatCron\<rparr> b1)) b1)"

text \<open>The ids deleted and those that could not be.\<close>

fun delete_loop :: "'b reminder_client \<Rightarrow> outgoing \<Rightarrow> string list \<Rightarrow> nat \<times> nat \<Rightarrow> 'b \<Rightarrow> (nat \<times> nat) \<times> 'b" where
  "delete_loop c out [] counts b = (counts, b)"
| "delete_loop c out (i # ids) (deleted, failed) b =
    (case rc_Delete c out i b of
       (Inl err, b') \<Rightarrow> delete_loop c out ids (deleted, failed + 1) b'
     | (Inr u, b') \<Rightarrow> delete_loop c out ids (deleted + 1, failed) b')"

definition deleteReminders :: "'b reminder_client \<Rightarrow> 'b cmd_handler" where
  "deleteReminders c ctx call b =
    (let ids = str_fields (Inv_String call ''ids'') in
     if ids = [] then (Inl (InvalidArgument, ''at least one reminder id is required''), b)
     else case delete_loop c (cc_Outgoing ctx) ids (0, 0) b of ((deleted, failed), b') \<Rightarrow>
       (Inr (Some (private_reply (''Deleted '' @ FormatInt (int deleted) @ '' reminder(s).''
          @ (if failed > 0 then '' '' @ FormatInt (int failed) @ '' could not be deleted.'' else [])))), b'))"

section \<open>Reading commands\<close>

definition em_dash :: string where "em_dash = encode_rune 0x2014"

definition repeatOrNone :: "string \<Rightarrow> string" where
  "repeatOrNone repeatCron = (if repeatCron = [] then ''none'' else code_of repeatCron)"

definition destinationMention :: "reminder_destination option \<Rightarrow> string" where
  "destinationMention destination =
    (case destination of
       None \<Rightarrow> emptyDash []
     | Some d \<Rightarrow> (case rd_DestinationMeta d of
         None \<Rightarrow> emptyDash []
       | Some jsonb \<Rightarrow> (case map_of jsonb FieldDestinationUID of
           None \<Rightarrow> emptyDash []
         | Some v \<Rightarrow> if v = [] then emptyDash [] else ''<#'' @ v @ ''>'')))"

definition renderReminderStamp :: "instant option \<Rightarrow> string" where
  "renderReminderStamp stamp = (case stamp of None \<Rightarrow> emptyDash [] | Some t \<Rightarrow> timestampTag t ''R'')"

definition renderReminderTime :: "reminder_msg \<Rightarrow> string" where
  "renderReminderTime r = timestampWithRelative (rm_Datetime r)"

definition ReminderStatus_value :: "(string \<times> int) list" where
  "ReminderStatus_value = [(''REMINDER_STATUS_UNSPECIFIED'', 0), (''REMINDER_STATUS_PENDING'', 1),
     (''REMINDER_STATUS_SENT'', 2), (''REMINDER_STATUS_DELIVERED'', 3), (''REMINDER_STATUS_FAILED'', 4)]"

definition reminderStatusName :: "int \<Rightarrow> string" where
  "reminderStatusName s = enum_word ReminderStatus_value ''REMINDER_STATUS_'' s"

definition renderReminderLine :: "reminder_msg \<Rightarrow> string" where
  "renderReminderLine r =
     code_of (FormatInt (rm_Ref r)) @ '' '' @ em_dash @ '' '' @ renderReminderTime r @ '' '' @ em_dash @ '' ''
     @ emptyDash (truncateLineField (rm_Message r) maxLineFieldRunes)
     @ (if rm_RepeatCron r \<noteq> [] then '' (repeats)'' else [])"

definition formatReminderInfo :: "reminder_msg \<Rightarrow> string" where
  "formatReminderInfo r =
     ''**Reminder** '' @ code_of (FormatInt (rm_Ref r)) @ line_break
   @ ''Id: '' @ code_of (rm_Id r) @ line_break
   @ ''When: '' @ renderReminderTime r @ line_break
   @ ''Status: '' @ reminderStatusName (rm_Status r) @ line_break
   @ ''Message: '' @ emptyDash (rm_Message r) @ line_break
   @ ''Repeat: '' @ repeatOrNone (rm_RepeatCron r) @ line_break
   @ ''Destination: '' @ destinationMention (rm_Destination r) @ line_break
   @ ''Created: '' @ renderReminderStamp (rm_CreatedAt r) @ line_break
   @ ''Updated: '' @ renderReminderStamp (rm_UpdatedAt r)"

definition render_reminders :: "reminder_msg list \<Rightarrow> response" where
  "render_reminders rs =
    (if rs = [] then private_reply ''You have no reminders.''
     else (private_reply (''**Your reminders**'' @ line_break @ concat (map (\<lambda>r. renderReminderLine r @ line_break) rs)))
       \<lparr>resp_DirectWhenLong := True\<rparr>)"

definition listReminders :: "'b reminder_client \<Rightarrow> 'b cmd_handler" where
  "listReminders c ctx call b =
     answer_with render_reminders (rc_List c (cc_Outgoing ctx) \<lparr>lq_Message = None, lq_Status = None,
       lq_PeriodStart = None, lq_PeriodEnd = None, lq_Limit = reminderListLimit, lq_Offset = 0\<rparr> b)"

definition reminderInfo :: "'b reminder_client \<Rightarrow> 'b cmd_handler" where
  "reminderInfo c ctx call b =
     answer_with (\<lambda>r. private_reply (formatReminderInfo r)) (rc_Get c (cc_Outgoing ctx) (Inv_String call ''id'') b)"

section \<open>A reminder is stored as it is announced\<close>

lemma repeat_stored: "nullStr (get_str (repeat_given x call)) = repeat_given x call"
  by (auto simp: repeat_given_def get_str_def nullStr_def Let_def)

lemma get_str_Some: "get_str (Some v) = v"
  by (simp add: get_str_def)

lemma GetReminderDestination_places:
  "instances s' = instances s \<Longrightarrow> destinations s' = destinations s \<Longrightarrow>
     GetReminderDestination d s' = GetReminderDestination d s"
  by (simp add: GetReminderDestination_def cong: option.case_cong)

lemma GetOrCreate_reminders:
  "GetOrCreateDestinationByMeta ni nd dest s = (d, s') \<Longrightarrow> reminders s' = reminders s"
  by (auto simp: GetOrCreateDestinationByMeta_def upsert_instance_def upsert_destination_def Let_def
      split: prod.splits option.splits)

lemma create_reminder_rows:
  assumes "ReminderServer_CreateReminder e req s = (res, s')"
    and "cq_Datetime req = Some datetime" and "cq_Timezone req = Some timezone" and "cq_Destination req = Some dest"
  shows "isl res \<Longrightarrow> reminders s' = reminders s"
    and "\<not> isl res \<Longrightarrow> \<exists>uid row d s1. e_Caller e = Some uid
       \<and> GetOrCreateDestinationByMeta (e_NewInstance e) (e_NewDestination e) dest s = (d, s1)
       \<and> reminders s' = reminders s @ [row] \<and> instances s' = instances s1 \<and> destinations s' = destinations s1
       \<and> r_UserID row = Some uid \<and> r_Datetime row = datetime \<and> r_Timezone row = timezone \<and> r_DestinationID row = d
       \<and> r_Status row = STATUS_PENDING \<and> r_Message row = nullStr (get_str (cq_Message req))
       \<and> r_RepeatCron row = nullStr (get_str (cq_RepeatCron req))"
  using assms GetOrCreate_reminders
  by (auto simp: ReminderServer_CreateReminder_def checked_def with_destination_def callerUser_def complete_destination_def
      CreateReminder_def record_action_def CreateActionRecord_def Let_def
      split: option.splits sum.splits if_splits prod.splits)

text \<open>
  C12: \<open>/remind\<close> stores what it announces: when it reports success, exactly one reminder is new, it is
  the caller's, pending at the instant the phrase means in the zone the reply was worked out in, with
  that zone, the message and the repeat as given, for the place the command was sent from, and the
  reply shows that instant; when it reports a failure, no reminder is new.
\<close>

theorem remind_stores:
  assumes "rc_Create c (cc_Outgoing ctx) = ReminderServer_CreateReminder e"
    and "callerLocation x c ctx s = ((loc, timezone), s)" and "cc_Origin ctx = Some place"
    and "places_ok s" and "e_NewInstance e \<notin> i_ID ` set (instances s)" and "e_NewDestination e \<notin> d_ID ` set (destinations s)"
    and "remind_command x c ctx call s = (res, s')"
  shows "(isl res \<longrightarrow> reminders s' = reminders s)
    \<and> (\<forall>resp. res = Inr (Some resp) \<longrightarrow> (\<exists>fireAt uid row.
         ParseWhen (rt_Natural x) (Inv_String call ''when'') (rt_Now x) (Some loc) = Inr fireAt
       \<and> e_Caller e = Some uid \<and> reminders s' = reminders s @ [row] \<and> r_UserID row = Some uid
       \<and> r_Datetime row = fireAt \<and> r_Timezone row = timezone \<and> r_Status row = STATUS_PENDING
       \<and> r_Message row = nullStr (Inv_String call ''message'') \<and> r_RepeatCron row = repeat_given x call
       \<and> GetReminderDestination (r_DestinationID row) s' = Some \<lparr>rd_PlatformEnum = Some 1,
           rd_InstanceMeta = Some [(FieldInstanceUID, co_GuildID place)],
           rd_DestinationMeta = Some [(FieldDestinationUID, co_ChannelID place)]\<rparr>
       \<and> prefix (''Reminder set for '' @ timestampWithRelative fireAt) (resp_Content resp)))"
proof (cases "when_and_where x loc ctx call")
  case (Inl err)
  with assms(2,7) show ?thesis by (auto simp: remind_command_def)
next
  case (Inr fd)
  obtain fireAt dest where fd: "fd = (fireAt, dest)" by fastforce
  from Inr assms(3) fd have parsed: "ParseWhen (rt_Natural x) (Inv_String call ''when'') (rt_Now x) (Some loc) = Inr fireAt"
    and dest: "dest = \<lparr>rd_PlatformEnum = Some 1, rd_InstanceMeta = Some [(FieldInstanceUID, co_GuildID place)],
      rd_DestinationMeta = Some [(FieldDestinationUID, co_ChannelID place)]\<rparr>"
    by (auto simp: when_and_where_def currentDestination_def discord_platform_def InstanceMeta_def DestinationMeta_def
        Let_def split: sum.splits)
  define req where "req = \<lparr>cq_Datetime = Some fireAt, cq_Timezone = Some timezone, cq_Message = Some (Inv_String call ''message''),
     cq_Destination = Some dest, cq_RepeatCron = repeat_given x call, cq_ParentID = None\<rparr>"
  obtain r where run: "ReminderServer_CreateReminder e req s = (r, s')" and isl: "isl res = isl r"
    and shown: "\<And>resp. res = Inr (Some resp) \<Longrightarrow> prefix (''Reminder set for '' @ timestampWithRelative fireAt) (resp_Content resp)"
    using assms(1,2,7) Inr fd
    by (auto simp: remind_command_def answer_with_def req_def [symmetric] Let_def private_reply_def split: prod.splits sum.splits)
  note rows = create_reminder_rows [OF run, of fireAt timezone dest]
  show ?thesis
  proof (cases "isl r")
    case True
    with rows(1) isl show ?thesis by (auto simp: req_def)
  next
    case False
    with rows(2) obtain uid row d s1 where row: "e_Caller e = Some uid"
      "GetOrCreateDestinationByMeta (e_NewInstance e) (e_NewDestination e) dest s = (d, s1)"
      "reminders s' = reminders s @ [row]" "instances s' = instances s1" "destinations s' = destinations s1"
      "r_UserID row = Some uid" "r_Datetime row = fireAt" "r_Timezone row = timezone" "r_DestinationID row = d"
      "r_Status row = STATUS_PENDING" "r_Message row = nullStr (Inv_String call ''message'')"
      "r_RepeatCron row = repeat_given x call"
      by (auto simp: req_def get_str_Some repeat_stored)
    have "GetReminderDestination d s1 = Some dest"
      using destination_roundtrip [OF assms(4-6)] row(2) dest by blast
    then have "GetReminderDestination d s' = Some dest" using GetReminderDestination_places [OF row(4,5)] by simp
    with row parsed shown dest isl False show ?thesis by auto
  qed
qed

definition remind_tools :: reminder_tools where
  "remind_tools = \<lparr>rt_Now = 0, rt_LoadLocation = Map.empty, rt_Natural = (\<lambda>s l t. None), rt_Fold = id, rt_Quote = id\<rparr>"

definition remind_client :: "db reminder_client" where
  "remind_client = \<lparr>rc_Create = (\<lambda>q. ReminderServer_CreateReminder (demo_env ''u'')),
     rc_Update = (\<lambda>q. ReminderServer_UpdateReminder (demo_env ''u'')), rc_Delete = (\<lambda>q i. ReminderServer_DeleteReminder (demo_env ''u'') (Some i)),
     rc_List = (\<lambda>q r s. (Inr [], s)), rc_Get = (\<lambda>q i s. (Inl not_found, s)),
     rc_GetUser = (\<lambda>q s. (Inl (Unavailable, ''no server''), s))\<rparr>"

definition remind_ctx :: command_ctx where
  "remind_ctx = commandContext \<lparr>ik_ID = ''42'', ik_Username = ''a''\<rparr> ''g'' ''c''"

definition remind_call :: invocation where
  "remind_call = \<lparr>inv_Args = [''when'' \<mapsto> VString ''2h30m'', ''message'' \<mapsto> VString ''tea''], inv_specs = Map.empty\<rparr>"

theorem remind_stores_witness:
  "\<exists>row. reminders (snd (remind_command remind_tools remind_client remind_ctx remind_call empty_db)) = [row]
     \<and> r_Datetime row = 9000000000000 \<and> r_Message row = Some ''tea'' \<and> r_UserID row = Some ''u''"
proof -
  obtain res s' where run: "remind_command remind_tools remind_client remind_ctx remind_call empty_db = (res, s')" by fastforce
  have ok: "\<not> isl (fst (remind_command remind_tools remind_client remind_ctx remind_call empty_db))"
    "projr (fst (remind_command remind_tools remind_client remind_ctx remind_call empty_db)) \<noteq> None" by code_simp+
  then obtain resp where resp: "res = Inr (Some resp)" using run by (cases res) auto
  have create: "rc_Create remind_client (cc_Outgoing remind_ctx) = ReminderServer_CreateReminder (demo_env ''u'')"
    by (simp add: remind_client_def)
  have loc: "callerLocation remind_tools remind_client remind_ctx empty_db = ((UTC, ''UTC''), empty_db)"
    by (simp add: callerLocation_def remind_client_def defaultTimezone_def)
  have origin: "cc_Origin remind_ctx = Some \<lparr>co_GuildID = ''g'', co_ChannelID = ''c''\<rparr>" by code_simp
  have fresh: "places_ok empty_db" "e_NewInstance (demo_env ''u'') \<notin> i_ID ` set (instances empty_db)"
    "e_NewDestination (demo_env ''u'') \<notin> d_ID ` set (destinations empty_db)"
    by (simp_all add: empty_db_def places_ok_def)
  have parsed: "ParseWhen (rt_Natural remind_tools) (Inv_String remind_call ''when'') (rt_Now remind_tools) (Some UTC)
      = Inr 9000000000000" by code_simp
  have said: "Inv_String remind_call ''message'' = ''tea''" "e_Caller (demo_env ''u'') = Some ''u''" by code_simp+
  from remind_stores [OF create loc origin fresh run] resp parsed said run show ?thesis
    by (auto simp: empty_db_def nullStr_def)
qed

end
