(* ===== verification/TriggerServer.thy ===== *)
theory TriggerServer
  imports TriggerMedia
begin

text \<open>
  The handlers of \<open>pkg/grpc/server/trigger.go\<close> over the tables of \<open>TriggerStore\<close>, the candidate
  cache and the limiter of \<open>TriggerRuntime\<close> and the files of \<open>TriggerMedia\<close>. A handler is one
  step on the server's state: the engine is fixed, the environment is the call's.
\<close>

section \<open>Loading candidates\<close>

definition candidate_of :: "'p engine \<Rightarrow> active_trigger \<Rightarrow> 'p candidate option" where
  "candidate_of w a = (case Compile (en_WordRune w) (en_Compile w) (at_Phrase a) (at_Mode a) of
     Inl compileErr \<Rightarrow> None
   | Inr compiled \<Rightarrow> Some \<lparr>cand_ID = at_ID a, cand_Mode = at_Mode a, cand_Chance = at_Chance a,
       cand_Pattern = Some compiled\<rparr>)"

definition loadCandidates :: "'p engine \<Rightarrow> bool \<Rightarrow> trigger_db \<Rightarrow> int \<Rightarrow> unit + 'p candidate list" where
  "loadCandidates w down s instanceID =
    (if down then Inl ()
     else Inr (List.map_filter (candidate_of w) (ListActiveTriggersByInstance s instanceID)))"

section \<open>Resolving instances and ids\<close>

definition instance_given :: "trigger_instance option \<Rightarrow> bool" where
  "instance_given i = (case i of None \<Rightarrow> False
     | Some t \<Rightarrow> ti_PlatformEnum t \<noteq> None \<and> ti_InstanceMeta t \<noteq> None)"

definition instance_required :: "trigger_instance option \<Rightarrow> unit rpc" where
  "instance_required i = guard_that (instance_given i) (InvalidArgument, ''instance is required'')"

definition resolveInstance :: "trigger_env \<Rightarrow> trigger_db \<Rightarrow> trigger_instance \<Rightarrow> int rpc" where
  "resolveInstance e s t = (case (ti_PlatformEnum t, ti_InstanceMeta t) of
     (Some platform, Some imeta) \<Rightarrow>
       if te_Down e StmtInstance then Inl (internal ''failed to resolve instance'')
       else (case GetInstanceByMeta platform imeta (places s) of
           None \<Rightarrow> Inl (NotFound, ''instance not found'')
         | Some row \<Rightarrow> Inr (i_ID row))
   | _ \<Rightarrow> Inl (InvalidArgument, ''instance is required''))"

definition trigger_not_found :: rpc_error where
  "trigger_not_found = (NotFound, ''trigger not found'')"

definition resolveTriggerID :: "trigger_env \<Rightarrow> trigger_db \<Rightarrow> string \<Rightarrow> string rpc" where
  "resolveTriggerID e s raw = (case ParseInt raw of
     None \<Rightarrow> Inr raw
   | Some ref \<Rightarrow>
       if ref \<le> 0 then Inr raw
       else if te_Down e StmtByRef then Inl (internal ''failed to resolve trigger'')
       else (case GetTriggerByRef s ref of
           None \<Rightarrow> Inl trigger_not_found
         | Some row \<Rightarrow> Inr (t_ID row)))"

definition callerScopedInstance ::
  "trigger_env \<Rightarrow> trigger_db \<Rightarrow> trigger_instance option \<Rightarrow> int rpc" where
  "callerScopedInstance e s requested =
    (case callerOriginInstanceID e s of
       None \<Rightarrow> Inl (FailedPrecondition, ''this action must be used in a server or room'')
     | Some originID \<Rightarrow> (case requested of
         None \<Rightarrow> Inr originID
       | Some t \<Rightarrow> and_then (resolveInstance e s t) (\<lambda>requestedID.
           if requestedID \<noteq> originID then Inl (NotFound, ''instance not found'') else Inr originID)))"

fun scope_loop ::
  "trigger_env \<Rightarrow> trigger_db \<Rightarrow> trigger_instance list \<Rightarrow> int list \<Rightarrow> int list rpc" where
  "scope_loop e s [] ids = Inr ids"
| "scope_loop e s (t # ts) ids =
     and_then (callerScopedInstance e s (Some t)) (\<lambda>instanceID.
       scope_loop e s ts (if instanceID \<in> set ids then ids else ids @ [instanceID]))"

definition resolveScopeInstances ::
  "trigger_env \<Rightarrow> trigger_db \<Rightarrow> trigger_instance list \<Rightarrow> int list rpc" where
  "resolveScopeInstances e s requested =
    (if requested = [] then and_then (callerScopedInstance e s None) (\<lambda>instanceID. Inr [instanceID])
     else scope_loop e s requested [])"

definition regexClearanceFloor :: int where
  "regexClearanceFloor = CLEARANCE_MODERATOR"

definition invalidPatternError :: "compile_error \<Rightarrow> rpc_error" where
  "invalidPatternError err = (case err of
     ErrEmptyPhrase \<Rightarrow> (InvalidArgument, ''phrase must not be blank'')
   | ErrPatternTooLong \<Rightarrow> (InvalidArgument, ''phrase exceeds the maximum length of ''
        @ FormatInt (int MaxPatternLength) @ '' characters'')
   | ErrRegexp \<Rightarrow> (InvalidArgument, ''phrase is not a valid pattern for the selected mode''))"

text \<open>The checks a create and an update share.\<close>

definition regex_allowed :: "user_row \<Rightarrow> trigger_mode \<Rightarrow> unit rpc" where
  "regex_allowed caller mode =
     guard_that (\<not> (mode = MODE_REGEX \<and> us_Clearance caller < regexClearanceFloor))
       (PermissionDenied, ''regex triggers require '' @ enum_String Clearance_value regexClearanceFloor
          @ '' clearance'')"

definition pattern_compiles :: "'p engine \<Rightarrow> string \<Rightarrow> trigger_mode \<Rightarrow> unit rpc" where
  "pattern_compiles w phrase mode =
    (case Compile (en_WordRune w) (en_Compile w) phrase mode of
       Inl err \<Rightarrow> Inl (invalidPatternError err)
     | Inr compiled \<Rightarrow> Inr ())"

definition chance_in_range :: "int \<Rightarrow> unit rpc" where
  "chance_in_range chance = guard_that (\<not> (chance < 0 \<or> chance > MaxChance))
     (InvalidArgument, ''chance must be between 0 and '' @ FormatInt MaxChance)"

section \<open>Responses\<close>

definition get_opt :: "string option \<Rightarrow> string" where
  "get_opt x = (case x of None \<Rightarrow> [] | Some s \<Rightarrow> s)"

record try_trigger_resp =
  rs_Id :: "string option"
  rs_Reply :: "string option"
  rs_File :: "trigger_file option"

definition no_fire :: try_trigger_resp where
  "no_fire = \<lparr>rs_Id = None, rs_Reply = None, rs_File = None\<rparr>"

definition buildTryTriggerResp :: "trigger_env \<Rightarrow> trigger_db \<Rightarrow> string \<Rightarrow> try_trigger_resp rpc" where
  "buildTryTriggerResp e s triggerID =
    (if te_Down e StmtGet then Inl (internal ''failed to load trigger'')
     else case GetTrigger s triggerID of
       None \<Rightarrow> Inr no_fire
     | Some row \<Rightarrow>
         if get_opt (t_Reply row) \<noteq> [] then
           Inr \<lparr>rs_Id = Some (t_ID row), rs_Reply = t_Reply row, rs_File = None\<rparr>
         else if get_opt (t_FileID row) \<noteq> [] then
           and_then (buildTriggerFile e s (get_opt (t_FileID row))) (\<lambda>file.
             Inr \<lparr>rs_Id = Some (t_ID row), rs_Reply = None, rs_File = Some file\<rparr>)
         else Inr no_fire)"

record pb_trigger =
  pt_Id :: string
  pt_Phrase :: string
  pt_Reply :: "string option"
  pt_UserId :: "string option"
  pt_Instances :: "trigger_instance list"
  pt_Chance :: int
  pt_CreatedAt :: instant
  pt_Mode :: trigger_mode
  pt_File :: "trigger_file option"
  pt_Ref :: int

definition trigger_ToProto ::
  "trigger_row \<Rightarrow> trigger_file option \<Rightarrow> trigger_instance list \<Rightarrow> pb_trigger" where
  "trigger_ToProto r file insts = \<lparr>pt_Id = t_ID r, pt_Phrase = t_Phrase r, pt_Reply = t_Reply r,
     pt_UserId = t_UserID r, pt_Instances = insts, pt_Chance = t_Chance r,
     pt_CreatedAt = t_CreatedAt r, pt_Mode = t_Mode r, pt_File = file, pt_Ref = t_Ref r\<rparr>"

definition ACTION_TRIGGER_OCCURRED :: int where "ACTION_TRIGGER_OCCURRED = 1"
definition ACTION_TRIGGER_CALLED :: int where "ACTION_TRIGGER_CALLED = 2"

definition record_fire ::
  "trigger_env \<Rightarrow> int \<Rightarrow> string \<Rightarrow> string \<Rightarrow> 'p trigger_state \<Rightarrow> 'p trigger_state" where
  "record_fire e actionType triggerID actorID st =
    (if te_Down e StmtRecord then st
     else st\<lparr>st_DB := RecordTriggerFire actionType triggerID actorID (te_Now e) (st_DB st)\<rparr>)"

text \<open>The response, recorded as a fire unless loading it failed.\<close>

definition respond_and_record ::
  "trigger_env \<Rightarrow> int \<Rightarrow> string \<Rightarrow> string \<Rightarrow> 'p trigger_state \<Rightarrow> try_trigger_resp rpc \<times> 'p trigger_state" where
  "respond_and_record e actionType triggerID actorID st =
    checked (buildTryTriggerResp e (st_DB st) triggerID)
      (\<lambda>resp. (Inr resp, record_fire e actionType triggerID actorID st)) st"

section \<open>Firing\<close>

record try_trigger_req =
  tq_Instance :: "trigger_instance option"
  tq_Phrase :: string
  tq_Forced :: bool

text \<open>Whether the selected trigger fires: the action to record, if so; a forced fire asks the limiter.\<close>

definition decide_fire ::
  "trigger_env \<Rightarrow> bool \<Rightarrow> string \<Rightarrow> 'p candidate \<Rightarrow> 'p trigger_state \<Rightarrow> int option \<times> 'p trigger_state" where
  "decide_fire e forced callerID selected st =
    (if forced then
       (case Allow (te_Now e) callerID (st_Limiter st) of (allowed, l) \<Rightarrow>
          (if allowed then Some ACTION_TRIGGER_CALLED else None, st\<lparr>st_Limiter := l\<rparr>))
     else (if Fires selected (te_ChanceRoll e) then Some ACTION_TRIGGER_OCCURRED else None, st))"

definition try_candidates ::
  "'p engine \<Rightarrow> trigger_env \<Rightarrow> try_trigger_req \<Rightarrow> string \<Rightarrow> 'p candidate list \<Rightarrow> 'p trigger_state
     \<Rightarrow> try_trigger_resp rpc \<times> 'p trigger_state" where
  "try_candidates w e req callerID candidates st =
    (case Select (en_Match w) (tq_Phrase req) candidates (te_PickRoll e) of
       None \<Rightarrow> (Inr no_fire, st)
     | Some selected \<Rightarrow> (case decide_fire e (tq_Forced req) callerID selected st of
         (None, st') \<Rightarrow> (Inr no_fire, st')
       | (Some actionType, st') \<Rightarrow> respond_and_record e actionType (cand_ID selected) callerID st'))"

definition check_try :: "trigger_env \<Rightarrow> trigger_db \<Rightarrow> try_trigger_req \<Rightarrow> (user_row \<times> int) rpc" where
  "check_try e s req =
    and_then (resolved_caller e) (\<lambda>caller.
    and_then (instance_required (tq_Instance req)) (\<lambda>_.
    and_then (guard_that (tq_Phrase req \<noteq> []) (InvalidArgument, ''phrase is required'')) (\<lambda>_.
    and_then (callerScopedInstance e s (tq_Instance req)) (\<lambda>instanceID.
      Inr (caller, instanceID)))))"

definition TriggerServer_TryTrigger ::
  "'p engine \<Rightarrow> trigger_env \<Rightarrow> try_trigger_req \<Rightarrow> 'p trigger_state \<Rightarrow> try_trigger_resp rpc \<times> 'p trigger_state" where
  "TriggerServer_TryTrigger w e req st =
    checked (check_try e (st_DB st) req)
      (\<lambda>(caller, instanceID).
        case Candidates (loadCandidates w (te_Down e StmtActive) (st_DB st)) (st_Cache st) instanceID of
          (Inl err, c) \<Rightarrow> (Inl (internal ''failed to evaluate triggers''), st\<lparr>st_Cache := c\<rparr>)
        | (Inr candidates, c) \<Rightarrow>
            try_candidates w e req (us_ID caller) candidates (st\<lparr>st_Cache := c\<rparr>)) st"

definition scope_of :: "trigger_env \<Rightarrow> string \<Rightarrow> trigger_db \<Rightarrow> string \<Rightarrow> int list rpc" where
  "scope_of e msg s tid =
    (if te_Down e StmtScope then Inl (internal msg) else Inr (ListTriggerInstanceIDs s tid))"

definition load_trigger :: "trigger_env \<Rightarrow> string \<Rightarrow> trigger_db \<Rightarrow> string \<Rightarrow> trigger_row rpc" where
  "load_trigger e msg s tid =
    (if te_Down e StmtGet then Inl (internal msg)
     else case GetTrigger s tid of None \<Rightarrow> Inl trigger_not_found | Some row \<Rightarrow> Inr row)"

definition trigger_id_required :: "string option \<Rightarrow> string rpc" where
  "trigger_id_required i = (case i of None \<Rightarrow> Inl (InvalidArgument, ''id is required'') | Some x \<Rightarrow> Inr x)"

record exec_trigger_req =
  xq_Id :: "string option"
  xq_Instance :: "trigger_instance option"

definition check_exec :: "trigger_env \<Rightarrow> trigger_db \<Rightarrow> exec_trigger_req \<Rightarrow> (user_row \<times> trigger_row) rpc" where
  "check_exec e s req =
    and_then (resolved_caller e) (\<lambda>caller.
    and_then (trigger_id_required (xq_Id req)) (\<lambda>raw.
    and_then (instance_required (xq_Instance req)) (\<lambda>_.
    and_then (callerScopedInstance e s (xq_Instance req)) (\<lambda>instanceID.
    and_then (resolveTriggerID e s raw) (\<lambda>tid.
    and_then (load_trigger e ''failed to load trigger'' s tid) (\<lambda>row.
    and_then (scope_of e ''failed to load trigger'' s (t_ID row)) (\<lambda>scopedIDs.
      if instanceID \<notin> set scopedIDs then Inl trigger_not_found else Inr (caller, row))))))))"

definition TriggerServer_ExecTrigger ::
  "trigger_env \<Rightarrow> exec_trigger_req \<Rightarrow> 'p trigger_state \<Rightarrow> try_trigger_resp rpc \<times> 'p trigger_state" where
  "TriggerServer_ExecTrigger e req st =
    checked (check_exec e (st_DB st) req)
      (\<lambda>(caller, row). respond_and_record e ACTION_TRIGGER_CALLED (t_ID row) (us_ID caller) st) st"

section \<open>Reading\<close>

definition TriggerServer_GetTrigger ::
  "trigger_env \<Rightarrow> 'p trigger_state \<Rightarrow> string option \<Rightarrow> pb_trigger rpc" where
  "TriggerServer_GetTrigger e st reqID =
    and_then (resolved_caller e) (\<lambda>caller.
    and_then (trigger_id_required reqID) (\<lambda>raw.
    and_then (resolveTriggerID e (st_DB st) raw) (\<lambda>tid.
    and_then (load_trigger e ''failed to get trigger'' (st_DB st) tid) (\<lambda>row.
    and_then (scope_of e ''failed to get trigger'' (st_DB st) (t_ID row)) (\<lambda>scopedIDs.
    let visible = (t_UserID row = Some (us_ID caller)
          \<or> (case callerOriginInstanceID e (st_DB st) of None \<Rightarrow> False | Some i \<Rightarrow> i \<in> set scopedIDs)) in
    and_then (guard_that visible trigger_not_found) (\<lambda>_.
    and_then (if get_opt (t_FileID row) = [] then Inr None
       else and_then (buildTriggerFile e (st_DB st) (get_opt (t_FileID row))) (\<lambda>f. Inr (Some f))) (\<lambda>file.
    if te_Down e StmtInstances then Inl (internal ''failed to get trigger'')
    else Inr (trigger_ToProto row file (GetTriggerInstances (st_DB st) (t_ID row))))))))))"

record list_triggers_req =
  tl_Limit :: int
  tl_Offset :: int
  tl_Phrase :: string
  tl_Reply :: string
  tl_PeriodStart :: "instant option"
  tl_PeriodEnd :: "instant option"
  tl_Mode :: "int option"
  tl_Mine :: bool

definition list_filter :: "trigger_env \<Rightarrow> trigger_db \<Rightarrow> string \<Rightarrow> list_triggers_req \<Rightarrow> list_triggers_filter" where
  "list_filter e s callerID req =
    (let origin = callerOriginInstanceID e s in
     \<lparr>tf_UserID = (if tl_Mine req \<or> origin = None then callerID else []),
      tf_InstanceID = (case origin of None \<Rightarrow> 0 | Some i \<Rightarrow> i),
      tf_PhraseSearch = tl_Phrase req, tf_ReplySearch = tl_Reply req, tf_Mode = tl_Mode req,
      tf_PeriodStart = tl_PeriodStart req, tf_PeriodEnd = tl_PeriodEnd req,
      tf_Limit = tl_Limit req, tf_Offset = tl_Offset req\<rparr>)"

definition row_files :: "trigger_row list \<Rightarrow> string list" where
  "row_files rows = filter (\<lambda>f. f \<noteq> []) (map (\<lambda>r. get_opt (t_FileID r)) rows)"

text \<open>The response rows, or \<open>None\<close> when a file row a trigger references is missing.\<close>

fun list_protos ::
  "(string \<rightharpoonup> file_row) \<Rightarrow> (string \<rightharpoonup> trigger_instance list) \<Rightarrow> trigger_row list \<Rightarrow> pb_trigger list option" where
  "list_protos filesByID instancesByTrigger [] = Some []"
| "list_protos filesByID instancesByTrigger (row # rows) =
     (let insts = (case instancesByTrigger (t_ID row) of None \<Rightarrow> [] | Some is \<Rightarrow> is);
          rest = list_protos filesByID instancesByTrigger rows
      in if get_opt (t_FileID row) = [] then map_option (Cons (trigger_ToProto row None insts)) rest
         else (case filesByID (get_opt (t_FileID row)) of
             None \<Rightarrow> None
           | Some f \<Rightarrow> map_option (Cons (trigger_ToProto row (Some (file_ToProto f (displayFilename f))) insts)) rest))"

definition TriggerServer_ListTriggers ::
  "'p engine \<Rightarrow> trigger_env \<Rightarrow> 'p trigger_state \<Rightarrow> list_triggers_req \<Rightarrow> pb_trigger list rpc" where
  "TriggerServer_ListTriggers w e st req =
    (let failed = internal ''failed to list triggers''; s = st_DB st in
     and_then (resolved_caller e) (\<lambda>caller.
     and_then (guard_that (\<not> te_Down e StmtList) failed) (\<lambda>_.
     let rows = ListTriggers (en_ILike w) s (list_filter e s (us_ID caller) req) in
     and_then (guard_that (rows = [] \<or> \<not> te_Down e StmtInstances) failed) (\<lambda>_.
     and_then (guard_that (row_files rows = [] \<or> \<not> te_Down e StmtFile) failed) (\<lambda>_.
       case list_protos (GetFilesByIDs s (row_files rows)) (GetTriggerInstancesBatch s (map t_ID rows)) rows of
         None \<Rightarrow> Inl failed
       | Some out \<Rightarrow> Inr out)))))"

record trigger_stats_req =
  sq_Instance :: "trigger_instance option"
  sq_ActionType :: "int option"
  sq_Limit :: int
  sq_PeriodStart :: "instant option"
  sq_PeriodEnd :: "instant option"

definition TriggerServer_GetTriggerStats ::
  "trigger_env \<Rightarrow> 'p trigger_state \<Rightarrow> trigger_stats_req \<Rightarrow> trigger_stat_row list rpc" where
  "TriggerServer_GetTriggerStats e st req =
    and_then (resolved_caller e) (\<lambda>caller.
    and_then (instance_required (sq_Instance req)) (\<lambda>_.
    and_then (callerScopedInstance e (st_DB st) (sq_Instance req)) (\<lambda>instanceID.
    let actionType = (case sq_ActionType req of None \<Rightarrow> ACTION_TRIGGER_OCCURRED
          | Some a \<Rightarrow> if a = 0 then ACTION_TRIGGER_OCCURRED else a) in
    and_then (guard_that (actionType = ACTION_TRIGGER_OCCURRED \<or> actionType = ACTION_TRIGGER_CALLED)
       (InvalidArgument, ''action_type must be TRIGGER_OCCURRED or TRIGGER_CALLED'')) (\<lambda>_.
    if te_Down e StmtStats then Inl (internal ''failed to load trigger stats'')
    else Inr (ListTriggerStats (st_DB st) \<lparr>sf_InstanceID = instanceID, sf_ActionType = actionType,
        sf_PeriodStart = sq_PeriodStart req, sf_PeriodEnd = sq_PeriodEnd req, sf_Limit = sq_Limit req\<rparr>)))))"

section \<open>Writing\<close>

definition invalidate_each :: "int list \<Rightarrow> 'p trigger_state \<Rightarrow> 'p trigger_state" where
  "invalidate_each ids st = st\<lparr>st_Cache := foldl Invalidate (st_Cache st) ids\<rparr>"

record create_trigger_req =
  ct_Phrase :: "string option"
  ct_Reply :: string
  ct_Instances :: "trigger_instance list"
  ct_Chance :: int
  ct_Mode :: "int option"
  ct_FileUrl :: string

definition mode_of_request :: "int option \<Rightarrow> trigger_mode" where
  "mode_of_request m = (case m of None \<Rightarrow> MODE_ANY
     | Some x \<Rightarrow> if x = MODE_UNSPECIFIED then MODE_ANY else x)"

definition check_create :: "'p engine \<Rightarrow> trigger_env \<Rightarrow> create_trigger_req \<Rightarrow> user_row rpc" where
  "check_create w e req =
    and_then (resolved_caller e) (\<lambda>caller.
    and_then (guard_that (get_opt (ct_Phrase req) \<noteq> []) (InvalidArgument, ''phrase is required'')) (\<lambda>_.
    and_then (guard_that (\<not> (ct_Reply req = [] \<and> ct_FileUrl req = []))
       (InvalidArgument, ''reply or file_url is required'')) (\<lambda>_.
    and_then (regex_allowed caller (mode_of_request (ct_Mode req))) (\<lambda>_.
    and_then (pattern_compiles w (get_opt (ct_Phrase req)) (mode_of_request (ct_Mode req))) (\<lambda>_.
    and_then (chance_in_range (ct_Chance req)) (\<lambda>_. Inr caller))))))"

definition fetch_unless_empty ::
  "trigger_env \<Rightarrow> string \<Rightarrow> 'p trigger_state \<Rightarrow> string rpc \<times> 'p trigger_state" where
  "fetch_unless_empty e url st = (if url = [] then (Inr [], st) else fetchAndStoreFile e url st)"

definition create_in_store ::
  "'p engine \<Rightarrow> trigger_env \<Rightarrow> create_trigger_req \<Rightarrow> string \<Rightarrow> string \<Rightarrow> int list \<Rightarrow> 'p trigger_state
     \<Rightarrow> (string \<times> int) rpc \<times> 'p trigger_state" where
  "create_in_store w e req callerID fileID instanceIDs st =
    (if te_Down e StmtCreate then (Inl (internal ''failed to create trigger''), st)
     else case CreateTrigger (en_Lower w) (te_NewTriggerID e) (te_Now e)
         \<lparr>tp_Phrase = get_opt (ct_Phrase req), tp_Reply = ct_Reply req, tp_FileID = fileID,
          tp_UserID = callerID, tp_Chance = ct_Chance req, tp_Mode = mode_of_request (ct_Mode req),
          tp_InstanceIDs = instanceIDs\<rparr> (st_DB st) of
       (Inl err, d) \<Rightarrow> (Inl (if err = ErrExactPhraseTaken
           then (AlreadyExists, ''an exact trigger with this phrase already exists'')
           else internal ''failed to create trigger''), st\<lparr>st_DB := d\<rparr>)
     | (Inr res, d) \<Rightarrow> (Inr res, invalidate_each instanceIDs (st\<lparr>st_DB := d\<rparr>)))"

definition TriggerServer_CreateTrigger ::
  "'p engine \<Rightarrow> trigger_env \<Rightarrow> create_trigger_req \<Rightarrow> 'p trigger_state
     \<Rightarrow> (string \<times> int) rpc \<times> 'p trigger_state" where
  "TriggerServer_CreateTrigger w e req st =
    checked (check_create w e req) (\<lambda>caller.
      case fetch_unless_empty e (ct_FileUrl req) st of
        (Inl err, st1) \<Rightarrow> (Inl err, st1)
      | (Inr fileID, st1) \<Rightarrow>
          checked (resolveScopeInstances e (st_DB st1) (ct_Instances req)) (\<lambda>instanceIDs.
            create_in_store w e req (us_ID caller) fileID instanceIDs st1) st1) st"

record update_trigger_req =
  ut_Id :: "string option"
  ut_Phrase :: "string option"
  ut_Reply :: "string option"
  ut_Chance :: "int option"
  ut_Mode :: "int option"
  ut_FileUrl :: "string option"

text \<open>The trigger a caller may update: its owner's.\<close>

definition owned_trigger :: "trigger_env \<Rightarrow> trigger_db \<Rightarrow> string option \<Rightarrow> (user_row \<times> string \<times> trigger_row) rpc" where
  "owned_trigger e s reqID =
    and_then (resolved_caller e) (\<lambda>caller.
    and_then (trigger_id_required reqID) (\<lambda>raw.
    and_then (resolveTriggerID e s raw) (\<lambda>tid.
    and_then (load_trigger e ''failed to update trigger'' s tid) (\<lambda>current.
      if t_UserID current \<noteq> Some (us_ID caller) then Inl trigger_not_found
      else Inr (caller, tid, current)))))"

text \<open>The fields to write, once the combination that will be stored has been checked.\<close>

definition check_update ::
  "'p engine \<Rightarrow> user_row \<Rightarrow> string \<Rightarrow> trigger_row \<Rightarrow> update_trigger_req \<Rightarrow> trigger_update rpc" where
  "check_update w caller tid current req =
    (let effectivePhrase = (case ut_Phrase req of None \<Rightarrow> t_Phrase current | Some x \<Rightarrow> x);
         effectiveMode = (case ut_Mode req of None \<Rightarrow> t_Mode current
            | Some m \<Rightarrow> if m = MODE_UNSPECIFIED then MODE_ANY else m);
         update = \<lparr>tu_ID = tid, tu_UserID = us_ID caller,
            tu_UpdatePhrase = (ut_Phrase req \<noteq> None), tu_Phrase = get_opt (ut_Phrase req),
            tu_UpdateReply = (ut_Reply req \<noteq> None), tu_Reply = get_opt (ut_Reply req),
            tu_UpdateFile = False, tu_FileID = [],
            tu_UpdateChance = (ut_Chance req \<noteq> None),
            tu_Chance = (case ut_Chance req of None \<Rightarrow> 0 | Some c \<Rightarrow> c),
            tu_UpdateMode = (ut_Mode req \<noteq> None),
            tu_Mode = (if ut_Mode req = None then 0 else effectiveMode)\<rparr>
     in and_then (case ut_Chance req of None \<Rightarrow> Inr () | Some c \<Rightarrow> chance_in_range c) (\<lambda>_.
        if ut_Phrase req = None \<and> ut_Mode req = None then Inr update
        else and_then (regex_allowed caller effectiveMode) (\<lambda>_.
             and_then (pattern_compiles w effectivePhrase effectiveMode) (\<lambda>_. Inr update))))"

definition with_file :: "string \<Rightarrow> trigger_update \<Rightarrow> trigger_update" where
  "with_file fileID u = u\<lparr>tu_UpdateFile := True, tu_FileID := fileID\<rparr>"

definition update_in_store ::
  "'p engine \<Rightarrow> trigger_env \<Rightarrow> trigger_update \<Rightarrow> 'p trigger_state \<Rightarrow> unit rpc \<times> 'p trigger_state" where
  "update_in_store w e u st =
    checked (scope_of e ''failed to update trigger'' (st_DB st) (tu_ID u)) (\<lambda>scopedIDs.
      if te_Down e StmtUpdate then (Inl (internal ''failed to update trigger''), st)
      else (case UpdateTriggerByUser (en_Lower w) u (st_DB st) of
          (Inl err, d) \<Rightarrow> (Inl (case err of ErrTriggerNotFound \<Rightarrow> trigger_not_found
             | ErrExactPhraseTaken \<Rightarrow> (AlreadyExists, ''an exact trigger with this phrase already exists'')
             | _ \<Rightarrow> internal ''failed to update trigger''), st\<lparr>st_DB := d\<rparr>)
        | (Inr x, d) \<Rightarrow> (Inr (), invalidate_each scopedIDs (st\<lparr>st_DB := d\<rparr>)))) st"

definition update_checks ::
  "'p engine \<Rightarrow> trigger_env \<Rightarrow> trigger_db \<Rightarrow> update_trigger_req \<Rightarrow> trigger_update rpc" where
  "update_checks w e s req =
    and_then (owned_trigger e s (ut_Id req)) (\<lambda>(caller, tid, current).
      check_update w caller tid current req)"

definition TriggerServer_UpdateTrigger ::
  "'p engine \<Rightarrow> trigger_env \<Rightarrow> update_trigger_req \<Rightarrow> 'p trigger_state \<Rightarrow> unit rpc \<times> 'p trigger_state" where
  "TriggerServer_UpdateTrigger w e req st =
    checked (update_checks w e (st_DB st) req) (\<lambda>update.
      let url = get_opt (ut_FileUrl req) in
      if url = [] then update_in_store w e update st
      else (case fetchAndStoreFile e url st of
          (Inl err, st1) \<Rightarrow> (Inl err, st1)
        | (Inr fileID, st1) \<Rightarrow> update_in_store w e (with_file fileID update) st1)) st"

definition check_delete :: "trigger_env \<Rightarrow> trigger_db \<Rightarrow> string option \<Rightarrow> (user_row \<times> string \<times> int list) rpc" where
  "check_delete e s reqID =
    and_then (resolved_caller e) (\<lambda>caller.
    and_then (trigger_id_required reqID) (\<lambda>raw.
    and_then (resolveTriggerID e s raw) (\<lambda>tid.
    and_then (scope_of e ''failed to delete trigger'' s tid) (\<lambda>scopedIDs.
      Inr (caller, tid, scopedIDs)))))"

definition TriggerServer_DeleteTrigger ::
  "trigger_env \<Rightarrow> string option \<Rightarrow> 'p trigger_state \<Rightarrow> unit rpc \<times> 'p trigger_state" where
  "TriggerServer_DeleteTrigger e reqID st =
    checked (check_delete e (st_DB st) reqID)
      (\<lambda>(caller, tid, scopedIDs).
        if te_Down e StmtDelete then (Inl (internal ''failed to delete trigger''), st)
        else (case SoftDeleteTriggerByUser tid (us_ID caller) (st_DB st) of
            (Inl err, d) \<Rightarrow> (Inl trigger_not_found, st\<lparr>st_DB := d\<rparr>)
          | (Inr x, d) \<Rightarrow> (Inr (), invalidate_each scopedIDs (st\<lparr>st_DB := d\<rparr>)))) st"

section \<open>One entry point\<close>

datatype trigger_call =
    TryCall try_trigger_req
  | ExecCall exec_trigger_req
  | GetTriggerCall "string option"
  | ListTriggersCall list_triggers_req
  | CreateTriggerCall create_trigger_req
  | UpdateTriggerCall update_trigger_req
  | DeleteTriggerCall "string option"
  | StatsCall trigger_stats_req

datatype trigger_resp =
    RespFire "try_trigger_resp rpc"
  | RespTrigger "pb_trigger rpc"
  | RespTriggers "pb_trigger list rpc"
  | RespNew "(string \<times> int) rpc"
  | RespUnit "unit rpc"
  | RespStats "trigger_stat_row list rpc"

fun handle_trigger ::
  "'p engine \<Rightarrow> trigger_env \<Rightarrow> trigger_call \<Rightarrow> 'p trigger_state \<Rightarrow> trigger_resp \<times> 'p trigger_state" where
  "handle_trigger w e (TryCall q) st = map_prod RespFire id (TriggerServer_TryTrigger w e q st)"
| "handle_trigger w e (ExecCall q) st = map_prod RespFire id (TriggerServer_ExecTrigger e q st)"
| "handle_trigger w e (GetTriggerCall i) st = (RespTrigger (TriggerServer_GetTrigger e st i), st)"
| "handle_trigger w e (ListTriggersCall q) st = (RespTriggers (TriggerServer_ListTriggers w e st q), st)"
| "handle_trigger w e (CreateTriggerCall q) st = map_prod RespNew id (TriggerServer_CreateTrigger w e q st)"
| "handle_trigger w e (UpdateTriggerCall q) st = map_prod RespUnit id (TriggerServer_UpdateTrigger w e q st)"
| "handle_trigger w e (DeleteTriggerCall i) st = map_prod RespUnit id (TriggerServer_DeleteTrigger e i st)"
| "handle_trigger w e (StatsCall q) st = (RespStats (TriggerServer_GetTriggerStats e st q), st)"

section \<open>What a write changes of the loaded candidates\<close>

lemma filter_map_if_same:
  assumes "\<And>r. Q r \<Longrightarrow> \<not> P r" and "\<And>r. P (g r) = P r"
  shows "filter P (map (\<lambda>r. if Q r then g r else r) rs) = filter P rs"
  using assms by (induction rs) auto

lemma ListActive_same:
  "triggers d = triggers d' \<Longrightarrow> trigger_instances d = trigger_instances d' \<Longrightarrow>
     ListActiveTriggersByInstance d = ListActiveTriggersByInstance d'"
  by (rule ext) (simp add: ListActiveTriggersByInstance_def)

lemma load_same:
  "triggers d = triggers d' \<Longrightarrow> trigger_instances d = trigger_instances d' \<Longrightarrow>
     loadCandidates w down d = loadCandidates w down d'"
  by (rule ext) (simp add: loadCandidates_def ListActive_same [of d d'])

lemma load_create:
  assumes "CreateTrigger lower newID now p d = (Inr res, d')" and "scopes_ok d"
    and "newID \<notin> t_ID ` set (triggers d)" and "i \<notin> set (tp_InstanceIDs p)"
  shows "loadCandidates w down d' i = loadCandidates w down d i"
proof -
  let ?row = "new_row newID now p (next_trigger_ref d)"
  from CreateTrigger_Inr(6) [OF assms(1)] have d': "triggers d' = triggers d @ [?row]"
    "trigger_instances d' = add_pairs newID (tp_InstanceIDs p) (trigger_instances d)" by simp_all
  have "newID \<notin> fst ` set (trigger_instances d)"
    using assms(2,3) by (auto simp: scopes_ok_def list_all_iff)
  then have new: "(newID, i) \<notin> set (trigger_instances d')"
    using assms(4) by (force simp: d' add_pairs_set)
  have old: "((t_ID r, i) \<in> set (trigger_instances d')) = ((t_ID r, i) \<in> set (trigger_instances d))"
    if "r \<in> set (triggers d)" for r
    using that assms(3) by (auto simp: d' add_pairs_set)
  have "filter (\<lambda>r. (t_ID r, i) \<in> set (trigger_instances d') \<and> \<not> t_Deleted r) (triggers d')
      = filter (\<lambda>r. (t_ID r, i) \<in> set (trigger_instances d) \<and> \<not> t_Deleted r) (triggers d)"
    using new by (simp add: d'(1) old cong: filter_cong)
  then show ?thesis by (simp add: loadCandidates_def ListActiveTriggersByInstance_def)
qed

lemma load_update_rows:
  assumes "triggers d' = map (\<lambda>r. if own_trigger tid userID r then g r else r) (triggers d)"
    and "trigger_instances d' = trigger_instances d" and "\<And>r. t_ID (g r) = t_ID r"
    and "i \<notin> set (ListTriggerInstanceIDs d tid)"
  shows "loadCandidates w down d' i = loadCandidates w down d i"
proof -
  have "(tid, i) \<notin> set (trigger_instances d)"
    using assms(4) by (force simp: ListTriggerInstanceIDs_def)
  then have no: "own_trigger tid userID r \<Longrightarrow> (t_ID r, i) \<notin> set (trigger_instances d)" for r
    by (auto simp: own_trigger_def)
  let ?P = "\<lambda>r. (t_ID r, i) \<in> set (trigger_instances d) \<and> \<not> t_Deleted r"
  have "filter ?P (map (\<lambda>r. if own_trigger tid userID r then g r else r) rs) = filter ?P rs" for rs
    using no assms(3) by (induction rs) auto
  then show ?thesis
    by (simp add: loadCandidates_def ListActiveTriggersByInstance_def assms(1,2))
qed

lemma load_update:
  assumes "UpdateTriggerByUser lower u d = (Inr x, d')"
    and "i \<notin> set (ListTriggerInstanceIDs d (tu_ID u))"
  shows "loadCandidates w down d' i = loadCandidates w down d i"
  using assms(1)
proof (rule UpdateTriggerByUser_Inr)
  assume d': "d' = d\<lparr>triggers := map (\<lambda>r. if own_trigger (tu_ID u) (tu_UserID u) r then patched u r else r)
       (triggers d)\<rparr>"
  show ?thesis
    by (rule load_update_rows [where g = "patched u" and userID = "tu_UserID u", OF _ _ _ assms(2)])
      (simp_all add: d')
qed

lemma load_delete:
  assumes "i \<notin> set (ListTriggerInstanceIDs d tid)"
  shows "loadCandidates w down (snd (SoftDeleteTriggerByUser tid userID d)) i = loadCandidates w down d i"
proof (cases "list_ex (own_trigger tid userID) (triggers d)")
  case True
  show ?thesis
    by (rule load_update_rows [where g = "\<lambda>r. r\<lparr>t_Deleted := True\<rparr>" and userID = userID, OF _ _ _ assms])
      (simp_all add: SoftDeleteTriggerByUser_def True)
qed (simp add: SoftDeleteTriggerByUser_def)

end
