(* ===== verification/TriggerCache.thy ===== *)
theory TriggerCache
  imports TriggerServer
begin

text \<open>
  The candidate cache against the tables it caches. Handlers are not atomic: a write commits,
  then each instance it touched is invalidated, and other calls run in between. \<open>cache_step\<close> is
  one statement or one locked cache operation; a handler is a sequence of such steps
  (\<open>handler_steps\<close>), so what holds in every interleaving of steps holds of concurrent handlers.
\<close>

section \<open>Steps\<close>

type_synonym 'p cache_config = "trigger_db \<times> 'p candidate list cache \<times> int list"

text \<open>A statement that touches neither the triggers nor their scopes.\<close>

definition unrelated :: "'p engine \<Rightarrow> trigger_db \<Rightarrow> trigger_db \<Rightarrow> bool" where
  "unrelated w d d' \<longleftrightarrow> triggers d' = triggers d \<and> trigger_instances d' = trigger_instances d
     \<and> (trigger_db_ok (en_Lower w) d \<longrightarrow> trigger_db_ok (en_Lower w) d')"

text \<open>The third component lists the invalidations that writers still owe.\<close>

inductive cache_step :: "'p engine \<Rightarrow> 'p cache_config \<Rightarrow> 'p cache_config \<Rightarrow> bool" for w where
  fetch: "cache_step w (d, c, q) (d, snd (Candidates (loadCandidates w down d) c i), q)"
| create: "newID \<notin> t_ID ` set (triggers d) \<Longrightarrow>
     CreateTrigger (en_Lower w) newID now p d = (Inr res, d') \<Longrightarrow>
     cache_step w (d, c, q) (d', c, q @ tp_InstanceIDs p)"
| update: "UpdateTriggerByUser (en_Lower w) u d = (Inr x, d') \<Longrightarrow>
     cache_step w (d, c, q) (d', c, q @ ListTriggerInstanceIDs d (tu_ID u))"
| delete: "SoftDeleteTriggerByUser tid userID d = (Inr x, d') \<Longrightarrow>
     cache_step w (d, c, q) (d', c, q @ ListTriggerInstanceIDs d tid)"
| invalidate: "cache_step w (d, c, xs @ i # ys) (d, Invalidate c i, xs @ ys)"
| other: "unrelated w d d' \<Longrightarrow> cache_step w (d, c, q) (d', c, q)"

abbreviation cache_steps :: "'p engine \<Rightarrow> 'p cache_config \<Rightarrow> 'p cache_config \<Rightarrow> bool" where
  "cache_steps w \<equiv> (cache_step w)\<^sup>*\<^sup>*"

definition config_ok :: "'p engine \<Rightarrow> 'p cache_config \<Rightarrow> bool" where
  "config_ok w cfg = (case cfg of (d, c, q) \<Rightarrow>
     trigger_db_ok (en_Lower w) d \<and> tc.current_but (loadCandidates w False d) c q)"

text \<open>A load that failed caches nothing.\<close>

lemma Candidates_down:
  "snd (Candidates (loadCandidates w True d) c i) = c"
  by (simp add: Candidates_def loadCandidates_def split: option.split)

lemma step_config_ok:
  assumes "cache_step w cfg cfg'" and "config_ok w cfg"
  shows "config_ok w cfg'"
  using assms
proof (induction rule: cache_step.induct)
  case (fetch d c q down i)
  then show ?case
    using tc.current_but_fetch [of "loadCandidates w False d" c q i]
    by (cases down) (simp_all add: config_ok_def Candidates_down)
next
  case (create newID d now p res d' c q)
  then have ok: "trigger_db_ok (en_Lower w) d" "tc.current_but (loadCandidates w False d) c q"
    by (simp_all add: config_ok_def)
  have "trigger_db_ok (en_Lower w) d'"
    using CreateTrigger_ok [OF ok(1) create.hyps(1), of now p] create.hyps(2) by simp
  moreover have "tc.current_but (loadCandidates w False d') c (q @ tp_InstanceIDs p)"
    by (rule tc.current_but_write [OF ok(2)], rule load_create [OF create.hyps(2) _ create.hyps(1)])
      (use ok(1) in \<open>simp_all add: trigger_db_ok_def\<close>)
  ultimately show ?case by (simp add: config_ok_def)
next
  case (update u d x d' c q)
  then have ok: "trigger_db_ok (en_Lower w) d" "tc.current_but (loadCandidates w False d) c q"
    by (simp_all add: config_ok_def)
  have "trigger_db_ok (en_Lower w) d'"
    using UpdateTriggerByUser_ok [OF ok(1), of u] update.hyps by simp
  moreover have "tc.current_but (loadCandidates w False d') c (q @ ListTriggerInstanceIDs d (tu_ID u))"
    by (rule tc.current_but_write [OF ok(2)], rule load_update [OF update.hyps])
  ultimately show ?case by (simp add: config_ok_def)
next
  case (delete tid userID d x d' c q)
  then have ok: "trigger_db_ok (en_Lower w) d" "tc.current_but (loadCandidates w False d) c q"
    by (simp_all add: config_ok_def)
  have d': "d' = snd (SoftDeleteTriggerByUser tid userID d)" using delete.hyps by simp
  have "tc.current_but (loadCandidates w False d') c (q @ ListTriggerInstanceIDs d tid)"
    unfolding d' by (rule tc.current_but_write [OF ok(2)], rule load_delete)
  with SoftDeleteTriggerByUser_ok [OF ok(1), of tid userID] show ?case
    by (simp add: config_ok_def d')
next
  case (invalidate d c xs i ys)
  then show ?case by (auto simp: config_ok_def intro: tc.current_but_evict)
next
  case (other d d' c q)
  moreover have "loadCandidates w False d' = loadCandidates w False d"
    using other.hyps by (intro load_same) (simp_all add: unrelated_def)
  ultimately show ?case by (simp add: config_ok_def unrelated_def)
qed

lemma steps_config_ok: "cache_steps w cfg cfg' \<Longrightarrow> config_ok w cfg \<Longrightarrow> config_ok w cfg'"
  by (induction rule: rtranclp_induct) (auto intro: step_config_ok)

section \<open>Handlers are sequences of steps\<close>

lemma invalidate_steps: "cache_steps w (d, c, q @ ids) (d, foldl Invalidate c ids, q)"
proof (induction ids arbitrary: c)
  case (Cons i ids)
  have "cache_step w (d, c, q @ i # ids) (d, Invalidate c i, q @ ids)" by (rule cache_step.invalidate)
  with Cons.IH show ?case by (simp add: converse_rtranclp_into_rtranclp)
qed simp

text \<open>A write, then the invalidation of what it touched.\<close>

lemma write_and_invalidate:
  assumes "cache_step w (st_DB st, st_Cache st, q) (d, st_Cache st, q @ ids)"
  shows "cache_steps w (st_DB st, st_Cache st, q)
     (st_DB (invalidate_each ids (st\<lparr>st_DB := d\<rparr>)), st_Cache (invalidate_each ids (st\<lparr>st_DB := d\<rparr>)), q)"
  using converse_rtranclp_into_rtranclp [OF assms invalidate_steps] by (simp add: invalidate_each_def)

definition env_fresh :: "trigger_env \<Rightarrow> 'p trigger_state \<Rightarrow> bool" where
  "env_fresh e st \<longleftrightarrow> te_NewTriggerID e \<notin> t_ID ` set (triggers (st_DB st))
     \<and> te_NewFileID e \<notin> f_ID ` set (files (st_DB st))"

lemma unrelated_refl: "unrelated w d d"
  by (simp add: unrelated_def)

lemma unrelated_next: "unrelated w d (d\<lparr>next_trigger_ref := next_trigger_ref d + 1\<rparr>)"
  by (simp add: unrelated_def trigger_db_ok_next)

lemma unrelated_fire: "unrelated w d (RecordTriggerFire a t u now d)"
  by (simp add: unrelated_def RecordTriggerFire_ok) (simp add: RecordTriggerFire_def)

lemma unrelated_file:
  assumes "newID \<notin> f_ID ` set (files d)"
  shows "unrelated w d (snd (GetOrCreateFileByHash newID now hash path mt bs fname d))"
  using GetOrCreateFileByHash_ok [OF _ assms, of _ now hash path mt bs fname]
  by (simp add: unrelated_def) (simp add: GetOrCreateFileByHash_def split: option.split)

lemma fetch_store_steps:
  assumes "fetchAndStoreFile e url st = (res, st1)" and "env_fresh e st"
  shows "unrelated w (st_DB st) (st_DB st1) \<and> st_Cache st1 = st_Cache st
    \<and> te_NewTriggerID e \<notin> t_ID ` set (triggers (st_DB st1))"
proof (cases "te_Fetch e url")
  case (Inl err)
  with assms show ?thesis by (auto simp: fetchAndStoreFile_def unrelated_refl env_fresh_def)
next
  case (Inr f)
  let ?d = "snd (GetOrCreateFileByHash (te_NewFileID e) (te_Now e) (fe_Hash f) (file_key (fe_Hash f))
      (fe_MIMEType f) (i32 (int (length (fe_Content f)))) (fe_Filename f) (st_DB st))"
  have "st_DB st1 = st_DB st \<or> st_DB st1 = ?d" and cache: "st_Cache st1 = st_Cache st"
    using assms(1) Inr
    by (auto simp: fetchAndStoreFile_def Let_def split: if_splits prod.splits option.splits)
  moreover have "unrelated w (st_DB st) ?d"
    by (rule unrelated_file) (use assms(2) in \<open>simp add: env_fresh_def\<close>)
  ultimately have "unrelated w (st_DB st) (st_DB st1)" by (auto simp: unrelated_refl)
  then show ?thesis using cache assms(2) by (simp add: unrelated_def env_fresh_def)
qed

lemma step_other: "unrelated w d d' \<Longrightarrow> cache_steps w (d, c, q) (d', c, q)"
  by (simp add: cache_step.other r_into_rtranclp)

lemma respond_steps:
  assumes "respond_and_record e a tid uid st = (r, st')"
  shows "cache_steps w (st_DB st, c, q) (st_DB st', c, q) \<and> st_Cache st' = st_Cache st"
proof -
  have "unrelated w (st_DB st) (st_DB st')" "st_Cache st' = st_Cache st"
    using assms by (auto simp: respond_and_record_def checked_def record_fire_def unrelated_refl
        unrelated_fire split: sum.splits)
  then show ?thesis by (simp add: step_other)
qed

lemma try_candidates_steps:
  assumes "try_candidates w e req uid cs st = (r, st')"
  shows "cache_steps w (st_DB st, c, q) (st_DB st', c, q) \<and> st_Cache st' = st_Cache st"
proof (cases "Select (en_Match w) (tq_Phrase req) cs (te_PickRoll e)")
  case None
  with assms show ?thesis by (auto simp: try_candidates_def)
next
  case (Some selected)
  obtain act st1 where d: "decide_fire e (tq_Forced req) uid selected st = (act, st1)" by fastforce
  then have same: "st_DB st1 = st_DB st" "st_Cache st1 = st_Cache st"
    by (auto simp: decide_fire_def split: if_splits prod.splits)
  show ?thesis
  proof (cases act)
    case None
    with assms Some d same show ?thesis by (simp add: try_candidates_def)
  next
    case (Some a)
    with assms d \<open>Select _ _ _ _ = Some selected\<close> have
      "respond_and_record e a (cand_ID selected) uid st1 = (r, st')" by (simp add: try_candidates_def)
    from respond_steps [OF this] same show ?thesis by simp
  qed
qed

lemma TryTrigger_steps:
  assumes "TriggerServer_TryTrigger w e req st = (r, st')"
  shows "cache_steps w (st_DB st, st_Cache st, q) (st_DB st', st_Cache st', q)"
proof (cases "check_try e (st_DB st) req")
  case (Inl err)
  with assms show ?thesis by (simp add: TriggerServer_TryTrigger_def)
next
  case (Inr p)
  obtain caller i where p: "p = (caller, i)" by fastforce
  obtain res c where c: "Candidates (loadCandidates w (te_Down e StmtActive) (st_DB st)) (st_Cache st) i = (res, c)"
    by fastforce
  then have fetch: "cache_step w (st_DB st, st_Cache st, q) (st_DB st, c, q)"
    by (metis cache_step.fetch snd_conv)
  show ?thesis
  proof (cases res)
    case (Inl err)
    with assms Inr p c fetch show ?thesis by (auto simp: TriggerServer_TryTrigger_def)
  next
    case (Inr cs)
    with assms \<open>_ = Inr p\<close> p c have
      run: "try_candidates w e req (us_ID caller) cs (st\<lparr>st_Cache := c\<rparr>) = (r, st')"
      by (simp add: TriggerServer_TryTrigger_def)
    from try_candidates_steps [OF run] fetch show ?thesis by (simp add: converse_rtranclp_into_rtranclp)
  qed
qed

lemma ExecTrigger_steps:
  assumes "TriggerServer_ExecTrigger e req st = (r, st')"
  shows "cache_steps w (st_DB st, st_Cache st, q) (st_DB st', st_Cache st', q)"
proof -
  have "(\<exists>err. (r, st') = (Inl err, st))
      \<or> (\<exists>tid uid. respond_and_record e ACTION_TRIGGER_CALLED tid uid st = (r, st'))"
    using assms unfolding TriggerServer_ExecTrigger_def
    by (auto simp: checked_def split: sum.splits prod.splits)
  then show ?thesis using respond_steps by fastforce
qed

lemma create_in_store_steps:
  assumes "create_in_store w e req uid fid ids st = (r, st')"
    and "te_NewTriggerID e \<notin> t_ID ` set (triggers (st_DB st))"
  shows "cache_steps w (st_DB st, st_Cache st, q) (st_DB st', st_Cache st', q)"
proof (cases "te_Down e StmtCreate")
  case True
  with assms(1) show ?thesis by (simp add: create_in_store_def)
next
  case False
  let ?p = "\<lparr>tp_Phrase = get_opt (ct_Phrase req), tp_Reply = ct_Reply req, tp_FileID = fid,
      tp_UserID = uid, tp_Chance = ct_Chance req, tp_Mode = mode_of_request (ct_Mode req),
      tp_InstanceIDs = ids\<rparr>"
  obtain res d where d: "CreateTrigger (en_Lower w) (te_NewTriggerID e) (te_Now e) ?p (st_DB st) = (res, d)"
    by fastforce
  show ?thesis
  proof (cases res)
    case (Inl err)
    with d have "unrelated w (st_DB st) d"
      by (auto dest!: CreateTrigger_Inl simp: unrelated_refl unrelated_next)
    with assms(1) False d Inl show ?thesis by (auto simp: create_in_store_def step_other)
  next
    case (Inr x)
    have st': "st' = invalidate_each ids (st\<lparr>st_DB := d\<rparr>)"
      using assms(1) False d Inr by (simp add: create_in_store_def)
    have "cache_step w (st_DB st, st_Cache st, q) (d, st_Cache st, q @ tp_InstanceIDs ?p)"
      by (rule cache_step.create [OF assms(2) d [unfolded Inr]])
    then show ?thesis unfolding st' by (intro write_and_invalidate) simp
  qed
qed

lemma CreateTrigger_steps:
  assumes "TriggerServer_CreateTrigger w e req st = (r, st')" and "env_fresh e st"
  shows "cache_steps w (st_DB st, st_Cache st, q) (st_DB st', st_Cache st', q)"
proof (cases "check_create w e req")
  case (Inl err)
  with assms(1) show ?thesis by (simp add: TriggerServer_CreateTrigger_def)
next
  case (Inr caller)
  obtain res st1 where f: "fetch_unless_empty e (ct_FileUrl req) st = (res, st1)" by fastforce
  have mid: "unrelated w (st_DB st) (st_DB st1)" "st_Cache st1 = st_Cache st"
      "te_NewTriggerID e \<notin> t_ID ` set (triggers (st_DB st1))"
  proof (atomize(full), cases "ct_FileUrl req = []")
    case True
    with f assms(2) show "unrelated w (st_DB st) (st_DB st1) \<and> st_Cache st1 = st_Cache st
        \<and> te_NewTriggerID e \<notin> t_ID ` set (triggers (st_DB st1))"
      by (auto simp: fetch_unless_empty_def unrelated_refl env_fresh_def)
  next
    case False
    with f have "fetchAndStoreFile e (ct_FileUrl req) st = (res, st1)" by (simp add: fetch_unless_empty_def)
    from fetch_store_steps [OF this assms(2)] show "unrelated w (st_DB st) (st_DB st1) \<and> st_Cache st1 = st_Cache st
        \<and> te_NewTriggerID e \<notin> t_ID ` set (triggers (st_DB st1))" .
  qed
  note to_mid = step_other [OF mid(1), of "st_Cache st" q]
  show ?thesis
  proof (cases "\<exists>fid ids. create_in_store w e req (us_ID caller) fid ids st1 = (r, st')")
    case True
    then obtain fid ids where "create_in_store w e req (us_ID caller) fid ids st1 = (r, st')" by blast
    from create_in_store_steps [OF this mid(3), of q] have
      "cache_steps w (st_DB st1, st_Cache st, q) (st_DB st', st_Cache st', q)" by (simp only: mid(2))
    with to_mid show ?thesis by (rule rtranclp_trans)
  next
    case False
    have "st' = st1"
    proof (cases res)
      case (Inl err)
      with assms(1) \<open>check_create w e req = Inr caller\<close> f show ?thesis
        by (simp add: TriggerServer_CreateTrigger_def)
    next
      case (Inr fid)
      with assms(1) \<open>check_create w e req = Inr caller\<close> f False show ?thesis
        by (auto simp: TriggerServer_CreateTrigger_def checked_def split: sum.splits)
    qed
    with to_mid mid(2) show ?thesis by simp
  qed
qed

lemma update_in_store_steps:
  assumes "update_in_store w e u st = (r, st')"
  shows "cache_steps w (st_DB st, st_Cache st, q) (st_DB st', st_Cache st', q)"
proof (cases "te_Down e StmtScope \<or> te_Down e StmtUpdate")
  case True
  with assms show ?thesis by (auto simp: update_in_store_def scope_of_def split: if_splits)
next
  case False
  obtain res d where d: "UpdateTriggerByUser (en_Lower w) u (st_DB st) = (res, d)" by fastforce
  show ?thesis
  proof (cases res)
    case (Inl err)
    with UpdateTriggerByUser_Inl d have "d = st_DB st" by blast
    with assms False d Inl show ?thesis by (auto simp: update_in_store_def scope_of_def)
  next
    case (Inr x)
    have st': "st' = invalidate_each (ListTriggerInstanceIDs (st_DB st) (tu_ID u)) (st\<lparr>st_DB := d\<rparr>)"
      using assms False d Inr by (simp add: update_in_store_def scope_of_def)
    show ?thesis unfolding st'
      by (rule write_and_invalidate, rule cache_step.update [OF d [unfolded Inr]])
  qed
qed

lemma UpdateTrigger_steps:
  assumes "TriggerServer_UpdateTrigger w e req st = (r, st')" and "env_fresh e st"
  shows "cache_steps w (st_DB st, st_Cache st, q) (st_DB st', st_Cache st', q)"
proof (cases "update_checks w e (st_DB st) req")
  case (Inl err)
  with assms(1) show ?thesis by (simp add: TriggerServer_UpdateTrigger_def)
next
  case (Inr u)
  let ?url = "get_opt (ut_FileUrl req)"
  show ?thesis
  proof (cases "?url = []")
    case True
    with assms(1) Inr have "update_in_store w e u st = (r, st')"
      by (simp add: TriggerServer_UpdateTrigger_def)
    then show ?thesis by (rule update_in_store_steps)
  next
    case False
    obtain res st1 where f: "fetchAndStoreFile e ?url st = (res, st1)" by fastforce
    note mid = fetch_store_steps [OF f assms(2), of w]
    from mid have to_mid: "cache_steps w (st_DB st, st_Cache st, q) (st_DB st1, st_Cache st, q)"
      by (simp add: step_other)
    show ?thesis
    proof (cases res)
      case (Inl err)
      with assms(1) \<open>_ = Inr u\<close> False f have "st' = st1" by (simp add: TriggerServer_UpdateTrigger_def)
      with to_mid mid show ?thesis by simp
    next
      case (Inr fid)
      with assms(1) \<open>_ = Inr u\<close> False f have "update_in_store w e (with_file fid u) st1 = (r, st')"
        by (simp add: TriggerServer_UpdateTrigger_def)
      from update_in_store_steps [OF this, of q] mid have
        "cache_steps w (st_DB st1, st_Cache st, q) (st_DB st', st_Cache st', q)" by simp
      with to_mid show ?thesis by (rule rtranclp_trans)
    qed
  qed
qed

lemma DeleteTrigger_steps:
  assumes "TriggerServer_DeleteTrigger e req st = (r, st')"
  shows "cache_steps w (st_DB st, st_Cache st, q) (st_DB st', st_Cache st', q)"
proof -
  have "st' = st \<or> (\<exists>tid uid x d. SoftDeleteTriggerByUser tid uid (st_DB st) = (Inr x, d)
      \<and> st' = invalidate_each (ListTriggerInstanceIDs (st_DB st) tid) (st\<lparr>st_DB := d\<rparr>))"
    using assms unfolding TriggerServer_DeleteTrigger_def
    by (auto simp: checked_def check_delete_def scope_of_def SoftDeleteTriggerByUser_def
        split: sum.splits prod.splits if_splits)
  then show ?thesis
  proof
    assume "\<exists>tid uid x d. SoftDeleteTriggerByUser tid uid (st_DB st) = (Inr x, d)
      \<and> st' = invalidate_each (ListTriggerInstanceIDs (st_DB st) tid) (st\<lparr>st_DB := d\<rparr>)"
    then obtain tid uid x d where d: "SoftDeleteTriggerByUser tid uid (st_DB st) = (Inr x, d)"
      and st': "st' = invalidate_each (ListTriggerInstanceIDs (st_DB st) tid) (st\<lparr>st_DB := d\<rparr>)" by blast
    show ?thesis unfolding st' by (rule write_and_invalidate, rule cache_step.delete [OF d])
  qed simp
qed

lemma handler_steps:
  assumes "handle_trigger w e call st = (r, st')" and "env_fresh e st"
  shows "cache_steps w (st_DB st, st_Cache st, q) (st_DB st', st_Cache st', q)"
  using assms
  by (cases call) (auto simp: map_prod_id_eq intro: TryTrigger_steps ExecTrigger_steps
      CreateTrigger_steps UpdateTrigger_steps DeleteTrigger_steps)

section \<open>What the cache holds\<close>

text \<open>
  C5: In every interleaving of the statements and cache operations the handlers are made of (and
  every handler is such a sequence of them), an entry of the candidate cache is what the tables
  would load now, unless a write to that instance has yet to be followed by its invalidation;
  with none pending, an evaluation runs on exactly the stored triggers of the instance.
\<close>

theorem cache_stale_only_pending:
  assumes "trigger_db_ok (en_Lower w) d0" and "cache_steps w (d0, NewCache, []) (d, c, q)"
  shows "(\<forall>i cs. c i = Some cs \<longrightarrow> loadCandidates w False d i = Inr cs \<or> i \<in> set q)
    \<and> (q = [] \<longrightarrow> fst (Candidates (loadCandidates w False d) c i) = loadCandidates w False d i)
    \<and> (env_fresh e \<lparr>st_DB = d, st_Cache = c, st_Limiter = l, st_Blobs = b\<rparr> \<longrightarrow>
        (case handle_trigger w e call \<lparr>st_DB = d, st_Cache = c, st_Limiter = l, st_Blobs = b\<rparr> of
          (r, st') \<Rightarrow> cache_steps w (d, c, q) (st_DB st', st_Cache st', q)))"
proof -
  have "config_ok w (d0, NewCache, [])"
    using assms(1) NewCache_coherent by (simp add: config_ok_def tc.current_but_none)
  with assms(2) have ok: "config_ok w (d, c, q)" by (rule steps_config_ok)
  then have "\<forall>i cs. c i = Some cs \<longrightarrow> loadCandidates w False d i = Inr cs \<or> i \<in> set q"
    by (simp add: config_ok_def tc.current_but_def)
  moreover have "q = [] \<longrightarrow> fst (Candidates (loadCandidates w False d) c i) = loadCandidates w False d i"
    using ok tc.coherent_fetch [of "loadCandidates w False d" c i] by (auto simp: config_ok_def tc.current_but_none)
  moreover have "case handle_trigger w e call \<lparr>st_DB = d, st_Cache = c, st_Limiter = l, st_Blobs = b\<rparr> of
          (r, st') \<Rightarrow> cache_steps w (d, c, q) (st_DB st', st_Cache st', q)"
    if "env_fresh e \<lparr>st_DB = d, st_Cache = c, st_Limiter = l, st_Blobs = b\<rparr>"
    using handler_steps [OF _ that, of w call _ _ q] by (simp split: prod.split)
  ultimately show ?thesis by blast
qed

text \<open>A toy engine: a pattern matches the message that spells it.\<close>

definition example_engine :: "string engine" where
  "example_engine = \<lparr>en_WordRune = (\<lambda>_. False), en_Compile = Some, en_Match = (\<lambda>p s. p = s),
     en_Lower = id, en_ILike = (\<lambda>_ _. True)\<rparr>"

theorem cache_stale_only_pending_witness:
  "fst (Candidates (loadCandidates example_engine False example_triggers)
      (snd (Candidates (loadCandidates example_engine False example_triggers) NewCache 4)) 4)
   = loadCandidates example_engine False example_triggers 4"
proof -
  let ?load = "loadCandidates example_engine False example_triggers"
  have ok: "trigger_db_ok (en_Lower example_engine) example_triggers"
    using reachable_trigger_db_ok [OF example_triggers_reachable] by (simp add: example_engine_def id_def)
  have "cache_steps example_engine (example_triggers, NewCache, [])
      (example_triggers, snd (Candidates ?load NewCache 4), [])"
    by (rule r_into_rtranclp, rule cache_step.fetch)
  from cache_stale_only_pending [OF ok this] show ?thesis by blast
qed

end
