(* ===== verification/TriggerAccess.thy ===== *)
theory TriggerAccess
  imports TriggerCache
begin

text \<open>
  Who sees and who changes which triggers: every handler of the trigger service, against the
  tables as they were when it was called.
\<close>

section \<open>Visibility\<close>

definition scoped_here :: "trigger_env \<Rightarrow> trigger_db \<Rightarrow> string \<Rightarrow> bool" where
  "scoped_here e s tid = (case callerOriginInstanceID e s of None \<Rightarrow> False
     | Some i \<Rightarrow> (tid, i) \<in> set (trigger_instances s))"

definition visible_to :: "trigger_env \<Rightarrow> trigger_db \<Rightarrow> string \<Rightarrow> trigger_row \<Rightarrow> bool" where
  "visible_to e s u r \<longleftrightarrow> \<not> t_Deleted r \<and> (t_UserID r = Some u \<or> scoped_here e s (t_ID r))"

definition sees :: "trigger_env \<Rightarrow> trigger_db \<Rightarrow> string \<Rightarrow> string \<Rightarrow> bool" where
  "sees e s u tid \<longleftrightarrow> list_ex (\<lambda>r. t_ID r = tid \<and> visible_to e s u r) (triggers s)"

definition option_list :: "'a option \<Rightarrow> 'a list" where
  "option_list x = (case x of None \<Rightarrow> [] | Some a \<Rightarrow> [a])"

text \<open>The ids of the triggers a response tells something about.\<close>

definition exposed :: "trigger_resp \<Rightarrow> string list" where
  "exposed resp = (case resp of
     RespFire (Inr f) \<Rightarrow> option_list (rs_Id f)
   | RespTrigger (Inr t) \<Rightarrow> [pt_Id t]
   | RespTriggers (Inr ts) \<Rightarrow> map pt_Id ts
   | RespStats (Inr rows) \<Rightarrow> map ts_TriggerID rows
   | _ \<Rightarrow> [])"

definition all_seen :: "trigger_env \<Rightarrow> trigger_db \<Rightarrow> string \<Rightarrow> string list \<Rightarrow> bool" where
  "all_seen e s u ids \<longleftrightarrow> list_all (sees e s u) ids"

lemma GetTrigger_SomeD: "GetTrigger s tid = Some r \<Longrightarrow> r \<in> set (triggers s) \<and> t_ID r = tid \<and> \<not> t_Deleted r"
  by (auto simp: GetTrigger_def dest: find_SomeD)

lemma seesI: "r \<in> set (triggers s) \<Longrightarrow> visible_to e s u r \<Longrightarrow> t_ID r = tid \<Longrightarrow> sees e s u tid"
  by (auto simp: sees_def list_ex_iff)

lemma callerScoped_origin:
  "callerScopedInstance e s req = Inr i \<Longrightarrow> callerOriginInstanceID e s = Some i"
  by (auto simp: callerScopedInstance_def and_then_def split: option.splits sum.splits if_splits)

lemma pair_iff: "i \<in> set (ListTriggerInstanceIDs s tid) \<longleftrightarrow> (tid, i) \<in> set (trigger_instances s)"
  by (force simp: ListTriggerInstanceIDs_def)

section \<open>Each response\<close>

lemma buildTry_id:
  "buildTryTriggerResp e s tid = Inr f \<Longrightarrow> rs_Id f = Some x \<Longrightarrow>
     x = tid \<and> (\<exists>r \<in> set (triggers s). t_ID r = tid \<and> \<not> t_Deleted r)"
  by (auto simp: buildTryTriggerResp_def no_fire_def and_then_def
      split: if_splits option.splits sum.splits dest!: GetTrigger_SomeD)

lemma respond_exposed:
  assumes "respond_and_record e a tid uid st = (r, st')" and "scoped_here e (st_DB st) tid"
  shows "all_seen e (st_DB st) u (exposed (RespFire r))"
proof (cases "buildTryTriggerResp e (st_DB st) tid")
  case (Inl err)
  with assms(1) have "r = Inl err" by (simp add: respond_and_record_def)
  then show ?thesis by (simp add: exposed_def all_seen_def)
next
  case (Inr f)
  with assms(1) have r: "r = Inr f" by (simp add: respond_and_record_def)
  have "sees e (st_DB st) u x" if "rs_Id f = Some x" for x
    using buildTry_id [OF Inr that] assms(2) by (auto simp: visible_to_def intro: seesI)
  then show ?thesis
    by (auto simp: r exposed_def all_seen_def option_list_def split: option.splits)
qed

lemma loaded_scoped:
  assumes "loadCandidates w down s i = Inr cs" and "c \<in> set cs"
  shows "(cand_ID c, i) \<in> set (trigger_instances s)"
proof -
  have "cs = List.map_filter (candidate_of w) (ListActiveTriggersByInstance s i)"
    using assms(1) by (simp add: loadCandidates_def split: if_splits)
  with assms(2) obtain b where "b \<in> set (ListActiveTriggersByInstance s i)" "candidate_of w b = Some c"
    by (auto simp: List.map_filter_def)
  then obtain a where a: "a \<in> set (ListActiveTriggersByInstance s i)" "cand_ID c = at_ID a"
    by (auto simp: candidate_of_def split: sum.splits)
  from a(1) have "(at_ID a, i) \<in> set (trigger_instances s)"
    by (auto simp: ListActiveTriggersByInstance_def dest!: in_set_takeD)
  with a(2) show ?thesis by simp
qed

lemma select_pool_subset: "c \<in> set (select_pool rx text cs) \<Longrightarrow> c \<in> set cs"
  using select_pool_in by (metis in_set_takeD)

text \<open>The two ways an evaluation ends: nothing fires, or the selected trigger's response.\<close>

lemma try_candidates_cases:
  assumes "try_candidates w e req uid cs st = (r, st')"
  obtains (silent) "r = Inr no_fire" "st_DB st' = st_DB st" "st_Cache st' = st_Cache st"
  | (fired) selected a st1 where "selected \<in> set cs" "st_DB st1 = st_DB st" "st_Cache st1 = st_Cache st"
      "respond_and_record e a (cand_ID selected) uid st1 = (r, st')"
proof (cases "Select (en_Match w) (tq_Phrase req) cs (te_PickRoll e)")
  case None
  with assms silent show ?thesis by (auto simp: try_candidates_def)
next
  case (Some selected)
  then have sel: "selected \<in> set cs"
    using select_pool_subset [OF Select_in_pool] by blast
  obtain act st1 where d: "decide_fire e (tq_Forced req) uid selected st = (act, st1)" by fastforce
  then have same: "st_DB st1 = st_DB st" "st_Cache st1 = st_Cache st"
    by (auto simp: decide_fire_def split: if_splits prod.splits)
  from assms Some d show ?thesis
  proof (cases act)
    case None
    with assms Some d same silent show ?thesis by (auto simp: try_candidates_def)
  next
    case (Some a)
    with assms \<open>Select _ _ _ _ = _\<close> d fired [OF sel same] show ?thesis by (simp add: try_candidates_def)
  qed
qed

lemma Candidates_load:
  assumes "fst (Candidates (loadCandidates w down s) c i) = Inr cs"
    and "tc.coherent (loadCandidates w False s) c"
  shows "loadCandidates w False s i = Inr cs"
proof (cases "c i")
  case (Some v)
  with assms show ?thesis by (simp add: Candidates_def tc.coherent_def)
next
  case None
  with assms(1) show ?thesis by (cases down) (auto simp: Candidates_def loadCandidates_def)
qed

lemma no_fire_exposed [simp]: "exposed (RespFire (Inr no_fire)) = []"
  by (simp add: exposed_def no_fire_def option_list_def)

lemma Inl_exposed [simp]:
  "exposed (RespFire (Inl err)) = []" "exposed (RespTrigger (Inl err)) = []"
  "exposed (RespTriggers (Inl err)) = []" "exposed (RespStats (Inl err)) = []"
  "exposed (RespNew x) = []" "exposed (RespUnit y) = []"
  by (simp_all add: exposed_def)

lemma all_seen_Nil [simp]: "all_seen e s u []"
  by (simp add: all_seen_def)

lemma try_exposed:
  assumes "TriggerServer_TryTrigger w e req st = (r, st')"
    and "tc.coherent (loadCandidates w False (st_DB st)) (st_Cache st)"
  shows "all_seen e (st_DB st) u (exposed (RespFire r))"
proof (cases "check_try e (st_DB st) req")
  case (Inl err)
  with assms(1) show ?thesis by (auto simp: TriggerServer_TryTrigger_def)
next
  case (Inr p)
  obtain caller i where p: "p = (caller, i)" by fastforce
  then have origin: "callerOriginInstanceID e (st_DB st) = Some i"
    using Inr callerScoped_origin by (auto simp: check_try_def)
  obtain res c where c: "Candidates (loadCandidates w (te_Down e StmtActive) (st_DB st)) (st_Cache st) i = (res, c)"
    by fastforce
  show ?thesis
  proof (cases res)
    case (Inl err)
    with assms(1) Inr p c show ?thesis by (auto simp: TriggerServer_TryTrigger_def)
  next
    case (Inr cs)
    have "loadCandidates w False (st_DB st) i = Inr cs"
      by (rule Candidates_load [where down = "te_Down e StmtActive", OF _ assms(2)]) (simp add: c Inr)
    then have here: "scoped_here e (st_DB st) (cand_ID x)" if "x \<in> set cs" for x
      using loaded_scoped [OF _ that] origin by (simp add: scoped_here_def)
    from assms(1) \<open>_ = Inr p\<close> p c Inr have
      "try_candidates w e req (us_ID caller) cs (st\<lparr>st_Cache := c\<rparr>) = (r, st')"
      by (simp add: TriggerServer_TryTrigger_def)
    then show ?thesis
    proof (cases rule: try_candidates_cases)
      case (fired selected a st1)
      with respond_exposed [OF fired(4)] here show ?thesis by simp
    qed simp
  qed
qed

lemma exec_exposed:
  assumes "TriggerServer_ExecTrigger e req st = (r, st')"
  shows "all_seen e (st_DB st) u (exposed (RespFire r))"
proof (cases "check_exec e (st_DB st) req")
  case (Inl err)
  with assms show ?thesis by (auto simp: TriggerServer_ExecTrigger_def)
next
  case (Inr p)
  obtain caller row where p: "p = (caller, row)" by fastforce
  have "scoped_here e (st_DB st) (t_ID row)"
    using Inr p callerScoped_origin pair_iff
    by (fastforce simp: check_exec_def scope_of_def scoped_here_def split: if_splits)
  moreover have "respond_and_record e ACTION_TRIGGER_CALLED (t_ID row) (us_ID caller) st = (r, st')"
    using assms Inr p by (simp add: TriggerServer_ExecTrigger_def)
  ultimately show ?thesis using respond_exposed by blast
qed

lemma get_exposed:
  assumes "resolved_caller e = Inr caller"
  shows "all_seen e (st_DB st) (us_ID caller) (exposed (RespTrigger (TriggerServer_GetTrigger e st req)))"
proof (cases "TriggerServer_GetTrigger e st req")
  case (Inr t)
  then obtain row tid where row: "load_trigger e ''failed to get trigger'' (st_DB st) tid = Inr row"
      "t_UserID row = Some (us_ID caller) \<or> scoped_here e (st_DB st) (t_ID row)" "pt_Id t = t_ID row"
    using assms by (auto simp: TriggerServer_GetTrigger_def Let_def scope_of_def scoped_here_def pair_iff
        trigger_ToProto_def split: if_splits option.splits)
  then have "row \<in> set (triggers (st_DB st))" "\<not> t_Deleted row"
    by (auto simp: load_trigger_def split: if_splits option.splits dest: GetTrigger_SomeD)
  with row(2,3) have "sees e (st_DB st) (us_ID caller) (pt_Id t)"
    by (auto simp: visible_to_def intro: seesI)
  with Inr show ?thesis by (simp add: exposed_def all_seen_def)
qed simp

lemma list_protos_ids: "list_protos fs is rows = Some out \<Longrightarrow> map pt_Id out = map t_ID rows"
  by (induction rows arbitrary: out)
    (auto simp: Let_def trigger_ToProto_def split: if_splits option.splits)

lemma listed_seen:
  assumes "r \<in> set (ListTriggers ilike s (list_filter e s u req))" and "u \<noteq> []"
    and "callerOriginInstanceID e s \<noteq> Some 0"
  shows "sees e s u (t_ID r)"
proof -
  from assms(1) have r: "r \<in> set (triggers s)" "trigger_listed ilike s (list_filter e s u req) r"
    by (auto simp: ListTriggers_def Let_def dest!: in_set_takeD in_set_dropD)
  then have "visible_to e s u r"
    using assms(2,3) by (auto simp: trigger_listed_def list_filter_def visible_to_def scoped_here_def Let_def
        split: option.splits if_splits)
  with r(1) show ?thesis by (rule seesI) simp
qed

lemma list_exposed:
  assumes "resolved_caller e = Inr caller" and "us_ID caller \<noteq> []"
    and "callerOriginInstanceID e (st_DB st) \<noteq> Some 0"
  shows "all_seen e (st_DB st) (us_ID caller) (exposed (RespTriggers (TriggerServer_ListTriggers w e st req)))"
proof (cases "TriggerServer_ListTriggers w e st req")
  case (Inr out)
  let ?rows = "ListTriggers (en_ILike w) (st_DB st) (list_filter e (st_DB st) (us_ID caller) req)"
  from Inr assms(1) have "list_protos (GetFilesByIDs (st_DB st) (row_files ?rows))
      (GetTriggerInstancesBatch (st_DB st) (map t_ID ?rows)) ?rows = Some out"
    by (auto simp: TriggerServer_ListTriggers_def Let_def split: option.splits)
  from list_protos_ids [OF this] listed_seen [OF _ assms(2,3)] show ?thesis
    by (simp add: Inr exposed_def all_seen_def list_all_iff)
qed simp

lemma stats_exposed:
  "all_seen e (st_DB st) u (exposed (RespStats (TriggerServer_GetTriggerStats e st req)))"
proof (cases "TriggerServer_GetTriggerStats e st req")
  case (Inr rows)
  then have "\<exists>i act. callerOriginInstanceID e (st_DB st) = Some i
      \<and> rows = ListTriggerStats (st_DB st) \<lparr>sf_InstanceID = i, sf_ActionType = act,
          sf_PeriodStart = sq_PeriodStart req, sf_PeriodEnd = sq_PeriodEnd req, sf_Limit = sq_Limit req\<rparr>"
    by (auto simp: TriggerServer_GetTriggerStats_def Let_def dest!: callerScoped_origin split: if_splits)
  then obtain i f where i: "callerOriginInstanceID e (st_DB st) = Some i" "sf_InstanceID f = i"
      "rows = ListTriggerStats (st_DB st) f"
    by (metis trigger_stats_filter.select_convs(1))
  have "sees e (st_DB st) u (ts_TriggerID g)" if "g \<in> set rows" for g
  proof -
    from that i(3) obtain r where "r \<in> set (triggers (st_DB st))" "\<not> t_Deleted r"
        "(t_ID r, i) \<in> set (trigger_instances (st_DB st))" "ts_TriggerID g = t_ID r"
      using i(2) by (auto simp: ListTriggerStats_def stat_of_def Let_def dest!: in_set_takeD)
    then show ?thesis using i(1) by (auto simp: visible_to_def scoped_here_def intro: seesI)
  qed
  with Inr show ?thesis by (simp add: exposed_def all_seen_def list_all_iff)
qed simp

section \<open>Other people's triggers\<close>

definition foreign :: "string \<Rightarrow> trigger_row \<Rightarrow> bool" where
  "foreign u r \<longleftrightarrow> t_UserID r \<noteq> Some u"

definition keeps_others :: "string \<Rightarrow> trigger_db \<Rightarrow> trigger_db \<Rightarrow> bool" where
  "keeps_others u s s' \<longleftrightarrow> filter (foreign u) (triggers s') = filter (foreign u) (triggers s)
     \<and> list_all (\<lambda>r. ListTriggerInstanceIDs s' (t_ID r) = ListTriggerInstanceIDs s (t_ID r))
         (filter (foreign u) (triggers s))"

lemma keeps_others_refl [simp]: "keeps_others u s s"
  by (simp add: keeps_others_def list_all_iff)

lemma keeps_others_trans: "keeps_others u s s' \<Longrightarrow> keeps_others u s' s'' \<Longrightarrow> keeps_others u s s''"
  by (simp add: keeps_others_def list_all_iff)

lemma keeps_others_same:
  "triggers s' = triggers s \<Longrightarrow> trigger_instances s' = trigger_instances s \<Longrightarrow> keeps_others u s s'"
  by (simp add: keeps_others_def ListTriggerInstanceIDs_def list_all_iff)

lemma unrelated_keeps: "unrelated w s s' \<Longrightarrow> keeps_others u s s'"
  by (simp add: unrelated_def keeps_others_same)

lemma add_pairs_other:
  "t \<noteq> tid \<Longrightarrow> filter (\<lambda>p. fst p = t) (add_pairs tid is pairs) = filter (\<lambda>p. fst p = t) pairs"
  by (induction tid "is" pairs rule: add_pairs.induct) auto

lemma create_keeps_others:
  assumes "CreateTrigger lower newID now p s = (res, s')" and "newID \<notin> t_ID ` set (triggers s)"
    and "nullStr (tp_UserID p) = Some u"
  shows "keeps_others u s s'"
proof (cases res)
  case (Inl err)
  with assms(1) CreateTrigger_Inl have "s' = s \<or> s' = s\<lparr>next_trigger_ref := next_trigger_ref s + 1\<rparr>" by blast
  then show ?thesis by (auto intro: keeps_others_same)
next
  case (Inr x)
  note s' = CreateTrigger_Inr(6) [OF assms(1) [unfolded Inr]]
  have "t_ID r \<noteq> newID" if "r \<in> set (triggers s)" for r using that assms(2) by auto
  then show ?thesis
    using assms(3) by (auto simp: keeps_others_def s' foreign_def ListTriggerInstanceIDs_def
        add_pairs_other list_all_iff)
qed

lemma map_owned_foreign:
  assumes "\<And>r. t_UserID (g r) = t_UserID r"
  shows "filter (foreign u) (map (\<lambda>r. if own_trigger tid u r then g r else r) rs) = filter (foreign u) rs"
  using assms by (induction rs) (auto simp: foreign_def own_trigger_def)

lemma update_keeps_others: "keeps_others (tu_UserID u) s (snd (UpdateTriggerByUser lower u s))"
  by (auto simp: UpdateTriggerByUser_def keeps_others_def map_owned_foreign ListTriggerInstanceIDs_def
      list_all_iff split: option.splits)

lemma delete_keeps_others: "keeps_others u s (snd (SoftDeleteTriggerByUser tid u s))"
  by (auto simp: SoftDeleteTriggerByUser_def keeps_others_def map_owned_foreign
      ListTriggerInstanceIDs_def list_all_iff)

lemma fetch_keeps:
  "fetchAndStoreFile e url st = (res, st1) \<Longrightarrow> env_fresh e st \<Longrightarrow> keeps_others u (st_DB st) (st_DB st1)
     \<and> te_NewTriggerID e \<notin> t_ID ` set (triggers (st_DB st1))"
  using fetch_store_steps [of e url st res st1] unrelated_keeps by blast

lemma invalidate_each_db [simp]: "st_DB (invalidate_each ids st) = st_DB st"
  by (simp add: invalidate_each_def)

lemma respond_keeps: "keeps_others u (st_DB st) (st_DB (snd (respond_and_record e a tid uid st)))"
  by (auto simp: respond_and_record_def checked_def record_fire_def RecordTriggerFire_def
      intro: keeps_others_same split: sum.split)

lemma try_keeps:
  assumes "TriggerServer_TryTrigger w e req st = (r, st')"
  shows "keeps_others u (st_DB st) (st_DB st')"
proof (cases "check_try e (st_DB st) req")
  case (Inr p)
  obtain caller i where p: "p = (caller, i)" by fastforce
  obtain res c where c: "Candidates (loadCandidates w (te_Down e StmtActive) (st_DB st)) (st_Cache st) i = (res, c)"
    by fastforce
  show ?thesis
  proof (cases res)
    case (Inl err)
    with assms Inr p c show ?thesis by (auto simp: TriggerServer_TryTrigger_def)
  next
    case (Inr cs)
    with assms \<open>_ = Inr p\<close> p c have
      "try_candidates w e req (us_ID caller) cs (st\<lparr>st_Cache := c\<rparr>) = (r, st')"
      by (simp add: TriggerServer_TryTrigger_def)
    then show ?thesis
    proof (cases rule: try_candidates_cases)
      case (fired selected a st1)
      with respond_keeps [of u st1 e a "cand_ID selected" "us_ID caller"] show ?thesis by simp
    qed simp
  qed
qed (use assms in \<open>simp add: TriggerServer_TryTrigger_def\<close>)

lemma exec_keeps:
  "keeps_others u (st_DB st) (st_DB (snd (TriggerServer_ExecTrigger e req st)))"
  by (cases "check_exec e (st_DB st) req") (auto simp: TriggerServer_ExecTrigger_def respond_keeps split: prod.split)

lemma create_in_store_keeps:
  assumes "te_NewTriggerID e \<notin> t_ID ` set (triggers (st_DB st))" and "u \<noteq> []"
  shows "keeps_others u (st_DB st) (st_DB (snd (create_in_store w e req u fid ids st)))"
proof -
  let ?p = "\<lparr>tp_Phrase = get_opt (ct_Phrase req), tp_Reply = ct_Reply req, tp_FileID = fid,
      tp_UserID = u, tp_Chance = ct_Chance req, tp_Mode = mode_of_request (ct_Mode req), tp_InstanceIDs = ids\<rparr>"
  obtain res d where d: "CreateTrigger (en_Lower w) (te_NewTriggerID e) (te_Now e) ?p (st_DB st) = (res, d)"
    by fastforce
  have "keeps_others u (st_DB st) d"
    by (rule create_keeps_others [OF d assms(1)]) (simp add: nullStr_def assms(2))
  then show ?thesis by (cases res) (simp_all add: create_in_store_def d)
qed

lemma create_call_keeps:
  assumes "resolved_caller e = Inr caller" and "us_ID caller \<noteq> []" and "env_fresh e st"
  shows "keeps_others (us_ID caller) (st_DB st) (st_DB (snd (TriggerServer_CreateTrigger w e req st)))"
proof (cases "check_create w e req")
  case (Inr c)
  with assms(1) have c: "c = caller" by (auto simp: check_create_def)
  obtain res st1 where f: "fetch_unless_empty e (ct_FileUrl req) st = (res, st1)" by fastforce
  have mid: "keeps_others (us_ID caller) (st_DB st) (st_DB st1)
      \<and> te_NewTriggerID e \<notin> t_ID ` set (triggers (st_DB st1))"
  proof (cases "ct_FileUrl req = []")
    case True
    with f assms(3) show ?thesis by (auto simp: fetch_unless_empty_def env_fresh_def)
  next
    case False
    with f have "fetchAndStoreFile e (ct_FileUrl req) st = (res, st1)" by (simp add: fetch_unless_empty_def)
    from fetch_keeps [OF this assms(3)] show ?thesis .
  qed
  show ?thesis
  proof (cases res)
    case (Inl err)
    with Inr f mid show ?thesis by (simp add: TriggerServer_CreateTrigger_def)
  next
    case (Inr fid)
    let ?rest = "checked (resolveScopeInstances e (st_DB st1) (ct_Instances req))
        (\<lambda>ids. create_in_store w e req (us_ID caller) fid ids st1) st1"
    have "keeps_others (us_ID caller) (st_DB st1) (st_DB (snd ?rest))"
      using create_in_store_keeps mid assms(2) by (auto simp: checked_def split: sum.split)
    with conjunct1 [OF mid] have "keeps_others (us_ID caller) (st_DB st) (st_DB (snd ?rest))"
      by (rule keeps_others_trans)
    then show ?thesis
      by (simp add: TriggerServer_CreateTrigger_def \<open>check_create w e req = _\<close> c f Inr)
  qed
qed (simp add: TriggerServer_CreateTrigger_def)

lemma check_update_user: "check_update w caller tid r req = Inr u \<Longrightarrow> tu_UserID u = us_ID caller"
  by (auto simp: check_update_def Let_def split: if_splits)

lemma update_checks_user:
  assumes "update_checks w e s req = Inr u" and "resolved_caller e = Inr caller"
  shows "tu_UserID u = us_ID caller"
  using assms by (auto simp: update_checks_def owned_trigger_def split: if_splits dest!: check_update_user)

lemma update_in_store_keeps:
  "keeps_others (tu_UserID u) (st_DB st) (st_DB (snd (update_in_store w e u st)))"
  using update_keeps_others [of u "st_DB st" "en_Lower w"]
  by (auto simp: update_in_store_def checked_def split: sum.splits prod.splits)

lemma update_call_keeps:
  assumes "resolved_caller e = Inr caller" and "env_fresh e st"
  shows "keeps_others (us_ID caller) (st_DB st) (st_DB (snd (TriggerServer_UpdateTrigger w e req st)))"
proof (cases "update_checks w e (st_DB st) req")
  case (Inr u)
  then have u: "tu_UserID u = us_ID caller" by (rule update_checks_user [OF _ assms(1)])
  let ?url = "get_opt (ut_FileUrl req)"
  show ?thesis
  proof (cases "?url = []")
    case True
    with Inr update_in_store_keeps [of u st w e] u show ?thesis by (simp add: TriggerServer_UpdateTrigger_def)
  next
    case False
    obtain res st1 where f: "fetchAndStoreFile e ?url st = (res, st1)" by fastforce
    with fetch_keeps assms(2) have mid: "keeps_others (us_ID caller) (st_DB st) (st_DB st1)" by blast
    show ?thesis
    proof (cases res)
      case (Inl err)
      with \<open>_ = Inr u\<close> False f mid show ?thesis by (simp add: TriggerServer_UpdateTrigger_def)
    next
      case (Inr fid)
      have "keeps_others (us_ID caller) (st_DB st1) (st_DB (snd (update_in_store w e (with_file fid u) st1)))"
        using update_in_store_keeps [of "with_file fid u" st1 w e] u by (simp add: with_file_def)
      with mid have "keeps_others (us_ID caller) (st_DB st) (st_DB (snd (update_in_store w e (with_file fid u) st1)))"
        by (rule keeps_others_trans)
      with \<open>_ = Inr u\<close> False f Inr show ?thesis by (simp add: TriggerServer_UpdateTrigger_def)
    qed
  qed
qed (simp add: TriggerServer_UpdateTrigger_def)

lemma delete_call_keeps:
  assumes "resolved_caller e = Inr caller"
  shows "keeps_others (us_ID caller) (st_DB st) (st_DB (snd (TriggerServer_DeleteTrigger e req st)))"
proof (cases "check_delete e (st_DB st) req")
  case (Inr p)
  then obtain tid ids where p: "p = (caller, tid, ids)" using assms by (auto simp: check_delete_def)
  show ?thesis
    using delete_keeps_others [of "us_ID caller" "st_DB st" tid] Inr p
    by (auto simp: TriggerServer_DeleteTrigger_def split: prod.splits sum.splits)
qed (simp add: TriggerServer_DeleteTrigger_def)

lemma handler_exposed:
  assumes "handle_trigger w e call st = (resp, st')" and "resolved_caller e = Inr caller"
    and "us_ID caller \<noteq> []" and "callerOriginInstanceID e (st_DB st) \<noteq> Some 0"
    and "tc.coherent (loadCandidates w False (st_DB st)) (st_Cache st)"
  shows "all_seen e (st_DB st) (us_ID caller) (exposed resp)"
  using assms
  by (cases call) (auto simp: map_prod_id_eq intro: try_exposed exec_exposed get_exposed list_exposed
      stats_exposed)

lemma handler_keeps:
  assumes "handle_trigger w e call st = (resp, st')" and "resolved_caller e = Inr caller"
    and "us_ID caller \<noteq> []" and "env_fresh e st"
  shows "keeps_others (us_ID caller) (st_DB st) (st_DB st')"
proof (cases call)
  case (TryCall q)
  with assms(1) show ?thesis by (auto simp: map_prod_id_eq intro: try_keeps)
next
  case (ExecCall q)
  with assms(1) exec_keeps [of "us_ID caller" st e q] show ?thesis by (auto simp: map_prod_id_eq)
next
  case (CreateTriggerCall q)
  with assms(1) create_call_keeps [OF assms(2-4), of w q] show ?thesis by (auto simp: map_prod_id_eq)
next
  case (UpdateTriggerCall q)
  with assms(1) update_call_keeps [OF assms(2,4), of w q] show ?thesis by (auto simp: map_prod_id_eq)
next
  case (DeleteTriggerCall i)
  with assms(1) delete_call_keeps [OF assms(2), of st i] show ?thesis by (auto simp: map_prod_id_eq)
qed (use assms(1) in auto)


definition example_state :: "string trigger_state" where
  "example_state = \<lparr>st_DB = example_triggers, st_Cache = NewCache, st_Limiter = Map.empty, st_Blobs = None\<rparr>"

definition example_call :: trigger_call where
  "example_call = CreateTriggerCall \<lparr>ct_Phrase = Some ''good morning'', ct_Reply = ''morning'',
     ct_Instances = [], ct_Chance = 40, ct_Mode = None, ct_FileUrl = []\<rparr>"


end
