(* ===== verification/TriggerPolicy.thy ===== *)
theory TriggerPolicy
  imports TriggerAccess
begin

text \<open>
  Two policies of the trigger service as a whole: who may put a regex trigger in the tables, and
  that a trigger its caller may not see might as well not exist.
\<close>

section \<open>The clearance floor of regex triggers\<close>

definition regex_phrases :: "trigger_db \<Rightarrow> (string \<times> string) list" where
  "regex_phrases s = map (\<lambda>r. (t_ID r, t_Phrase r))
     (filter (\<lambda>r. \<not> t_Deleted r \<and> t_Mode r = MODE_REGEX) (triggers s))"

definition no_new_regex :: "trigger_db \<Rightarrow> trigger_db \<Rightarrow> bool" where
  "no_new_regex s s' \<longleftrightarrow> set (regex_phrases s') \<subseteq> set (regex_phrases s)"

lemma no_new_regex_refl [simp]: "no_new_regex s s"
  by (simp add: no_new_regex_def)

lemma no_new_regex_trans: "no_new_regex s s' \<Longrightarrow> no_new_regex s' s'' \<Longrightarrow> no_new_regex s s''"
  by (auto simp: no_new_regex_def)

lemma no_new_regex_same: "triggers s' = triggers s \<Longrightarrow> no_new_regex s s'"
  by (simp add: no_new_regex_def regex_phrases_def)

lemma no_new_regex_rows:
  assumes "\<And>r'. r' \<in> set (triggers s') \<Longrightarrow> \<not> t_Deleted r' \<Longrightarrow> t_Mode r' = MODE_REGEX \<Longrightarrow>
     \<exists>r \<in> set (triggers s). \<not> t_Deleted r \<and> t_Mode r = MODE_REGEX \<and> t_ID r = t_ID r' \<and> t_Phrase r = t_Phrase r'"
  shows "no_new_regex s s'"
  unfolding no_new_regex_def regex_phrases_def
proof (rule subsetI)
  fix x assume "x \<in> set (map (\<lambda>r. (t_ID r, t_Phrase r))
     (filter (\<lambda>r. \<not> t_Deleted r \<and> t_Mode r = MODE_REGEX) (triggers s')))"
  then obtain r' where r': "r' \<in> set (triggers s')" "\<not> t_Deleted r'" "t_Mode r' = MODE_REGEX"
    "x = (t_ID r', t_Phrase r')" by auto
  from assms [OF r'(1-3)] show "x \<in> set (map (\<lambda>r. (t_ID r, t_Phrase r))
     (filter (\<lambda>r. \<not> t_Deleted r \<and> t_Mode r = MODE_REGEX) (triggers s)))"
    by (auto simp: r'(4) image_iff intro: bexI)
qed

lemma fetch_triggers:
  "fetchAndStoreFile e url st = (res, st1) \<Longrightarrow> triggers (st_DB st1) = triggers (st_DB st)"
  by (auto simp: fetchAndStoreFile_def GetOrCreateFileByHash_def Let_def
      split: sum.splits if_splits option.splits prod.splits)

lemma fetch_unless_triggers:
  "fetch_unless_empty e url st = (res, st1) \<Longrightarrow> triggers (st_DB st1) = triggers (st_DB st)"
  using fetch_triggers by (auto simp: fetch_unless_empty_def split: if_splits)

lemma respond_triggers: "triggers (st_DB (snd (respond_and_record e a tid uid st))) = triggers (st_DB st)"
  by (auto simp: respond_and_record_def checked_def record_fire_def RecordTriggerFire_def split: sum.split)

lemma create_store_regex:
  assumes "mode_of_request (ct_Mode req) \<noteq> MODE_REGEX"
  shows "no_new_regex (st_DB st) (st_DB (snd (create_in_store w e req uid fid ids st)))"
proof (cases "te_Down e StmtCreate")
  case False
  let ?p = "\<lparr>tp_Phrase = get_opt (ct_Phrase req), tp_Reply = ct_Reply req, tp_FileID = fid,
      tp_UserID = uid, tp_Chance = ct_Chance req, tp_Mode = mode_of_request (ct_Mode req), tp_InstanceIDs = ids\<rparr>"
  obtain res d where d: "CreateTrigger (en_Lower w) (te_NewTriggerID e) (te_Now e) ?p (st_DB st) = (res, d)"
    by fastforce
  have "no_new_regex (st_DB st) d"
  proof (cases res)
    case (Inl err)
    with CreateTrigger_Inl d have "triggers d = triggers (st_DB st)" by fastforce
    then show ?thesis by (rule no_new_regex_same)
  next
    case (Inr x)
    from CreateTrigger_Inr(6) [OF d [unfolded Inr]] assms show ?thesis
      by (intro no_new_regex_rows) auto
  qed
  with False d show ?thesis by (cases res) (simp_all add: create_in_store_def)
qed (simp add: create_in_store_def)

lemma check_create_floor:
  assumes "check_create w e req = Inr caller" and "us_Clearance caller < CLEARANCE_MODERATOR"
  shows "mode_of_request (ct_Mode req) \<noteq> MODE_REGEX"
  using assms by (auto simp: check_create_def regex_allowed_def regexClearanceFloor_def)

lemma check_create_caller: "check_create w e req = Inr caller \<Longrightarrow> resolved_caller e = Inr caller"
  by (auto simp: check_create_def)

lemma create_regex:
  assumes "resolved_caller e = Inr caller" and "us_Clearance caller < CLEARANCE_MODERATOR"
  shows "no_new_regex (st_DB st) (st_DB (snd (TriggerServer_CreateTrigger w e req st)))"
proof (cases "check_create w e req")
  case (Inr c)
  then have "c = caller" using check_create_caller assms(1) by fastforce
  with Inr assms(2) check_create_floor have mode: "mode_of_request (ct_Mode req) \<noteq> MODE_REGEX" by blast
  obtain res st1 where f: "fetch_unless_empty e (ct_FileUrl req) st = (res, st1)" by fastforce
  note mid = no_new_regex_same [OF fetch_unless_triggers [OF f]]
  show ?thesis
  proof (cases res)
    case (Inl err)
    with Inr f mid show ?thesis by (simp add: TriggerServer_CreateTrigger_def)
  next
    case (Inr fid)
    let ?rest = "checked (resolveScopeInstances e (st_DB st1) (ct_Instances req))
        (\<lambda>ids. create_in_store w e req (us_ID c) fid ids st1) st1"
    have "no_new_regex (st_DB st1) (st_DB (snd ?rest))"
      using create_store_regex [OF mode] by (auto simp: checked_def split: sum.split)
    with mid have "no_new_regex (st_DB st) (st_DB (snd ?rest))" by (rule no_new_regex_trans)
    then show ?thesis
      by (simp add: TriggerServer_CreateTrigger_def \<open>check_create w e req = _\<close> f Inr)
  qed
qed (simp add: TriggerServer_CreateTrigger_def)

text \<open>What the checks of an update leave: no phrase or mode written that makes a regex trigger.\<close>

definition update_harmless :: "trigger_db \<Rightarrow> trigger_update \<Rightarrow> bool" where
  "update_harmless s u \<longleftrightarrow> list_all (\<lambda>r. own_trigger (tu_ID u) (tu_UserID u) r \<longrightarrow>
     t_Mode (patched u r) = MODE_REGEX \<longrightarrow> t_Mode r = MODE_REGEX \<and> t_Phrase (patched u r) = t_Phrase r)
     (triggers s)"

lemma check_update_floor:
  assumes "check_update w caller tid current req = Inr u" and "us_Clearance caller < CLEARANCE_MODERATOR"
    and "t_Mode (patched u current) = MODE_REGEX"
  shows "t_Mode current = MODE_REGEX \<and> t_Phrase (patched u current) = t_Phrase current"
  using assms by (auto simp: check_update_def patched_def regex_allowed_def regexClearanceFloor_def Let_def
      split: if_splits option.splits)

lemma live_unique:
  assumes "trigger_db_ok lower s" and "GetTrigger s tid = Some c" and "own_trigger tid uid r" and "r \<in> set (triggers s)"
  shows "r = c"
proof -
  have "distinct (map t_ID (triggers s))" using assms(1) by (simp add: trigger_invariants)
  moreover have "c \<in> set (triggers s)" "t_ID c = tid" using GetTrigger_SomeD [OF assms(2)] by simp_all
  moreover have "t_ID r = tid" using assms(3) by (simp add: own_trigger_def)
  ultimately show ?thesis using assms(4) by (metis eq_key_imp_eq_value distinct_map inj_onD)
qed

lemma update_checks_cases:
  assumes "update_checks w e s req = Inr u"
  obtains caller tid c where "resolved_caller e = Inr caller" "GetTrigger s tid = Some c" "tu_ID u = tid"
    "check_update w caller tid c req = Inr u"
  using assms by (auto simp: update_checks_def owned_trigger_def load_trigger_def check_update_def Let_def
      split: if_splits option.splits)

lemma update_checks_harmless:
  assumes "update_checks w e s req = Inr u" and "resolved_caller e = Inr caller"
    and "us_Clearance caller < CLEARANCE_MODERATOR" and "trigger_db_ok lower s"
  shows "update_harmless s u"
proof -
  from assms(1) obtain c where c: "GetTrigger s (tu_ID u) = Some c" "check_update w caller (tu_ID u) c req = Inr u"
    by (rule update_checks_cases) (use assms(2) in simp)
  have "t_Mode r = MODE_REGEX \<and> t_Phrase (patched u r) = t_Phrase r"
    if "r \<in> set (triggers s)" "own_trigger (tu_ID u) (tu_UserID u) r" "t_Mode (patched u r) = MODE_REGEX" for r
  proof -
    have "r = c" by (rule live_unique [OF assms(4) c(1) that(2,1)])
    with check_update_floor [OF c(2) assms(3)] that(3) show ?thesis by simp
  qed
  then show ?thesis by (simp add: update_harmless_def list_all_iff)
qed

lemma harmless_file [simp]: "update_harmless s (with_file fid u) = update_harmless s u"
  by (simp add: update_harmless_def with_file_def patched_def)

lemma update_store_regex:
  assumes "update_harmless (st_DB st) u"
  shows "no_new_regex (st_DB st) (st_DB (snd (update_in_store w e u st)))"
proof -
  let ?d = "snd (UpdateTriggerByUser (en_Lower w) u (st_DB st))"
  have "no_new_regex (st_DB st) ?d"
    using assms by (intro no_new_regex_rows)
      (force simp: UpdateTriggerByUser_def update_harmless_def list_all_iff split: option.splits if_splits)
  then show ?thesis
    by (auto simp: update_in_store_def checked_def split: sum.splits prod.splits)
qed

lemma update_regex:
  assumes "resolved_caller e = Inr caller" and "us_Clearance caller < CLEARANCE_MODERATOR"
    and "trigger_db_ok (en_Lower w) (st_DB st)"
  shows "no_new_regex (st_DB st) (st_DB (snd (TriggerServer_UpdateTrigger w e req st)))"
proof (cases "update_checks w e (st_DB st) req")
  case (Inr u)
  have harmless: "update_harmless (st_DB st) u" by (rule update_checks_harmless [OF Inr assms])
  let ?url = "get_opt (ut_FileUrl req)"
  show ?thesis
  proof (cases "?url = []")
    case True
    with Inr update_store_regex [OF harmless] show ?thesis by (simp add: TriggerServer_UpdateTrigger_def)
  next
    case False
    obtain res st1 where f: "fetchAndStoreFile e ?url st = (res, st1)" by fastforce
    note same = fetch_triggers [OF f]
    show ?thesis
    proof (cases res)
      case (Inl err)
      with \<open>_ = Inr u\<close> False f no_new_regex_same [OF same] show ?thesis
        by (simp add: TriggerServer_UpdateTrigger_def)
    next
      case (Inr fid)
      have "update_harmless (st_DB st1) u" using harmless same by (simp add: update_harmless_def)
      then have "update_harmless (st_DB st1) (with_file fid u)" by simp
      from no_new_regex_trans [OF no_new_regex_same [OF same] update_store_regex [OF this]]
      show ?thesis using \<open>_ = Inr u\<close> False f Inr by (simp add: TriggerServer_UpdateTrigger_def)
    qed
  qed
qed (simp add: TriggerServer_UpdateTrigger_def)

lemma delete_regex: "no_new_regex (st_DB st) (st_DB (snd (TriggerServer_DeleteTrigger e req st)))"
proof -
  have "no_new_regex s (snd (SoftDeleteTriggerByUser tid uid s))" for s tid uid
    by (intro no_new_regex_rows) (force simp: SoftDeleteTriggerByUser_def split: if_splits)
  then show ?thesis
    by (auto simp: TriggerServer_DeleteTrigger_def checked_def split: sum.splits prod.splits)
      (metis snd_conv)+
qed

lemma try_triggers:
  assumes "TriggerServer_TryTrigger w e req st = (r, st')"
  shows "triggers (st_DB st') = triggers (st_DB st)"
proof (cases "check_try e (st_DB st) req")
  case (Inr p)
  obtain caller i where p: "p = (caller, i)" by fastforce
  obtain res c where c: "Candidates (loadCandidates w (te_Down e StmtActive) (st_DB st)) (st_Cache st) i = (res, c)"
    by fastforce
  show ?thesis
  proof (cases res)
    case (Inl err)
    with assms Inr p c show ?thesis by (auto simp: TriggerServer_TryTrigger_def)
  next
    case (Inr cs)
    with assms \<open>_ = Inr p\<close> p c have
      "try_candidates w e req (us_ID caller) cs (st\<lparr>st_Cache := c\<rparr>) = (r, st')"
      by (simp add: TriggerServer_TryTrigger_def)
    then show ?thesis
    proof (cases rule: try_candidates_cases)
      case (fired selected a st1)
      with respond_triggers [of e a "cand_ID selected" "us_ID caller" st1] show ?thesis by simp
    qed simp
  qed
qed (use assms in \<open>simp add: TriggerServer_TryTrigger_def\<close>)

lemma exec_triggers: "triggers (st_DB (snd (TriggerServer_ExecTrigger e req st))) = triggers (st_DB st)"
  by (cases "check_exec e (st_DB st) req")
    (auto simp: TriggerServer_ExecTrigger_def respond_triggers split: prod.split)

text \<open>
  C27: A caller below MODERATOR cannot bring a regex into the tables: no call of theirs adds a live
  regex trigger, turns a trigger into one, or changes the phrase of one, whichever fields a
  request sets and in whichever combination.
\<close>

theorem regex_floor:
  assumes "handle_trigger w e call st = (resp, st')" and "resolved_caller e = Inr caller"
    and "us_Clearance caller < CLEARANCE_MODERATOR" and "trigger_db_ok (en_Lower w) (st_DB st)"
  shows "set (regex_phrases (st_DB st')) \<subseteq> set (regex_phrases (st_DB st))"
  unfolding no_new_regex_def [symmetric]
proof (cases call)
  case (TryCall q)
  with assms(1) show "no_new_regex (st_DB st) (st_DB st')"
    by (auto simp: map_prod_id_eq intro: no_new_regex_same try_triggers)
next
  case (ExecCall q)
  with assms(1) no_new_regex_same [OF exec_triggers [of e q st]] show "no_new_regex (st_DB st) (st_DB st')"
    by (auto simp: map_prod_id_eq)
next
  case (CreateTriggerCall q)
  with assms(1) create_regex [OF assms(2,3), of st w q] show "no_new_regex (st_DB st) (st_DB st')"
    by (auto simp: map_prod_id_eq)
next
  case (UpdateTriggerCall q)
  with assms(1) update_regex [OF assms(2-4), of q] show "no_new_regex (st_DB st) (st_DB st')"
    by (auto simp: map_prod_id_eq)
next
  case (DeleteTriggerCall i)
  with assms(1) delete_regex [of st e i] show "no_new_regex (st_DB st) (st_DB st')"
    by (auto simp: map_prod_id_eq)
qed (use assms(1) in auto)

theorem regex_floor_witness:
  "resolved_caller example_env = Inr example_user
   \<and> set (regex_phrases (st_DB (snd (handle_trigger example_engine example_env example_call example_state))))
     \<subseteq> set (regex_phrases example_triggers)"
proof
  show caller: "resolved_caller example_env = Inr example_user" by code_simp
  have low: "us_Clearance example_user < CLEARANCE_MODERATOR" by code_simp
  have "trigger_db_ok (en_Lower example_engine) (st_DB example_state)"
    using reachable_trigger_db_ok [OF example_triggers_reachable]
    by (simp add: example_engine_def example_state_def id_def)
  from regex_floor [OF prod.collapse [symmetric] caller low this, of example_call]
  show "set (regex_phrases (st_DB (snd (handle_trigger example_engine example_env example_call example_state))))
     \<subseteq> set (regex_phrases example_triggers)" by (simp add: example_state_def)
qed

section \<open>A trigger out of sight\<close>

text \<open>The same server, had the trigger never been there.\<close>

definition hide_row :: "string \<Rightarrow> trigger_db \<Rightarrow> trigger_db" where
  "hide_row tid s = s\<lparr>triggers := filter (\<lambda>r. t_ID r \<noteq> tid) (triggers s)\<rparr>"

definition hide :: "string \<Rightarrow> 'p trigger_state \<Rightarrow> 'p trigger_state" where
  "hide tid st = st\<lparr>st_DB := hide_row tid (st_DB st)\<rparr>"

lemma hide_simps [simp]:
  "st_DB (hide tid st) = hide_row tid (st_DB st)" "st_Cache (hide tid st) = st_Cache st"
  "st_Limiter (hide tid st) = st_Limiter st"
  by (simp_all add: hide_def)

lemma hide_row_simps [simp]:
  "triggers (hide_row tid s) = filter (\<lambda>r. t_ID r \<noteq> tid) (triggers s)"
  "trigger_instances (hide_row tid s) = trigger_instances s" "places (hide_row tid s) = places s"
  "files (hide_row tid s) = files s" "fires (hide_row tid s) = fires s"
  by (simp_all add: hide_row_def)

lemma find_hidden:
  assumes "\<And>r. r \<in> set rs \<Longrightarrow> P r \<Longrightarrow> t_ID r \<noteq> tid"
  shows "find P (filter (\<lambda>r. t_ID r \<noteq> tid) rs) = find P rs"
  using assms by (induction rs) auto

lemma filter_hidden:
  assumes "\<And>r. r \<in> set rs \<Longrightarrow> P r \<Longrightarrow> t_ID r \<noteq> tid"
  shows "filter P (filter (\<lambda>r. t_ID r \<noteq> tid) rs) = filter P rs"
  using assms by (induction rs) auto

lemma hidden_scope [simp]: "ListTriggerInstanceIDs (hide_row tid s) = ListTriggerInstanceIDs s"
  by (rule ext) (simp add: ListTriggerInstanceIDs_def)

lemma hidden_origin [simp]: "callerOriginInstanceID e (hide_row tid s) = callerOriginInstanceID e s"
  by (simp add: callerOriginInstanceID_def split: option.split sum.split)

lemma hidden_resolveInstance [simp]: "resolveInstance e (hide_row tid s) = resolveInstance e s"
  by (rule ext) (simp add: resolveInstance_def split: option.split)

lemma hidden_callerScoped [simp]: "callerScopedInstance e (hide_row tid s) = callerScopedInstance e s"
  by (rule ext) (simp add: callerScopedInstance_def split: option.split)

lemma hidden_scope_of [simp]: "scope_of e msg (hide_row tid s) = scope_of e msg s"
  by (rule ext) (simp add: scope_of_def)

lemma hidden_file [simp]: "buildTriggerFile e (hide_row tid s) = buildTriggerFile e s"
  by (rule ext) (simp add: buildTriggerFile_def GetFile_def split: option.split)

lemma hidden_instances [simp]: "GetTriggerInstances (hide_row tid s) = GetTriggerInstances s"
  by (rule ext) (simp add: GetTriggerInstances_def instance_messages_def cong: map_cong)

lemma GetTrigger_hidden: "GetTrigger (hide_row tid s) x = (if x = tid then None else GetTrigger s x)"
  using find_hidden [of "triggers s" "\<lambda>r. t_ID r = x \<and> \<not> t_Deleted r" tid]
  by (auto simp: GetTrigger_def find_None_iff)

lemma GetTriggerByRef_hidden:
  assumes "trigger_db_ok lower s"
  shows "GetTriggerByRef (hide_row tid s) ref = (case GetTriggerByRef s ref of None \<Rightarrow> None
    | Some r \<Rightarrow> if t_ID r = tid then None else Some r)"
proof -
  have d: "distinct (map t_Ref (triggers s))" using assms by (simp add: trigger_invariants)
  have "find (\<lambda>r. t_Ref r = ref \<and> \<not> t_Deleted r) (filter (\<lambda>r. t_ID r \<noteq> tid) rs)
      = (case find (\<lambda>r. t_Ref r = ref \<and> \<not> t_Deleted r) rs of None \<Rightarrow> None
         | Some r \<Rightarrow> if t_ID r = tid then None else Some r)" if "distinct (map t_Ref rs)" for rs
    using that
  proof (induction rs)
    case (Cons a rs)
    then have "find (\<lambda>r. t_Ref r = t_Ref a \<and> \<not> t_Deleted r) rs = None"
      by (auto simp: find_None_iff) (metis imageI)
    with Cons show ?case by (auto split: option.splits)
  qed simp
  from this [OF d] show ?thesis by (simp add: GetTriggerByRef_def)
qed

lemma resolve_hidden:
  assumes "trigger_db_ok lower s" and "\<not> te_Down e StmtByRef"
  shows "resolveTriggerID e (hide_row tid s) raw = resolveTriggerID e s raw
    \<or> resolveTriggerID e s raw = Inr tid \<and> resolveTriggerID e (hide_row tid s) raw = Inl trigger_not_found"
  using assms(2) by (auto simp: resolveTriggerID_def GetTriggerByRef_hidden [OF assms(1)] split: option.splits)

lemma resolve_cases:
  assumes "trigger_db_ok lower s" and "\<not> te_Down e StmtByRef"
  obtains (same) x where "resolveTriggerID e (hide_row tid s) raw = resolveTriggerID e s raw"
      "resolveTriggerID e s raw = Inr x" "x \<noteq> tid"
    | (err) y where "resolveTriggerID e (hide_row tid s) raw = resolveTriggerID e s raw"
      "resolveTriggerID e s raw = Inl y"
    | (it) "resolveTriggerID e s raw = Inr tid"
      "resolveTriggerID e (hide_row tid s) raw = Inr tid
       \<or> resolveTriggerID e (hide_row tid s) raw = Inl trigger_not_found"
  using resolve_hidden [OF assms, of tid raw]
  by (cases "resolveTriggerID e s raw") auto

lemma load_hidden:
  "\<not> te_Down e StmtGet \<Longrightarrow> load_trigger e msg (hide_row tid s) x
     = (if x = tid then Inl trigger_not_found else load_trigger e msg s x)"
  by (simp add: load_trigger_def GetTrigger_hidden)

lemma load_invisible:
  assumes "\<not> sees e s u tid" and "\<not> te_Down e StmtGet"
  shows "load_trigger e msg s tid = Inl trigger_not_found
    \<or> (\<exists>row. load_trigger e msg s tid = Inr row \<and> t_ID row = tid \<and> t_UserID row \<noteq> Some u
         \<and> \<not> scoped_here e s tid)"
proof (cases "GetTrigger s tid")
  case None
  then show ?thesis using assms(2) by (simp add: load_trigger_def)
next
  case (Some row)
  from GetTrigger_SomeD [OF Some] assms(1) have "t_UserID row \<noteq> Some u \<and> \<not> scoped_here e s tid"
    by (auto simp: sees_def visible_to_def list_ex_iff)
  with Some GetTrigger_SomeD [OF Some] assms(2) show ?thesis by (simp add: load_trigger_def)
qed

text \<open>The trigger a read resolves its id to, and whether the caller may see it.\<close>

lemma get_hidden:
  assumes "resolved_caller e = Inr caller" and "te_Down e = (\<lambda>_. False)"
    and "trigger_db_ok lower (st_DB st)" and "\<not> sees e (st_DB st) (us_ID caller) tid"
  shows "TriggerServer_GetTrigger e (hide tid st) req = TriggerServer_GetTrigger e st req"
proof (cases req)
  case (Some raw)
  have gone: "TriggerServer_GetTrigger e st req = Inl trigger_not_found"
    if "resolveTriggerID e (st_DB st) raw = Inr tid"
    using load_invisible [OF assms(4), of "''failed to get trigger''"] that assms(1,2)
    by (auto simp: TriggerServer_GetTrigger_def Some trigger_id_required_def scope_of_def pair_iff
        scoped_here_def and_then_def guard_that_def Let_def split: option.splits)
  from assms(2) have up: "\<not> te_Down e StmtByRef" by simp
  from assms(3) up show ?thesis
  proof (cases rule: resolve_cases [where tid = tid and raw = raw])
    case it
    then have "TriggerServer_GetTrigger e (hide tid st) req = Inl trigger_not_found"
      using assms(1,2) by (auto simp: TriggerServer_GetTrigger_def Some trigger_id_required_def load_hidden)
    with gone [OF it(1)] show ?thesis by simp
  qed (use assms(1,2) in \<open>simp_all add: TriggerServer_GetTrigger_def Some trigger_id_required_def load_hidden
      cong: if_cong\<close>)
qed (simp add: TriggerServer_GetTrigger_def trigger_id_required_def assms(1))

lemma load_id: "load_trigger e msg s x = Inr row \<Longrightarrow> t_ID row = x"
  by (auto simp: load_trigger_def split: if_splits option.splits dest: GetTrigger_SomeD)

text \<open>What remains of an exec once its caller, its instance and its trigger id are known.\<close>

definition exec_rest :: "trigger_env \<Rightarrow> trigger_db \<Rightarrow> user_row \<Rightarrow> int \<Rightarrow> string \<Rightarrow> (user_row \<times> trigger_row) rpc" where
  "exec_rest e s caller instanceID tid =
    and_then (load_trigger e ''failed to load trigger'' s tid) (\<lambda>row.
    and_then (scope_of e ''failed to load trigger'' s (t_ID row)) (\<lambda>scopedIDs.
      if instanceID \<notin> set scopedIDs then Inl trigger_not_found else Inr (caller, row)))"

lemma exec_rest_hidden:
  assumes "te_Down e = (\<lambda>_. False)" and "x \<noteq> tid"
  shows "exec_rest e (hide_row tid s) caller i x = exec_rest e s caller i x"
  using assms by (simp add: exec_rest_def load_hidden)

lemma exec_rest_out:
  assumes "te_Down e = (\<lambda>_. False)" and "\<not> sees e s u tid" and "callerOriginInstanceID e s = Some i"
  shows "exec_rest e s caller i tid = Inl trigger_not_found"
    "exec_rest e (hide_row tid s) caller i tid = Inl trigger_not_found"
  using load_invisible [OF assms(2), of "''failed to load trigger''"] assms(1,3)
  by (auto simp: exec_rest_def load_hidden scope_of_def pair_iff scoped_here_def)

lemma exec_rest_id: "exec_rest e s caller i x = Inr (c, row) \<Longrightarrow> t_ID row = x"
  by (auto simp: exec_rest_def split: if_splits dest: load_id)

lemma check_exec_rest:
  "check_exec e s req =
    and_then (resolved_caller e) (\<lambda>caller.
    and_then (trigger_id_required (xq_Id req)) (\<lambda>raw.
    and_then (instance_required (xq_Instance req)) (\<lambda>_.
    and_then (callerScopedInstance e s (xq_Instance req)) (\<lambda>instanceID.
    and_then (resolveTriggerID e s raw) (exec_rest e s caller instanceID)))))"
  by (simp add: check_exec_def exec_rest_def [abs_def])

lemma check_exec_hidden:
  assumes "te_Down e = (\<lambda>_. False)" and "trigger_db_ok lower s" and "\<not> sees e s u tid"
  shows "check_exec e (hide_row tid s) req = check_exec e s req
    \<and> (\<forall>caller row. check_exec e s req = Inr (caller, row) \<longrightarrow> t_ID row \<noteq> tid)"
proof -
  from assms(1) have up: "\<not> te_Down e StmtByRef" by simp
  have rest: "and_then (resolveTriggerID e (hide_row tid s) raw) (exec_rest e (hide_row tid s) caller i)
        = and_then (resolveTriggerID e s raw) (exec_rest e s caller i)
      \<and> (\<forall>c row. and_then (resolveTriggerID e s raw) (exec_rest e s caller i) = Inr (c, row) \<longrightarrow> t_ID row \<noteq> tid)"
    if "callerScopedInstance e s (xq_Instance req) = Inr i" for caller raw i
    using assms(2) up
  proof (cases rule: resolve_cases [where tid = tid and raw = raw])
    case (same x)
    then show ?thesis by (auto simp: exec_rest_hidden [OF assms(1)] dest: exec_rest_id)
  next
    case it
    with exec_rest_out [OF assms(1,3) callerScoped_origin [OF that]] show ?thesis by auto
  qed simp
  show ?thesis
    unfolding check_exec_rest hidden_callerScoped
    using rest by (simp add: and_then_def split: sum.split)
qed

lemma build_hidden:
  "x \<noteq> tid \<Longrightarrow> buildTryTriggerResp e (hide_row tid s) x = buildTryTriggerResp e s x"
  by (simp add: buildTryTriggerResp_def GetTrigger_hidden split: option.split)

lemma respond_hidden:
  "x \<noteq> tid \<Longrightarrow> st_DB st' = hide_row tid (st_DB st) \<Longrightarrow>
     fst (respond_and_record e a x uid st') = fst (respond_and_record e a x uid st)"
  by (simp add: respond_and_record_def build_hidden checked_def split: sum.split)

lemma exec_hidden:
  assumes "te_Down e = (\<lambda>_. False)" and "trigger_db_ok lower (st_DB st)" and "\<not> sees e (st_DB st) u tid"
  shows "fst (TriggerServer_ExecTrigger e req (hide tid st)) = fst (TriggerServer_ExecTrigger e req st)"
proof (cases "check_exec e (st_DB st) req")
  case (Inr p)
  obtain caller row where p: "p = (caller, row)" by fastforce
  with Inr check_exec_hidden [OF assms, of req] show ?thesis
    by (simp add: TriggerServer_ExecTrigger_def respond_hidden [of "t_ID row" tid "hide tid st" st])
qed (use check_exec_hidden [OF assms, of req] in \<open>simp add: TriggerServer_ExecTrigger_def\<close>)

lemma delete_hidden:
  assumes "resolved_caller e = Inr caller" and "te_Down e = (\<lambda>_. False)"
    and "trigger_db_ok lower (st_DB st)" and "\<not> sees e (st_DB st) (us_ID caller) tid"
  shows "fst (TriggerServer_DeleteTrigger e req (hide tid st)) = fst (TriggerServer_DeleteTrigger e req st)"
proof (cases req)
  case (Some raw)
  have foreign: "list_ex (own_trigger x (us_ID caller)) (filter (\<lambda>r. t_ID r \<noteq> tid) (triggers (st_DB st)))
      = list_ex (own_trigger x (us_ID caller)) (triggers (st_DB st))" for x
    using assms(4) by (auto simp: list_ex_iff own_trigger_def sees_def visible_to_def)
  have none: "\<not> list_ex (own_trigger tid (us_ID caller)) (triggers (st_DB st))"
    using assms(4) by (auto simp: list_ex_iff own_trigger_def sees_def visible_to_def)
  show ?thesis
    using resolve_hidden [OF assms(3), of e tid raw] assms(1,2) none
    by (cases "resolveTriggerID e (st_DB st) raw")
      (auto simp: TriggerServer_DeleteTrigger_def check_delete_def Some trigger_id_required_def
        scope_of_def SoftDeleteTriggerByUser_def foreign)
qed (simp add: TriggerServer_DeleteTrigger_def check_delete_def trigger_id_required_def assms(1))

lemma list_hidden:
  assumes "resolved_caller e = Inr caller" and "us_ID caller \<noteq> []"
    and "callerOriginInstanceID e (st_DB st) \<noteq> Some 0" and "\<not> sees e (st_DB st) (us_ID caller) tid"
  shows "TriggerServer_ListTriggers w e (hide tid st) req = TriggerServer_ListTriggers w e st req"
proof -
  let ?f = "list_filter e (st_DB st) (us_ID caller) req"
  have filter_same: "list_filter e (hide_row tid (st_DB st)) (us_ID caller) req = ?f"
    by (simp add: list_filter_def)
  have listed_same: "trigger_listed ilike (hide_row tid (st_DB st)) ?f = trigger_listed ilike (st_DB st) ?f" for ilike
    by (rule ext) (simp add: trigger_listed_def)
  have "t_ID r \<noteq> tid" if "r \<in> set (triggers (st_DB st))" "trigger_listed ilike (st_DB st) ?f r" for r ilike
  proof -
    have "visible_to e (st_DB st) (us_ID caller) r"
      using that(2) assms(2,3) by (auto simp: trigger_listed_def list_filter_def visible_to_def scoped_here_def
          Let_def split: option.splits if_splits)
    with that(1) assms(4) show ?thesis by (auto intro: seesI)
  qed
  then have rows: "ListTriggers ilike (hide_row tid (st_DB st)) ?f = ListTriggers ilike (st_DB st) ?f" for ilike
    using filter_hidden [of "triggers (st_DB st)" "trigger_listed ilike (st_DB st) ?f" tid]
    by (simp add: ListTriggers_def listed_same Let_def)
  have files_same: "GetFilesByIDs (hide_row tid (st_DB st)) = GetFilesByIDs (st_DB st)"
    by (rule ext, rule ext) (simp add: GetFilesByIDs_def GetFile_def)
  have batch_same: "GetTriggerInstancesBatch (hide_row tid (st_DB st)) = GetTriggerInstancesBatch (st_DB st)"
    by (rule ext, rule ext) (simp add: GetTriggerInstancesBatch_def)
  show ?thesis
    by (simp only: TriggerServer_ListTriggers_def hide_simps assms(1) and_then_simps Let_def filter_same rows
        files_same batch_same)
qed

lemma stats_hidden:
  assumes "\<not> sees e (st_DB st) u tid"
  shows "TriggerServer_GetTriggerStats e (hide tid st) req = TriggerServer_GetTriggerStats e st req"
proof -
  have stat_same: "stat_of (hide_row tid s) f = stat_of s f" for s f
    by (rule ext) (simp add: stat_of_def)
  have rows: "ListTriggerStats (hide_row tid (st_DB st)) f = ListTriggerStats (st_DB st) f"
    if "callerOriginInstanceID e (st_DB st) = Some (sf_InstanceID f)" for f
  proof -
    have "filter (\<lambda>r. (t_ID r, sf_InstanceID f) \<in> set (trigger_instances (st_DB st)) \<and> \<not> t_Deleted r)
        (filter (\<lambda>r. t_ID r \<noteq> tid) (triggers (st_DB st)))
      = filter (\<lambda>r. (t_ID r, sf_InstanceID f) \<in> set (trigger_instances (st_DB st)) \<and> \<not> t_Deleted r)
        (triggers (st_DB st))"
      by (rule filter_hidden) (use assms that in \<open>auto simp: visible_to_def scoped_here_def intro: seesI\<close>)
    then show ?thesis by (simp add: ListTriggerStats_def stat_same)
  qed
  show ?thesis
    using rows by (auto simp: TriggerServer_GetTriggerStats_def Let_def and_then_def dest: callerScoped_origin
        split: sum.split)
qed

text \<open>Evaluation: the candidates of the caller's instance never include the hidden trigger.\<close>

lemma load_origin_hidden:
  assumes "\<not> sees e s u tid" and "callerOriginInstanceID e s = Some i"
  shows "loadCandidates w down (hide_row tid s) i = loadCandidates w down s i"
proof -
  have "filter (\<lambda>r. (t_ID r, i) \<in> set (trigger_instances s) \<and> \<not> t_Deleted r)
        (filter (\<lambda>r. t_ID r \<noteq> tid) (triggers s))
      = filter (\<lambda>r. (t_ID r, i) \<in> set (trigger_instances s) \<and> \<not> t_Deleted r) (triggers s)"
    by (rule filter_hidden) (use assms in \<open>auto simp: visible_to_def scoped_here_def intro: seesI\<close>)
  then show ?thesis by (simp add: loadCandidates_def ListActiveTriggersByInstance_def)
qed

lemma loaded_live:
  assumes "loadCandidates w down s i = Inr cs" and "c \<in> set cs"
  shows "\<exists>r \<in> set (triggers s). t_ID r = cand_ID c \<and> \<not> t_Deleted r \<and> (t_ID r, i) \<in> set (trigger_instances s)"
proof -
  have "cs = List.map_filter (candidate_of w) (ListActiveTriggersByInstance s i)"
    using assms(1) by (simp add: loadCandidates_def split: if_splits)
  with assms(2) obtain b where "b \<in> set (ListActiveTriggersByInstance s i)" "candidate_of w b = Some c"
    by (auto simp: List.map_filter_def)
  then obtain a where a: "a \<in> set (ListActiveTriggersByInstance s i)" "cand_ID c = at_ID a"
    by (auto simp: candidate_of_def split: sum.splits)
  from a(1) obtain r where "r \<in> set (triggers s)" "t_ID r = at_ID a" "\<not> t_Deleted r"
      "(t_ID r, i) \<in> set (trigger_instances s)"
    by (auto simp: ListActiveTriggersByInstance_def dest!: in_set_takeD)
  with a(2) show ?thesis by auto
qed

lemma decide_fire_hidden:
  "decide_fire e forced uid c (hide tid st) = map_prod id (hide tid) (decide_fire e forced uid c st)"
  by (auto simp: decide_fire_def hide_def split: prod.split)

lemma try_candidates_hidden:
  assumes "\<forall>c \<in> set cs. cand_ID c \<noteq> tid"
  shows "fst (try_candidates w e req uid cs (hide tid st)) = fst (try_candidates w e req uid cs st)"
proof (cases "Select (en_Match w) (tq_Phrase req) cs (te_PickRoll e)")
  case (Some selected)
  then have "cand_ID selected \<noteq> tid"
    using assms select_pool_subset [OF Select_in_pool] by blast
  then show ?thesis
    using respond_hidden [of "cand_ID selected" tid "hide tid st'" st' for st']
    by (auto simp: try_candidates_def Some decide_fire_hidden split: prod.split option.split)
qed (simp add: try_candidates_def)

lemma check_try_hidden: "check_try e (hide_row tid s) req = check_try e s req"
  by (simp add: check_try_def)

lemma try_hidden:
  assumes "\<not> sees e (st_DB st) u tid" and "tc.coherent (loadCandidates w False (st_DB st)) (st_Cache st)"
  shows "fst (TriggerServer_TryTrigger w e req (hide tid st)) = fst (TriggerServer_TryTrigger w e req st)"
proof (cases "check_try e (st_DB st) req")
  case (Inr p)
  obtain caller i where p: "p = (caller, i)" by fastforce
  then have origin: "callerOriginInstanceID e (st_DB st) = Some i"
    using Inr callerScoped_origin by (auto simp: check_try_def)
  let ?load = "\<lambda>s. loadCandidates w (te_Down e StmtActive) s"
  obtain res c where c: "Candidates (?load (st_DB st)) (st_Cache st) i = (res, c)" by fastforce
  have same: "Candidates (?load (hide_row tid (st_DB st))) (st_Cache st) i = (res, c)"
    using c by (cases "st_Cache st i") (simp_all add: Candidates_def load_origin_hidden [OF assms(1) origin])
  show ?thesis
  proof (cases res)
    case (Inl err)
    with Inr p c same show ?thesis by (simp add: TriggerServer_TryTrigger_def check_try_hidden)
  next
    case (Inr cs)
    have "loadCandidates w False (st_DB st) i = Inr cs"
      by (rule Candidates_load [where down = "te_Down e StmtActive", OF _ assms(2)]) (simp add: c Inr)
    from loaded_live [OF this] have out: "\<forall>x \<in> set cs. cand_ID x \<noteq> tid"
      using assms(1) origin by (fastforce simp: visible_to_def scoped_here_def intro: seesI)
    have "(hide tid st)\<lparr>st_Cache := c\<rparr> = hide tid (st\<lparr>st_Cache := c\<rparr>)" by (simp add: hide_def)
    with \<open>_ = Inr p\<close> p c same Inr try_candidates_hidden [OF out, of w e req "us_ID caller" "st\<lparr>st_Cache := c\<rparr>"]
    show ?thesis by (simp add: TriggerServer_TryTrigger_def check_try_hidden)
  qed
qed (simp add: TriggerServer_TryTrigger_def check_try_hidden)

text \<open>The calls whose answer cannot depend on the unique index over everybody's exact phrases.\<close>

definition phrase_blind :: "trigger_call \<Rightarrow> bool" where
  "phrase_blind call = (case call of CreateTriggerCall q \<Rightarrow> False | UpdateTriggerCall q \<Rightarrow> False | _ \<Rightarrow> True)"

text \<open>
  A trigger out of the caller's sight might as well not exist: with every statement working,
  no evaluation, forced or not, no read, listing or statistic and no delete is answered
  differently from how it would be had the row never been stored, whether the request names the
  trigger by id, by reference number, by its phrase or not at all.
\<close>

theorem invisible_is_missing:
  assumes "resolved_caller e = Inr caller" and "us_ID caller \<noteq> []"
    and "callerOriginInstanceID e (st_DB st) \<noteq> Some 0" and "te_Down e = (\<lambda>_. False)"
    and "trigger_db_ok lower (st_DB st)" and "tc.coherent (loadCandidates w False (st_DB st)) (st_Cache st)"
    and "\<not> sees e (st_DB st) (us_ID caller) tid" and "phrase_blind call"
  shows "fst (handle_trigger w e call (hide tid st)) = fst (handle_trigger w e call st)"
proof (cases call)
  case (TryCall q)
  with try_hidden [OF assms(7,6), of q] show ?thesis by simp
next
  case (ExecCall q)
  with exec_hidden [OF assms(4,5,7), of q] show ?thesis by simp
next
  case (GetTriggerCall i)
  with get_hidden [OF assms(1,4,5,7)] show ?thesis by simp
next
  case (ListTriggersCall q)
  with list_hidden [OF assms(1-3,7)] show ?thesis by simp
next
  case (DeleteTriggerCall i)
  with delete_hidden [OF assms(1,4,5,7), of i] show ?thesis by simp
next
  case (StatsCall q)
  with stats_hidden [OF assms(7)] show ?thesis by simp
qed (use assms(8) in \<open>simp_all add: phrase_blind_def\<close>)

definition stranger_env :: trigger_env where
  "stranger_env = example_env\<lparr>te_Ctx := \<lparr>cx_Meta = None, cx_Caller = Some (example_user\<lparr>us_ID := ''v''\<rparr>),
     cx_Origin = None\<rparr>\<rparr>"

theorem invisible_is_missing_witness:
  "fst (handle_trigger example_engine stranger_env (GetTriggerCall (Some ''1'')) example_state)
     = fst (handle_trigger example_engine stranger_env (GetTriggerCall (Some ''1'')) (hide ''t1'' example_state))
   \<and> GetTriggerByRef example_triggers 1 \<noteq> None"
proof
  have facts: "resolved_caller stranger_env = Inr (example_user\<lparr>us_ID := ''v''\<rparr>)"
    "us_ID (example_user\<lparr>us_ID := ''v''\<rparr>) \<noteq> []"
    "callerOriginInstanceID stranger_env (st_DB example_state) \<noteq> Some 0"
    "\<not> sees stranger_env (st_DB example_state) (us_ID (example_user\<lparr>us_ID := ''v''\<rparr>)) ''t1''"
    "phrase_blind (GetTriggerCall (Some ''1''))"
    by code_simp+
  have up: "te_Down stranger_env = (\<lambda>_. False)" by (simp add: stranger_env_def example_env_def)
  have ok: "trigger_db_ok id (st_DB example_state)"
    using reachable_trigger_db_ok [OF example_triggers_reachable] by (simp add: example_state_def)
  have "tc.coherent (loadCandidates example_engine False (st_DB example_state)) (st_Cache example_state)"
    by (simp add: example_state_def NewCache_coherent)
  from invisible_is_missing [OF facts(1-3) up ok this facts(4,5)]
  show "fst (handle_trigger example_engine stranger_env (GetTriggerCall (Some ''1'')) example_state)
     = fst (handle_trigger example_engine stranger_env (GetTriggerCall (Some ''1'')) (hide ''t1'' example_state))"
    by (rule sym)
qed code_simp

section \<open>Somebody else's trigger\<close>

text \<open>
  C28: An update or a delete of a trigger that somebody else owns is refused with NotFound, exactly
  as for an id that names nothing, before anything happens: the server's state, blobs included,
  is what it was, even when the update names an attachment to download.
\<close>

theorem foreign_write_refused:
  assumes "resolved_caller e = Inr caller" and "te_Down e = (\<lambda>_. False)"
    and "trigger_db_ok lower (st_DB st)" and "GetTrigger (st_DB st) tid = Some row"
    and "t_UserID row \<noteq> Some (us_ID caller)" and "resolveTriggerID e (st_DB st) raw = Inr tid"
    and "ut_Id req = Some raw"
  shows "handle_trigger w e (UpdateTriggerCall req) st = (RespUnit (Inl trigger_not_found), st)
    \<and> handle_trigger w e (DeleteTriggerCall (Some raw)) st = (RespUnit (Inl trigger_not_found), st)"
proof
  show "handle_trigger w e (UpdateTriggerCall req) st = (RespUnit (Inl trigger_not_found), st)"
    using assms(1,2,4-7) by (simp add: TriggerServer_UpdateTrigger_def update_checks_def owned_trigger_def
        trigger_id_required_def load_trigger_def)
  have "\<not> own_trigger tid (us_ID caller) r" if "r \<in> set (triggers (st_DB st))" for r
    using live_unique [OF assms(3,4) _ that] assms(5) by (auto simp: own_trigger_def)
  then have "\<not> list_ex (own_trigger tid (us_ID caller)) (triggers (st_DB st))" by (simp add: list_ex_iff)
  then show "handle_trigger w e (DeleteTriggerCall (Some raw)) st = (RespUnit (Inl trigger_not_found), st)"
    using assms(1,2,6) by (simp add: TriggerServer_DeleteTrigger_def check_delete_def trigger_id_required_def
        scope_of_def SoftDeleteTriggerByUser_def)
qed

definition example_update :: update_trigger_req where
  "example_update = \<lparr>ut_Id = Some ''1'', ut_Phrase = Some ''bye'', ut_Reply = None, ut_Chance = None,
     ut_Mode = None, ut_FileUrl = Some ''https://cdn.discordapp.com/a.png''\<rparr>"

theorem foreign_write_refused_witness:
  "handle_trigger example_engine stranger_env (UpdateTriggerCall example_update) example_state
     = (RespUnit (Inl trigger_not_found), example_state)"
proof -
  obtain row where row: "GetTrigger (st_DB example_state) ''t1'' = Some row"
      "t_UserID row \<noteq> Some (us_ID (example_user\<lparr>us_ID := ''v''\<rparr>))"
  proof -
    have "GetTrigger (st_DB example_state) ''t1'' = Some (hd (triggers example_triggers))
        \<and> t_UserID (hd (triggers example_triggers)) \<noteq> Some (us_ID (example_user\<lparr>us_ID := ''v''\<rparr>))"
      by code_simp
    with that show thesis by blast
  qed
  have facts: "resolved_caller stranger_env = Inr (example_user\<lparr>us_ID := ''v''\<rparr>)"
    "resolveTriggerID stranger_env (st_DB example_state) ''1'' = Inr ''t1''" "ut_Id example_update = Some ''1''"
    by code_simp+
  have up: "te_Down stranger_env = (\<lambda>_. False)" by (simp add: stranger_env_def example_env_def)
  have "trigger_db_ok id (st_DB example_state)"
    using reachable_trigger_db_ok [OF example_triggers_reachable] by (simp add: example_state_def)
  from foreign_write_refused [OF facts(1) up this row facts(2,3), of example_engine]
  show ?thesis by blast
qed

end
