(* ===== verification/DiscordTriggers.thy ===== *)
theory DiscordTriggers
  imports DiscordContext TriggerPolicy
begin

text \<open>
  The trigger commands of the Discord client (\<open>pkg/discord/triggers.go\<close>): what each handler reads
  from its invocation, the request it sends, and the reply it builds. The generated service client
  is a record of functions from the outgoing context and the request to the answer, over the state
  \<open>'b\<close> of everything behind it; a deadline of \<open>boundedCall\<close> shows as an error of the call.
\<close>

section \<open>The service client\<close>

text \<open>A trigger as a message: scalars by their getters, absent messages as \<open>None\<close>.\<close>

record trigger_msg =
  tm_Id :: string
  tm_Ref :: int
  tm_Phrase :: string
  tm_Reply :: string
  tm_Mode :: int
  tm_Chance :: int
  tm_File :: "trigger_file option"
  tm_CreatedAt :: "instant option"
  tm_UpdatedAt :: "instant option"

text \<open>What a stream of \<open>GetFile\<close> brings: a description, content, or neither.\<close>

datatype stream_msg = StreamMeta "trigger_file option" | StreamContent string | StreamUnset

record 'b trigger_client =
  tc_Create :: "outgoing \<Rightarrow> create_trigger_req \<Rightarrow> 'b \<Rightarrow> (string \<times> int) rpc \<times> 'b"
  tc_Update :: "outgoing \<Rightarrow> update_trigger_req \<Rightarrow> 'b \<Rightarrow> unit rpc \<times> 'b"
  tc_Delete :: "outgoing \<Rightarrow> string \<Rightarrow> 'b \<Rightarrow> unit rpc \<times> 'b"
  tc_List :: "outgoing \<Rightarrow> list_triggers_req \<Rightarrow> 'b \<Rightarrow> trigger_msg list rpc \<times> 'b"
  tc_Get :: "outgoing \<Rightarrow> string \<Rightarrow> 'b \<Rightarrow> trigger_msg rpc \<times> 'b"
  tc_Stats :: "outgoing \<Rightarrow> trigger_stats_req \<Rightarrow> 'b \<Rightarrow> trigger_stat_row list rpc \<times> 'b"
  tc_Exec :: "outgoing \<Rightarrow> exec_trigger_req \<Rightarrow> 'b \<Rightarrow> try_trigger_resp rpc \<times> 'b"
  tc_Try :: "outgoing \<Rightarrow> try_trigger_req \<Rightarrow> 'b \<Rightarrow> try_trigger_resp rpc \<times> 'b"
  tc_GetFile :: "outgoing \<Rightarrow> string \<Rightarrow> 'b \<Rightarrow> (stream_msg list \<times> rpc_error option) rpc \<times> 'b"

section \<open>Arguments\<close>

definition maxTriggerFileBytes :: nat where "maxTriggerFileBytes = 8 * 1048576"
definition unnamedTriggerFileName :: string where "unnamedTriggerFileName = ''trigger''"

definition regexClearanceRequirement :: string where
  "regexClearanceRequirement = clearanceName CLEARANCE_MODERATOR"

definition parseTriggerMode :: "(nat \<Rightarrow> nat) \<Rightarrow> string \<Rightarrow> trigger_mode \<times> bool" where
  "parseTriggerMode sf val =
    (let trimmed = trim_space val in
     if trimmed = [] then (MODE_UNSPECIFIED, True)
     else case find (\<lambda>c. EqualFold sf trimmed (fst c)) triggerModeWords of
         Some c \<Rightarrow> (snd c, True) | None \<Rightarrow> (MODE_UNSPECIFIED, False))"

definition TriggerMode_value :: "(string \<times> int) list" where
  "TriggerMode_value = [(''TRIGGER_MODE_UNSPECIFIED'', 0), (''TRIGGER_MODE_EXACT'', 1),
     (''TRIGGER_MODE_ANY'', 2), (''TRIGGER_MODE_REGEX'', 3)]"

definition triggerModeName :: "trigger_mode \<Rightarrow> string" where
  "triggerModeName mode = enum_word TriggerMode_value ''TRIGGER_MODE_'' mode"

definition parseStatsKind :: "(nat \<Rightarrow> nat) \<Rightarrow> string \<Rightarrow> int \<times> bool" where
  "parseStatsKind sf val =
    (let trimmed = trim_space val in
     if trimmed = [] then (ACTION_TRIGGER_OCCURRED, True)
     else case find (\<lambda>c. EqualFold sf trimmed (sk_word c)) statsKindWords of
         Some c \<Rightarrow> (sk_actionType c, True) | None \<Rightarrow> (ACTION_TRIGGER_OCCURRED, False))"

definition ActionType_value :: "(string \<times> int) list" where
  "ActionType_value = [(''ACTION_TYPE_UNSPECIFIED'', 0), (''ACTION_TYPE_TRIGGER_OCCURRED'', 1),
     (''ACTION_TYPE_TRIGGER_CALLED'', 2), (''ACTION_TYPE_REMINDER_CREATED'', 3), (''ACTION_TYPE_REMINDER_DELIVERED'', 4),
     (''ACTION_TYPE_SQUAD_RALLIED'', 5), (''ACTION_TYPE_SQUAD_FORMED'', 6)]"

definition statsKindLabel :: "int \<Rightarrow> string" where
  "statsKindLabel kind = (case find (\<lambda>c. sk_actionType c = kind) statsKindWords of
     Some c \<Rightarrow> sk_label c | None \<Rightarrow> enum_word ActionType_value ''ACTION_TYPE_'' kind)"

definition currentTriggerInstance :: "command_ctx \<Rightarrow> trigger_instance rpc" where
  "currentTriggerInstance ctx =
    (let refused = (FailedPrecondition, ''triggers belong to a server, so this has to be used in one'') in
     case cc_Origin ctx of
       None \<Rightarrow> Inl refused
     | Some place \<Rightarrow> if co_GuildID place = [] then Inl refused
         else Inr \<lparr>ti_PlatformEnum = Some discord_platform,
           ti_InstanceMeta = Some (InstanceMeta \<lparr>og_InstanceUID = co_GuildID place, og_DestinationUID = co_ChannelID place\<rparr>)\<rparr>)"

definition triggerChance :: "invocation \<Rightarrow> int option rpc" where
  "triggerChance call =
    (if \<not> Has call ''chance'' then Inr None
     else let raw = Inv_Int call ''chance'' in
       if raw < 0 \<or> raw > MaxChance
       then Inl (InvalidArgument, ''chance must be between 0 and '' @ FormatInt MaxChance)
       else Inr (Some (i32 raw)))"

definition clampTriggerLimit :: "invocation \<Rightarrow> int \<Rightarrow> int \<Rightarrow> int" where
  "clampTriggerLimit call defaultLimit maxLimit =
    (if \<not> Has call ''limit'' then defaultLimit
     else let limit = Inv_Int call ''limit'' in
       if limit \<le> 0 then defaultLimit else if limit > maxLimit then maxLimit else limit)"

definition triggerListOffset :: "invocation \<Rightarrow> int" where
  "triggerListOffset call = (let offset = Inv_Int call ''offset'' in if offset > 0 then offset else 0)"

definition invalidModeError :: rpc_error where
  "invalidModeError = (InvalidArgument, ''mode must be one of: '' @ triggerModeNames)"

definition valid_mode :: "(nat \<Rightarrow> nat) \<Rightarrow> invocation \<Rightarrow> trigger_mode rpc" where
  "valid_mode sf call = (case parseTriggerMode sf (Inv_String call ''mode'') of
     (mode, ok) \<Rightarrow> if ok then Inr mode else Inl invalidModeError)"

definition explainRegexRefusal :: "rpc_error \<Rightarrow> trigger_mode \<Rightarrow> rpc_error" where
  "explainRegexRefusal err mode =
    (if mode \<noteq> MODE_REGEX \<or> fst err \<noteq> PermissionDenied then err
     else (FailedPrecondition, ''regex triggers need '' @ regexClearanceRequirement @ '' clearance''))"

text \<open>An error of the call as the two writing commands report it.\<close>

definition explained :: "trigger_mode \<Rightarrow> 'a rpc \<times> 'b \<Rightarrow> 'a rpc \<times> 'b" where
  "explained mode res = (case res of (Inl err, b) \<Rightarrow> (Inl (explainRegexRefusal err mode), b) | _ \<Rightarrow> res)"

section \<open>Writing commands\<close>

definition check_add :: "(nat \<Rightarrow> nat) \<Rightarrow> command_ctx \<Rightarrow> invocation \<Rightarrow> create_trigger_req rpc" where
  "check_add sf ctx call =
    (let phrase = Inv_String call ''phrase'';
         reply = trim_space (Inv_String call ''reply'');
         fileURL = trim_space (Inv_String call ''file'')
     in and_then (guard_that (\<not> (reply = [] \<and> fileURL = []))
          (InvalidArgument, ''a trigger needs either a reply or a file'')) (\<lambda>_.
        and_then (guard_that (\<not> (reply \<noteq> [] \<and> fileURL \<noteq> []))
          (InvalidArgument, ''a trigger answers with a reply or a file, not both'')) (\<lambda>_.
        and_then (valid_mode sf call) (\<lambda>mode.
        and_then (triggerChance call) (\<lambda>chance.
        and_then (currentTriggerInstance ctx) (\<lambda>inst.
          Inr \<lparr>ct_Phrase = Some phrase, ct_Reply = reply, ct_Instances = [inst],
            ct_Chance = (case chance of None \<Rightarrow> 0 | Some c \<Rightarrow> c),
            ct_Mode = (if mode \<noteq> MODE_UNSPECIFIED then Some mode else None), ct_FileUrl = fileURL\<rparr>))))))"

definition addTrigger :: "(nat \<Rightarrow> nat) \<Rightarrow> 'b trigger_client \<Rightarrow> 'b cmd_handler" where
  "addTrigger sf c ctx call b =
    checked (check_add sf ctx call) (\<lambda>req.
      answer_with (\<lambda>(tid, ref). private_reply
          (''Trigger created: '' @ code_of (FormatInt ref) @ '' (id '' @ code_of tid @ '').''))
        (explained (case ct_Mode req of None \<Rightarrow> MODE_UNSPECIFIED | Some m \<Rightarrow> m)
          (tc_Create c (cc_Outgoing ctx) req b))) b"

definition deleteTrigger :: "'b trigger_client \<Rightarrow> 'b cmd_handler" where
  "deleteTrigger c ctx call b =
    (let tid = Inv_String call ''id'' in
     answer_with (\<lambda>_. private_reply (''Trigger '' @ code_of tid @ '' deleted.'')) (tc_Delete c (cc_Outgoing ctx) tid b))"

definition check_modify :: "(nat \<Rightarrow> nat) \<Rightarrow> invocation \<Rightarrow> update_trigger_req rpc" where
  "check_modify sf call =
    and_then (valid_mode sf call) (\<lambda>mode.
    and_then (triggerChance call) (\<lambda>chance.
    let phrase = trim_space (Inv_String call ''phrase''); reply = Inv_String call ''reply'';
        fileURL = trim_space (Inv_String call ''file'');
        req = \<lparr>ut_Id = Some (Inv_String call ''id''),
          ut_Phrase = (if Has call ''phrase'' \<and> phrase \<noteq> [] then Some phrase else None),
          ut_Reply = (if Has call ''reply'' \<and> trim_space reply \<noteq> [] then Some reply else None),
          ut_Chance = chance, ut_Mode = (if mode \<noteq> MODE_UNSPECIFIED then Some mode else None),
          ut_FileUrl = (if Has call ''file'' \<and> fileURL \<noteq> [] then Some fileURL else None)\<rparr>
    in and_then (guard_that (\<not> (ut_Phrase req = None \<and> ut_Reply req = None \<and> ut_FileUrl req = None
            \<and> ut_Chance req = None \<and> ut_Mode req = None))
         (InvalidArgument, ''nothing to change: give at least one of phrase, reply, file, chance or mode''))
       (\<lambda>_. Inr req)))"

definition modifyTrigger :: "(nat \<Rightarrow> nat) \<Rightarrow> 'b trigger_client \<Rightarrow> 'b cmd_handler" where
  "modifyTrigger sf c ctx call b =
    checked (check_modify sf call) (\<lambda>req.
      answer_with (\<lambda>_. private_reply (''Trigger '' @ code_of (Inv_String call ''id'') @ '' updated.''))
        (explained (case ut_Mode req of None \<Rightarrow> MODE_UNSPECIFIED | Some m \<Rightarrow> m)
          (tc_Update c (cc_Outgoing ctx) req b))) b"

section \<open>Playback\<close>

text \<open>
  The messages read until the stream ends: the first description and the content, or the refusal of
  a stream that exceeds the client's own cap.
\<close>

fun read_stream :: "trigger_file option \<Rightarrow> string \<Rightarrow> stream_msg list \<Rightarrow> (trigger_file option \<times> string) rpc" where
  "read_stream filemeta content [] = Inr (filemeta, content)"
| "read_stream filemeta content (StreamMeta f # msgs) =
     read_stream (if filemeta = None then f else filemeta) content msgs"
| "read_stream filemeta content (StreamContent c # msgs) =
     (if length content + length c > maxTriggerFileBytes
      then Inl (Internal, ''trigger file exceeds the maximum size'')
      else read_stream filemeta (content @ c) msgs)"
| "read_stream filemeta content (StreamUnset # msgs) = read_stream filemeta content msgs"

definition triggerFileResponse :: "trigger_file \<Rightarrow> string \<Rightarrow> response" where
  "triggerFileResponse file content =
    (let n1 = pf_Filename file; n2 = (if n1 = [] then pf_FileId file else n1);
         name = (if n2 = [] then unnamedTriggerFileName else n2)
     in empty_response\<lparr>resp_File := Some \<lparr>file_Name = name, file_MIMEType = pf_MimeType file, file_Content = content\<rparr>\<rparr>)"

text \<open>What is played back of a whole stream; \<open>None\<close> is an empty file.\<close>

definition play_file :: "trigger_file \<Rightarrow> stream_msg list \<times> rpc_error option \<Rightarrow> response option rpc" where
  "play_file file stream = (case stream of (msgs, streamErr) \<Rightarrow>
     and_then (read_stream None [] msgs) (\<lambda>(filemeta, content).
       case streamErr of
         Some err \<Rightarrow> Inl err
       | None \<Rightarrow>
           if content = [] then Inr None
           else (case filemeta of
               None \<Rightarrow> Inr (Some (triggerFileResponse file content))
             | Some f \<Rightarrow>
                 if pf_ByteSize f > 0 \<and> int (length content) \<noteq> pf_ByteSize f
                 then Inl (Internal, ''trigger file was incomplete'')
                 else Inr (Some (triggerFileResponse f content)))))"

definition triggerPlaybackResponse ::
  "'b trigger_client \<Rightarrow> command_ctx \<Rightarrow> try_trigger_resp \<Rightarrow> 'b \<Rightarrow> response option rpc \<times> 'b" where
  "triggerPlaybackResponse c ctx resp b = (case rs_Reply resp of
     Some reply \<Rightarrow> (Inr (Some (empty_response\<lparr>resp_Content := reply\<rparr>)), b)
   | None \<Rightarrow> (case rs_File resp of
       None \<Rightarrow> (Inr None, b)
     | Some file \<Rightarrow> (case tc_GetFile c (cc_Outgoing ctx) (pf_FileId file) b of
         (Inl err, b') \<Rightarrow> (Inl err, b')
       | (Inr stream, b') \<Rightarrow> (play_file file stream, b'))))"

definition execTrigger :: "'b trigger_client \<Rightarrow> 'b cmd_handler" where
  "execTrigger c ctx call b =
    checked (currentTriggerInstance ctx) (\<lambda>inst.
      case tc_Exec c (cc_Outgoing ctx) \<lparr>xq_Id = Some (Inv_String call ''id''), xq_Instance = Some inst\<rparr> b of
        (Inl err, b1) \<Rightarrow> (Inl err, b1)
      | (Inr resp, b1) \<Rightarrow> (case triggerPlaybackResponse c ctx resp b1 of
          (Inl err, b2) \<Rightarrow> (Inl err, b2)
        | (Inr None, b2) \<Rightarrow> (Inr (Some (empty_response\<lparr>resp_Content := ''That trigger has nothing to play back.''\<rparr>)), b2)
        | (Inr (Some out), b2) \<Rightarrow> (Inr (Some out), b2))) b"

section \<open>Reading commands\<close>

definition triggerAnswer :: "trigger_msg \<Rightarrow> string \<times> string \<times> bool" where
  "triggerAnswer t =
    (if tm_Reply t \<noteq> [] then (''Reply'', tm_Reply t, False)
     else case tm_File t of Some file \<Rightarrow> (''File'', pf_Filename file, True) | None \<Rightarrow> (''Reply'', [], False))"

definition triggerReplyLine :: "trigger_msg \<Rightarrow> string" where
  "triggerReplyLine t = (case triggerAnswer t of (label, val, isFile) \<Rightarrow>
     label @ '': '' @ (if isFile then codeOrNone (truncateDisplayFilename val maxDisplayFilenameRunes) else orNone val))"

definition triggerStamp :: "instant option \<Rightarrow> string" where
  "triggerStamp stamp = (case stamp of None \<Rightarrow> ''-'' | Some t \<Rightarrow> timestampTag t ''R'')"

definition percent :: "int \<Rightarrow> string" where
  "percent n = FormatInt n @ ''%''"

definition formatTriggerInfo :: "trigger_msg \<Rightarrow> string" where
  "formatTriggerInfo t =
     ''**Trigger** '' @ code_of (FormatInt (tm_Ref t)) @ line_break
   @ ''Id: '' @ code_of (tm_Id t) @ line_break
   @ ''Phrase: '' @ codeOrNone (tm_Phrase t) @ line_break
   @ ''Mode: '' @ triggerModeName (tm_Mode t) @ line_break
   @ ''Chance: '' @ percent (EffectiveChance (tm_Chance t) (tm_Mode t)) @ line_break
   @ triggerReplyLine t @ line_break
   @ ''Created: '' @ triggerStamp (tm_CreatedAt t) @ line_break
   @ ''Updated: '' @ triggerStamp (tm_UpdatedAt t)"

definition renderTriggerLine :: "trigger_msg \<Rightarrow> string" where
  "renderTriggerLine t = (case triggerAnswer t of (label, val, isFile) \<Rightarrow>
     let answer = (if isFile then ''(file) '' @ codeOrNone (truncateDisplayFilename val maxDisplayFilenameRunes)
           else orNone (truncateLineField val maxLineFieldRunes))
     in join triggerSeparator
          [code_of (FormatInt (tm_Ref t)), codeOrNone (truncateLineField (tm_Phrase t) maxLineFieldRunes),
           triggerModeName (tm_Mode t), percent (EffectiveChance (tm_Chance t) (tm_Mode t)), answer])"

definition list_request :: "invocation \<Rightarrow> list_triggers_req" where
  "list_request call =
    \<lparr>tl_Limit = clampTriggerLimit call triggerListDefaultLimit triggerListMaxLimit,
     tl_Offset = triggerListOffset call, tl_Phrase = trim_space (Inv_String call ''search''), tl_Reply = [],
     tl_PeriodStart = None, tl_PeriodEnd = None, tl_Mode = None, tl_Mine = (\<not> Inv_Bool call ''all'')\<rparr>"

definition render_triggers :: "trigger_msg list \<Rightarrow> response" where
  "render_triggers ts =
    (if ts = [] then private_reply ''No triggers found.''
     else (private_reply (''**Triggers**'' @ line_break @ concat (map (\<lambda>t. renderTriggerLine t @ line_break) ts)))
       \<lparr>resp_DirectWhenLong := True\<rparr>)"

definition listTriggers :: "'b trigger_client \<Rightarrow> 'b cmd_handler" where
  "listTriggers c ctx call b = answer_with render_triggers (tc_List c (cc_Outgoing ctx) (list_request call) b)"

definition triggerInfo :: "'b trigger_client \<Rightarrow> 'b cmd_handler" where
  "triggerInfo c ctx call b =
    answer_with (\<lambda>t. private_reply (formatTriggerInfo t)) (tc_Get c (cc_Outgoing ctx) (Inv_String call ''id'') b)"

fun stat_lines :: "int \<Rightarrow> trigger_stat_row list \<Rightarrow> string" where
  "stat_lines i [] = []"
| "stat_lines i (s # ss) =
     FormatInt i @ ''. '' @ join triggerSeparator
       [codeOrNone (ts_Phrase s), FormatInt (ts_Count s), percent (EffectiveChance (ts_Chance s) (ts_Mode s))]
     @ line_break @ stat_lines (i + 1) ss"

text \<open>\<open>strings.TrimRight\<close> of line breaks.\<close>

definition trim_breaks :: "string \<Rightarrow> string" where
  "trim_breaks s = rev (dropWhile (\<lambda>ch. ch = CHR 0x0A) (rev s))"

definition formatTriggerStats :: "trigger_stat_row list \<Rightarrow> int \<Rightarrow> string" where
  "formatTriggerStats stats kind =
    (let label = statsKindLabel kind in
     if stats = [] then ''No '' @ label @ '' recorded yet.''
     else trim_breaks (''**Top triggers by '' @ label @ ''**'' @ line_break @ stat_lines 1 stats))"

definition check_stats :: "(nat \<Rightarrow> nat) \<Rightarrow> command_ctx \<Rightarrow> invocation \<Rightarrow> (int \<times> trigger_stats_req) rpc" where
  "check_stats sf ctx call =
    (case parseStatsKind sf (Inv_String call ''kind'') of (kind, ok) \<Rightarrow>
     and_then (guard_that ok (InvalidArgument, ''kind must be one of: '' @ statsKindNames)) (\<lambda>_.
     and_then (currentTriggerInstance ctx) (\<lambda>inst.
       Inr (kind, \<lparr>sq_Instance = Some inst, sq_ActionType = Some kind,
         sq_Limit = clampTriggerLimit call triggerStatsDefaultLimit triggerStatsMaxLimit,
         sq_PeriodStart = None, sq_PeriodEnd = None\<rparr>))))"

definition triggerStats :: "(nat \<Rightarrow> nat) \<Rightarrow> 'b trigger_client \<Rightarrow> 'b cmd_handler" where
  "triggerStats sf c ctx call b =
    checked (check_stats sf ctx call) (\<lambda>(kind, req).
      answer_with (\<lambda>stats. private_reply (formatTriggerStats stats kind)) (tc_Stats c (cc_Outgoing ctx) req b)) b"

section \<open>What is played back\<close>

text \<open>A chunk of the server's stream as the client reads it.\<close>

fun received :: "file_chunk \<Rightarrow> stream_msg" where
  "received (ChunkMeta f) = StreamMeta (Some f)"
| "received (ChunkContent c) = StreamContent c"

lemma read_stream_received:
  "length content + length (content_of cs) \<le> maxTriggerFileBytes \<Longrightarrow>
     read_stream (Some f) content (map received cs) = Inr (Some f, content @ content_of cs)"
proof (induction cs arbitrary: content)
  case (Cons c cs)
  then show ?case by (cases c) auto
qed simp

lemma read_stream_server:
  assumes "got = ChunkMeta f # rest" and "int (length (content_of got)) \<le> MaxFileBytes"
  shows "read_stream None [] (map received got) = Inr (Some f, content_of got)"
  using assms read_stream_received [of "[]" rest f] by (simp add: maxTriggerFileBytes_def MaxFileBytes_def)

lemma content_of_prefix: "prefix cs ds \<Longrightarrow> prefix (content_of cs) (content_of ds)"
  by (auto simp: prefix_def)

definition stored_blob :: "'p trigger_state \<Rightarrow> string \<Rightarrow> file_row \<Rightarrow> string \<Rightarrow> bool" where
  "stored_blob st fid f blob \<longleftrightarrow> GetFile (st_DB st) fid = Some f
     \<and> (case st_Blobs st of None \<Rightarrow> False | Some blobs \<Rightarrow> blobs (f_Path f) = Some blob)"

lemma file_to_stream_stored:
  "file_to_stream e st (Some fid) = Inr (f, blob) \<Longrightarrow> stored_blob st fid f blob"
  by (auto simp: stored_blob_def file_to_stream_def Let_def split: option.splits if_splits)

lemma play_server_stream:
  assumes "got = ChunkMeta (file_ToProto f name) # rest" and "prefix (content_of got) blob"
    and "int (length (content_of got)) \<le> MaxFileBytes" and "f_ByteSize f = int (length blob)"
  shows "play_file file (map received got, streamErr) = (case streamErr of Some err \<Rightarrow> Inl err
     | None \<Rightarrow> if content_of got = [] then Inr None
         else if content_of got = blob then Inr (Some (triggerFileResponse (file_ToProto f name) blob))
         else Inl (Internal, ''trigger file was incomplete''))"
proof -
  from assms(2) obtain more where more: "blob = content_of got @ more" by (auto simp: prefix_def)
  show ?thesis
  proof (cases streamErr)
    case None
    with read_stream_server [OF assms(1,3)] assms(4) more show ?thesis
      by (cases "content_of got") (simp_all add: play_file_def file_ToProto_def)
  qed (simp add: play_file_def read_stream_server [OF assms(1,3)])
qed

text \<open>
  C10: A fired file is played back exactly: whatever part of the server's stream the network
  delivers, also when it then ends cleanly, the message posted carries the stored blob whole under
  the row's media type, or no file at all; a stream delivered in full is posted unless it is empty.
\<close>

theorem playback_exact:
  assumes "TriggerServer_GetFile sendFails cancelled reader e st (Some (pf_FileId file)) = (res, sent)"
    and "\<And>blob. reads_whole (reader blob) blob"
    and "\<And>f blob. stored_blob st (pf_FileId file) f blob \<Longrightarrow> f_ByteSize f = int (length blob)"
    and "prefix got sent"
    and "tc_GetFile c (cc_Outgoing ctx) (pf_FileId file) b = (Inr (map received got, streamErr), b')"
    and "rs_Reply resp = None" and "rs_File resp = Some file"
  shows "\<exists>r. triggerPlaybackResponse c ctx resp b = (r, b')
    \<and> (\<forall>out. r = Inr (Some out) \<longrightarrow> (\<exists>f blob name. stored_blob st (pf_FileId file) f blob \<and> length blob \<le> 8388608
         \<and> resp_File out = Some \<lparr>file_Name = name, file_MIMEType = f_MimeType f, file_Content = blob\<rparr> \<and> name \<noteq> []))
    \<and> (res = Some (Inr ()) \<and> got = sent \<and> streamErr = None \<longrightarrow> (\<exists>f blob. stored_blob st (pf_FileId file) f blob
         \<and> (blob \<noteq> [] \<longrightarrow> (\<exists>out. r = Inr (Some out)))))"
proof -
  let ?r = "play_file file (map received got, streamErr)"
  have run: "triggerPlaybackResponse c ctx resp b = (?r, b')"
    using assms(5-7) by (simp add: triggerPlaybackResponse_def)
  have none: "\<not> (\<exists>out. play_file file (map received [], streamErr) = Inr (Some out))"
    by (cases streamErr) (simp_all add: play_file_def)
  show ?thesis
  proof (cases "file_to_stream e st (Some (pf_FileId file))")
    case (Inl err)
    with assms(1,4) have "got = []" "res \<noteq> Some (Inr ())" by (auto simp: TriggerServer_GetFile_def)
    with run none show ?thesis by auto
  next
    case (Inr fb)
    obtain f blob where fb: "fb = (f, blob)" by fastforce
    have stored: "stored_blob st (pf_FileId file) f blob" using Inr fb by (simp add: file_to_stream_stored)
    have "stream_file sendFails cancelled reader f blob = (res, sent)"
      using assms(1) Inr fb by (simp add: TriggerServer_GetFile_def)
    note shape = stream_file_shape [OF this assms(2)]
    show ?thesis
    proof (cases "got = []")
      case True
      with run none shape stored show ?thesis by auto
    next
      case False
      with assms(4) have "sent \<noteq> []" by auto
      with shape obtain rest where sent: "sent = ChunkMeta (file_ToProto f (displayFilename f)) # rest"
        "prefix (content_of sent) blob" "int (length (content_of sent)) \<le> MaxFileBytes"
        "res = Some (Inr ()) \<longrightarrow> content_of sent = blob" by blast
      obtain rest' where got: "got = ChunkMeta (file_ToProto f (displayFilename f)) # rest'"
        using False assms(4) sent(1) by (cases got) auto
      have pre: "prefix (content_of got) (content_of sent)" using assms(4) by (rule content_of_prefix)
      have len: "int (length (content_of got)) \<le> MaxFileBytes"
        using prefix_length_le [OF pre] sent(3) by linarith
      note play = play_server_stream [of _ _ _ _ _ "file" streamErr,
          OF got prefix_order.trans [OF pre sent(2)] len assms(3) [OF stored]]
      have "?r = Inr (Some out) \<Longrightarrow> out = triggerFileResponse (file_ToProto f (displayFilename f)) blob
          \<and> content_of got = blob" for out
        using play by (simp split: option.splits if_splits)
      moreover have "res = Some (Inr ()) \<Longrightarrow> got = sent \<Longrightarrow> streamErr = None \<Longrightarrow> blob \<noteq> [] \<Longrightarrow> \<exists>out. ?r = Inr (Some out)"
        using play sent(4) by simp
      ultimately show ?thesis using run stored len
        by (intro exI [of _ ?r]) (auto simp: triggerFileResponse_def file_ToProto_def Let_def unnamedTriggerFileName_def
            MaxFileBytes_def)
    qed
  qed
qed

definition no_answer :: "'q \<Rightarrow> 'r \<Rightarrow> 'b \<Rightarrow> 'a rpc \<times> 'b" where
  "no_answer q r b = (Inl (Unavailable, ''no server''), b)"

definition example_client :: "unit trigger_client" where
  "example_client = \<lparr>tc_Create = no_answer, tc_Update = no_answer, tc_Delete = no_answer, tc_List = no_answer,
     tc_Get = no_answer, tc_Stats = no_answer, tc_Exec = no_answer, tc_Try = no_answer,
     tc_GetFile = (\<lambda>q fid b. (Inr (map received (snd example_stream), None), b))\<rparr>"

definition example_fire :: try_trigger_resp where
  "example_fire = \<lparr>rs_Id = Some ''t1'', rs_Reply = None,
     rs_File = Some \<lparr>pf_FileId = ''f1'', pf_Filename = [], pf_MimeType = [], pf_ByteSize = 0\<rparr>\<rparr>"

lemma example_stored:
  "GetFile example_media ''f1'' = Some example_file" "example_blobs (f_Path example_file) = Some ''png''"
  "f_ByteSize example_file = 3" "f_MimeType example_file = ''image/png''" "fst example_stream = Some (Inr ())"
  by code_simp+

theorem playback_exact_witness:
  "\<exists>out name. triggerPlaybackResponse example_client background_ctx example_fire () = (Inr (Some out), ())
     \<and> resp_File out = Some \<lparr>file_Name = name, file_MIMEType = ''image/png'', file_Content = ''png''\<rparr> \<and> name \<noteq> []"
proof -
  let ?st = "\<lparr>st_DB = example_media, st_Cache = (Map.empty :: unit candidate list cache), st_Limiter = Map.empty,
       st_Blobs = Some example_blobs\<rparr>"
  let ?file = "\<lparr>pf_FileId = ''f1'', pf_Filename = [], pf_MimeType = [], pf_ByteSize = 0\<rparr>"
  obtain res sent where run: "example_stream = (res, sent)" by fastforce
  have ok: "res = Some (Inr ())"
    using run by (metis fst_conv example_stored(5))
  have server: "TriggerServer_GetFile (\<lambda>_. False) (\<lambda>_. False) (\<lambda>blob. [(blob, ReadEOF)]) example_env ?st
      (Some (pf_FileId ?file)) = (res, sent)" using run by (simp add: example_stream_def)
  have stored: "stored_blob ?st ''f1'' f blob \<longleftrightarrow> f = example_file \<and> blob = ''png''" for f blob
    using example_stored(1,2) by (auto simp: stored_blob_def)
  have reads: "reads_whole [(blob, ReadEOF)] blob" for blob by (simp add: reads_whole_def)
  have sizes: "f_ByteSize f = int (length blob)" if "stored_blob ?st (pf_FileId ?file) f blob" for f blob
    using that stored [of f blob] example_stored(3) by simp
  have net: "tc_GetFile example_client (cc_Outgoing background_ctx) (pf_FileId ?file) () = (Inr (map received sent, None), ())"
    by (simp add: example_client_def run)
  have fire: "rs_Reply example_fire = None" "rs_File example_fire = Some ?file" by (simp_all add: example_fire_def)
  obtain r where r: "triggerPlaybackResponse example_client background_ctx example_fire () = (r, ())"
    "\<forall>out. r = Inr (Some out) \<longrightarrow> (\<exists>f blob name. stored_blob ?st (pf_FileId ?file) f blob \<and> length blob \<le> 8388608
       \<and> resp_File out = Some \<lparr>file_Name = name, file_MIMEType = f_MimeType f, file_Content = blob\<rparr> \<and> name \<noteq> [])"
    "\<exists>f blob. stored_blob ?st (pf_FileId ?file) f blob \<and> (blob \<noteq> [] \<longrightarrow> (\<exists>out. r = Inr (Some out)))"
    using playback_exact [OF server reads sizes prefix_order.refl net fire] ok by blast
  then obtain out where out: "r = Inr (Some out)" using stored by auto
  with r(2) stored example_stored(4) have "\<exists>name. resp_File out = Some \<lparr>file_Name = name, file_MIMEType = ''image/png'',
      file_Content = ''png''\<rparr> \<and> name \<noteq> []" by auto
  with r(1) out show ?thesis by blast
qed

section \<open>What a modification changes\<close>

definition given :: "invocation \<Rightarrow> string \<Rightarrow> bool" where
  "given call name \<longleftrightarrow> Has call name \<and> trim_space (Inv_String call name) \<noteq> []"

text \<open>The reference: the fields the caller named, and no other; \<open>fileID\<close> is the fetched file's row.\<close>

definition edited :: "(nat \<Rightarrow> nat) \<Rightarrow> invocation \<Rightarrow> string \<Rightarrow> trigger_row \<Rightarrow> trigger_row" where
  "edited sf call fileID r =
    (let mode = fst (parseTriggerMode sf (Inv_String call ''mode'')) in
     r\<lparr>t_Phrase := (if given call ''phrase'' then trim_space (Inv_String call ''phrase'') else t_Phrase r),
       t_Reply := (if given call ''reply'' then Some (Inv_String call ''reply'') else t_Reply r),
       t_FileID := (if given call ''file'' then nullStr fileID else t_FileID r),
       t_Chance := (if Has call ''chance'' then Inv_Int call ''chance'' else t_Chance r),
       t_Mode := (if mode \<noteq> MODE_UNSPECIFIED then mode else t_Mode r)\<rparr>)"

definition edits :: "(nat \<Rightarrow> nat) \<Rightarrow> invocation \<Rightarrow> bool" where
  "edits sf call \<longleftrightarrow> given call ''phrase'' \<or> given call ''reply'' \<or> given call ''file'' \<or> Has call ''chance''
     \<or> fst (parseTriggerMode sf (Inv_String call ''mode'')) \<noteq> MODE_UNSPECIFIED"

lemma triggerChance_Inr:
  "triggerChance call = Inr ch \<Longrightarrow> ch = (if Has call ''chance'' then Some (Inv_Int call ''chance'') else None)
     \<and> (\<forall>c. ch = Some c \<longrightarrow> 0 \<le> c \<and> c \<le> 100)"
  by (auto simp: triggerChance_def Let_def MaxChance_def i32_id split: if_splits)

lemma check_modify_Inr:
  assumes "check_modify sf call = Inr req"
  shows "edits sf call"
    and "req = \<lparr>ut_Id = Some (Inv_String call ''id''),
       ut_Phrase = (if given call ''phrase'' then Some (trim_space (Inv_String call ''phrase'')) else None),
       ut_Reply = (if given call ''reply'' then Some (Inv_String call ''reply'') else None),
       ut_Chance = (if Has call ''chance'' then Some (Inv_Int call ''chance'') else None),
       ut_Mode = (let mode = fst (parseTriggerMode sf (Inv_String call ''mode'')) in
          if mode \<noteq> MODE_UNSPECIFIED then Some mode else None),
       ut_FileUrl = (if given call ''file'' then Some (trim_space (Inv_String call ''file'')) else None)\<rparr>"
  using assms by (auto simp: check_modify_def edits_def given_def valid_mode_def Let_def
      dest!: triggerChance_Inr split: if_splits prod.splits)

lemma update_checks_Inr:
  assumes "update_checks w e s req = Inr u" and "ut_Id req = Some raw"
  shows "\<exists>caller. resolved_caller e = Inr caller \<and> resolveTriggerID e s raw = Inr (tu_ID u) \<and> tu_UserID u = us_ID caller"
    and "\<not> tu_UpdateFile u"
    and "patched u r = r\<lparr>t_Phrase := (case ut_Phrase req of None \<Rightarrow> t_Phrase r | Some x \<Rightarrow> x),
       t_Reply := (case ut_Reply req of None \<Rightarrow> t_Reply r | Some x \<Rightarrow> nullStr x),
       t_Chance := (case ut_Chance req of None \<Rightarrow> t_Chance r | Some x \<Rightarrow> x),
       t_Mode := (case ut_Mode req of None \<Rightarrow> t_Mode r | Some m \<Rightarrow> if m = MODE_UNSPECIFIED then MODE_ANY else m)\<rparr>"
proof -
  from assms obtain caller tid current where c: "resolved_caller e = Inr caller" "resolveTriggerID e s raw = Inr tid"
    "check_update w caller tid current req = Inr u"
    by (auto simp: update_checks_def owned_trigger_def trigger_id_required_def split: if_splits)
  from c(3) have u: "u = \<lparr>tu_ID = tid, tu_UserID = us_ID caller,
            tu_UpdatePhrase = (ut_Phrase req \<noteq> None), tu_Phrase = get_opt (ut_Phrase req),
            tu_UpdateReply = (ut_Reply req \<noteq> None), tu_Reply = get_opt (ut_Reply req),
            tu_UpdateFile = False, tu_FileID = [],
            tu_UpdateChance = (ut_Chance req \<noteq> None),
            tu_Chance = (case ut_Chance req of None \<Rightarrow> 0 | Some c \<Rightarrow> c),
            tu_UpdateMode = (ut_Mode req \<noteq> None),
            tu_Mode = (case ut_Mode req of None \<Rightarrow> 0 | Some m \<Rightarrow> if m = MODE_UNSPECIFIED then MODE_ANY else m)\<rparr>"
    by (auto simp: check_update_def Let_def split: if_splits option.splits)
  from c u show "\<exists>caller. resolved_caller e = Inr caller \<and> resolveTriggerID e s raw = Inr (tu_ID u) \<and> tu_UserID u = us_ID caller"
    by simp
  from u show "\<not> tu_UpdateFile u" by simp
  from u show "patched u r = r\<lparr>t_Phrase := (case ut_Phrase req of None \<Rightarrow> t_Phrase r | Some x \<Rightarrow> x),
       t_Reply := (case ut_Reply req of None \<Rightarrow> t_Reply r | Some x \<Rightarrow> nullStr x),
       t_Chance := (case ut_Chance req of None \<Rightarrow> t_Chance r | Some x \<Rightarrow> x),
       t_Mode := (case ut_Mode req of None \<Rightarrow> t_Mode r | Some m \<Rightarrow> if m = MODE_UNSPECIFIED then MODE_ANY else m)\<rparr>"
    by (simp add: patched_def get_opt_def split: option.splits)
qed

lemma update_in_store_rows:
  assumes "update_in_store w e u st = (res, st')"
  shows "triggers (st_DB st') = (if isl res then triggers (st_DB st)
     else map (\<lambda>r. if own_trigger (tu_ID u) (tu_UserID u) r then patched u r else r) (triggers (st_DB st)))"
  using assms
  by (auto simp: update_in_store_def checked_def scope_of_def UpdateTriggerByUser_def invalidate_each_def
      split: if_splits option.splits)

lemma nullStr_given [simp]: "trim_space s \<noteq> [] \<Longrightarrow> nullStr s = Some s"
  by (cases s) (auto simp: nullStr_def trim_space_def chunks.simps)


definition updating_client :: "string trigger_state trigger_client" where
  "updating_client = \<lparr>tc_Create = no_answer, tc_Update = (\<lambda>q. TriggerServer_UpdateTrigger example_engine example_env),
     tc_Delete = no_answer, tc_List = no_answer, tc_Get = no_answer, tc_Stats = no_answer, tc_Exec = no_answer,
     tc_Try = no_answer, tc_GetFile = no_answer\<rparr>"

definition example_edit :: invocation where
  "example_edit = \<lparr>inv_Args = [''id'' \<mapsto> VString ''1'', ''chance'' \<mapsto> VInt64 25], inv_specs = Map.empty\<rparr>"


text \<open>
  A file given to a trigger that answers with text is stored and reported as updated, but never
  plays: the text still comes first. (\<open>addTrigger\<close> refuses the combination for that reason.)
\<close>

lemma edited_file_never_plays:
  assumes "GetTrigger s tid = Some (edited sf call fileID r)" and "t_Reply r = Some reply" and "reply \<noteq> []"
    and "\<not> given call ''reply''" and "\<not> te_Down e StmtGet"
  shows "buildTryTriggerResp e s tid = Inr \<lparr>rs_Id = Some (t_ID r), rs_Reply = Some reply, rs_File = None\<rparr>"
  using assms by (simp add: buildTryTriggerResp_def edited_def Let_def get_opt_def)

section \<open>Requests the server accepts\<close>

text \<open>
  What \<open>/triggeradd\<close> sends passes every check of the server that does not depend on its data: one of
  reply and file, a chance in range, a declared mode, and the instance the call's header names.
\<close>

lemma parseTriggerMode_modes: "fst (parseTriggerMode sf v) \<in> {0, 1, 2, 3}"
  by (auto simp: parseTriggerMode_def Let_def triggerModeWords_def mode_defs dest: find_SomeD split: option.splits)

lemma add_request_shape:
  assumes "check_add sf ctx call = Inr req"
  shows "(ct_Reply req = []) \<noteq> (ct_FileUrl req = []) \<and> 0 \<le> ct_Chance req \<and> ct_Chance req \<le> 100
    \<and> (\<forall>m. ct_Mode req = Some m \<longrightarrow> m \<in> {1, 2, 3})
    \<and> (\<exists>place. cc_Origin ctx = Some place \<and> co_GuildID place \<noteq> []
        \<and> ct_Instances req = [\<lparr>ti_PlatformEnum = Some 1, ti_InstanceMeta = Some [(FieldInstanceUID, co_GuildID place)]\<rparr>])"
  using assms parseTriggerMode_modes [of sf "Inv_String call ''mode''"]
  by (auto simp: check_add_def Let_def valid_mode_def currentTriggerInstance_def discord_platform_def InstanceMeta_def
      mode_defs dest!: triggerChance_Inr split: prod.splits if_splits option.splits)

lemma limits_clamped:
  "1 \<le> tl_Limit (list_request call) \<and> tl_Limit (list_request call) \<le> 100 \<and> 0 \<le> tl_Offset (list_request call)"
  "check_stats sf ctx call = Inr (kind, q) \<Longrightarrow> 1 \<le> sq_Limit q \<and> sq_Limit q \<le> 25 \<and> sq_ActionType q = Some kind \<and> kind \<in> {1, 2}"
  by (auto simp: list_request_def clampTriggerLimit_def triggerListOffset_def Let_def check_stats_def
      triggerListDefaultLimit_def triggerListMaxLimit_def triggerStatsDefaultLimit_def triggerStatsMaxLimit_def
      parseStatsKind_def ACTION_TRIGGER_OCCURRED_def statsKindWords_def split: prod.splits if_splits option.splits dest!: find_SomeD)

end
