(* ===== verification/CommandParse.thy ===== *)
theory CommandParse
  imports CommandRegistry
begin

text \<open>
  Chat parsing and argument binding (\<open>pkg/command/parse.go\<close>): the longest matching prefix,
  the tokeniser with its double quotes, and the binding of positional or named values to a
  command's declared arguments. \<open>range\<close> over a string decodes UTF-8; \<open>WriteRune\<close> encodes.
\<close>

section \<open>Prefixes\<close>

definition matchPrefix :: "string \<Rightarrow> string list \<Rightarrow> string \<times> bool" where
  "matchPrefix content pfxs =
    (let longest = foldl (\<lambda>longest p.
        if p = [] \<or> length p \<le> length longest then longest
        else if prefix p content then p
        else longest) [] pfxs
     in (longest, longest \<noteq> []))"

definition HasPrefix :: "string \<Rightarrow> string list \<Rightarrow> bool" where
  "HasPrefix content pfxs = snd (matchPrefix content pfxs)"

section \<open>Tokens\<close>

text \<open>The tokens so far, the one being built, whether quotes are open and whether it has begun.\<close>

fun tokenize_loop :: "string list \<Rightarrow> string \<Rightarrow> bool \<Rightarrow> bool \<Rightarrow> nat list \<Rightarrow> string list" where
  "tokenize_loop tokens current inQuotes started [] =
     (if started then tokens @ [current] else tokens)"
| "tokenize_loop tokens current inQuotes started (r # rs) =
    (if r = 34 then tokenize_loop tokens current (\<not> inQuotes) True rs
     else if \<not> inQuotes \<and> is_space r then
       (if started then tokenize_loop (tokens @ [current]) [] inQuotes False rs
        else tokenize_loop tokens current inQuotes started rs)
     else tokenize_loop tokens (current @ encode_rune r) inQuotes True rs)"

definition tokenize :: "string \<Rightarrow> string list" where
  "tokenize line = tokenize_loop [] [] False False (map fst (chunks line))"

definition ParseChat :: "string \<Rightarrow> string list \<Rightarrow> (string \<times> string list) option" where
  "ParseChat content pfxs =
    (let (p, found) = matchPrefix content pfxs in
     if \<not> found then None
     else case tokenize (drop (length p) content) of
       [] \<Rightarrow> None
     | t # ts \<Rightarrow> if t = [] then None else Some (t, ts))"

section \<open>Binding\<close>

text \<open>\<open>strconv.ParseBool\<close>.\<close>

definition ParseBool :: "string \<Rightarrow> bool option" where
  "ParseBool s =
    (if s \<in> {''1'', ''t'', ''T'', ''TRUE'', ''true'', ''True''} then Some True
     else if s \<in> {''0'', ''f'', ''F'', ''FALSE'', ''false'', ''False''} then Some False
     else None)"

text \<open>The command and argument of a refused value; all but an unknown type are InvalidArgument.\<close>

datatype bind_error =
    ArgRequired string string | NotWholeNumber string string string | NotTrueFalse string string string
  | UnknownType string string | WrongType string string

fun bind_code :: "bind_error \<Rightarrow> code" where
  "bind_code (UnknownType _ _) = Internal"
| "bind_code _ = InvalidArgument"

definition parseArg :: "'h command \<Rightarrow> arg \<Rightarrow> string \<Rightarrow> bind_error + anyval" where
  "parseArg cmd a raw =
    (if arg_Type a = ArgString then Inr (VString raw)
     else if arg_Type a = ArgInt then
       (case ParseInt raw of None \<Rightarrow> Inl (NotWholeNumber (cmd_Name cmd) (arg_Name a) raw)
        | Some n \<Rightarrow> Inr (VInt64 n))
     else if arg_Type a = ArgBool then
       (case ParseBool raw of None \<Rightarrow> Inl (NotTrueFalse (cmd_Name cmd) (arg_Name a) raw)
        | Some b \<Rightarrow> Inr (VBool b))
     else Inl (UnknownType (cmd_Name cmd) (arg_Name a)))"

definition coerceArg :: "'h command \<Rightarrow> arg \<Rightarrow> anyval \<Rightarrow> bind_error + anyval" where
  "coerceArg cmd a v =
    (if arg_Type a = ArgString then
       (case v of VString s \<Rightarrow> Inr (VString s) | _ \<Rightarrow> Inl (WrongType (cmd_Name cmd) (arg_Name a)))
     else if arg_Type a = ArgInt then
       (case toInt64 (Some v) of Some n \<Rightarrow> Inr (VInt64 n)
        | None \<Rightarrow> Inl (WrongType (cmd_Name cmd) (arg_Name a)))
     else if arg_Type a = ArgBool then
       (case v of VBool b \<Rightarrow> Inr (VBool b) | _ \<Rightarrow> Inl (WrongType (cmd_Name cmd) (arg_Name a)))
     else Inl (UnknownType (cmd_Name cmd) (arg_Name a)))"

fun bind_named_loop ::
  "'h command \<Rightarrow> (string \<rightharpoonup> anyval) \<Rightarrow> invocation \<Rightarrow> arg list \<Rightarrow> bind_error + invocation" where
  "bind_named_loop cmd args call [] = Inr call"
| "bind_named_loop cmd args call (a # as) =
    (let call' = call\<lparr>inv_specs := (inv_specs call)(arg_Name a \<mapsto> a)\<rparr> in
     case args (arg_Name a) of
       None \<Rightarrow> if arg_Required a then Inl (ArgRequired (cmd_Name cmd) (arg_Name a))
               else bind_named_loop cmd args call' as
     | Some v \<Rightarrow> and_then (coerceArg cmd a v) (\<lambda>typed.
         bind_named_loop cmd args (call'\<lparr>inv_Args := (inv_Args call')(arg_Name a \<mapsto> typed)\<rparr>) as))"

definition BindNamed :: "'h command \<Rightarrow> (string \<rightharpoonup> anyval) \<Rightarrow> bind_error + invocation" where
  "BindNamed cmd args =
     bind_named_loop cmd args \<lparr>inv_Args = Map.empty, inv_specs = Map.empty\<rparr> (cmd_Args cmd)"

fun bind_loop ::
  "'h command \<Rightarrow> (string \<rightharpoonup> anyval) \<Rightarrow> arg list \<Rightarrow> string list \<Rightarrow> bind_error + (string \<rightharpoonup> anyval)" where
  "bind_loop cmd supplied (a # as) (raw # raws) =
     and_then (parseArg cmd a raw) (\<lambda>v. bind_loop cmd (supplied(arg_Name a \<mapsto> v)) as raws)"
| "bind_loop cmd supplied _ _ = Inr supplied"

definition Bind :: "'h command \<Rightarrow> string list \<Rightarrow> bind_error + invocation" where
  "Bind cmd raw = and_then (bind_loop cmd Map.empty (cmd_Args cmd) raw) (BindNamed cmd)"

section \<open>The longest prefix wins\<close>

lemma matchPrefix_loop:
  fixes content :: string
  defines "step \<equiv> \<lambda>longest p. if p = [] \<or> length p \<le> length longest then longest
        else if prefix p content then p else longest"
  shows "prefix l content \<Longrightarrow>
     prefix (foldl step l ps) content \<and> (foldl step l ps = l \<or> foldl step l ps \<in> set ps)
     \<and> length l \<le> length (foldl step l ps)
     \<and> (\<forall>p \<in> set ps. prefix p content \<longrightarrow> length p \<le> length (foldl step l ps))"
proof (induction ps arbitrary: l)
  case (Cons p ps)
  have "prefix (step l p) content \<and> length l \<le> length (step l p) \<and> (step l p = l \<or> step l p = p)
      \<and> (prefix p content \<longrightarrow> length p \<le> length (step l p))"
    using Cons.prems by (auto simp: step_def)
  with Cons.IH [of "step l p"] show ?case by auto
qed simp

lemma matchPrefix_found:
  assumes "matchPrefix content pfxs = (p, True)"
  shows "p \<in> set pfxs \<and> p \<noteq> [] \<and> prefix p content
    \<and> (\<forall>p' \<in> set pfxs. prefix p' content \<longrightarrow> length p' \<le> length p)"
  using assms matchPrefix_loop [of "[]" content pfxs] by (auto simp: matchPrefix_def Let_def)

text \<open>
  A message is a command exactly when it starts with a non-empty configured prefix, and the
  prefix that is cut off is the longest of those that match.
\<close>

theorem matchPrefix_longest:
  "case matchPrefix content pfxs of (p, found) \<Rightarrow>
     (if found then p \<in> set pfxs \<and> p \<noteq> [] \<and> prefix p content
        \<and> filter (\<lambda>p'. prefix p' content \<and> length p < length p') pfxs = []
      else filter (\<lambda>p'. p' \<noteq> [] \<and> prefix p' content) pfxs = [])"
proof (cases "snd (matchPrefix content pfxs)")
  case True
  then have "matchPrefix content pfxs = (fst (matchPrefix content pfxs), True)"
    by (metis prod.collapse)
  from matchPrefix_found [OF this] True show ?thesis
    by (auto simp: split_beta filter_empty_conv not_less)
next
  case False
  then show ?thesis
    using matchPrefix_loop [of "[]" content pfxs]
    by (auto simp: matchPrefix_def Let_def filter_empty_conv)
qed

section \<open>Bound arguments are typed\<close>

definition has_type :: "int \<Rightarrow> anyval \<Rightarrow> bool" where
  "has_type ty v \<longleftrightarrow>
     (case v of VString _ \<Rightarrow> ty = ArgString | VInt64 _ \<Rightarrow> ty = ArgInt | VBool _ \<Rightarrow> ty = ArgBool | _ \<Rightarrow> False)"

lemma coerceArg_typed: "coerceArg cmd a v = Inr w \<Longrightarrow> has_type (arg_Type a) w"
  by (auto simp: coerceArg_def has_type_def arg_types split: if_splits anyval.splits option.splits)

lemma bind_named_loop_spec:
  "bind_named_loop cmd args call as = Inr call' \<Longrightarrow> distinct (map arg_Name as) \<Longrightarrow>
     (\<forall>a \<in> set as. inv_specs call' (arg_Name a) = Some a
        \<and> (args (arg_Name a) = None \<longrightarrow> \<not> arg_Required a \<and> inv_Args call' (arg_Name a) = inv_Args call (arg_Name a))
        \<and> (\<forall>v. args (arg_Name a) = Some v \<longrightarrow>
             (\<exists>w. inv_Args call' (arg_Name a) = Some w \<and> coerceArg cmd a v = Inr w)))
     \<and> (\<forall>n. n \<notin> arg_Name ` set as \<longrightarrow> inv_Args call' n = inv_Args call n \<and> inv_specs call' n = inv_specs call n)"
proof (induction as arbitrary: call)
  case (Cons a as)
  show ?case
  proof (cases "args (arg_Name a)")
    case None
    with Cons show ?thesis by (auto simp: Let_def split: if_splits)
  next
    case (Some v)
    with Cons.prems obtain w where w: "coerceArg cmd a v = Inr w"
      and rest: "bind_named_loop cmd args (call\<lparr>inv_specs := (inv_specs call)(arg_Name a \<mapsto> a),
          inv_Args := (inv_Args call)(arg_Name a \<mapsto> w)\<rparr>) as = Inr call'"
      by (auto simp: Let_def)
    from Cons.IH [OF rest] Cons.prems(2) w Some show ?thesis by auto
  qed
qed simp

text \<open>
  C40: A handler gets what its command declares: when binding succeeds, every required argument
  is present, an argument is present exactly when it was supplied, its value has the declared
  type, and nothing undeclared is present.
\<close>

theorem BindNamed_typed:
  assumes "BindNamed cmd args = Inr call" and "distinct (map arg_Name (cmd_Args cmd))"
    and "a \<in> set (cmd_Args cmd)"
  shows "(arg_Required a \<longrightarrow> Has call (arg_Name a))
    \<and> (Has call (arg_Name a) \<longleftrightarrow> args (arg_Name a) \<noteq> None)
    \<and> (\<forall>v. inv_Args call (arg_Name a) = Some v \<longrightarrow> has_type (arg_Type a) v)
    \<and> inv_specs call (arg_Name a) = Some a
    \<and> dom (inv_Args call) \<subseteq> arg_Name ` set (cmd_Args cmd)"
proof -
  have spec: "bind_named_loop cmd args \<lparr>inv_Args = Map.empty, inv_specs = Map.empty\<rparr> (cmd_Args cmd) = Inr call"
    using assms(1) by (simp add: BindNamed_def)
  note all = bind_named_loop_spec [OF spec assms(2)]
  then have dom: "dom (inv_Args call) \<subseteq> arg_Name ` set (cmd_Args cmd)" by force
  show ?thesis
  proof (cases "args (arg_Name a)")
    case None
    with all assms(3) have "inv_Args call (arg_Name a) = None" "\<not> arg_Required a"
      "inv_specs call (arg_Name a) = Some a" by simp_all
    with None dom show ?thesis by (simp add: Has_def)
  next
    case (Some v)
    with all assms(3) obtain w where "inv_Args call (arg_Name a) = Some w" "coerceArg cmd a v = Inr w"
      "inv_specs call (arg_Name a) = Some a" by blast
    with Some dom show ?thesis by (auto simp: Has_def dest: coerceArg_typed)
  qed
qed

definition demo_args :: "nat command" where
  "demo_args = (demo_command ''remind'' [] [])\<lparr>cmd_Args :=
     [\<lparr>arg_Name = ''n'', arg_Description = [], arg_Type = ArgInt, arg_Required = True, arg_Default = None\<rparr>,
      \<lparr>arg_Name = ''b'', arg_Description = [], arg_Type = ArgBool, arg_Required = False, arg_Default = Some (VBool True)\<rparr>]\<rparr>"

theorem BindNamed_typed_witness:
  "\<exists>call. BindNamed demo_args [''n'' \<mapsto> VInt 7] = Inr call \<and> Has call ''n'' \<and> \<not> Has call ''b''
     \<and> Inv_Int call ''n'' = 7 \<and> Inv_Bool call ''b''"
proof -
  let ?call = "\<lparr>inv_Args = [''n'' \<mapsto> VInt64 7], inv_specs = [''n'' \<mapsto> cmd_Args demo_args ! 0,
      ''b'' \<mapsto> cmd_Args demo_args ! 1]\<rparr>"
  have b: "BindNamed demo_args [''n'' \<mapsto> VInt 7] = Inr ?call"
    by (simp add: BindNamed_def demo_args_def Let_def coerceArg_def toInt64_def arg_types)
  have d: "distinct (map arg_Name (cmd_Args demo_args))" by (simp add: demo_args_def)
  have "Has ?call ''n''"
    using BindNamed_typed [OF b d, of "cmd_Args demo_args ! 0"] by (simp add: demo_args_def)
  moreover have "\<not> Has ?call ''b''"
    using BindNamed_typed [OF b d, of "cmd_Args demo_args ! 1"] by (simp add: demo_args_def)
  ultimately show ?thesis
    using b by (intro exI [of _ ?call])
      (simp add: Inv_Int_def Inv_Bool_def toInt64_def spec_default_def demo_args_def)
qed

section \<open>Quoted tokens survive\<close>

definition quoted :: "string \<Rightarrow> string" where
  "quoted t = [CHR 0x22] @ t @ [CHR 0x22]"

definition runes :: "string \<Rightarrow> nat list" where
  "runes s = map fst (chunks s)"

lemma loop_quoted:
  assumes "34 \<notin> set rs"
  shows "tokenize_loop toks cur True True (rs @ 34 # rest)
    = tokenize_loop toks (cur @ concat (map encode_rune rs)) False True rest"
  using assms by (induction rs arbitrary: cur) auto

lemma runes_quoted:
  "rest = [] \<or> hd rest = CHR '' '' \<Longrightarrow> runes (quoted t @ rest) = 34 # runes t @ 34 # runes rest"
proof -
  have q: "bv (CHR 0x22) < 128" by simp
  have "chunks (t @ CHR 0x22 # rest) = chunks t @ chunks (CHR 0x22 # rest)"
    by (rule chunks_append) (simp add: rune_start_def)
  then show ?thesis by (simp add: runes_def quoted_def)
qed

lemma quote_byte_rune: "CHR 0x22 \<notin> set t \<Longrightarrow> 34 \<notin> set (runes t)"
proof -
  have "rb \<in> set (chunks t) \<Longrightarrow> fst rb = 34 \<Longrightarrow> CHR 0x22 \<in> set t" for rb
  proof (induction t rule: chunks.induct)
    case (1 s)
    have ne: "s \<noteq> []" using 1(2) by auto
    then obtain c s1 where s: "s = c # s1" by (cases s) auto
    show ?case
    proof (cases "rb = (fst (decode_rune s), take (snd (decode_rune s)) s)")
      case True
      then have "fst (decode_rune s) = 34" using 1(3) by simp
      then have "bv c = 34"
        by (auto simp: s decode_rune_def rune_error_def second_ok_def rune_start_def Let_def
            split: list.splits if_splits)
      then have "bv c = bv (CHR 0x22)" by simp
      then have "c = CHR 0x22" by (simp only: of_char_eq_iff)
      then show ?thesis by (simp add: s)
    next
      case False
      then have "rb \<in> set (chunks (drop (snd (decode_rune s)) s))"
        using 1(2) by (simp add: chunks_nonempty [OF ne])
      from 1(1) [OF ne this 1(3)] show ?thesis by (rule in_set_dropD)
    qed
  qed
  then show "CHR 0x22 \<notin> set t \<Longrightarrow> 34 \<notin> set (runes t)" by (fastforce simp: runes_def)
qed

lemma loop_tokens:
  "ts \<noteq> [] \<Longrightarrow> \<forall>t \<in> set ts. valid_utf8 t \<and> CHR 0x22 \<notin> set t \<Longrightarrow>
     tokenize_loop toks [] False False (runes (join '' '' (map quoted ts))) = toks @ ts"
proof (induction ts arbitrary: toks)
  case (Cons t ts)
  have t: "valid_utf8 t" "34 \<notin> set (runes t)" using Cons.prems quote_byte_rune by auto
  have enc: "concat (map encode_rune (runes t)) = t"
    using reencode_valid [OF t(1)] by (simp add: runes_def)
  show ?case
  proof (cases "ts = []")
    case True
    have "runes (join '' '' (map quoted [t])) = 34 # runes t @ [34]"
      using runes_quoted [of "[]" t] by (simp add: runes_def)
    then show ?thesis using loop_quoted [OF t(2), of toks "[]" "[]"] by (simp add: True enc)
  next
    case False
    then have "join '' '' (map quoted (t # ts)) = quoted t @ '' '' @ join '' '' (map quoted ts)"
      by (simp add: join_Cons_nonempty)
    then have "runes (join '' '' (map quoted (t # ts)))
        = 34 # runes t @ 34 # 32 # runes (join '' '' (map quoted ts))"
      using runes_quoted [of "'' '' @ join '' '' (map quoted ts)" t] by (simp add: runes_def)
    then show ?thesis
      using loop_quoted [OF t(2), of toks "[]"] Cons.IH [OF False] Cons.prems
      by (simp add: enc is_space_def)
  qed
qed simp

text \<open>
  Quoting is lossless: any list of arguments of valid UTF-8 without a double quote, empty
  ones and ones with spaces included, is read back exactly from the line that quotes each.
\<close>

theorem tokenize_quoted:
  assumes "ts \<noteq> []" and "\<forall>t \<in> set ts. valid_utf8 t \<and> CHR 0x22 \<notin> set t"
  shows "tokenize (join '' '' (map quoted ts)) = ts"
  using loop_tokens [OF assms, of "[]"] by (simp add: tokenize_def runes_def)

theorem tokenize_quoted_witness:
  "tokenize (join '' '' (map quoted [''a b'', [], ''c''])) = [''a b'', [], ''c'']
   \<and> join '' '' (map quoted [''a b'', [], ''c''])
     = [CHR 0x22] @ ''a b'' @ [CHR 0x22] @ '' '' @ [CHR 0x22, CHR 0x22] @ '' '' @ [CHR 0x22] @ ''c'' @ [CHR 0x22]"
proof -
  have "\<forall>t \<in> set [''a b'', [], ''c'']. valid_utf8 t \<and> CHR 0x22 \<notin> set t"
    by (simp add: valid_utf8_def rune_error_def)
  then show ?thesis using tokenize_quoted [of "[''a b'', [], ''c'']"] by (simp add: quoted_def)
qed

end
