(* ===== verification/DiscordUndo.thy ===== *)
theory DiscordUndo
  imports DiscordRespond ExpiringMaps
begin

text \<open>
  The undo windows of fired triggers (\<open>pkg/discord/undo.go\<close>): a map under one mutex, so each
  method is one step, with the clock reading as an argument; and the handler of an undo message.
\<close>

section \<open>Windows\<close>

definition triggerUndoWindow :: duration where
  "triggerUndoWindow = 7 * Second"

definition isTriggerUndoPhrase :: "(nat \<Rightarrow> nat) \<Rightarrow> string \<Rightarrow> bool" where
  "isTriggerUndoPhrase lc content \<longleftrightarrow> to_lower lc (trim_space content) \<in> {''no'', ''ei'', ''del''}"

type_synonym undoKey = "string \<times> string"

record undoEntry =
  responseID :: string
  expiresAt :: instant

type_synonym undoWindows = "undoKey \<rightharpoonup> undoEntry"

definition newUndoWindows :: undoWindows where
  "newUndoWindows = Map.empty"

definition pruneLocked :: "instant \<Rightarrow> undoWindows \<Rightarrow> undoWindows" where
  "pruneLocked now w = (\<lambda>key. case w key of None \<Rightarrow> None
     | Some entry \<Rightarrow> if \<not> now < expiresAt entry then None else Some entry)"

definition arm :: "undoKey \<Rightarrow> string \<Rightarrow> instant \<Rightarrow> undoWindows \<Rightarrow> undoWindows" where
  "arm key rid now w =
     (pruneLocked now w)(key \<mapsto> \<lparr>responseID = rid, expiresAt = now + triggerUndoWindow\<rparr>)"

definition consume :: "undoKey \<Rightarrow> instant \<Rightarrow> undoWindows \<Rightarrow> string option \<times> undoWindows" where
  "consume key now w =
    (let w' = pruneLocked now w in
     case w' key of
       None \<Rightarrow> (None, w')
     | Some entry \<Rightarrow> (Some (responseID entry), w'(key := None)))"

definition open_window :: "undoEntry \<Rightarrow> int \<Rightarrow> bool" where
  "open_window entry now \<longleftrightarrow> now < expiresAt entry"

interpretation uw: expiring_map open_window pruneLocked
  by unfold_locales (auto simp: pruneLocked_def open_window_def split: option.splits)

section \<open>Handlers\<close>

text \<open>A message as the handler reads it; \<open>None\<close> is a nil message or author.\<close>

record undo_message =
  um_ID :: string
  um_ChannelID :: string
  um_AuthorID :: string
  um_Content :: string
  um_Attachments :: nat
  um_StickerItems :: nat

definition armTriggerUndo ::
  "undo_message option \<Rightarrow> string option \<Rightarrow> instant \<Rightarrow> undoWindows \<Rightarrow> undoWindows" where
  "armTriggerUndo m sent now w = (case (m, sent) of
     (Some msg, Some sid) \<Rightarrow> arm (um_ChannelID msg, um_AuthorID msg) sid now w
   | _ \<Rightarrow> w)"

definition handleTriggerUndo ::
  "(nat \<Rightarrow> nat) \<Rightarrow> (nat \<Rightarrow> bool) \<Rightarrow> undo_message option \<Rightarrow> instant \<Rightarrow> undoWindows \<times> session
     \<Rightarrow> bool \<times> undoWindows \<times> session" where
  "handleTriggerUndo lc down m now st =
    (let (w, s) = st in
     case m of
       None \<Rightarrow> (False, w, s)
     | Some msg \<Rightarrow>
         if \<not> isTriggerUndoPhrase lc (um_Content msg) then (False, w, s)
         else if um_Attachments msg > 0 \<or> um_StickerItems msg > 0 then (False, w, s)
         else
           let (found, w') = consume (um_ChannelID msg, um_AuthorID msg) now w in
           (case found of
              None \<Rightarrow> (False, w', s)
            | Some rid \<Rightarrow>
                let (ok, s1) = call_discord down (plain (DeleteMessage (um_ChannelID msg) rid)) s in
                if \<not> ok then (True, w', s1)
                else (True, w', snd (call_discord down (plain (DeleteMessage (um_ChannelID msg) (um_ID msg))) s1))))"

section \<open>What a history of windows means\<close>

datatype undo_call = CallArm undoKey string instant | CallConsume undoKey instant

fun undo_time :: "undo_call \<Rightarrow> instant" where
  "undo_time (CallArm k r t) = t"
| "undo_time (CallConsume k t) = t"

fun run_undo :: "undoWindows \<Rightarrow> undo_call list \<Rightarrow> (undoKey \<times> instant \<times> string option) list" where
  "run_undo w [] = []"
| "run_undo w (CallArm k r t # cs) = run_undo (arm k r t w) cs"
| "run_undo w (CallConsume k t # cs) =
     (k, t, fst (consume k t w)) # run_undo (snd (consume k t w)) cs"

text \<open>
  The reference: no pruning and no map, only the last thing that happened to the key. A consume
  finds the response of the last arm of its key, if that arm is less than seven seconds old and
  no other consume of the key found it.
\<close>

fun last_armed :: "undoKey \<Rightarrow> undo_call list \<Rightarrow> (string \<times> instant) option" where
  "last_armed k [] = None"
| "last_armed k (CallArm k' r t # past) = (if k' = k then Some (r, t) else last_armed k past)"
| "last_armed k (CallConsume k' t # past) = (if k' = k then None else last_armed k past)"

definition undo_spec :: "undoKey \<Rightarrow> instant \<Rightarrow> undo_call list \<Rightarrow> string option" where
  "undo_spec k t past = (case last_armed k past of
     None \<Rightarrow> None | Some (r, t0) \<Rightarrow> if t < t0 + 7000000000 then Some r else None)"

fun ref_undo :: "undo_call list \<Rightarrow> undo_call list \<Rightarrow> (undoKey \<times> instant \<times> string option) list" where
  "ref_undo past [] = []"
| "ref_undo past (CallArm k r t # cs) = ref_undo (CallArm k r t # past) cs"
| "ref_undo past (CallConsume k t # cs) = (k, t, undo_spec k t past) # ref_undo (CallConsume k t # past) cs"

definition armed_map :: "undo_call list \<Rightarrow> undoWindows" where
  "armed_map past = (\<lambda>k. case last_armed k past of None \<Rightarrow> None
     | Some (r, t) \<Rightarrow> Some \<lparr>responseID = r, expiresAt = t + triggerUndoWindow\<rparr>)"

lemma consume_view: "consume k t w = (map_option responseID (uw.view t w k), (uw.view t w)(k := None))"
  by (auto simp: consume_def Let_def uw.prune_is_view fun_eq_iff split: option.split)

lemma arm_view: "arm k r t w = (uw.view t w)(k \<mapsto> \<lparr>responseID = r, expiresAt = t + triggerUndoWindow\<rparr>)"
  by (simp add: arm_def uw.prune_is_view)

lemma undo_spec_view: "undo_spec k t past = map_option responseID (uw.view t (armed_map past) k)"
  by (auto simp: undo_spec_def uw.view_def armed_map_def open_window_def triggerUndoWindow_def Second_def
      split: option.splits)

lemma armed_map_arm: "armed_map (CallArm k r t # past)
    = (armed_map past)(k \<mapsto> \<lparr>responseID = r, expiresAt = t + triggerUndoWindow\<rparr>)"
  by (rule ext) (simp add: armed_map_def)

lemma armed_map_consume: "armed_map (CallConsume k t # past) = (armed_map past)(k := None)"
  by (rule ext) (simp add: armed_map_def)

lemma run_undo_ref:
  "sorted (map undo_time cs) \<Longrightarrow> \<forall>c \<in> set cs. t0 \<le> undo_time c \<Longrightarrow>
     uw.view t0 w = uw.view t0 (armed_map past) \<Longrightarrow> run_undo w cs = ref_undo past cs"
proof (induction cs arbitrary: w past t0)
  case (Cons c cs)
  have later: "sorted (map undo_time cs)" "\<forall>d \<in> set cs. undo_time c \<le> undo_time d" "t0 \<le> undo_time c"
    using Cons.prems by auto
  have same: "uw.view (undo_time c) w = uw.view (undo_time c) (armed_map past)"
    using Cons.prems(3) later(3) by (metis uw.view_later)
  show ?case
  proof (cases c)
    case (CallArm k r t)
    have "uw.view t (arm k r t w) = uw.view t (armed_map (CallArm k r t # past))"
    proof -
      have "uw.view t (uw.view t w) = uw.view t (armed_map past)"
        using same by (simp add: CallArm uw.view_same)
      from uw.view_update [OF this] show ?thesis
        by (simp only: arm_view armed_map_arm)
    qed
    with Cons.IH [OF later(1,2)] show ?thesis by (simp add: CallArm)
  next
    case (CallConsume k t)
    have eq: "uw.view t w = uw.view t (armed_map past)" using same by (simp add: CallConsume)
    have "uw.view t (snd (consume k t w)) = uw.view t (armed_map (CallConsume k t # past))"
    proof -
      have "uw.view t (uw.view t w) = uw.view t (armed_map past)"
        using eq by (simp add: uw.view_same)
      from uw.view_remove [OF this] show ?thesis
        by (simp only: consume_view armed_map_consume snd_conv)
    qed
    moreover have "fst (consume k t w) = undo_spec k t past"
      by (simp add: consume_view undo_spec_view eq)
    ultimately show ?thesis using Cons.IH [OF later(1,2)] by (simp add: CallConsume)
  qed
qed simp

text \<open>
  C37: An undo means the latest response: in every history of arms and consumes whose clock
  readings do not go back, a consume answers with the response of the last arm of the same
  channel and author, exactly when that arm is less than seven seconds old and was not undone
  yet; the pruning and what other people do in between never change it.
\<close>

theorem undo_finds_latest:
  assumes "sorted (map undo_time cs)"
  shows "run_undo newUndoWindows cs = ref_undo [] cs"
proof (cases cs)
  case (Cons c rest)
  then have "\<forall>d \<in> set cs. undo_time c \<le> undo_time d" using assms by auto
  then show ?thesis
    by (rule run_undo_ref [OF assms]) (simp add: newUndoWindows_def armed_map_def)
qed simp

theorem undo_finds_latest_witness:
  "run_undo newUndoWindows [CallArm (''c'', ''a'') ''1'' 0, CallArm (''c'', ''b'') ''2'' 5,
      CallConsume (''c'', ''a'') 6999999999, CallConsume (''c'', ''b'') 7000000005]
   = [((''c'', ''a''), 6999999999, Some ''1''), ((''c'', ''b''), 7000000005, None)]"
proof -
  have "run_undo newUndoWindows [CallArm (''c'', ''a'') ''1'' 0, CallArm (''c'', ''b'') ''2'' 5,
      CallConsume (''c'', ''a'') 6999999999, CallConsume (''c'', ''b'') 7000000005]
    = ref_undo [] [CallArm (''c'', ''a'') ''1'' 0, CallArm (''c'', ''b'') ''2'' 5,
      CallConsume (''c'', ''a'') 6999999999, CallConsume (''c'', ''b'') 7000000005]"
    by (rule undo_finds_latest) simp
  also have "\<dots> = [((''c'', ''a''), 6999999999, Some ''1''), ((''c'', ''b''), 7000000005, None)]"
    by (simp add: undo_spec_def)
  finally show ?thesis .
qed

text \<open>
  An undo deletes at most what it should: the handler's requests are deletions in the
  message's own channel only, of the armed response first and of the undo message itself only
  after that one succeeded; a message that is no undo phrase or carries media changes nothing.
\<close>

theorem handleTriggerUndo_deletes:
  assumes "handleTriggerUndo lc down (Some msg) now (w, s) = (handled, w', s')"
  shows "(case fst (consume (um_ChannelID msg, um_AuthorID msg) now w) of
       None \<Rightarrow> \<not> handled \<and> s' = s
     | Some rid \<Rightarrow>
         (if isTriggerUndoPhrase lc (um_Content msg) \<and> um_Attachments msg = 0 \<and> um_StickerItems msg = 0
          then handled \<and> s' = s @ [plain (DeleteMessage (um_ChannelID msg) rid)]
            @ (if down (length s) then [] else [plain (DeleteMessage (um_ChannelID msg) (um_ID msg))])
            \<and> w' (um_ChannelID msg, um_AuthorID msg) = None
          else \<not> handled \<and> s' = s \<and> w' = w))"
proof -
  have gone: "snd (consume k now w) k = None" for k by (simp add: consume_view)
  show ?thesis
    using assms gone [of "(um_ChannelID msg, um_AuthorID msg)"]
    by (auto simp: handleTriggerUndo_def call_discord_def Let_def split: if_splits option.splits prod.splits)
qed

theorem handleTriggerUndo_deletes_witness:
  "snd (snd (handleTriggerUndo id (\<lambda>_. False) (Some \<lparr>um_ID = ''9'', um_ChannelID = ''c'', um_AuthorID = ''a'',
      um_Content = '' NO '', um_Attachments = 0, um_StickerItems = 0\<rparr>) 5
      (arm (''c'', ''a'') ''1'' 0 newUndoWindows, [])))
   = [plain (DeleteMessage ''c'' ''1''), plain (DeleteMessage ''c'' ''9'')]"
proof -
  let ?m = "\<lparr>um_ID = ''9'', um_ChannelID = ''c'', um_AuthorID = ''a'', um_Content = '' NO '',
      um_Attachments = 0, um_StickerItems = 0\<rparr>"
  let ?w = "arm (''c'', ''a'') ''1'' 0 newUndoWindows"
  have c: "fst (consume (''c'', ''a'') 5 ?w) = Some ''1''"
    by (simp add: consume_def arm_def pruneLocked_def newUndoWindows_def triggerUndoWindow_def Second_def Let_def)
  have p: "isTriggerUndoPhrase id '' NO ''" by code_simp
  obtain h w' s' where r: "handleTriggerUndo id (\<lambda>_. False) (Some ?m) 5 (?w, []) = (h, w', s')"
    by (metis prod.exhaust)
  from handleTriggerUndo_deletes [OF r] c p r show ?thesis by simp
qed

end
