(* ===== verification/DiscordInteractions.thy ===== *)
theory DiscordInteractions
  imports DiscordTriggers CommandParse DiscordUndo
begin

text \<open>
  The event handlers of the Discord client (\<open>pkg/discord/interactions.go\<close>): slash commands, button
  clicks and chat messages, from the event to the handler and its answer. \<open>run\<close> is what a command's
  handler does to the state \<open>'b\<close> behind the service clients; the session is the log of requests of
  \<open>DiscordRespond\<close>. \<open>None\<close> as a result is a panic (a nil handler) or an answer that never ends.
\<close>

section \<open>Events\<close>

text \<open>An option as its accessors read it; discordgo fills the value its type names.\<close>

datatype slash_option = SlashOption (so_Name: string) (so_Type: int) (so_IntValue: int) (so_BoolValue: bool)
  (so_StringValue: string) (so_Options: "slash_option list")

datatype interaction_data =
    ApplicationCommandData string "slash_option list" | MessageComponentData string | OtherInteraction

record interaction =
  ix_Data :: interaction_data
  ix_MemberUser :: "invoker option"
  ix_User :: "invoker option"
  ix_GuildID :: string
  ix_ChannelID :: string
  ix_Message :: "string option"

definition interactionUser :: "interaction \<Rightarrow> invoker option" where
  "interactionUser i = (case ix_MemberUser i of Some user \<Rightarrow> Some user | None \<Rightarrow> ix_User i)"

text \<open>\<open>None\<close> as the error is one without a Connect code.\<close>

definition interactionContext :: "interaction \<Rightarrow> rpc_error option + command_ctx" where
  "interactionContext i = (case interactionUser i of
     None \<Rightarrow> Inl None
   | Some user \<Rightarrow> Inr (commandContext user (ix_GuildID i) (ix_ChannelID i)))"

section \<open>Re-roll identifiers\<close>

definition reRollPrefix :: string where "reRollPrefix = ''reroll:''"

definition legacyReRollIDs :: "(string \<times> string) list" where
  "legacyReRollIDs = [(''reRollDoubles'', ''doubles''), (''reRollTriples'', ''triples'')]"

definition reRollID :: "string \<Rightarrow> string" where
  "reRollID name = reRollPrefix @ name"

definition reRollCommandName :: "string \<Rightarrow> string option" where
  "reRollCommandName customID =
    (if prefix reRollPrefix customID then Some (drop (length reRollPrefix) customID)
     else map_of legacyReRollIDs customID)"

lemma reRollCommandName_reRollID [simp]: "reRollCommandName (reRollID name) = Some name"
  by (simp add: reRollCommandName_def reRollID_def)

section \<open>Slash commands\<close>

definition isCommandGroup :: "(nat \<Rightarrow> nat) \<Rightarrow> 'h registry \<Rightarrow> string \<Rightarrow> bool" where
  "isCommandGroup sf r name \<longleftrightarrow> list_ex (\<lambda>grp. EqualFold sf grp name) (Groups r)"

definition resolveApplicationCommand ::
  "(nat \<Rightarrow> nat) \<Rightarrow> (nat \<Rightarrow> nat) \<Rightarrow> 'h registry \<Rightarrow> string \<Rightarrow> slash_option list \<Rightarrow> ('h command \<times> slash_option list) option" where
  "resolveApplicationCommand lc sf r name options =
    (case Lookup lc r name of
       Some cmd \<Rightarrow> Some (cmd, options)
     | None \<Rightarrow>
         if \<not> isCommandGroup sf r name then None
         else (case options of
             [] \<Rightarrow> None
           | sub # rest \<Rightarrow>
               if so_Type sub \<noteq> OptionSubCommand then None
               else (case ResolveChat lc r name [so_Name sub] of
                   None \<Rightarrow> None | Some (cmd, args) \<Rightarrow> Some (cmd, so_Options sub))))"

text \<open>The errors of binding as they are reported; \<open>quote\<close> is \<open>strconv.Quote\<close>.\<close>

definition bind_message :: "(string \<Rightarrow> string) \<Rightarrow> bind_error \<Rightarrow> string" where
  "bind_message quote err = (case err of
     ArgRequired cmd a \<Rightarrow> cmd @ '': '' @ a @ '' is required''
   | NotWholeNumber cmd a raw \<Rightarrow> cmd @ '': '' @ a @ '' must be a whole number, got '' @ quote raw
   | NotTrueFalse cmd a raw \<Rightarrow> cmd @ '': '' @ a @ '' must be true or false, got '' @ quote raw
   | UnknownType cmd a \<Rightarrow> cmd @ '': '' @ a @ '' has an unknown argument type''
   | WrongType cmd a \<Rightarrow> cmd @ '': '' @ a @ '' has the wrong type'')"

definition bound :: "(string \<Rightarrow> string) \<Rightarrow> bind_error + invocation \<Rightarrow> invocation rpc" where
  "bound quote res = (case res of Inl err \<Rightarrow> Inl (bind_code err, bind_message quote err) | Inr call \<Rightarrow> Inr call)"

text \<open>
  An unsupported option type is an Internal error, shown as the generic text; discordgo's name of
  the type in it is written as its number.
\<close>

fun option_args :: "(string \<Rightarrow> string) \<Rightarrow> (string \<rightharpoonup> anyval) \<Rightarrow> slash_option list \<Rightarrow> (string \<rightharpoonup> anyval) rpc" where
  "option_args quote args [] = Inr args"
| "option_args quote args (opt # opts) =
    (if so_Type opt = OptionInteger then option_args quote (args(so_Name opt \<mapsto> VInt64 (so_IntValue opt))) opts
     else if so_Type opt = OptionBoolean then option_args quote (args(so_Name opt \<mapsto> VBool (so_BoolValue opt))) opts
     else if so_Type opt = OptionString then option_args quote (args(so_Name opt \<mapsto> VString (so_StringValue opt))) opts
     else Inl (Internal, ''unsupported option type '' @ FormatInt (so_Type opt) @ '' for '' @ quote (so_Name opt)))"

definition invocationFromOptions :: "(string \<Rightarrow> string) \<Rightarrow> 'h command \<Rightarrow> slash_option list \<Rightarrow> invocation rpc" where
  "invocationFromOptions quote cmd options =
     and_then (option_args quote Map.empty options) (\<lambda>args. bound quote (BindNamed cmd args))"

section \<open>Running a command\<close>

type_synonym ('h, 'b) runner = "'h \<Rightarrow> 'b cmd_handler"

definition call_handler ::
  "('h, 'b) runner \<Rightarrow> 'h command \<Rightarrow> command_ctx \<Rightarrow> invocation \<Rightarrow> 'b \<Rightarrow> (response option rpc \<times> 'b) option" where
  "call_handler run cmd ctx call b = map_option (\<lambda>h. run h ctx call b) (cmd_Handler cmd)"

definition runInteraction ::
  "(nat \<Rightarrow> bool) \<Rightarrow> ('h, 'b) runner \<Rightarrow> interaction \<Rightarrow> 'h command \<Rightarrow> invocation \<Rightarrow> session \<times> 'b \<Rightarrow> (session \<times> 'b) option" where
  "runInteraction down run i cmd call st =
    (let (s, b) = st in
     case interactionContext i of
       Inl err \<Rightarrow> Some (respondError down err s, b)
     | Inr ctx \<Rightarrow>
         if cmd_Slow cmd then
           (case deferInteraction down (cmd_Ephemeral cmd) s of (acked, s1) \<Rightarrow>
             if \<not> acked then Some (s1, b)
             else (case call_handler run cmd ctx call b of
                 None \<Rightarrow> None
               | Some (Inl err, b1) \<Rightarrow> Some (respondDeferredError down (Some err) s1, b1)
               | Some (Inr resp, b1) \<Rightarrow> map_option (\<lambda>s2. (s2, b1)) (respondDeferred down resp (cmd_Ephemeral cmd) s1)))
         else (case call_handler run cmd ctx call b of
             None \<Rightarrow> None
           | Some (Inl err, b1) \<Rightarrow> Some (respondError down (Some err) s, b1)
           | Some (Inr resp, b1) \<Rightarrow> Some (respondCommand down resp s, b1)))"

definition runReRoll ::
  "(nat \<Rightarrow> bool) \<Rightarrow> ('h, 'b) runner \<Rightarrow> interaction \<Rightarrow> 'h command \<Rightarrow> invocation \<Rightarrow> session \<times> 'b \<Rightarrow> (session \<times> 'b) option" where
  "runReRoll down run i cmd call st =
    (let (s, b) = st in
     case interactionContext i of
       Inl err \<Rightarrow> Some (respondError down err s, b)
     | Inr ctx \<Rightarrow>
         (case deferReRoll down s of (acked, s1) \<Rightarrow>
           if \<not> acked then Some (s1, b)
           else (case call_handler run cmd ctx call b of
               None \<Rightarrow> None
             | Some (Inl err, b1) \<Rightarrow> Some (respondReRollError down (Some err) s1, b1)
             | Some (Inr resp, b1) \<Rightarrow>
                 Some (respondReRoll down (ix_ChannelID i) (map_option ik_ID (interactionUser i)) (ix_Message i) resp s1, b1))))"

text \<open>The tables the client is built with: Unicode's, \<open>strconv.Quote\<close>, the failing requests, the handlers, the registry.\<close>

record ('h, 'b) discord_env =
  de_Lower :: "nat \<Rightarrow> nat"
  de_Fold :: "nat \<Rightarrow> nat"
  de_Quote :: "string \<Rightarrow> string"
  de_Down :: "nat \<Rightarrow> bool"
  de_Run :: "('h, 'b) runner"
  de_Registry :: "'h registry"

definition handleInteraction :: "('h, 'b) discord_env \<Rightarrow> interaction \<Rightarrow> session \<times> 'b \<Rightarrow> (session \<times> 'b) option" where
  "handleInteraction e i st =
    (let (s, b) = st; down = de_Down e in
     case ix_Data i of
       ApplicationCommandData name options \<Rightarrow>
         (case resolveApplicationCommand (de_Lower e) (de_Fold e) (de_Registry e) name options of
            None \<Rightarrow> Some (respondStale down s, b)
          | Some (cmd, opts) \<Rightarrow> (case invocationFromOptions (de_Quote e) cmd opts of
              Inl err \<Rightarrow> Some (respondError down (Some err) s, b)
            | Inr call \<Rightarrow> runInteraction down (de_Run e) i cmd call st))
     | MessageComponentData customID \<Rightarrow>
         (case reRollCommandName customID of
            None \<Rightarrow> Some (respondStale down s, b)
          | Some name \<Rightarrow> (case Lookup (de_Lower e) (de_Registry e) name of
              None \<Rightarrow> Some (respondStale down s, b)
            | Some cmd \<Rightarrow> (case bound (de_Quote e) (Bind cmd []) of
                Inl err \<Rightarrow> Some (respondError down (Some err) s, b)
              | Inr call \<Rightarrow> runReRoll down (de_Run e) i cmd call st)))
     | OtherInteraction \<Rightarrow> Some st)"

section \<open>Chat messages\<close>

text \<open>A message event; the author is \<open>None\<close> in the partial payloads of some updates.\<close>

record discord_message =
  dm_ID :: string
  dm_ChannelID :: string
  dm_GuildID :: string
  dm_Author :: "(invoker \<times> bool) option"
  dm_Content :: string
  dm_Mentions :: "string option list"
  dm_Attachments :: "(string \<times> string \<times> string) option list"
  dm_StickerItems :: nat
  dm_Timestamp :: instant

text \<open>\<open>self\<close> is the bot's own user id, \<open>None\<close> before the gateway has delivered it.\<close>

definition isHumanMessage :: "string option \<Rightarrow> discord_message option \<Rightarrow> bool" where
  "isHumanMessage self m = (case m of
     None \<Rightarrow> False
   | Some msg \<Rightarrow> (case dm_Author msg of
       None \<Rightarrow> False
     | Some (author, isBot) \<Rightarrow> \<not> isBot \<and> self \<noteq> Some (ik_ID author)))"

definition triggerCandidate :: "string \<Rightarrow> string list \<Rightarrow> bool" where
  "triggerCandidate content pfxs = (if HasPrefix content pfxs then False else trim_space content \<noteq> [])"

definition mention :: "string \<Rightarrow> string" where "mention i = ''<@'' @ i @ ''>''"
definition nick_mention :: "string \<Rightarrow> string" where "nick_mention i = ''<@!'' @ i @ ''>''"

definition mentionsBot :: "string option \<Rightarrow> discord_message \<Rightarrow> bool" where
  "mentionsBot self m = (case self of
     None \<Rightarrow> False
   | Some i \<Rightarrow> Some i \<in> set (dm_Mentions m)
       \<and> (str_contains (dm_Content m) (mention i) \<or> str_contains (dm_Content m) (nick_mention i)))"

text \<open>\<open>strings.ReplaceAll\<close> of a non-empty text by nothing; the counter skips the rest of a match.\<close>

fun remove_all :: "string \<Rightarrow> nat \<Rightarrow> string \<Rightarrow> string" where
  "remove_all old skip [] = []"
| "remove_all old skip (c # cs) =
    (if 0 < skip then remove_all old (skip - 1) cs
     else if prefix old (c # cs) then remove_all old (length old - 1) cs
     else c # remove_all old 0 cs)"

definition stripSelfMention :: "string \<Rightarrow> string \<Rightarrow> string" where
  "stripSelfMention content selfID =
    (if selfID = [] then content
     else remove_all (nick_mention selfID) 0 (remove_all (mention selfID) 0 content))"

definition maxConcurrentTriggerAttempts :: nat where "maxConcurrentTriggerAttempts = 4"

text \<open>
  The client's own state: the session, the undo windows, the trigger attempts in flight, the repost
  checks started as goroutines of their own (with the edit flag), and what is behind the clients.
\<close>

record 'b bot =
  bt_Session :: session
  bt_Undo :: undoWindows
  bt_Attempts :: nat
  bt_Reposts :: "(discord_message \<times> bool) list"
  bt_Backend :: 'b

record chat_env =
  ce_Prefixes :: "string list"
  ce_RepostEnabled :: bool
  ce_Self :: "string option"
  ce_NewID :: "nat \<Rightarrow> string"
  ce_DMOf :: "string \<Rightarrow> string"
  ce_Now :: instant
  ce_Sent :: instant

text \<open>The parts of a message its responders and its undo read; the author is known to be there.\<close>

definition author_of :: "discord_message \<Rightarrow> invoker" where
  "author_of m = (case dm_Author m of Some (a, isBot) \<Rightarrow> a | None \<Rightarrow> \<lparr>ik_ID = [], ik_Username = []\<rparr>)"

definition chat_of :: "discord_message \<Rightarrow> chat_message" where
  "chat_of m = \<lparr>msg_ID = dm_ID m, msg_ChannelID = dm_ChannelID m, msg_AuthorID = ik_ID (author_of m)\<rparr>"

definition undo_of :: "discord_message \<Rightarrow> undo_message" where
  "undo_of m = \<lparr>um_ID = dm_ID m, um_ChannelID = dm_ChannelID m, um_AuthorID = ik_ID (author_of m),
     um_Content = dm_Content m, um_Attachments = length (dm_Attachments m), um_StickerItems = dm_StickerItems m\<rparr>"

definition messageContext :: "discord_message \<Rightarrow> command_ctx" where
  "messageContext m = commandContext (author_of m) (dm_GuildID m) (dm_ChannelID m)"

definition dispatchChatCommand ::
  "('h, 'b) discord_env \<Rightarrow> chat_env \<Rightarrow> discord_message \<Rightarrow> string \<Rightarrow> string list \<Rightarrow> 'b bot \<Rightarrow> 'b bot option" where
  "dispatchChatCommand e c m name raw st =
    (case ResolveChat (de_Lower e) (de_Registry e) name raw of
       None \<Rightarrow> Some st
     | Some (cmd, args) \<Rightarrow> (case bound (de_Quote e) (Bind cmd args) of
         Inl err \<Rightarrow> Some (st\<lparr>bt_Session := respondChatError (de_Down e) (chat_of m) (Some err) (bt_Session st)\<rparr>)
       | Inr call \<Rightarrow> (case call_handler (de_Run e) cmd (messageContext m) call (bt_Backend st) of
           None \<Rightarrow> None
         | Some (Inl err, b) \<Rightarrow> Some (st\<lparr>bt_Backend := b,
             bt_Session := respondChatError (de_Down e) (chat_of m) (Some err) (bt_Session st)\<rparr>)
         | Some (Inr resp, b) \<Rightarrow> map_option (\<lambda>(sent, s). st\<lparr>bt_Backend := b, bt_Session := s\<rparr>)
             (respondChat (de_Down e) (ce_NewID c) (ce_DMOf c) (chat_of m) resp (bt_Session st)))))"

text \<open>The reply to a fired trigger, and the undo window it opens.\<close>

definition post_fired ::
  "('h, 'b) discord_env \<Rightarrow> chat_env \<Rightarrow> discord_message \<Rightarrow> response \<Rightarrow> 'b bot \<Rightarrow> 'b bot option" where
  "post_fired e c m out st =
    map_option (\<lambda>(sent, s). st\<lparr>bt_Session := s, bt_Undo := armTriggerUndo (Some (undo_of m)) sent (ce_Sent c) (bt_Undo st)\<rparr>)
      (respondChat (de_Down e) (ce_NewID c) (ce_DMOf c) (chat_of m) (Some out) (bt_Session st))"

definition fire_attempt ::
  "('h, 'b) discord_env \<Rightarrow> chat_env \<Rightarrow> 'b trigger_client \<Rightarrow> discord_message \<Rightarrow> bool \<Rightarrow> 'b bot \<Rightarrow> 'b bot option" where
  "fire_attempt e c clients m forced st =
    (let ctx = messageContext m in
     case currentTriggerInstance ctx of
       Inl err \<Rightarrow> Some st
     | Inr inst \<Rightarrow>
         let selfID = (case ce_Self c of None \<Rightarrow> [] | Some i \<Rightarrow> i);
             phrase = stripSelfMention (dm_Content m) selfID
         in if trim_space phrase = [] then Some st
            else (case tc_Try clients (cc_Outgoing ctx) \<lparr>tq_Instance = Some inst, tq_Phrase = phrase, tq_Forced = forced\<rparr>
                  (bt_Backend st) of
                (Inl err, b) \<Rightarrow> Some (st\<lparr>bt_Backend := b\<rparr>)
              | (Inr resp, b) \<Rightarrow>
                  if get_opt (rs_Id resp) = [] then Some (st\<lparr>bt_Backend := b\<rparr>)
                  else (case triggerPlaybackResponse clients ctx resp b of
                      (Inl err, b1) \<Rightarrow> Some (st\<lparr>bt_Backend := b1\<rparr>)
                    | (Inr None, b1) \<Rightarrow> Some (st\<lparr>bt_Backend := b1\<rparr>)
                    | (Inr (Some out), b1) \<Rightarrow> post_fired e c m out (st\<lparr>bt_Backend := b1\<rparr>))))"

text \<open>The attempt holds one of the slots while it runs, and is dropped when none is free.\<close>

definition attemptTrigger ::
  "('h, 'b) discord_env \<Rightarrow> chat_env \<Rightarrow> 'b trigger_client \<Rightarrow> discord_message \<Rightarrow> bool \<Rightarrow> 'b bot \<Rightarrow> 'b bot option" where
  "attemptTrigger e c clients m forced st =
    (if maxConcurrentTriggerAttempts \<le> bt_Attempts st then Some st
     else map_option (\<lambda>st1. st1\<lparr>bt_Attempts := bt_Attempts st1 - 1\<rparr>)
       (fire_attempt e c clients m forced (st\<lparr>bt_Attempts := bt_Attempts st + 1\<rparr>)))"

definition handleMessage ::
  "('h, 'b) discord_env \<Rightarrow> chat_env \<Rightarrow> 'b trigger_client \<Rightarrow> discord_message option \<Rightarrow> 'b bot \<Rightarrow> 'b bot option" where
  "handleMessage e c clients event st =
    (if \<not> isHumanMessage (ce_Self c) event then Some st
     else case event of
       None \<Rightarrow> Some st
     | Some m \<Rightarrow>
         (case handleTriggerUndo (de_Lower e) (de_Down e) (Some (undo_of m)) (ce_Now c) (bt_Undo st, bt_Session st) of
            (undone, w, s) \<Rightarrow>
              let st1 = st\<lparr>bt_Undo := w, bt_Session := s\<rparr> in
              if undone then Some st1
              else
                let st2 = (if ce_RepostEnabled c then st1\<lparr>bt_Reposts := bt_Reposts st1 @ [(m, False)]\<rparr> else st1) in
                (case ParseChat (dm_Content m) (ce_Prefixes c) of
                   Some (name, raw) \<Rightarrow> dispatchChatCommand e c m name raw st2
                 | None \<Rightarrow>
                     if \<not> triggerCandidate (dm_Content m) (ce_Prefixes c) then Some st2
                     else attemptTrigger e c clients m (mentionsBot (ce_Self c) m) st2)))"

text \<open>An edit is only checked for reposts, on the event's own goroutine.\<close>

definition handleMessageUpdate :: "chat_env \<Rightarrow> discord_message option \<Rightarrow> 'b bot \<Rightarrow> 'b bot" where
  "handleMessageUpdate c event st =
    (if \<not> ce_RepostEnabled c \<or> \<not> isHumanMessage (ce_Self c) event then st
     else case event of None \<Rightarrow> st | Some m \<Rightarrow> st\<lparr>bt_Reposts := bt_Reposts st @ [(m, True)]\<rparr>)"

definition messageContentRequired :: "string list \<Rightarrow> bool \<Rightarrow> bool" where
  "messageContentRequired pfxs messageContent \<longleftrightarrow> pfxs \<noteq> [] \<or> messageContent"

section \<open>Every interaction is answered\<close>

definition acknowledges :: "request \<Rightarrow> bool" where
  "acknowledges r \<longleftrightarrow> rq_kind r \<in> {RespondInteraction, DeferInteraction, DeferUpdate}"

text \<open>One session follows another by requests that acknowledge nothing, or by one that does and then such.\<close>

definition follows :: "session \<Rightarrow> session \<Rightarrow> bool" where
  "follows s s' \<longleftrightarrow> (\<exists>rest. s' = s @ rest \<and> list_all (\<lambda>r. \<not> acknowledges r) rest)"

definition answered :: "session \<Rightarrow> session \<Rightarrow> bool" where
  "answered s s' \<longleftrightarrow> (\<exists>r. acknowledges r \<and> follows (s @ [r]) s')"

lemma follows_refl [simp]: "follows s s"
  by (simp add: follows_def)

lemma follows_trans: "follows s t \<Longrightarrow> follows t u \<Longrightarrow> follows s u"
  by (force simp: follows_def)

lemma call_follows: "\<not> acknowledges r \<Longrightarrow> follows s (snd (call_discord down r s))"
  by (simp add: call_discord_def follows_def)

lemma send_all_follows: "list_all (\<lambda>r. \<not> acknowledges r) rs \<Longrightarrow> follows s (snd (send_all down rs s))"
proof (induction rs arbitrary: s)
  case (Cons r rs)
  then have "follows s (snd (call_discord down r s))" by (simp add: call_follows)
  with Cons show ?case by (auto simp: Let_def split_beta intro: follows_trans)
qed simp

lemma answered_simps [simp]:
  "answered s (respondError down err s)" "answered s (respondStale down s)"
  "answered s (respondCommand down (Some r) s)"
  by (auto simp: answered_def respondError_def respondStale_def respondCommand_def call_discord_def acknowledges_def
      plain_def Let_def intro!: exI follows_refl)

lemma answeredI: "acknowledges r \<Longrightarrow> follows (s @ [r]) s' \<Longrightarrow> answered s s'"
  by (auto simp: answered_def)

lemma answered_defer:
  "deferInteraction down e s = (ok, s1) \<Longrightarrow> ok = (\<not> down (length s)) \<and> (follows s1 s2 \<longrightarrow> answered s s2)"
  "deferReRoll down s = (ok, s1) \<Longrightarrow> ok = (\<not> down (length s)) \<and> (follows s1 s2 \<longrightarrow> answered s s2)"
  by (auto simp: deferInteraction_def deferReRoll_def call_discord_def acknowledges_def plain_def intro: answeredI [rotated])

lemma respond_follows [simp]:
  "follows s (respondDeferredError down err s)" "follows s (respondReRollError down err s)"
  unfolding respondDeferredError_def respondReRollError_def
  by (rule call_follows, simp add: acknowledges_def plain_def)+

lemma respondReRoll_follows [simp]: "follows s (respondReRoll down ch user clicked resp s)"
proof (cases resp)
  case (Some r)
  have "follows s (snd (call_discord down (plan_reply ch plan clicked) s))" for plan
    by (rule call_follows) (simp add: acknowledges_def plan_reply_def plain_def)
  with follows_trans [OF this respond_follows(2)] show ?thesis
    by (simp add: respondReRoll_def Some Let_def split_beta)
qed (simp add: respondReRoll_def)

lemma respondDeferred_follows:
  "\<exists>s'. respondDeferred down resp e s = Some s' \<and> follows s s'"
proof -
  define r where "r = (case resp of None \<Rightarrow> empty_response\<lparr>resp_Content := errorMessage None\<rparr> | Some r \<Rightarrow> r)"
  obtain cs where cs: "splitContent (resp_Content r) maxChatContent = Some cs" by (rule split_2000)
  have a: "follows s (snd (call_discord down (deferred_edit r cs) s))"
    by (rule call_follows) (simp add: deferred_edit_def acknowledges_def plain_def Let_def)
  have "list_all (\<lambda>r. \<not> acknowledges r) (map (followup_chunk e) (tl cs))"
    by (simp add: list_all_iff followup_chunk_def acknowledges_def plain_def)
  from follows_trans [OF a send_all_follows [OF this]] a show ?thesis
    by (simp add: respondDeferred_def r_def [symmetric] cs Let_def split_beta)
qed

definition handlers_present :: "'h registry \<Rightarrow> bool" where
  "handlers_present r \<longleftrightarrow> list_all (\<lambda>(name, cmd). cmd_Handler cmd \<noteq> None) (reg_commands r)"

lemma handlers_presentD: "handlers_present r \<Longrightarrow> map_of (reg_commands r) n = Some cmd \<Longrightarrow> \<exists>h. cmd_Handler cmd = Some h"
  by (auto simp: handlers_present_def list_all_iff dest!: map_of_SomeD)

lemma resolve_registered:
  "resolveApplicationCommand lc sf r name options = Some (cmd, opts) \<Longrightarrow> \<exists>n. map_of (reg_commands r) n = Some cmd"
  "Lookup lc r name = Some cmd \<Longrightarrow> \<exists>n. map_of (reg_commands r) n = Some cmd"
  by (auto simp: resolveApplicationCommand_def ResolveChat_def Lookup_def split: option.splits list.splits if_splits)

text \<open>What one interaction may do: the handler of one command, as the user who acted, after an acknowledgement.\<close>

definition acted :: "('h, 'b) discord_env \<Rightarrow> interaction \<Rightarrow> session \<Rightarrow> 'b \<Rightarrow> 'b \<Rightarrow> bool" where
  "acted e i s b b' \<longleftrightarrow> (\<exists>n cmd h user call. map_of (reg_commands (de_Registry e)) n = Some cmd \<and> cmd_Handler cmd = Some h
     \<and> interactionUser i = Some user
     \<and> b' = snd (de_Run e h (commandContext user (ix_GuildID i) (ix_ChannelID i)) call b)
     \<and> (cmd_Slow cmd \<or> (\<exists>cid. ix_Data i = MessageComponentData cid) \<longrightarrow> \<not> de_Down e (length s)))"

definition silent :: "('h, 'b) discord_env \<Rightarrow> 'b \<Rightarrow> 'b \<Rightarrow> bool" where
  "silent e b b' \<longleftrightarrow> (\<exists>h ctx call. de_Run e h ctx call b = (Inr None, b'))"

lemma runInteraction_answers:
  assumes "map_of (reg_commands (de_Registry e)) n = Some cmd" and "cmd_Handler cmd = Some h"
    and "\<nexists>cid. ix_Data i = MessageComponentData cid"
  shows "\<exists>s' b'. runInteraction (de_Down e) (de_Run e) i cmd call (s, b) = Some (s', b')
     \<and> (answered s s' \<or> s' = s \<and> silent e b b') \<and> (b' = b \<or> acted e i s b b')"
proof (cases "interactionContext i")
  case (Inl err)
  then show ?thesis by (simp add: runInteraction_def)
next
  case (Inr ctx)
  then obtain user where user: "interactionUser i = Some user" "ctx = commandContext user (ix_GuildID i) (ix_ChannelID i)"
    by (auto simp: interactionContext_def split: option.splits)
  obtain res b1 where run: "de_Run e h ctx call b = (res, b1)" by fastforce
  have acted: "acted e i s b b1" if "cmd_Slow cmd \<longrightarrow> \<not> de_Down e (length s)"
    unfolding acted_def using that assms user run by (metis snd_conv)
  show ?thesis
  proof (cases "cmd_Slow cmd")
    case True
    obtain ok s1 where d: "deferInteraction (de_Down e) (cmd_Ephemeral cmd) s = (ok, s1)" by fastforce
    note ack = answered_defer(1) [OF d]
    obtain s2 where s2: "\<And>r. res = Inr r \<Longrightarrow> respondDeferred (de_Down e) r (cmd_Ephemeral cmd) s1 = Some s2 \<and> follows s1 s2"
      using respondDeferred_follows [of "de_Down e" "projr res" "cmd_Ephemeral cmd" s1] by (metis sum.sel(2))
    from Inr True d ack s2 run acted assms(2) show ?thesis
      by (cases ok; cases res) (auto simp: runInteraction_def call_handler_def)
  next
    case False
    then have "acted e i s b b1" using acted by simp
    moreover have "silent e b b1" if "res = Inr None" using run that by (auto simp: silent_def)
    moreover have "answered s (respondCommand (de_Down e) r s) \<or> r = None \<and> respondCommand (de_Down e) r s = s" for r
      by (cases r) (simp, simp add: respondCommand_def, simp)
    ultimately show ?thesis using Inr False run assms(2)
      by (cases res) (auto simp: runInteraction_def call_handler_def)
  qed
qed

lemma runReRoll_answers:
  assumes "map_of (reg_commands (de_Registry e)) n = Some cmd" and "cmd_Handler cmd = Some h"
  shows "\<exists>s' b'. runReRoll (de_Down e) (de_Run e) i cmd call (s, b) = Some (s', b')
     \<and> answered s s' \<and> (b' = b \<or> acted e i s b b')"
proof (cases "interactionContext i")
  case (Inl err)
  then show ?thesis by (simp add: runReRoll_def)
next
  case (Inr ctx)
  then obtain user where user: "interactionUser i = Some user" "ctx = commandContext user (ix_GuildID i) (ix_ChannelID i)"
    by (auto simp: interactionContext_def split: option.splits)
  obtain res b1 where run: "de_Run e h ctx call b = (res, b1)" by fastforce
  obtain ok s1 where d: "deferReRoll (de_Down e) s = (ok, s1)" by fastforce
  note ack = answered_defer(2) [OF d]
  have "acted e i s b b1" if ok
    unfolding acted_def using that assms user run ack by (metis snd_conv)
  with Inr d ack run assms(2) show ?thesis
    by (cases ok; cases res) (auto simp: runReRoll_def call_handler_def)
qed


definition counting_env :: "(handler_id, nat) discord_env" where
  "counting_env = \<lparr>de_Lower = id, de_Fold = id, de_Quote = id, de_Down = (\<lambda>_. False),
     de_Run = (\<lambda>h ctx call n. (Inr (Some (private_reply ''pong'')), Suc n)), de_Registry = two_commands\<rparr>"

definition ping_interaction :: interaction where
  "ping_interaction = \<lparr>ix_Data = ApplicationCommandData ''ping'' [], ix_MemberUser = None,
     ix_User = Some \<lparr>ik_ID = ''42'', ik_Username = ''u''\<rparr>, ix_GuildID = ''g'', ix_ChannelID = ''c'', ix_Message = None\<rparr>"

lemma two_commands_handled: "handlers_present two_commands"
  by code_simp


section \<open>Commands and triggers are exclusive\<close>

lemma not_prefixed: "\<not> HasPrefix content pfxs \<Longrightarrow> ParseChat content pfxs = None"
  by (cases "matchPrefix content pfxs") (simp add: HasPrefix_def ParseChat_def)

lemma post_fired_fields:
  "post_fired e c m out st = Some st' \<Longrightarrow> bt_Attempts st' = bt_Attempts st \<and> bt_Reposts st' = bt_Reposts st
     \<and> bt_Backend st' = bt_Backend st"
  by (auto simp: post_fired_def)

lemma fire_attempt_fields:
  "fire_attempt e c clients m forced st = Some st' \<Longrightarrow> bt_Attempts st' = bt_Attempts st \<and> bt_Reposts st' = bt_Reposts st"
  by (auto simp: fire_attempt_def Let_def dest!: post_fired_fields split: sum.splits if_splits prod.splits option.splits)

lemma attempt_fields:
  "attemptTrigger e c clients m forced st = Some st' \<Longrightarrow> bt_Attempts st' = bt_Attempts st \<and> bt_Reposts st' = bt_Reposts st"
  by (auto simp: attemptTrigger_def dest!: fire_attempt_fields split: if_splits)

lemma dispatch_fields:
  "dispatchChatCommand e c m name raw st = Some st' \<Longrightarrow> bt_Attempts st' = bt_Attempts st \<and> bt_Reposts st' = bt_Reposts st
     \<and> bt_Undo st' = bt_Undo st"
  by (auto simp: dispatchChatCommand_def split: sum.splits if_splits prod.splits option.splits)

lemma attempt_ignores_commands [simp]:
  "post_fired (e\<lparr>de_Run := run', de_Registry := r'\<rparr>) = post_fired e"
  "fire_attempt (e\<lparr>de_Run := run', de_Registry := r'\<rparr>) = fire_attempt e"
  "attemptTrigger (e\<lparr>de_Run := run', de_Registry := r'\<rparr>) = attemptTrigger e"
proof -
  show post: "post_fired (e\<lparr>de_Run := run', de_Registry := r'\<rparr>) = post_fired e"
    by (intro ext) (simp add: post_fired_def)
  show fire: "fire_attempt (e\<lparr>de_Run := run', de_Registry := r'\<rparr>) = fire_attempt e"
    by (intro ext) (simp only: fire_attempt_def post)
  show "attemptTrigger (e\<lparr>de_Run := run', de_Registry := r'\<rparr>) = attemptTrigger e"
    by (intro ext) (simp only: attemptTrigger_def fire)
qed

text \<open>
  A message is routed to one purpose. One that starts with a command prefix is handled the same
  whatever the trigger service would answer, also when it names no command; any other is handled the
  same whatever commands exist; one of a bot, of this bot or without an author changes nothing; and
  an undo that finds its window neither reaches a service nor is checked for a repost.
\<close>

theorem message_routing:
  "(HasPrefix (dm_Content m) (ce_Prefixes c) \<longrightarrow>
      handleMessage e c clients (Some m) st = handleMessage e c clients' (Some m) st)
    \<and> (\<not> HasPrefix (dm_Content m) (ce_Prefixes c) \<longrightarrow>
      handleMessage e c clients (Some m) st = handleMessage (e\<lparr>de_Run := run', de_Registry := r'\<rparr>) c clients (Some m) st)
    \<and> (\<not> isHumanMessage (ce_Self c) (Some m) \<longrightarrow> handleMessage e c clients (Some m) st = Some st)
    \<and> (\<forall>w s st'. isHumanMessage (ce_Self c) (Some m)
        \<and> handleTriggerUndo (de_Lower e) (de_Down e) (Some (undo_of m)) (ce_Now c) (bt_Undo st, bt_Session st) = (True, w, s)
        \<and> handleMessage e c clients (Some m) st = Some st' \<longrightarrow>
          bt_Backend st' = bt_Backend st \<and> bt_Reposts st' = bt_Reposts st)"
proof -
  have "handleMessage e c clients (Some m) st = handleMessage e c clients' (Some m) st"
    if "HasPrefix (dm_Content m) (ce_Prefixes c)"
    using that by (simp add: handleMessage_def triggerCandidate_def Let_def cong: if_cong option.case_cong)
  moreover have "handleMessage e c clients (Some m) st = handleMessage (e\<lparr>de_Run := run', de_Registry := r'\<rparr>) c clients (Some m) st"
    if "\<not> HasPrefix (dm_Content m) (ce_Prefixes c)"
    using that by (simp add: handleMessage_def not_prefixed Let_def cong: if_cong)
  ultimately show ?thesis by (auto simp: handleMessage_def)
qed

text \<open>The slots and the checks started: an attempt gives its slot back, and each message is checked at most once.\<close>

lemma handleMessage_fields:
  assumes "handleMessage e c clients event st = Some st'"
  shows "bt_Attempts st' = bt_Attempts st
    \<and> (bt_Reposts st' = bt_Reposts st \<or> (\<exists>m. event = Some m \<and> ce_RepostEnabled c \<and> bt_Reposts st' = bt_Reposts st @ [(m, False)]))"
  using assms
  by (auto simp: handleMessage_def Let_def dest!: attempt_fields dispatch_fields split: if_splits option.splits prod.splits)

section \<open>A fired trigger can be undone\<close>

lemma play_direct: "triggerPlaybackResponse clients ctx resp b = (Inr (Some out), b') \<Longrightarrow> \<not> resp_DirectWhenLong out"
  by (auto simp: triggerPlaybackResponse_def play_file_def triggerFileResponse_def empty_response_def Let_def
      split: option.splits sum.splits prod.splits if_splits)

text \<open>A reply is one request; when it is accepted, its id is the newest window of the author in the channel.\<close>

lemma post_fired_arms:
  assumes "post_fired e c m out st = Some st'" and "\<not> resp_DirectWhenLong out"
  shows "\<exists>r. bt_Session st' = bt_Session st @ [r] \<and> rq_kind r = ChannelSend (dm_ChannelID m)
    \<and> (\<not> de_Down e (length (bt_Session st)) \<longrightarrow> bt_Undo st' = arm (dm_ChannelID m, ik_ID (author_of m))
        (ce_NewID c (length (bt_Session st'))) (ce_Sent c) (bt_Undo st))"
  using assms by (auto simp: post_fired_def respondChat_def sent_id_def call_discord_def Let_def chat_of_def undo_of_def
      armTriggerUndo_def plan_reply_def plain_def)

lemma fire_attempt_arms:
  assumes "fire_attempt e c clients m forced st = Some st'" and "bt_Session st' \<noteq> bt_Session st"
  shows "\<exists>r. bt_Session st' = bt_Session st @ [r] \<and> rq_kind r = ChannelSend (dm_ChannelID m)
    \<and> (\<not> de_Down e (length (bt_Session st)) \<longrightarrow> bt_Undo st' = arm (dm_ChannelID m, ik_ID (author_of m))
        (ce_NewID c (length (bt_Session st'))) (ce_Sent c) (bt_Undo st))"
proof -
  from assms obtain out ctx resp b b1 where "triggerPlaybackResponse clients ctx resp b = (Inr (Some out), b1)"
    "post_fired e c m out (st\<lparr>bt_Backend := b1\<rparr>) = Some st'"
    by (auto simp: fire_attempt_def Let_def split: sum.splits if_splits prod.splits option.splits)
  from post_fired_arms [OF this(2) play_direct [OF this(1)]] show ?thesis by simp
qed

lemma attempt_arms:
  assumes "attemptTrigger e c clients m forced st = Some st'" and "bt_Session st' \<noteq> bt_Session st"
  shows "\<exists>r. bt_Session st' = bt_Session st @ [r] \<and> rq_kind r = ChannelSend (dm_ChannelID m)
    \<and> (\<not> de_Down e (length (bt_Session st)) \<longrightarrow> bt_Undo st' = arm (dm_ChannelID m, ik_ID (author_of m))
        (ce_NewID c (length (bt_Session st'))) (ce_Sent c) (bt_Undo st))"
proof -
  from assms obtain st1 where "fire_attempt e c clients m forced (st\<lparr>bt_Attempts := bt_Attempts st + 1\<rparr>) = Some st1"
    "st' = st1\<lparr>bt_Attempts := bt_Attempts st1 - 1\<rparr>" by (auto simp: attemptTrigger_def split: if_splits)
  with assms(2) fire_attempt_arms [OF this(1)] show ?thesis by simp
qed

lemma no_undo_phrase:
  "\<not> isTriggerUndoPhrase lc (um_Content u) \<Longrightarrow> handleTriggerUndo lc down (Some u) now (w, s) = (False, w, s)"
  by (simp add: handleTriggerUndo_def)

lemma consume_armed: "now < sent + 7000000000 \<Longrightarrow> fst (consume key now (arm key rid sent w)) = Some rid"
  by (simp add: consume_def arm_def pruneLocked_def triggerUndoWindow_def Second_def Let_def)


definition firing_client :: "nat trigger_client" where
  "firing_client = \<lparr>tc_Create = no_answer, tc_Update = no_answer, tc_Delete = no_answer, tc_List = no_answer,
     tc_Get = no_answer, tc_Stats = no_answer, tc_Exec = no_answer,
     tc_Try = (\<lambda>q req n. (Inr \<lparr>rs_Id = Some ''t1'', rs_Reply = Some (''you said '' @ tq_Phrase req), rs_File = None\<rparr>, Suc n)),
     tc_GetFile = no_answer\<rparr>"

definition example_chat :: "instant \<Rightarrow> chat_env" where
  "example_chat now = \<lparr>ce_Prefixes = [''??''], ce_RepostEnabled = True, ce_Self = Some ''7'',
     ce_NewID = (\<lambda>n. FormatInt (int n)), ce_DMOf = id, ce_Now = now, ce_Sent = now\<rparr>"

definition said :: "string \<Rightarrow> string \<Rightarrow> discord_message" where
  "said mid content = \<lparr>dm_ID = mid, dm_ChannelID = ''c'', dm_GuildID = ''g'',
     dm_Author = Some (\<lparr>ik_ID = ''42'', ik_Username = ''u''\<rparr>, False), dm_Content = content, dm_Mentions = [],
     dm_Attachments = [], dm_StickerItems = 0, dm_Timestamp = 0\<rparr>"

definition quiet_bot :: "nat bot" where
  "quiet_bot = \<lparr>bt_Session = [], bt_Undo = newUndoWindows, bt_Attempts = 0, bt_Reposts = [], bt_Backend = 0\<rparr>"

theorem message_routing_witness:
  "map_option bt_Backend (handleMessage counting_env (example_chat 0) firing_client (Some (said ''1'' ''??number'')) quiet_bot) = Some 0
   \<and> handleMessage counting_env (example_chat 0) firing_client (Some (said ''1'' ''??number'')) quiet_bot
     = handleMessage counting_env (example_chat 0) (firing_client\<lparr>tc_Try := no_answer\<rparr>) (Some (said ''1'' ''??number'')) quiet_bot"
proof
  show "map_option bt_Backend (handleMessage counting_env (example_chat 0) firing_client (Some (said ''1'' ''??number'')) quiet_bot)
      = Some 0" by code_simp
  have "HasPrefix (dm_Content (said ''1'' ''??number'')) (ce_Prefixes (example_chat 0))" by code_simp
  with message_routing [of "said ''1'' ''??number''" "example_chat 0" counting_env firing_client quiet_bot
      "firing_client\<lparr>tc_Try := no_answer\<rparr>"]
  show "handleMessage counting_env (example_chat 0) firing_client (Some (said ''1'' ''??number'')) quiet_bot
     = handleMessage counting_env (example_chat 0) (firing_client\<lparr>tc_Try := no_answer\<rparr>) (Some (said ''1'' ''??number'')) quiet_bot"
    by blast
qed


end
