(* ===== verification/DiscordTools.thy ===== *)
theory DiscordTools
  imports DiscordReminders DiscordInteractions AccountServer
begin

text \<open>
  The remaining commands of the Discord client (\<open>pkg/discord/tools.go\<close>, \<open>entertainment.go\<close>,
  \<open>utility.go\<close>) and the table of all handlers: what each \<open>handler_id\<close> of the catalogue does, so that
  the dispatcher of \<open>DiscordInteractions\<close> runs on the bot's own commands.
\<close>

section \<open>Durations as text\<close>

text \<open>\<open>Duration.Round\<close>, half away from zero, saturating.\<close>

definition Duration_Round :: "duration \<Rightarrow> duration \<Rightarrow> duration" where
  "Duration_Round d m =
    (if m \<le> 0 then d
     else if d < 0 then
       (let r = (- d) mod m in
        if 2 * r < m then d + r
        else let d1 = i64 (d - m + r) in if d1 < d then d1 else - max_i64 - 1)
     else
       (let r = d mod m in
        if 2 * r < m then d - r
        else let d1 = i64 (d + m - r) in if d1 > d then d1 else max_i64))"

text \<open>A fraction of \<open>prec\<close> digits without trailing zeros, and the whole part.\<close>

definition fmt_frac :: "nat \<Rightarrow> int \<Rightarrow> string \<times> int" where
  "fmt_frac prec v =
    (let digits = FormatInt (v mod 10 ^ prec);
         padded = replicate (prec - length digits) (CHR ''0'') @ digits;
         kept = rev (dropWhile (\<lambda>c. c = CHR ''0'') (rev padded))
     in (if kept = [] then [] else ''.'' @ kept, v div 10 ^ prec))"

definition micro_sign :: string where "micro_sign = encode_rune 0xB5"

definition duration_String :: "duration \<Rightarrow> string" where
  "duration_String d =
    (let u = \<bar>d\<bar>; sign = (if d < 0 then ''-'' else []) in
     if u = 0 then ''0s''
     else if u < 1000 then sign @ FormatInt u @ ''ns''
     else if u < 1000000 then (case fmt_frac 3 u of (f, w) \<Rightarrow> sign @ FormatInt w @ f @ micro_sign @ ''s'')
     else if u < 1000000000 then (case fmt_frac 6 u of (f, w) \<Rightarrow> sign @ FormatInt w @ f @ ''ms'')
     else (case fmt_frac 9 u of (f, w) \<Rightarrow>
       let seconds = FormatInt (w mod 60) @ f @ ''s''; minutes = w div 60 in
       sign @ (if minutes = 0 then seconds
         else let rest = FormatInt (minutes mod 60) @ ''m'' @ seconds; hours = minutes div 60 in
           if hours = 0 then rest else FormatInt hours @ ''h'' @ rest)))"

section \<open>Clients\<close>

record 'b tools_client =
  oc_Ping :: "outgoing \<Rightarrow> 'b \<Rightarrow> string rpc \<times> 'b"
  oc_HealthCheck :: "outgoing \<Rightarrow> 'b \<Rightarrow> health_status rpc \<times> 'b"
  oc_Random :: "outgoing \<Rightarrow> random_req \<Rightarrow> 'b \<Rightarrow> string rpc \<times> 'b"
  oc_Register :: "outgoing \<Rightarrow> register_req \<Rightarrow> 'b \<Rightarrow> string rpc \<times> 'b"
  oc_SetLocale :: "outgoing \<Rightarrow> string option \<Rightarrow> 'b \<Rightarrow> unit rpc \<times> 'b"
  oc_SetTimezone :: "outgoing \<Rightarrow> string option \<Rightarrow> 'b \<Rightarrow> unit rpc \<times> 'b"

text \<open>The build information: the settings' keys and values, and the main module's version.\<close>

record build_info =
  bi_Settings :: "(string \<times> string) list"
  bi_MainVersion :: string

record 'h process_env =
  pr_Build :: "build_info option"
  pr_AppEnvironment :: string
  pr_Uptime :: duration
  pr_RoundTrip :: duration
  pr_Registry :: "'h registry"
  pr_Lower :: "nat \<Rightarrow> nat"
  pr_Quote :: "string \<Rightarrow> string"

section \<open>Ping, info and health\<close>

definition public_reply :: "string \<Rightarrow> response" where
  "public_reply content = empty_response\<lparr>resp_Content := content\<rparr>"

definition formatLatency :: "duration \<Rightarrow> string" where
  "formatLatency d = duration_String (Duration_Round d 1000000)"

definition ping :: "'h process_env \<Rightarrow> 'b tools_client \<Rightarrow> 'b cmd_handler" where
  "ping p c ctx call b = answer_with (\<lambda>message. public_reply (message @ '' '' @ em_dash @ '' round trip '' @ formatLatency (pr_RoundTrip p)))
     (oc_Ping c (cc_Outgoing ctx) b)"

definition unknownVersion :: string where "unknownVersion = ''unknown''"
definition shortRevisionLength :: nat where "shortRevisionLength = 7"

definition botVersion :: "build_info option \<Rightarrow> string" where
  "botVersion info = (case info of
     None \<Rightarrow> unknownVersion
   | Some bi \<Rightarrow> (case find (\<lambda>(k, v). k = ''vcs.revision'' \<and> v \<noteq> []) (bi_Settings bi) of
       Some (k, v) \<Rightarrow> take shortRevisionLength v
     | None \<Rightarrow> if bi_MainVersion bi \<noteq> [] then bi_MainVersion bi else unknownVersion))"

definition info_command :: "'h process_env \<Rightarrow> 'b cmd_handler" where
  "info_command p ctx call b = (Inr (Some (public_reply (''GinBot '' @ botVersion (pr_Build p) @ line_break
     @ ''Environment: '' @ pr_AppEnvironment p @ line_break
     @ ''Uptime: '' @ duration_String (Duration_Round (pr_Uptime p) Second) @ line_break
     @ ''Commands: '' @ FormatInt (int (length (All_commands (pr_Registry p))))))), b)"

fun health_String :: "health_status \<Rightarrow> string" where
  "health_String HEALTH_STATUS_OK = ''HEALTH_STATUS_OK''"
| "health_String HEALTH_STATUS_ERROR = ''HEALTH_STATUS_ERROR''"

definition healthCheck :: "'b tools_client \<Rightarrow> 'b cmd_handler" where
  "healthCheck c ctx call b = answer_with (\<lambda>status. public_reply (health_String status)) (oc_HealthCheck c (cc_Outgoing ctx) b)"

section \<open>Help\<close>

definition usageLineFor :: "'h command \<Rightarrow> string \<Rightarrow> string" where
  "usageLineFor cmd pfx = join '' '' (pfx # map (\<lambda>a. if arg_Required a then ''<'' @ arg_Name a @ ''>''
     else ''['' @ arg_Name a @ '']'') (cmd_Args cmd))"

definition usageLine :: "'h command \<Rightarrow> string" where
  "usageLine cmd = usageLineFor cmd (cmd_Name cmd)"

definition groupedUsageLine :: "'h command \<Rightarrow> string" where
  "groupedUsageLine cmd = (if cmd_Group cmd = [] then [] else usageLineFor cmd (cmd_Group cmd @ '' '' @ cmd_Sub cmd))"

definition argTypeName :: "int \<Rightarrow> string" where
  "argTypeName t = (if t = ArgInt then ''number'' else if t = ArgBool then ''true/false'' else ''text'')"

definition help_line :: "'h command \<Rightarrow> string" where
  "help_line cmd = code_of (cmd_Name cmd) @ '' '' @ em_dash @ '' '' @ cmd_Description cmd @ line_break"

definition listCommands :: "'h registry \<Rightarrow> string" where
  "listCommands r = ''**Commands**'' @ line_break @ concat (map help_line (All_commands r))
     @ line_break @ ''Use '' @ code_of ''help <command>'' @ '' for arguments and aliases.''"

definition describe_arg :: "arg \<Rightarrow> string" where
  "describe_arg a = code_of (arg_Name a) @ '' ('' @ argTypeName (arg_Type a) @ '', ''
     @ (if arg_Required a then ''required'' else ''optional'') @ '') '' @ em_dash @ '' '' @ arg_Description a @ line_break"

definition describeCommand :: "'h command \<Rightarrow> string" where
  "describeCommand cmd =
     ''**'' @ cmd_Name cmd @ ''** '' @ em_dash @ '' '' @ cmd_Description cmd @ line_break
   @ ''Usage: '' @ code_of (usageLine cmd) @ line_break
   @ (let alt = groupedUsageLine cmd in if alt = [] then []
      else ''Also: '' @ code_of alt @ '' (slash: '' @ code_of (''/'' @ cmd_Group cmd @ '' '' @ cmd_Sub cmd) @ '')'' @ line_break)
   @ (if cmd_Args cmd = [] then []
      else line_break @ ''**Arguments**'' @ line_break @ concat (map describe_arg (cmd_Args cmd)))
   @ (if cmd_Aliases cmd = [] then [] else line_break @ ''Aliases: '' @ join '', '' (cmd_Aliases cmd) @ line_break)
   @ (if cmd_Clearance cmd = 0 then []
      else line_break @ ''Requires '' @ clearanceName (cmd_Clearance cmd) @ '' clearance.'' @ line_break)"

definition help_command :: "'h process_env \<Rightarrow> 'b cmd_handler" where
  "help_command p ctx call b =
    (let name = Inv_String call ''command'' in
     if name = [] then (Inr (Some (private_reply (listCommands (pr_Registry p)))), b)
     else case Lookup (pr_Lower p) (pr_Registry p) name of
         None \<Rightarrow> (Inl (InvalidArgument, ''there is no '' @ pr_Quote p name @ '' command''), b)
       | Some cmd \<Rightarrow> (Inr (Some (private_reply (describeCommand cmd))), b))"

section \<open>Accounts\<close>

definition register_account :: "'b tools_client \<Rightarrow> 'b cmd_handler" where
  "register_account c ctx call b = (case cc_Invoker ctx of
     None \<Rightarrow> (Inl (Internal, ''cannot identify the invoking user''), b)
   | Some user \<Rightarrow> (case oc_Register c (cc_Outgoing ctx) \<lparr>rq_Username = Some (ik_Username user), rq_Locale = []\<rparr> b of
       (Inl err, b') \<Rightarrow> if fst err = AlreadyExists then (Inr (Some (private_reply ''You are already registered.'')), b')
         else (Inl err, b')
     | (Inr uid, b') \<Rightarrow> (Inr (Some (private_reply
           (''Registered. Set your timezone with '' @ code_of ''timezone <IANA zone>'' @ ''.''))), b')))"

definition unsetValue :: string where "unsetValue = ''not set''"

definition formatUserInfo :: "user_msg \<Rightarrow> string" where
  "formatUserInfo user =
     ''**'' @ ur_Username user @ ''**'' @ line_break
   @ ''Clearance: '' @ clearanceName (ur_Clearance user) @ line_break
   @ ''Locale: '' @ (if ur_Locale user = [] then unsetValue else ur_Locale user) @ line_break
   @ ''Timezone: '' @ (if ur_Timezone user = [] then defaultTimezone @ '' (default)'' else ur_Timezone user) @ line_break
   @ ''Account created: '' @ (case ur_CreatedAt user of None \<Rightarrow> unsetValue | Some t \<Rightarrow> timestampTag t ''R'')"

definition userInfo :: "(outgoing \<Rightarrow> 'b \<Rightarrow> user_msg rpc \<times> 'b) \<Rightarrow> 'b cmd_handler" where
  "userInfo get_user ctx call b = answer_with (\<lambda>u. private_reply (formatUserInfo u)) (get_user (cc_Outgoing ctx) b)"

definition setLocale :: "'b tools_client \<Rightarrow> 'b cmd_handler" where
  "setLocale c ctx call b =
    (let locale_word = Inv_String call ''locale'' in
     answer_with (\<lambda>_. private_reply (''Locale set to '' @ locale_word @ ''.''))
       (oc_SetLocale c (cc_Outgoing ctx) (Some locale_word) b))"

definition setTimezone :: "'b tools_client \<Rightarrow> 'b cmd_handler" where
  "setTimezone c ctx call b =
    (let timezone = Inv_String call ''timezone'' in
     answer_with (\<lambda>_. private_reply (''Timezone set to '' @ timezone @ ''.''))
       (oc_SetTimezone c (cc_Outgoing ctx) (Some timezone) b))"

section \<open>Rolls\<close>

text \<open>
  Bold when every digit is the first. \<open>strings.Count\<close> counts the one-byte text \<open>msg[:1]\<close>.
\<close>

definition embolden :: "string \<Rightarrow> string" where
  "embolden msg = (if msg \<noteq> [] \<and> length (filter (\<lambda>c. c = hd msg) msg) = length msg then ''**'' @ msg @ ''**'' else msg)"

definition doublesPlusN :: "'b tools_client \<Rightarrow> command_ctx \<Rightarrow> int \<Rightarrow> 'b \<Rightarrow> string rpc \<times> 'b" where
  "doublesPlusN c ctx digits b =
    (case oc_Random c (cc_Outgoing ctx) \<lparr>nq_Type = DOUBLES, nq_Digits = digits, nq_Lower = 0, nq_Upper = 0, nq_MsgId = []\<rparr> b of
       (Inl err, b') \<Rightarrow> (Inl err, b') | (Inr msg, b') \<Rightarrow> (Inr (embolden msg), b'))"

definition digitRollHandler :: "'b tools_client \<Rightarrow> digitRoll \<Rightarrow> 'b cmd_handler" where
  "digitRollHandler c roll ctx call b =
     answer_with (\<lambda>content. (public_reply content)\<lparr>resp_ReRollID := reRollID (roll_name roll)\<rparr>)
       (doublesPlusN c ctx (roll_digits roll) b)"

definition die_emoji :: string where "die_emoji = encode_rune 0x1F3B2"

definition number :: "'b tools_client \<Rightarrow> 'b cmd_handler" where
  "number c ctx call b =
     answer_with (\<lambda>n. public_reply (''**'' @ n @ ''** '' @ die_emoji))
       (oc_Random c (cc_Outgoing ctx) \<lparr>nq_Type = INTERVAL, nq_Digits = 0, nq_Lower = Inv_Int call ''lower'',
          nq_Upper = Inv_Int call ''upper'', nq_MsgId = []\<rparr> b)"

section \<open>The handler table\<close>

text \<open>The service clients of one process.\<close>

record 'b discord_clients =
  dc_Trigger :: "'b trigger_client"
  dc_Reminder :: "'b reminder_client"
  dc_Tools :: "'b tools_client"

fun discord_handler ::
  "(nat \<Rightarrow> nat) \<Rightarrow> handler_id process_env \<Rightarrow> reminder_tools \<Rightarrow> 'b discord_clients \<Rightarrow> handler_id \<Rightarrow> 'b cmd_handler" where
  "discord_handler sf p x cs HealthCheckH = healthCheck (dc_Tools cs)"
| "discord_handler sf p x cs HelpH = help_command p"
| "discord_handler sf p x cs InfoH = info_command p"
| "discord_handler sf p x cs SetLocaleH = setLocale (dc_Tools cs)"
| "discord_handler sf p x cs NumberH = number (dc_Tools cs)"
| "discord_handler sf p x cs PingH = ping p (dc_Tools cs)"
| "discord_handler sf p x cs RegisterH = register_account (dc_Tools cs)"
| "discord_handler sf p x cs RemindH = remind_command x (dc_Reminder cs)"
| "discord_handler sf p x cs ListRemindersH = listReminders (dc_Reminder cs)"
| "discord_handler sf p x cs DeleteRemindersH = deleteReminders (dc_Reminder cs)"
| "discord_handler sf p x cs ReminderInfoH = reminderInfo (dc_Reminder cs)"
| "discord_handler sf p x cs ModifyReminderH = modifyReminder x (dc_Reminder cs)"
| "discord_handler sf p x cs SetTimezoneH = setTimezone (dc_Tools cs)"
| "discord_handler sf p x cs AddTriggerH = addTrigger sf (dc_Trigger cs)"
| "discord_handler sf p x cs DeleteTriggerH = deleteTrigger (dc_Trigger cs)"
| "discord_handler sf p x cs ExecTriggerH = execTrigger (dc_Trigger cs)"
| "discord_handler sf p x cs TriggerInfoH = triggerInfo (dc_Trigger cs)"
| "discord_handler sf p x cs ListTriggersH = listTriggers (dc_Trigger cs)"
| "discord_handler sf p x cs ModifyTriggerH = modifyTrigger sf (dc_Trigger cs)"
| "discord_handler sf p x cs TriggerStatsH = triggerStats sf (dc_Trigger cs)"
| "discord_handler sf p x cs UserInfoH = userInfo (rc_GetUser (dc_Reminder cs))"
| "discord_handler sf p x cs (DigitRollH roll) = digitRollHandler (dc_Tools cs) roll"

end
