(* ===== verification/RepostStore.thy ===== *)
theory RepostStore
  imports TriggerMedia RepostGrade
begin

text \<open>
  The repost index (\<open>pkg/db/repost.go\<close>, \<open>RepostEntry\<close> of \<open>internal/model/model.go\<close>) and its
  retention sweep (\<open>pkg/cron/cronjob/retention.go\<close>): the two tables as lists of rows, each function
  one statement or transaction. A \<open>bigint\<close> hash is its 64 bits. Rows that an \<open>ORDER BY\<close> leaves tied
  are taken in table order. \<open>repost_retention_days\<close>, an operator's knob, is a map from instance ids.
\<close>

section \<open>Rows\<close>

record repost_entry =
  re_ID :: int
  re_InstanceID :: int
  re_DestinationID :: "int option"
  re_UserID :: "string option"
  re_Kind :: int
  re_SourceKey :: "string option"
  re_CanonicalURL :: "string option"
  re_ContentHash :: "string option"
  re_MsgRef :: meta
  re_PostedAt :: instant

record fingerprint_row =
  fg_EntryID :: int
  fg_InstanceID :: int
  fg_Algo :: int
  fg_PHash :: "64 word"
  fg_Chunks :: "16 word list"

record repost_db =
  entries :: "repost_entry list"
  fingerprints :: "fingerprint_row list"
  next_entry_id :: int
  retention_days :: "int \<rightharpoonup> int"
  other_tables :: trigger_db

definition RefFieldInstanceUID :: string where "RefFieldInstanceUID = ''instance_uid''"
definition RefFieldDestinationUID :: string where "RefFieldDestinationUID = ''destination_uid''"
definition RefFieldMessageUID :: string where "RefFieldMessageUID = ''message_uid''"
definition RefFieldAuthorUID :: string where "RefFieldAuthorUID = ''author_uid''"

lemmas ref_fields = RefFieldInstanceUID_def RefFieldDestinationUID_def RefFieldMessageUID_def
  RefFieldAuthorUID_def

record message_ref =
  mr_InstanceUid :: string
  mr_DestinationUid :: string
  mr_MessageUid :: string
  mr_AuthorUid :: string

definition NewRepostMsgRef :: "string \<Rightarrow> string \<Rightarrow> string \<Rightarrow> string \<Rightarrow> meta" where
  "NewRepostMsgRef instanceUID destinationUID messageUID authorUID =
     [(RefFieldInstanceUID, instanceUID), (RefFieldDestinationUID, destinationUID),
      (RefFieldMessageUID, messageUID), (RefFieldAuthorUID, authorUID)]"

definition ref_field :: "meta \<Rightarrow> string \<Rightarrow> string" where
  "ref_field m k = (case map_of m k of None \<Rightarrow> [] | Some v \<Rightarrow> v)"

definition MessageRef :: "repost_entry \<Rightarrow> message_ref" where
  "MessageRef r = \<lparr>mr_InstanceUid = ref_field (re_MsgRef r) RefFieldInstanceUID,
     mr_DestinationUid = ref_field (re_MsgRef r) RefFieldDestinationUID,
     mr_MessageUid = ref_field (re_MsgRef r) RefFieldMessageUID,
     mr_AuthorUid = ref_field (re_MsgRef r) RefFieldAuthorUID\<rparr>"

lemma MessageRef_New:
  "re_MsgRef r = NewRepostMsgRef i d m a \<Longrightarrow>
     MessageRef r = \<lparr>mr_InstanceUid = i, mr_DestinationUid = d, mr_MessageUid = m, mr_AuthorUid = a\<rparr>"
  by (simp add: MessageRef_def NewRepostMsgRef_def ref_field_def ref_fields)

section \<open>Lookups\<close>

definition PerceptualAlgoPHash64 :: int where "PerceptualAlgoPHash64 = 1"

text \<open>\<open>$3 IS NULL OR user_id IS DISTINCT FROM $3\<close>.\<close>

definition not_by :: "string \<Rightarrow> repost_entry \<Rightarrow> bool" where
  "not_by excludeUserID r = (case nullStr excludeUserID of None \<Rightarrow> True | Some u \<Rightarrow> re_UserID r \<noteq> Some u)"

definition first_of :: "'a list \<Rightarrow> 'a option" where
  "first_of xs = (case xs of [] \<Rightarrow> None | x # _ \<Rightarrow> Some x)"

text \<open>\<open>None\<close> is \<open>ErrNotFound\<close>; \<open>column\<close> reads the column compared.\<close>

definition matchRepostExact ::
  "repost_db \<Rightarrow> int \<Rightarrow> (repost_entry \<Rightarrow> string option) \<Rightarrow> string \<Rightarrow> string \<Rightarrow> repost_entry option" where
  "matchRepostExact s instanceID column v excludeUserID =
     first_of (sort_key re_PostedAt
       (filter (\<lambda>r. re_InstanceID r = instanceID \<and> column r = Some v \<and> not_by excludeUserID r) (entries s)))"

definition MatchRepostBySourceKey :: "repost_db \<Rightarrow> int \<Rightarrow> string \<Rightarrow> string \<Rightarrow> repost_entry option" where
  "MatchRepostBySourceKey s instanceID sourceKey = matchRepostExact s instanceID re_SourceKey sourceKey"

definition MatchRepostByContentHash :: "repost_db \<Rightarrow> int \<Rightarrow> string \<Rightarrow> string \<Rightarrow> repost_entry option" where
  "MatchRepostByContentHash s instanceID contentHash = matchRepostExact s instanceID re_ContentHash contentHash"

definition shares_chunk :: "16 word list \<Rightarrow> 16 word list \<Rightarrow> bool" where
  "shares_chunk xs ys \<longleftrightarrow> list_ex (\<lambda>i. xs ! i = ys ! i) [0..<ChunkCount]"

text \<open>The join of the candidates with their entries: each entry with its distance.\<close>

definition perceptual_rows ::
  "repost_db \<Rightarrow> int \<Rightarrow> 64 word \<Rightarrow> int \<Rightarrow> string \<Rightarrow> fingerprint_row list \<Rightarrow> (repost_entry \<times> int) list" where
  "perceptual_rows s instanceID phash maxDistance excludeUserID fs =
     concat (map (\<lambda>f. map (\<lambda>r. (r, Distance (fg_PHash f) phash))
       (filter (\<lambda>r. re_ID r = fg_EntryID f \<and> re_InstanceID r = instanceID
          \<and> Distance (fg_PHash f) phash \<le> maxDistance \<and> not_by excludeUserID r) (entries s))) fs)"

definition closest_first :: "(repost_entry \<times> int) list \<Rightarrow> (repost_entry \<times> int) list" where
  "closest_first rows = sort_key (\<lambda>(r, d). (d, re_PostedAt r)) rows"

definition MatchRepostByPerceptualHash ::
  "repost_db \<Rightarrow> int \<Rightarrow> 64 word \<Rightarrow> 16 word list \<Rightarrow> int \<Rightarrow> string \<Rightarrow> (repost_entry \<times> int) option" where
  "MatchRepostByPerceptualHash s instanceID phash hashChunks maxDistance excludeUserID =
     first_of (closest_first (perceptual_rows s instanceID phash maxDistance excludeUserID
       (filter (\<lambda>f. fg_InstanceID f = instanceID \<and> fg_Algo f = PerceptualAlgoPHash64
          \<and> shares_chunk (fg_Chunks f) hashChunks) (fingerprints s))))"

section \<open>Writes\<close>

record create_entry_params =
  cp_InstanceID :: int
  cp_DestinationID :: "int option"
  cp_UserID :: string
  cp_Kind :: int
  cp_SourceKey :: string
  cp_CanonicalURL :: string
  cp_ContentHash :: "string option"
  cp_MsgRef :: meta
  cp_PostedAt :: instant
  cp_PHash :: "(64 word) option"

definition entry_of :: "int \<Rightarrow> create_entry_params \<Rightarrow> repost_entry" where
  "entry_of newID p = \<lparr>re_ID = newID, re_InstanceID = cp_InstanceID p, re_DestinationID = cp_DestinationID p,
     re_UserID = nullStr (cp_UserID p), re_Kind = cp_Kind p, re_SourceKey = nullStr (cp_SourceKey p),
     re_CanonicalURL = nullStr (cp_CanonicalURL p), re_ContentHash = cp_ContentHash p,
     re_MsgRef = cp_MsgRef p, re_PostedAt = cp_PostedAt p\<rparr>"

definition fingerprint_of :: "int \<Rightarrow> int \<Rightarrow> 64 word \<Rightarrow> fingerprint_row" where
  "fingerprint_of entryID instanceID phash = \<lparr>fg_EntryID = entryID, fg_InstanceID = instanceID,
     fg_Algo = PerceptualAlgoPHash64, fg_PHash = phash, fg_Chunks = Chunks phash\<rparr>"

text \<open>
  The sequence hands out an id even when the row's check fails (\<open>None\<close>): an entry has a source
  key or a content hash.
\<close>

definition CreateRepostEntry :: "create_entry_params \<Rightarrow> repost_db \<Rightarrow> int option \<times> repost_db" where
  "CreateRepostEntry p s =
    (let newID = next_entry_id s; row = entry_of newID p; s1 = s\<lparr>next_entry_id := newID + 1\<rparr> in
     if re_SourceKey row = None \<and> re_ContentHash row = None then (None, s1)
     else (Some newID, s1\<lparr>entries := entries s @ [row],
        fingerprints := fingerprints s @ (case cp_PHash p of None \<Rightarrow> []
          | Some h \<Rightarrow> [fingerprint_of newID (cp_InstanceID p) h])\<rparr>))"

definition ListRepostRetentions :: "repost_db \<Rightarrow> (int \<times> int) list" where
  "ListRepostRetentions s = List.map_filter (\<lambda>i. if i_Deleted i then None
     else map_option (Pair (i_ID i)) (retention_days s (i_ID i))) (instances (places (other_tables s)))"

text \<open>The rows go with their fingerprints (\<open>ON DELETE CASCADE\<close>).\<close>

definition DeleteRepostEntriesBefore :: "int \<Rightarrow> instant \<Rightarrow> int \<Rightarrow> repost_db \<Rightarrow> int \<times> repost_db" where
  "DeleteRepostEntriesBefore instanceID before limit s =
    (let ids = map re_ID (take (nat limit) (sort_key re_PostedAt
           (filter (\<lambda>r. re_InstanceID r = instanceID \<and> re_PostedAt r < before) (entries s))));
         gone = filter (\<lambda>r. re_ID r \<in> set ids) (entries s)
     in (int (length gone), s\<lparr>entries := filter (\<lambda>r. re_ID r \<notin> set ids) (entries s),
          fingerprints := filter (\<lambda>f. fg_EntryID f \<notin> set ids) (fingerprints s)\<rparr>))"

section \<open>The retention sweep\<close>

definition repostRetentionBatchLimit :: int where "repostRetentionBatchLimit = 500"

text \<open>\<open>now.Add(-time.Duration(days) * 24 * time.Hour)\<close>, in 64 bits.\<close>

definition retention_cutoff :: "instant \<Rightarrow> int \<Rightarrow> instant" where
  "retention_cutoff now days = now + i64 (i64 (i64 (- days) * 24) * Hour)"

fun sweep_retentions ::
  "(nat \<Rightarrow> bool) \<Rightarrow> (int \<Rightarrow> bool) \<Rightarrow> instant \<Rightarrow> nat \<Rightarrow> (int \<times> int) list \<Rightarrow> int \<times> int \<Rightarrow> repost_db
     \<Rightarrow> (int \<times> int) \<times> repost_db" where
  "sweep_retentions cancelled down now k [] counts s = (counts, s)"
| "sweep_retentions cancelled down now k ((instanceID, days) # rs) counts s =
     (if cancelled k then (counts, s)
      else if days \<le> 0 then sweep_retentions cancelled down now (Suc k) rs counts s
      else if down instanceID then
        sweep_retentions cancelled down now (Suc k) rs (fst counts, snd counts + 1) s
      else (case DeleteRepostEntriesBefore instanceID (retention_cutoff now days) repostRetentionBatchLimit s of
          (n, s') \<Rightarrow> sweep_retentions cancelled down now (Suc k) rs (fst counts + n, snd counts) s'))"

definition sweepRepostEntries ::
  "bool \<Rightarrow> (nat \<Rightarrow> bool) \<Rightarrow> (int \<Rightarrow> bool) \<Rightarrow> instant \<Rightarrow> repost_db \<Rightarrow> (int \<times> int) \<times> repost_db" where
  "sweepRepostEntries listDown cancelled down now s =
    (if listDown then ((0, 0), s)
     else sweep_retentions cancelled down now 0 (ListRepostRetentions s) (0, 0) s)"

section \<open>The invariant of the index\<close>

definition index_ok :: "repost_db \<Rightarrow> bool" where
  "index_ok s \<longleftrightarrow> distinct (map re_ID (entries s))
     \<and> list_all (\<lambda>r. re_ID r < next_entry_id s \<and> (re_SourceKey r \<noteq> None \<or> re_ContentHash r \<noteq> None)) (entries s)
     \<and> distinct (map fg_EntryID (fingerprints s))
     \<and> list_all (\<lambda>f. fg_Chunks f = Chunks (fg_PHash f) \<and> fg_Algo f = PerceptualAlgoPHash64
          \<and> list_ex (\<lambda>r. re_ID r = fg_EntryID f \<and> re_InstanceID r = fg_InstanceID f) (entries s)) (fingerprints s)"

lemma CreateRepostEntry_ok [keeps]:
  assumes "index_ok s"
  shows "index_ok (snd (CreateRepostEntry p s))"
proof -
  have "fg_EntryID f < next_entry_id s" if "f \<in> set (fingerprints s)" for f
    using assms that by (fastforce simp: index_ok_def list_all_iff list_ex_iff)
  then have "next_entry_id s \<notin> fg_EntryID ` set (fingerprints s)" by (metis imageE order_less_irrefl)
  moreover have "next_entry_id s \<notin> re_ID ` set (entries s)"
    using assms by (auto simp: index_ok_def list_all_iff)
  ultimately show ?thesis
    using assms by (auto simp: CreateRepostEntry_def index_ok_def Let_def entry_of_def fingerprint_of_def
        list_all_iff list_ex_iff split: option.splits)
qed

lemma delete_ids_ok:
  assumes "index_ok s"
  shows "index_ok (s\<lparr>entries := filter (\<lambda>r. re_ID r \<notin> ids) (entries s),
     fingerprints := filter (\<lambda>f. fg_EntryID f \<notin> ids) (fingerprints s)\<rparr>)"
proof -
  have kept: "\<exists>r \<in> set (entries s). re_ID r \<notin> ids \<and> re_ID r = fg_EntryID f \<and> re_InstanceID r = fg_InstanceID f"
    if f: "f \<in> set (fingerprints s)" "fg_EntryID f \<notin> ids" for f
  proof -
    obtain r where "r \<in> set (entries s)" "re_ID r = fg_EntryID f" "re_InstanceID r = fg_InstanceID f"
      using assms f(1) by (auto simp: index_ok_def list_all_iff list_ex_iff)
    with f(2) show ?thesis by (intro bexI [of _ r]) simp_all
  qed
  have "distinct (map re_ID (filter (\<lambda>r. re_ID r \<notin> ids) (entries s)))"
    "distinct (map fg_EntryID (filter (\<lambda>f. fg_EntryID f \<notin> ids) (fingerprints s)))"
    using assms by (auto simp: index_ok_def intro: distinct_map_filter)
  then show ?thesis
    using assms kept by (simp add: index_ok_def list_all_iff list_ex_iff) blast
qed

lemma DeleteRepost_ok [keeps]:
  "index_ok s \<Longrightarrow> index_ok (snd (DeleteRepostEntriesBefore instanceID before limit s))"
  by (simp only: DeleteRepostEntriesBefore_def Let_def snd_conv delete_ids_ok)

section \<open>The chunk index loses nothing\<close>

lemma perceptual_rows_filter:
  assumes "\<And>f. f \<in> set fs \<Longrightarrow> \<not> Q f \<Longrightarrow> maxDistance < Distance (fg_PHash f) phash"
  shows "perceptual_rows s instanceID phash maxDistance excl (filter Q fs)
     = perceptual_rows s instanceID phash maxDistance excl fs"
  using assms
proof (induction fs)
  case (Cons f fs)
  have "perceptual_rows s instanceID phash maxDistance excl [f] = []" if "\<not> Q f"
    using Cons.prems [of f] that by (auto simp: perceptual_rows_def)
  with Cons show ?case by (auto simp: perceptual_rows_def)
qed simp

text \<open>
  C29: The lookup by equal chunks is the full scan: with the widest distance of any configured
  tiers, the entry it returns is the one a search of every fingerprint of the instance, closest
  first and oldest first among ties, would return, and it returns none only where that finds none.
\<close>

theorem perceptual_lookup_complete:
  assumes "index_ok s"
  shows "MatchRepostByPerceptualHash s instanceID phash (Chunks phash) (Probable (fst (Normalise t))) excl
     = first_of (closest_first (perceptual_rows s instanceID phash (Probable (fst (Normalise t))) excl
         (filter (\<lambda>f. fg_InstanceID f = instanceID) (fingerprints s))))"
proof -
  let ?p = "Probable (fst (Normalise t))"
  let ?here = "filter (\<lambda>f. fg_InstanceID f = instanceID) (fingerprints s)"
  have far: "?p < Distance (fg_PHash f) phash"
    if "f \<in> set ?here" "\<not> (fg_Algo f = PerceptualAlgoPHash64 \<and> shares_chunk (fg_Chunks f) (Chunks phash))" for f
  proof -
    have "fg_Algo f = PerceptualAlgoPHash64" "fg_Chunks f = Chunks (fg_PHash f)"
      using assms that(1) by (simp_all add: index_ok_def list_all_iff)
    with that(2) have "\<forall>i < ChunkCount. Chunks (fg_PHash f) ! i \<noteq> Chunks phash ! i"
      by (auto simp: shares_chunk_def list_ex_iff)
    from far_if_chunks_differ [OF this] have "8 \<le> Distance (fg_PHash f) phash"
      by (simp add: Distance_def ChunkCount_def)
    with Normalise_ok [of t] show ?thesis by (simp add: tiers_ok_def MaxDistance_def)
  qed
  let ?Q = "\<lambda>f. fg_Algo f = PerceptualAlgoPHash64 \<and> shares_chunk (fg_Chunks f) (Chunks phash)"
  have "filter (\<lambda>f. fg_InstanceID f = instanceID \<and> ?Q f) (fingerprints s) = filter ?Q ?here"
    by (simp add: conj_commute)
  moreover have "perceptual_rows s instanceID phash ?p excl (filter ?Q ?here)
      = perceptual_rows s instanceID phash ?p excl ?here"
    by (rule perceptual_rows_filter) (rule far)
  ultimately show ?thesis by (simp only: MatchRepostByPerceptualHash_def)
qed

definition example_entry :: repost_entry where
  "example_entry = \<lparr>re_ID = 1, re_InstanceID = 4, re_DestinationID = None, re_UserID = Some ''u'', re_Kind = KIND_IMAGE,
     re_SourceKey = None, re_CanonicalURL = None, re_ContentHash = Some ''h'',
     re_MsgRef = NewRepostMsgRef ''g'' ''c'' ''m'' ''a'', re_PostedAt = 10\<rparr>"

definition example_index :: repost_db where
  "example_index = snd (CreateRepostEntry \<lparr>cp_InstanceID = 4, cp_DestinationID = None, cp_UserID = ''u'',
      cp_Kind = KIND_IMAGE, cp_SourceKey = [], cp_CanonicalURL = [], cp_ContentHash = Some ''h'',
      cp_MsgRef = NewRepostMsgRef ''g'' ''c'' ''m'' ''a'', cp_PostedAt = 10, cp_PHash = Some 0x0F\<rparr>
    \<lparr>entries = [], fingerprints = [], next_entry_id = 1, retention_days = [4 \<mapsto> 30],
     other_tables = \<lparr>triggers = [], trigger_instances = [], files = [], fires = [], next_trigger_ref = 1,
       places = example_places\<rparr>\<rparr>)"

lemma example_index_ok: "index_ok example_index"
  unfolding example_index_def by (rule CreateRepostEntry_ok) (simp add: index_ok_def)

lemma example_index_rows:
  "entries example_index = [example_entry]" "fingerprints example_index = [fingerprint_of 1 4 0x0F]"
  by (simp_all add: example_index_def CreateRepostEntry_def entry_of_def Let_def nullStr_def example_entry_def)

theorem perceptual_lookup_complete_witness:
  "MatchRepostByPerceptualHash example_index 4 0x08 (Chunks 0x08) 7 ''v'' = Some (example_entry, 3)
   \<and> first_of (closest_first (perceptual_rows example_index 4 0x08 7 ''v''
       (filter (\<lambda>f. fg_InstanceID f = 4) (fingerprints example_index)))) = Some (example_entry, 3)"
proof -
  have "Distance 0x0F 0x08 = 3" by (simp add: compute_distance)
  then have "first_of (closest_first (perceptual_rows example_index 4 0x08 7 ''v''
       (filter (\<lambda>f. fg_InstanceID f = 4) (fingerprints example_index)))) = Some (example_entry, 3)"
    by (simp add: example_index_rows fingerprint_of_def perceptual_rows_def closest_first_def first_of_def
        example_entry_def not_by_def nullStr_def)
  moreover have "Probable (fst (Normalise DefaultTiers)) = 7" by code_simp
  ultimately show ?thesis
    using perceptual_lookup_complete [OF example_index_ok, of 4 "0x08" DefaultTiers "''v''"] by simp
qed

section \<open>What the sweep deletes\<close>

definition Day :: duration where "Day = 24 * Hour"

definition expired :: "instant \<Rightarrow> (int \<rightharpoonup> int) \<Rightarrow> repost_entry \<Rightarrow> bool" where
  "expired now days r \<longleftrightarrow> (case days (re_InstanceID r) of None \<Rightarrow> False
     | Some d \<Rightarrow> 0 < d \<and> re_PostedAt r < now - d * Day)"

text \<open>Days whose nanoseconds fit a duration: more than 292 years do not.\<close>

definition days_fit :: "int \<Rightarrow> bool" where
  "days_fit d \<longleftrightarrow> d \<le> 106751"

lemma retention_cutoff_exact:
  assumes "0 < d" and "days_fit d"
  shows "retention_cutoff now d = now - d * Day"
proof -
  have "i64 (- d) = - d" "i64 (- d * 24) = - d * 24" "i64 (- d * 24 * Hour) = - d * 24 * Hour"
    using assms by (simp_all add: days_fit_def max_i64_def Hour_def)
  then show ?thesis by (simp add: retention_cutoff_def Day_def)
qed

text \<open>What one sweep may do to the index: \<open>n\<close> expired rows go, with their fingerprints.\<close>

definition swept :: "instant \<Rightarrow> int \<Rightarrow> repost_db \<Rightarrow> repost_db \<Rightarrow> bool" where
  "swept now n s s' \<longleftrightarrow> set (entries s') \<subseteq> set (entries s) \<and> index_ok s'
     \<and> list_all (\<lambda>r. r \<in> set (entries s') \<or> expired now (retention_days s) r) (entries s)
     \<and> list_all (\<lambda>f. f \<in> set (fingerprints s') \<or> fg_EntryID f \<notin> re_ID ` set (entries s')) (fingerprints s)
     \<and> n + int (length (entries s')) = int (length (entries s))
     \<and> retention_days s' = retention_days s"

lemma swept_refl: "index_ok s \<Longrightarrow> swept now 0 s s"
  by (simp add: swept_def list_all_iff)

lemma swept_trans:
  assumes "swept now n s s'" and "swept now m s' s''"
  shows "swept now (n + m) s s''"
  using assms by (fastforce simp: swept_def list_all_iff)

lemma swept_delete:
  assumes "index_ok s" and "retention_days s i = Some d" and "0 < d" and "days_fit d"
    and "DeleteRepostEntriesBefore i (retention_cutoff now d) limit s = (n, s')"
  shows "swept now n s s'"
proof -
  let ?ids = "re_ID ` set (take (nat limit) (sort_key re_PostedAt
           (filter (\<lambda>r. re_InstanceID r = i \<and> re_PostedAt r < retention_cutoff now d) (entries s))))"
  have s': "s' = s\<lparr>entries := filter (\<lambda>r. re_ID r \<notin> ?ids) (entries s),
      fingerprints := filter (\<lambda>f. fg_EntryID f \<notin> ?ids) (fingerprints s)\<rparr>"
    and n: "n = int (length (filter (\<lambda>r. re_ID r \<in> ?ids) (entries s)))"
    using assms(5) by (auto simp: DeleteRepostEntriesBefore_def Let_def)
  have ok: "index_ok s'" unfolding s' by (rule delete_ids_ok [OF assms(1)])
  have "inj_on re_ID (set (entries s))" using assms(1) by (simp add: index_ok_def distinct_map)
  then have gone: "expired now (retention_days s) r" if "r \<in> set (entries s)" "re_ID r \<in> ?ids" for r
  proof -
    from that(2) obtain r' where r': "re_ID r' = re_ID r" "r' \<in> set (entries s)" "re_InstanceID r' = i"
      "re_PostedAt r' < retention_cutoff now d" by (auto dest!: in_set_takeD)
    with \<open>inj_on _ _\<close> that(1) have "r' = r" by (auto dest: inj_onD)
    with r' assms(2,3) retention_cutoff_exact [OF assms(3,4)] show ?thesis by (simp add: expired_def)
  qed
  have "length (filter (\<lambda>r. re_ID r \<in> ?ids) (entries s)) + length (filter (\<lambda>r. re_ID r \<notin> ?ids) (entries s))
      = length (entries s)" by (rule sum_length_filter_compl)
  then have "n + int (length (entries s')) = int (length (entries s))" unfolding n s' by simp
  moreover have "list_all (\<lambda>r. r \<in> set (entries s') \<or> expired now (retention_days s) r) (entries s)"
    using gone by (auto simp: list_all_iff s')
  moreover have "list_all (\<lambda>f. f \<in> set (fingerprints s') \<or> fg_EntryID f \<notin> re_ID ` set (entries s')) (fingerprints s)"
    by (auto simp: list_all_iff s')
  ultimately show ?thesis using ok by (auto simp: swept_def s')
qed

lemma sweep_retentions_swept:
  assumes "sweep_retentions cancelled down now k rs counts s = (counts', s')" and "index_ok s"
    and "list_all (\<lambda>(i, d). retention_days s i = Some d \<and> days_fit d) rs"
  shows "swept now (fst counts' - fst counts) s s'"
  using assms
proof (induction cancelled down now k rs counts s arbitrary: counts' s' rule: sweep_retentions.induct)
  case (2 cancelled down now k i d rs counts s)
  show ?case
  proof (cases "cancelled k \<or> d \<le> 0 \<or> down i")
    case True
    with 2 show ?thesis using swept_refl by (auto split: if_splits)
  next
    case False
    obtain n s1 where del: "DeleteRepostEntriesBefore i (retention_cutoff now d) repostRetentionBatchLimit s = (n, s1)"
      by fastforce
    with False "2.prems"(1) have run: "sweep_retentions cancelled down now (Suc k) rs (fst counts + n, snd counts) s1 = (counts', s')"
      by simp
    have first: "swept now n s s1" using swept_delete [OF "2.prems"(2) _ _ _ del] False "2.prems"(3) by simp
    then have "index_ok s1" "list_all (\<lambda>(i, d). retention_days s1 i = Some d \<and> days_fit d) rs"
      using "2.prems"(3) by (simp_all add: swept_def)
    from "2.IH"(3) [OF _ _ _ del [symmetric] _ this] False run
    have "swept now (fst counts' - (fst counts + n)) s1 s'" by simp
    from swept_trans [OF first this] show ?thesis by simp
  qed
qed (simp add: swept_refl)

text \<open>
  A retention sweep deletes only entries past the retention of their own instance, never one of
  an instance without a positive retention, whatever fails or is cancelled on the way; the
  fingerprints of what it deletes go with it and no others, and it reports how many went.
\<close>

theorem sweep_only_expired:
  assumes "sweepRepostEntries listDown cancelled down now s = (counts, s')" and "index_ok s"
    and "list_all (\<lambda>(i, d). days_fit d) (ListRepostRetentions s)"
  shows "list_all (\<lambda>r. r \<in> set (entries s') \<or> expired now (retention_days s) r) (entries s)
    \<and> set (entries s') \<subseteq> set (entries s) \<and> index_ok s'
    \<and> list_all (\<lambda>f. f \<in> set (fingerprints s') \<or> fg_EntryID f \<notin> re_ID ` set (entries s')) (fingerprints s)
    \<and> fst counts + int (length (entries s')) = int (length (entries s))"
proof -
  have "list_all (\<lambda>(i, d). retention_days s i = Some d) (ListRepostRetentions s)"
    by (auto simp: ListRepostRetentions_def List.map_filter_def list_all_iff split: if_splits)
  with assms(3) have rs: "list_all (\<lambda>(i, d). retention_days s i = Some d \<and> days_fit d) (ListRepostRetentions s)"
    by (auto simp: list_all_iff)
  have "swept now (fst counts) s s'"
    using sweep_retentions_swept [OF _ assms(2) rs, of cancelled down now 0 "(0, 0)" counts s'] assms(1,2) swept_refl
    by (auto simp: sweepRepostEntries_def split: if_splits)
  then show ?thesis by (simp add: swept_def)
qed

theorem sweep_only_expired_witness:
  "entries (snd (sweepRepostEntries False (\<lambda>_. False) (\<lambda>_. False) (10 + 30 * Day) example_index)) = [example_entry]
   \<and> entries (snd (sweepRepostEntries False (\<lambda>_. False) (\<lambda>_. False) (11 + 30 * Day) example_index)) = []
   \<and> index_ok (snd (sweepRepostEntries False (\<lambda>_. False) (\<lambda>_. False) (11 + 30 * Day) example_index))"
proof -
  have "list_all (\<lambda>(i, d). days_fit d) (ListRepostRetentions example_index)" by code_simp
  from sweep_only_expired [OF prod.collapse [symmetric] example_index_ok this]
  have "index_ok (snd (sweepRepostEntries False (\<lambda>_. False) (\<lambda>_. False) (11 + 30 * Day) example_index))" by blast
  moreover have
    "entries (snd (sweepRepostEntries False (\<lambda>_. False) (\<lambda>_. False) (10 + 30 * Day) example_index)) = [example_entry]"
    "entries (snd (sweepRepostEntries False (\<lambda>_. False) (\<lambda>_. False) (11 + 30 * Day) example_index)) = []"
    by code_simp+
  ultimately show ?thesis by blast
qed

text \<open>A retention of 293 years overflows the duration, and the cutoff lies in the future.\<close>

theorem retention_wraps:
  "now < retention_cutoff now 106752"
  by (simp add: retention_cutoff_def i64_def Hour_def)

end
