(* ===== verification/RepostServer.thy ===== *)
theory RepostServer
  imports RepostStore MediaFetch
begin

text \<open>
  \<open>CheckRepost\<close> (\<open>pkg/grpc/server/repost.go\<close>): each candidate of a message is looked up in the index
  and then added to it; and the perceptual hasher's guards (\<open>pkg/repost/fingerprint\<close>). The image
  decoders, ffmpeg, the entropy of an image and its DCT hash are parameters.
\<close>

section \<open>Fingerprints\<close>

datatype hash_error = ErrTooSmall | ErrLowEntropy | ErrNoDecoder | ErrTooManyPixels | HashFailed

record guards =
  gu_MinWidth :: int
  gu_MinHeight :: int

definition MaxPixels :: int where "MaxPixels = 40 * 2 ^ 20"

text \<open>What decoding needs: the header's dimensions, the image, its real size, and the two numbers.\<close>

record 'i imaging =
  im_Config :: "string \<Rightarrow> (int \<times> int) option"
  im_Decode :: "string \<Rightarrow> 'i option"
  im_Size :: "'i \<Rightarrow> int \<times> int"
  im_LowEntropy :: "'i \<Rightarrow> bool"
  im_PHash :: "'i \<Rightarrow> (64 word) option"
  im_Frame :: "string \<Rightarrow> string option"

record hasher =
  ha_Guards :: guards
  ha_FFmpegPath :: string

definition decodeBounded :: "'i imaging \<Rightarrow> string \<Rightarrow> hash_error + 'i" where
  "decodeBounded im content =
    (case im_Config im content of
       None \<Rightarrow> Inl HashFailed
     | Some (width, height) \<Rightarrow>
         if width \<le> 0 \<or> height \<le> 0 then Inl HashFailed
         else if i64 (width * height) > MaxPixels then Inl ErrTooManyPixels
         else (case im_Decode im content of None \<Rightarrow> Inl HashFailed | Some img \<Rightarrow> Inr img))"

definition hashImage :: "'i imaging \<Rightarrow> hasher \<Rightarrow> 'i \<Rightarrow> hash_error + 64 word" where
  "hashImage im h img =
    (case im_Size im img of (dx, dy) \<Rightarrow>
       if dx < gu_MinWidth (ha_Guards h) \<or> dy < gu_MinHeight (ha_Guards h) then Inl ErrTooSmall
       else if im_LowEntropy im img then Inl ErrLowEntropy
       else (case im_PHash im img of None \<Rightarrow> Inl HashFailed | Some x \<Rightarrow> Inr x))"

definition PerceptualHash :: "'i imaging \<Rightarrow> hasher \<Rightarrow> string \<Rightarrow> string \<Rightarrow> hash_error + 64 word" where
  "PerceptualHash im h content mimeType =
    (if mimeType \<in> {''image/png'', ''image/jpeg'', ''image/gif''}
       then and_then (decodeBounded im content) (hashImage im h)
     else if mimeType = ''image/webp'' then Inl ErrNoDecoder
     else if mimeType \<in> {''video/mp4'', ''video/webm''} then
       (if ha_FFmpegPath h = [] then Inl ErrNoDecoder
        else (case im_Frame im content of
            None \<Rightarrow> Inl HashFailed
          | Some frame \<Rightarrow> and_then (decodeBounded im frame) (hashImage im h)))
     else Inl ErrNoDecoder)"

section \<open>The server\<close>

definition KIND_LINK :: int where "KIND_LINK = 1"

text \<open>A repost server: its fetcher, hasher, canonicaliser and tiers; \<open>rv_Sha256\<close> is the raw digest.\<close>

record repost_server =
  rv_Fetch :: "string \<Rightarrow> fetch_error + fetched"
  rv_Sha256 :: "string \<Rightarrow> string"
  rv_PerceptualHash :: "string \<Rightarrow> string \<Rightarrow> hash_error + 64 word"
  rv_Canonicalise :: "string \<Rightarrow> url_error + url_result"
  rv_Tiers :: tiers

text \<open>What the server finds around it, and its configuration.\<close>

record 'i surroundings =
  su_Lower :: "nat \<Rightarrow> nat"
  su_Parse :: "string \<Rightarrow> url option"
  su_Transport :: "url \<Rightarrow> answer"
  su_Sniffer :: sniffer
  su_Sha256 :: "string \<Rightarrow> string"
  su_Imaging :: "'i imaging"
  su_LookPath :: "string \<Rightarrow> string option"

record repost_options =
  ro_Tiers :: tiers
  ro_FFmpegPath :: string
  ro_MinWidth :: int
  ro_MinHeight :: int
  ro_ExcludedHosts :: "string list"

definition LookupFFmpeg :: "(string \<Rightarrow> string option) \<Rightarrow> string" where
  "LookupFFmpeg lookPath = (case lookPath ''ffmpeg'' of None \<Rightarrow> [] | Some path \<Rightarrow> path)"

definition NewRepostServer :: "'i surroundings \<Rightarrow> repost_options \<Rightarrow> repost_server" where
  "NewRepostServer w conf =
    (let ffmpegPath = (if ro_FFmpegPath conf = [] then LookupFFmpeg (su_LookPath w) else ro_FFmpegPath conf);
         h = \<lparr>ha_Guards = \<lparr>gu_MinWidth = ro_MinWidth conf, gu_MinHeight = ro_MinHeight conf\<rparr>,
              ha_FFmpegPath = ffmpegPath\<rparr>;
         fetcher = NewFetcher (su_Lower w) DefaultAllowedHosts MaxFileBytes
     in \<lparr>rv_Fetch = (\<lambda>raw. fst (Fetch (su_Lower w) (su_Parse w) (su_Sniffer w) fetcher (su_Transport w) raw)),
          rv_Sha256 = su_Sha256 w,
          rv_PerceptualHash = PerceptualHash (su_Imaging w) h,
          rv_Canonicalise = Canonicalise (su_Lower w) (su_Parse w) (New (su_Lower w) (ro_ExcludedHosts conf)),
          rv_Tiers = fst (Normalise (ro_Tiers conf))\<rparr>)"

record repost_identity =
  id_Kind :: int
  id_SourceKey :: string
  id_CanonicalURL :: string
  id_ContentHash :: "string option"
  id_PHash :: "(64 word) option"

record repost_match =
  rm_Kind :: int
  rm_Confidence :: int
  rm_Distance :: int
  rm_PostedAt :: instant
  rm_Ref :: message_ref
  rm_Index :: nat

definition buildRepostMatch :: "repost_entry \<Rightarrow> int \<Rightarrow> int \<Rightarrow> nat \<Rightarrow> repost_match" where
  "buildRepostMatch entry confidence distance index =
     \<lparr>rm_Kind = re_Kind entry, rm_Confidence = confidence, rm_Distance = distance,
      rm_PostedAt = re_PostedAt entry, rm_Ref = MessageRef entry, rm_Index = index\<rparr>"

datatype repost_stmt = StmtSourceKey | StmtContentHash | StmtPerceptual | StmtInsert

type_synonym verdict = "repost_identity option \<times> (repost_entry \<times> int \<times> int) option"

text \<open>What a candidate resolved to, and the entry it matched with its confidence and distance.\<close>

definition checkLink ::
  "repost_server \<Rightarrow> (repost_stmt \<Rightarrow> bool) \<Rightarrow> repost_db \<Rightarrow> int \<Rightarrow> string \<Rightarrow> string \<Rightarrow> verdict" where
  "checkLink v down s instanceID excludeUserID rawURL =
    (case rv_Canonicalise v rawURL of
       Inl err \<Rightarrow> (None, None)
     | Inr res \<Rightarrow>
         let identity = \<lparr>id_Kind = KIND_LINK, id_SourceKey = res_SourceKey res,
               id_CanonicalURL = res_CanonicalURL res, id_ContentHash = None, id_PHash = None\<rparr> in
         if down StmtSourceKey then (Some identity, None)
         else (case MatchRepostBySourceKey s instanceID (res_SourceKey res) excludeUserID of
             None \<Rightarrow> (Some identity, None)
           | Some entry \<Rightarrow> (Some identity, Some (entry, CONFIDENCE_IDENTICAL, 0))))"

definition check_perceptual ::
  "repost_server \<Rightarrow> (repost_stmt \<Rightarrow> bool) \<Rightarrow> repost_db \<Rightarrow> int \<Rightarrow> string \<Rightarrow> repost_identity \<Rightarrow> 64 word \<Rightarrow> verdict" where
  "check_perceptual v down s instanceID excludeUserID identity phash =
    (let identity' = identity\<lparr>id_PHash := Some phash\<rparr> in
     if down StmtPerceptual then (Some identity', None)
     else (case MatchRepostByPerceptualHash s instanceID phash (Chunks phash) (Probable (rv_Tiers v)) excludeUserID of
         None \<Rightarrow> (Some identity', None)
       | Some (entry, distance) \<Rightarrow>
           let confidence = Grade (rv_Tiers v) distance in
           if confidence = CONFIDENCE_UNSPECIFIED then (Some identity', None)
           else (Some identity', Some (entry, confidence, distance))))"

definition checkAttachment ::
  "repost_server \<Rightarrow> (repost_stmt \<Rightarrow> bool) \<Rightarrow> repost_db \<Rightarrow> int \<Rightarrow> string \<Rightarrow> string \<Rightarrow> verdict" where
  "checkAttachment v down s instanceID excludeUserID rawURL =
    (case rv_Fetch v rawURL of
       Inl err \<Rightarrow> (None, None)
     | Inr got \<Rightarrow>
         let digest = rv_Sha256 v (fe_Content got);
             resolvedKind = Kind (fe_MIMEType got);
             identity = \<lparr>id_Kind = resolvedKind, id_SourceKey = [], id_CanonicalURL = [],
               id_ContentHash = Some digest, id_PHash = None\<rparr> in
         if down StmtContentHash then (Some identity, None)
         else (case MatchRepostByContentHash s instanceID digest excludeUserID of
             Some entry \<Rightarrow> (Some identity, Some (entry, CONFIDENCE_IDENTICAL, 0))
           | None \<Rightarrow>
               if resolvedKind \<noteq> KIND_IMAGE \<and> resolvedKind \<noteq> KIND_VIDEO then (Some identity, None)
               else (case rv_PerceptualHash v (fe_Content got) (fe_MIMEType got) of
                   Inl err \<Rightarrow> (Some identity, None)
                 | Inr phash \<Rightarrow> check_perceptual v down s instanceID excludeUserID identity phash)))"

record repost_candidate =
  ca_Kind :: int
  ca_Url :: string

definition checkCandidate ::
  "repost_server \<Rightarrow> (repost_stmt \<Rightarrow> bool) \<Rightarrow> repost_db \<Rightarrow> int \<Rightarrow> string \<Rightarrow> repost_candidate \<Rightarrow> verdict" where
  "checkCandidate v down s instanceID excludeUserID c =
    (if ca_Kind c = KIND_LINK then checkLink v down s instanceID excludeUserID (ca_Url c)
     else checkAttachment v down s instanceID excludeUserID (ca_Url c))"

record check_repost_req =
  kq_MessageUid :: "string option"
  kq_AuthorUid :: "string option"
  kq_Candidates :: "repost_candidate list"
  kq_PostedAt :: "instant option"
  kq_Edit :: bool

definition postedAtTolerance :: duration where "postedAtTolerance = 24 * Hour"

definition clampPostedAt :: "instant \<Rightarrow> check_repost_req \<Rightarrow> instant" where
  "clampPostedAt now req =
    (case kq_PostedAt req of
       None \<Rightarrow> now
     | Some claimed \<Rightarrow>
         if claimed < now + - postedAtTolerance \<or> now + postedAtTolerance < claimed then now else claimed)"

text \<open>
  A call: the context, the clock and which statements fail for which candidate, and before which
  candidate the call is found cancelled.
\<close>

record repost_env =
  rn_Env :: trigger_env
  rn_Down :: "nat \<Rightarrow> repost_stmt \<Rightarrow> bool"
  rn_Cancelled :: "nat \<Rightarrow> bool"
  rn_DestinationDown :: bool

text \<open>What is the same for every candidate of a message.\<close>

record message_info =
  mi_Instance :: int
  mi_Destination :: "int option"
  mi_Caller :: string
  mi_Ref :: meta
  mi_PostedAt :: instant
  mi_Edit :: bool

definition entry_params :: "message_info \<Rightarrow> repost_identity \<Rightarrow> create_entry_params" where
  "entry_params m identity = \<lparr>cp_InstanceID = mi_Instance m, cp_DestinationID = mi_Destination m,
     cp_UserID = mi_Caller m, cp_Kind = id_Kind identity, cp_SourceKey = id_SourceKey identity,
     cp_CanonicalURL = id_CanonicalURL identity, cp_ContentHash = id_ContentHash identity,
     cp_MsgRef = mi_Ref m, cp_PostedAt = mi_PostedAt m, cp_PHash = id_PHash identity\<rparr>"

definition index_identity ::
  "message_info \<Rightarrow> (repost_stmt \<Rightarrow> bool) \<Rightarrow> repost_identity option \<Rightarrow> repost_db \<Rightarrow> repost_db" where
  "index_identity m down identity s =
    (case identity of
       None \<Rightarrow> s
     | Some i \<Rightarrow> if mi_Edit m \<or> down StmtInsert then s else snd (CreateRepostEntry (entry_params m i) s))"

fun check_loop ::
  "repost_server \<Rightarrow> repost_env \<Rightarrow> message_info \<Rightarrow> nat \<Rightarrow> repost_candidate list \<Rightarrow> repost_match list \<Rightarrow> repost_db
     \<Rightarrow> repost_match list \<times> repost_db" where
  "check_loop v e m i [] matches s = (matches, s)"
| "check_loop v e m i (c # cs) matches s =
     (if rn_Cancelled e i then (matches, s)
      else
        case checkCandidate v (rn_Down e i) s (mi_Instance m) (mi_Caller m) c of (identity, match) \<Rightarrow>
          let s' = index_identity m (rn_Down e i) identity s;
              matches' = (case match of None \<Rightarrow> matches
                | Some (entry, confidence, distance) \<Rightarrow>
                    matches @ [buildRepostMatch entry confidence distance i])
          in check_loop v e m (Suc i) cs matches' s')"

definition check_message :: "repost_env \<Rightarrow> check_repost_req \<Rightarrow> repost_db \<Rightarrow> message_info rpc" where
  "check_message e req s =
    and_then (resolved_caller (rn_Env e)) (\<lambda>caller.
      case callerOriginInstanceID (rn_Env e) (other_tables s) of
        None \<Rightarrow> Inl (FailedPrecondition, ''this action must be used in a server or room'')
      | Some instanceID \<Rightarrow>
          and_then (guard_that (kq_MessageUid req \<noteq> None \<and> kq_MessageUid req \<noteq> Some [])
             (InvalidArgument, ''message_uid is required'')) (\<lambda>_.
          and_then (guard_that (kq_AuthorUid req \<noteq> None \<and> kq_AuthorUid req \<noteq> Some [])
             (InvalidArgument, ''author_uid is required'')) (\<lambda>_.
          and_then (guard_that (kq_Candidates req \<noteq> []) (InvalidArgument, ''at least one candidate is required''))
            (\<lambda>_.
            let o' = (case cx_Origin (te_Ctx (rn_Env e)) of
                  None \<Rightarrow> \<lparr>og_InstanceUID = [], og_DestinationUID = []\<rparr> | Some x \<Rightarrow> x) in
            Inr \<lparr>mi_Instance = instanceID,
              mi_Destination = (if og_DestinationUID o' = [] \<or> rn_DestinationDown e then None
                else GetDestinationIDByMeta instanceID (DestinationMeta o') (places (other_tables s))),
              mi_Caller = us_ID caller,
              mi_Ref = NewRepostMsgRef (og_InstanceUID o') (og_DestinationUID o')
                (case kq_MessageUid req of None \<Rightarrow> [] | Some x \<Rightarrow> x) (case kq_AuthorUid req of None \<Rightarrow> [] | Some x \<Rightarrow> x),
              mi_PostedAt = clampPostedAt (te_Now (rn_Env e)) req, mi_Edit = kq_Edit req\<rparr>))))"

definition RepostServer_CheckRepost ::
  "repost_server \<Rightarrow> repost_env \<Rightarrow> check_repost_req \<Rightarrow> repost_db \<Rightarrow> repost_match list rpc \<times> repost_db" where
  "RepostServer_CheckRepost v e req s =
    checked (check_message e req s) (\<lambda>m.
      case check_loop v e m 0 (kq_Candidates req) [] s of (matches, s') \<Rightarrow> (Inr matches, s')) s"

section \<open>What a lookup returns\<close>

lemma first_of_sort:
  "first_of (sort_key f xs) = Some y \<Longrightarrow> y \<in> set xs"
  by (cases "sort_key f xs") (auto simp: first_of_def dest: arg_cong [of _ _ set])

lemma first_of_sort_min:
  fixes f :: "'a \<Rightarrow> 'k :: linorder"
  assumes "x \<in> set xs"
  obtains y where "first_of (sort_key f xs) = Some y" "y \<in> set xs" "f y \<le> f x"
proof (cases "sort_key f xs")
  case Nil
  with assms show ?thesis by (metis empty_iff empty_set set_sort)
next
  case (Cons y ys)
  have "x \<in> set (y # ys)" "y \<in> set xs" using assms Cons by (metis set_sort, metis list.set_intros(1) set_sort)
  moreover have "sorted (map f (y # ys))" using Cons sorted_sort_key [of f xs] by simp
  ultimately show ?thesis using that [of y] Cons by (auto simp: first_of_def)
qed

text \<open>An entry of the instance that somebody else posted.\<close>

definition foreign_entry :: "repost_db \<Rightarrow> int \<Rightarrow> string \<Rightarrow> repost_entry \<Rightarrow> bool" where
  "foreign_entry s instanceID u r \<longleftrightarrow> r \<in> set (entries s) \<and> re_InstanceID r = instanceID \<and> not_by u r"

lemma exact_foreign: "matchRepostExact s i column x u = Some r \<Longrightarrow> foreign_entry s i u r"
  by (auto simp: matchRepostExact_def foreign_entry_def dest!: first_of_sort)

lemma perceptual_foreign:
  "MatchRepostByPerceptualHash s i h cks d u = Some (r, n) \<Longrightarrow> foreign_entry s i u r"
  by (auto simp: MatchRepostByPerceptualHash_def closest_first_def perceptual_rows_def foreign_entry_def
      dest!: first_of_sort)

lemma candidate_foreign:
  "checkCandidate v down s i u c = (identity, Some (r, confidence, d)) \<Longrightarrow>
     foreign_entry s i u r \<and> confidence \<noteq> CONFIDENCE_UNSPECIFIED"
  by (auto simp: checkCandidate_def checkLink_def checkAttachment_def check_perceptual_def Let_def
      MatchRepostBySourceKey_def MatchRepostByContentHash_def confidence_defs
      split: if_splits sum.splits option.splits prod.splits dest: exact_foreign perceptual_foreign)

section \<open>One message\<close>

text \<open>What a message adds: entries of its own, in its instance, under its reference; an edit nothing.\<close>

definition adds_only :: "message_info \<Rightarrow> repost_db \<Rightarrow> repost_db \<Rightarrow> bool" where
  "adds_only m s s' \<longleftrightarrow> (\<exists>new. entries s' = entries s @ new \<and> (mi_Edit m \<longrightarrow> new = [])
     \<and> list_all (\<lambda>r. re_InstanceID r = mi_Instance m \<and> re_UserID r = nullStr (mi_Caller m)
          \<and> re_MsgRef r = mi_Ref m \<and> re_PostedAt r = mi_PostedAt m) new)"

lemma adds_only_refl [simp]: "adds_only m s s"
  by (simp add: adds_only_def)

lemma adds_only_trans: "adds_only m s s' \<Longrightarrow> adds_only m s' s'' \<Longrightarrow> adds_only m s s''"
  by (fastforce simp: adds_only_def)

lemma index_identity_adds: "adds_only m s (index_identity m down identity s)"
proof (cases identity)
  case (Some i)
  then show ?thesis
    by (auto simp: index_identity_def CreateRepostEntry_def entry_of_def entry_params_def adds_only_def Let_def)
qed (simp add: index_identity_def)

lemma index_identity_ok [keeps]: "index_ok s \<Longrightarrow> index_ok (index_identity m down identity s)"
  by (auto simp: index_identity_def CreateRepostEntry_ok split: option.split)

text \<open>The caller is never matched against what the same message just added.\<close>

lemma foreign_before:
  assumes "foreign_entry s' (mi_Instance m) (mi_Caller m) r" and "adds_only m s s'" and "mi_Caller m \<noteq> []"
  shows "foreign_entry s (mi_Instance m) (mi_Caller m) r"
  using assms by (auto simp: foreign_entry_def adds_only_def not_by_def nullStr_def list_all_iff)

definition reports :: "repost_db \<Rightarrow> message_info \<Rightarrow> repost_match \<Rightarrow> bool" where
  "reports s m x \<longleftrightarrow> rm_Confidence x \<noteq> CONFIDENCE_UNSPECIFIED
     \<and> list_ex (\<lambda>r. re_InstanceID r = mi_Instance m \<and> re_UserID r \<noteq> Some (mi_Caller m)
          \<and> rm_Ref x = MessageRef r \<and> rm_PostedAt x = re_PostedAt r \<and> rm_Kind x = re_Kind r) (entries s)"

lemma check_loop_spec:
  assumes "check_loop v e m i cs matches s1 = (matches', s')" and "mi_Caller m \<noteq> []"
    and "adds_only m s s1" and "list_all (reports s m) matches" and "index_ok s1"
  shows "list_all (reports s m) matches' \<and> adds_only m s s' \<and> index_ok s'"
  using assms
proof (induction v e m i cs matches s1 rule: check_loop.induct)
  case (2 v e m i c cs matches s1)
  show ?case
  proof (cases "rn_Cancelled e i")
    case True
    with 2(2-) show ?thesis by simp
  next
    case False
    obtain identity match where cand: "checkCandidate v (rn_Down e i) s1 (mi_Instance m) (mi_Caller m) c = (identity, match)"
      by fastforce
    let ?s = "index_identity m (rn_Down e i) identity s1"
    let ?ms = "case match of None \<Rightarrow> matches | Some (entry, confidence, distance) \<Rightarrow>
        matches @ [buildRepostMatch entry confidence distance i]"
    have run: "check_loop v e m (Suc i) cs ?ms ?s = (matches', s')"
      using 2(2) False cand by simp
    have ms: "list_all (reports s m) ?ms"
    proof (cases match)
      case (Some x)
      obtain r confidence d where x: "x = (r, confidence, d)" by (cases x)
      from cand Some x candidate_foreign have found: "foreign_entry s1 (mi_Instance m) (mi_Caller m) r"
        "confidence \<noteq> CONFIDENCE_UNSPECIFIED" by blast+
      from foreign_before [OF found(1) 2(4,3)] found(2) 2(3)
      have "reports s m (buildRepostMatch r confidence d i)"
        by (auto simp: reports_def buildRepostMatch_def foreign_entry_def not_by_def nullStr_def list_ex_iff
            split: if_splits)
      then show ?thesis using 2(5) Some x by simp
    qed (use 2(5) in simp)
    have "adds_only m s ?s" by (rule adds_only_trans [OF 2(4) index_identity_adds])
    from 2(1) [OF False cand [symmetric] refl refl run 2(3) this ms index_identity_ok [OF 2(6)]] show ?thesis .
  qed
qed simp

lemma check_loop_ok: "index_ok s \<Longrightarrow> index_ok (snd (check_loop v e m i cs matches s))"
  by (induction v e m i cs matches s rule: check_loop.induct)
    (simp_all add: Let_def index_identity_ok split: prod.split)

lemma CheckRepost_ok [keeps]: "index_ok s \<Longrightarrow> index_ok (snd (RepostServer_CheckRepost v e req s))"
  using check_loop_ok [of s] by (auto simp: RepostServer_CheckRepost_def checked_def split: sum.split prod.split
    dest!: arg_cong [of _ _ snd])

lemma check_message_info:
  assumes "check_message e req s = Inr m"
  shows "mi_Edit m = kq_Edit req \<and> mi_PostedAt m = clampPostedAt (te_Now (rn_Env e)) req
    \<and> callerOriginInstanceID (rn_Env e) (other_tables s) = Some (mi_Instance m)"
  using assms by (auto simp: check_message_def Let_def split: option.splits)

text \<open>
  C3: The index does not leak: every match reported to a caller quotes an entry that was in the
  index before the call, in the caller's own instance, posted by somebody else; and the call adds
  only entries of the caller, in that instance, under the message's reference, none when the
  message is an edit, and keeps the index well-formed.
\<close>

theorem reposts_scoped:
  assumes "RepostServer_CheckRepost v e req s = (Inr matches, s')" and "check_message e req s = Inr m"
    and "mi_Caller m \<noteq> []" and "index_ok s"
  shows "list_all (reports s m) matches \<and> adds_only m s s' \<and> index_ok s'"
proof -
  have "check_loop v e m 0 (kq_Candidates req) [] s = (matches, s')"
    using assms(1,2) by (simp add: RepostServer_CheckRepost_def split: prod.splits)
  from check_loop_spec [OF this assms(3) adds_only_refl _ assms(4)] show ?thesis by simp
qed

section \<open>What is indexed is found\<close>

text \<open>What a candidate is looked up by: the key of a link or the digest of an attachment.\<close>

definition resolves :: "repost_server \<Rightarrow> repost_candidate \<Rightarrow> (string + string) option" where
  "resolves v c =
    (if ca_Kind c = KIND_LINK
       then (case rv_Canonicalise v (ca_Url c) of Inl err \<Rightarrow> None | Inr res \<Rightarrow> Some (Inl (res_SourceKey res)))
     else (case rv_Fetch v (ca_Url c) of Inl err \<Rightarrow> None
       | Inr got \<Rightarrow> Some (Inr (rv_Sha256 v (fe_Content got)))))"

definition carries :: "string + string \<Rightarrow> repost_entry \<Rightarrow> bool" where
  "carries k r = (case k of Inl key \<Rightarrow> re_SourceKey r = Some key | Inr digest \<Rightarrow> re_ContentHash r = Some digest)"

definition lookup_stmt :: "string + string \<Rightarrow> repost_stmt" where
  "lookup_stmt k = (case k of Inl key \<Rightarrow> StmtSourceKey | Inr digest \<Rightarrow> StmtContentHash)"

definition known_by :: "string + string \<Rightarrow> repost_identity option \<Rightarrow> bool" where
  "known_by k identity = (case identity of None \<Rightarrow> False
     | Some i \<Rightarrow> (case k of Inl key \<Rightarrow> id_SourceKey i = key | Inr digest \<Rightarrow> id_ContentHash i = Some digest))"

lemma perceptual_known_by:
  "known_by (Inr d) (Some i) \<Longrightarrow> known_by (Inr d) (fst (check_perceptual v down s inst u i h))"
  by (auto simp: check_perceptual_def known_by_def Let_def split: option.splits)

lemma candidate_known_by:
  assumes "resolves v c = Some k"
  shows "known_by k (fst (checkCandidate v down s inst u c))"
proof (cases "ca_Kind c = KIND_LINK")
  case True
  with assms obtain res where res: "rv_Canonicalise v (ca_Url c) = Inr res" "k = Inl (res_SourceKey res)"
    by (auto simp: resolves_def split: sum.splits)
  then show ?thesis
    using True by (simp add: checkCandidate_def checkLink_def known_by_def Let_def split: option.split)
next
  case False
  with assms obtain got where got: "rv_Fetch v (ca_Url c) = Inr got" "k = Inr (rv_Sha256 v (fe_Content got))"
    by (auto simp: resolves_def split: sum.splits)
  let ?i = "\<lparr>id_Kind = Kind (fe_MIMEType got), id_SourceKey = [], id_CanonicalURL = [],
      id_ContentHash = Some (rv_Sha256 v (fe_Content got)), id_PHash = None\<rparr>"
  have i: "known_by k (Some ?i)" by (simp add: known_by_def got)
  show ?thesis
    using False got i perceptual_known_by [OF i [unfolded got(2)]]
    by (auto simp: checkCandidate_def checkAttachment_def Let_def split: option.split sum.split)
qed

lemma identity_carries:
  assumes "resolves v c = Some k" and "k \<noteq> Inl []"
  obtains i match where "checkCandidate v down s inst u c = (Some i, match)"
    and "\<And>n m. carries k (entry_of n (entry_params m i))"
proof (cases "checkCandidate v down s inst u c")
  case (Pair identity match)
  with candidate_known_by [OF assms(1), of down s inst u] obtain i where i: "identity = Some i"
    "known_by k (Some i)" by (auto simp: known_by_def split: option.splits)
  from i(2) assms(2) have "carries k (entry_of n (entry_params m i))" for n m
    by (auto simp: carries_def known_by_def entry_of_def entry_params_def nullStr_def split: sum.splits)
  with Pair i(1) that show thesis by simp
qed

lemma exact_match_found:
  assumes "foreign_entry s inst u r" and "column r = Some x"
  obtains r' where "matchRepostExact s inst column x u = Some r'" "re_PostedAt r' \<le> re_PostedAt r"
  using assms first_of_sort_min [of r "filter (\<lambda>r. re_InstanceID r = inst \<and> column r = Some x \<and> not_by u r) (entries s)"
      re_PostedAt]
  by (auto simp: foreign_entry_def matchRepostExact_def)

lemma candidate_found:
  assumes "resolves v c = Some k" and "foreign_entry s inst u r" and "carries k r"
    and "\<not> down (lookup_stmt k)"
  obtains identity r' where "checkCandidate v down s inst u c = (identity, Some (r', CONFIDENCE_IDENTICAL, 0))"
    and "re_PostedAt r' \<le> re_PostedAt r"
proof (cases k)
  case (Inl key)
  with assms obtain r' where "MatchRepostBySourceKey s inst key u = Some r'" "re_PostedAt r' \<le> re_PostedAt r"
    by (auto simp: carries_def MatchRepostBySourceKey_def elim: exact_match_found)
  with Inl assms(1,4) that show ?thesis
    by (auto simp: resolves_def checkCandidate_def checkLink_def lookup_stmt_def Let_def split: if_splits sum.splits)
next
  case (Inr digest)
  with assms obtain r' where "MatchRepostByContentHash s inst digest u = Some r'" "re_PostedAt r' \<le> re_PostedAt r"
    by (auto simp: carries_def MatchRepostByContentHash_def elim: exact_match_found)
  with Inr assms(1,4) that show ?thesis
    by (auto simp: resolves_def checkCandidate_def checkAttachment_def lookup_stmt_def Let_def
        split: if_splits sum.splits)
qed

text \<open>How far a call gets: it is not found cancelled before candidate \<open>j\<close> is checked.\<close>

definition gets_to :: "repost_env \<Rightarrow> nat \<Rightarrow> bool" where
  "gets_to e j \<longleftrightarrow> list_all (\<lambda>k. \<not> rn_Cancelled e k) [0..<Suc j]"

lemma index_identity_grows: "set (entries s) \<subseteq> set (entries (index_identity m down identity s))"
  using index_identity_adds [of m s down identity] by (auto simp: adds_only_def)

lemma check_loop_grows:
  "check_loop v e m i cs matches s = (matches', s') \<Longrightarrow>
     set (entries s) \<subseteq> set (entries s') \<and> set matches \<subseteq> set matches'"
proof (induction v e m i cs matches s arbitrary: matches' s' rule: check_loop.induct)
  case (2 v e m i c cs matches s)
  obtain identity match where cand: "checkCandidate v (rn_Down e i) s (mi_Instance m) (mi_Caller m) c = (identity, match)"
    by fastforce
  show ?case
  proof (cases "rn_Cancelled e i")
    case False
    from "2.IH" [OF False cand [symmetric] refl refl] "2.prems" False cand
    have "set (entries (index_identity m (rn_Down e i) identity s)) \<subseteq> set (entries s')" "set matches \<subseteq> set matches'"
      by (fastforce split: option.splits)+
    with index_identity_grows show ?thesis by blast
  qed (use "2.prems" in simp)
qed simp

text \<open>A candidate the call gets to is checked against everything that was there, and then indexed.\<close>

lemma check_loop_reaches:
  assumes "check_loop v e m i cs matches s = (matches', s')" and "j < length cs"
    and "\<forall>k \<le> j. \<not> rn_Cancelled e (i + k)"
  shows "\<exists>s1 identity match.
      checkCandidate v (rn_Down e (i + j)) s1 (mi_Instance m) (mi_Caller m) (cs ! j) = (identity, match)
      \<and> set (entries s) \<subseteq> set (entries s1)
      \<and> set (entries (index_identity m (rn_Down e (i + j)) identity s1)) \<subseteq> set (entries s')
      \<and> (\<forall>r conf d. match = Some (r, conf, d) \<longrightarrow> buildRepostMatch r conf d (i + j) \<in> set matches')"
  using assms
proof (induction v e m i cs matches s arbitrary: j matches' s' rule: check_loop.induct)
  case (2 v e m i c cs matches s)
  have go: "\<not> rn_Cancelled e i" using "2.prems"(3) by (metis add_0_right le0)
  obtain identity match where cand: "checkCandidate v (rn_Down e i) s (mi_Instance m) (mi_Caller m) c = (identity, match)"
    by fastforce
  let ?s = "index_identity m (rn_Down e i) identity s"
  let ?ms = "case match of None \<Rightarrow> matches | Some (entry, confidence, distance) \<Rightarrow>
      matches @ [buildRepostMatch entry confidence distance i]"
  have run: "check_loop v e m (Suc i) cs ?ms ?s = (matches', s')"
    using "2.prems"(1) go cand by simp
  show ?case
  proof (cases j)
    case 0
    with cand check_loop_grows [OF run] show ?thesis by (auto intro!: exI [of _ s])
  next
    case (Suc j')
    with "2.prems" have "j' < length cs" "\<forall>k \<le> j'. \<not> rn_Cancelled e (Suc i + k)" by auto
    from "2.IH" [OF go cand [symmetric] refl refl run this] obtain s1 identity' match' where
      "checkCandidate v (rn_Down e (i + j)) s1 (mi_Instance m) (mi_Caller m) ((c # cs) ! j) = (identity', match')"
      "set (entries ?s) \<subseteq> set (entries s1)"
      "set (entries (index_identity m (rn_Down e (i + j)) identity' s1)) \<subseteq> set (entries s')"
      "\<forall>r conf d. match' = Some (r, conf, d) \<longrightarrow> buildRepostMatch r conf d (i + j) \<in> set matches'"
      using Suc by auto
    with index_identity_grows [of s m "rn_Down e i" identity] show ?thesis
      by (intro exI [of _ s1] exI [of _ identity'] exI [of _ match'] conjI) blast+
  qed
qed simp

text \<open>
  C16: A repost is reported: once a message of one user, not an edit, with a link or an attachment
  was indexed, a later message of another user in the same instance with a link of the same
  identity or an attachment of the same content is answered with an identical match at that
  candidate, first posted no later than the first message, as long as its entry is still there and
  neither call was cut short before the candidate or had that statement fail.
\<close>

theorem repost_is_reported:
  assumes "RepostServer_CheckRepost v1 e1 req1 s0 = (Inr ms1, s1)" and "check_message e1 req1 s0 = Inr m1"
    and "j1 < length (kq_Candidates req1)" and "resolves v1 (kq_Candidates req1 ! j1) = Some k" and "k \<noteq> Inl []"
    and "\<not> kq_Edit req1" and "gets_to e1 j1" and "\<not> rn_Down e1 j1 StmtInsert"
    and "set (entries s1) \<subseteq> set (entries s2)"
    and "RepostServer_CheckRepost v2 e2 req2 s2 = (Inr ms2, s3)" and "check_message e2 req2 s2 = Inr m2"
    and "mi_Instance m2 = mi_Instance m1" and "mi_Caller m2 \<noteq> mi_Caller m1"
    and "j2 < length (kq_Candidates req2)" and "resolves v2 (kq_Candidates req2 ! j2) = Some k"
    and "gets_to e2 j2" and "\<not> rn_Down e2 j2 (lookup_stmt k)"
  shows "list_ex (\<lambda>x. rm_Index x = j2 \<and> rm_Confidence x = CONFIDENCE_IDENTICAL \<and> rm_Distance x = 0
    \<and> rm_PostedAt x \<le> mi_PostedAt m1) ms2"
proof -
  have run1: "check_loop v1 e1 m1 0 (kq_Candidates req1) [] s0 = (ms1, s1)"
    and run2: "check_loop v2 e2 m2 0 (kq_Candidates req2) [] s2 = (ms2, s3)"
    using assms(1,2,10,11) by (simp_all add: RepostServer_CheckRepost_def split: prod.splits)
  have live: "\<forall>k \<le> j. \<not> rn_Cancelled e (0 + k)" if "gets_to e j" for e j
    using that by (auto simp: gets_to_def list_all_iff)
  from check_loop_reaches [OF run1 assms(3) live [OF assms(7)]] obtain t i match where
    t: "checkCandidate v1 (rn_Down e1 j1) t (mi_Instance m1) (mi_Caller m1) (kq_Candidates req1 ! j1) = (Some i, match)"
    and kept: "set (entries (index_identity m1 (rn_Down e1 j1) (Some i) t)) \<subseteq> set (entries s1)"
    and i: "\<And>n m. carries k (entry_of n (entry_params m i))"
    using identity_carries [OF assms(4,5)] by (metis add_0 prod.inject)
  define r where "r = entry_of (next_entry_id t) (entry_params m1 i)"
  have "carries k r" by (simp add: r_def i)
  moreover have "r \<in> set (entries (index_identity m1 (rn_Down e1 j1) (Some i) t))"
    using \<open>carries k r\<close> check_message_info [OF assms(2)] assms(6,8)
    by (auto simp: index_identity_def CreateRepostEntry_def Let_def carries_def r_def split: sum.splits)
  then have "r \<in> set (entries s2)" using kept assms(9) by blast
  moreover have "re_InstanceID r = mi_Instance m1" "re_UserID r = nullStr (mi_Caller m1)" "re_PostedAt r = mi_PostedAt m1"
    by (simp_all add: r_def entry_of_def entry_params_def)
  ultimately have r: "carries k r" "foreign_entry s (mi_Instance m2) (mi_Caller m2) r" "re_PostedAt r = mi_PostedAt m1"
    if "set (entries s2) \<subseteq> set (entries s)" for s
    using that assms(12,13) by (auto simp: foreign_entry_def not_by_def nullStr_def)
  from check_loop_reaches [OF run2 assms(14) live [OF assms(16)]] obtain u identity match where
    u: "checkCandidate v2 (rn_Down e2 j2) u (mi_Instance m2) (mi_Caller m2) (kq_Candidates req2 ! j2) = (identity, match)"
    "set (entries s2) \<subseteq> set (entries u)"
    "\<And>r conf d. match = Some (r, conf, d) \<Longrightarrow> buildRepostMatch r conf d j2 \<in> set ms2" by auto
  from candidate_found [where down = "rn_Down e2 j2", OF assms(15) r(2,1) [OF u(2)] assms(17)] u(1) obtain r' where
    "match = Some (r', CONFIDENCE_IDENTICAL, 0)" "re_PostedAt r' \<le> re_PostedAt r" by (metis prod.inject)
  with u(3) r(3) [OF u(2)] show ?thesis
    by (auto simp: list_ex_iff buildRepostMatch_def intro!: bexI [of _ "buildRepostMatch r' CONFIDENCE_IDENTICAL 0 j2"])
qed

text \<open>Two pages and two uploads of one picture.\<close>

definition example_parse :: "string \<Rightarrow> url option" where
  "example_parse s = (if s = ''x'' \<or> s = ''y'' then Some (example_url\<lparr>url_Path := CHR ''/'' # s\<rparr>) else demo_parse s)"

definition example_reposts :: repost_server where
  "example_reposts = NewRepostServer
     \<lparr>su_Lower = id, su_Parse = example_parse, su_Transport = example_transport,
       su_Sniffer = \<lparr>sn_Detect = (\<lambda>_. ''image/png''), sn_Sha256Hex = id\<rparr>, su_Sha256 = id,
       su_Imaging = \<lparr>im_Config = (\<lambda>_. None), im_Decode = (\<lambda>_. None :: unit option), im_Size = (\<lambda>_. (0, 0)),
         im_LowEntropy = (\<lambda>_. True), im_PHash = (\<lambda>_. None), im_Frame = (\<lambda>_. None)\<rparr>,
       su_LookPath = (\<lambda>_. None)\<rparr>
     \<lparr>ro_Tiers = DefaultTiers, ro_FFmpegPath = [], ro_MinWidth = 128, ro_MinHeight = 128, ro_ExcludedHosts = []\<rparr>"

definition repost_call :: "string \<Rightarrow> instant \<Rightarrow> repost_env" where
  "repost_call u now = \<lparr>rn_Env = example_env\<lparr>te_Now := now,
       te_Ctx := (te_Ctx example_env)\<lparr>cx_Caller := Some (example_user\<lparr>us_ID := u\<rparr>)\<rparr>\<rparr>,
     rn_Down = (\<lambda>_ _. False), rn_Cancelled = (\<lambda>_. False), rn_DestinationDown = False\<rparr>"

definition repost_msg :: "string \<Rightarrow> repost_candidate list \<Rightarrow> check_repost_req" where
  "repost_msg m cs = \<lparr>kq_MessageUid = Some m, kq_AuthorUid = Some ''a'', kq_Candidates = cs,
     kq_PostedAt = None, kq_Edit = False\<rparr>"

definition first_post :: "repost_match list rpc \<times> repost_db" where
  "first_post = RepostServer_CheckRepost example_reposts (repost_call ''u'' 100)
     (repost_msg ''m1'' [\<lparr>ca_Kind = 1, ca_Url = ''a''\<rparr>, \<lparr>ca_Kind = 2, ca_Url = ''x''\<rparr>]) example_index"

definition second_post :: "repost_match list rpc \<times> repost_db" where
  "second_post = RepostServer_CheckRepost example_reposts (repost_call ''v'' 200)
     (repost_msg ''m2'' [\<lparr>ca_Kind = 2, ca_Url = ''y''\<rparr>, \<lparr>ca_Kind = 1, ca_Url = ''b''\<rparr>]) (snd first_post)"

lemma first_post_eq: "fst first_post = Inr []" and second_post_eq: "fst second_post = Inr
    [buildRepostMatch (entries (snd first_post) ! 2) CONFIDENCE_IDENTICAL 0 0,
     buildRepostMatch (entries (snd first_post) ! 1) CONFIDENCE_IDENTICAL 0 1]"
  by code_simp+

definition second_info :: message_info where
  "second_info = \<lparr>mi_Instance = 4, mi_Destination = None, mi_Caller = ''v'',
     mi_Ref = NewRepostMsgRef ''g'' ''c'' ''m2'' ''a'', mi_PostedAt = 200, mi_Edit = False\<rparr>"

lemma second_info_eq:
  "check_message (repost_call ''v'' 200)
     (repost_msg ''m2'' [\<lparr>ca_Kind = 2, ca_Url = ''y''\<rparr>, \<lparr>ca_Kind = 1, ca_Url = ''b''\<rparr>]) (snd first_post) = Inr second_info"
  by code_simp

lemma first_post_ok: "index_ok (snd first_post)"
  unfolding first_post_def by (rule CheckRepost_ok [OF example_index_ok])

theorem reposts_scoped_witness:
  "length (entries (snd second_post)) = 5 \<and> length (entries (snd first_post)) = 3
   \<and> adds_only second_info (snd first_post) (snd second_post)"
proof (intro conjI)
  from reposts_scoped [OF _ second_info_eq _ first_post_ok] second_post_eq
  show "adds_only second_info (snd first_post) (snd second_post)"
    by (simp add: second_post_def second_info_def prod_eq_iff)
qed code_simp+

theorem repost_is_reported_witness:
  "list_ex (\<lambda>x. rm_Index x = 1 \<and> rm_Confidence x = CONFIDENCE_IDENTICAL \<and> rm_Distance x = 0
     \<and> rm_PostedAt x \<le> 100) (projr (fst second_post))"
proof -
  let ?k = "Inl ''url:https://example.com/p?a=1&b=2''"
  have m1: "check_message (repost_call ''u'' 100)
     (repost_msg ''m1'' [\<lparr>ca_Kind = 1, ca_Url = ''a''\<rparr>, \<lparr>ca_Kind = 2, ca_Url = ''x''\<rparr>]) example_index
     = Inr (second_info\<lparr>mi_Caller := ''u'', mi_Ref := NewRepostMsgRef ''g'' ''c'' ''m1'' ''a'', mi_PostedAt := 100\<rparr>)"
    by code_simp
  have k: "resolves example_reposts \<lparr>ca_Kind = 1, ca_Url = ''a''\<rparr> = Some ?k"
    "resolves example_reposts \<lparr>ca_Kind = 1, ca_Url = ''b''\<rparr> = Some ?k" by code_simp+
  have calls: "RepostServer_CheckRepost example_reposts (repost_call ''u'' 100)
     (repost_msg ''m1'' [\<lparr>ca_Kind = 1, ca_Url = ''a''\<rparr>, \<lparr>ca_Kind = 2, ca_Url = ''x''\<rparr>]) example_index
     = (Inr [], snd first_post)"
    "RepostServer_CheckRepost example_reposts (repost_call ''v'' 200)
     (repost_msg ''m2'' [\<lparr>ca_Kind = 2, ca_Url = ''y''\<rparr>, \<lparr>ca_Kind = 1, ca_Url = ''b''\<rparr>]) (snd first_post)
     = (Inr (projr (fst second_post)), snd second_post)"
    using first_post_eq second_post_eq by (simp_all add: first_post_def [symmetric] second_post_def [symmetric] prod_eq_iff)
  from repost_is_reported [OF calls(1) m1 _ _ _ _ _ _ _ calls(2) second_info_eq, of 0 ?k 1] k
  show ?thesis by (simp add: second_info_def repost_msg_def repost_call_def gets_to_def)
qed

end
