(* ===== verification/DiscordReposts.thy ===== *)
theory DiscordReposts
  imports DiscordTools RepostServer
begin

text \<open>
  The repost check of a chat message (\<open>pkg/discord/repost.go\<close>): what \<open>handleMessage\<close> starts for a
  message and \<open>handleMessageUpdate\<close> for an edit, from the candidates of the message to the one
  notification it may post. The third component of an attachment is its content type, after its URL
  and file name. The deadline of the call shows as an error of it.
\<close>

section \<open>Candidates\<close>

definition maxRepostCandidates :: nat where "maxRepostCandidates = 20"
definition maxConcurrentRepostAttempts :: nat where "maxConcurrentRepostAttempts = 4"

definition repostAttachmentKind :: "(nat \<Rightarrow> nat) \<Rightarrow> string \<times> string \<times> string \<Rightarrow> int" where
  "repostAttachmentKind lc a = (case a of (url, filename, contentType) \<Rightarrow>
     if contentType \<noteq> [] then KindFromContentType lc contentType else KindFromFilename lc filename)"

text \<open>Whether the links hit the cap and end the function is the flag.\<close>

fun link_candidates :: "string list \<Rightarrow> repost_candidate list \<Rightarrow> repost_candidate list \<times> bool" where
  "link_candidates [] cs = (cs, False)"
| "link_candidates (rawURL # urls) cs =
    (if maxRepostCandidates \<le> length cs then (cs, True)
     else link_candidates urls (cs @ [\<lparr>ca_Kind = KIND_LINK, ca_Url = rawURL\<rparr>]))"

fun attachment_candidates ::
  "(nat \<Rightarrow> nat) \<Rightarrow> (string \<times> string \<times> string) option list \<Rightarrow> repost_candidate list \<Rightarrow> repost_candidate list" where
  "attachment_candidates lc [] cs = cs"
| "attachment_candidates lc (a # as) cs =
    (if maxRepostCandidates \<le> length cs then cs
     else case a of
         None \<Rightarrow> attachment_candidates lc as cs
       | Some att \<Rightarrow> if fst att = [] then attachment_candidates lc as cs
           else attachment_candidates lc as (cs @ [\<lparr>ca_Kind = repostAttachmentKind lc att, ca_Url = fst att\<rparr>]))"

definition repostCandidates :: "(nat \<Rightarrow> nat) \<Rightarrow> discord_message \<Rightarrow> repost_candidate list" where
  "repostCandidates lc m = (case link_candidates (ExtractURLs (dm_Content m)) [] of
     (cs, full) \<Rightarrow> if full then cs else attachment_candidates lc (dm_Attachments m) cs)"

section \<open>The notification\<close>

definition wanhaContent :: "repost_match \<Rightarrow> string" where
  "wanhaContent x =
    (let ref = repost_match.rm_Ref x;
         relative = '' '' @ timestampTag (rm_PostedAt x) ''R'';
         poster = (if mr_AuthorUid ref \<noteq> [] then mention (mr_AuthorUid ref) else ''someone'');
         verb = (if rm_Confidence x = CONFIDENCE_HIGH then ''already posted something very similar to this''
           else if rm_Confidence x = CONFIDENCE_PROBABLE then ''may have already posted something like this''
           else ''already posted this'')
     in ''**WANHA** '' @ em_dash @ '' '' @ poster @ '' '' @ verb @ relative
        @ (if mr_InstanceUid ref \<noteq> [] \<and> mr_DestinationUid ref \<noteq> [] \<and> mr_MessageUid ref \<noteq> []
           then line_break @ ''https://discord.com/channels/'' @ mr_InstanceUid ref @ ''/'' @ mr_DestinationUid ref
             @ ''/'' @ mr_MessageUid ref
           else []))"

type_synonym 'b repost_call = "outgoing \<Rightarrow> check_repost_req \<Rightarrow> 'b \<Rightarrow> repost_match list rpc \<times> 'b"

definition repost_request :: "discord_message \<Rightarrow> bool \<Rightarrow> repost_candidate list \<Rightarrow> check_repost_req" where
  "repost_request m edit cs = \<lparr>kq_MessageUid = Some (dm_ID m), kq_AuthorUid = Some (ik_ID (author_of m)),
     kq_Candidates = cs, kq_PostedAt = Some (dm_Timestamp m), kq_Edit = edit\<rparr>"

text \<open>\<open>busy\<close> is the number of checks in flight when the slot is asked for.\<close>

definition attemptRepost ::
  "('h, 'b) discord_env \<Rightarrow> chat_env \<Rightarrow> 'b repost_call \<Rightarrow> nat \<Rightarrow> discord_message option \<Rightarrow> bool \<Rightarrow> 'b bot \<Rightarrow> 'b bot option" where
  "attemptRepost e c check busy event edit st = (case event of
     None \<Rightarrow> Some st
   | Some m \<Rightarrow>
       if dm_GuildID m = [] then Some st
       else let candidates = repostCandidates (de_Lower e) m in
         if candidates = [] then Some st
         else if maxConcurrentRepostAttempts \<le> busy then Some st
         else (case check (cc_Outgoing (messageContext m)) (repost_request m edit candidates) (bt_Backend st) of
             (Inl err, b) \<Rightarrow> Some (st\<lparr>bt_Backend := b\<rparr>)
           | (Inr [], b) \<Rightarrow> Some (st\<lparr>bt_Backend := b\<rparr>)
           | (Inr (x # xs), b) \<Rightarrow>
               let content = wanhaContent x in
               if content = [] then Some (st\<lparr>bt_Backend := b\<rparr>)
               else map_option (\<lambda>(sent, s). st\<lparr>bt_Backend := b, bt_Session := s\<rparr>)
                 (respondChat (de_Down e) (ce_NewID c) (ce_DMOf c) (chat_of m) (Some (public_reply content)) (bt_Session st))))"

section \<open>Which candidates are offered\<close>

definition link_of :: "string \<Rightarrow> repost_candidate" where
  "link_of u = \<lparr>ca_Kind = KIND_LINK, ca_Url = u\<rparr>"

definition attachments_of :: "(nat \<Rightarrow> nat) \<Rightarrow> (string \<times> string \<times> string) option list \<Rightarrow> repost_candidate list" where
  "attachments_of lc as = concat (map (\<lambda>a. case a of
     None \<Rightarrow> [] | Some att \<Rightarrow> if fst att = [] then [] else [\<lparr>ca_Kind = repostAttachmentKind lc att, ca_Url = fst att\<rparr>]) as)"

lemma link_candidates_take:
  "length cs \<le> 20 \<Longrightarrow> fst (link_candidates us cs) = take 20 (cs @ map link_of us)
     \<and> (snd (link_candidates us cs) \<longleftrightarrow> 20 < length cs + length us)"
  by (induction us arbitrary: cs) (auto simp: maxRepostCandidates_def link_of_def take_Cons')

lemma attachment_candidates_take:
  "length cs \<le> 20 \<Longrightarrow> attachment_candidates lc as cs = take 20 (cs @ attachments_of lc as)"
  by (induction as arbitrary: cs) (auto simp: maxRepostCandidates_def attachments_of_def take_Cons' split: option.splits)

text \<open>The first twenty, links before attachments, each in the order of the message.\<close>

lemma repostCandidates_eq:
  "repostCandidates lc m = take 20 (map link_of (ExtractURLs (dm_Content m)) @ attachments_of lc (dm_Attachments m))"
proof -
  obtain cs full where l: "link_candidates (ExtractURLs (dm_Content m)) [] = (cs, full)" by fastforce
  with link_candidates_take [of "[]" "ExtractURLs (dm_Content m)"]
  have cs: "cs = take 20 (map link_of (ExtractURLs (dm_Content m)))" "full \<longleftrightarrow> 20 < length (ExtractURLs (dm_Content m))"
    by simp_all
  show ?thesis
  proof (cases full)
    case True
    with l cs show ?thesis by (simp add: repostCandidates_def)
  next
    case False
    with l cs attachment_candidates_take [of cs lc "dm_Attachments m"] show ?thesis
      by (simp add: repostCandidates_def)
  qed
qed

section \<open>What is said\<close>

definition wanha_reply :: "discord_message \<Rightarrow> repost_match \<Rightarrow> request" where
  "wanha_reply m x = plan_reply (dm_ChannelID m) (planResponse SourceChat (public_reply (wanhaContent x)) []) (Some (dm_ID m))"

lemma wanha_nonempty [simp]: "wanhaContent x \<noteq> []"
  by (simp add: wanhaContent_def Let_def)

text \<open>A check ends, says at most one thing, and that about the first match of the call it made.\<close>

lemma attemptRepost_shape:
  "\<exists>st'. attemptRepost e c check busy event edit st = Some st'
     \<and> (st' = st \<or> (\<exists>m res. event = Some m \<and> dm_GuildID m \<noteq> []
          \<and> check (cc_Outgoing (messageContext m)) (repost_request m edit (repostCandidates (de_Lower e) m)) (bt_Backend st)
              = (res, bt_Backend st')
          \<and> bt_Session st' = bt_Session st @ (case res of Inr (x # xs) \<Rightarrow> [wanha_reply m x] | _ \<Rightarrow> [])
          \<and> bt_Undo st' = bt_Undo st \<and> bt_Attempts st' = bt_Attempts st \<and> bt_Reposts st' = bt_Reposts st))"
proof (cases event)
  case (Some m)
  show ?thesis
  proof (cases "dm_GuildID m = [] \<or> repostCandidates (de_Lower e) m = [] \<or> maxConcurrentRepostAttempts \<le> busy")
    case False
    obtain res b where call: "check (cc_Outgoing (messageContext m))
        (repost_request m edit (repostCandidates (de_Lower e) m)) (bt_Backend st) = (res, b)" by fastforce
    have said: "\<exists>sent. respondChat down new_id dm_of (chat_of m) (Some (public_reply (wanhaContent x))) s
        = Some (sent, s @ [wanha_reply m x])" for down new_id dm_of x s
      by (simp add: respondChat_def public_reply_def empty_response_def sent_id_def call_discord_def wanha_reply_def
          chat_of_def Let_def split_beta)
    show ?thesis
    proof (cases "\<exists>x xs. res = Inr (x # xs)")
      case True
      then obtain x xs where "res = Inr (x # xs)" by blast
      with False Some call said [of "de_Down e" "ce_NewID c" "ce_DMOf c" x "bt_Session st"] show ?thesis
        by (auto simp: attemptRepost_def Let_def)
    next
      case no: False
      with False Some call show ?thesis
        by (cases res) (auto simp: attemptRepost_def Let_def neq_Nil_conv split: list.splits)
    qed
  qed (use Some in \<open>auto simp: attemptRepost_def Let_def\<close>)
qed (simp add: attemptRepost_def)

text \<open>
  The comment is true: with the server's own check behind the client, a check posts at most one
  reply, to the message that was checked and in its channel, and what the reply quotes was in the
  index of the caller's own instance before, posted by somebody else.
\<close>

theorem wanha_truthful:
  assumes "attemptRepost e c (\<lambda>out. RepostServer_CheckRepost v (call out)) busy (Some msg) edit st = Some st'"
    and "check_message (call (cc_Outgoing (messageContext msg)))
      (repost_request msg edit (repostCandidates (de_Lower e) msg)) (bt_Backend st) = Inr m"
    and "mi_Caller m \<noteq> []" and "index_ok (bt_Backend st)"
  shows "index_ok (bt_Backend st') \<and> (bt_Session st' = bt_Session st
     \<or> (\<exists>x. bt_Session st' = bt_Session st @ [wanha_reply msg x] \<and> reports (bt_Backend st) m x))"
proof -
  from attemptRepost_shape [of e c "\<lambda>out. RepostServer_CheckRepost v (call out)" busy "Some msg" edit st] assms(1)
  consider "st' = st" | res where
    "RepostServer_CheckRepost v (call (cc_Outgoing (messageContext msg)))
       (repost_request msg edit (repostCandidates (de_Lower e) msg)) (bt_Backend st) = (res, bt_Backend st')"
    "bt_Session st' = bt_Session st @ (case res of Inr (x # xs) \<Rightarrow> [wanha_reply msg x] | _ \<Rightarrow> [])"
    by auto
  then show ?thesis
  proof cases
    case 2
    then obtain matches where run: "check_loop v (call (cc_Outgoing (messageContext msg))) m 0
        (repostCandidates (de_Lower e) msg) [] (bt_Backend st) = (matches, bt_Backend st')" and "res = Inr matches"
      using assms(2) by (auto simp: RepostServer_CheckRepost_def repost_request_def split: prod.splits)
    from check_loop_spec [OF run assms(3) adds_only_refl _ assms(4)] 2(2) this show ?thesis
      by (cases matches) auto
  qed (use assms(4) in simp)
qed

end
