(* ===== verification/DiscordStart.thy ===== *)
theory DiscordStart
  imports DiscordCatalogue
begin

text \<open>
  The evaluation of the bot's own catalogue, in a theory of its own because it takes a minute: that
  \<open>initCommands\<close> of \<open>pkg/discord/commands.go\<close> succeeds on \<open>commandDefinitions\<close>.
\<close>

lemma catalogue_registers: "\<not> isl (initCommands id)" by code_simp

text \<open>
  C20: The bot starts: registering its own catalogue succeeds and every generated application
  command is one Discord accepts; afterwards each declared command answers to its name and to
  every alias of it, and as the subcommand of its group. (The letters outside ASCII of the
  aliases are their own lower case, so \<open>id\<close> stands for Unicode's table.)
\<close>

theorem catalogue_starts:
  "\<exists>r. initCommands id = Inr r \<and> list_all (application_ok id) (applicationCommands id r)
     \<and> (\<forall>cmd \<in> set (commandDefinitions id).
          (\<forall>name \<in> insert (cmd_Name cmd) (set (cmd_Aliases cmd)). \<forall>args. ResolveChat id r name args = Some (cmd, args))
          \<and> (cmd_Group cmd = [] \<or> (\<forall>args. ResolveChat id r (cmd_Group cmd) (cmd_Sub cmd # args) = Some (cmd, args))))"
proof -
  obtain r where r: "initCommands id = Inr r" using catalogue_registers by (cases "initCommands id") simp_all
  note s = started [OF r]
  have "\<forall>cmd \<in> set (commandDefinitions id). cmd_Group cmd = [] \<or> fold_name id (cmd_Group cmd) \<noteq> []" by code_simp
  with s r show ?thesis by (auto simp: cmd_keys_def intro!: resolves)
qed

theorem catalogue_starts_witness:
  "\<exists>r. initCommands id = Inr r \<and> ResolveChat id r ''remindme'' [''in 1h'', ''tea''] = Some (remindCommand, [''in 1h'', ''tea''])
     \<and> ResolveChat id r ''reminder'' [''add'', ''in 1h'', ''tea''] = Some (remindCommand, [''in 1h'', ''tea''])"
proof -
  have "remindCommand \<in> set (commandDefinitions id)" "''remindme'' \<in> set (cmd_Aliases remindCommand)"
    "cmd_Group remindCommand = ''reminder''" "cmd_Sub remindCommand = ''add''"
    by (simp_all add: commandDefinitions_def remindCommand_def grouped_def declare_command_def reminderGroup_def)
  with catalogue_starts show ?thesis by fastforce
qed

end
