(* ===== verification/DiscordSlash.thy ===== *)
theory DiscordSlash
  imports DiscordTools DiscordStart
begin

text \<open>
  The slash surface and its handlers together: what \<open>commands.go\<close> registers with Discord, what
  \<open>interactions.go\<close> makes of the choices Discord then sends, and the re-roll button of
  \<open>entertainment.go\<close>. Every choice the registered menu allows reaches the command it was generated
  from with the chosen values, for the catalogue of this bot.
\<close>

section \<open>Where the application commands come from\<close>

text \<open>An application command is one command, or the parent of commands of one group.\<close>

definition parent_app :: "(nat \<Rightarrow> nat) \<Rightarrow> 'h command set \<Rightarrow> application_command \<Rightarrow> bool" where
  "parent_app lc cmds a \<longleftrightarrow> ac_Options a \<noteq> [] \<and> (\<exists>c \<in> cmds. cmd_Group c \<noteq> [] \<and> ac_Name a = cmd_Group c)
     \<and> (\<forall>opt \<in> set (ac_Options a). \<exists>c \<in> cmds. cmd_Group c \<noteq> []
          \<and> to_lower lc (cmd_Group c) = to_lower lc (ac_Name a) \<and> opt = subCommandOption c)"

definition from_commands :: "(nat \<Rightarrow> nat) \<Rightarrow> 'h command set \<Rightarrow> application_command \<Rightarrow> bool" where
  "from_commands lc cmds a \<longleftrightarrow>
     (\<exists>c \<in> cmds. cmd_Group c = [] \<and> a = topLevelApplicationCommand c) \<or> parent_app lc cmds a"

definition apps_from :: "(nat \<Rightarrow> nat) \<Rightarrow> 'h command set \<Rightarrow> application_command list \<times> (string \<rightharpoonup> nat) \<Rightarrow> bool" where
  "apps_from lc cmds st \<longleftrightarrow> (\<forall>a \<in> set (fst st). from_commands lc cmds a)
     \<and> (\<forall>key i. snd st key = Some i \<longrightarrow> i < length (fst st) \<and> parent_app lc cmds (fst st ! i)
          \<and> to_lower lc (ac_Name (fst st ! i)) = key)"

lemma parent_app_more:
  "parent_app lc cmds a \<Longrightarrow> c \<in> cmds \<Longrightarrow> cmd_Group c \<noteq> [] \<Longrightarrow> to_lower lc (cmd_Group c) = to_lower lc (ac_Name a) \<Longrightarrow>
     parent_app lc cmds (a\<lparr>ac_Options := ac_Options a @ [subCommandOption c]\<rparr>)"
  unfolding parent_app_def by auto

lemma parent_app_new:
  "c \<in> cmds \<Longrightarrow> cmd_Group c \<noteq> [] \<Longrightarrow> parent_app lc cmds \<lparr>ac_Name = cmd_Group c, ac_Description = d,
     ac_Options = [subCommandOption c], ac_Localization = l\<rparr>"
  unfolding parent_app_def by auto

lemma add_application_from:
  assumes inv: "apps_from lc cmds (apps, parents)" and c: "c \<in> cmds"
  shows "apps_from lc cmds (add_application lc c (apps, parents))"
proof (cases "cmd_Group c = []")
  case True
  with inv c show ?thesis by (auto simp: apps_from_def add_application_def from_commands_def nth_append less_SucI)
next
  case False
  let ?key = "to_lower lc (cmd_Group c)"
  show ?thesis
  proof (cases "parents ?key")
    case None
    with inv False parent_app_new [OF c False] show ?thesis
      by (auto simp: apps_from_def add_application_def from_commands_def Let_def nth_append less_Suc_eq list_update_append)
  next
    case (Some i)
    with inv have i: "i < length apps" "parent_app lc cmds (apps ! i)" "to_lower lc (ac_Name (apps ! i)) = ?key"
      by (auto simp: apps_from_def)
    with parent_app_more [OF i(2) c False] inv False Some show ?thesis
      by (auto simp: apps_from_def add_application_def from_commands_def Let_def nth_list_update
          dest!: set_update_subset_insert [THEN subsetD])
  qed
qed

lemma fold_from:
  "apps_from lc cmds st \<Longrightarrow> set cs \<subseteq> cmds \<Longrightarrow> apps_from lc cmds (fold (add_application lc) cs st)"
  by (induction cs arbitrary: st) (simp_all add: add_application_from [of lc cmds "fst st" "snd st" for st, simplified])

lemma applications_from: "a \<in> set (applicationCommands lc r) \<Longrightarrow> from_commands lc (set (All_commands r)) a"
  using fold_from [of lc "set (All_commands r)" "([], Map.empty)" "All_commands r"]
  by (simp add: apps_from_def applicationCommands_def)

section \<open>What registration leaves\<close>

lemma set_update_sub: "set (AList.update k v al) \<subseteq> insert (k, v) (set al)"
  by (induction al) auto

text \<open>Only the given commands are registered, and the groups are spelled as one of them spells it.\<close>

definition holds_only :: "(nat \<Rightarrow> nat) \<Rightarrow> 'h command set \<Rightarrow> 'h registry \<Rightarrow> bool" where
  "holds_only lc cmds r \<longleftrightarrow> snd ` set (reg_commands r) \<subseteq> cmds
     \<and> (\<forall>key g. map_of (reg_groups r) key = Some g \<longrightarrow>
          (\<exists>c \<in> cmds. fold_name lc (cmd_Group c) = key \<and> group_name g = trim_space (cmd_Group c)))"

lemma insert_holds_only:
  assumes "holds_only lc cmds r" and "c \<in> cmds"
  shows "holds_only lc cmds (insert_command n keys (fold_name lc (cmd_Group c)) s c r)"
proof -
  have "snd ` set (AList.update n c (reg_commands r)) \<subseteq> cmds"
    using assms set_update_sub [of n c "reg_commands r"] by (force simp: holds_only_def)
  with assms show ?thesis
    by (auto simp: holds_only_def insert_command_def Let_def update_conv split: option.splits if_splits)
qed

lemma definitions_hold_only:
  "register_definitions lc cs r = Inr r' \<Longrightarrow> holds_only lc cmds r \<Longrightarrow> set cs \<subseteq> cmds \<Longrightarrow> holds_only lc cmds r'"
proof (induction cs arbitrary: r)
  case (Cons c cs)
  from Cons.prems(1) obtain r1 where reg: "Register lc c r = (Inr (), r1)" "register_definitions lc cs r1 = Inr r'"
    by (auto split: prod.splits sum.splits)
  from Register_Inr [OF reg(1)] Cons.prems(2,3) have "holds_only lc cmds r1"
    using insert_holds_only by (metis insert_subset list.simps(15))
  with Cons.IH [OF reg(2)] Cons.prems(3) show ?case by simp
qed simp

lemma catalogue_only:
  assumes "initCommands lc = Inr r"
  shows "holds_only lc (set (commandDefinitions lc)) r"
proof -
  have "register_definitions lc (commandDefinitions lc) NewRegistry = Inr r"
    using assms by (cases "register_definitions lc (commandDefinitions lc) NewRegistry")
      (auto simp: initCommands_def split: sum.splits option.splits if_splits)
  moreover have "holds_only lc (set (commandDefinitions lc)) NewRegistry"
    by (simp add: holds_only_def NewRegistry_def)
  ultimately show ?thesis using definitions_hold_only by blast
qed

section \<open>Binding what the menu allows\<close>

text \<open>The value discordgo reads of an option, by the type it carries.\<close>

definition option_value :: "slash_option \<Rightarrow> anyval" where
  "option_value opt = (if so_Type opt = OptionInteger then VInt64 (so_IntValue opt)
     else if so_Type opt = OptionBoolean then VBool (so_BoolValue opt) else VString (so_StringValue opt))"

definition option_values :: "slash_option list \<Rightarrow> string \<rightharpoonup> anyval" where
  "option_values opts = map_of (map (\<lambda>opt. (so_Name opt, option_value opt)) opts)"

text \<open>What Discord lets a user submit: each option is declared, at most once, with its type, and none required is missing.\<close>

definition fits :: "app_option list \<Rightarrow> slash_option list \<Rightarrow> bool" where
  "fits ds opts \<longleftrightarrow> distinct (map so_Name opts)
     \<and> (\<forall>opt \<in> set opts. \<exists>d \<in> set ds. so_Name opt = op_Name d \<and> so_Type opt = op_Type d)
     \<and> (\<forall>d \<in> set ds. op_Required d \<longrightarrow> op_Name d \<in> so_Name ` set opts)"

lemmas option_types = OptionSubCommand_def OptionString_def OptionInteger_def OptionBoolean_def

lemma option_args_values:
  "\<forall>opt \<in> set opts. so_Type opt \<in> {OptionInteger, OptionBoolean, OptionString} \<Longrightarrow> distinct (map so_Name opts) \<Longrightarrow>
     option_args quote m opts = Inr (m ++ option_values opts)"
proof (induction opts arbitrary: m)
  case (Cons opt opts)
  have fresh: "so_Name opt \<notin> dom (option_values opts)"
    using Cons.prems(2) by (auto simp: option_values_def dom_map_of_conv_image_fst)
  have "option_args quote m (opt # opts) = option_args quote (m(so_Name opt \<mapsto> option_value opt)) opts"
    using Cons.prems(1) by (auto simp: option_value_def option_types)
  also have "\<dots> = Inr (m(so_Name opt \<mapsto> option_value opt) ++ option_values opts)"
    using Cons by simp
  also have "m(so_Name opt \<mapsto> option_value opt) ++ option_values opts = m ++ option_values (opt # opts)"
    using fresh by (simp add: option_values_def map_add_upd_left)
  finally show ?case .
qed (simp add: option_values_def)

lemma bind_named_returns:
  "\<forall>a \<in> set as. (args (arg_Name a) = None \<longrightarrow> \<not> arg_Required a)
      \<and> (\<forall>v. args (arg_Name a) = Some v \<longrightarrow> coerceArg cmd a v = Inr v) \<Longrightarrow>
     \<exists>call'. bind_named_loop cmd args call as = Inr call'"
  by (induction as arbitrary: call) (auto simp: Let_def split: option.splits)

definition args_ok :: "'h command \<Rightarrow> bool" where
  "args_ok cmd \<longleftrightarrow> distinct (map arg_Name (cmd_Args cmd))
     \<and> list_all (\<lambda>a. arg_Type a \<in> {ArgString, ArgInt, ArgBool}) (cmd_Args cmd)"

lemma coerce_fitting:
  "arg_Type a \<in> {ArgString, ArgInt, ArgBool} \<Longrightarrow> so_Type opt = applicationCommandOptionType (arg_Type a) \<Longrightarrow>
     coerceArg cmd a (option_value opt) = Inr (option_value opt)"
  by (auto simp: coerceArg_def option_value_def applicationCommandOptionType_def arg_types option_types toInt64_def)

lemma fitting_binds:
  assumes cmd: "args_ok cmd" and fit: "fits (applicationCommandOptions (cmd_Args cmd)) opts"
  shows "\<exists>call. invocationFromOptions quote cmd opts = Inr call \<and> inv_Args call = option_values opts
     \<and> (\<forall>a \<in> set (cmd_Args cmd). inv_specs call (arg_Name a) = Some a)"
proof -
  have known: "\<exists>a \<in> set (cmd_Args cmd). so_Name opt = arg_Name a \<and> so_Type opt = applicationCommandOptionType (arg_Type a)"
    if "opt \<in> set opts" for opt
    using fit that by (auto simp: fits_def applicationCommandOptions_def)
  then have "\<forall>opt \<in> set opts. so_Type opt \<in> {OptionInteger, OptionBoolean, OptionString}"
    by (force simp: applicationCommandOptionType_def)
  moreover have dist: "distinct (map so_Name opts)" using fit by (simp add: fits_def)
  ultimately have args: "option_args quote Map.empty opts = Inr (option_values opts)"
    by (simp add: option_args_values)
  have value_of: "\<exists>opt \<in> set opts. so_Name opt = n \<and> v = option_value opt" if "option_values opts n = Some v" for n v
    using that by (auto simp: option_values_def dest!: map_of_SomeD)
  have coerced: "coerceArg cmd a v = Inr v" if a: "a \<in> set (cmd_Args cmd)" and v: "option_values opts (arg_Name a) = Some v" for a v
  proof -
    obtain opt where opt: "opt \<in> set opts" "so_Name opt = arg_Name a" "v = option_value opt" using value_of [OF v] by blast
    then obtain b where b: "b \<in> set (cmd_Args cmd)" "arg_Name a = arg_Name b"
      "so_Type opt = applicationCommandOptionType (arg_Type b)" using known by force
    then have "b = a" using cmd a by (auto simp: args_ok_def distinct_map inj_on_def)
    with coerce_fitting [of a opt cmd] b(3) opt(3) cmd a show ?thesis by (auto simp: args_ok_def list_all_iff)
  qed
  have required: "\<not> arg_Required a" if "a \<in> set (cmd_Args cmd)" "option_values opts (arg_Name a) = None" for a
    using fit that by (force simp: fits_def applicationCommandOptions_def option_values_def map_of_eq_None_iff)
  obtain call where call: "bind_named_loop cmd (option_values opts) \<lparr>inv_Args = Map.empty, inv_specs = Map.empty\<rparr>
      (cmd_Args cmd) = Inr call"
    using bind_named_returns [of "cmd_Args cmd" "option_values opts" cmd] coerced required by blast
  have d: "distinct (map arg_Name (cmd_Args cmd))" using cmd by (simp add: args_ok_def)
  note spec = bind_named_loop_spec [OF call d]
  have "inv_Args call n = option_values opts n" for n
  proof (cases "n \<in> arg_Name ` set (cmd_Args cmd)")
    case True
    then obtain a where a: "a \<in> set (cmd_Args cmd)" "n = arg_Name a" by blast
    with spec coerced show ?thesis by (cases "option_values opts n") fastforce+
  next
    case False
    then have "option_values opts n = None" using known value_of by (cases "option_values opts n") fastforce+
    with spec False show ?thesis by simp
  qed
  then have "inv_Args call = option_values opts" by blast
  with spec call args show ?thesis
    by (auto simp: invocationFromOptions_def bound_def BindNamed_def)
qed

section \<open>The menu is served\<close>

text \<open>A choice in the registered menu: of a command with its options, or of a subcommand with those of that one.\<close>

definition chooses :: "application_command \<Rightarrow> slash_option list \<Rightarrow> bool" where
  "chooses a opts \<longleftrightarrow>
     list_all (\<lambda>d. op_Type d \<noteq> OptionSubCommand) (ac_Options a) \<and> fits (ac_Options a) opts
     \<or> (case opts of
          [sub] \<Rightarrow> so_Type sub = OptionSubCommand \<and> (\<exists>d \<in> set (ac_Options a).
            op_Type d = OptionSubCommand \<and> op_Name d = so_Name sub \<and> fits (op_Options d) (so_Options sub))
        | _ \<Rightarrow> False)"

text \<open>The command a choice was generated from, and the options that are its arguments.\<close>

definition choice_of :: "application_command \<Rightarrow> slash_option list \<Rightarrow> 'h command \<Rightarrow> slash_option list \<Rightarrow> bool" where
  "choice_of a opts cmd leaf \<longleftrightarrow>
     cmd_Group cmd = [] \<and> ac_Name a = cmd_Name cmd \<and> leaf = opts
     \<or> cmd_Group cmd \<noteq> [] \<and> ac_Name a = cmd_Group cmd \<and> (case opts of [sub] \<Rightarrow> so_Name sub = cmd_Sub cmd \<and> leaf = so_Options sub | _ \<Rightarrow> False)"

lemma no_subcommand: "op_Type d \<noteq> OptionSubCommand" if "d \<in> set (applicationCommandOptions as)"
  using that by (auto simp: applicationCommandOptions_def applicationCommandOptionType_def option_types split: if_splits)

lemma catalogue_facts:
  "\<forall>cmd \<in> set (commandDefinitions id). args_ok cmd \<and> (cmd_Group cmd = [] \<or>
     cmd_Group cmd \<in> {triggerGroup, reminderGroup})"
  "\<forall>g \<in> {triggerGroup, reminderGroup}. fold_name id g = g \<and> to_lower id g = g \<and> trim_space g = g \<and> g \<noteq> []"
  by code_simp+

text \<open>In the catalogue two spellings of a group are the same.\<close>

lemma catalogue_group:
  assumes "c \<in> set (commandDefinitions id)" and "d \<in> set (commandDefinitions id)"
    and "cmd_Group c \<noteq> []" and "cmd_Group d \<noteq> []"
  shows "to_lower id (cmd_Group c) = to_lower id (cmd_Group d) \<Longrightarrow> cmd_Group c = cmd_Group d"
    and "fold_name id (cmd_Group c) = cmd_Group c" and "trim_space (cmd_Group c) = cmd_Group c"
  using assms catalogue_facts by metis+

lemma menu_choice:
  assumes a: "from_commands id cmds a" and cmds: "cmds \<subseteq> set (commandDefinitions id)" and opts: "chooses a opts"
  shows "\<exists>cmd \<in> cmds. \<exists>leaf. choice_of a opts cmd leaf \<and> fits (applicationCommandOptions (cmd_Args cmd)) leaf
     \<and> (cmd_Group cmd \<noteq> [] \<longrightarrow> so_Type (hd opts) = OptionSubCommand)"
  using a unfolding from_commands_def
proof
  assume "\<exists>c \<in> cmds. cmd_Group c = [] \<and> a = topLevelApplicationCommand c"
  then obtain c where c: "c \<in> cmds" "cmd_Group c = []" "a = topLevelApplicationCommand c" by blast
  with opts have "fits (applicationCommandOptions (cmd_Args c)) opts"
    by (auto simp: chooses_def topLevelApplicationCommand_def dest: no_subcommand split: list.splits)
  with c show ?thesis by (auto simp: choice_of_def topLevelApplicationCommand_def)
next
  assume p: "parent_app id cmds a"
  then have subs: "\<forall>d \<in> set (ac_Options a). op_Type d = OptionSubCommand" "ac_Options a \<noteq> []"
    by (auto simp: parent_app_def subCommandOption_def)
  then have "\<not> list_all (\<lambda>d. op_Type d \<noteq> OptionSubCommand) (ac_Options a)"
    by (cases "ac_Options a") auto
  with opts obtain sub d where s: "opts = [sub]" "so_Type sub = OptionSubCommand" "d \<in> set (ac_Options a)"
    "op_Name d = so_Name sub" "fits (op_Options d) (so_Options sub)" by (auto simp: chooses_def split: list.splits)
  from p s(3) obtain c0 c where c: "c \<in> cmds" "cmd_Group c \<noteq> []" "d = subCommandOption c"
    "to_lower id (cmd_Group c) = to_lower id (ac_Name a)" "c0 \<in> cmds" "cmd_Group c0 \<noteq> []" "ac_Name a = cmd_Group c0"
    unfolding parent_app_def by blast
  then have "ac_Name a = cmd_Group c" using catalogue_group(1) cmds by (metis subsetD)
  with c s show ?thesis
    by (intro bexI [of _ c] exI [of _ "so_Options sub"]) (auto simp: choice_of_def subCommandOption_def)
qed
lemma catalogue_nil: "fold_name id [] = []" by code_simp

lemma choice_resolves:
  assumes r: "initCommands id = Inr r" and cmd: "cmd \<in> set (commandDefinitions id)"
    and c: "choice_of a opts cmd leaf" and sub: "cmd_Group cmd \<noteq> [] \<longrightarrow> so_Type (hd opts) = OptionSubCommand"
  shows "resolveApplicationCommand id sf r (ac_Name a) opts = Some (cmd, leaf)"
proof -
  from started [OF r] cmd have ok: "registry_ok id r"
    and reg: "map_of (reg_commands r) (fold_name id (cmd_Name cmd)) = Some cmd" by auto
  show ?thesis
  proof (cases "cmd_Group cmd = []")
    case True
    with registry_okD(2) [OF ok reg, of "fold_name id (cmd_Name cmd)"] reg c show ?thesis
      by (auto simp: choice_of_def resolveApplicationCommand_def Lookup_def)
  next
    case False
    let ?g = "cmd_Group cmd"
    have g: "fold_name id ?g = ?g" using catalogue_group(2) [OF cmd cmd False False] .
    from c False obtain s where s: "ac_Name a = ?g" "opts = [s]" "so_Name s = cmd_Sub cmd" "leaf = so_Options s"
      by (auto simp: choice_of_def split: list.splits)
    have mem: "map_of (members_of r ?g) (fold_name id (cmd_Sub cmd)) = Some (fold_name id (cmd_Name cmd))"
      using registry_okD(3) [OF ok reg] g False by simp
    then obtain grp where grp: "map_of (reg_groups r) ?g = Some grp"
      by (auto simp: members_of_def split: option.splits)
    with registry_okD(6) [OF ok, of ?g] have none: "Lookup id r ?g = None"
      by (cases "map_of (reg_canonical r) ?g") (auto simp: Lookup_def g)
    from catalogue_only [OF r] grp obtain d where d: "d \<in> set (commandDefinitions id)"
      "fold_name id (cmd_Group d) = ?g" "group_name grp = trim_space (cmd_Group d)"
      unfolding holds_only_def by blast
    then have "cmd_Group d \<noteq> []" using False catalogue_nil by metis
    then have "group_name grp = ?g" using catalogue_group(2,3) [OF d(1) cmd _ False] d by simp
    with grp have "?g \<in> set (Groups r)" by (force simp: Groups_def dest: map_of_SomeD)
    then have "isCommandGroup sf r ?g" by (auto simp: isCommandGroup_def list_ex_iff intro!: bexI [of _ ?g])
    moreover have "ResolveChat id r ?g [cmd_Sub cmd] = Some (cmd, [])"
      using resolves(2) [OF ok reg] g False by simp
    ultimately show ?thesis using none s sub False by (simp add: resolveApplicationCommand_def)
  qed
qed

text \<open>
  C21: The menu is served: whatever a user submits from the slash commands the bot registered (a
  command or a subcommand, the declared options with their types, none required missing) is
  dispatched to the command of the catalogue it was generated from, with an invocation that holds
  exactly the chosen values, under their names, and the declared arguments' defaults for the rest;
  no such choice is answered as stale or refused in binding. (As for the start, \<open>id\<close> stands for
  Unicode's table of lower-case letters.)
\<close>

theorem menu_is_served:
  assumes "initCommands id = Inr (de_Registry e)" and "de_Lower e = id"
    and "a \<in> set (applicationCommands id (de_Registry e))" and "chooses a opts"
    and "ix_Data i = ApplicationCommandData (ac_Name a) opts"
  shows "\<exists>cmd \<in> set (commandDefinitions id). \<exists>leaf call.
     choice_of a opts cmd leaf \<and> inv_Args call = option_values leaf
     \<and> (\<forall>arg \<in> set (cmd_Args cmd). inv_specs call (arg_Name arg) = Some arg)
     \<and> handleInteraction e i st = runInteraction (de_Down e) (de_Run e) i cmd call st"
proof -
  have "set (All_commands (de_Registry e)) \<subseteq> set (commandDefinitions id)"
    using catalogue_only [OF assms(1)] by (simp add: holds_only_def All_commands_def)
  from menu_choice [OF applications_from [OF assms(3)] this assms(4)] this obtain cmd leaf where
    cmd: "cmd \<in> set (commandDefinitions id)" "choice_of a opts cmd leaf"
      "fits (applicationCommandOptions (cmd_Args cmd)) leaf" "cmd_Group cmd \<noteq> [] \<longrightarrow> so_Type (hd opts) = OptionSubCommand"
    by blast
  have "args_ok cmd" using catalogue_facts(1) cmd(1) by blast
  from fitting_binds [OF this cmd(3), of "de_Quote e"] obtain call where
    "invocationFromOptions (de_Quote e) cmd leaf = Inr call" "inv_Args call = option_values leaf"
    "\<forall>arg \<in> set (cmd_Args cmd). inv_specs call (arg_Name arg) = Some arg" by blast
  with choice_resolves [OF assms(1) cmd(1,2,4), of "de_Fold e"] cmd(1,2) assms(2,5) show ?thesis
    by (intro bexI [of _ cmd] exI [of _ leaf] exI [of _ call]) (simp_all add: handleInteraction_def split_beta)
qed

section \<open>The menu of the running bot\<close>

definition bot_env :: "(handler_id, nat) runner \<Rightarrow> handler_id registry \<Rightarrow> (handler_id, nat) discord_env" where
  "bot_env run r = \<lparr>de_Lower = id, de_Fold = id, de_Quote = id, de_Down = (\<lambda>_. False), de_Run = run, de_Registry = r\<rparr>"

definition number_choice :: interaction where
  "number_choice = ping_interaction\<lparr>ix_Data := ApplicationCommandData ''number''
     [SlashOption ''lower'' OptionInteger 3 False [] []]\<rparr>"

lemma catalogue_number:
  "numberCommand \<in> set (commandDefinitions id)"
  "cmd \<in> set (commandDefinitions id) \<Longrightarrow> cmd_Name cmd = ''number'' \<Longrightarrow> cmd = numberCommand"
  "cmd \<in> set (commandDefinitions id) \<Longrightarrow> cmd_Group cmd \<noteq> ''number''"
proof -
  show "numberCommand \<in> set (commandDefinitions id)" by (simp add: commandDefinitions_def)
  have names: "list_all (\<lambda>cmd. cmd_Name cmd = ''number'' \<longrightarrow> cmd_Handler cmd = Some NumberH) (commandDefinitions id)"
    by code_simp
  have "list_all (\<lambda>cmd. cmd_Handler cmd = Some NumberH \<longrightarrow> cmd = numberCommand) (commandDefinitions id)"
    by code_simp
  with names show "cmd = numberCommand" if "cmd \<in> set (commandDefinitions id)" "cmd_Name cmd = ''number''"
    using that by (auto simp: list_all_iff)
  have "list_all (\<lambda>cmd. cmd_Group cmd \<noteq> ''number'') (commandDefinitions id)" by code_simp
  then show "cmd_Group cmd \<noteq> ''number''" if "cmd \<in> set (commandDefinitions id)"
    using that by (simp add: list_all_iff)
qed

lemma number_facts:
  "cmd_Group numberCommand = []" "cmd_Name numberCommand = ''number''"
  "chooses (topLevelApplicationCommand numberCommand) [SlashOption ''lower'' OptionInteger 3 False [] []]"
  "map arg_Name (cmd_Args numberCommand) = [''lower'', ''upper'']"
  "map arg_Default (cmd_Args numberCommand) = [Some (VInt64 0), Some (VInt64 10)]"
  "option_values [SlashOption ''lower'' OptionInteger 3 False [] []] ''lower'' = Some (VInt64 3)"
  "option_values [SlashOption ''lower'' OptionInteger 3 False [] []] ''upper'' = None"
  by code_simp+

text \<open>Choosing \<open>/number lower: 3\<close> rolls from 3 up to the default bound.\<close>

theorem menu_is_served_witness:
  "\<exists>r call. initCommands id = Inr r \<and> Inv_Int call ''lower'' = 3 \<and> Inv_Int call ''upper'' = 10
     \<and> (\<forall>run st. \<exists>call'. inv_Args call' = inv_Args call \<and> handleInteraction (bot_env run r) number_choice st
          = runInteraction (\<lambda>_. False) run number_choice numberCommand call' st)"
proof -
  obtain r where r: "initCommands id = Inr r" using catalogue_registers by (cases "initCommands id") simp_all
  then have "numberCommand \<in> set (All_commands r)"
    using started [OF r] catalogue_number(1) by (force simp: All_commands_def dest: map_of_SomeD)
  then have a: "topLevelApplicationCommand numberCommand \<in> set (applicationCommands id r)"
    using applications_complete [of r id] number_facts(1) by blast
  have served: "\<exists>call. inv_Args call = option_values [SlashOption ''lower'' OptionInteger 3 False [] []]
      \<and> (\<forall>arg \<in> set (cmd_Args numberCommand). inv_specs call (arg_Name arg) = Some arg)
      \<and> handleInteraction (bot_env run r) number_choice st = runInteraction (\<lambda>_. False) run number_choice numberCommand call st"
    for run st
  proof -
    have pre: "initCommands id = Inr (de_Registry (bot_env run r))" "de_Lower (bot_env run r) = id"
      "topLevelApplicationCommand numberCommand \<in> set (applicationCommands id (de_Registry (bot_env run r)))"
      "ix_Data number_choice = ApplicationCommandData (ac_Name (topLevelApplicationCommand numberCommand))
         [SlashOption ''lower'' OptionInteger 3 False [] []]"
      using r a by (simp_all add: bot_env_def number_choice_def topLevelApplicationCommand_def number_facts)
    from menu_is_served [OF pre(1,2,3) number_facts(3) pre(4), of st] obtain cmd leaf call where
      m: "cmd \<in> set (commandDefinitions id)"
      "choice_of (topLevelApplicationCommand numberCommand) [SlashOption ''lower'' OptionInteger 3 False [] []] cmd leaf"
      "inv_Args call = option_values leaf" "\<forall>arg \<in> set (cmd_Args cmd). inv_specs call (arg_Name arg) = Some arg"
      "handleInteraction (bot_env run r) number_choice st = runInteraction (\<lambda>_. False) run number_choice cmd call st"
      by (auto simp: bot_env_def)
    from m(2) catalogue_number(3) [OF m(1)] have "cmd_Name cmd = ''number''"
      "leaf = [SlashOption ''lower'' OptionInteger 3 False [] []]"
      by (auto simp: choice_of_def topLevelApplicationCommand_def number_facts)
    with catalogue_number(2) [OF m(1)] m show ?thesis by blast
  qed
  from served [of "\<lambda>_ _ _ n. (Inr None, n)" "([], 0)"] obtain call :: invocation where
    call: "inv_Args call = option_values [SlashOption ''lower'' OptionInteger 3 False [] []]"
    "\<forall>arg \<in> set (cmd_Args numberCommand). inv_specs call (arg_Name arg) = Some arg"
    by blast
  obtain l u where args: "cmd_Args numberCommand = [l, u]" "arg_Name l = ''lower''" "arg_Name u = ''upper''"
    "arg_Default u = Some (VInt64 10)"
    using number_facts(4,5) by (auto simp: map_eq_Cons_conv)
  have "Inv_Int call ''lower'' = 3" "Inv_Int call ''upper'' = 10"
    using call args number_facts(6,7) by (auto simp: Inv_Int_def toInt64_def spec_default_def)
  with r call(1) served show ?thesis by metis
qed

section \<open>The re-roll button\<close>

lemma rolls_declared:
  "roll \<in> set digitRolls \<Longrightarrow> \<exists>cmd \<in> set (commandDefinitions lc). cmd_Name cmd = roll_name roll
     \<and> cmd_Handler cmd = Some (DigitRollH roll) \<and> cmd_Args cmd = []"
  by (force simp: commandDefinitions_def digitRollCommands_def declare_command_def)

text \<open>
  The button of a roll's answer rolls the same number of digits again: a click on it runs the
  handler that made the answer, in the invoker's own context.
\<close>

theorem reroll_same:
  assumes "initCommands id = Inr (de_Registry e)" and "de_Lower e = id" and "roll \<in> set digitRolls"
    and "digitRollHandler c roll ctx call b = (Inr (Some resp), b')"
    and "ix_Data i = MessageComponentData (resp_ReRollID resp)"
  shows "\<exists>cmd call'. cmd_Handler cmd = Some (DigitRollH roll)
     \<and> handleInteraction e i st = runReRoll (de_Down e) (de_Run e) i cmd call' st"
proof -
  obtain cmd where cmd: "cmd \<in> set (commandDefinitions id)" "cmd_Name cmd = roll_name roll"
    "cmd_Handler cmd = Some (DigitRollH roll)" "cmd_Args cmd = []" using rolls_declared [OF assms(3)] by blast
  from started [OF assms(1)] cmd(1) have ok: "registry_ok id (de_Registry e)"
    and reg: "map_of (reg_commands (de_Registry e)) (fold_name id (roll_name roll)) = Some cmd"
    by (auto simp flip: cmd(2))
  have "Lookup id (de_Registry e) (roll_name roll) = Some cmd"
    using registry_okD(2) [OF ok reg, of "fold_name id (roll_name roll)"] reg name_in_keys [of id cmd]
    by (simp add: Lookup_def cmd(2))
  moreover have "resp_ReRollID resp = reRollID (roll_name roll)"
    using assms(4) by (auto simp: digitRollHandler_def answer_with_def split: prod.splits sum.splits)
  ultimately show ?thesis
    using assms(2,5) cmd(3,4) by (auto simp: handleInteraction_def Bind_def BindNamed_def bound_def split_beta)
qed

end
