(* ===== verification/MigrateDump.thy ===== *)
theory MigrateDump
  imports GoStrings
begin

text \<open>
  Reading a mysqldump file (\<open>parseDump\<close> of \<open>cmd/ginbot-migrate/main.go\<close>). The scanner works on what
  is left of the text instead of an offset into it, so errors name the table and what was
  expected, without the offset. Which unquoted literals \<open>strconv.ParseFloat\<close> accepts is the
  parameter \<open>isNumeric\<close>.
\<close>

section \<open>Values\<close>

record dump_value =
  va_S :: string
  va_Null :: bool

datatype dump_error = TruncatedValue | UnterminatedString | TruncatedEscape | EmptyValue
  | UnsupportedLiteral string | ExpectedOpen | TruncatedTuple | ExpectedCommaOrClose
  | MissingTerminator | ExpectedCommaOrEnd | UnterminatedName | ExpectedValues

type_synonym 'a scan = "dump_error + 'a \<times> string"

text \<open>An escape; \<open>string(c)\<close> of a byte is the UTF-8 encoding of that code point.\<close>

definition unescape :: "char \<Rightarrow> string" where
  "unescape c =
    (if c = CHR ''0'' then [CHR 0x00]
     else if c = CHR ''b'' then [CHR 0x08]
     else if c = CHR ''n'' then [CHR 0x0A]
     else if c = CHR ''r'' then [CHR 0x0D]
     else if c = CHR ''t'' then [CHR 0x09]
     else if c = CHR ''Z'' then [CHR 0x1A]
     else encode_rune (bv c))"

definition dump_space :: "char \<Rightarrow> bool" where
  "dump_space c \<longleftrightarrow> c = CHR '' '' \<or> c = CHR 0x0A \<or> c = CHR 0x0D \<or> c = CHR 0x09"

definition skipSpace :: "string \<Rightarrow> string" where
  "skipSpace src = dropWhile dump_space src"

text \<open>A quoted string, after its opening quote; a doubled quote is a literal quote.\<close>

fun scan_string :: "string \<Rightarrow> string \<Rightarrow> string scan" where
  "scan_string b [] = Inl UnterminatedString"
| "scan_string b (c # cs) =
     (if c = CHR 0x5C then
        (case cs of [] \<Rightarrow> Inl TruncatedEscape | e # rest \<Rightarrow> scan_string (b @ unescape e) rest)
      else if c = CHR 0x27 then
        (case cs of
           d # rest \<Rightarrow> if d = CHR 0x27 then scan_string (b @ [CHR 0x27]) rest else Inr (b, cs)
         | [] \<Rightarrow> Inr (b, cs))
      else scan_string (b @ [c]) cs)"

definition literal_char :: "char \<Rightarrow> bool" where
  "literal_char c \<longleftrightarrow> c \<noteq> CHR '','' \<and> c \<noteq> CHR '')''"

definition parseValue :: "(string \<Rightarrow> bool) \<Rightarrow> string \<Rightarrow> dump_value scan" where
  "parseValue isNumeric src =
    (case src of
       [] \<Rightarrow> Inl TruncatedValue
     | c # cs \<Rightarrow>
         if c = CHR 0x27 then
           and_then (scan_string [] cs) (\<lambda>(s, rest). Inr (\<lparr>va_S = s, va_Null = False\<rparr>, rest))
         else
           let lit = trim_space (takeWhile literal_char src); rest = dropWhile literal_char src in
           if lit = [] then Inl EmptyValue
           else if map ascii_lower lit = ''null'' then Inr (\<lparr>va_S = [], va_Null = True\<rparr>, rest)
           else if \<not> isNumeric lit then Inl (UnsupportedLiteral lit)
           else Inr (\<lparr>va_S = lit, va_Null = False\<rparr>, rest))"

lemma skipSpace_length: "length (skipSpace s) \<le> length s"
  by (simp add: skipSpace_def length_dropWhile_le)

lemma scan_string_length: "scan_string b s = Inr (v, rest) \<Longrightarrow> length rest < length s"
  by (induction b s rule: scan_string.induct) (auto split: if_splits list.splits)

lemma parseValue_length:
  assumes "parseValue isNumeric s = Inr (v, rest)"
  shows "length rest < length s"
proof (cases s)
  case (Cons c cs)
  show ?thesis
  proof (cases "c = CHR 0x27")
    case True
    with assms Cons show ?thesis by (auto simp: parseValue_def dest!: scan_string_length)
  next
    case False
    then have rest: "rest = dropWhile literal_char s" and "takeWhile literal_char s \<noteq> []"
      using assms Cons by (auto simp: parseValue_def Let_def trim_space_def split: if_splits)
    have "length (takeWhile literal_char s) + length rest = length s"
      unfolding rest by (metis length_append takeWhile_dropWhile_id)
    with \<open>takeWhile literal_char s \<noteq> []\<close> show ?thesis by (cases "takeWhile literal_char s") simp_all
  qed
qed (use assms in \<open>simp add: parseValue_def\<close>)

section \<open>Tuples and statements\<close>

text \<open>The values of a tuple, after its opening parenthesis.\<close>

function parse_row :: "(string \<Rightarrow> bool) \<Rightarrow> dump_value list \<Rightarrow> string \<Rightarrow> dump_value list scan" where
  "parse_row isNumeric row src =
    (case parseValue isNumeric (skipSpace src) of
       Inl err \<Rightarrow> Inl err
     | Inr (v, rest) \<Rightarrow>
         (case skipSpace rest of
            [] \<Rightarrow> Inl TruncatedTuple
          | c # cs \<Rightarrow>
              if c = CHR '','' then parse_row isNumeric (row @ [v]) cs
              else if c = CHR '')'' then Inr (row @ [v], cs)
              else Inl ExpectedCommaOrClose))"
  by pat_completeness auto
termination
proof (relation "measure (\<lambda>(isNumeric, row, src). length src)")
  fix isNumeric :: "string \<Rightarrow> bool" and row :: "dump_value list" and src and b v rest c cs
  assume "parseValue isNumeric (skipSpace src) = Inr b" "(v, rest) = b" "skipSpace rest = c # cs"
  then have "length rest < length (skipSpace src)" "length (c # cs) \<le> length rest"
    using parseValue_length skipSpace_length [of rest] by auto
  with skipSpace_length [of src]
  show "((isNumeric, row @ [v], cs), isNumeric, row, src) \<in> measure (\<lambda>(isNumeric, row, src). length src)" by simp
qed simp

declare parse_row.simps [simp del]

lemma parse_row_length: "parse_row isNumeric row src = Inr (r, rest) \<Longrightarrow> length rest < length src"
proof (induction isNumeric row src arbitrary: r rest rule: parse_row.induct)
  case (1 isNumeric row src)
  from 1(2) obtain v mid c cs where v: "parseValue isNumeric (skipSpace src) = Inr (v, mid)" "skipSpace mid = c # cs"
    by (auto simp: parse_row.simps [of _ _ src] split: sum.splits list.splits)
  have len: "length mid < length src" "length cs < length mid"
    using parseValue_length [OF v(1)] skipSpace_length [of src] skipSpace_length [of mid] v(2) by simp_all
  show ?case
  proof (cases "c = CHR '',''")
    case True
    with 1(2) v have "parse_row isNumeric (row @ [v]) cs = Inr (r, rest)" by (simp add: parse_row.simps [of _ _ src])
    from 1(1) [OF v(1) refl v(2) True this] len show ?thesis by simp
  next
    case False
    with 1(2) v have "rest = cs" by (simp add: parse_row.simps [of _ _ src] split: if_splits)
    with len show ?thesis by simp
  qed
qed

function parseTuples :: "(string \<Rightarrow> bool) \<Rightarrow> dump_value list list \<Rightarrow> string \<Rightarrow> dump_value list list scan" where
  "parseTuples isNumeric rows src =
    (case skipSpace src of
       [] \<Rightarrow> Inl ExpectedOpen
     | c # cs \<Rightarrow>
         if c \<noteq> CHR ''('' then Inl ExpectedOpen
         else (case parse_row isNumeric [] cs of
             Inl err \<Rightarrow> Inl err
           | Inr (row, rest) \<Rightarrow>
               (case skipSpace rest of
                  [] \<Rightarrow> Inl MissingTerminator
                | d # ds \<Rightarrow>
                    if d = CHR '','' then parseTuples isNumeric (rows @ [row]) ds
                    else if d = CHR '';'' then Inr (rows @ [row], ds)
                    else Inl ExpectedCommaOrEnd)))"
  by pat_completeness auto
termination
proof (relation "measure (\<lambda>(isNumeric, rows, src). length src)")
  fix isNumeric :: "string \<Rightarrow> bool" and rows :: "dump_value list list" and src c cs b row rest d ds
  assume "skipSpace src = c # cs" "parse_row isNumeric [] cs = Inr b" "(row, rest) = b" "skipSpace rest = d # ds"
  then have "length (c # cs) \<le> length src" "length rest < length cs" "length (d # ds) \<le> length rest"
    using parse_row_length skipSpace_length [of src] skipSpace_length [of rest] by auto
  then show "((isNumeric, rows @ [row], ds), isNumeric, rows, src) \<in> measure (\<lambda>(isNumeric, rows, src). length src)"
    by simp
qed simp

declare parseTuples.simps [simp del]

lemma parseTuples_length: "parseTuples isNumeric rows src = Inr (r, rest) \<Longrightarrow> length rest < length src"
proof (induction isNumeric rows src arbitrary: r rest rule: parseTuples.induct)
  case (1 isNumeric rows src)
  from 1(2) obtain cs row mid d ds where run: "skipSpace src = CHR ''('' # cs" "parse_row isNumeric [] cs = Inr (row, mid)"
    "skipSpace mid = d # ds"
    by (auto simp: parseTuples.simps [of _ _ src] split: sum.splits list.splits if_splits)
  have len: "length cs < length src" "length mid < length cs" "length ds < length mid"
    using parse_row_length [OF run(2)] skipSpace_length [of src] skipSpace_length [of mid] run(1,3) by simp_all
  show ?case
  proof (cases "d = CHR '',''")
    case True
    with 1(2) run have "parseTuples isNumeric (rows @ [row]) ds = Inr (r, rest)"
      by (simp add: parseTuples.simps [of _ _ src])
    from 1(1) [OF run(1) _ run(2) refl run(3) True this] len show ?thesis by simp
  next
    case False
    with 1(2) run have "rest = ds" by (simp add: parseTuples.simps [of _ _ src] split: if_splits)
    with len show ?thesis by simp
  qed
qed

text \<open>The tables read so far, by name.\<close>

type_synonym tables = "string \<Rightarrow> dump_value list list"

definition insert_marker :: string where "insert_marker = ''INSERT INTO `''"

function parse_from :: "(string \<Rightarrow> bool) \<Rightarrow> tables \<Rightarrow> string \<Rightarrow> dump_error + tables" where
  "parse_from isNumeric out src =
    (case str_index insert_marker src of
       None \<Rightarrow> Inr out
     | Some j \<Rightarrow>
         let rest = drop (j + length insert_marker) src in
         if CHR ''`'' \<notin> set rest then Inl UnterminatedName
         else
           let table = takeWhile (\<lambda>c. c \<noteq> CHR ''`'') rest;
               after = drop (length table + 1) rest
           in if \<not> prefix '' VALUES'' after then Inl ExpectedValues
              else (case parseTuples isNumeric [] (drop (length '' VALUES'') after) of
                  Inl err \<Rightarrow> Inl err
                | Inr (rows, nxt) \<Rightarrow> parse_from isNumeric (out(table := out table @ rows)) nxt))"
  by pat_completeness auto
termination
  by (relation "measure (\<lambda>(isNumeric, out, src). length src)") (auto dest!: parseTuples_length)

declare parse_from.simps [simp del]

definition parseDump :: "(string \<Rightarrow> bool) \<Rightarrow> string \<Rightarrow> dump_error + tables" where
  "parseDump isNumeric src = parse_from isNumeric (\<lambda>_. []) src"

section \<open>What mysqldump writes\<close>

datatype cell = CNull | CNumber string | CText string

definition escape :: "char \<Rightarrow> string" where
  "escape c =
    (if c = CHR 0x00 then [CHR 0x5C, CHR ''0'']
     else if c = CHR 0x0A then [CHR 0x5C, CHR ''n'']
     else if c = CHR 0x0D then [CHR 0x5C, CHR ''r'']
     else if c = CHR 0x1A then [CHR 0x5C, CHR ''Z'']
     else if c \<in> {CHR 0x5C, CHR 0x27, CHR 0x22} then [CHR 0x5C, c]
     else [c])"

definition print_cell :: "cell \<Rightarrow> string" where
  "print_cell v = (case v of CNull \<Rightarrow> ''NULL'' | CNumber lit \<Rightarrow> lit
     | CText s \<Rightarrow> CHR 0x27 # concat (map escape s) @ [CHR 0x27])"

definition cell_value :: "cell \<Rightarrow> dump_value" where
  "cell_value v = (case v of CNull \<Rightarrow> \<lparr>va_S = [], va_Null = True\<rparr> | CNumber lit \<Rightarrow> \<lparr>va_S = lit, va_Null = False\<rparr>
     | CText s \<Rightarrow> \<lparr>va_S = s, va_Null = False\<rparr>)"

definition number_char :: "char \<Rightarrow> bool" where
  "number_char c \<longleftrightarrow> is_digit c \<or> c \<in> set ''+-.e''"

definition cell_ok :: "(string \<Rightarrow> bool) \<Rightarrow> cell \<Rightarrow> bool" where
  "cell_ok isNumeric v = (case v of CNumber lit \<Rightarrow> lit \<noteq> [] \<and> list_all number_char lit \<and> isNumeric lit | _ \<Rightarrow> True)"

definition print_row :: "cell list \<Rightarrow> string" where
  "print_row r = CHR ''('' # join '','' (map print_cell r) @ '')''"

definition print_insert :: "string \<times> cell list list \<Rightarrow> string" where
  "print_insert st = insert_marker @ fst st @ ''` VALUES '' @ join '','' (map print_row (snd st)) @ '';''"

text \<open>A dump: each statement after some text of its own, in which no back quote occurs.\<close>

definition print_dump :: "(string \<times> (string \<times> cell list list)) list \<Rightarrow> string \<Rightarrow> string" where
  "print_dump sts end_text = concat (map (\<lambda>(noise, st). noise @ print_insert st) sts) @ end_text"

definition statement_ok :: "(string \<Rightarrow> bool) \<Rightarrow> string \<times> (string \<times> cell list list) \<Rightarrow> bool" where
  "statement_ok isNumeric x = (case x of (noise, table, rows) \<Rightarrow>
     CHR ''`'' \<notin> set noise \<and> CHR ''`'' \<notin> set table \<and> rows \<noteq> []
     \<and> list_all (\<lambda>r. r \<noteq> [] \<and> list_all (cell_ok isNumeric) r) rows)"

definition dumped :: "(string \<times> (string \<times> cell list list)) list \<Rightarrow> tables" where
  "dumped sts table = concat (map (\<lambda>(noise, t, rows). if t = table then map (map cell_value) rows else []) sts)"

section \<open>Reading back\<close>

lemma scan_escape: "scan_string b (escape c @ s) = scan_string (b @ [c]) s"
proof -
  have "(char_of (92 :: nat) :: char) = CHR 0x5C" "(char_of (39 :: nat) :: char) = CHR 0x27"
    "(char_of (34 :: nat) :: char) = CHR 0x22" by code_simp+
  then show ?thesis by (simp add: escape_def unescape_def encode_rune_def)
qed

lemma scan_escaped:
  "s = [] \<or> hd s \<noteq> CHR 0x27 \<Longrightarrow> scan_string b (concat (map escape v) @ CHR 0x27 # s) = Inr (b @ v, s)"
proof (induction v arbitrary: b)
  case Nil
  then show ?case by (cases s) simp_all
next
  case (Cons c v)
  then show ?case by (simp add: scan_escape)
qed

lemma number_char_ascii: "number_char c \<Longrightarrow> bv c < 128 \<and> \<not> is_space (bv c) \<and> literal_char c \<and> c \<noteq> CHR 0x27 \<and> ascii_lower c \<noteq> CHR ''n''"
  by (auto simp: number_char_def is_digit_def is_space_def literal_char_def ascii_lower_def)

lemma trim_space_plain:
  assumes "list_all (\<lambda>c. bv c < 128 \<and> \<not> is_space (bv c)) s"
  shows "trim_space s = s"
proof -
  have "chunks s = map (\<lambda>c. (bv c, [c])) s" using assms by (intro chunks_ascii) (simp add: list_all_iff)
  moreover have "dropWhile space_chunk (map (\<lambda>c. (bv c, [c])) xs) = map (\<lambda>c. (bv c, [c])) xs" if "set xs \<subseteq> set s" for xs
    using assms that by (cases xs) (auto simp: space_chunk_def list_all_iff)
  from this [of s] this [of "rev s"] have
    "dropWhile space_chunk (map (\<lambda>c. (bv c, [c])) s) = map (\<lambda>c. (bv c, [c])) s"
    "dropWhile space_chunk (rev (map (\<lambda>c. (bv c, [c])) s)) = rev (map (\<lambda>c. (bv c, [c])) s)"
    by (simp_all add: rev_map)
  ultimately show ?thesis by (simp add: trim_space_def comp_def)
qed

lemma literal_split:
  assumes "list_all literal_char lit" and "\<not> literal_char c"
  shows "takeWhile literal_char (lit @ c # s) = lit" "dropWhile literal_char (lit @ c # s) = c # s"
  using assms by (simp_all add: list_all_iff)

lemma parse_cell:
  assumes "cell_ok isNumeric v" and "\<not> literal_char c"
  shows "parseValue isNumeric (print_cell v @ c # s) = Inr (cell_value v, c # s)"
proof (cases v)
  case CNull
  have "list_all literal_char ''NULL''" "trim_space ''NULL'' = ''NULL''" "map ascii_lower ''NULL'' = ''null''"
    by code_simp+
  with CNull literal_split [OF _ assms(2), of "''NULL''" s] show ?thesis
    by (simp add: parseValue_def print_cell_def cell_value_def Let_def del: takeWhile.simps dropWhile.simps)
next
  case (CNumber lit)
  with assms(1) have lit: "lit \<noteq> []" "list_all number_char lit" "isNumeric lit" by (simp_all add: cell_ok_def)
  have "list_all literal_char lit" "list_all (\<lambda>c. bv c < 128 \<and> \<not> is_space (bv c)) lit"
    using lit(2) number_char_ascii by (auto simp: list_all_iff)
  moreover obtain x xs where x: "lit = x # xs" "x \<noteq> CHR 0x27" "ascii_lower x \<noteq> CHR ''n''"
    using lit number_char_ascii by (cases lit) auto
  ultimately show ?thesis
    using CNumber lit literal_split [OF _ assms(2), of lit s] trim_space_plain [of lit]
    by (simp add: parseValue_def print_cell_def cell_value_def Let_def del: takeWhile.simps dropWhile.simps)
next
  case (CText x)
  have "c \<noteq> CHR 0x27" using assms(2) by (auto simp: literal_char_def)
  with scan_escaped [of "c # s" "[]" x] CText show ?thesis
    by (simp add: parseValue_def print_cell_def cell_value_def)
qed

lemma skip_cell: "cell_ok isNumeric v \<Longrightarrow> skipSpace (print_cell v @ s) = print_cell v @ s"
proof -
  assume "cell_ok isNumeric v"
  then obtain x xs where "print_cell v = x # xs" "\<not> dump_space x"
  proof (cases v)
    case (CNumber lit)
    with \<open>cell_ok isNumeric v\<close> obtain x xs where "lit = x # xs" "number_char x"
      by (cases lit) (auto simp: cell_ok_def)
    moreover from this have "\<not> is_space (bv x)" using number_char_ascii by blast
    then have "\<not> dump_space x" by (auto simp: dump_space_def is_space_def)
    ultimately show ?thesis using CNumber that by (simp add: print_cell_def)
  qed (auto simp: print_cell_def dump_space_def)
  then show ?thesis by (simp add: skipSpace_def)
qed

lemma skip_marks: "skipSpace (CHR '','' # s) = CHR '','' # s" "skipSpace (CHR '')'' # s) = CHR '')'' # s"
  "skipSpace (CHR ''('' # s) = CHR ''('' # s" "skipSpace (CHR '';'' # s) = CHR '';'' # s"
  "skipSpace (CHR '' '' # s) = skipSpace s"
  by (simp_all add: skipSpace_def dump_space_def)

lemma not_literal: "\<not> literal_char (CHR '','')" "\<not> literal_char (CHR '')'')"
  by (simp_all add: literal_char_def)

lemma parse_row_print:
  "vs \<noteq> [] \<Longrightarrow> list_all (cell_ok isNumeric) vs \<Longrightarrow>
     parse_row isNumeric row (join '','' (map print_cell vs) @ CHR '')'' # s) = Inr (row @ map cell_value vs, s)"
proof (induction vs arbitrary: row)
  case (Cons v vs)
  show ?case
  proof (cases vs)
    case Nil
    with Cons.prems show ?thesis
      by (simp add: parse_row.simps [of isNumeric row] skip_cell [where isNumeric = isNumeric] parse_cell not_literal skip_marks)
  next
    case (Cons w ws)
    with Cons.prems Cons.IH [of "row @ [cell_value v]"] show ?thesis
      by (simp add: parse_row.simps [of isNumeric row] skip_cell [where isNumeric = isNumeric] parse_cell not_literal skip_marks)
  qed
qed simp

lemma parseTuples_print:
  "rows \<noteq> [] \<Longrightarrow> list_all (\<lambda>r. r \<noteq> [] \<and> list_all (cell_ok isNumeric) r) rows \<Longrightarrow>
     parseTuples isNumeric done (join '','' (map print_row rows) @ CHR '';'' # s)
     = Inr (done @ map (map cell_value) rows, s)"
proof (induction rows arbitrary: "done")
  case (Cons r rows)
  have row: "parse_row isNumeric [] (join '','' (map print_cell r) @ CHR '')'' # x) = Inr (map cell_value r, x)" for x
    using parse_row_print [of r isNumeric "[]" x] Cons.prems by simp
  show ?case
  proof (cases rows)
    case Nil
    with row show ?thesis by (simp add: parseTuples.simps [of isNumeric "done"] print_row_def skip_marks)
  next
    case (Cons q qs)
    with row Cons.prems Cons.IH [of "done @ [map cell_value r]"] show ?thesis
      by (simp add: parseTuples.simps [of isNumeric "done"] print_row_def skip_marks)
  qed
qed simp

text \<open>The marker ends in the only back quote it holds, so text without one cannot begin it.\<close>

lemma marker_not_in:
  assumes "CHR ''`'' \<notin> set noise" and "noise \<noteq> []"
  shows "\<not> prefix insert_marker (noise @ insert_marker @ s)"
proof
  assume "prefix insert_marker (noise @ insert_marker @ s)"
  then obtain zs where "noise @ insert_marker @ s = insert_marker @ zs" by (auto simp: prefix_def)
  moreover have "length insert_marker = 13" by (simp add: insert_marker_def)
  ultimately have nth: "i < 13 \<Longrightarrow> (noise @ insert_marker @ s) ! i = insert_marker ! i" for i
    by (simp add: nth_append)
  from nth [of 12] have bq: "(noise @ insert_marker @ s) ! 12 = CHR ''`''" by (simp add: insert_marker_def)
  show False
  proof (cases "12 < length noise")
    case True
    with bq assms(1) show ?thesis by (auto simp: nth_append) (metis nth_mem)
  next
    case False
    let ?k = "12 - length noise"
    from False bq have "(insert_marker @ s) ! ?k = CHR ''`''" by (simp add: nth_append split: if_splits)
    moreover have "?k < 12" using assms(2) by (cases noise) simp_all
    then have "(insert_marker @ s) ! ?k \<noteq> CHR ''`''"
      by (auto simp: insert_marker_def less_Suc_eq numeral_eq_Suc)
    ultimately show ?thesis by simp
  qed
qed

lemma marker_index: "CHR ''`'' \<notin> set noise \<Longrightarrow> str_index insert_marker (noise @ insert_marker @ s) = Some (length noise)"
proof (induction noise)
  case Nil
  then show ?case by (simp add: insert_marker_def)
next
  case (Cons c noise)
  with marker_not_in [of "c # noise" s] show ?case by simp
qed

lemma marker_absent: "CHR ''`'' \<notin> set s \<Longrightarrow> str_index insert_marker s = None"
proof (induction s)
  case (Cons c s)
  have "\<not> prefix insert_marker (c # s)"
  proof
    assume "prefix insert_marker (c # s)"
    then have "CHR ''`'' \<in> set (c # s)" by (auto dest!: set_mono_prefix simp: insert_marker_def)
    with Cons.prems show False by blast
  qed
  with Cons show ?case by simp
qed (simp add: insert_marker_def)

lemma parse_from_print:
  "list_all (statement_ok isNumeric) sts \<Longrightarrow> CHR ''`'' \<notin> set end_text \<Longrightarrow>
     parse_from isNumeric out (print_dump sts end_text) = Inr (\<lambda>table. out table @ dumped sts table)"
proof (induction sts arbitrary: out)
  case Nil
  then show ?case by (simp add: parse_from.simps [of isNumeric out] print_dump_def marker_absent dumped_def)
next
  case (Cons st sts)
  obtain noise table rows where st: "st = (noise, table, rows)" by (cases st)
  with Cons.prems have ok: "CHR ''`'' \<notin> set noise" "CHR ''`'' \<notin> set table" "rows \<noteq> []"
    "list_all (\<lambda>r. r \<noteq> [] \<and> list_all (cell_ok isNumeric) r) rows" by (simp_all add: statement_ok_def)
  let ?rest = "print_dump sts end_text"
  let ?rows = "'' '' @ join '','' (map print_row rows) @ CHR '';'' # ?rest"
  have whole: "print_dump (st # sts) end_text = noise @ insert_marker @ (table @ CHR ''`'' # '' VALUES'' @ ?rows)"
    by (simp add: print_dump_def print_insert_def st)
  have rows: "parseTuples isNumeric [] ?rows = Inr (map (map cell_value) rows, ?rest)"
    using parseTuples_print [OF ok(3,4), of "[]" ?rest]
    by (simp add: parseTuples.simps [of isNumeric "[]"] skip_marks)
  have name: "takeWhile (\<lambda>c. c \<noteq> CHR ''`'') (table @ CHR ''`'' # x) = table" for x
    by (rule takeWhile_append_stop) (use ok(2) in auto)
  have "parse_from isNumeric out (print_dump (st # sts) end_text)
      = parse_from isNumeric (out(table := out table @ map (map cell_value) rows)) ?rest"
    using rows ok(1) name
    by (simp add: whole parse_from.simps [of isNumeric out "noise @ _"] marker_index Let_def)
  also have "\<dots> = Inr (\<lambda>x. (out(table := out table @ map (map cell_value) rows)) x @ dumped sts x)"
    using Cons.prems by (intro Cons.IH) simp_all
  also have "\<dots> = Inr (\<lambda>x. out x @ dumped (st # sts) x)" by (auto simp: dumped_def st fun_eq_iff)
  finally show ?case .
qed


definition example_dump :: "(string \<times> (string \<times> cell list list)) list" where
  "example_dump = [(''-- dump'', ''users'', [[CNumber ''1'', CText ''a);b'', CNull], [CNumber ''-2.5'', CText [], CNull]]),
     ([], ''issues'', [[CText [CHR 0x27, CHR 0x5C, CHR 0x0A]]])]"


text \<open>
  A backslash before a byte of a multi-byte character: the byte is taken for a Latin-1 code point
  and encoded again, so the text is not the one that was dumped.
\<close>

lemma escape_reencodes: "unescape (CHR 0xC3) = [CHR 0xC3, CHR 0x83]"
  by code_simp

end
