(* ===== verification/MigrateTool.thy ===== *)
theory MigrateTool
  imports MigrateDump TriggerMedia
begin

text \<open>
  The passes of the data migration (\<open>cmd/ginbot-migrate/main.go\<close>) over the tables of a dump, in
  one database transaction. \<open>migration_db\<close> is what the transaction reads and writes, \<open>migrator\<close>
  the \<open>migrator\<close> struct with the transaction's database, the blob directory and a clock that
  every statement and every generated id advances: \<open>me_Fails\<close> says which statement fails,
  \<open>me_Fresh\<close> and \<open>me_Serial\<close> are the ids generated. An access past the end of a row panics,
  which ends the program as an error does. Uuids, SHA-256, the content sniffer, the regular
  expression engine, Postgres' \<open>lower\<close> and the files on disk are parameters.
\<close>

section \<open>The legacy values\<close>

definition nullable :: "dump_value \<Rightarrow> string option" where
  "nullable v = (if va_Null v \<or> va_S v = [] then None else Some (va_S v))"

definition atoi64 :: "dump_value \<Rightarrow> int" where
  "atoi64 v = (if va_Null v then 0 else case ParseInt (va_S v) of None \<Rightarrow> 0 | Some n \<Rightarrow> n)"

definition date_elems :: "char \<Rightarrow> layout_elem list" where
  "date_elems c = [LYear, LByte c, LMonth, LByte c, LDay]"

definition clock_elems :: "layout_elem list" where
  "clock_elems = [LSpace, LHour, LByte CHR '':'', LMinute, LByte CHR '':'', LSecond]"

text \<open>
  A fraction of the seconds is accepted whether the layout has one or not, so the two layouts
  of \<open>timeLayouts\<close> accept the same texts with the same result.
\<close>

definition timeLayouts :: "layout_elem list list" where
  "timeLayouts = [date_elems CHR ''-'' @ clock_elems]"

definition zero_time :: instant where
  "zero_time = wall_clock 1 1 1 0 0 0 0"

fun first_parse :: "layout_elem list list \<Rightarrow> string \<Rightarrow> instant option" where
  "first_parse [] s = None"
| "first_parse (layout # layouts) s =
     (case ParseInLocation layout s UTC of Some t \<Rightarrow> Some t | None \<Rightarrow> first_parse layouts s)"

definition mustTime :: "dump_value \<Rightarrow> instant" where
  "mustTime v = (if va_Null v then zero_time
     else case first_parse timeLayouts (va_S v) of Some t \<Rightarrow> t | None \<Rightarrow> zero_time)"

definition birthdayLayouts :: "layout_elem list list" where
  "birthdayLayouts =
     [date_elems CHR ''-'' @ clock_elems @ [LSpace, LNumZone],
      date_elems CHR ''-'' @ clock_elems,
      date_elems CHR ''-'', date_elems CHR ''/'', date_elems CHR ''.'',
      rev (date_elems CHR ''-''), rev (date_elems CHR ''/''), rev (date_elems CHR ''.'')]"

definition parseBirthday :: "dump_value \<Rightarrow> instant option" where
  "parseBirthday v =
    (if va_Null v \<or> trim_space (va_S v) = [] then None
     else first_parse birthdayLayouts (trim_space (va_S v)))"

text \<open>The first of January of the year, or the birthday's date and time in that year.\<close>

definition congratulated_at :: "int \<Rightarrow> instant option \<Rightarrow> instant option" where
  "congratulated_at year birthday =
    (if year \<le> 0 then None
     else case birthday of
         None \<Rightarrow> Some (Date year 1 1 0 0 0 0 UTC)
       | Some b \<Rightarrow> let secs = b mod day_ns div Second in
           Some (Date year (month_in UTC b) (day_in UTC b) (secs div 3600) (secs div 60 mod 60) (secs mod 60)
             0 UTC))"

definition bands :: "(int \<times> int) list" where
  "bands = [(1000, 100), (750, 50), (500, 20), (250, 20), (100, 10), (0, 1)]"

fun band_of :: "int \<Rightarrow> (int \<times> int) list \<Rightarrow> int \<times> bool" where
  "band_of level [] = (CLEARANCE_REGISTERED, False)"
| "band_of level ((l, clearance) # rest) =
     (if l \<le> level then (clearance, level = l) else band_of level rest)"

definition clearanceFor :: "int \<Rightarrow> int \<times> bool" where
  "clearanceFor level = band_of level bands"

definition legacyTriggerMode :: "int \<Rightarrow> trigger_mode" where
  "legacyTriggerMode mode = (if mode = 0 then MODE_EXACT else if mode = 2 then MODE_REGEX else MODE_ANY)"

text \<open>\<open>/pattern/i\<close> without its delimiters; any other flag keeps the phrase as it is.\<close>

definition stripRegexDelimiters :: "string \<Rightarrow> string" where
  "stripRegexDelimiters phrase =
    (if length phrase < 2 \<or> hd phrase \<noteq> CHR ''/'' then phrase
     else
       let flags = rev (takeWhile (\<lambda>c. c \<noteq> CHR ''/'') (rev phrase));
           end_pos = length phrase - length flags - 1
       in if end_pos = 0 then phrase
          else if trim_byte CHR ''i'' flags \<noteq> [] then phrase
          else drop 1 (take end_pos phrase))"

text \<open>\<open>time.Duration.String\<close>: a fraction loses its trailing zeros, and below a second the unit shrinks.\<close>

definition padded :: "nat \<Rightarrow> int \<Rightarrow> string" where
  "padded n v = (let ds = digits_of (nat v) in replicate (n - length ds) CHR ''0'' @ ds)"

definition with_fraction :: "nat \<Rightarrow> int \<Rightarrow> string" where
  "with_fraction n v =
    (let frac = rev (dropWhile (\<lambda>c. c = CHR ''0'') (rev (padded n (v mod 10 ^ n))))
     in FormatInt (v div 10 ^ n) @ (if v mod 10 ^ n = 0 then [] else CHR ''.'' # frac))"

definition Duration_String :: "duration \<Rightarrow> string" where
  "Duration_String d =
    (let u = \<bar>d\<bar>; secs = u div Second;
         body = (if u = 0 then ''0s''
           else if u < 1000 then FormatInt u @ ''ns''
           else if u < 1000000 then with_fraction 3 u @ [CHR 0xC2, CHR 0xB5] @ ''s''
           else if u < Second then with_fraction 6 u @ ''ms''
           else (if 3600 \<le> secs then FormatInt (secs div 3600) @ ''h'' else [])
             @ (if 60 \<le> secs then FormatInt (secs div 60 mod 60) @ ''m'' else [])
             @ with_fraction 9 (u mod Minute) @ ''s'')
     in if d < 0 then CHR ''-'' # body else body)"

section \<open>The database and the run\<close>

record profile_row =
  pf_UserID :: string
  pf_Avatar :: "string option"
  pf_Birthday :: "instant option"
  pf_LastCongratulated :: "instant option"

datatype staged_value = StagedNull | StagedBool bool | StagedTime instant | StagedText string

text \<open>
  \<open>md_Accounts\<close> holds \<open>user_account\<close> and \<open>platform_user\<close>, \<open>md_Profiles\<close> the columns of
  \<open>user_account\<close> only this program writes, \<open>md_Store\<close> triggers, files, fires and, as its
  places, instances, destinations and reminders; \<open>md_IdMap\<close> is \<open>migration_id_map\<close> by entity and
  legacy id, \<open>md_Staged\<close> the legacy tables by name, each by its primary key.
\<close>

record migration_db =
  md_Accounts :: accounts
  md_Profiles :: "profile_row list"
  md_Store :: trigger_db
  md_IdMap :: "string \<times> string \<rightharpoonup> string"
  md_Staged :: "string \<Rightarrow> (int \<times> staged_value list) list"

record server =
  sv_ID :: int
  sv_DefaultChannel :: int
  sv_HighlightChannel :: int

record report =
  rp_Name :: string
  rp_Read :: nat
  rp_Written :: nat
  rp_Skipped :: nat
  rp_Reasons :: "string \<Rightarrow> nat"

record migrator =
  mg_Db :: migration_db
  mg_Users :: "string \<rightharpoonup> string"
  mg_PlatformUID :: "string \<rightharpoonup> string"
  mg_Instances :: "string \<rightharpoonup> int"
  mg_Channels :: "string \<rightharpoonup> int"
  mg_Files :: "string \<rightharpoonup> string"
  mg_Triggers :: "string \<rightharpoonup> string"
  mg_Reminders :: "string \<rightharpoonup> string"
  mg_Fallback :: int
  mg_Blobs :: "string \<rightharpoonup> string"
  mg_Reports :: "report list"
  mg_Clock :: nat

record migration_env =
  me_Tables :: tables
  me_Servers :: "server list"
  me_ReadFile :: "string \<Rightarrow> string option"
  me_DryRun :: bool
  me_Fresh :: "nat \<Rightarrow> string option"
  me_Serial :: "nat \<Rightarrow> int"
  me_Fails :: "nat \<Rightarrow> bool"
  me_PutFails :: "string \<Rightarrow> bool"
  me_Hash :: "string \<Rightarrow> string"
  me_Detect :: "string \<Rightarrow> string"
  me_Lower :: "string \<Rightarrow> string"
  me_UnicodeWord :: "nat \<Rightarrow> bool"
  me_Regexp :: "string \<Rightarrow> bool"
  me_Now :: instant
  me_IdentityID :: "string \<Rightarrow> int"

section \<open>Steps\<close>

datatype mig_error = DumpFailed dump_error | StatementFailed | BlobFailed | UuidFailed | Panic
  | ShortRow string | CommitFailed

text \<open>A step that fails ends the run in the state it reached; the database of that state is rolled back.\<close>

type_synonym mig_result = "mig_error \<times> migrator + migrator"

fun each :: "('a \<Rightarrow> migrator \<Rightarrow> mig_result) \<Rightarrow> 'a list \<Rightarrow> migrator \<Rightarrow> mig_result" where
  "each f [] m = Inr m"
| "each f (x # xs) m = and_then (f x m) (each f xs)"

definition tick :: "migrator \<Rightarrow> migrator" where
  "tick m = m\<lparr>mg_Clock := Suc (mg_Clock m)\<rparr>"

definition on_db :: "(migration_db \<Rightarrow> migration_db) \<Rightarrow> migrator \<Rightarrow> migrator" where
  "on_db f m = m\<lparr>mg_Db := f (mg_Db m)\<rparr>"

definition on_store :: "(trigger_db \<Rightarrow> trigger_db) \<Rightarrow> migrator \<Rightarrow> migrator" where
  "on_store f = on_db (\<lambda>d. d\<lparr>md_Store := f (md_Store d)\<rparr>)"

definition statement :: "migration_env \<Rightarrow> (migrator \<Rightarrow> mig_result) \<Rightarrow> migrator \<Rightarrow> mig_result" where
  "statement e k m = (if me_Fails e (mg_Clock m) then Inl (StatementFailed, m) else k (tick m))"

definition NewV7 :: "migration_env \<Rightarrow> (string \<Rightarrow> migrator \<Rightarrow> mig_result) \<Rightarrow> migrator \<Rightarrow> mig_result" where
  "NewV7 e k m = (case me_Fresh e (mg_Clock m) of None \<Rightarrow> Inl (UuidFailed, m) | Some u \<Rightarrow> k u (tick m))"

definition wide :: "nat \<Rightarrow> dump_value list \<Rightarrow> (migrator \<Rightarrow> mig_result) \<Rightarrow> migrator \<Rightarrow> mig_result" where
  "wide i row k m = (if i < length row then k m else Inl (Panic, m))"

text \<open>The report of the running pass is the first of the list.\<close>

definition begin_report :: "string \<Rightarrow> migrator \<Rightarrow> migrator" where
  "begin_report name m = m\<lparr>mg_Reports := \<lparr>rp_Name = name, rp_Read = 0, rp_Written = 0, rp_Skipped = 0,
     rp_Reasons = (\<lambda>_. 0)\<rparr> # mg_Reports m\<rparr>"

definition on_report :: "(report \<Rightarrow> report) \<Rightarrow> migrator \<Rightarrow> migrator" where
  "on_report f m = m\<lparr>mg_Reports := (case mg_Reports m of [] \<Rightarrow> [] | r # rs \<Rightarrow> f r # rs)\<rparr>"

definition read_row :: "migrator \<Rightarrow> migrator" where
  "read_row = on_report (\<lambda>r. r\<lparr>rp_Read := Suc (rp_Read r)\<rparr>)"

definition written_row :: "migrator \<Rightarrow> migrator" where
  "written_row = on_report (\<lambda>r. r\<lparr>rp_Written := Suc (rp_Written r)\<rparr>)"

definition note_reason :: "string \<Rightarrow> migrator \<Rightarrow> migrator" where
  "note_reason reason = on_report (\<lambda>r. r\<lparr>rp_Reasons := (rp_Reasons r)(reason := Suc (rp_Reasons r reason))\<rparr>)"

definition skip_row :: "string \<Rightarrow> migrator \<Rightarrow> migrator" where
  "skip_row reason = note_reason reason \<circ> on_report (\<lambda>r. r\<lparr>rp_Skipped := Suc (rp_Skipped r)\<rparr>)"

definition noted_if :: "bool \<Rightarrow> string \<Rightarrow> migrator \<Rightarrow> migrator" where
  "noted_if b reason m = (if b then note_reason reason m else m)"

definition mapped :: "string \<Rightarrow> string \<Rightarrow> migrator \<Rightarrow> string option" where
  "mapped entity legacy m = md_IdMap (mg_Db m) (entity, legacy)"

definition remember_id :: "migration_env \<Rightarrow> string \<Rightarrow> string \<Rightarrow> string \<Rightarrow> (migrator \<Rightarrow> mig_result) \<Rightarrow> migrator \<Rightarrow> mig_result" where
  "remember_id e entity legacy newID k = statement e
     (\<lambda>m. k (on_db (\<lambda>d. d\<lparr>md_IdMap := (md_IdMap d)((entity, legacy) \<mapsto> newID)\<rparr>) m))"

section \<open>Instances\<close>

definition discordPlatform :: int where "discordPlatform = 1"
definition fallbackInstanceUID :: string where "fallbackInstanceUID = ''migration-unresolved''"

definition guild_columns :: "(string \<times> nat) list" where
  "guild_columns = [(''triggers'', 5), (''highlights'', 8), (''issues'', 5), (''trophies'', 5)]"

definition guild_names :: "migration_env \<Rightarrow> string list" where
  "guild_names e = sort (remdups (map (FormatInt \<circ> sv_ID) (me_Servers e)
     @ concat (map (\<lambda>(table, i). map (\<lambda>row. va_S (row ! i))
         (filter (\<lambda>row. \<not> va_Null (row ! i)) (me_Tables e table))) guild_columns)))"

definition default_channels :: "migration_env \<Rightarrow> string \<rightharpoonup> string" where
  "default_channels e = foldl (\<lambda>m s. if sv_DefaultChannel s \<noteq> 0
     then m(FormatInt (sv_ID s) \<mapsto> FormatInt (sv_DefaultChannel s)) else m) Map.empty (me_Servers e)"

text \<open>\<open>COALESCE(EXCLUDED.default_channel, instance.default_channel)\<close> on a conflict.\<close>

definition instance_meta_of :: "string \<Rightarrow> meta" where
  "instance_meta_of uid = InstanceMeta \<lparr>og_InstanceUID = uid, og_DestinationUID = []\<rparr>"

definition upsertInstance :: "int \<Rightarrow> string \<Rightarrow> string option \<Rightarrow> db \<Rightarrow> int \<times> db" where
  "upsertInstance newID uid channel s =
    (let hit = (\<lambda>i. i_Platform i = discordPlatform \<and> i_Meta i = instance_meta_of uid) in
     case find hit (instances s) of
       Some i \<Rightarrow> (i_ID i, s\<lparr>instances := map (\<lambda>i. if hit i
           then i\<lparr>i_DefaultChannel := (if channel = None then i_DefaultChannel i else channel)\<rparr> else i)
           (instances s)\<rparr>)
     | None \<Rightarrow> (newID, s\<lparr>instances := instances s @ [\<lparr>i_ID = newID, i_Platform = discordPlatform,
           i_Meta = instance_meta_of uid, i_DefaultChannel = channel, i_Deleted = False\<rparr>]\<rparr>))"

definition on_places :: "(db \<Rightarrow> db) \<Rightarrow> migrator \<Rightarrow> migrator" where
  "on_places f = on_store (\<lambda>s. s\<lparr>places := f (places s)\<rparr>)"

definition instance_statement ::
  "migration_env \<Rightarrow> string \<Rightarrow> string option \<Rightarrow> (int \<Rightarrow> migrator \<Rightarrow> mig_result) \<Rightarrow> migrator \<Rightarrow> mig_result" where
  "instance_statement e uid channel k m =
    (let upsert = upsertInstance (me_Serial e (mg_Clock m)) uid channel
     in statement e (\<lambda>m. k (fst (upsert (places (md_Store (mg_Db m))))) (on_places (snd \<circ> upsert) m)) m)"

definition instance_step :: "migration_env \<Rightarrow> string \<Rightarrow> migrator \<Rightarrow> mig_result" where
  "instance_step e guild m = instance_statement e guild (default_channels e guild)
     (\<lambda>i m. Inr (written_row (m\<lparr>mg_Instances := (mg_Instances m)(guild \<mapsto> i)\<rparr>))) (read_row m)"

definition passInstances :: "migration_env \<Rightarrow> migrator \<Rightarrow> mig_result" where
  "passInstances e m =
    (if \<not> list_all (\<lambda>(table, i). list_all (\<lambda>row. i < length row) (me_Tables e table)) guild_columns
     then Inl (Panic, m)
     else and_then (each (instance_step e) (guild_names e) (begin_report ''1 instances'' m))
       (instance_statement e fallbackInstanceUID None (\<lambda>i m. Inr (m\<lparr>mg_Fallback := i\<rparr>))))"

section \<open>Users and identities\<close>

definition add_user :: "string \<Rightarrow> dump_value list \<Rightarrow> migration_db \<Rightarrow> migration_db" where
  "add_user uid row d =
    (let birthday = parseBirthday (row ! 5) in
     d\<lparr>md_Accounts := (md_Accounts d)\<lparr>users := users (md_Accounts d) @ [\<lparr>us_ID = uid,
           us_Username = va_S (row ! 1), us_Clearance = fst (clearanceFor (atoi64 (row ! 6))),
           us_Locale = nullable (row ! 4), us_Timezone = nullable (row ! 10), us_Deleted = False\<rparr>]\<rparr>,
       md_Profiles := md_Profiles d @ [\<lparr>pf_UserID = uid, pf_Avatar = nullable (row ! 3),
           pf_Birthday = birthday,
           pf_LastCongratulated = congratulated_at (atoi64 (row ! 9)) birthday\<rparr>]\<rparr>)"

definition user_step :: "migration_env \<Rightarrow> dump_value list \<Rightarrow> migrator \<Rightarrow> mig_result" where
  "user_step e row m = wide 0 row (\<lambda>m.
    let legacy = va_S (row ! 0) in
    case mapped ''user'' legacy m of
      Some u \<Rightarrow> Inr (skip_row ''already migrated'' (m\<lparr>mg_Users := (mg_Users m)(legacy \<mapsto> u)\<rparr>))
    | None \<Rightarrow> NewV7 e (\<lambda>u. wide 10 row (\<lambda>m.
        let m1 = noted_if (\<not> snd (clearanceFor (atoi64 (row ! 6))))
              ''clearance banded down (inexact legacy level)'' m;
            m2 = noted_if (\<not> va_Null (row ! 5) \<and> parseBirthday (row ! 5) = None)
              ''birthday unparseable, set NULL'' m1
        in statement e (\<lambda>m. remember_id e ''user'' legacy u
             (\<lambda>m. Inr (written_row (m\<lparr>mg_Users := (mg_Users m)(legacy \<mapsto> u)\<rparr>)))
             (on_db (add_user u row) m)) m2)) m) (read_row m)"

definition passUsers :: "migration_env \<Rightarrow> migrator \<Rightarrow> mig_result" where
  "passUsers e m = each (user_step e) (me_Tables e ''users'') (begin_report ''2 users'' m)"

text \<open>An identity that exists stays with its account. \<open>me_IdentityID\<close> is the id of an identity's row.\<close>

definition add_identity :: "string \<Rightarrow> string \<Rightarrow> migration_db \<Rightarrow> migration_db" where
  "add_identity userID uid d =
    (let a = md_Accounts d in
     if identity_taken discordPlatform uid a then d
     else d\<lparr>md_Accounts := a\<lparr>identities := identities a @ [\<lparr>pu_UserID = userID,
          pu_Platform = discordPlatform, pu_UID = uid, pu_Deleted = False\<rparr>]\<rparr>\<rparr>)"

definition identity_step :: "migration_env \<Rightarrow> dump_value list \<Rightarrow> migrator \<Rightarrow> mig_result" where
  "identity_step e row m = wide 3 row (\<lambda>m.
    let provider = va_S (row ! 1); legacyUser = va_S (row ! 3); uid = va_S (row ! 2) in
    if provider \<noteq> ''discord'' then Inr (skip_row (''unsupported provider '' @ provider) m)
    else case mg_Users m legacyUser of
        None \<Rightarrow> Inr (skip_row ''orphaned user_id (no such user)'' m)
      | Some userID \<Rightarrow>
          let m1 = m\<lparr>mg_PlatformUID := (mg_PlatformUID m)(legacyUser \<mapsto> uid)\<rparr> in
          if mapped ''platform_user'' (va_S (row ! 0)) m1 \<noteq> None then Inr (skip_row ''already migrated'' m1)
          else wide 5 row (statement e (\<lambda>m. remember_id e ''platform_user'' (va_S (row ! 0))
             (FormatInt (me_IdentityID e uid)) (\<lambda>m. Inr (written_row m)) (on_db (add_identity userID uid) m))) m1)
    (read_row m)"

definition passPlatformUsers :: "migration_env \<Rightarrow> migrator \<Rightarrow> mig_result" where
  "passPlatformUsers e m =
     each (identity_step e) (me_Tables e ''authorizations'') (begin_report ''3 platform identities'' m)"

section \<open>Destinations\<close>

definition channel_guild :: "migration_env \<Rightarrow> string \<rightharpoonup> string" where
  "channel_guild e =
    (let of_server = (\<lambda>m s. foldl (\<lambda>m c. if c \<noteq> 0 then m(FormatInt c \<mapsto> FormatInt (sv_ID s)) else m) m
           [sv_DefaultChannel s, sv_HighlightChannel s]);
         of_row = (\<lambda>m row. if \<not> va_Null (row ! 7) \<and> \<not> va_Null (row ! 8)
           then m(va_S (row ! 7) \<mapsto> va_S (row ! 8)) else m)
     in foldl of_row (foldl of_server Map.empty (me_Servers e)) (me_Tables e ''highlights''))"

definition direct :: "dump_value list \<Rightarrow> bool" where
  "direct row \<longleftrightarrow> va_Null (row ! 4) \<or> va_S (row ! 4) = ''0''"

text \<open>Go's map gives an absent user the empty string.\<close>

definition destination_key :: "(string \<rightharpoonup> string) \<Rightarrow> dump_value list \<Rightarrow> string" where
  "destination_key platformUID row = (if direct row
     then ''dm:'' @ (case platformUID (va_S (row ! 3)) of None \<Rightarrow> [] | Some uid \<Rightarrow> uid) else va_S (row ! 4))"

text \<open>Whether the last row wanting this key wants it as a direct message.\<close>

definition wanted_direct :: "(string \<rightharpoonup> string) \<Rightarrow> dump_value list list \<Rightarrow> string \<Rightarrow> bool" where
  "wanted_direct platformUID rows key =
     (case find (\<lambda>row. destination_key platformUID row = key) (rev rows) of None \<Rightarrow> False | Some row \<Rightarrow> direct row)"

definition destination_instance :: "migration_env \<Rightarrow> bool \<Rightarrow> string \<Rightarrow> migrator \<Rightarrow> int" where
  "destination_instance e dm key m =
    (if dm then mg_Fallback m
     else case channel_guild e key of
         None \<Rightarrow> mg_Fallback m
       | Some guild \<Rightarrow> (case mg_Instances m guild of None \<Rightarrow> mg_Fallback m | Some i \<Rightarrow> i))"

definition destination_meta_of :: "string \<Rightarrow> meta" where
  "destination_meta_of uid = DestinationMeta \<lparr>og_InstanceUID = [], og_DestinationUID = uid\<rparr>"

definition upsertDestination ::
  "migration_env \<Rightarrow> int \<Rightarrow> string \<Rightarrow> (int \<Rightarrow> migrator \<Rightarrow> mig_result) \<Rightarrow> migrator \<Rightarrow> mig_result" where
  "upsertDestination e instanceID uid k m =
    (let upsert = upsert_destination (me_Serial e (mg_Clock m)) instanceID (destination_meta_of uid)
     in statement e (\<lambda>m. k (fst (upsert (places (md_Store (mg_Db m))))) (on_places (snd \<circ> upsert) m)) m)"

definition destination_step :: "migration_env \<Rightarrow> (string \<Rightarrow> bool) \<Rightarrow> string \<Rightarrow> migrator \<Rightarrow> mig_result" where
  "destination_step e dm key m =
    (let m1 = noted_if (dm key) ''DM destination (no guild)'' (read_row m);
         m2 = noted_if (\<not> dm key \<and> channel_guild e key = None)
           ''channel unresolved, attached to fallback instance'' m1
     in upsertDestination e (destination_instance e (dm key) key m2) key
          (\<lambda>i m. Inr (written_row (m\<lparr>mg_Channels := (mg_Channels m)(key \<mapsto> i)\<rparr>))) m2)"

definition destination_keys :: "migration_env \<Rightarrow> (string \<rightharpoonup> string) \<Rightarrow> string list" where
  "destination_keys e platformUID =
     sort (remdups (map (destination_key platformUID) (me_Tables e ''reminders'')))"

definition passDestinations :: "migration_env \<Rightarrow> migrator \<Rightarrow> mig_result" where
  "passDestinations e m =
    (if \<not> list_all (\<lambda>row. 8 < length row) (me_Tables e ''highlights'')
        \<or> \<not> list_all (\<lambda>row. 4 < length row) (me_Tables e ''reminders'') then Inl (Panic, m)
     else each (destination_step e (wanted_direct (mg_PlatformUID m) (me_Tables e ''reminders'')))
       (destination_keys e (mg_PlatformUID m)) (begin_report ''4 destinations'' m))"

section \<open>Files\<close>

definition names_file :: "dump_value list \<Rightarrow> bool" where
  "names_file row \<longleftrightarrow> \<not> va_Null (row ! 3) \<and> va_S (row ! 3) \<noteq> []"

definition file_names :: "migration_env \<Rightarrow> string list" where
  "file_names e = sort (remdups (map (\<lambda>row. va_S (row ! 3)) (filter names_file (me_Tables e ''triggers''))))"

definition put_blob :: "migration_env \<Rightarrow> string \<Rightarrow> string \<Rightarrow> (migrator \<Rightarrow> mig_result) \<Rightarrow> migrator \<Rightarrow> mig_result" where
  "put_blob e key content k m =
    (if me_PutFails e key then Inl (BlobFailed, m) else k (m\<lparr>mg_Blobs := (mg_Blobs m)(key \<mapsto> content)\<rparr>))"

definition file_step :: "migration_env \<Rightarrow> string \<Rightarrow> migrator \<Rightarrow> mig_result" where
  "file_step e name m =
    (let m = read_row m in
     case mapped ''file'' name m of
       Some f \<Rightarrow> Inr (skip_row ''already migrated'' (m\<lparr>mg_Files := (mg_Files m)(name \<mapsto> f)\<rparr>))
     | None \<Rightarrow> (case me_ReadFile e name of
         None \<Rightarrow> Inr (skip_row ''blob missing on disk'' m)
       | Some content \<Rightarrow>
           let hash = me_Hash e content; key = file_key hash in
           NewV7 e (\<lambda>u. statement e (\<lambda>m.
             let upsert = GetOrCreateFileByHash u (me_Now e) hash key (me_Detect e content)
                   (i32 (int (length content))) name;
                 (f, inserted) = fst (upsert (md_Store (mg_Db m)));
                 finish = (\<lambda>m. remember_id e ''file'' name f
                   (\<lambda>m. Inr (written_row (m\<lparr>mg_Files := (mg_Files m)(name \<mapsto> f)\<rparr>)))
                   (noted_if (\<not> inserted) ''deduped onto an identical existing blob'' m));
                 m1 = on_store (snd \<circ> upsert) m
             in if inserted \<and> \<not> me_DryRun e then put_blob e key content finish m1 else finish m1)) m))"

definition passFiles :: "migration_env \<Rightarrow> migrator \<Rightarrow> mig_result" where
  "passFiles e m =
    (if \<not> list_all (\<lambda>row. 3 < length row) (me_Tables e ''triggers'') then Inl (Panic, m)
     else each (file_step e) (file_names e) (begin_report ''5 files'' m))"

section \<open>Triggers\<close>

definition migrated_phrase :: "dump_value list \<Rightarrow> string" where
  "migrated_phrase row =
    (if legacyTriggerMode (atoi64 (row ! 7)) = MODE_REGEX then stripRegexDelimiters (va_S (row ! 1))
     else va_S (row ! 1))"

definition compiles :: "migration_env \<Rightarrow> string \<Rightarrow> trigger_mode \<Rightarrow> bool" where
  "compiles e phrase mode \<longleftrightarrow>
     (case Compile (me_UnicodeWord e) (\<lambda>p. if me_Regexp e p then Some () else None) phrase mode of
        Inl err \<Rightarrow> False | Inr p \<Rightarrow> True)"

definition migrated_file :: "(string \<rightharpoonup> string) \<Rightarrow> dump_value list \<Rightarrow> string option" where
  "migrated_file file_ids row = (if names_file row then file_ids (va_S (row ! 3)) else None)"

text \<open>
  The parameters of \<open>CreateTrigger\<close>: this program's two inserts are those of that function, except
  that \<open>ON CONFLICT DO NOTHING\<close> inserts nothing for a taken phrase.
\<close>

definition trigger_params :: "(string \<rightharpoonup> string) \<Rightarrow> string \<Rightarrow> int \<Rightarrow> dump_value list \<Rightarrow> create_trigger_params" where
  "trigger_params file_ids userID instanceID row =
     \<lparr>tp_Phrase = migrated_phrase row, tp_Reply = (case nullable (row ! 2) of None \<Rightarrow> [] | Some s \<Rightarrow> s),
      tp_FileID = (case migrated_file file_ids row of None \<Rightarrow> [] | Some f \<Rightarrow> f), tp_UserID = userID,
      tp_Chance = i32 (atoi64 (row ! 6)), tp_Mode = legacyTriggerMode (atoi64 (row ! 7)),
      tp_InstanceIDs = [instanceID]\<rparr>"

definition insert_trigger ::
  "migration_env \<Rightarrow> string \<Rightarrow> string \<Rightarrow> int \<Rightarrow> dump_value list \<Rightarrow> migrator \<Rightarrow> mig_result" where
  "insert_trigger e u userID instanceID row = statement e (\<lambda>m.
    let create = CreateTrigger (me_Lower e) u (mustTime (row ! 11)) (trigger_params (mg_Files m) userID instanceID row);
        m1 = on_store (snd \<circ> create) m; legacy = va_S (row ! 0)
    in case fst (create (md_Store (mg_Db m))) of
         Inl err \<Rightarrow> if err = ErrExactPhraseTaken then Inr (skip_row ''duplicate exact-mode phrase'' m1)
           else Inl (StatementFailed, m1)
       | Inr _ \<Rightarrow> statement e (remember_id e ''trigger'' legacy u
           (\<lambda>m. Inr (written_row (m\<lparr>mg_Triggers := (mg_Triggers m)(legacy \<mapsto> u)\<rparr>)))) m1)"

definition trigger_step :: "migration_env \<Rightarrow> dump_value list \<Rightarrow> migrator \<Rightarrow> mig_result" where
  "trigger_step e row m = wide 0 row (\<lambda>m.
    let legacy = va_S (row ! 0) in
    case mapped ''trigger'' legacy m of
      Some t \<Rightarrow> Inr (skip_row ''already migrated'' (m\<lparr>mg_Triggers := (mg_Triggers m)(legacy \<mapsto> t)\<rparr>))
    | None \<Rightarrow> wide 4 row (\<lambda>m. case mg_Users m (va_S (row ! 4)) of
        None \<Rightarrow> Inr (skip_row ''orphaned user_id (no such user)'' m)
      | Some userID \<Rightarrow> wide 5 row (\<lambda>m. case mg_Instances m (va_S (row ! 5)) of
          None \<Rightarrow> Inr (skip_row ''unknown server_id'' m)
        | Some instanceID \<Rightarrow> wide 7 row (\<lambda>m.
            if \<not> compiles e (migrated_phrase row) (legacyTriggerMode (atoi64 (row ! 7)))
            then Inr (skip_row ''phrase does not compile under RE2'' m)
            else if nullable (row ! 2) = None \<and> migrated_file (mg_Files m) row = None
            then Inr (skip_row ''no reply and no available file'' m)
            else NewV7 e (\<lambda>u. wide 12 row (insert_trigger e u userID instanceID row)) m) m) m) m) (read_row m)"

definition passTriggers :: "migration_env \<Rightarrow> migrator \<Rightarrow> mig_result" where
  "passTriggers e m = each (trigger_step e) (me_Tables e ''triggers'') (begin_report ''6 triggers'' m)"

text \<open>One \<open>action_record\<close> row per legacy event, at the time of the last one; they are copied in at once.\<close>

definition ACTION_TRIGGER_OCCURRED :: int where "ACTION_TRIGGER_OCCURRED = 1"
definition ACTION_TRIGGER_CALLED :: int where "ACTION_TRIGGER_CALLED = 2"

definition stat_rows :: "(string \<rightharpoonup> string) \<Rightarrow> string \<Rightarrow> dump_value list \<Rightarrow> fire_row list" where
  "stat_rows user_ids triggerID row =
    (let at = (if va_Null (row ! 10) then mustTime (row ! 12) else mustTime (row ! 10));
         fire = (\<lambda>action. \<lparr>fr_ActionType = action, fr_ActorID = user_ids (va_S (row ! 4)),
            fr_SubjectID = Some triggerID, fr_Timestamp = at\<rparr>)
     in replicate (nat (atoi64 (row ! 8))) (fire ACTION_TRIGGER_OCCURRED)
        @ replicate (nat (atoi64 (row ! 9))) (fire ACTION_TRIGGER_CALLED))"

fun stats_loop :: "migration_env \<Rightarrow> fire_row list \<Rightarrow> dump_value list list \<Rightarrow> migrator
     \<Rightarrow> mig_error \<times> migrator + fire_row list \<times> migrator" where
  "stats_loop e recs [] m = Inr (recs, m)"
| "stats_loop e recs (row # rows) m =
    (let m1 = read_row m; legacy = va_S (row ! 0) in
     if row = [] then Inl (Panic, m1)
     else case mg_Triggers m1 legacy of
         None \<Rightarrow> stats_loop e recs rows (skip_row ''trigger not migrated'' m1)
       | Some t \<Rightarrow>
           if mapped ''trigger_stats'' legacy m1 \<noteq> None
           then stats_loop e recs rows (skip_row ''already migrated'' m1)
           else if \<not> 12 < length row then Inl (Panic, m1)
           else case remember_id e ''trigger_stats'' legacy t (\<lambda>m. Inr (written_row m)) m1 of
               Inl err \<Rightarrow> Inl err
             | Inr m2 \<Rightarrow> stats_loop e (recs @ stat_rows (mg_Users m) t row) rows m2)"

definition passTriggerStats :: "migration_env \<Rightarrow> migrator \<Rightarrow> mig_result" where
  "passTriggerStats e m =
    and_then (stats_loop e [] (me_Tables e ''triggers'') (begin_report ''7 trigger stats'' m)) (\<lambda>(recs, m).
      if recs = [] then Inr m
      else statement e (\<lambda>m. Inr (note_reason (''action_record rows seeded: '' @ FormatInt (int (length recs)))
        (on_store (\<lambda>s. s\<lparr>fires := fires s @ recs\<rparr>) m))) m)"

section \<open>Reminders\<close>

text \<open>The scan of the users reads past the end of a short row (\<open>None\<close>, a panic) like every access.\<close>

fun legacyUserTimezone :: "dump_value list list \<Rightarrow> string \<Rightarrow> string option" where
  "legacyUserTimezone [] legacyUser = Some []"
| "legacyUserTimezone (row # rows) legacyUser =
     (if row = [] then None
      else if va_S (row ! 0) \<noteq> legacyUser then legacyUserTimezone rows legacyUser
      else if \<not> 10 < length row then None
      else if va_Null (row ! 10) then legacyUserTimezone rows legacyUser
      else Some (va_S (row ! 10)))"

text \<open>The timezone with the reason that is noted when the row has none.\<close>

definition reminder_timezone :: "migration_env \<Rightarrow> dump_value list \<Rightarrow> (string \<times> string option) option" where
  "reminder_timezone e row =
    (if \<not> va_Null (row ! 9) \<and> va_S (row ! 9) \<noteq> [] then Some (va_S (row ! 9), None)
     else map_option (\<lambda>tz. if tz \<noteq> [] then (tz, Some ''timezone inherited from the user'')
        else (''UTC'', Some ''timezone defaulted to UTC''))
       (legacyUserTimezone (me_Tables e ''users'') (va_S (row ! 3))))"

text \<open>\<open>time.Duration(secs) * time.Second\<close> wraps at 64 bits.\<close>

definition repeat_every :: "dump_value \<Rightarrow> string option" where
  "repeat_every v = (if 0 < atoi64 v then Some (''@every '' @ Duration_String (i64 (atoi64 v * Second))) else None)"

definition migrated_reminder :: "string \<Rightarrow> string \<Rightarrow> string \<Rightarrow> int \<Rightarrow> int \<Rightarrow> dump_value list \<Rightarrow> reminder_row" where
  "migrated_reminder tz u userID destinationID ref row =
     \<lparr>r_ID = u, r_Datetime = mustTime (row ! 1), r_Timezone = tz,
      r_RepeatCron = repeat_every (row ! 5), r_DestinationID = destinationID, r_Status = STATUS_PENDING,
      r_UserID = Some userID, r_Message = nullable (row ! 2), r_ParentID = None, r_Deleted = False,
      r_ClaimedAt = None, r_DeliveryAttempts = 0, r_Ref = ref\<rparr>"

definition insert_reminder :: "string \<Rightarrow> string \<Rightarrow> string \<Rightarrow> int \<Rightarrow> dump_value list \<Rightarrow> db \<Rightarrow> db" where
  "insert_reminder tz u userID destinationID row s =
     s\<lparr>reminders := reminders s @ [migrated_reminder tz u userID destinationID (next_ref s userID) row]\<rparr>"

definition reminder_step :: "migration_env \<Rightarrow> dump_value list \<Rightarrow> migrator \<Rightarrow> mig_result" where
  "reminder_step e row m = wide 0 row (\<lambda>m.
    let legacy = va_S (row ! 0) in
    case mapped ''reminder'' legacy m of
      Some r \<Rightarrow> Inr (skip_row ''already migrated'' (m\<lparr>mg_Reminders := (mg_Reminders m)(legacy \<mapsto> r)\<rparr>))
    | None \<Rightarrow> wide 3 row (\<lambda>m. case mg_Users m (va_S (row ! 3)) of
        None \<Rightarrow> Inr (skip_row ''orphaned user_id (no such user)'' m)
      | Some userID \<Rightarrow> wide 4 row (\<lambda>m. case mg_Channels m (destination_key (mg_PlatformUID m) row) of
          None \<Rightarrow> Inr (skip_row ''destination unresolved'' m)
        | Some destinationID \<Rightarrow> wide 9 row (\<lambda>m. case reminder_timezone e row of
            None \<Rightarrow> Inl (Panic, m)
          | Some (tz, reason) \<Rightarrow> NewV7 e (\<lambda>u. statement e (\<lambda>m.
              remember_id e ''reminder'' legacy u
                (\<lambda>m. Inr (written_row (m\<lparr>mg_Reminders := (mg_Reminders m)(legacy \<mapsto> u)\<rparr>)))
                (on_places (insert_reminder tz u userID destinationID row) m)))
              (noted_if (reason \<noteq> None) (the reason) m)) m) m) m)
    (read_row m)"

definition link_parent :: "string \<Rightarrow> string \<Rightarrow> db \<Rightarrow> db" where
  "link_parent child parent = update_where (\<lambda>r. r_ID r = child) (\<lambda>r. r\<lparr>r_ParentID := Some parent\<rparr>)"

definition parent_step :: "migration_env \<Rightarrow> dump_value list \<Rightarrow> migrator \<Rightarrow> mig_result" where
  "parent_step e row = wide 6 row (\<lambda>m.
    if va_Null (row ! 6) then Inr m
    else case mg_Reminders m (va_S (row ! 0)) of
        None \<Rightarrow> Inr m
      | Some child \<Rightarrow> (case mg_Reminders m (va_S (row ! 6)) of
          None \<Rightarrow> Inr (note_reason ''dangling parent, set NULL'' m)
        | Some parent \<Rightarrow> statement e (\<lambda>m. Inr (on_places (link_parent child parent) m)) m))"

definition passReminders :: "migration_env \<Rightarrow> migrator \<Rightarrow> mig_result" where
  "passReminders e m =
    and_then (each (reminder_step e) (me_Tables e ''reminders'') (begin_report ''8 reminders'' m))
      (each (parent_step e) (me_Tables e ''reminders''))"

section \<open>Staging\<close>

datatype column_kind = TextColumn | BoolColumn | TimeColumn

record staging_spec =
  ss_Legacy :: string
  ss_Target :: string
  ss_Columns :: "column_kind list"

text \<open>
  The kinds of the columns: a flag by its index, a time by its name (\<open>timestamp\<close> or one that
  contains \<open>_at\<close>), a text else. The first column is the primary key, a \<open>bigint\<close>.
\<close>

definition staging_specs :: "staging_spec list" where
  "staging_specs =
    [\<lparr>ss_Legacy = ''highlights'', ss_Target = ''legacy_highlight'',
      ss_Columns = replicate 4 TextColumn @ [TimeColumn, BoolColumn] @ replicate 4 TextColumn @ replicate 2 TimeColumn\<rparr>,
     \<lparr>ss_Legacy = ''issues'', ss_Target = ''legacy_issue'',
      ss_Columns = replicate 6 TextColumn @ replicate 2 TimeColumn\<rparr>,
     \<lparr>ss_Legacy = ''trophies'', ss_Target = ''legacy_trophy'',
      ss_Columns = replicate 7 TextColumn @ [BoolColumn] @ replicate 2 TimeColumn\<rparr>]"

definition staged_value :: "column_kind \<Rightarrow> dump_value \<Rightarrow> staged_value" where
  "staged_value kind v =
    (if va_Null v then StagedNull
     else case kind of
         BoolColumn \<Rightarrow> StagedBool (va_S v \<noteq> ''0'')
       | TimeColumn \<Rightarrow> StagedTime (mustTime v)
       | TextColumn \<Rightarrow> StagedText (va_S v))"

definition staging_step :: "migration_env \<Rightarrow> staging_spec \<Rightarrow> dump_value list \<Rightarrow> migrator \<Rightarrow> mig_result" where
  "staging_step e spec row m =
    (let m1 = read_row m in
     if length row < length (ss_Columns spec) then Inl (ShortRow (ss_Legacy spec), m1)
     else statement e (\<lambda>m.
       case (if va_Null (row ! 0) then None else ParseInt (va_S (row ! 0))) of
         None \<Rightarrow> Inl (StatementFailed, m)
       | Some key \<Rightarrow>
           if key \<in> fst ` set (md_Staged (mg_Db m) (ss_Target spec)) then Inr (skip_row ''already staged'' m)
           else Inr (written_row (on_db (\<lambda>d. d\<lparr>md_Staged := (md_Staged d)(ss_Target spec :=
              md_Staged d (ss_Target spec) @ [(key, map2 staged_value (ss_Columns spec) row)])\<rparr>) m))) m1)"

definition staging_pass :: "migration_env \<Rightarrow> staging_spec \<Rightarrow> migrator \<Rightarrow> mig_result" where
  "staging_pass e spec m =
     each (staging_step e spec) (me_Tables e (ss_Legacy spec)) (begin_report (''9 '' @ ss_Target spec) m)"

definition passStaging :: "migration_env \<Rightarrow> migrator \<Rightarrow> mig_result" where
  "passStaging e m = each (staging_pass e) staging_specs m"

section \<open>A run\<close>

fun run_passes :: "(migrator \<Rightarrow> mig_result) list \<Rightarrow> migrator \<Rightarrow> mig_result" where
  "run_passes [] m = Inr m"
| "run_passes (p # ps) m = and_then (p m) (run_passes ps)"

definition passes :: "migration_env \<Rightarrow> (migrator \<Rightarrow> mig_result) list" where
  "passes e = [passInstances e, passUsers e, passPlatformUsers e, passDestinations e, passFiles e,
     passTriggers e, passTriggerStats e, passReminders e, passStaging e]"

definition start :: "migration_db \<Rightarrow> (string \<rightharpoonup> string) \<Rightarrow> migrator" where
  "start d blobs = \<lparr>mg_Db = d, mg_Users = Map.empty, mg_PlatformUID = Map.empty, mg_Instances = Map.empty,
     mg_Channels = Map.empty, mg_Files = Map.empty, mg_Triggers = Map.empty, mg_Reminders = Map.empty,
     mg_Fallback = 0, mg_Blobs = blobs, mg_Reports = [], mg_Clock = 0\<rparr>"

text \<open>What a rollback leaves: the rows as they were; the sequence of \<open>trigger.ref\<close> is not given back.\<close>

definition with_sequence :: "int \<Rightarrow> migration_db \<Rightarrow> migration_db" where
  "with_sequence n d = d\<lparr>md_Store := (md_Store d)\<lparr>next_trigger_ref := n\<rparr>\<rparr>"

definition rolled_back :: "migration_db \<Rightarrow> migrator \<Rightarrow> migration_db" where
  "rolled_back d m = with_sequence (next_trigger_ref (md_Store (mg_Db m))) d"

text \<open>The reports, in the order of the passes; the database and the blobs the run leaves.\<close>

definition run :: "migration_env \<Rightarrow> bool \<Rightarrow> migration_db \<Rightarrow> (string \<rightharpoonup> string)
     \<Rightarrow> (mig_error + report list) \<times> migration_db \<times> (string \<rightharpoonup> string)" where
  "run e commitFails d blobs =
    (case run_passes (passes e) (start d blobs) of
       Inl (err, m) \<Rightarrow> (Inl err, rolled_back d m, mg_Blobs m)
     | Inr m \<Rightarrow>
         if me_DryRun e then (Inr (rev (mg_Reports m)), rolled_back d m, mg_Blobs m)
         else if commitFails then (Inl CommitFailed, rolled_back d m, mg_Blobs m)
         else (Inr (rev (mg_Reports m)), mg_Db m, mg_Blobs m))"

definition migrate :: "(string \<Rightarrow> bool) \<Rightarrow> string \<Rightarrow> migration_env \<Rightarrow> bool \<Rightarrow> migration_db \<Rightarrow> (string \<rightharpoonup> string)
     \<Rightarrow> (mig_error + report list) \<times> migration_db \<times> (string \<rightharpoonup> string)" where
  "migrate isNumeric source e commitFails d blobs =
    (case parseDump isNumeric source of
       Inl err \<Rightarrow> (Inl (DumpFailed err), d, blobs)
     | Inr tables \<Rightarrow> run (e\<lparr>me_Tables := tables\<rparr>) commitFails d blobs)"

end
