(* ===== verification/MigrateSafety.thy ===== *)
theory MigrateSafety
  imports MigrateTool ReminderDelivery
begin

text \<open>
  What a run of the migration keeps and accounts for. A pass is a fold of one step over the rows
  of a table; every fact about it is a fact about the step, lifted by \<open>each_counts\<close> or
  \<open>each_induct\<close>.
\<close>

section \<open>Folding a step\<close>

lemma each_induct [consumes 1, case_names start step]:
  assumes "each f xs m = Inr m'" and "I m"
    and "\<And>x m m'. x \<in> set xs \<Longrightarrow> I m \<Longrightarrow> f x m = Inr m' \<Longrightarrow> I m'"
  shows "I m'"
  using assms by (induction xs arbitrary: m) auto

named_theorems mig \<open>the steps' plumbing, unfolded in proofs about a step\<close>

declare statement_def [mig] NewV7_def [mig] wide_def [mig] remember_id_def [mig] put_blob_def [mig]

lemma Inr_case_split:
  "(case r of Inl err \<Rightarrow> Inl err | Inr x \<Rightarrow> f x) = Inr y \<longleftrightarrow> (\<exists>x. r = Inr x \<and> f x = Inr y)"
  by (cases r) auto

section \<open>Every row is accounted for\<close>

text \<open>The counters of the reports: what was read, and what was written or skipped.\<close>

definition counts :: "migrator \<Rightarrow> (nat \<times> nat) list" where
  "counts m = map (\<lambda>r. (rp_Read r, rp_Written r + rp_Skipped r)) (mg_Reports m)"

definition bump :: "nat \<times> nat \<Rightarrow> (nat \<times> nat) list \<Rightarrow> (nat \<times> nat) list" where
  "bump k cs = (case cs of [] \<Rightarrow> [] | (a, b) # rest \<Rightarrow> (a + fst k, b + snd k) # rest)"

lemma bump_simps [simp]:
  "bump (0, 0) cs = cs"
  "bump k (bump k' cs) = bump (fst k + fst k', snd k + snd k') cs"
  "bump k (c # cs) = (fst c + fst k, snd c + snd k) # cs"
  by (auto simp: bump_def split: list.splits prod.splits)

lemma counts_simps [simp]:
  "counts (tick m) = counts m" "counts (on_db g m) = counts m" "counts (on_store h m) = counts m"
  "counts (on_places k m) = counts m"
  "counts (read_row m) = bump (1, 0) (counts m)" "counts (written_row m) = bump (0, 1) (counts m)"
  "counts (note_reason reason m) = counts m" "counts (skip_row reason m) = bump (0, 1) (counts m)"
  "counts (noted_if b reason m) = counts m"
  "counts (begin_report name m) = (0, 0) # counts m"
  by (auto simp: counts_def bump_def tick_def on_db_def on_store_def on_places_def read_row_def written_row_def
      note_reason_def skip_row_def noted_if_def begin_report_def on_report_def split: list.splits)

lemma counts_updates [simp]:
  "counts (m\<lparr>mg_Users := a\<rparr>) = counts m" "counts (m\<lparr>mg_PlatformUID := a\<rparr>) = counts m"
  "counts (m\<lparr>mg_Instances := b\<rparr>) = counts m" "counts (m\<lparr>mg_Channels := b\<rparr>) = counts m"
  "counts (m\<lparr>mg_Files := a\<rparr>) = counts m" "counts (m\<lparr>mg_Triggers := a\<rparr>) = counts m"
  "counts (m\<lparr>mg_Reminders := a\<rparr>) = counts m" "counts (m\<lparr>mg_Fallback := i\<rparr>) = counts m"
  "counts (m\<lparr>mg_Blobs := a\<rparr>) = counts m"
  by (simp_all add: counts_def)

definition one_row :: "('a \<Rightarrow> migrator \<Rightarrow> mig_result) \<Rightarrow> bool" where
  "one_row f \<longleftrightarrow> (\<forall>x m m'. f x m = Inr m' \<longrightarrow> counts m' = bump (1, 1) (counts m))"

lemma each_counts:
  assumes "one_row f" and "each f xs (begin_report name m) = Inr m'"
  shows "counts m' = (length xs, length xs) # counts m"
proof -
  have "counts m' = bump (length xs, length xs) (counts n)" if "each f xs n = Inr m'" for n
    using that
  proof (induction xs arbitrary: n)
    case (Cons x xs)
    then obtain n' where "f x n = Inr n'" "each f xs n' = Inr m'" by auto
    with Cons.IH assms(1) show ?case by (auto simp: one_row_def)
  qed simp
  from this [OF assms(2)] show ?thesis by simp
qed

lemma counts_steps:
  "one_row (instance_step e)" "one_row (user_step e)" "one_row (identity_step e)"
  "one_row (destination_step e dm)" "one_row (file_step e)" "one_row (trigger_step e)"
  "one_row (reminder_step e)" "one_row (staging_step e spec)"
  unfolding one_row_def
  by (auto simp: mig instance_step_def instance_statement_def user_step_def identity_step_def
      destination_step_def upsertDestination_def file_step_def trigger_step_def insert_trigger_def reminder_step_def staging_step_def
      Let_def split: if_splits option.splits sum.splits prod.splits)

lemma parents_counts: "each (parent_step e) rows m = Inr m' \<Longrightarrow> counts m' = counts m"
proof (induction rows arbitrary: m)
  case (Cons row rows)
  then obtain n where n: "parent_step e row m = Inr n" "each (parent_step e) rows n = Inr m'" by auto
  then have "counts n = counts m" by (auto simp: parent_step_def mig split: if_splits option.splits)
  with Cons.IH [OF n(2)] show ?case by simp
qed simp

lemma stats_counts:
  "stats_loop e recs rows m = Inr (recs', m') \<Longrightarrow> counts m' = bump (length rows, length rows) (counts m)"
  by (induction e recs rows m rule: stats_loop.induct)
    (auto simp: Let_def mig split: if_splits option.splits)

lemma passes_counts:
  "passInstances e m = Inr m' \<Longrightarrow> counts m' = (length (guild_names e), length (guild_names e)) # counts m"
  "passUsers e m = Inr m' \<Longrightarrow>
     counts m' = (length (me_Tables e ''users''), length (me_Tables e ''users'')) # counts m"
  "passPlatformUsers e m = Inr m' \<Longrightarrow>
     counts m' = (length (me_Tables e ''authorizations''), length (me_Tables e ''authorizations'')) # counts m"
  "passDestinations e m = Inr m' \<Longrightarrow> \<exists>k. counts m' = (k, k) # counts m"
  "passFiles e m = Inr m' \<Longrightarrow> counts m' = (length (file_names e), length (file_names e)) # counts m"
  "passTriggers e m = Inr m' \<Longrightarrow>
     counts m' = (length (me_Tables e ''triggers''), length (me_Tables e ''triggers'')) # counts m"
  "passTriggerStats e m = Inr m' \<Longrightarrow>
     counts m' = (length (me_Tables e ''triggers''), length (me_Tables e ''triggers'')) # counts m"
  "passReminders e m = Inr m' \<Longrightarrow>
     counts m' = (length (me_Tables e ''reminders''), length (me_Tables e ''reminders'')) # counts m"
  "staging_pass e spec m = Inr m' \<Longrightarrow>
     counts m' = (length (me_Tables e (ss_Legacy spec)), length (me_Tables e (ss_Legacy spec))) # counts m"
  by (auto simp: passInstances_def passUsers_def passPlatformUsers_def passDestinations_def passFiles_def
      passTriggers_def passTriggerStats_def passReminders_def staging_pass_def instance_statement_def mig Let_def
      dest!: each_counts [OF counts_steps(1)] each_counts [OF counts_steps(2)] each_counts [OF counts_steps(3)]
        each_counts [OF counts_steps(4)] each_counts [OF counts_steps(5)] each_counts [OF counts_steps(6)]
        each_counts [OF counts_steps(7)] each_counts [OF counts_steps(8)] parents_counts stats_counts
      split: if_splits)

text \<open>The state a step ends in, failed or not.\<close>

definition final :: "mig_result \<Rightarrow> migrator" where
  "final r = (case r of Inl (err, m) \<Rightarrow> m | Inr m \<Rightarrow> m)"

lemma final_simps [simp]: "final (Inl (err, m)) = m" "final (Inr m) = m"
  by (simp_all add: final_def)

lemma blobs_simps [simp]:
  "mg_Blobs (tick m) = mg_Blobs m" "mg_Blobs (on_db g m) = mg_Blobs m" "mg_Blobs (on_store h m) = mg_Blobs m"
  "mg_Blobs (on_places k m) = mg_Blobs m" "mg_Blobs (on_report q m) = mg_Blobs m"
  "mg_Blobs (read_row m) = mg_Blobs m" "mg_Blobs (written_row m) = mg_Blobs m"
  "mg_Blobs (note_reason reason m) = mg_Blobs m" "mg_Blobs (skip_row reason m) = mg_Blobs m"
  "mg_Blobs (noted_if b reason m) = mg_Blobs m" "mg_Blobs (begin_report name m) = mg_Blobs m"
  by (auto simp: tick_def on_db_def on_store_def on_places_def on_report_def read_row_def written_row_def
      note_reason_def skip_row_def noted_if_def begin_report_def)

text \<open>What a rollback does not take back: the sequence only advances, and a dry run writes no blob.\<close>

definition sequence :: "migrator \<Rightarrow> int" where
  "sequence m = next_trigger_ref (md_Store (mg_Db m))"

definition outside :: "migration_env \<Rightarrow> migrator \<Rightarrow> migrator \<Rightarrow> bool" where
  "outside e m n \<longleftrightarrow> sequence m \<le> sequence n \<and> (me_DryRun e \<longrightarrow> mg_Blobs n = mg_Blobs m)"

lemma outside_refl [simp]: "outside e m m"
  by (simp add: outside_def)

lemma outside_trans: "outside e k m \<Longrightarrow> outside e m n \<Longrightarrow> outside e k n"
  by (auto simp: outside_def)

lemma sequence_simps [simp]:
  "sequence (tick m) = sequence m" "sequence (on_report q m) = sequence m" "sequence (read_row m) = sequence m"
  "sequence (written_row m) = sequence m" "sequence (note_reason reason m) = sequence m"
  "sequence (skip_row reason m) = sequence m" "sequence (noted_if b reason m) = sequence m"
  "sequence (begin_report name m) = sequence m" "sequence (on_places k m) = sequence m"
  "sequence (on_db (add_user u row) m) = sequence m" "sequence (on_db (add_identity u uid) m) = sequence m"
  "sequence (on_db (\<lambda>d. d\<lparr>md_IdMap := f d\<rparr>) m) = sequence m"
  "sequence (on_db (\<lambda>d. d\<lparr>md_Staged := g d\<rparr>) m) = sequence m"
  "sequence (on_store (\<lambda>s. s\<lparr>fires := h s\<rparr>) m) = sequence m"
  by (auto simp: sequence_def tick_def on_db_def on_store_def on_places_def on_report_def read_row_def written_row_def
      note_reason_def skip_row_def noted_if_def begin_report_def add_user_def add_identity_def Let_def)

lemma sequence_updates [simp]:
  "sequence (m\<lparr>mg_Users := a\<rparr>) = sequence m" "sequence (m\<lparr>mg_PlatformUID := a\<rparr>) = sequence m"
  "sequence (m\<lparr>mg_Instances := b\<rparr>) = sequence m" "sequence (m\<lparr>mg_Channels := b\<rparr>) = sequence m"
  "sequence (m\<lparr>mg_Files := a\<rparr>) = sequence m" "sequence (m\<lparr>mg_Triggers := a\<rparr>) = sequence m"
  "sequence (m\<lparr>mg_Reminders := a\<rparr>) = sequence m" "sequence (m\<lparr>mg_Fallback := i\<rparr>) = sequence m"
  "sequence (m\<lparr>mg_Blobs := a\<rparr>) = sequence m"
  by (simp_all add: sequence_def)

lemma sequence_store [simp]:
  "sequence (on_store (snd \<circ> GetOrCreateFileByHash u now hash path mt n name) m) = sequence m"
  "sequence m \<le> sequence (on_store (snd \<circ> CreateTrigger lower u now p) m)"
  by (auto simp: sequence_def on_store_def on_db_def GetOrCreateFileByHash_def CreateTrigger_def Let_def
      split: option.splits)

lemma each_final:
  assumes "\<And>x m. outside e m (final (f x m))"
  shows "outside e m (final (each f xs m))"
proof (induction xs arbitrary: m)
  case (Cons x xs)
  show ?case
  proof (cases "f x m")
    case (Inl err)
    then show ?thesis using assms [of m x] by (simp add: final_def)
  next
    case (Inr n)
    with assms [of m x] have "outside e m n" by simp
    then have "outside e m (final (each f xs n))" using Cons by (rule outside_trans)
    with Inr show ?thesis by simp
  qed
qed simp

lemma steps_final:
  "outside e m (final (instance_step e guild m))" "outside e m (final (user_step e row m))"
  "outside e m (final (identity_step e row m))" "outside e m (final (destination_step e dm key m))"
  "outside e m (final (file_step e name m))"
  "outside e m (final (trigger_step e row m))" "outside e m (final (reminder_step e row m))"
  "outside e m (final (parent_step e row m))" "outside e m (final (staging_step e spec row m))"
  by (auto simp: mig outside_def instance_step_def instance_statement_def user_step_def identity_step_def
      destination_step_def upsertDestination_def file_step_def insert_trigger_def trigger_step_def
      reminder_step_def parent_step_def staging_step_def Let_def split: if_splits option.splits sum.splits prod.splits
      intro!: order_trans [OF _ sequence_store(2)])

lemma final_and_then:
  assumes "outside e m (final r)" and "\<And>n. outside e n (final (k n))"
  shows "outside e m (final (and_then r k))"
proof (cases r)
  case (Inr n)
  with assms(1) have "outside e m n" by simp
  then have "outside e m (final (k n))" using assms(2) by (rule outside_trans)
  with Inr show ?thesis by simp
qed (use assms(1) in simp)

lemma stats_final: "outside e m (case_sum snd snd (stats_loop e recs rows m))"
proof (induction rows arbitrary: recs m)
  case (Cons row rows)
  have step: "outside e m (case_sum snd snd (stats_loop e recs' rows n))" if "outside e m n" for recs' n
    using that Cons.IH by (rule outside_trans)
  show ?case by (auto simp: Let_def mig outside_def [of e m "tick _"] outside_def [of e m "read_row _"]
      split: option.split intro!: step) (simp_all add: outside_def)
qed simp

lemma passes_final:
  assumes "p \<in> set (passes e)"
  shows "outside e m (final (p m))"
proof -
  have report: "outside e m (begin_report name m)" for m name by (simp add: outside_def)
  have each: "outside e m (final (each f xs (begin_report name m)))" if "\<And>x m. outside e m (final (f x m))"
    for f :: "'a \<Rightarrow> migrator \<Rightarrow> mig_result" and xs m name
    using report each_final [OF that] by (rule outside_trans)
  note steps = each [OF steps_final(1)] each [OF steps_final(2)] each [OF steps_final(3)] each [OF steps_final(4)]
    each [OF steps_final(5)] each [OF steps_final(6)] each [OF steps_final(7)] each [OF steps_final(8)]
    each [OF steps_final(9)]
  have staging: "outside e m (final (staging_pass e spec m))" for spec m
    using steps by (simp add: staging_pass_def)
  let ?loop = "stats_loop e [] (me_Tables e ''triggers'') (begin_report ''7 trigger stats'' m)"
  have loop: "outside e m (case_sum snd snd ?loop)" by (rule outside_trans [OF report stats_final])
  have "outside e m (final (passTriggerStats e m))"
  proof (cases ?loop)
    case (Inl err)
    with loop show ?thesis by (cases err) (simp add: passTriggerStats_def)
  next
    case (Inr res)
    with loop show ?thesis by (cases res) (auto simp: passTriggerStats_def mig outside_def)
  qed
  moreover have "outside e m (final (instance_statement e uid channel (\<lambda>i m. Inr (m\<lparr>mg_Fallback := i\<rparr>)) m))"
    for uid channel m by (simp add: instance_statement_def mig Let_def outside_def)
  then have "outside e m (final (passInstances e m))"
    unfolding passInstances_def by (auto intro!: final_and_then steps)
  moreover have "outside e m (final (passReminders e m))"
    unfolding passReminders_def by (intro final_and_then steps each_final steps_final)
  moreover have "outside e m (final (passStaging e m))"
    unfolding passStaging_def by (rule each_final) (rule staging)
  ultimately show ?thesis using assms steps
    by (auto simp: passes_def passUsers_def passPlatformUsers_def passDestinations_def passFiles_def passTriggers_def)
qed

lemma run_passes_final:
  assumes "\<And>p m. p \<in> set ps \<Longrightarrow> outside e m (final (p m))"
  shows "outside e m (final (run_passes ps m))"
  using assms by (induction ps arbitrary: m) (auto intro!: final_and_then)

text \<open>What the plumbing leaves alone.\<close>

lemma run_fields [simp]:
  "mg_Db (tick m) = mg_Db m" "mg_Db (on_report f m) = mg_Db m" "mg_Db (read_row m) = mg_Db m"
  "mg_Db (written_row m) = mg_Db m" "mg_Db (note_reason reason m) = mg_Db m" "mg_Db (skip_row reason m) = mg_Db m"
  "mg_Db (noted_if b reason m) = mg_Db m" "mg_Db (begin_report name m) = mg_Db m" "mg_Db (on_db g m) = g (mg_Db m)"
  "mg_Clock (tick m) = Suc (mg_Clock m)" "mg_Clock (on_report f m) = mg_Clock m" "mg_Clock (read_row m) = mg_Clock m"
  "mg_Clock (written_row m) = mg_Clock m" "mg_Clock (note_reason reason m) = mg_Clock m"
  "mg_Clock (skip_row reason m) = mg_Clock m" "mg_Clock (noted_if b reason m) = mg_Clock m"
  "mg_Clock (begin_report name m) = mg_Clock m" "mg_Clock (on_db g m) = mg_Clock m"
  by (simp_all add: tick_def read_row_def written_row_def note_reason_def skip_row_def noted_if_def begin_report_def
      on_report_def on_db_def)

lemma mapped_run [simp]:
  "mapped entity legacy (tick m) = mapped entity legacy m" "mapped entity legacy (read_row m) = mapped entity legacy m"
  by (simp_all add: mapped_def)

lemma run_maps [simp]:
  "mg_Users (tick m) = mg_Users m" "mg_Users (read_row m) = mg_Users m" "mg_Users (noted_if b reason m) = mg_Users m"
  "mg_Users (on_db g m) = mg_Users m" "mg_Users (written_row m) = mg_Users m" "mg_Users (skip_row reason m) = mg_Users m"
  "mg_Users (note_reason reason m) = mg_Users m" "mg_Users (begin_report name m) = mg_Users m"
  "mg_PlatformUID (tick m) = mg_PlatformUID m" "mg_PlatformUID (read_row m) = mg_PlatformUID m"
  "mg_PlatformUID (noted_if b reason m) = mg_PlatformUID m" "mg_PlatformUID (on_db g m) = mg_PlatformUID m"
  "mg_PlatformUID (written_row m) = mg_PlatformUID m" "mg_PlatformUID (skip_row reason m) = mg_PlatformUID m"
  "mg_PlatformUID (note_reason reason m) = mg_PlatformUID m" "mg_PlatformUID (begin_report name m) = mg_PlatformUID m"
  "mg_Instances (tick m) = mg_Instances m" "mg_Instances (read_row m) = mg_Instances m"
  "mg_Instances (noted_if b reason m) = mg_Instances m" "mg_Instances (on_db g m) = mg_Instances m"
  "mg_Instances (written_row m) = mg_Instances m" "mg_Instances (skip_row reason m) = mg_Instances m"
  "mg_Instances (note_reason reason m) = mg_Instances m" "mg_Instances (begin_report name m) = mg_Instances m"
  "mg_Channels (tick m) = mg_Channels m" "mg_Channels (read_row m) = mg_Channels m"
  "mg_Channels (noted_if b reason m) = mg_Channels m" "mg_Channels (on_db g m) = mg_Channels m"
  "mg_Channels (written_row m) = mg_Channels m" "mg_Channels (skip_row reason m) = mg_Channels m"
  "mg_Channels (note_reason reason m) = mg_Channels m" "mg_Channels (begin_report name m) = mg_Channels m"
  by (simp_all add: tick_def read_row_def written_row_def note_reason_def skip_row_def noted_if_def begin_report_def
      on_report_def on_db_def)

lemma more_run_maps [simp]:
  "mg_Files (tick m) = mg_Files m" "mg_Files (read_row m) = mg_Files m" "mg_Files (noted_if b reason m) = mg_Files m"
  "mg_Files (on_db g m) = mg_Files m" "mg_Files (written_row m) = mg_Files m" "mg_Files (skip_row reason m) = mg_Files m"
  "mg_Files (note_reason reason m) = mg_Files m" "mg_Files (begin_report name m) = mg_Files m"
  "mg_Triggers (tick m) = mg_Triggers m" "mg_Triggers (read_row m) = mg_Triggers m"
  "mg_Triggers (noted_if b reason m) = mg_Triggers m" "mg_Triggers (on_db g m) = mg_Triggers m"
  "mg_Triggers (written_row m) = mg_Triggers m" "mg_Triggers (skip_row reason m) = mg_Triggers m"
  "mg_Triggers (note_reason reason m) = mg_Triggers m" "mg_Triggers (begin_report name m) = mg_Triggers m"
  "mg_Reminders (tick m) = mg_Reminders m" "mg_Reminders (read_row m) = mg_Reminders m"
  "mg_Reminders (noted_if b reason m) = mg_Reminders m" "mg_Reminders (on_db g m) = mg_Reminders m"
  "mg_Reminders (written_row m) = mg_Reminders m" "mg_Reminders (skip_row reason m) = mg_Reminders m"
  "mg_Reminders (note_reason reason m) = mg_Reminders m" "mg_Reminders (begin_report name m) = mg_Reminders m"
  "mg_Fallback (tick m) = mg_Fallback m" "mg_Fallback (read_row m) = mg_Fallback m"
  "mg_Fallback (noted_if b reason m) = mg_Fallback m" "mg_Fallback (on_db g m) = mg_Fallback m"
  "mg_Fallback (written_row m) = mg_Fallback m" "mg_Fallback (skip_row reason m) = mg_Fallback m"
  "mg_Fallback (note_reason reason m) = mg_Fallback m" "mg_Fallback (begin_report name m) = mg_Fallback m"
  by (simp_all add: tick_def read_row_def written_row_def note_reason_def skip_row_def noted_if_def begin_report_def
      on_report_def on_db_def)

lemma store_run [simp]:
  "mg_Users (on_store h m) = mg_Users m" "mg_PlatformUID (on_store h m) = mg_PlatformUID m"
  "mg_Instances (on_store h m) = mg_Instances m" "mg_Channels (on_store h m) = mg_Channels m"
  "mg_Files (on_store h m) = mg_Files m" "mg_Triggers (on_store h m) = mg_Triggers m"
  "mg_Reminders (on_store h m) = mg_Reminders m" "mg_Fallback (on_store h m) = mg_Fallback m"
  "mg_Clock (on_store h m) = mg_Clock m"
  by (simp_all add: on_store_def)

lemma places_run [simp]:
  "mg_Users (on_places p m) = mg_Users m" "mg_PlatformUID (on_places p m) = mg_PlatformUID m"
  "mg_Instances (on_places p m) = mg_Instances m" "mg_Channels (on_places p m) = mg_Channels m"
  "mg_Files (on_places p m) = mg_Files m" "mg_Triggers (on_places p m) = mg_Triggers m"
  "mg_Reminders (on_places p m) = mg_Reminders m" "mg_Fallback (on_places p m) = mg_Fallback m"
  "mg_Clock (on_places p m) = mg_Clock m"
  by (simp_all add: on_places_def)

definition read_counts :: "migration_env \<Rightarrow> nat \<Rightarrow> nat list" where
  "read_counts e k =
    [length (guild_names e), length (me_Tables e ''users''), length (me_Tables e ''authorizations''), k,
     length (file_names e), length (me_Tables e ''triggers''), length (me_Tables e ''triggers''),
     length (me_Tables e ''reminders''), length (me_Tables e ''highlights''), length (me_Tables e ''issues''),
     length (me_Tables e ''trophies'')]"

lemma run_counts:
  assumes "run_passes (passes e) (start d blobs) = Inr m"
  shows "\<exists>k. counts m = rev (map (\<lambda>n. (n, n)) (read_counts e k))"
proof -
  have "counts (start d blobs) = []" by (simp add: start_def counts_def)
  with assms show ?thesis
    by (auto simp: passes_def passStaging_def staging_specs_def read_counts_def dest!: passes_counts)
qed

lemma run_outside:
  "next_trigger_ref (md_Store d) \<le> next_trigger_ref (md_Store (mg_Db (final (run_passes (passes e) (start d blobs)))))"
  "me_DryRun e \<Longrightarrow> mg_Blobs (final (run_passes (passes e) (start d blobs))) = blobs"
proof -
  have "outside e (start d blobs) (final (run_passes (passes e) (start d blobs)))"
    using passes_final by (rule run_passes_final)
  then show "next_trigger_ref (md_Store d) \<le> next_trigger_ref (md_Store (mg_Db (final (run_passes (passes e) (start d blobs)))))"
    "me_DryRun e \<Longrightarrow> mg_Blobs (final (run_passes (passes e) (start d blobs))) = blobs"
    by (simp_all add: outside_def sequence_def start_def)
qed

lemma migrate_rolls_back:
  assumes "migrate isNumeric source e commitFails d blobs = (res, d', blobs')"
    and "me_DryRun e \<or> (\<exists>err. res = Inl err)"
  shows "\<exists>n\<ge>next_trigger_ref (md_Store d). d' = with_sequence n d"
proof (cases "parseDump isNumeric source")
  case (Inl err)
  have "d = with_sequence (next_trigger_ref (md_Store d)) d" by (simp add: with_sequence_def)
  moreover have "d' = d" using Inl assms by (auto simp: migrate_def)
  ultimately show ?thesis by auto
next
  case (Inr tables)
  let ?r = "run_passes (passes (e\<lparr>me_Tables := tables\<rparr>)) (start d blobs)"
  have "next_trigger_ref (md_Store d) \<le> next_trigger_ref (md_Store (mg_Db (final ?r)))" by (rule run_outside(1))
  then show ?thesis using assms Inr
    by (cases ?r) (auto simp: migrate_def run_def rolled_back_def final_def split: if_splits prod.splits)
qed


section \<open>A small migration\<close>

definition legacy_source :: string where
  "legacy_source = print_dump
    [([], ''users'', [[CNumber ''7'', CText ''ann'', CNull, CNull, CText ''fi'', CNull, CNumber ''250'', CNull, CNull, CNull, CNull]]),
     ([], ''authorizations'', [[CNumber ''1'', CText ''discord'', CText ''42'', CNumber ''7'', CNull, CNull],
        [CNumber ''2'', CText ''discord'', CText ''43'', CNumber ''9'', CNull, CNull]])] []"

definition legacy_env :: migration_env where
  "legacy_env = \<lparr>me_Tables = (\<lambda>_. []), me_Servers = [], me_ReadFile = (\<lambda>_. None), me_DryRun = False,
     me_Fresh = (\<lambda>n. Some (replicate n CHR ''a'')), me_Serial = int, me_Fails = (\<lambda>_. False), me_PutFails = (\<lambda>_. False),
     me_Hash = id, me_Detect = id, me_Lower = id, me_UnicodeWord = (\<lambda>_. True), me_Regexp = (\<lambda>_. True), me_Now = 0,
     me_IdentityID = (\<lambda>_. 0)\<rparr>"

definition empty_db :: migration_db where
  "empty_db = \<lparr>md_Accounts = \<lparr>users = [], identities = []\<rparr>, md_Profiles = [],
     md_Store = \<lparr>triggers = [], trigger_instances = [], files = [], fires = [], next_trigger_ref = 1,
        places = \<lparr>reminders = [], instances = [], destinations = [], platform_users = [], action_records = []\<rparr>\<rparr>,
     md_IdMap = Map.empty, md_Staged = (\<lambda>_. [])\<rparr>"

definition legacy_run :: "(mig_error + report list) \<times> migration_db \<times> (string \<rightharpoonup> string)" where
  "legacy_run = migrate (\<lambda>_. True) legacy_source legacy_env False empty_db Map.empty"

lemma legacy_run_ok:
  "map_sum (\<lambda>_. ()) (\<lambda>rs. map (\<lambda>r. (rp_Read r, rp_Written r, rp_Skipped r)) (take 3 rs)) (fst legacy_run) =
     Inr [(0, 0, 0), (1, 1, 0), (2, 1, 1)]
   \<and> triggers (md_Store (fst (snd legacy_run))) = []"
  by code_simp


end
