(* ===== verification/MigrateInvariant.thy ===== *)
theory MigrateInvariant
  imports MigrateSafety
begin

text \<open>
  The tables' invariants through a migration: every statement of every pass keeps the keys, the
  foreign keys and the checks that the servers rely on. Generated ids are assumed fresh
  (\<open>fresh_ids\<close>).
\<close>

section \<open>The invariants\<close>

definition user_ids :: "migration_db \<Rightarrow> string set" where
  "user_ids d = us_ID ` set (users (md_Accounts d))"

definition entity_ids :: "migration_db \<Rightarrow> string \<Rightarrow> string set" where
  "entity_ids d entity =
    (if entity = ''user'' then user_ids d
     else if entity = ''file'' then f_ID ` set (files (md_Store d))
     else if entity = ''trigger'' then t_ID ` set (triggers (md_Store d))
     else if entity = ''reminder'' then r_ID ` set (reminders (places (md_Store d)))
     else UNIV)"

definition accounts_keys :: "accounts \<Rightarrow> bool" where
  "accounts_keys a \<longleftrightarrow> distinct (map us_ID (users a))
     \<and> distinct (map (\<lambda>p. (pu_Platform p, pu_UID p)) (identities a))
     \<and> pu_UserID ` set (identities a) \<subseteq> us_ID ` set (users a)"

text \<open>The foreign keys of reminders and triggers, and of the id map the program keeps for itself.\<close>

definition reminder_linked :: "migration_db \<Rightarrow> reminder_row \<Rightarrow> bool" where
  "reminder_linked d r \<longleftrightarrow> r_DestinationID r \<in> d_ID ` set (destinations (places (md_Store d)))
     \<and> set_option (r_UserID r) \<subseteq> user_ids d \<and> set_option (r_ParentID r) \<subseteq> entity_ids d ''reminder''"

definition links_ok :: "migration_db \<Rightarrow> bool" where
  "links_ok d \<longleftrightarrow> (\<forall>r \<in> set (reminders (places (md_Store d))). reminder_linked d r)
     \<and> (\<forall>t \<in> set (triggers (md_Store d)). set_option (t_UserID t) \<subseteq> user_ids d)
     \<and> (\<forall>k v. md_IdMap d k = Some v \<longrightarrow> v \<in> entity_ids d (fst k))"

definition migration_db_ok :: "(string \<Rightarrow> string) \<Rightarrow> migration_db \<Rightarrow> bool" where
  "migration_db_ok lower d \<longleftrightarrow> accounts_keys (md_Accounts d) \<and> trigger_db_ok lower (md_Store d)
     \<and> places_ok (places (md_Store d)) \<and> store_ok (places (md_Store d)) \<and> links_ok d"

definition used_ids :: "migration_db \<Rightarrow> string set" where
  "used_ids d = user_ids d \<union> entity_ids d ''file'' \<union> entity_ids d ''trigger'' \<union> entity_ids d ''reminder''"

definition used_serials :: "migration_db \<Rightarrow> int set" where
  "used_serials d = i_ID ` set (instances (places (md_Store d))) \<union> d_ID ` set (destinations (places (md_Store d)))"

definition unused_from :: "migration_env \<Rightarrow> nat \<Rightarrow> migration_db \<Rightarrow> bool" where
  "unused_from e n d \<longleftrightarrow> (\<forall>k\<ge>n. set_option (me_Fresh e k) \<inter> used_ids d = {} \<and> me_Serial e k \<notin> used_serials d)"

definition injective_ids :: "migration_env \<Rightarrow> bool" where
  "injective_ids e \<longleftrightarrow> inj (me_Serial e)
     \<and> (\<forall>k n. me_Fresh e k \<noteq> None \<and> me_Fresh e k = me_Fresh e n \<longrightarrow> k = n)"

definition fresh_ids :: "migration_env \<Rightarrow> migration_db \<Rightarrow> bool" where
  "fresh_ids e d \<longleftrightarrow> injective_ids e \<and> unused_from e 0 d"

text \<open>The run's maps hold ids of rows.\<close>

definition maps_ok :: "migrator \<Rightarrow> bool" where
  "maps_ok m \<longleftrightarrow> ran (mg_Users m) \<subseteq> user_ids (mg_Db m) \<and> ran (mg_Files m) \<subseteq> entity_ids (mg_Db m) ''file''
     \<and> ran (mg_Triggers m) \<subseteq> entity_ids (mg_Db m) ''trigger''
     \<and> ran (mg_Reminders m) \<subseteq> entity_ids (mg_Db m) ''reminder''
     \<and> ran (mg_Instances m) \<subseteq> i_ID ` set (instances (places (md_Store (mg_Db m))))
     \<and> ran (mg_Channels m) \<subseteq> d_ID ` set (destinations (places (md_Store (mg_Db m))))"

definition mig_ok :: "migration_env \<Rightarrow> migrator \<Rightarrow> bool" where
  "mig_ok e m \<longleftrightarrow> migration_db_ok (me_Lower e) (mg_Db m) \<and> maps_ok m \<and> unused_from e (mg_Clock m) (mg_Db m)"

section \<open>Statements on the database\<close>

lemma entity_ids_simps [simp]:
  "entity_ids d ''user'' = user_ids d"
  "entity_ids d ''file'' = f_ID ` set (files (md_Store d))"
  "entity_ids d ''trigger'' = t_ID ` set (triggers (md_Store d))"
  "entity_ids d ''reminder'' = r_ID ` set (reminders (places (md_Store d)))"
  "entity_ids d ''trigger_stats'' = UNIV" "entity_ids d ''platform_user'' = UNIV"
  by (simp_all add: entity_ids_def)

lemma entity_ids_mono:
  assumes "user_ids d \<subseteq> user_ids d'" and "entity_ids d ''file'' \<subseteq> entity_ids d' ''file''"
    and "entity_ids d ''trigger'' \<subseteq> entity_ids d' ''trigger''"
    and "entity_ids d ''reminder'' \<subseteq> entity_ids d' ''reminder''"
  shows "entity_ids d entity \<subseteq> entity_ids d' entity"
  using assms by (auto simp: entity_ids_def)

text \<open>Rows are only added, and the links of the new ones are good.\<close>

lemma links_grow:
  assumes "links_ok d" and "md_IdMap d' = md_IdMap d"
    and ids: "\<And>entity. entity_ids d entity \<subseteq> entity_ids d' entity"
    and dests: "d_ID ` set (destinations (places (md_Store d))) \<subseteq> d_ID ` set (destinations (places (md_Store d')))"
    and "\<And>r. r \<in> set (reminders (places (md_Store d'))) \<Longrightarrow> r \<notin> set (reminders (places (md_Store d))) \<Longrightarrow>
       reminder_linked d' r"
    and "\<And>t. t \<in> set (triggers (md_Store d')) \<Longrightarrow> t \<notin> set (triggers (md_Store d)) \<Longrightarrow>
       set_option (t_UserID t) \<subseteq> user_ids d'"
  shows "links_ok d'"
proof -
  have users: "user_ids d \<subseteq> user_ids d'" using ids [of "''user''"] by simp
  have "reminder_linked d' r" if "reminder_linked d r" for r
    unfolding reminder_linked_def
    using that [unfolded reminder_linked_def] dests users ids [of "''reminder''"] by (meson subset_trans subsetD)
  moreover have "set_option (t_UserID t) \<subseteq> user_ids d'" if "set_option (t_UserID t) \<subseteq> user_ids d" for t
    using that users by (rule subset_trans)
  moreover have "v \<in> entity_ids d' (fst k)" if "md_IdMap d' k = Some v" for k v
    using that assms(1,2) ids [of "fst k"] unfolding links_ok_def by (cases k) auto
  ultimately show ?thesis using assms(1,5,6) unfolding links_ok_def by blast
qed

lemma add_user_ok:
  assumes "migration_db_ok lower d" and "u \<notin> user_ids d"
  shows "migration_db_ok lower (add_user u row d)"
    and "user_ids (add_user u row d) = insert u (user_ids d)" and "md_Store (add_user u row d) = md_Store d"
proof -
  have eq: "md_Store (add_user u row d) = md_Store d" "md_IdMap (add_user u row d) = md_IdMap d"
    "user_ids (add_user u row d) = insert u (user_ids d)"
    by (auto simp: add_user_def Let_def user_ids_def)
  have "links_ok (add_user u row d)"
    by (rule links_grow [of d]) (use assms eq in \<open>auto simp: migration_db_ok_def entity_ids_def\<close>)
  with assms eq show "migration_db_ok lower (add_user u row d)"
    by (auto simp: migration_db_ok_def accounts_keys_def user_ids_def add_user_def Let_def)
  from eq show "user_ids (add_user u row d) = insert u (user_ids d)" "md_Store (add_user u row d) = md_Store d"
    by simp_all
qed

lemma add_identity_ok:
  assumes "migration_db_ok lower d" and "userID \<in> user_ids d"
  shows "migration_db_ok lower (add_identity userID uid d)"
    and "user_ids (add_identity userID uid d) = user_ids d" and "md_Store (add_identity userID uid d) = md_Store d"
proof -
  have eq: "md_Store (add_identity userID uid d) = md_Store d" "md_IdMap (add_identity userID uid d) = md_IdMap d"
    "user_ids (add_identity userID uid d) = user_ids d"
    by (auto simp: add_identity_def Let_def user_ids_def)
  have "links_ok (add_identity userID uid d)"
    by (rule links_grow [of d]) (use assms eq in \<open>auto simp: migration_db_ok_def entity_ids_def\<close>)
  from eq show "user_ids (add_identity userID uid d) = user_ids d" "md_Store (add_identity userID uid d) = md_Store d"
    by simp_all
  with assms eq \<open>links_ok (add_identity userID uid d)\<close> show "migration_db_ok lower (add_identity userID uid d)"
    by (auto simp: migration_db_ok_def accounts_keys_def add_identity_def Let_def user_ids_def identity_taken_def
        list_ex_iff)
qed

lemma remember_ok:
  assumes "migration_db_ok lower d" and "v \<in> entity_ids d entity"
  shows "migration_db_ok lower (d\<lparr>md_IdMap := (md_IdMap d)((entity, legacy) \<mapsto> v)\<rparr>)"
proof -
  have "user_ids (d\<lparr>md_IdMap := f\<rparr>) = user_ids d" for f by (simp add: user_ids_def)
  moreover from this have "entity_ids (d\<lparr>md_IdMap := f\<rparr>) entity' = entity_ids d entity'" for f entity'
    by (simp add: entity_ids_def)
  ultimately show ?thesis using assms by (auto simp: migration_db_ok_def links_ok_def reminder_linked_def)
qed

lemma store_ids [simp]:
  "user_ids (d\<lparr>md_Store := s\<rparr>) = user_ids d"
  by (simp add: user_ids_def)

lemma store_op_ok:
  assumes "migration_db_ok lower d" and "trigger_db_ok lower s" and "places_ok (places s)" and "store_ok (places s)"
    and "f_ID ` set (files (md_Store d)) \<subseteq> f_ID ` set (files s)"
    and "t_ID ` set (triggers (md_Store d)) \<subseteq> t_ID ` set (triggers s)"
    and "r_ID ` set (reminders (places (md_Store d))) \<subseteq> r_ID ` set (reminders (places s))"
    and "d_ID ` set (destinations (places (md_Store d))) \<subseteq> d_ID ` set (destinations (places s))"
    and "\<And>r. r \<in> set (reminders (places s)) \<Longrightarrow> r \<notin> set (reminders (places (md_Store d))) \<Longrightarrow>
       reminder_linked (d\<lparr>md_Store := s\<rparr>) r"
    and "\<And>t. t \<in> set (triggers s) \<Longrightarrow> t \<notin> set (triggers (md_Store d)) \<Longrightarrow> set_option (t_UserID t) \<subseteq> user_ids d"
  shows "migration_db_ok lower (d\<lparr>md_Store := s\<rparr>)"
proof -
  have "links_ok (d\<lparr>md_Store := s\<rparr>)"
  proof (rule links_grow [of d])
    show "entity_ids d entity \<subseteq> entity_ids (d\<lparr>md_Store := s\<rparr>) entity" for entity
      by (rule entity_ids_mono) (simp_all add: assms(5-7))
    show "links_ok d" using assms(1) by (simp add: migration_db_ok_def)
  qed (simp_all add: assms(8-10))
  with assms(1-4) show ?thesis by (simp add: migration_db_ok_def)
qed

lemma upsertInstance_rows:
  fixes s :: db
  assumes "upsertInstance n uid channel s = (i, s')" and "places_ok s" and "n \<notin> i_ID ` set (instances s)"
  shows "places_ok s' \<and> i \<in> i_ID ` set (instances s') \<and> i_ID ` set (instances s') \<subseteq> insert n (i_ID ` set (instances s))
    \<and> i_ID ` set (instances s) \<subseteq> i_ID ` set (instances s')
    \<and> destinations s' = destinations s \<and> reminders s' = reminders s"
proof (cases "find (\<lambda>i. i_Platform i = discordPlatform \<and> i_Meta i = instance_meta_of uid) (instances s)")
  case (Some row)
  define g :: "instance_row \<Rightarrow> instance_row" where "g = (\<lambda>i. if i_Platform i = discordPlatform \<and> i_Meta i = instance_meta_of uid
     then i\<lparr>i_DefaultChannel := (if channel = None then i_DefaultChannel i else channel)\<rparr> else i)"
  have g: "i_ID (g i) = i_ID i" "i_Platform (g i) = i_Platform i" "i_Meta (g i) = i_Meta i" for i
    by (simp_all add: g_def)
  have s': "s' = s\<lparr>instances := map g (instances s)\<rparr>" and i: "i = i_ID row"
    using assms(1) Some by (auto simp: upsertInstance_def g_def)
  have "row \<in> set (instances s)" using find_SomeD [OF Some] by simp
  with assms(2) show ?thesis
    by (auto simp: s' i places_ok_def comp_def g image_image)
next
  case None
  then have "(i_Platform i, i_Meta i) \<noteq> (discordPlatform, instance_meta_of uid)" if "i \<in> set (instances s)" for i
    using that by (simp add: find_None_iff)
  then have fresh: "(discordPlatform, instance_meta_of uid) \<notin> (\<lambda>i. (i_Platform i, i_Meta i)) ` set (instances s)"
    by (metis (no_types, lifting) imageE)
  from None assms(1) have "s' = s\<lparr>instances := instances s @ [\<lparr>i_ID = n, i_Platform = discordPlatform,
      i_Meta = instance_meta_of uid, i_DefaultChannel = channel, i_Deleted = False\<rparr>]\<rparr>" and "i = n"
    by (auto simp: upsertInstance_def)
  with assms(2,3) fresh show ?thesis by (auto simp: places_ok_def)
qed

lemma upsert_destination_rows:
  assumes "upsert_destination n i m s = (d, s')" and "places_ok s" and "n \<notin> d_ID ` set (destinations s)"
    and "i \<in> i_ID ` set (instances s)"
  shows "places_ok s' \<and> d \<in> d_ID ` set (destinations s') \<and> d_ID ` set (destinations s') \<subseteq> insert n (d_ID ` set (destinations s))
    \<and> d_ID ` set (destinations s) \<subseteq> d_ID ` set (destinations s')
    \<and> instances s' = instances s \<and> reminders s' = reminders s"
proof -
  from upsert_destination_spec [OF assms]
  have "places_ok s'" "d \<in> d_ID ` set (destinations s')" "instances s' = instances s" "reminders s' = reminders s"
    by auto
  with assms(1) show ?thesis by (auto simp: upsert_destination_def split: option.splits)
qed

lemma same_reminders: "reminders s' = reminders s \<Longrightarrow> store_ok s' = store_ok s"
  by (simp add: store_ok_def owner_refs_def)

lemma instance_op_ok:
  assumes "migration_db_ok lower d" and "n \<notin> used_serials d"
    and up: "upsertInstance n uid channel (places (md_Store d)) = (i, p)"
  shows "migration_db_ok lower (d\<lparr>md_Store := (md_Store d)\<lparr>places := p\<rparr>\<rparr>)"
proof -
  have rows: "places_ok p \<and> i \<in> i_ID ` set (instances p) \<and> i_ID ` set (instances p) \<subseteq> insert n (i_ID ` set (instances (places (md_Store d))))
    \<and> i_ID ` set (instances (places (md_Store d))) \<subseteq> i_ID ` set (instances p)
    \<and> destinations p = destinations (places (md_Store d)) \<and> reminders p = reminders (places (md_Store d))"
    by (rule upsertInstance_rows [OF up]) (use assms(1,2) in \<open>auto simp: migration_db_ok_def used_serials_def\<close>)
  show ?thesis
    by (rule store_op_ok [OF assms(1)])
      (use assms(1) rows same_reminders [of p "places (md_Store d)"] in
        \<open>auto simp: migration_db_ok_def intro!: places_ids_ok\<close>)
qed

lemma destination_op_ok:
  assumes "migration_db_ok lower d" and "n \<notin> used_serials d" and "i \<in> i_ID ` set (instances (places (md_Store d)))"
    and up: "upsert_destination n i mt (places (md_Store d)) = (r, p)"
  shows "migration_db_ok lower (d\<lparr>md_Store := (md_Store d)\<lparr>places := p\<rparr>\<rparr>)"
proof -
  have rows: "places_ok p \<and> r \<in> d_ID ` set (destinations p)
    \<and> d_ID ` set (destinations p) \<subseteq> insert n (d_ID ` set (destinations (places (md_Store d))))
    \<and> d_ID ` set (destinations (places (md_Store d))) \<subseteq> d_ID ` set (destinations p)
    \<and> instances p = instances (places (md_Store d)) \<and> reminders p = reminders (places (md_Store d))"
    by (rule upsert_destination_rows [OF up]) (use assms(1-3) in \<open>auto simp: migration_db_ok_def used_serials_def\<close>)
  show ?thesis
    by (rule store_op_ok [OF assms(1)])
      (use assms(1) rows same_reminders [of p "places (md_Store d)"] in
        \<open>auto simp: migration_db_ok_def intro!: places_ids_ok\<close>)
qed

lemma file_rows:
  assumes "GetOrCreateFileByHash u now hash path mt n fname s = ((f, inserted), s')"
  shows "f \<in> f_ID ` set (files s') \<and> f_ID ` set (files s) \<subseteq> f_ID ` set (files s')
    \<and> f_ID ` set (files s') \<subseteq> insert u (f_ID ` set (files s)) \<and> triggers s' = triggers s \<and> places s' = places s"
proof (cases "find (live_hash hash) (files s)")
  case (Some g)
  define h :: "file_row \<Rightarrow> file_row" where "h = (\<lambda>g. if live_hash hash g then g\<lparr>f_OriginalFilename :=
      (if f_OriginalFilename g = [] then fname else f_OriginalFilename g)\<rparr> else g)"
  have h: "f_ID (h x) = f_ID x" for x by (simp add: h_def)
  from Some assms have "s' = s\<lparr>files := map h (files s)\<rparr>" "f = f_ID g"
    by (auto simp: GetOrCreateFileByHash_def h_def)
  with find_SomeD [OF Some] show ?thesis by (auto simp: image_image h)
next
  case None
  with assms show ?thesis by (auto simp: GetOrCreateFileByHash_def)
qed

lemma file_op_ok:
  assumes "migration_db_ok lower d" and "u \<notin> used_ids d"
    and up: "GetOrCreateFileByHash u now hash path mt n fname (md_Store d) = ((f, inserted), s)"
  shows "migration_db_ok lower (d\<lparr>md_Store := s\<rparr>)"
proof -
  have "trigger_db_ok lower (snd (GetOrCreateFileByHash u now hash path mt n fname (md_Store d)))"
    by (rule GetOrCreateFileByHash_ok) (use assms(1,2) in \<open>auto simp: migration_db_ok_def used_ids_def\<close>)
  then show ?thesis
    using file_rows [OF up] assms(1) by (intro store_op_ok [OF assms(1)]) (auto simp: up migration_db_ok_def)
qed

lemma trigger_rows:
  assumes "CreateTrigger lower u now p s = (res, s')"
  shows "t_ID ` set (triggers s) \<subseteq> t_ID ` set (triggers s')
    \<and> t_ID ` set (triggers s') \<subseteq> insert u (t_ID ` set (triggers s)) \<and> files s' = files s \<and> places s' = places s
    \<and> (\<forall>t \<in> set (triggers s'). t \<in> set (triggers s) \<or> t_UserID t = nullStr (tp_UserID p))
    \<and> (\<forall>r. res = Inr r \<longrightarrow> u \<in> t_ID ` set (triggers s'))"
proof (cases res)
  case (Inl err)
  from CreateTrigger_Inl [OF assms [unfolded Inl]] Inl show ?thesis by auto
next
  case (Inr r)
  from CreateTrigger_Inr(6) [OF assms [unfolded Inr]] show ?thesis by auto
qed

lemma trigger_op_ok:
  assumes "migration_db_ok lower d" and "u \<notin> used_ids d" and "tp_UserID p \<in> user_ids d"
    and create: "CreateTrigger lower u now p (md_Store d) = (res, s)"
  shows "migration_db_ok lower (d\<lparr>md_Store := s\<rparr>)"
proof -
  have "trigger_db_ok lower (snd (CreateTrigger lower u now p (md_Store d)))"
    by (rule CreateTrigger_ok) (use assms(1,2) in \<open>auto simp: migration_db_ok_def used_ids_def\<close>)
  then show ?thesis
    using trigger_rows [OF create] assms(1,3)
    by (intro store_op_ok [OF assms(1)]) (auto simp: create migration_db_ok_def nullStr_def split: if_splits)
qed

lemma fires_op_ok:
  assumes "migration_db_ok lower d"
  shows "migration_db_ok lower (d\<lparr>md_Store := (md_Store d)\<lparr>fires := f\<rparr>\<rparr>)"
proof -
  have "row_valid r ((md_Store d)\<lparr>fires := f\<rparr>) = row_valid r (md_Store d)" for r by (rule row_valid_same) simp
  moreover have "instance_known ((md_Store d)\<lparr>fires := f\<rparr>) i = instance_known (md_Store d) i" for i
    by (rule instance_known_same) simp
  ultimately show ?thesis using assms
    by (intro store_op_ok [OF assms]) (simp_all add: migration_db_ok_def trigger_invariants list_all_iff)
qed

lemma reminder_op_ok:
  assumes "migration_db_ok lower d" and "u \<notin> used_ids d" and "userID \<in> user_ids d"
    and "i \<in> d_ID ` set (destinations (places (md_Store d)))"
  shows "migration_db_ok lower (d\<lparr>md_Store := (md_Store d)\<lparr>places := insert_reminder tz u userID i row (places (md_Store d))\<rparr>\<rparr>)"
proof -
  let ?s = "places (md_Store d)"
  let ?r = "migrated_reminder tz u userID i (next_ref ?s userID) row"
  have "store_ok (?s\<lparr>reminders := reminders ?s @ [?r]\<rparr>)"
    by (rule append_row_ok [where u = userID])
      (use assms(1,2) in \<open>auto simp: migration_db_ok_def migrated_reminder_def row_ok_def status_defs store_consts used_ids_def\<close>)
  moreover have "reminder_linked (d\<lparr>md_Store := (md_Store d)\<lparr>places := insert_reminder tz u userID i row ?s\<rparr>\<rparr>) ?r"
    using assms(3,4) by (simp add: reminder_linked_def migrated_reminder_def insert_reminder_def)
  ultimately show ?thesis using assms(1)
    by (intro store_op_ok [OF assms(1)])
      (auto simp: migration_db_ok_def insert_reminder_def places_ok_def intro!: places_ids_ok)
qed

section \<open>Statements of a run\<close>

text \<open>An id that was generated and not yet used.\<close>

definition reserved :: "migration_env \<Rightarrow> string \<Rightarrow> migrator \<Rightarrow> bool" where
  "reserved e u m \<longleftrightarrow> u \<notin> used_ids (mg_Db m) \<and> (\<forall>k\<ge>mg_Clock m. me_Fresh e k \<noteq> Some u)"

definition reserved_serial :: "migration_env \<Rightarrow> int \<Rightarrow> migrator \<Rightarrow> bool" where
  "reserved_serial e i m \<longleftrightarrow> i \<notin> used_serials (mg_Db m) \<and> (\<forall>k\<ge>mg_Clock m. me_Serial e k \<noteq> i)"

lemma mig_ok_report [simp]:
  "mig_ok e (on_report f m) = mig_ok e m" "mig_ok e (read_row m) = mig_ok e m"
  "mig_ok e (written_row m) = mig_ok e m" "mig_ok e (note_reason reason m) = mig_ok e m"
  "mig_ok e (skip_row reason m) = mig_ok e m" "mig_ok e (noted_if b reason m) = mig_ok e m"
  "mig_ok e (begin_report name m) = mig_ok e m"
  by (simp_all add: read_row_def written_row_def note_reason_def skip_row_def noted_if_def begin_report_def
      on_report_def mig_ok_def maps_ok_def)

lemma reserved_simps [simp]:
  "reserved e u (noted_if b reason m) = reserved e u m" "reserved e u (read_row m) = reserved e u m"
  by (simp_all add: reserved_def)

lemma reserved_tick [intro]: "reserved e u m \<Longrightarrow> reserved e u (tick m)"
  by (auto simp: reserved_def)

lemma mig_ok_tick [intro]: "mig_ok e m \<Longrightarrow> mig_ok e (tick m)"
  by (auto simp: mig_ok_def maps_ok_def unused_from_def)

lemma reserve:
  assumes "injective_ids e" and "mig_ok e m"
  shows "me_Fresh e (mg_Clock m) = Some u \<Longrightarrow> reserved e u (tick m)"
    and "reserved_serial e (me_Serial e (mg_Clock m)) (tick m)"
proof -
  assume u: "me_Fresh e (mg_Clock m) = Some u"
  from assms(2) have "set_option (me_Fresh e (mg_Clock m)) \<inter> used_ids (mg_Db m) = {}"
    by (auto simp: mig_ok_def unused_from_def)
  moreover have "me_Fresh e k \<noteq> Some u" if "Suc (mg_Clock m) \<le> k" for k
    using that u assms(1) unfolding injective_ids_def by (metis Suc_n_not_le_n option.discI)
  ultimately show "reserved e u (tick m)" using u by (auto simp: reserved_def)
next
  from assms(2) have "me_Serial e (mg_Clock m) \<notin> used_serials (mg_Db m)"
    by (auto simp: mig_ok_def unused_from_def)
  moreover have "me_Serial e k \<noteq> me_Serial e (mg_Clock m)" if "Suc (mg_Clock m) \<le> k" for k
    using that assms(1) unfolding injective_ids_def by (metis Suc_n_not_le_n injD)
  ultimately show "reserved_serial e (me_Serial e (mg_Clock m)) (tick m)" by (auto simp: reserved_serial_def)
qed

text \<open>A statement that keeps the tables in order, only adds ids, and uses at most reserved ones.\<close>

lemma mig_ok_db:
  assumes "mig_ok e m" and "migration_db_ok (me_Lower e) d"
    and "\<And>entity. entity_ids (mg_Db m) entity \<subseteq> entity_ids d entity"
    and "i_ID ` set (instances (places (md_Store (mg_Db m)))) \<subseteq> i_ID ` set (instances (places (md_Store d)))"
    and "d_ID ` set (destinations (places (md_Store (mg_Db m)))) \<subseteq> d_ID ` set (destinations (places (md_Store d)))"
    and "used_ids d \<subseteq> U \<union> used_ids (mg_Db m)" and "\<And>u. u \<in> U \<Longrightarrow> reserved e u m"
    and "used_serials d \<subseteq> I \<union> used_serials (mg_Db m)" and "\<And>i. i \<in> I \<Longrightarrow> reserved_serial e i m"
  shows "mig_ok e (m\<lparr>mg_Db := d\<rparr>)"
proof -
  have "maps_ok (m\<lparr>mg_Db := d\<rparr>)"
    using assms(1,4,5) assms(3) [of "''user''"] assms(3) [of "''file''"] assms(3) [of "''trigger''"]
      assms(3) [of "''reminder''"]
    unfolding mig_ok_def maps_ok_def by (simp, meson subset_trans)
  moreover have "unused_from e (mg_Clock m) d"
    unfolding unused_from_def
  proof (intro allI impI conjI)
    fix k assume k: "mg_Clock m \<le> k"
    have old: "set_option (me_Fresh e k) \<inter> used_ids (mg_Db m) = {}" "me_Serial e k \<notin> used_serials (mg_Db m)"
      using assms(1) k by (auto simp: mig_ok_def unused_from_def)
    have "u \<notin> set_option (me_Fresh e k)" if "u \<in> U" for u
      using assms(7) [OF that] k by (auto simp: reserved_def)
    with old(1) assms(6) show "set_option (me_Fresh e k) \<inter> used_ids d = {}" by blast
    have "me_Serial e k \<notin> I" using assms(9) k by (auto simp: reserved_serial_def)
    with old(2) assms(8) show "me_Serial e k \<notin> used_serials d" by blast
  qed
  ultimately show ?thesis using assms(2) by (simp add: mig_ok_def)
qed

text \<open>The statements, each under what its step has established.\<close>

lemma mig_ok_add_user:
  assumes "mig_ok e m" and "reserved e u m"
  shows "mig_ok e (on_db (add_user u row) m)"
proof -
  have fresh: "u \<notin> user_ids (mg_Db m)" using assms(2) by (auto simp: reserved_def used_ids_def)
  have ok: "migration_db_ok (me_Lower e) (mg_Db m)" using assms(1) by (simp add: mig_ok_def)
  note new = add_user_ok [OF ok fresh]
  show ?thesis unfolding on_db_def
    by (rule mig_ok_db [OF assms(1), where U = "{u}" and I = "{}"])
      (use new assms(2) in \<open>auto simp: entity_ids_def used_ids_def used_serials_def\<close>)
qed

lemma mig_ok_add_identity:
  assumes "mig_ok e m" and "userID \<in> user_ids (mg_Db m)"
  shows "mig_ok e (on_db (add_identity userID uid) m)"
proof -
  have ok: "migration_db_ok (me_Lower e) (mg_Db m)" using assms(1) by (simp add: mig_ok_def)
  note new = add_identity_ok [OF ok assms(2)]
  show ?thesis unfolding on_db_def
    by (rule mig_ok_db [OF assms(1), where U = "{}" and I = "{}"])
      (use new in \<open>auto simp: entity_ids_def used_ids_def used_serials_def\<close>)
qed

lemma mig_ok_remember:
  assumes "mig_ok e m" and "v \<in> entity_ids (mg_Db m) entity"
  shows "mig_ok e (on_db (\<lambda>d. d\<lparr>md_IdMap := (md_IdMap d)((entity, legacy) \<mapsto> v)\<rparr>) m)"
proof -
  have ok: "migration_db_ok (me_Lower e) (mg_Db m)" using assms(1) by (simp add: mig_ok_def)
  have user: "user_ids (d\<lparr>md_IdMap := f\<rparr>) = user_ids d" for d f by (simp add: user_ids_def)
  show ?thesis unfolding on_db_def
    by (rule mig_ok_db [OF assms(1), where U = "{}" and I = "{}"])
      (use remember_ok [OF ok assms(2)] user in \<open>auto simp: entity_ids_def used_ids_def used_serials_def\<close>)
qed

lemma mig_ok_staged:
  assumes "mig_ok e m"
  shows "mig_ok e (on_db (\<lambda>d. d\<lparr>md_Staged := f d\<rparr>) m)"
proof -
  have "user_ids (d\<lparr>md_Staged := g\<rparr>) = user_ids d" for d g by (simp add: user_ids_def)
  moreover from this have "entity_ids (d\<lparr>md_Staged := g\<rparr>) = entity_ids d" for d g
    by (auto simp: entity_ids_def fun_eq_iff)
  ultimately show ?thesis using assms unfolding on_db_def
    by (simp add: mig_ok_def maps_ok_def migration_db_ok_def links_ok_def reminder_linked_def unused_from_def used_ids_def
        used_serials_def)
qed

text \<open>A statement on the store.\<close>

lemma mig_ok_store:
  assumes "mig_ok e m" and "migration_db_ok (me_Lower e) ((mg_Db m)\<lparr>md_Store := s\<rparr>)"
    and "f_ID ` set (files (md_Store (mg_Db m))) \<subseteq> f_ID ` set (files s)"
    and "t_ID ` set (triggers (md_Store (mg_Db m))) \<subseteq> t_ID ` set (triggers s)"
    and "r_ID ` set (reminders (places (md_Store (mg_Db m)))) \<subseteq> r_ID ` set (reminders (places s))"
    and "i_ID ` set (instances (places (md_Store (mg_Db m)))) \<subseteq> i_ID ` set (instances (places s))"
    and "d_ID ` set (destinations (places (md_Store (mg_Db m)))) \<subseteq> d_ID ` set (destinations (places s))"
    and "f_ID ` set (files s) \<union> t_ID ` set (triggers s) \<union> r_ID ` set (reminders (places s)) \<subseteq> U \<union> used_ids (mg_Db m)"
    and "\<And>u. u \<in> U \<Longrightarrow> reserved e u m"
    and "i_ID ` set (instances (places s)) \<union> d_ID ` set (destinations (places s)) \<subseteq> I \<union> used_serials (mg_Db m)"
    and "\<And>i. i \<in> I \<Longrightarrow> reserved_serial e i m"
  shows "mig_ok e (m\<lparr>mg_Db := (mg_Db m)\<lparr>md_Store := s\<rparr>\<rparr>)"
proof (rule mig_ok_db [OF assms(1,2)])
  show "entity_ids (mg_Db m) entity \<subseteq> entity_ids ((mg_Db m)\<lparr>md_Store := s\<rparr>) entity" for entity
    by (rule entity_ids_mono) (simp_all add: assms(3-5))
  show "used_ids ((mg_Db m)\<lparr>md_Store := s\<rparr>) \<subseteq> U \<union> used_ids (mg_Db m)"
    using assms(8) by (auto simp: used_ids_def)
  show "used_serials ((mg_Db m)\<lparr>md_Store := s\<rparr>) \<subseteq> I \<union> used_serials (mg_Db m)"
    using assms(10) by (simp add: used_serials_def)
qed (simp_all add: assms)

lemma mig_ok_instance:
  assumes "mig_ok e m" and "reserved_serial e n m"
    and up: "upsertInstance n uid channel (places (md_Store (mg_Db m))) = (i, p)"
  shows "mig_ok e (m\<lparr>mg_Db := (mg_Db m)\<lparr>md_Store := (md_Store (mg_Db m))\<lparr>places := p\<rparr>\<rparr>\<rparr>)"
    and "i \<in> i_ID ` set (instances p)"
proof -
  have ok: "migration_db_ok (me_Lower e) (mg_Db m)" using assms(1) by (simp add: mig_ok_def)
  have n: "n \<notin> used_serials (mg_Db m)" using assms(2) by (simp add: reserved_serial_def)
  have rows: "places_ok p \<and> i \<in> i_ID ` set (instances p) \<and> i_ID ` set (instances p) \<subseteq> insert n (i_ID ` set (instances (places (md_Store (mg_Db m)))))
    \<and> i_ID ` set (instances (places (md_Store (mg_Db m)))) \<subseteq> i_ID ` set (instances p)
    \<and> destinations p = destinations (places (md_Store (mg_Db m))) \<and> reminders p = reminders (places (md_Store (mg_Db m)))"
    by (rule upsertInstance_rows [OF up]) (use ok n in \<open>auto simp: migration_db_ok_def used_serials_def\<close>)
  then show "i \<in> i_ID ` set (instances p)" by simp
  show "mig_ok e (m\<lparr>mg_Db := (mg_Db m)\<lparr>md_Store := (md_Store (mg_Db m))\<lparr>places := p\<rparr>\<rparr>\<rparr>)"
    by (rule mig_ok_store [OF assms(1) instance_op_ok [OF ok n up], where U = "{}" and I = "{n}"])
      (use rows assms(2) in \<open>auto simp: used_ids_def used_serials_def\<close>)
qed

lemma mig_ok_destination:
  assumes "mig_ok e m" and "reserved_serial e n m" and "i \<in> i_ID ` set (instances (places (md_Store (mg_Db m))))"
    and up: "upsert_destination n i mt (places (md_Store (mg_Db m))) = (r, p)"
  shows "mig_ok e (m\<lparr>mg_Db := (mg_Db m)\<lparr>md_Store := (md_Store (mg_Db m))\<lparr>places := p\<rparr>\<rparr>\<rparr>)"
    and "r \<in> d_ID ` set (destinations p)" and "instances p = instances (places (md_Store (mg_Db m)))"
proof -
  have ok: "migration_db_ok (me_Lower e) (mg_Db m)" using assms(1) by (simp add: mig_ok_def)
  have n: "n \<notin> used_serials (mg_Db m)" using assms(2) by (simp add: reserved_serial_def)
  have rows: "places_ok p \<and> r \<in> d_ID ` set (destinations p)
    \<and> d_ID ` set (destinations p) \<subseteq> insert n (d_ID ` set (destinations (places (md_Store (mg_Db m)))))
    \<and> d_ID ` set (destinations (places (md_Store (mg_Db m)))) \<subseteq> d_ID ` set (destinations p)
    \<and> instances p = instances (places (md_Store (mg_Db m))) \<and> reminders p = reminders (places (md_Store (mg_Db m)))"
    by (rule upsert_destination_rows [OF up]) (use ok n assms(3) in \<open>auto simp: migration_db_ok_def used_serials_def\<close>)
  then show "r \<in> d_ID ` set (destinations p)" "instances p = instances (places (md_Store (mg_Db m)))" by simp_all
  show "mig_ok e (m\<lparr>mg_Db := (mg_Db m)\<lparr>md_Store := (md_Store (mg_Db m))\<lparr>places := p\<rparr>\<rparr>\<rparr>)"
    by (rule mig_ok_store [OF assms(1) destination_op_ok [OF ok n assms(3) up], where U = "{}" and I = "{n}"])
      (use rows assms(2) in \<open>auto simp: used_ids_def used_serials_def\<close>)
qed

lemma mig_ok_file:
  assumes "mig_ok e m" and "reserved e u m"
    and up: "GetOrCreateFileByHash u now hash path mt n fname (md_Store (mg_Db m)) = ((f, inserted), s)"
  shows "mig_ok e (m\<lparr>mg_Db := (mg_Db m)\<lparr>md_Store := s\<rparr>\<rparr>)" and "f \<in> f_ID ` set (files s)"
proof -
  have ok: "migration_db_ok (me_Lower e) (mg_Db m)" using assms(1) by (simp add: mig_ok_def)
  have u: "u \<notin> used_ids (mg_Db m)" using assms(2) by (simp add: reserved_def)
  from file_rows [OF up] show "f \<in> f_ID ` set (files s)" by simp
  show "mig_ok e (m\<lparr>mg_Db := (mg_Db m)\<lparr>md_Store := s\<rparr>\<rparr>)"
    by (rule mig_ok_store [OF assms(1) file_op_ok [OF ok u up], where U = "{u}" and I = "{}"])
      (use file_rows [OF up] assms(2) in \<open>auto simp: used_ids_def used_serials_def\<close>)
qed

lemma mig_ok_trigger:
  assumes "mig_ok e m" and "reserved e u m" and "tp_UserID p \<in> user_ids (mg_Db m)"
    and create: "CreateTrigger (me_Lower e) u now p (md_Store (mg_Db m)) = (res, s)"
  shows "mig_ok e (m\<lparr>mg_Db := (mg_Db m)\<lparr>md_Store := s\<rparr>\<rparr>)"
    and "\<And>r. res = Inr r \<Longrightarrow> u \<in> t_ID ` set (triggers s)"
proof -
  have ok: "migration_db_ok (me_Lower e) (mg_Db m)" using assms(1) by (simp add: mig_ok_def)
  have u: "u \<notin> used_ids (mg_Db m)" using assms(2) by (simp add: reserved_def)
  from trigger_rows [OF create] show "\<And>r. res = Inr r \<Longrightarrow> u \<in> t_ID ` set (triggers s)" by simp
  show "mig_ok e (m\<lparr>mg_Db := (mg_Db m)\<lparr>md_Store := s\<rparr>\<rparr>)"
    by (rule mig_ok_store [OF assms(1) trigger_op_ok [OF ok u assms(3) create], where U = "{u}" and I = "{}"])
      (use trigger_rows [OF create] assms(2) in \<open>auto simp: used_ids_def used_serials_def\<close>)
qed

lemma mig_ok_reminder:
  assumes "mig_ok e m" and "reserved e u m" and "userID \<in> user_ids (mg_Db m)"
    and "i \<in> d_ID ` set (destinations (places (md_Store (mg_Db m))))"
  shows "mig_ok e (m\<lparr>mg_Db := (mg_Db m)\<lparr>md_Store := (md_Store (mg_Db m))\<lparr>places :=
     insert_reminder tz u userID i row (places (md_Store (mg_Db m)))\<rparr>\<rparr>\<rparr>)"
proof -
  have ok: "migration_db_ok (me_Lower e) (mg_Db m)" using assms(1) by (simp add: mig_ok_def)
  have u: "u \<notin> used_ids (mg_Db m)" using assms(2) by (simp add: reserved_def)
  show ?thesis
    by (rule mig_ok_store [OF assms(1) reminder_op_ok [OF ok u assms(3,4)], where U = "{u}" and I = "{}"])
      (use assms(2) in \<open>auto simp: used_ids_def used_serials_def insert_reminder_def migrated_reminder_def\<close>)
qed

section \<open>Every step keeps the invariant\<close>

lemma ran_upd: "ran (f(a \<mapsto> b)) \<subseteq> insert b (ran f)"
  by (auto simp: ran_def split: if_splits)

lemma mig_ok_maps:
  assumes "mig_ok e m"
  shows "u \<in> user_ids (mg_Db m) \<Longrightarrow> mg_Users m = f \<Longrightarrow> mig_ok e (m\<lparr>mg_Users := f(l \<mapsto> u)\<rparr>)"
    and "u \<in> entity_ids (mg_Db m) ''file'' \<Longrightarrow> mg_Files m = f \<Longrightarrow> mig_ok e (m\<lparr>mg_Files := f(l \<mapsto> u)\<rparr>)"
    and "u \<in> entity_ids (mg_Db m) ''trigger'' \<Longrightarrow> mg_Triggers m = f \<Longrightarrow> mig_ok e (m\<lparr>mg_Triggers := f(l \<mapsto> u)\<rparr>)"
    and "u \<in> entity_ids (mg_Db m) ''reminder'' \<Longrightarrow> mg_Reminders m = f \<Longrightarrow> mig_ok e (m\<lparr>mg_Reminders := f(l \<mapsto> u)\<rparr>)"
    and "i \<in> i_ID ` set (instances (places (md_Store (mg_Db m)))) \<Longrightarrow> mg_Instances m = g \<Longrightarrow>
       mig_ok e (m\<lparr>mg_Instances := g(l \<mapsto> i)\<rparr>)"
    and "i \<in> d_ID ` set (destinations (places (md_Store (mg_Db m)))) \<Longrightarrow> mg_Channels m = g \<Longrightarrow>
       mig_ok e (m\<lparr>mg_Channels := g(l \<mapsto> i)\<rparr>)"
    and "mig_ok e (m\<lparr>mg_PlatformUID := q\<rparr>)" and "mig_ok e (m\<lparr>mg_Blobs := b\<rparr>)" and "mig_ok e (m\<lparr>mg_Fallback := fb\<rparr>)"
  using assms ran_upd [of f l u] ran_upd [of g l i]
  by (simp_all add: mig_ok_def maps_ok_def subset_iff) blast+

lemma mapped_id:
  assumes "mig_ok e m" and "mapped entity legacy m = Some v"
  shows "v \<in> entity_ids (mg_Db m) entity"
  using assms by (auto simp: mig_ok_def migration_db_ok_def links_ok_def mapped_def)

lemma map_id:
  assumes "mig_ok e m"
  shows "mg_Users m l = Some u \<Longrightarrow> u \<in> user_ids (mg_Db m)"
    and "mg_Channels m l = Some i \<Longrightarrow> i \<in> d_ID ` set (destinations (places (md_Store (mg_Db m))))"
    and "mg_Instances m l = Some i \<Longrightarrow> i \<in> i_ID ` set (instances (places (md_Store (mg_Db m))))"
    and "mg_Reminders m l = Some u \<Longrightarrow> u \<in> entity_ids (mg_Db m) ''reminder''"
  using assms by (auto simp: mig_ok_def maps_ok_def ran_def)

definition fallback_ok :: "migrator \<Rightarrow> bool" where
  "fallback_ok m \<longleftrightarrow> mg_Fallback m \<in> i_ID ` set (instances (places (md_Store (mg_Db m))))"

lemma instance_statement_keeps:
  assumes "injective_ids e" and "mig_ok e m" and "instance_statement e uid channel k m = Inr m'"
  obtains i n where "mig_ok e n" and "i \<in> i_ID ` set (instances (places (md_Store (mg_Db n))))" and "k i n = Inr m'"
proof -
  let ?n = "me_Serial e (mg_Clock m)"
  obtain i p where up: "upsertInstance ?n uid channel (places (md_Store (mg_Db m))) = (i, p)" by fastforce
  have run: "k i ((tick m)\<lparr>mg_Db := (mg_Db m)\<lparr>md_Store := (md_Store (mg_Db m))\<lparr>places := p\<rparr>\<rparr>\<rparr>) = Inr m'"
    using assms(3) up by (auto simp: instance_statement_def mig Let_def on_places_def on_store_def on_db_def split: if_splits)
  have "mig_ok e (tick m)" using assms(2) by blast
  from mig_ok_instance [OF this, of ?n uid channel i p] reserve(2) [OF assms(1,2)] up
  show thesis by (intro that [OF _ _ run]) auto
qed

lemma instance_step_keeps:
  assumes "injective_ids e" and "mig_ok e m" and "instance_step e guild m = Inr m'"
  shows "mig_ok e m'"
  using assms(3) unfolding instance_step_def
  by (rule instance_statement_keeps [OF assms(1), rotated 1]) (use assms(2) in \<open>auto intro!: mig_ok_maps(5)\<close>)

lemma user_step_keeps:
  assumes "injective_ids e" and "mig_ok e m" and "user_step e row m = Inr m'"
  shows "mig_ok e m'"
proof (cases "mapped ''user'' (va_S (row ! 0)) m")
  case (Some u)
  with mapped_id [OF assms(2)] have "u \<in> user_ids (mg_Db m)" by force
  with assms(2,3) Some show ?thesis
    by (auto simp: user_step_def mig Let_def split: if_splits intro!: mig_ok_maps(1))
next
  case None
  define n where "n = noted_if (\<not> va_Null (row ! 5) \<and> parseBirthday (row ! 5) = None) ''birthday unparseable, set NULL''
    (noted_if (\<not> snd (clearanceFor (atoi64 (row ! 6)))) ''clearance banded down (inexact legacy level)'' (tick (read_row m)))"
  from None assms(3) obtain u where u: "me_Fresh e (mg_Clock m) = Some u"
    and m': "m' = (let k = on_db (\<lambda>d. d\<lparr>md_IdMap := (md_IdMap d)((''user'', va_S (row ! 0)) \<mapsto> u)\<rparr>)
       (tick (on_db (add_user u row) (tick n))) in written_row (k\<lparr>mg_Users := (mg_Users k)(va_S (row ! 0) \<mapsto> u)\<rparr>))"
    by (auto simp: user_step_def mig Let_def n_def split: if_splits option.splits)
  have "mig_ok e n" using assms(2) by (auto simp: n_def)
  moreover have "reserved e u n" using reserve(1) [OF assms(1), of "read_row m" u] assms(2) u by (simp add: n_def)
  ultimately have "mig_ok e (on_db (add_user u row) (tick n))" by (auto intro: mig_ok_add_user)
  moreover have "u \<in> user_ids (add_user u row d)" for d by (simp add: add_user_def Let_def user_ids_def)
  ultimately show ?thesis
    by (auto simp: m' Let_def user_ids_def intro!: mig_ok_maps(1) mig_ok_remember mig_ok_tick)
qed

lemma identity_step_keeps:
  assumes "mig_ok e m" and "identity_step e row m = Inr m'"
  shows "mig_ok e m'"
proof -
  have uid: "mig_ok e (m\<lparr>mg_PlatformUID := q\<rparr>)" if "mig_ok e m" for m q by (rule mig_ok_maps(7) [OF that])
  have "userID \<in> user_ids (mg_Db m)" if "mg_Users m l = Some userID" for l userID by (rule map_id(1) [OF assms(1) that])
  then show ?thesis using assms
    by (auto simp: identity_step_def mig Let_def split: if_splits option.splits
        intro!: mig_ok_remember mig_ok_tick mig_ok_add_identity uid)
qed

lemma fallback_run [simp]:
  "fallback_ok (tick m) = fallback_ok m" "fallback_ok (read_row m) = fallback_ok m"
  "fallback_ok (noted_if b reason m) = fallback_ok m" "fallback_ok (written_row m) = fallback_ok m"
  "fallback_ok (begin_report name m) = fallback_ok m" "fallback_ok (m\<lparr>mg_Channels := g\<rparr>) = fallback_ok m"
  by (simp_all add: fallback_ok_def)

lemma destination_step_keeps:
  assumes "injective_ids e" and "mig_ok e m" and "fallback_ok m" and "destination_step e dm key m = Inr m'"
  shows "mig_ok e m' \<and> fallback_ok m'"
proof -
  define n where "n = noted_if (\<not> dm key \<and> channel_guild e key = None)
    ''channel unresolved, attached to fallback instance'' (noted_if (dm key) ''DM destination (no guild)'' (read_row m))"
  have n: "mig_ok e n" "fallback_ok n" using assms(2,3) by (simp_all add: n_def)
  let ?k = "me_Serial e (mg_Clock n)" and ?i = "destination_instance e (dm key) key n"
  obtain r p where up: "upsert_destination ?k ?i (destination_meta_of key) (places (md_Store (mg_Db n))) = (r, p)" by fastforce
  define m1 where "m1 = (tick n)\<lparr>mg_Db := (mg_Db n)\<lparr>md_Store := (md_Store (mg_Db n))\<lparr>places := p\<rparr>\<rparr>\<rparr>"
  have run: "m' = written_row (m1\<lparr>mg_Channels := (mg_Channels m1)(key \<mapsto> r)\<rparr>)"
    using assms(4) up by (auto simp: destination_step_def upsertDestination_def mig Let_def n_def [symmetric] m1_def
        on_places_def on_store_def on_db_def split: if_splits)
  have i: "?i \<in> i_ID ` set (instances (places (md_Store (mg_Db n))))"
    using n map_id(3) [OF n(1)] by (auto simp: destination_instance_def fallback_ok_def split: option.splits)
  have tick: "mig_ok e (tick n)" using n(1) by blast
  note kept = mig_ok_destination [OF tick, of ?k ?i "destination_meta_of key" r p]
  have "mig_ok e m1" "r \<in> d_ID ` set (destinations p)" "instances p = instances (places (md_Store (mg_Db n)))"
    using kept reserve(2) [OF assms(1) n(1)] i up by (simp_all add: m1_def)
  with n(2) show ?thesis by (auto simp: run m1_def fallback_ok_def tick_def intro!: mig_ok_maps(6))
qed

lemma file_step_keeps:
  assumes "injective_ids e" and "mig_ok e m" and "file_step e name m = Inr m'"
  shows "mig_ok e m'"
proof (cases "mapped ''file'' name m")
  case (Some f)
  with mapped_id [OF assms(2)] have "f \<in> entity_ids (mg_Db m) ''file''" by blast
  with assms(2,3) Some show ?thesis
    by (auto simp: file_step_def Let_def simp del: entity_ids_simps intro!: mig_ok_maps(2))
next
  case None
  show ?thesis
  proof (cases "me_ReadFile e name")
    case missing: None
    with None assms(2,3) show ?thesis by (auto simp: file_step_def Let_def)
  next
    case (Some content)
    let ?hash = "me_Hash e content" and ?m = "tick (tick (read_row m))"
    from None Some assms(3) obtain u where u: "me_Fresh e (mg_Clock m) = Some u"
      by (auto simp: file_step_def mig Let_def split: option.splits if_splits)
    obtain f inserted s where up: "GetOrCreateFileByHash u (me_Now e) ?hash (file_key ?hash) (me_Detect e content)
        (i32 (int (length content))) name (md_Store (mg_Db ?m)) = ((f, inserted), s)" by (metis prod.exhaust)
    define m1 where "m1 = ?m\<lparr>mg_Db := (mg_Db ?m)\<lparr>md_Store := s\<rparr>\<rparr>"
    have reserved: "reserved e u ?m" using reserve(1) [OF assms(1), of "read_row m" u] assms(2) u by (simp add: reserved_tick)
    have m: "mig_ok e ?m" using assms(2) by (intro mig_ok_tick) simp
    have m1: "mig_ok e m1" "f \<in> entity_ids (mg_Db m1) ''file''"
      using mig_ok_file [OF m reserved up] by (simp_all add: m1_def)
    have store: "on_store (snd \<circ> GetOrCreateFileByHash u (me_Now e) ?hash (file_key ?hash) (me_Detect e content)
        (i32 (int (length content))) name) ?m = m1" using up by (simp add: on_store_def on_db_def m1_def)
    define n where "n = (if inserted \<and> \<not> me_DryRun e
      then m1\<lparr>mg_Blobs := (mg_Blobs m1)(file_key ?hash \<mapsto> content)\<rparr> else m1)"
    have n: "mig_ok e n" "f \<in> entity_ids (mg_Db n) ''file''"
      using m1 mig_ok_maps(8) [OF m1(1)] by (auto simp: n_def)
    have "fst (GetOrCreateFileByHash u (me_Now e) ?hash (file_key ?hash) (me_Detect e content)
        (i32 (int (length content))) name (md_Store (mg_Db m))) = (f, inserted)" using up by simp
    with None Some u assms(3) have m': "m' = (let k = on_db (\<lambda>d. d\<lparr>md_IdMap := (md_IdMap d)((''file'', name) \<mapsto> f)\<rparr>)
         (tick (noted_if (\<not> inserted) ''deduped onto an identical existing blob'' n))
       in written_row (k\<lparr>mg_Files := (mg_Files k)(name \<mapsto> f)\<rparr>))"
      by (auto simp: file_step_def mig Let_def store n_def simp del: store_run split: option.splits if_splits)
    from n show ?thesis
      by (auto simp: m' Let_def intro!: mig_ok_maps(2) mig_ok_remember mig_ok_tick)
  qed
qed

lemma insert_trigger_keeps:
  assumes "mig_ok e m" and "reserved e u m" and "userID \<in> user_ids (mg_Db m)"
    and "insert_trigger e u userID instanceID row m = Inr m'"
  shows "mig_ok e m'"
proof -
  let ?p = "trigger_params (mg_Files m) userID instanceID row"
  obtain res s where create: "CreateTrigger (me_Lower e) u (mustTime (row ! 11)) ?p (md_Store (mg_Db (tick m))) = (res, s)"
    by fastforce
  define m1 where "m1 = (tick m)\<lparr>mg_Db := (mg_Db (tick m))\<lparr>md_Store := s\<rparr>\<rparr>"
  have m: "mig_ok e (tick m)" "reserved e u (tick m)" using assms(1,2) by auto
  have "tp_UserID ?p \<in> user_ids (mg_Db (tick m))" using assms(3) by (simp add: trigger_params_def)
  note kept = mig_ok_trigger [OF m this create]
  have m1: "mig_ok e m1" using kept(1) by (simp add: m1_def)
  have store: "on_store (snd \<circ> CreateTrigger (me_Lower e) u (mustTime (row ! 11)) ?p) (tick m) = m1"
    using create by (simp add: on_store_def on_db_def m1_def)
  show ?thesis
  proof (cases res)
    case (Inl err)
    with assms(4) create store m1 show ?thesis
      by (auto simp: insert_trigger_def mig Let_def split: if_splits)
  next
    case (Inr r)
    with kept(2) have "u \<in> t_ID ` set (triggers s)" by blast
    moreover from Inr assms(4) create store have "m' = (let k = on_db (\<lambda>d. d\<lparr>md_IdMap := (md_IdMap d)((''trigger'', va_S (row ! 0)) \<mapsto> u)\<rparr>)
         (tick (tick m1)) in written_row (k\<lparr>mg_Triggers := (mg_Triggers k)(va_S (row ! 0) \<mapsto> u)\<rparr>))"
      by (auto simp: insert_trigger_def mig Let_def split: if_splits)
    ultimately show ?thesis using m1
      by (auto simp: Let_def m1_def intro!: mig_ok_maps(3) mig_ok_remember mig_ok_tick)
  qed
qed

lemma trigger_step_keeps:
  assumes "injective_ids e" and "mig_ok e m" and "trigger_step e row m = Inr m'"
  shows "mig_ok e m'"
proof (cases "mapped ''trigger'' (va_S (row ! 0)) m")
  case (Some t)
  with mapped_id [OF assms(2)] have "t \<in> entity_ids (mg_Db m) ''trigger''" by blast
  with assms(2,3) Some show ?thesis
    by (auto simp: trigger_step_def mig Let_def split: if_splits simp del: entity_ids_simps intro!: mig_ok_maps(3))
next
  case None
  have keep: "mig_ok e m'" if "me_Fresh e (mg_Clock m) = Some u" "mg_Users m (va_S (row ! 4)) = Some userID"
    "insert_trigger e u userID instanceID row (tick (read_row m)) = Inr m'" for u userID instanceID
  proof (rule insert_trigger_keeps [OF _ _ _ that(3)])
    show "mig_ok e (tick (read_row m))" using assms(2) by (intro mig_ok_tick) simp
    show "reserved e u (tick (read_row m))" using reserve(1) [OF assms(1), of "read_row m" u] assms(2) that(1) by simp
    show "userID \<in> user_ids (mg_Db (tick (read_row m)))" using map_id(1) [OF assms(2) that(2)] by simp
  qed
  from None assms(2,3) show ?thesis
    by (auto simp: trigger_step_def wide_def NewV7_def Let_def split: if_splits option.splits intro: keep)
qed

lemma reminder_step_keeps:
  assumes "injective_ids e" and "mig_ok e m" and "reminder_step e row m = Inr m'"
  shows "mig_ok e m'"
proof (cases "mapped ''reminder'' (va_S (row ! 0)) m")
  case (Some t)
  with mapped_id [OF assms(2)] have "t \<in> entity_ids (mg_Db m) ''reminder''" by blast
  with assms(2,3) Some show ?thesis
    by (auto simp: reminder_step_def mig Let_def split: if_splits simp del: entity_ids_simps intro!: mig_ok_maps(4))
next
  case None
  have keep: "mig_ok e (written_row (k\<lparr>mg_Reminders := f(l \<mapsto> u)\<rparr>))"
    if "f = mg_Reminders m" "me_Fresh e (mg_Clock m) = Some u" "mg_Users m ou = Some userID" "mg_Channels m ch = Some i"
      "k = on_db (\<lambda>d. d\<lparr>md_IdMap := (md_IdMap d)((''reminder'', l) \<mapsto> u)\<rparr>)
         (tick (on_places (insert_reminder tz u userID i row) (tick (tick (noted_if b reason (read_row m))))))"
    for u userID i k l ou ch tz b reason f
  proof -
    let ?n = "tick (tick (noted_if b reason (read_row m)))"
    have n: "mig_ok e ?n" using assms(2) by (intro mig_ok_tick) simp
    have "reserved e u ?n"
      using reserve(1) [OF assms(1), of "noted_if b reason (read_row m)" u] assms(2) that(2) by (simp add: reserved_tick)
    with n have "mig_ok e (on_places (insert_reminder tz u userID i row) ?n)"
      using mig_ok_reminder [OF n, of u userID i tz row] map_id(1) [OF assms(2) that(3)] map_id(2) [OF assms(2) that(4)]
      by (simp add: on_places_def on_store_def on_db_def)
    then show ?thesis
      by (auto simp: that(1,5) on_places_def on_store_def insert_reminder_def migrated_reminder_def
          intro!: mig_ok_maps(4) mig_ok_remember mig_ok_tick)
  qed
  from None assms(2,3) show ?thesis
    by (auto simp: reminder_step_def mig Let_def simp del: mig_ok_report(3) split: if_splits option.splits intro: keep)
qed

lemma parent_step_keeps:
  assumes "mig_ok e m" and "parent_step e row m = Inr m'"
  shows "mig_ok e m'"
proof -
  have link: "mig_ok e (on_places (link_parent child parent) (tick m))"
    if "mg_Reminders m l = Some child" "mg_Reminders m l' = Some parent" for child parent l l'
  proof -
    let ?s = "places (md_Store (mg_Db m))"
    let ?p = "link_parent child parent ?s"
    have ok: "migration_db_ok (me_Lower e) (mg_Db m)" using assms(1) by (simp add: mig_ok_def)
    have parent: "parent \<in> r_ID ` set (reminders ?s)" using map_id(4) [OF assms(1) that(2)] by simp
    define g :: "reminder_row \<Rightarrow> reminder_row" where
      "g = (\<lambda>r. if r_ID r = child then r\<lparr>r_ParentID := Some parent\<rparr> else r)"
    have g: "r_ID (g r) = r_ID r" "r_DestinationID (g r) = r_DestinationID r" "r_UserID (g r) = r_UserID r"
      "set_option (r_ParentID (g r)) \<subseteq> insert parent (set_option (r_ParentID r))" for r by (auto simp: g_def)
    have p: "?p = ?s\<lparr>reminders := map g (reminders ?s)\<rparr>" by (simp add: link_parent_def update_where_def g_def)
    have store: "store_ok ?p" unfolding link_parent_def
      by (rule update_where_ok) (use ok in \<open>auto simp: migration_db_ok_def row_ok_def\<close>)
    have linked: "reminder_linked ((mg_Db m)\<lparr>md_Store := (md_Store (mg_Db m))\<lparr>places := ?p\<rparr>\<rparr>) (g r)"
      if "r \<in> set (reminders ?s)" for r
    proof -
      have "reminder_linked (mg_Db m) r" using ok that by (simp add: migration_db_ok_def links_ok_def)
      with parent g(4) [of r] show ?thesis by (auto simp: reminder_linked_def p g(1-3) image_image)
    qed
    have db: "migration_db_ok (me_Lower e) ((mg_Db m)\<lparr>md_Store := (md_Store (mg_Db m))\<lparr>places := ?p\<rparr>\<rparr>)"
      by (rule store_op_ok [OF ok])
        (use ok store linked in \<open>auto simp: migration_db_ok_def places_ok_def p g image_image intro!: places_ids_ok\<close>)
    have tick: "mig_ok e (tick m)" using assms(1) by blast
    have "mig_ok e ((tick m)\<lparr>mg_Db := (mg_Db (tick m))\<lparr>md_Store := (md_Store (mg_Db m))\<lparr>places := ?p\<rparr>\<rparr>\<rparr>)"
      by (rule mig_ok_store [OF tick, where U = "{}" and I = "{}"])
        (use db in \<open>auto simp: p g(1) image_image used_ids_def used_serials_def\<close>)
    then show ?thesis by (simp add: on_places_def on_store_def on_db_def)
  qed
  with assms show ?thesis
    by (auto simp: parent_step_def mig split: if_splits option.splits)
qed

lemma staging_step_keeps: "mig_ok e m \<Longrightarrow> staging_step e spec row m = Inr m' \<Longrightarrow> mig_ok e m'"
  by (auto simp: staging_step_def mig Let_def split: if_splits option.splits intro!: mig_ok_staged mig_ok_tick)

lemma stats_keeps:
  assumes "mig_ok e m" and "stats_loop e recs rows m = Inr (recs', m')"
  shows "mig_ok e m'"
  using assms
proof (induction rows arbitrary: recs m)
  case (Cons row rows)
  then show ?case
    by (auto simp: Let_def mig split: if_splits option.splits
        elim!: Cons.IH [rotated 1] intro!: mig_ok_remember mig_ok_tick)
qed simp

section \<open>Every run keeps the invariant\<close>

lemma each_keeps:
  assumes "each f xs m = Inr m'" and "mig_ok e m" and "\<And>x m m'. mig_ok e m \<Longrightarrow> f x m = Inr m' \<Longrightarrow> mig_ok e m'"
  shows "mig_ok e m'"
  using assms by (induction rule: each_induct) auto

lemma destinations_keep:
  assumes "each (destination_step e dm) keys m = Inr m'" and "injective_ids e" and "mig_ok e m" and "fallback_ok m"
  shows "mig_ok e m'"
proof -
  have "mig_ok e m' \<and> fallback_ok m'"
    by (rule each_induct [where I = "\<lambda>m. mig_ok e m \<and> fallback_ok m", OF assms(1)])
      (simp add: assms(3,4), metis destination_step_keeps [OF assms(2)])
  then show ?thesis by simp
qed

lemma passInstances_keeps:
  assumes "injective_ids e" and "mig_ok e m" and "passInstances e m = Inr m'"
  shows "mig_ok e m' \<and> fallback_ok m'"
proof -
  obtain n where n: "each (instance_step e) (guild_names e) (begin_report ''1 instances'' m) = Inr n"
    "instance_statement e fallbackInstanceUID None (\<lambda>i m. Inr (m\<lparr>mg_Fallback := i\<rparr>)) n = Inr m'"
    using assms(3) by (auto simp: passInstances_def split: if_splits)
  have "mig_ok e n" by (rule each_keeps [OF n(1)]) (use assms(1,2) instance_step_keeps in auto)
  from instance_statement_keeps [OF assms(1) this n(2)] obtain i k where
    "mig_ok e k" "i \<in> i_ID ` set (instances (places (md_Store (mg_Db k))))" "m' = k\<lparr>mg_Fallback := i\<rparr>" by blast
  then show ?thesis by (simp add: fallback_ok_def mig_ok_maps(9))
qed

lemma fallback_kept:
  "passUsers e m = Inr m' \<Longrightarrow> fallback_ok m \<Longrightarrow> fallback_ok m'"
  "passPlatformUsers e m = Inr m' \<Longrightarrow> fallback_ok m \<Longrightarrow> fallback_ok m'"
proof -
  have user: "user_step e row m = Inr m' \<Longrightarrow> fallback_ok m \<Longrightarrow> fallback_ok m'" for row m m'
    by (auto simp: user_step_def mig Let_def fallback_ok_def add_user_def split: if_splits option.splits)
  show "passUsers e m = Inr m' \<Longrightarrow> fallback_ok m \<Longrightarrow> fallback_ok m'"
    unfolding passUsers_def by (erule each_induct [where I = fallback_ok]) (auto intro: user)
  have identity: "identity_step e row m = Inr m' \<Longrightarrow> fallback_ok m \<Longrightarrow> fallback_ok m'" for row m m'
    by (auto simp: identity_step_def mig Let_def fallback_ok_def add_identity_def split: if_splits option.splits)
  show "passPlatformUsers e m = Inr m' \<Longrightarrow> fallback_ok m \<Longrightarrow> fallback_ok m'"
    unfolding passPlatformUsers_def by (erule each_induct [where I = fallback_ok]) (auto intro: identity)
qed

lemma staging_keeps:
  assumes "mig_ok e m" and "passStaging e m = Inr m'"
  shows "mig_ok e m'"
  using assms(2) unfolding passStaging_def
  by (rule each_keeps [OF _ assms(1)])
    (auto simp: staging_pass_def intro: each_keeps [where f = "staging_step e _"] staging_step_keeps)

lemma passes_keep:
  assumes "injective_ids e" and "mig_ok e m" and "run_passes (passes e) m = Inr m'"
  shows "mig_ok e m'"
proof -
  obtain m1 m2 m3 m4 m5 m6 m7 m8 where
    p: "passInstances e m = Inr m1" "passUsers e m1 = Inr m2" "passPlatformUsers e m2 = Inr m3"
      "passDestinations e m3 = Inr m4" "passFiles e m4 = Inr m5" "passTriggers e m5 = Inr m6"
      "passTriggerStats e m6 = Inr m7" "passReminders e m7 = Inr m8" "passStaging e m8 = Inr m'"
    using assms(3) by (auto simp: passes_def)
  have m1: "mig_ok e m1" "fallback_ok m1" using passInstances_keeps [OF assms(1,2) p(1)] by auto
  have m2: "mig_ok e m2"
    by (rule each_keeps [OF p(2) [unfolded passUsers_def]]) (use m1(1) user_step_keeps [OF assms(1)] in auto)
  have m3: "mig_ok e m3"
    by (rule each_keeps [OF p(3) [unfolded passPlatformUsers_def]]) (use m2 identity_step_keeps in auto)
  have fb: "fallback_ok m3" using fallback_kept(2) [OF p(3) fallback_kept(1) [OF p(2) m1(2)]] .
  have m4: "mig_ok e m4"
    using p(4) m3 fb destinations_keep [OF _ assms(1)] by (auto simp: passDestinations_def split: if_splits)
  have "each (file_step e) (file_names e) (begin_report ''5 files'' m4) = Inr m5"
    using p(5) by (simp add: passFiles_def split: if_splits)
  from each_keeps [OF this] m4 file_step_keeps [OF assms(1)] have m5: "mig_ok e m5" by auto
  have m6: "mig_ok e m6"
    by (rule each_keeps [OF p(6) [unfolded passTriggers_def]]) (use m5 trigger_step_keeps [OF assms(1)] in auto)
  have m7: "mig_ok e m7"
  proof -
    obtain recs n where n: "stats_loop e [] (me_Tables e ''triggers'') (begin_report ''7 trigger stats'' m6) = Inr (recs, n)"
      and m7: "m7 = n \<or> (\<exists>f reason. m7 = note_reason reason (on_store (\<lambda>s. s\<lparr>fires := fires s @ f\<rparr>) (tick n)))"
      using p(7) by (auto simp: passTriggerStats_def mig split: if_splits)
    have n': "mig_ok e n" using stats_keeps [OF _ n] m6 by simp
    have "mig_ok e (on_store (\<lambda>s. s\<lparr>fires := fires s @ f\<rparr>) (tick n))" for f
    proof -
      have ok: "migration_db_ok (me_Lower e) (mg_Db n)" using n' by (simp add: mig_ok_def)
      have "mig_ok e ((tick n)\<lparr>mg_Db := (mg_Db (tick n))\<lparr>md_Store := (md_Store (mg_Db n))\<lparr>fires := fires (md_Store (mg_Db n)) @ f\<rparr>\<rparr>\<rparr>)"
        by (rule mig_ok_store [where U = "{}" and I = "{}"])
          (use n' fires_op_ok [OF ok] in \<open>auto simp: used_ids_def used_serials_def\<close>)
      then show ?thesis by (simp add: on_store_def on_db_def)
    qed
    with n' m7 show ?thesis by auto
  qed
  have m8: "mig_ok e m8"
  proof -
    obtain n where n: "each (reminder_step e) (me_Tables e ''reminders'') (begin_report ''8 reminders'' m7) = Inr n"
      "each (parent_step e) (me_Tables e ''reminders'') n = Inr m8"
      using p(8) by (auto simp: passReminders_def)
    have "mig_ok e n" by (rule each_keeps [OF n(1)]) (use m7 reminder_step_keeps [OF assms(1)] in auto)
    then show ?thesis by (rule each_keeps [OF n(2)]) (rule parent_step_keeps)
  qed
  show ?thesis by (rule staging_keeps [OF m8 p(9)])
qed

lemma with_sequence_ok:
  assumes "migration_db_ok lower d" and "next_trigger_ref (md_Store d) \<le> n"
  shows "migration_db_ok lower (with_sequence n d)"
proof -
  have "row_valid r ((md_Store d)\<lparr>next_trigger_ref := n\<rparr>) = row_valid r (md_Store d)" for r by (rule row_valid_same) simp
  then have "trigger_db_ok lower ((md_Store d)\<lparr>next_trigger_ref := n\<rparr>)"
    using assms by (auto simp: migration_db_ok_def trigger_invariants list_all_iff)
  then show ?thesis unfolding with_sequence_def using assms(1)
    by (intro store_op_ok [OF assms(1)]) (simp_all add: migration_db_ok_def)
qed



end
