(* ===== verification/MigrateRerun.thy ===== *)
theory MigrateRerun
  imports MigrateSafety
begin

text \<open>
  Running the migration again changes nothing. For each pass: what a finished pass leaves
  (\<open>settled\<close>), that the later passes do not touch it, and that the same pass over a settled
  database writes nothing and rebuilds the same maps.
\<close>

section \<open>Folds\<close>

lemma each_establishes:
  assumes "each f xs m = Inr m'"
    and "\<And>x n n'. x \<in> set xs \<Longrightarrow> f x n = Inr n' \<Longrightarrow> P x n'"
    and "\<And>x y n n'. x \<in> set xs \<Longrightarrow> y \<in> set xs \<Longrightarrow> P x n \<Longrightarrow> f y n = Inr n' \<Longrightarrow> P x n'"
  shows "\<forall>x \<in> set xs. P x m'"
proof -
  have kept: "P x k \<Longrightarrow> x \<in> set xs \<Longrightarrow> each f ys k = Inr m' \<Longrightarrow> set ys \<subseteq> set xs \<Longrightarrow> P x m'" for x ys k
  proof (induction ys arbitrary: k)
    case (Cons y ys)
    then obtain n where n: "f y k = Inr n" "each f ys n = Inr m'" by auto
    have "P x n" by (rule assms(3) [OF Cons.prems(2) _ Cons.prems(1) n(1)]) (use Cons.prems(4) in simp)
    with Cons.IH n(2) Cons.prems(2,4) show ?case by simp
  qed simp
  have "each f ys k = Inr m' \<Longrightarrow> set ys \<subseteq> set xs \<Longrightarrow> \<forall>x \<in> set ys. P x m'" for ys k
  proof (induction ys arbitrary: k)
    case (Cons y ys)
    then obtain n where n: "f y k = Inr n" "each f ys n = Inr m'" by auto
    from Cons.prems(2) have "y \<in> set xs" by simp
    from kept [OF assms(2) [OF this n(1)] this n(2)] Cons.prems(2) Cons.IH [OF n(2)] show ?case by auto
  qed simp
  with assms(1) show ?thesis by blast
qed

lemma each_frame:
  assumes "each f xs m = Inr m'" and "\<And>x n n'. f x n = Inr n' \<Longrightarrow> E n' = E n"
  shows "E m' = E m"
  using assms by (induction xs arbitrary: m) auto

definition idmap :: "string \<Rightarrow> migrator \<Rightarrow> string \<rightharpoonup> string" where
  "idmap entity m = (\<lambda>l. md_IdMap (mg_Db m) (entity, l))"

text \<open>A run's map of an entity is the id map on the keys its pass has seen.\<close>

definition tracks :: "('a \<Rightarrow> string) \<Rightarrow> string \<Rightarrow> (migrator \<Rightarrow> string \<rightharpoonup> string) \<Rightarrow> ('a \<Rightarrow> migrator \<Rightarrow> mig_result) \<Rightarrow> bool" where
  "tracks key entity X f \<longleftrightarrow> (\<forall>x n n'. f x n = Inr n' \<longrightarrow>
     (\<forall>l. l \<noteq> key x \<longrightarrow> X n' l = X n l \<and> idmap entity n' l = idmap entity n l)
     \<and> (case idmap entity n' (key x) of
          None \<Rightarrow> X n' (key x) = X n (key x) \<and> idmap entity n (key x) = None
        | Some v \<Rightarrow> X n' (key x) = Some v))"

lemma each_tracks:
  assumes "each f xs m = Inr m'" and "tracks key entity X f" and "X m = Map.empty"
  shows "X m' = (\<lambda>l. if l \<in> key ` set xs then idmap entity m' l else None)"
proof -
  have "X m' = (\<lambda>l. if l \<in> K \<union> key ` set ys then idmap entity m' l else None)"
    if "each f ys k = Inr m'" "X k = (\<lambda>l. if l \<in> K then idmap entity k l else None)" for ys K k
    using that
  proof (induction ys arbitrary: k K)
    case (Cons y ys)
    then obtain n where n: "f y k = Inr n" "each f ys n = Inr m'" by auto
    have step: "\<forall>l. l \<noteq> key y \<longrightarrow> X n l = X k l \<and> idmap entity n l = idmap entity k l"
      "case idmap entity n (key y) of None \<Rightarrow> X n (key y) = X k (key y) \<and> idmap entity k (key y) = None
         | Some v \<Rightarrow> X n (key y) = Some v"
      using assms(2) n(1) unfolding tracks_def by blast+
    have "X n l = (if l \<in> insert (key y) K then idmap entity n l else None)" for l
      using step Cons.prems(2) by (cases "l = key y") (auto split: option.splits if_splits)
    then have "X n = (\<lambda>l. if l \<in> insert (key y) K then idmap entity n l else None)" by blast
    from Cons.IH [OF n(2) this] show ?case by simp
  next
    case Nil
    from Nil(1) have "k = m'" by simp
    with Nil(2) show ?case by (simp cong: if_cong)
  qed
  from this [OF assms(1), of "{}"] assms(3) show ?thesis by simp
qed

section \<open>Instances\<close>

definition inst_hit :: "string \<Rightarrow> instance_row \<Rightarrow> bool" where
  "inst_hit uid i \<longleftrightarrow> i_Platform i = discordPlatform \<and> i_Meta i = instance_meta_of uid"

definition m_instances :: "migrator \<Rightarrow> instance_row list" where
  "m_instances m = instances (places (md_Store (mg_Db m)))"

definition inst_id :: "string \<Rightarrow> migrator \<Rightarrow> int option" where
  "inst_id uid m = map_option i_ID (find (inst_hit uid) (m_instances m))"

text \<open>The guild has a row, with the default channel the dump gives it, if it gives one.\<close>

definition inst_settled :: "migration_env \<Rightarrow> string \<Rightarrow> migrator \<Rightarrow> bool" where
  "inst_settled e uid m \<longleftrightarrow> inst_id uid m \<noteq> None
     \<and> (\<forall>i \<in> set (m_instances m). inst_hit uid i \<and> default_channels e uid \<noteq> None \<longrightarrow>
          i_DefaultChannel i = default_channels e uid)"

lemma instance_meta_inj [simp]: "instance_meta_of a = instance_meta_of b \<longleftrightarrow> a = b"
  by (simp add: instance_meta_of_def InstanceMeta_def)

lemma upsertInstance_eq:
  "upsertInstance n uid c s = (case find (inst_hit uid) (instances s) of
       Some i \<Rightarrow> (i_ID i, s\<lparr>instances := map (\<lambda>i. if inst_hit uid i \<and> c \<noteq> None then i\<lparr>i_DefaultChannel := c\<rparr> else i) (instances s)\<rparr>)
     | None \<Rightarrow> (n, s\<lparr>instances := instances s @ [\<lparr>i_ID = n, i_Platform = discordPlatform,
           i_Meta = instance_meta_of uid, i_DefaultChannel = c, i_Deleted = False\<rparr>]\<rparr>))"
proof -
  have hit: "(\<lambda>i. i_Platform i = discordPlatform \<and> i_Meta i = instance_meta_of uid) = inst_hit uid"
    by (simp add: fun_eq_iff inst_hit_def)
  have upd: "(if inst_hit uid i then i\<lparr>i_DefaultChannel := (if c = None then i_DefaultChannel i else c)\<rparr> else i)
      = (if inst_hit uid i \<and> c \<noteq> None then i\<lparr>i_DefaultChannel := c\<rparr> else i)" for i :: instance_row by simp
  show ?thesis unfolding upsertInstance_def Let_def hit upd ..
qed

lemma inst_hit_channel [simp]: "inst_hit uid (i\<lparr>i_DefaultChannel := c\<rparr>) = inst_hit uid i"
  by (simp add: inst_hit_def)

lemma find_hit_map:
  "find (inst_hit uid) (map (\<lambda>i. if P i then i\<lparr>i_DefaultChannel := c\<rparr> else i) is)
     = map_option (\<lambda>i. if P i then i\<lparr>i_DefaultChannel := c\<rparr> else i) (find (inst_hit uid) is)"
  by (subst find_map) (rule arg_cong [where f = "map_option _"], rule arg_cong [where f = "\<lambda>p. find p is"], auto)

lemma instance_statement_run:
  assumes "instance_statement e uid c k m = Inr m'"
  obtains n where "m_instances n = instances (snd (upsertInstance (me_Serial e (mg_Clock m)) uid c (places (md_Store (mg_Db m)))))"
    and "mg_Instances n = mg_Instances m" and "inst_id uid n \<noteq> None" and "k (the (inst_id uid n)) n = Inr m'"
    and "inst_id uid m \<noteq> None \<Longrightarrow> c = None \<or> (\<forall>i \<in> set (m_instances m). inst_hit uid i \<longrightarrow> i_DefaultChannel i = c) \<Longrightarrow>
      mg_Db n = mg_Db m"
proof -
  let ?up = "upsertInstance (me_Serial e (mg_Clock m)) uid c (places (md_Store (mg_Db m)))"
  let ?n = "on_places (snd \<circ> upsertInstance (me_Serial e (mg_Clock m)) uid c) (tick m)"
  have run: "k (fst ?up) ?n = Inr m'" using assms by (auto simp: instance_statement_def mig Let_def tick_def split: if_splits)
  have inst: "m_instances ?n = instances (snd ?up)"
    by (simp add: m_instances_def on_places_def on_store_def on_db_def tick_def)
  have id: "inst_id uid ?n = Some (fst ?up)"
    unfolding inst_id_def inst
    by (auto simp: upsertInstance_eq find_hit_map find_append inst_hit_def split: option.splits)
  have idle: "mg_Db ?n = mg_Db m" if "inst_id uid m \<noteq> None"
    "c = None \<or> (\<forall>i \<in> set (m_instances m). inst_hit uid i \<longrightarrow> i_DefaultChannel i = c)"
  proof -
    have "map (\<lambda>i. if inst_hit uid i \<and> c \<noteq> None then i\<lparr>i_DefaultChannel := c\<rparr> else i) (m_instances m) = m_instances m"
      using that(2) by (auto intro!: map_idI)
    with that(1) show ?thesis
      by (auto simp: on_places_def on_store_def on_db_def tick_def inst_id_def m_instances_def upsertInstance_eq
          split: option.splits)
  qed
  show thesis
    by (rule that [OF inst _ _ _ idle]) (use run id in \<open>auto simp: on_places_def on_store_def on_db_def tick_def\<close>)
qed

text \<open>What an upsert does to a settled guild, and that it settles its own.\<close>

lemma settled_upsert:
  assumes n: "m_instances n = instances (snd (upsertInstance k uid' c (places (md_Store (mg_Db m)))))"
    and c: "c = None \<or> c = default_channels e uid'"
  shows "inst_settled e uid m \<Longrightarrow> inst_settled e uid n \<and> inst_id uid n = inst_id uid m"
    and "c = default_channels e uid' \<Longrightarrow> inst_settled e uid' n"
proof -
  let ?is = "m_instances m"
  have n': "m_instances n = (case find (inst_hit uid') ?is of
      Some i \<Rightarrow> map (\<lambda>i. if inst_hit uid' i \<and> c \<noteq> None then i\<lparr>i_DefaultChannel := c\<rparr> else i) ?is
    | None \<Rightarrow> ?is @ [\<lparr>i_ID = k, i_Platform = discordPlatform, i_Meta = instance_meta_of uid', i_DefaultChannel = c,
        i_Deleted = False\<rparr>])"
    unfolding n by (auto simp: upsertInstance_eq m_instances_def split: option.splits)
  have same: "inst_hit uid i \<Longrightarrow> inst_hit uid' i \<Longrightarrow> uid = uid'" for i :: instance_row
    by (simp add: inst_hit_def)
  show "inst_settled e uid n \<and> inst_id uid n = inst_id uid m" if "inst_settled e uid m"
  proof (cases "find (inst_hit uid') ?is")
    case (Some i)
    with n' have rows: "m_instances n = map (\<lambda>i. if inst_hit uid' i \<and> c \<noteq> None then i\<lparr>i_DefaultChannel := c\<rparr> else i) ?is"
      by simp
    have id: "inst_id uid n = inst_id uid m"
      unfolding inst_id_def rows find_hit_map by (cases "find (inst_hit uid) ?is") auto
    have "i_DefaultChannel j = default_channels e uid"
      if j: "j \<in> set (m_instances n)" "inst_hit uid j" "default_channels e uid \<noteq> None" for j
    proof -
      from j(1) obtain i where i: "i \<in> set ?is" "j = (if inst_hit uid' i \<and> c \<noteq> None then i\<lparr>i_DefaultChannel := c\<rparr> else i)"
        unfolding rows by auto
      with j(2) have "inst_hit uid i" by (auto split: if_splits)
      with i same [of i] c j(3) \<open>inst_settled e uid m\<close> show ?thesis by (auto simp: inst_settled_def split: if_splits)
    qed
    with id that show ?thesis by (simp add: inst_settled_def)
  next
    case None
    then have new: "m_instances n = ?is @ [\<lparr>i_ID = k, i_Platform = discordPlatform, i_Meta = instance_meta_of uid',
        i_DefaultChannel = c, i_Deleted = False\<rparr>]" using n' by simp
    from that None have ne: "uid \<noteq> uid'" by (auto simp: inst_settled_def inst_id_def)
    then have "\<not> inst_hit uid \<lparr>i_ID = k, i_Platform = discordPlatform, i_Meta = instance_meta_of uid',
        i_DefaultChannel = c, i_Deleted = False\<rparr>" by (auto simp: inst_hit_def)
    with that show ?thesis unfolding inst_settled_def inst_id_def new by (auto simp: find_append split: option.splits)
  qed
  show "inst_settled e uid' n" if c': "c = default_channels e uid'"
  proof (cases "find (inst_hit uid') ?is")
    case (Some i)
    with n' have rows: "m_instances n = map (\<lambda>i. if inst_hit uid' i \<and> c \<noteq> None then i\<lparr>i_DefaultChannel := c\<rparr> else i) ?is"
      by simp
    with Some c' show ?thesis unfolding inst_settled_def inst_id_def rows find_hit_map by auto
  next
    case None
    then have "\<not> inst_hit uid' i" if "i \<in> set ?is" for i using that by (simp add: find_None_iff)
    with None n' c' show ?thesis unfolding inst_settled_def inst_id_def by (auto simp: find_append inst_hit_def)
  qed
qed

lemma settled_written [simp]:
  "inst_settled e uid (written_row m) = inst_settled e uid m" "inst_id uid (written_row m) = inst_id uid m"
  "inst_settled e uid (m\<lparr>mg_Instances := f\<rparr>) = inst_settled e uid m" "inst_id uid (m\<lparr>mg_Instances := f\<rparr>) = inst_id uid m"
  "inst_settled e uid (m\<lparr>mg_Fallback := i\<rparr>) = inst_settled e uid m" "inst_id uid (m\<lparr>mg_Fallback := i\<rparr>) = inst_id uid m"
  "inst_settled e uid (read_row m) = inst_settled e uid m" "inst_id uid (read_row m) = inst_id uid m"
  "inst_settled e uid (begin_report name m) = inst_settled e uid m"
  by (simp_all add: inst_settled_def inst_id_def m_instances_def)

lemma instance_step_settles:
  assumes "instance_step e g n = Inr n'"
  shows "inst_settled e g n' \<and> mg_Instances n' g = inst_id g n'"
    and "inst_settled e uid n \<Longrightarrow> inst_settled e uid n' \<and> inst_id uid n' = inst_id uid n"
    and "uid \<noteq> g \<Longrightarrow> mg_Instances n' uid = mg_Instances n uid"
    and "inst_settled e g n \<Longrightarrow> mg_Db n' = mg_Db n"
proof -
  from assms obtain k where k: "m_instances k = instances (snd (upsertInstance (me_Serial e (mg_Clock (read_row n))) g
        (default_channels e g) (places (md_Store (mg_Db (read_row n))))))"
    "mg_Instances k = mg_Instances (read_row n)" "inst_id g k \<noteq> None"
    "n' = written_row (k\<lparr>mg_Instances := (mg_Instances k)(g \<mapsto> the (inst_id g k))\<rparr>)"
    and idle: "inst_id g (read_row n) \<noteq> None \<Longrightarrow> default_channels e g = None
       \<or> (\<forall>i \<in> set (m_instances (read_row n)). inst_hit g i \<longrightarrow> i_DefaultChannel i = default_channels e g) \<Longrightarrow>
       mg_Db k = mg_Db (read_row n)"
    unfolding instance_step_def by (rule instance_statement_run) auto
  note upsert = settled_upsert [OF k(1), of e]
  show "inst_settled e g n' \<and> mg_Instances n' g = inst_id g n'" using upsert(2) k(3,4) by auto
  show "inst_settled e uid n \<Longrightarrow> inst_settled e uid n' \<and> inst_id uid n' = inst_id uid n"
    using upsert(1) [of uid] k(4) by simp
  show "uid \<noteq> g \<Longrightarrow> mg_Instances n' uid = mg_Instances n uid" using k(2,4) by simp
  show "inst_settled e g n \<Longrightarrow> mg_Db n' = mg_Db n"
    using idle k(4) by (cases "default_channels e g") (auto simp: inst_settled_def m_instances_def inst_id_def)
qed

definition instances_done :: "migration_env \<Rightarrow> migrator \<Rightarrow> bool" where
  "instances_done e m \<longleftrightarrow> (\<forall>g \<in> set (guild_names e). inst_settled e g m) \<and> inst_id fallbackInstanceUID m \<noteq> None
     \<and> mg_Instances m = (\<lambda>g. if g \<in> set (guild_names e) then inst_id g m else None)
     \<and> mg_Fallback m = the (inst_id fallbackInstanceUID m)"

lemma each_instances:
  assumes "each (instance_step e) gs m = Inr m'" and "mg_Instances m = Map.empty"
  shows "(\<forall>g \<in> set gs. inst_settled e g m') \<and> mg_Instances m' = (\<lambda>g. if g \<in> set gs then inst_id g m' else None)"
proof -
  have "\<forall>g \<in> set gs. inst_settled e g m' \<and> mg_Instances m' g = inst_id g m'"
  proof (rule each_establishes [OF assms(1)])
    fix g n n' assume "instance_step e g n = Inr n'"
    then show "inst_settled e g n' \<and> mg_Instances n' g = inst_id g n'" by (rule instance_step_settles(1))
  next
    fix g h n n'
    assume "inst_settled e g n \<and> mg_Instances n g = inst_id g n" and h: "instance_step e h n = Inr n'"
    with instance_step_settles [OF h] show "inst_settled e g n' \<and> mg_Instances n' g = inst_id g n'"
      by (cases "g = h") auto
  qed
  moreover have "mg_Instances m' g = None" if "g \<notin> set gs" for g
    using assms(1)
  proof (rule each_induct [where I = "\<lambda>m. mg_Instances m g = None"])
    fix x n n' assume "x \<in> set gs" "mg_Instances n g = None" "instance_step e x n = Inr n'"
    moreover from this that have "g \<noteq> x" by blast
    ultimately show "mg_Instances n' g = None" using instance_step_settles(3) by simp
  qed (simp add: assms(2))
  ultimately show ?thesis by auto
qed

lemma passInstances_done:
  assumes "passInstances e m = Inr m'" and "mg_Instances m = Map.empty"
  shows "instances_done e m'"
proof -
  from assms(1) obtain n where n: "each (instance_step e) (guild_names e) (begin_report ''1 instances'' m) = Inr n"
    "instance_statement e fallbackInstanceUID None (\<lambda>i m. Inr (m\<lparr>mg_Fallback := i\<rparr>)) n = Inr m'"
    by (auto simp: passInstances_def split: if_splits)
  from n(2) obtain k where k: "m_instances k = instances (snd (upsertInstance (me_Serial e (mg_Clock n)) fallbackInstanceUID
        None (places (md_Store (mg_Db n)))))" "mg_Instances k = mg_Instances n" "inst_id fallbackInstanceUID k \<noteq> None"
    "m' = k\<lparr>mg_Fallback := the (inst_id fallbackInstanceUID k)\<rparr>"
    by (rule instance_statement_run) auto
  have pass: "(\<forall>g \<in> set (guild_names e). inst_settled e g n)
      \<and> mg_Instances n = (\<lambda>g. if g \<in> set (guild_names e) then inst_id g n else None)"
    using each_instances [OF n(1)] assms(2) by simp
  from settled_upsert(1) [OF k(1), of e] have kept: "inst_settled e g n \<Longrightarrow> inst_settled e g k \<and> inst_id g k = inst_id g n" for g
    by simp
  with pass k(2) have "mg_Instances k = (\<lambda>g. if g \<in> set (guild_names e) then inst_id g k else None)" by auto
  with pass k kept show ?thesis by (auto simp: instances_done_def)
qed

lemma passInstances_idle:
  assumes "passInstances e m = Inr m'" and "\<forall>g \<in> set (guild_names e). inst_settled e g m"
    and "inst_id fallbackInstanceUID m \<noteq> None"
  shows "mg_Db m' = mg_Db m"
proof -
  from assms(1) obtain n where n: "each (instance_step e) (guild_names e) (begin_report ''1 instances'' m) = Inr n"
    "instance_statement e fallbackInstanceUID None (\<lambda>i m. Inr (m\<lparr>mg_Fallback := i\<rparr>)) n = Inr m'"
    by (auto simp: passInstances_def split: if_splits)
  have db: "mg_Db n = mg_Db m"
    by (rule each_induct [where I = "\<lambda>n. mg_Db n = mg_Db m", OF n(1)])
      (use assms(2) instance_step_settles(4) in \<open>auto simp: inst_settled_def inst_id_def m_instances_def\<close>)
  from n(2) obtain k where "m' = k\<lparr>mg_Fallback := the (inst_id fallbackInstanceUID k)\<rparr>"
    and "inst_id fallbackInstanceUID n \<noteq> None \<Longrightarrow> mg_Db k = mg_Db n"
    by (rule instance_statement_run) auto
  with assms(3) db show ?thesis by (simp add: inst_id_def m_instances_def)
qed

section \<open>What each pass leaves to the later ones\<close>

definition m_destinations :: "migrator \<Rightarrow> destination_row list" where
  "m_destinations m = destinations (places (md_Store (mg_Db m)))"

definition m_reminders :: "migrator \<Rightarrow> reminder_row list" where
  "m_reminders m = reminders (places (md_Store (mg_Db m)))"

definition before2 where "before2 m = (mg_Instances m, mg_Fallback m, m_instances m)"
definition before3 where "before3 m = (before2 m, mg_Users m, idmap ''user'' m)"
definition before4 where "before4 m = (before3 m, mg_PlatformUID m, idmap ''platform_user'' m)"
definition before5 where "before5 m = (before4 m, mg_Channels m, m_destinations m)"
definition before6 where "before6 m = (before5 m, mg_Files m, idmap ''file'' m, files (md_Store (mg_Db m)))"
definition before7 where "before7 m = (before6 m, mg_Triggers m, idmap ''trigger'' m, triggers (md_Store (mg_Db m)))"
definition before8 where "before8 m = (before7 m, idmap ''trigger_stats'' m)"
definition before9 where "before9 m = (before8 m, mg_Reminders m, idmap ''reminder'' m, m_reminders m)"

lemmas before_defs = before2_def before3_def before4_def before5_def before6_def before7_def before8_def before9_def

lemma rows_simps [simp]:
  "instances (snd (upsert_destination k i mt p)) = instances p" "reminders (snd (upsert_destination k i mt p)) = reminders p"
  "instances (insert_reminder tz u userID di row p) = instances p"
  "destinations (insert_reminder tz u userID di row p) = destinations p"
  "instances (link_parent c q p) = instances p" "destinations (link_parent c q p) = destinations p"
  "places (snd (GetOrCreateFileByHash u now hash path mime n name s)) = places s"
  "triggers (snd (GetOrCreateFileByHash u now hash path mime n name s)) = triggers s"
  "places (snd (CreateTrigger lower u now tp s)) = places s" "files (snd (CreateTrigger lower u now tp s)) = files s"
  "md_Store (add_user u row d) = md_Store d" "md_IdMap (add_user u row d) = md_IdMap d"
  "md_Store (add_identity u uid d) = md_Store d" "md_IdMap (add_identity u uid d) = md_IdMap d"
  by (auto simp: upsert_destination_def insert_reminder_def link_parent_def update_where_def GetOrCreateFileByHash_def
      CreateTrigger_def add_user_def add_identity_def Let_def split: option.splits)

lemma db_simps [simp]:
  "m_instances (tick m) = m_instances m" "m_instances (read_row m) = m_instances m"
  "m_instances (written_row m) = m_instances m" "m_instances (skip_row reason m) = m_instances m"
  "m_instances (noted_if b reason m) = m_instances m" "m_instances (note_reason reason m) = m_instances m"
  "m_instances (begin_report reason m) = m_instances m"
  "m_destinations (tick m) = m_destinations m" "m_destinations (read_row m) = m_destinations m"
  "m_destinations (written_row m) = m_destinations m" "m_destinations (skip_row reason m) = m_destinations m"
  "m_destinations (noted_if b reason m) = m_destinations m" "m_destinations (note_reason reason m) = m_destinations m"
  "m_destinations (begin_report reason m) = m_destinations m"
  "m_reminders (tick m) = m_reminders m" "m_reminders (read_row m) = m_reminders m"
  "m_reminders (written_row m) = m_reminders m" "m_reminders (skip_row reason m) = m_reminders m"
  "m_reminders (noted_if b reason m) = m_reminders m" "m_reminders (note_reason reason m) = m_reminders m"
  "m_reminders (begin_report reason m) = m_reminders m"
  "idmap ent (tick m) = idmap ent m" "idmap ent (read_row m) = idmap ent m" "idmap ent (written_row m) = idmap ent m"
  "idmap ent (skip_row reason m) = idmap ent m" "idmap ent (noted_if b reason m) = idmap ent m"
  "idmap ent (note_reason reason m) = idmap ent m" "idmap ent (begin_report reason m) = idmap ent m"
  by (simp_all add: m_instances_def m_destinations_def m_reminders_def idmap_def)

lemma reports_frame [simp]:
  "before2 (begin_report name m) = before2 m" "before3 (begin_report name m) = before3 m"
  "before4 (begin_report name m) = before4 m" "before5 (begin_report name m) = before5 m"
  "before6 (begin_report name m) = before6 m" "before7 (begin_report name m) = before7 m"
  "before8 (begin_report name m) = before8 m" "before9 (begin_report name m) = before9 m"
  by (simp_all add: before_defs)

named_theorems views \<open>the parts of a state the frames mention\<close>
declare before_defs [views] m_instances_def [views] m_destinations_def [views] m_reminders_def [views]
  idmap_def [views] on_places_def [views] on_store_def [views]

lemma user_frame: "user_step e row m = Inr m' \<Longrightarrow> before2 m' = before2 m"
  by (auto simp: user_step_def mig Let_def views split: if_splits option.splits)

lemma identity_frame: "identity_step e row m = Inr m' \<Longrightarrow> before3 m' = before3 m"
  by (auto simp: identity_step_def mig Let_def views split: if_splits option.splits)

lemma destination_frame: "destination_step e dm key m = Inr m' \<Longrightarrow> before4 m' = before4 m"
  by (auto simp: destination_step_def upsertDestination_def mig Let_def views split: if_splits)

lemma file_frame: "file_step e name m = Inr m' \<Longrightarrow> before5 m' = before5 m"
  by (auto simp: file_step_def mig Let_def views split: if_splits option.splits prod.splits)

lemma trigger_frame: "trigger_step e row m = Inr m' \<Longrightarrow> before6 m' = before6 m"
  by (auto simp: trigger_step_def insert_trigger_def mig Let_def views split: if_splits option.splits sum.splits)

lemma stats_frame: "stats_loop e recs rows m = Inr (recs', m') \<Longrightarrow> before7 m' = before7 m"
proof (induction rows arbitrary: recs m)
  case (Cons row rows)
  have "before7 (on_db (\<lambda>d. d\<lparr>md_IdMap := (md_IdMap d)((''trigger_stats'', l) \<mapsto> t)\<rparr>) n) = before7 n" for l t n
    by (simp add: views)
  moreover have "before7 (read_row n) = before7 n" "before7 (skip_row reason n) = before7 n" "before7 (written_row n) = before7 n"
    "before7 (tick n) = before7 n" for n reason by (simp_all add: before_defs)
  ultimately show ?case using Cons.prems by (auto simp: Let_def mig split: if_splits option.splits dest!: Cons.IH)
qed simp

lemma reminder_frame: "reminder_step e row m = Inr m' \<Longrightarrow> before8 m' = before8 m"
  by (auto simp: reminder_step_def mig Let_def views split: if_splits option.splits)

lemma parent_frame: "parent_step e row m = Inr m' \<Longrightarrow> before8 m' = before8 m"
  by (auto simp: parent_step_def mig Let_def views split: if_splits option.splits)

lemma staging_frame: "staging_step e spec row m = Inr m' \<Longrightarrow> before9 m' = before9 m"
  by (auto simp: staging_step_def mig Let_def views split: if_splits option.splits)

lemma pass_frames:
  "passUsers e m = Inr m' \<Longrightarrow> before2 m' = before2 m"
  "passPlatformUsers e m = Inr m' \<Longrightarrow> before3 m' = before3 m"
  "passDestinations e m = Inr m' \<Longrightarrow> before4 m' = before4 m"
  "passFiles e m = Inr m' \<Longrightarrow> before5 m' = before5 m"
  "passTriggers e m = Inr m' \<Longrightarrow> before6 m' = before6 m"
  "passTriggerStats e m = Inr m' \<Longrightarrow> before7 m' = before7 m"
  "passReminders e m = Inr m' \<Longrightarrow> before8 m' = before8 m"
  "passStaging e m = Inr m' \<Longrightarrow> before9 m' = before9 m"
proof -
  show "passUsers e m = Inr m' \<Longrightarrow> before2 m' = before2 m"
    unfolding passUsers_def by (drule each_frame [where E = before2, OF _ user_frame]) simp_all
  show "passPlatformUsers e m = Inr m' \<Longrightarrow> before3 m' = before3 m"
    unfolding passPlatformUsers_def by (drule each_frame [where E = before3, OF _ identity_frame]) simp_all
  show "passDestinations e m = Inr m' \<Longrightarrow> before4 m' = before4 m"
    by (auto simp: passDestinations_def split: if_splits dest!: each_frame [where E = before4, OF _ destination_frame])
  show "passFiles e m = Inr m' \<Longrightarrow> before5 m' = before5 m"
    by (auto simp: passFiles_def split: if_splits dest!: each_frame [where E = before5, OF _ file_frame])
  show "passTriggers e m = Inr m' \<Longrightarrow> before6 m' = before6 m"
    unfolding passTriggers_def by (drule each_frame [where E = before6, OF _ trigger_frame]) simp_all
  have fires: "before7 (on_store (\<lambda>s. s\<lparr>fires := f s\<rparr>) (tick n)) = before7 n" "before7 (note_reason reason n) = before7 n"
    for f n reason by (simp_all add: views)
  show "passTriggerStats e m = Inr m' \<Longrightarrow> before7 m' = before7 m"
    by (auto simp: passTriggerStats_def mig fires split: if_splits dest!: stats_frame)
  show "before8 m' = before8 m" if run: "passReminders e m = Inr m'"
  proof -
    from run obtain n where n: "each (reminder_step e) (me_Tables e ''reminders'') (begin_report ''8 reminders'' m) = Inr n"
      "each (parent_step e) (me_Tables e ''reminders'') n = Inr m'" by (auto simp: passReminders_def)
    have "before8 n = before8 (begin_report ''8 reminders'' m)"
      by (rule each_frame [where E = before8, OF n(1)]) (rule reminder_frame)
    moreover have "before8 m' = before8 n" by (rule each_frame [where E = before8, OF n(2)]) (rule parent_frame)
    ultimately show ?thesis by simp
  qed
  have "staging_pass e spec m = Inr m' \<Longrightarrow> before9 m' = before9 m" for spec m m'
    unfolding staging_pass_def by (drule each_frame [where E = before9, OF _ staging_frame]) simp_all
  then show "passStaging e m = Inr m' \<Longrightarrow> before9 m' = before9 m"
    using each_frame [where f = "staging_pass e" and E = before9] by (simp add: passStaging_def)
qed

section \<open>Users and identities\<close>

definition legacy_id :: "dump_value list \<Rightarrow> string" where
  "legacy_id row = va_S (row ! 0)"

definition tracked :: "string \<Rightarrow> string set \<Rightarrow> migrator \<Rightarrow> string \<rightharpoonup> string" where
  "tracked entity keys m = (\<lambda>l. if l \<in> keys then idmap entity m l else None)"

definition row_keys :: "migration_env \<Rightarrow> string \<Rightarrow> string set" where
  "row_keys e table = legacy_id ` set (me_Tables e table)"

definition users_done :: "migration_env \<Rightarrow> migrator \<Rightarrow> bool" where
  "users_done e m \<longleftrightarrow> mg_Users m = tracked ''user'' (row_keys e ''users'') m
     \<and> (\<forall>row \<in> set (me_Tables e ''users''). idmap ''user'' m (legacy_id row) \<noteq> None)"

lemma user_tracks: "tracks legacy_id ''user'' mg_Users (user_step e)"
  by (auto simp: tracks_def user_step_def legacy_id_def mig Let_def views mapped_def split: if_splits option.splits)

lemma user_settles: "user_step e row m = Inr m' \<Longrightarrow> idmap ''user'' m' (legacy_id row) \<noteq> None
    \<and> (idmap ''user'' m l \<noteq> None \<longrightarrow> idmap ''user'' m' l \<noteq> None)"
  by (auto simp: user_step_def legacy_id_def mig Let_def views mapped_def split: if_splits option.splits)

lemma user_idle: "user_step e row m = Inr m' \<Longrightarrow> idmap ''user'' m (legacy_id row) \<noteq> None \<Longrightarrow> mg_Db m' = mg_Db m"
  by (auto simp: user_step_def legacy_id_def mig Let_def idmap_def mapped_def split: if_splits)

lemma passUsers_done:
  assumes "passUsers e m = Inr m'" and "mg_Users m = Map.empty"
  shows "users_done e m'"
proof -
  have "\<forall>row \<in> set (me_Tables e ''users''). idmap ''user'' m' (legacy_id row) \<noteq> None"
    using assms(1) unfolding passUsers_def
    by (rule each_establishes) (use user_settles in blast)+
  with each_tracks [OF assms(1) [unfolded passUsers_def] user_tracks] assms(2) show ?thesis
    by (simp add: users_done_def tracked_def row_keys_def)
qed

lemma each_idle:
  assumes "each f xs m = Inr m'" and "\<And>x n n'. x \<in> set xs \<Longrightarrow> Q n \<Longrightarrow> f x n = Inr n' \<Longrightarrow> Q n'" and "Q m"
  shows "Q m'"
  by (rule each_induct [OF assms(1), where I = Q]) (use assms(2,3) in auto)

lemma passUsers_idle:
  assumes "passUsers e m = Inr m'" and "\<forall>row \<in> set (me_Tables e ''users''). idmap ''user'' m (legacy_id row) \<noteq> None"
  shows "mg_Db m' = mg_Db m"
proof (rule each_idle [OF assms(1) [unfolded passUsers_def], where Q = "\<lambda>n. mg_Db n = mg_Db m"])
  fix row n n' assume "row \<in> set (me_Tables e ''users'')" "mg_Db n = mg_Db m" "user_step e row n = Inr n'"
  with user_idle [of e row n n'] assms(2) show "mg_Db n' = mg_Db m" by (auto simp: idmap_def)
qed simp

text \<open>The identities of the rows whose user is known.\<close>

definition identity_row :: "(string \<rightharpoonup> string) \<Rightarrow> dump_value list \<Rightarrow> bool" where
  "identity_row user_map row \<longleftrightarrow> va_S (row ! 1) = ''discord'' \<and> user_map (va_S (row ! 3)) \<noteq> None"

definition add_uid :: "(string \<rightharpoonup> string) \<Rightarrow> (string \<rightharpoonup> string) \<Rightarrow> dump_value list \<Rightarrow> string \<rightharpoonup> string" where
  "add_uid user_map p row = (if identity_row user_map row then p(va_S (row ! 3) \<mapsto> va_S (row ! 2)) else p)"

definition identities_done :: "migration_env \<Rightarrow> migrator \<Rightarrow> bool" where
  "identities_done e m \<longleftrightarrow> mg_PlatformUID m = foldl (add_uid (mg_Users m)) Map.empty (me_Tables e ''authorizations'')
     \<and> (\<forall>row \<in> set (me_Tables e ''authorizations''). identity_row (mg_Users m) row \<longrightarrow>
          idmap ''platform_user'' m (legacy_id row) \<noteq> None)"

lemma identity_step_run:
  assumes "identity_step e row m = Inr m'"
  shows "mg_PlatformUID m' = add_uid (mg_Users m) (mg_PlatformUID m) row" and "mg_Users m' = mg_Users m"
    and "identity_row (mg_Users m) row \<longrightarrow> idmap ''platform_user'' m' (legacy_id row) \<noteq> None"
    and "idmap ''platform_user'' m l \<noteq> None \<longrightarrow> idmap ''platform_user'' m' l \<noteq> None"
    and "identity_row (mg_Users m) row \<longrightarrow> idmap ''platform_user'' m (legacy_id row) \<noteq> None \<Longrightarrow> mg_Db m' = mg_Db m"
  using assms
  by (auto simp: identity_step_def add_uid_def identity_row_def legacy_id_def mig Let_def views mapped_def
      split: if_splits option.splits)

lemma passPlatformUsers_done:
  assumes "passPlatformUsers e m = Inr m'" and "mg_PlatformUID m = Map.empty"
  shows "identities_done e m'"
proof -
  let ?rows = "me_Tables e ''authorizations''"
  note run = assms(1) [unfolded passPlatformUsers_def]
  have users: "mg_Users m' = mg_Users m"
    using each_frame [where E = mg_Users, OF run identity_step_run(2)] by simp
  have "each (identity_step e) rows k = Inr m' \<Longrightarrow> mg_Users k = mg_Users m \<Longrightarrow>
      mg_PlatformUID m' = foldl (add_uid (mg_Users m)) (mg_PlatformUID k) rows" for rows k
  proof (induction rows arbitrary: k)
    case (Cons row rows)
    then obtain n where n: "identity_step e row k = Inr n" "each (identity_step e) rows n = Inr m'" by auto
    with Cons.IH [OF n(2)] identity_step_run(1,2) [OF n(1)] Cons.prems(2) show ?case by simp
  qed simp
  from this [OF run] have uids: "mg_PlatformUID m' = foldl (add_uid (mg_Users m')) Map.empty ?rows"
    using assms(2) users by simp
  have "each (identity_step e) rows k = Inr m' \<Longrightarrow> mg_Users k = mg_Users m' \<Longrightarrow>
      (\<forall>l. idmap ''platform_user'' k l \<noteq> None \<longrightarrow> idmap ''platform_user'' m' l \<noteq> None)
      \<and> (\<forall>row \<in> set rows. identity_row (mg_Users m') row \<longrightarrow> idmap ''platform_user'' m' (legacy_id row) \<noteq> None)" for rows k
  proof (induction rows arbitrary: k)
    case (Cons row rows)
    then obtain n where n: "identity_step e row k = Inr n" "each (identity_step e) rows n = Inr m'" by auto
    with Cons.IH [OF n(2)] identity_step_run(2-4) [OF n(1)] Cons.prems(2) show ?case by auto
  qed simp
  from this [OF run] users have "\<forall>row \<in> set ?rows. identity_row (mg_Users m') row \<longrightarrow> idmap ''platform_user'' m' (legacy_id row) \<noteq> None"
    by simp
  with uids show ?thesis by (simp add: identities_done_def)
qed

lemma passPlatformUsers_idle:
  assumes "passPlatformUsers e m = Inr m'"
    and "\<forall>row \<in> set (me_Tables e ''authorizations''). identity_row (mg_Users m) row \<longrightarrow>
       idmap ''platform_user'' m (legacy_id row) \<noteq> None"
  shows "mg_Db m' = mg_Db m"
proof -
  have "mg_Db m' = mg_Db m \<and> mg_Users m' = mg_Users m"
  proof (rule each_idle [OF assms(1) [unfolded passPlatformUsers_def],
        where Q = "\<lambda>n. mg_Db n = mg_Db m \<and> mg_Users n = mg_Users m"])
    fix row n n' assume row: "row \<in> set (me_Tables e ''authorizations'')" "mg_Db n = mg_Db m \<and> mg_Users n = mg_Users m"
      "identity_step e row n = Inr n'"
    with identity_step_run(2,5) [OF row(3)] assms(2) show "mg_Db n' = mg_Db m \<and> mg_Users n' = mg_Users m"
      by (auto simp: idmap_def)
  qed simp
  then show ?thesis by simp
qed

section \<open>Destinations and files\<close>

definition dest_row :: "migration_env \<Rightarrow> (string \<Rightarrow> bool) \<Rightarrow> string \<Rightarrow> migrator \<Rightarrow> destination_row option" where
  "dest_row e dm key m = find (\<lambda>d. d_InstanceID d = destination_instance e (dm key) key m
     \<and> d_Meta d = destination_meta_of key) (m_destinations m)"

definition destinations_done :: "migration_env \<Rightarrow> migrator \<Rightarrow> bool" where
  "destinations_done e m \<longleftrightarrow> (let dm = wanted_direct (mg_PlatformUID m) (me_Tables e ''reminders'');
       keys = set (destination_keys e (mg_PlatformUID m)) in
     (\<forall>key \<in> keys. dest_row e dm key m \<noteq> None)
     \<and> mg_Channels m = (\<lambda>key. if key \<in> keys then map_option d_ID (dest_row e dm key m) else None))"

lemma instance_before4: "before4 m = before4 n \<Longrightarrow> destination_instance e b key m = destination_instance e b key n"
  by (auto simp: before_defs destination_instance_def split: option.splits)

lemma before4_reports [simp]:
  "before4 (noted_if b reason m) = before4 m" "before4 (read_row m) = before4 m"
  by (simp_all add: before_defs)

lemma destination_step_run:
  assumes "destination_step e dm key m = Inr m'"
  shows "dest_row e dm key m' \<noteq> None \<and> mg_Channels m' key = map_option d_ID (dest_row e dm key m')"
    and "key' \<noteq> key \<Longrightarrow> mg_Channels m' key' = mg_Channels m key'"
    and "dest_row e dm key' m = Some r \<Longrightarrow> dest_row e dm key' m' = Some r"
    and "dest_row e dm key m \<noteq> None \<Longrightarrow> mg_Db m' = mg_Db m"
proof -
  define n where "n = noted_if (\<not> dm key \<and> channel_guild e key = None)
    ''channel unresolved, attached to fallback instance'' (noted_if (dm key) ''DM destination (no guild)'' (read_row m))"
  let ?i = "destination_instance e (dm key) key m"
  have i: "destination_instance e (dm key) key n = ?i" by (rule instance_before4) (simp add: n_def)
  define k where "k = me_Serial e (mg_Clock n)"
  obtain r' p where up: "upsert_destination k ?i (destination_meta_of key) (places (md_Store (mg_Db m))) = (r', p)" by fastforce
  have run: "m' = written_row ((on_places (snd \<circ> upsert_destination k ?i (destination_meta_of key)) (tick n))
      \<lparr>mg_Channels := (mg_Channels m)(key \<mapsto> r')\<rparr>)"
    using assms up by (auto simp: destination_step_def upsertDestination_def mig Let_def n_def [symmetric] i k_def split: if_splits)
      (simp_all add: n_def)
  have rows: "m_destinations m' = destinations p" and channels: "mg_Channels m' = (mg_Channels m)(key \<mapsto> r')"
    using up by (simp_all add: run m_destinations_def on_places_def on_store_def n_def)
  have inst: "destination_instance e b key' m' = destination_instance e b key' m" for b key'
    by (rule instance_before4) (use destination_frame [OF assms] in simp)
  have p: "destinations p = (case dest_row e dm key m of Some _ \<Rightarrow> m_destinations m
      | None \<Rightarrow> m_destinations m @ [\<lparr>d_ID = k, d_InstanceID = ?i, d_Meta = destination_meta_of key, d_Deleted = False\<rparr>])"
    and r': "r' = (case dest_row e dm key m of Some r \<Rightarrow> d_ID r | None \<Rightarrow> k)"
    using up by (auto simp: upsert_destination_def find_destination_def dest_row_def m_destinations_def split: option.splits)
  show "dest_row e dm key m' \<noteq> None \<and> mg_Channels m' key = map_option d_ID (dest_row e dm key m')"
    unfolding dest_row_def rows inst channels p r'
    by (cases "dest_row e dm key m") (auto simp: dest_row_def find_append split: option.splits)
  show "key' \<noteq> key \<Longrightarrow> mg_Channels m' key' = mg_Channels m key'" by (simp add: channels)
  show "dest_row e dm key' m = Some r \<Longrightarrow> dest_row e dm key' m' = Some r"
    unfolding dest_row_def rows inst p by (auto simp: find_append split: option.splits)
  show "mg_Db m' = mg_Db m" if "dest_row e dm key m \<noteq> None"
  proof -
    from that have "p = places (md_Store (mg_Db m))" using up
      by (auto simp: upsert_destination_def find_destination_def dest_row_def m_destinations_def split: option.splits)
    with up show ?thesis by (simp add: run on_places_def on_store_def n_def)
  qed
qed

lemma passDestinations_done:
  assumes "passDestinations e m = Inr m'" and "mg_Channels m = Map.empty"
  shows "destinations_done e m'"
proof -
  let ?dm = "wanted_direct (mg_PlatformUID m) (me_Tables e ''reminders'')" and ?keys = "destination_keys e (mg_PlatformUID m)"
  have run: "each (destination_step e ?dm) ?keys (begin_report ''4 destinations'' m) = Inr m'"
    using assms(1) by (simp add: passDestinations_def split: if_splits)
  have uid: "mg_PlatformUID m' = mg_PlatformUID m" using pass_frames(3) [OF assms(1)] by (simp add: before_defs)
  have "\<forall>key \<in> set ?keys. dest_row e ?dm key m' \<noteq> None \<and> mg_Channels m' key = map_option d_ID (dest_row e ?dm key m')"
  proof (rule each_establishes [OF run])
    fix key n n' assume "destination_step e ?dm key n = Inr n'"
    then show "dest_row e ?dm key n' \<noteq> None \<and> mg_Channels n' key = map_option d_ID (dest_row e ?dm key n')"
      by (rule destination_step_run(1))
  next
    fix key key' n n' assume "dest_row e ?dm key n \<noteq> None \<and> mg_Channels n key = map_option d_ID (dest_row e ?dm key n)"
      and step: "destination_step e ?dm key' n = Inr n'"
    with destination_step_run(1-3) [OF step]
    show "dest_row e ?dm key n' \<noteq> None \<and> mg_Channels n' key = map_option d_ID (dest_row e ?dm key n')"
      by (cases "key = key'") auto
  qed
  moreover have "mg_Channels m' key = None" if "key \<notin> set ?keys" for key
    using run
  proof (rule each_idle [where Q = "\<lambda>m. mg_Channels m key = None"])
    fix x n n' assume "x \<in> set ?keys" "mg_Channels n key = None" "destination_step e ?dm x n = Inr n'"
    moreover from this that have "key \<noteq> x" by blast
    ultimately show "mg_Channels n' key = None" using destination_step_run(2) by simp
  qed (simp add: assms(2))
  ultimately show ?thesis unfolding destinations_done_def Let_def uid by auto
qed

lemma passDestinations_idle:
  assumes "passDestinations e m = Inr m'"
    and "\<forall>key \<in> set (destination_keys e (mg_PlatformUID m)).
       dest_row e (wanted_direct (mg_PlatformUID m) (me_Tables e ''reminders'')) key m \<noteq> None"
  shows "mg_Db m' = mg_Db m"
proof -
  let ?dm = "wanted_direct (mg_PlatformUID m) (me_Tables e ''reminders'')" and ?keys = "destination_keys e (mg_PlatformUID m)"
  have run: "each (destination_step e ?dm) ?keys (begin_report ''4 destinations'' m) = Inr m'"
    using assms(1) by (simp add: passDestinations_def split: if_splits)
  have "mg_Db m' = mg_Db m \<and> before4 m' = before4 m"
  proof (rule each_idle [OF run, where Q = "\<lambda>n. mg_Db n = mg_Db m \<and> before4 n = before4 m"])
    fix key n n' assume key: "key \<in> set ?keys" and n: "mg_Db n = mg_Db m \<and> before4 n = before4 m"
      and step: "destination_step e ?dm key n = Inr n'"
    then have "dest_row e ?dm key n = dest_row e ?dm key m"
      using instance_before4 [of n m] by (simp add: dest_row_def m_destinations_def)
    with destination_step_run(4) [OF step] assms(2) key n destination_frame [OF step]
    show "mg_Db n' = mg_Db m \<and> before4 n' = before4 m" by simp
  qed simp
  then show ?thesis by simp
qed

definition files_done :: "migration_env \<Rightarrow> migrator \<Rightarrow> bool" where
  "files_done e m \<longleftrightarrow> mg_Files m = tracked ''file'' (set (file_names e)) m
     \<and> (\<forall>name \<in> set (file_names e). idmap ''file'' m name \<noteq> None \<or> me_ReadFile e name = None)"

lemma file_tracks: "tracks id ''file'' mg_Files (file_step e)"
  by (auto simp: tracks_def file_step_def mig Let_def views mapped_def split: if_splits option.splits prod.splits)

lemma file_settles: "file_step e name m = Inr m' \<Longrightarrow> (idmap ''file'' m' name \<noteq> None \<or> me_ReadFile e name = None)
    \<and> (idmap ''file'' m l \<noteq> None \<longrightarrow> idmap ''file'' m' l \<noteq> None)"
  by (auto simp: file_step_def mig Let_def views mapped_def split: if_splits option.splits prod.splits)

lemma file_idle: "file_step e name m = Inr m' \<Longrightarrow> idmap ''file'' m name \<noteq> None \<or> me_ReadFile e name = None \<Longrightarrow>
    mg_Db m' = mg_Db m \<and> mg_Blobs m' = mg_Blobs m"
  by (auto simp: file_step_def Let_def idmap_def mapped_def split: if_splits option.splits)

lemma passFiles_done:
  assumes "passFiles e m = Inr m'" and "mg_Files m = Map.empty"
  shows "files_done e m'"
proof -
  have run: "each (file_step e) (file_names e) (begin_report ''5 files'' m) = Inr m'"
    using assms(1) by (simp add: passFiles_def split: if_splits)
  have "\<forall>name \<in> set (file_names e). idmap ''file'' m' name \<noteq> None \<or> me_ReadFile e name = None"
  proof (rule each_establishes [OF run])
    fix name n n' assume "file_step e name n = Inr n'"
    then show "idmap ''file'' n' name \<noteq> None \<or> me_ReadFile e name = None" by (rule file_settles [THEN conjunct1])
  next
    fix name y n n'
    assume "idmap ''file'' n name \<noteq> None \<or> me_ReadFile e name = None" and "file_step e y n = Inr n'"
    then show "idmap ''file'' n' name \<noteq> None \<or> me_ReadFile e name = None"
      using file_settles [of e y n n' name] by auto
  qed
  with each_tracks [OF run file_tracks] assms(2) show ?thesis
    by (simp add: files_done_def tracked_def)
qed

lemma passFiles_idle:
  assumes "passFiles e m = Inr m'" and "\<forall>name \<in> set (file_names e). idmap ''file'' m name \<noteq> None \<or> me_ReadFile e name = None"
  shows "mg_Db m' = mg_Db m \<and> mg_Blobs m' = mg_Blobs m"
proof -
  have run: "each (file_step e) (file_names e) (begin_report ''5 files'' m) = Inr m'"
    using assms(1) by (simp add: passFiles_def split: if_splits)
  show ?thesis
  proof (rule each_idle [OF run, where Q = "\<lambda>n. mg_Db n = mg_Db m \<and> mg_Blobs n = mg_Blobs m"])
    fix name n n' assume "name \<in> set (file_names e)" "mg_Db n = mg_Db m \<and> mg_Blobs n = mg_Blobs m" "file_step e name n = Inr n'"
    with file_idle [of e name n n'] assms(2) show "mg_Db n' = mg_Db m \<and> mg_Blobs n' = mg_Blobs m"
      by (auto simp: idmap_def)
  qed simp
qed

section \<open>Triggers and their counts\<close>

definition taken :: "migration_env \<Rightarrow> dump_value list \<Rightarrow> migrator \<Rightarrow> bool" where
  "taken e row m \<longleftrightarrow> legacyTriggerMode (atoi64 (row ! 7)) = MODE_EXACT
     \<and> row_valid (new_row [] 0 (trigger_params (mg_Files m) [] 0 row) 0) (md_Store (mg_Db m))
     \<and> (\<exists>r \<in> set (triggers (md_Store (mg_Db m))). exact_live r \<and> me_Lower e (t_Phrase r) = me_Lower e (migrated_phrase row))"

text \<open>What keeps a row from being migrated.\<close>

definition unmigratable :: "migration_env \<Rightarrow> dump_value list \<Rightarrow> migrator \<Rightarrow> bool" where
  "unmigratable e row m \<longleftrightarrow> mg_Users m (va_S (row ! 4)) = None \<or> mg_Instances m (va_S (row ! 5)) = None
     \<or> \<not> compiles e (migrated_phrase row) (legacyTriggerMode (atoi64 (row ! 7)))
     \<or> nullable (row ! 2) = None \<and> migrated_file (mg_Files m) row = None"

definition trigger_settled :: "migration_env \<Rightarrow> dump_value list \<Rightarrow> migrator \<Rightarrow> bool" where
  "trigger_settled e row m \<longleftrightarrow> idmap ''trigger'' m (legacy_id row) \<noteq> None \<or> unmigratable e row m \<or> taken e row m"

definition triggers_done :: "migration_env \<Rightarrow> migrator \<Rightarrow> bool" where
  "triggers_done e m \<longleftrightarrow> mg_Triggers m = tracked ''trigger'' (row_keys e ''triggers'') m
     \<and> (\<forall>row \<in> set (me_Tables e ''triggers''). trigger_settled e row m)"

lemma trigger_tracks: "tracks legacy_id ''trigger'' mg_Triggers (trigger_step e)"
  by (auto simp: tracks_def trigger_step_def insert_trigger_def legacy_id_def mig Let_def views mapped_def
      split: if_splits option.splits sum.splits)

lemma row_valid_params:
  "row_valid (new_row u t (trigger_params f userID i row) ref) s = row_valid (new_row [] 0 (trigger_params f [] 0 row) 0) s"
  by (simp add: row_valid_def new_row_def trigger_params_def)

lemma CreateTrigger_taken:
  assumes "CreateTrigger lower u t p s = (Inl ErrExactPhraseTaken, s')"
  shows "tp_Mode p = MODE_EXACT \<and> row_valid (new_row u t p (next_trigger_ref s)) s
    \<and> (\<exists>r \<in> set (triggers s). exact_live r \<and> lower (t_Phrase r) = lower (tp_Phrase p)) \<and> triggers s' = triggers s \<and> files s' = files s"
  using assms by (auto simp: CreateTrigger_def Let_def phrase_taken_def exact_live_def list_ex_iff split: if_splits)

lemma CreateTrigger_taken_idle:
  assumes "taken e row m" and "u \<notin> t_ID ` set (triggers (md_Store (mg_Db m)))"
  shows "CreateTrigger (me_Lower e) u t (trigger_params (mg_Files m) userID i row) (md_Store (mg_Db m))
    = (Inl ErrExactPhraseTaken, (md_Store (mg_Db m))\<lparr>next_trigger_ref := next_trigger_ref (md_Store (mg_Db m)) + 1\<rparr>)"
proof -
  let ?s = "md_Store (mg_Db m)" and ?p = "trigger_params (mg_Files m) userID i row"
  let ?row = "new_row u t ?p (next_trigger_ref ?s)"
  have "row_valid ?row ?s" using assms(1) unfolding taken_def by (metis row_valid_params)
  moreover have "phrase_taken (me_Lower e) ?row ?s"
    using assms by (force simp: phrase_taken_def taken_def exact_live_def list_ex_iff trigger_params_def)
  moreover have "tp_InstanceIDs ?p \<noteq> []" by (simp add: trigger_params_def)
  ultimately show ?thesis by (simp add: CreateTrigger_def Let_def)
qed

lemma taken_mono:
  assumes "taken e row m" and "before6 m' = before6 m"
    and "set (triggers (md_Store (mg_Db m))) \<subseteq> set (triggers (md_Store (mg_Db m')))"
  shows "taken e row m'"
proof -
  have "files (md_Store (mg_Db m')) = files (md_Store (mg_Db m))" "mg_Files m' = mg_Files m"
    using assms(2) by (simp_all add: before_defs)
  with assms(1,3) row_valid_same [of "md_Store (mg_Db m')" "md_Store (mg_Db m)"] show ?thesis
    unfolding taken_def by auto
qed

lemma unmigratable_same: "before6 m' = before6 m \<Longrightarrow> unmigratable e row m' = unmigratable e row m"
  by (simp add: unmigratable_def before_defs)

lemma trigger_step_run:
  assumes "trigger_step e row m = Inr m'"
  shows "trigger_settled e row m'"
    and "trigger_settled e r m \<Longrightarrow> trigger_settled e r m'"
    and "trigger_settled e row m \<Longrightarrow> (\<And>n u. me_Fresh e n = Some u \<Longrightarrow> u \<notin> t_ID ` set (triggers (md_Store (mg_Db m)))) \<Longrightarrow>
       \<exists>c. mg_Db m' = with_sequence c (mg_Db m)"
proof -
  note frame = trigger_frame [OF assms]
  have id: "with_sequence (next_trigger_ref (md_Store d)) d = d" for d by (simp add: with_sequence_def)
  consider (mapped) "idmap ''trigger'' m (legacy_id row) \<noteq> None" "idmap ''trigger'' m' = idmap ''trigger'' m" "mg_Db m' = mg_Db m"
    | (skipped) "unmigratable e row m" "idmap ''trigger'' m (legacy_id row) = None" "mg_Db m' = mg_Db m"
    | (tried) u userID i n where "\<not> unmigratable e row m" "idmap ''trigger'' m (legacy_id row) = None" "me_Fresh e n = Some u"
        "insert_trigger e u userID i row (tick (read_row m)) = Inr m'"
    using assms by (auto simp: trigger_step_def unmigratable_def legacy_id_def wide_def NewV7_def Let_def views mapped_def
        split: if_splits option.splits)
  note cases = this
  have grown: "set (triggers (md_Store (mg_Db m))) \<subseteq> set (triggers (md_Store (mg_Db m')))
      \<and> (\<forall>l. idmap ''trigger'' m l \<noteq> None \<longrightarrow> idmap ''trigger'' m' l \<noteq> None)
      \<and> trigger_settled e row m'"
  proof (cases rule: cases)
    case mapped
    then show ?thesis by (simp add: trigger_settled_def)
  next
    case skipped
    with unmigratable_same [OF frame] show ?thesis by (simp add: trigger_settled_def idmap_def)
  next
    case tried
    let ?m = "tick (tick (read_row m))" and ?p = "trigger_params (mg_Files m) userID i row"
    obtain res s where create: "CreateTrigger (me_Lower e) u (mustTime (row ! 11)) ?p (md_Store (mg_Db m)) = (res, s)" by fastforce
    show ?thesis
    proof (cases res)
      case (Inl err)
      with tried(4) create have err: "err = ErrExactPhraseTaken"
        and m': "mg_Db m' = (mg_Db m)\<lparr>md_Store := s\<rparr>" "mg_Files m' = mg_Files m"
        by (auto simp: insert_trigger_def mig Let_def on_store_def split: if_splits)
      note took = CreateTrigger_taken [OF create [unfolded Inl err]]
      have "row_valid (new_row [] 0 (trigger_params (mg_Files m) [] 0 row) 0) s"
        using took row_valid_same [of s "md_Store (mg_Db m)"] by (metis row_valid_params)
      with took have "taken e row m'" by (simp add: taken_def m' trigger_params_def)
      with took show ?thesis by (simp add: m' trigger_settled_def idmap_def)
    next
      case (Inr r)
      with tried(4) create have m': "mg_Db m' = (mg_Db m)\<lparr>md_Store := s, md_IdMap := (md_IdMap (mg_Db m))((''trigger'', legacy_id row) \<mapsto> u)\<rparr>"
        by (auto simp: insert_trigger_def mig Let_def on_store_def legacy_id_def split: if_splits)
      from CreateTrigger_Inr(6) [OF create [unfolded Inr]] show ?thesis
        by (auto simp: m' trigger_settled_def idmap_def)
    qed
  qed
  then show "trigger_settled e row m'" by simp
  show "trigger_settled e r m \<Longrightarrow> trigger_settled e r m'"
    using grown unmigratable_same [OF frame] taken_mono [OF _ frame] unfolding trigger_settled_def by blast
  show "\<exists>c. mg_Db m' = with_sequence c (mg_Db m)"
    if settled: "trigger_settled e row m" and fresh: "\<And>n u. me_Fresh e n = Some u \<Longrightarrow> u \<notin> t_ID ` set (triggers (md_Store (mg_Db m)))"
  proof (cases rule: cases)
    case mapped
    with id show ?thesis by metis
  next
    case skipped
    with id show ?thesis by metis
  next
    case tried
    with settled have "taken e row m" by (simp add: trigger_settled_def)
    from CreateTrigger_taken_idle [OF this fresh [OF tried(3)]] tried(4) show ?thesis
      by (auto simp: insert_trigger_def mig Let_def on_store_def with_sequence_def split: if_splits)
  qed
qed

lemma passTriggers_done:
  assumes "passTriggers e m = Inr m'" and "mg_Triggers m = Map.empty"
  shows "triggers_done e m'"
proof -
  note run = assms(1) [unfolded passTriggers_def]
  have "\<forall>row \<in> set (me_Tables e ''triggers''). trigger_settled e row m'"
  proof (rule each_establishes [OF run])
    fix row n n' assume "trigger_step e row n = Inr n'"
    then show "trigger_settled e row n'" by (rule trigger_step_run(1))
  next
    fix row y n n' assume "trigger_settled e row n" and "trigger_step e y n = Inr n'"
    then show "trigger_settled e row n'" by (rule trigger_step_run(2) [rotated 1])
  qed
  with each_tracks [OF run trigger_tracks] assms(2) show ?thesis
    by (simp add: triggers_done_def tracked_def row_keys_def)
qed

lemma sequence_db [simp]:
  "md_Store (with_sequence c d) = (md_Store d)\<lparr>next_trigger_ref := c\<rparr>" "md_IdMap (with_sequence c d) = md_IdMap d"
  "md_Staged (with_sequence c d) = md_Staged d" "with_sequence c (with_sequence c' d) = with_sequence c d"
  by (simp_all add: with_sequence_def)

lemma sequence_id: "\<exists>c. d = with_sequence c d"
  by (rule exI [where x = "next_trigger_ref (md_Store d)"]) (simp add: with_sequence_def)

definition same_db :: "migrator \<Rightarrow> migrator \<Rightarrow> bool" where
  "same_db n m \<longleftrightarrow> (\<exists>c. mg_Db n = with_sequence c (mg_Db m))"

lemma same_db_refl: "mg_Db n = mg_Db m \<Longrightarrow> same_db n m"
  using sequence_id by (auto simp: same_db_def)

lemma same_db_trans: "same_db k n \<Longrightarrow> same_db n m \<Longrightarrow> same_db k m"
  by (auto simp: same_db_def)

lemma same_db_views:
  assumes "same_db n m"
  shows "idmap ent n = idmap ent m" "m_instances n = m_instances m" "m_destinations n = m_destinations m"
    "m_reminders n = m_reminders m" "files (md_Store (mg_Db n)) = files (md_Store (mg_Db m))"
    "triggers (md_Store (mg_Db n)) = triggers (md_Store (mg_Db m))" "md_Staged (mg_Db n) = md_Staged (mg_Db m)"
  using assms by (auto simp: same_db_def idmap_def m_instances_def m_destinations_def m_reminders_def)

lemma trigger_settled_same:
  assumes "before6 n = before6 m" and "same_db n m"
  shows "trigger_settled e row n = trigger_settled e row m"
proof -
  have "mg_Files n = mg_Files m" using assms(1) by (simp add: before_defs)
  moreover have "row_valid r (md_Store (mg_Db n)) = row_valid r (md_Store (mg_Db m))" for r
    by (rule row_valid_same) (rule same_db_views(5) [OF assms(2)])
  ultimately show ?thesis
    unfolding trigger_settled_def taken_def unmigratable_same [OF assms(1)] same_db_views [OF assms(2)] by simp
qed

lemma passTriggers_idle:
  assumes "passTriggers e m = Inr m'" and "\<forall>row \<in> set (me_Tables e ''triggers''). trigger_settled e row m"
    and "\<And>n u. me_Fresh e n = Some u \<Longrightarrow> u \<notin> t_ID ` set (triggers (md_Store (mg_Db m)))"
  shows "same_db m' m"
proof -
  have "same_db m' m \<and> before6 m' = before6 m"
  proof (rule each_idle [OF assms(1) [unfolded passTriggers_def], where Q = "\<lambda>n. same_db n m \<and> before6 n = before6 m"])
    fix row n n' assume row: "row \<in> set (me_Tables e ''triggers'')" and n: "same_db n m \<and> before6 n = before6 m"
      and step: "trigger_step e row n = Inr n'"
    have "trigger_settled e row n" using trigger_settled_same [of n m e row] assms(2) row n by simp
    moreover have "u \<notin> t_ID ` set (triggers (md_Store (mg_Db n)))" if "me_Fresh e i = Some u" for i u
      using assms(3) [OF that] same_db_views(6) [of n m] n by simp
    ultimately have "same_db n' n" using trigger_step_run(3) [OF step] unfolding same_db_def by blast
    with n trigger_frame [OF step] show "same_db n' m \<and> before6 n' = before6 m" using same_db_trans by auto
  qed (simp add: same_db_refl)
  then show ?thesis by simp
qed

definition stats_done :: "migration_env \<Rightarrow> migrator \<Rightarrow> bool" where
  "stats_done e m \<longleftrightarrow> (\<forall>row \<in> set (me_Tables e ''triggers'').
     mg_Triggers m (legacy_id row) \<noteq> None \<longrightarrow> idmap ''trigger_stats'' m (legacy_id row) \<noteq> None)"

lemma stats_loop_run:
  assumes "stats_loop e recs rows m = Inr (recs', m')"
  shows "(\<forall>row \<in> set rows. mg_Triggers m (legacy_id row) \<noteq> None \<longrightarrow> idmap ''trigger_stats'' m' (legacy_id row) \<noteq> None)
    \<and> (\<forall>l. idmap ''trigger_stats'' m l \<noteq> None \<longrightarrow> idmap ''trigger_stats'' m' l \<noteq> None)"
  using assms
proof (induction rows arbitrary: recs m)
  case (Cons row rows)
  from Cons.prems obtain n recs'' where n: "stats_loop e recs'' rows n = Inr (recs', m')" "mg_Triggers n = mg_Triggers m"
    and grown: "\<forall>l. idmap ''trigger_stats'' m l \<noteq> None \<longrightarrow> idmap ''trigger_stats'' n l \<noteq> None"
    and this_row: "mg_Triggers m (legacy_id row) \<noteq> None \<longrightarrow> idmap ''trigger_stats'' n (legacy_id row) \<noteq> None"
    by (auto simp: Let_def mig legacy_id_def idmap_def mapped_def split: if_splits option.splits)
  with Cons.IH [OF n(1)] show ?case by auto
qed simp

lemma stats_loop_idle:
  assumes "stats_loop e recs rows m = Inr (recs', m')"
    and "\<forall>row \<in> set rows. mg_Triggers m (legacy_id row) \<noteq> None \<longrightarrow> idmap ''trigger_stats'' m (legacy_id row) \<noteq> None"
  shows "recs' = recs \<and> mg_Db m' = mg_Db m"
  using assms
proof (induction rows arbitrary: recs m)
  case (Cons row rows)
  from Cons.prems obtain n where n: "stats_loop e recs rows n = Inr (recs', m')" "mg_Triggers n = mg_Triggers m" "mg_Db n = mg_Db m"
    by (auto simp: Let_def mig legacy_id_def idmap_def mapped_def split: if_splits option.splits)
  with Cons.IH [OF n(1)] Cons.prems(2) show ?case by (simp add: idmap_def)
qed simp

lemma passTriggerStats_done:
  assumes "passTriggerStats e m = Inr m'"
  shows "stats_done e m'"
proof -
  from assms obtain recs n where n: "stats_loop e [] (me_Tables e ''triggers'') (begin_report ''7 trigger stats'' m) = Inr (recs, n)"
    and m': "idmap ''trigger_stats'' m' = idmap ''trigger_stats'' n"
    by (auto simp: passTriggerStats_def mig idmap_def on_store_def split: if_splits)
  have "mg_Triggers m' = mg_Triggers m" using pass_frames(6) [OF assms] by (simp add: before_defs)
  with stats_loop_run [OF n] m' show ?thesis by (simp add: stats_done_def)
qed

lemma passTriggerStats_idle:
  assumes "passTriggerStats e m = Inr m'" and "stats_done e m"
  shows "mg_Db m' = mg_Db m"
proof -
  from assms(1) obtain recs n where n: "stats_loop e [] (me_Tables e ''triggers'') (begin_report ''7 trigger stats'' m) = Inr (recs, n)"
    and m': "recs = [] \<Longrightarrow> m' = n"
    by (auto simp: passTriggerStats_def split: if_splits)
  from stats_loop_idle [OF n] assms(2) m' show ?thesis by (simp add: stats_done_def)
qed

section \<open>Reminders and staging\<close>

definition reminder_settled :: "dump_value list \<Rightarrow> migrator \<Rightarrow> bool" where
  "reminder_settled row m \<longleftrightarrow> idmap ''reminder'' m (legacy_id row) \<noteq> None \<or> mg_Users m (va_S (row ! 3)) = None
     \<or> mg_Channels m (destination_key (mg_PlatformUID m) row) = None"

lemma reminder_tracks: "tracks legacy_id ''reminder'' mg_Reminders (reminder_step e)"
  by (auto simp: tracks_def reminder_step_def legacy_id_def mig Let_def views mapped_def
      split: if_splits option.splits)

lemma reminder_step_run:
  assumes "reminder_step e row m = Inr m'"
  shows "reminder_settled row m'" and "reminder_settled r m \<Longrightarrow> reminder_settled r m'"
    and "reminder_settled row m \<Longrightarrow> mg_Db m' = mg_Db m"
proof -
  have same: "mg_Users m' = mg_Users m" "mg_Channels m' = mg_Channels m" "mg_PlatformUID m' = mg_PlatformUID m"
    using reminder_frame [OF assms] by (simp_all add: before_defs)
  show "reminder_settled row m'"
    using assms unfolding reminder_settled_def same
    by (auto simp: reminder_step_def legacy_id_def mig Let_def views mapped_def split: if_splits option.splits)
  have "idmap ''reminder'' m l \<noteq> None \<longrightarrow> idmap ''reminder'' m' l \<noteq> None" for l
    using assms by (auto simp: reminder_step_def mig Let_def views mapped_def split: if_splits option.splits)
  then show "reminder_settled r m \<Longrightarrow> reminder_settled r m'" unfolding reminder_settled_def same by auto
  show "reminder_settled row m \<Longrightarrow> mg_Db m' = mg_Db m"
    using assms unfolding reminder_settled_def
    by (auto simp: reminder_step_def legacy_id_def mig Let_def idmap_def mapped_def split: if_splits option.splits)
qed

text \<open>The links between reminders, in the order the second loop makes them.\<close>

definition parent_link :: "(string \<rightharpoonup> string) \<Rightarrow> dump_value list \<Rightarrow> (string \<times> string) list" where
  "parent_link ids row =
    (if va_Null (row ! 6) then []
     else case (ids (legacy_id row), ids (va_S (row ! 6))) of (Some child, Some parent) \<Rightarrow> [(child, parent)] | _ \<Rightarrow> [])"

definition parent_links :: "(string \<rightharpoonup> string) \<Rightarrow> dump_value list list \<Rightarrow> (string \<times> string) list" where
  "parent_links ids rows = concat (map (parent_link ids) rows)"

definition relink :: "(string \<times> string) list \<Rightarrow> reminder_row \<Rightarrow> reminder_row" where
  "relink links r = (case map_of (rev links) (r_ID r) of None \<Rightarrow> r | Some p \<Rightarrow> r\<lparr>r_ParentID := Some p\<rparr>)"

lemma relink_twice: "relink links (relink links r) = relink links r"
  by (auto simp: relink_def split: option.splits)

lemma relink_append: "relink (links @ others) r = relink others (relink links r)"
  by (auto simp: relink_def map_add_def split: option.splits)

definition relinked :: "(string \<times> string) list \<Rightarrow> db \<Rightarrow> db" where
  "relinked links p = p\<lparr>reminders := map (relink links) (reminders p)\<rparr>"

lemma relinked_append: "relinked (links @ others) p = relinked others (relinked links p)"
  by (simp add: relinked_def relink_append comp_def)

lemma relinked_Nil [simp]: "relinked [] p = p"
proof -
  have "relink [] = id" by (simp add: fun_eq_iff relink_def)
  then show ?thesis by (simp add: relinked_def)
qed

lemma parent_step_run:
  assumes "parent_step e row m = Inr m'"
  shows "mg_Db m' = (mg_Db m)\<lparr>md_Store := (md_Store (mg_Db m))\<lparr>places :=
      relinked (parent_link (mg_Reminders m) row) (places (md_Store (mg_Db m)))\<rparr>\<rparr> \<and> mg_Reminders m' = mg_Reminders m"
proof -
  have "relinked [(child, parent)] p = link_parent child parent p" for child parent p
    by (auto simp: relinked_def relink_def link_parent_def update_where_def)
  then show ?thesis using assms
    by (auto simp: parent_step_def parent_link_def legacy_id_def mig on_places_def on_store_def split: if_splits option.splits)
qed

lemma each_parents:
  "each (parent_step e) rows m = Inr m' \<Longrightarrow> mg_Db m' = (mg_Db m)\<lparr>md_Store := (md_Store (mg_Db m))\<lparr>places :=
      relinked (parent_links (mg_Reminders m) rows) (places (md_Store (mg_Db m)))\<rparr>\<rparr> \<and> mg_Reminders m' = mg_Reminders m"
proof (induction rows arbitrary: m)
  case (Cons row rows)
  then obtain n where n: "parent_step e row m = Inr n" "each (parent_step e) rows n = Inr m'" by auto
  from Cons.IH [OF n(2)] parent_step_run [OF n(1)] show ?case
    by (simp add: parent_links_def relinked_append)
qed (simp add: parent_links_def)

definition reminders_done :: "migration_env \<Rightarrow> migrator \<Rightarrow> bool" where
  "reminders_done e m \<longleftrightarrow> mg_Reminders m = tracked ''reminder'' (row_keys e ''reminders'') m
     \<and> (\<forall>row \<in> set (me_Tables e ''reminders''). reminder_settled row m)
     \<and> (let links = parent_links (mg_Reminders m) (me_Tables e ''reminders'') in
        map (relink links) (m_reminders m) = m_reminders m)"

lemma passReminders_done:
  assumes "passReminders e m = Inr m'" and "mg_Reminders m = Map.empty"
  shows "reminders_done e m'"
proof -
  let ?rows = "me_Tables e ''reminders''"
  from assms(1) obtain n where n: "each (reminder_step e) ?rows (begin_report ''8 reminders'' m) = Inr n"
    "each (parent_step e) ?rows n = Inr m'" by (auto simp: passReminders_def)
  note parents = each_parents [OF n(2)]
  have settled: "\<forall>row \<in> set ?rows. reminder_settled row n"
  proof (rule each_establishes [OF n(1)])
    fix row k k' assume "reminder_step e row k = Inr k'"
    then show "reminder_settled row k'" by (rule reminder_step_run(1))
  next
    fix row y k k' assume "reminder_settled row k" "reminder_step e y k = Inr k'"
    then show "reminder_settled row k'" by (rule reminder_step_run(2) [rotated 1])
  qed
  have same: "before8 m' = before8 n" by (rule each_frame [where E = before8, OF n(2)]) (rule parent_frame)
  have ids: "idmap ''reminder'' m' = idmap ''reminder'' n" using parents by (simp add: idmap_def)
  have "mg_Reminders n = tracked ''reminder'' (row_keys e ''reminders'') n"
    using each_tracks [OF n(1) reminder_tracks] assms(2) by (simp add: tracked_def row_keys_def)
  moreover have "reminder_settled row m' = reminder_settled row n" for row
    using same ids by (simp add: reminder_settled_def before_defs)
  moreover have "m_reminders m' = map (relink (parent_links (mg_Reminders n) ?rows)) (m_reminders n)"
    using parents by (simp add: m_reminders_def relinked_def)
  moreover have "tracked ''reminder'' keys m' = tracked ''reminder'' keys n" for keys by (simp add: tracked_def ids cong: if_cong)
  ultimately show ?thesis using parents settled
    by (simp add: reminders_done_def Let_def relink_twice comp_def)
qed

lemma passReminders_idle:
  assumes "passReminders e m = Inr m'" and "\<forall>row \<in> set (me_Tables e ''reminders''). reminder_settled row m"
    and "mg_Reminders m = Map.empty"
    and "map (relink (parent_links (tracked ''reminder'' (row_keys e ''reminders'') m) (me_Tables e ''reminders''))) (m_reminders m) = m_reminders m"
  shows "mg_Db m' = mg_Db m"
proof -
  let ?rows = "me_Tables e ''reminders''"
  from assms(1) obtain n where n: "each (reminder_step e) ?rows (begin_report ''8 reminders'' m) = Inr n"
    "each (parent_step e) ?rows n = Inr m'" by (auto simp: passReminders_def)
  have db: "mg_Db n = mg_Db m \<and> before8 n = before8 m"
  proof (rule each_idle [OF n(1), where Q = "\<lambda>n. mg_Db n = mg_Db m \<and> before8 n = before8 m"])
    fix row k k' assume "row \<in> set ?rows" and k: "mg_Db k = mg_Db m \<and> before8 k = before8 m" and step: "reminder_step e row k = Inr k'"
    moreover have "reminder_settled row k = reminder_settled row m"
      using k by (simp add: reminder_settled_def before_defs idmap_def)
    ultimately show "mg_Db k' = mg_Db m \<and> before8 k' = before8 m"
      using reminder_step_run(3) [OF step] reminder_frame [OF step] assms(2) by simp
  qed simp
  have "mg_Reminders n = tracked ''reminder'' (row_keys e ''reminders'') n"
    using each_tracks [OF n(1) reminder_tracks] assms(3) by (simp add: tracked_def row_keys_def)
  moreover have "tracked ''reminder'' keys n = tracked ''reminder'' keys m" for keys
    by (simp add: tracked_def idmap_def db cong: if_cong)
  ultimately show ?thesis using each_parents [OF n(2)] assms(4) db
    by (simp add: relinked_def m_reminders_def)
qed

definition staged :: "staging_spec \<Rightarrow> dump_value list \<Rightarrow> migrator \<Rightarrow> bool" where
  "staged spec row m \<longleftrightarrow> (\<exists>key. ParseInt (va_S (row ! 0)) = Some key \<and> key \<in> fst ` set (md_Staged (mg_Db m) (ss_Target spec)))"

lemma staging_step_run:
  assumes "staging_step e spec row m = Inr m'"
  shows "staged spec row m'" and "staged sp r m \<Longrightarrow> staged sp r m'" and "staged spec row m \<Longrightarrow> mg_Db m' = mg_Db m"
  using assms by (auto simp: staging_step_def staged_def image_iff mig Let_def split: if_splits option.splits)
    (metis fst_conv)+

lemma each_staged:
  assumes "each (staging_step e spec) rows m = Inr m'"
  shows "\<forall>row \<in> set rows. staged spec row m'" and "staged sp r m \<Longrightarrow> staged sp r m'"
proof -
  show "\<forall>row \<in> set rows. staged spec row m'"
    by (rule each_establishes [OF assms]) (use staging_step_run(1,2) in auto)
  show "staged sp r m \<Longrightarrow> staged sp r m'"
    by (rule each_idle [OF assms, where Q = "staged sp r"]) (use staging_step_run(2) in auto)
qed

definition staging_done :: "migration_env \<Rightarrow> migrator \<Rightarrow> bool" where
  "staging_done e m \<longleftrightarrow> (\<forall>spec \<in> set staging_specs. \<forall>row \<in> set (me_Tables e (ss_Legacy spec)). staged spec row m)"

lemma staged_report [simp]: "staged spec row (begin_report name m) = staged spec row m"
  by (simp add: staged_def)

lemma passStaging_done:
  assumes "passStaging e m = Inr m'"
  shows "staging_done e m'"
  unfolding staging_done_def
  using assms [unfolded passStaging_def]
proof (rule each_establishes)
  fix spec n n' assume "staging_pass e spec n = Inr n'"
  then show "\<forall>row \<in> set (me_Tables e (ss_Legacy spec)). staged spec row n'"
    unfolding staging_pass_def by (rule each_staged(1))
next
  fix spec y n n' assume "\<forall>row \<in> set (me_Tables e (ss_Legacy spec)). staged spec row n" and "staging_pass e y n = Inr n'"
  then show "\<forall>row \<in> set (me_Tables e (ss_Legacy spec)). staged spec row n'"
    using each_staged(2) unfolding staging_pass_def by auto
qed

lemma passStaging_idle:
  assumes "passStaging e m = Inr m'" and "staging_done e m"
  shows "mg_Db m' = mg_Db m"
proof (rule each_idle [OF assms(1) [unfolded passStaging_def], where Q = "\<lambda>n. mg_Db n = mg_Db m"])
  fix spec n n' assume spec: "spec \<in> set staging_specs" and n: "mg_Db n = mg_Db m" and run: "staging_pass e spec n = Inr n'"
  have "mg_Db n' = mg_Db (begin_report (''9 '' @ ss_Target spec) n)"
  proof (rule each_idle [OF run [unfolded staging_pass_def], where Q = "\<lambda>k. mg_Db k = mg_Db (begin_report (''9 '' @ ss_Target spec) n)"])
    fix row k k' assume "row \<in> set (me_Tables e (ss_Legacy spec))" "mg_Db k = mg_Db (begin_report (''9 '' @ ss_Target spec) n)"
      "staging_step e spec row k = Inr k'"
    moreover from this assms(2) spec n have "staged spec row k" by (auto simp: staging_done_def staged_def)
    ultimately show "mg_Db k' = mg_Db (begin_report (''9 '' @ ss_Target spec) n)" using staging_step_run(3) by simp
  qed simp
  with n show "mg_Db n' = mg_Db m" by simp
qed simp

section \<open>A second run\<close>

text \<open>The same dump and files on disk, and the same engine; ids, failures and the clock may differ.\<close>

definition same_input :: "migration_env \<Rightarrow> migration_env \<Rightarrow> bool" where
  "same_input e e' \<longleftrightarrow> me_Tables e' = me_Tables e \<and> me_Servers e' = me_Servers e \<and> me_ReadFile e' = me_ReadFile e
     \<and> me_Lower e' = me_Lower e \<and> me_UnicodeWord e' = me_UnicodeWord e \<and> me_Regexp e' = me_Regexp e"

definition all_done :: "migration_env \<Rightarrow> migrator \<Rightarrow> bool" where
  "all_done e m \<longleftrightarrow> instances_done e m \<and> users_done e m \<and> identities_done e m \<and> destinations_done e m \<and> files_done e m
     \<and> triggers_done e m \<and> stats_done e m \<and> reminders_done e m \<and> staging_done e m"

lemma run_maps_empty:
  "mg_Instances (start d blobs) = Map.empty" "mg_Users (start d blobs) = Map.empty"
  "mg_PlatformUID (start d blobs) = Map.empty" "mg_Channels (start d blobs) = Map.empty"
  "mg_Files (start d blobs) = Map.empty" "mg_Triggers (start d blobs) = Map.empty"
  "mg_Reminders (start d blobs) = Map.empty" "mg_Db (start d blobs) = d" "mg_Blobs (start d blobs) = blobs"
  by (simp_all add: start_def)

text \<open>The maps of the later passes stay as they are, and so do the blobs but for the files' pass.\<close>

definition after6 where "after6 m = (mg_Reminders m, mg_Blobs m)"
definition after4 where "after4 m = (mg_Triggers m, mg_Reminders m)"
definition after3 where "after3 m = (mg_Files m, mg_Triggers m, after6 m)"
definition after2 where "after2 m = (mg_Channels m, after3 m)"
definition after1 where "after1 m = (mg_PlatformUID m, after2 m)"
definition after0 where "after0 m = (mg_Users m, after1 m)"

lemmas after_defs = after0_def after1_def after2_def after3_def after4_def after6_def

lemma after_reports [simp]:
  "after0 (begin_report name m) = after0 m" "after1 (begin_report name m) = after1 m"
  "after2 (begin_report name m) = after2 m" "after3 (begin_report name m) = after3 m"
  "after4 (begin_report name m) = after4 m" "after6 (begin_report name m) = after6 m"
  by (simp_all add: after_defs)

lemma step_afters:
  "instance_step e guild m = Inr m' \<Longrightarrow> after0 m' = after0 m"
  "user_step e row m = Inr m' \<Longrightarrow> after1 m' = after1 m"
  "identity_step e row m = Inr m' \<Longrightarrow> after2 m' = after2 m"
  "destination_step e dm key m = Inr m' \<Longrightarrow> after3 m' = after3 m"
  "file_step e name m = Inr m' \<Longrightarrow> after4 m' = after4 m"
  "trigger_step e row m = Inr m' \<Longrightarrow> after6 m' = after6 m"
  "reminder_step e row m = Inr m' \<Longrightarrow> mg_Blobs m' = mg_Blobs m"
  "parent_step e row m = Inr m' \<Longrightarrow> mg_Blobs m' = mg_Blobs m"
  "staging_step e spec row m = Inr m' \<Longrightarrow> mg_Blobs m' = mg_Blobs m"
  by (auto simp: after_defs instance_step_def instance_statement_def user_step_def identity_step_def destination_step_def
      upsertDestination_def file_step_def trigger_step_def insert_trigger_def reminder_step_def parent_step_def
      staging_step_def mig Let_def split: if_splits option.splits sum.splits prod.splits)

lemma stats_after: "stats_loop e recs rows m = Inr (recs', m') \<Longrightarrow> after6 m' = after6 m"
proof (induction rows arbitrary: recs m)
  case (Cons row rows)
  have same: "after6 (on_db f n) = after6 n" "after6 (read_row n) = after6 n" "after6 (skip_row reason n) = after6 n"
    "after6 (written_row n) = after6 n" "after6 (tick n) = after6 n" for f n reason by (simp_all add: after_defs)
  from Cons.prems show ?case by (auto simp: Let_def mig same split: if_splits option.splits dest!: Cons.IH)
qed simp

lemma pass_afters:
  "passInstances e m = Inr m' \<Longrightarrow> after0 m' = after0 m"
  "passUsers e m = Inr m' \<Longrightarrow> after1 m' = after1 m"
  "passPlatformUsers e m = Inr m' \<Longrightarrow> after2 m' = after2 m"
  "passDestinations e m = Inr m' \<Longrightarrow> after3 m' = after3 m"
  "passFiles e m = Inr m' \<Longrightarrow> after4 m' = after4 m"
  "passTriggers e m = Inr m' \<Longrightarrow> after6 m' = after6 m"
  "passTriggerStats e m = Inr m' \<Longrightarrow> after6 m' = after6 m"
  "passReminders e m = Inr m' \<Longrightarrow> mg_Blobs m' = mg_Blobs m"
  "passStaging e m = Inr m' \<Longrightarrow> mg_Blobs m' = mg_Blobs m"
proof -
  show "after0 m' = after0 m" if run: "passInstances e m = Inr m'"
  proof -
    from run obtain n where n: "each (instance_step e) (guild_names e) (begin_report ''1 instances'' m) = Inr n"
      "instance_statement e fallbackInstanceUID None (\<lambda>i m. Inr (m\<lparr>mg_Fallback := i\<rparr>)) n = Inr m'"
      by (auto simp: passInstances_def split: if_splits)
    from n(2) have "after0 m' = after0 n" by (auto simp: instance_statement_def mig Let_def after_defs split: if_splits)
    with each_frame [where E = after0, OF n(1) step_afters(1)] show ?thesis by simp
  qed
  show "passUsers e m = Inr m' \<Longrightarrow> after1 m' = after1 m"
    unfolding passUsers_def by (drule each_frame [where E = after1, OF _ step_afters(2)]) simp_all
  show "passPlatformUsers e m = Inr m' \<Longrightarrow> after2 m' = after2 m"
    unfolding passPlatformUsers_def by (drule each_frame [where E = after2, OF _ step_afters(3)]) simp_all
  show "passDestinations e m = Inr m' \<Longrightarrow> after3 m' = after3 m"
    by (auto simp: passDestinations_def split: if_splits dest!: each_frame [where E = after3, OF _ step_afters(4)])
  show "passFiles e m = Inr m' \<Longrightarrow> after4 m' = after4 m"
    by (auto simp: passFiles_def split: if_splits dest!: each_frame [where E = after4, OF _ step_afters(5)])
  show "passTriggers e m = Inr m' \<Longrightarrow> after6 m' = after6 m"
    unfolding passTriggers_def by (drule each_frame [where E = after6, OF _ step_afters(6)]) simp_all
  have fires: "after6 (on_store f (tick n)) = after6 n" "after6 (note_reason reason n) = after6 n" for f n reason
    by (simp_all add: after_defs)
  show "passTriggerStats e m = Inr m' \<Longrightarrow> after6 m' = after6 m"
    by (auto simp: passTriggerStats_def mig fires split: if_splits dest!: stats_after)
  show "mg_Blobs m' = mg_Blobs m" if run: "passReminders e m = Inr m'"
  proof -
    from run obtain n where n: "each (reminder_step e) (me_Tables e ''reminders'') (begin_report ''8 reminders'' m) = Inr n"
      "each (parent_step e) (me_Tables e ''reminders'') n = Inr m'" by (auto simp: passReminders_def)
    have "mg_Blobs n = mg_Blobs (begin_report ''8 reminders'' m)"
      by (rule each_frame [where E = mg_Blobs, OF n(1)]) (rule step_afters(7))
    moreover have "mg_Blobs m' = mg_Blobs n" by (rule each_frame [where E = mg_Blobs, OF n(2)]) (rule step_afters(8))
    ultimately show ?thesis by simp
  qed
  have "staging_pass e spec m = Inr m' \<Longrightarrow> mg_Blobs m' = mg_Blobs m" for spec m m'
    unfolding staging_pass_def by (drule each_frame [where E = mg_Blobs, OF _ step_afters(9)]) simp_all
  then show "passStaging e m = Inr m' \<Longrightarrow> mg_Blobs m' = mg_Blobs m"
    using each_frame [where f = "staging_pass e" and E = mg_Blobs] by (simp add: passStaging_def)
qed

text \<open>What a pass has done is a fact about the views it leaves to the later passes.\<close>

lemma done_views:
  "before2 n = before2 m \<Longrightarrow> instances_done e n = instances_done e m"
  "before3 n = before3 m \<Longrightarrow> users_done e n = users_done e m"
  "before4 n = before4 m \<Longrightarrow> identities_done e n = identities_done e m"
  "before5 n = before5 m \<Longrightarrow> destinations_done e n = destinations_done e m"
  "before6 n = before6 m \<Longrightarrow> files_done e n = files_done e m"
  "before7 n = before7 m \<Longrightarrow> triggers_done e n = triggers_done e m"
  "before8 n = before8 m \<Longrightarrow> stats_done e n = stats_done e m"
  "before9 n = before9 m \<Longrightarrow> reminders_done e n = reminders_done e m"
proof -
  show "before2 n = before2 m \<Longrightarrow> instances_done e n = instances_done e m"
    by (simp add: before_defs instances_done_def inst_settled_def inst_id_def cong: if_cong)
  have tracked: "idmap entity n = idmap entity m \<Longrightarrow> tracked entity keys n = tracked entity keys m" for entity keys
    by (simp add: tracked_def cong: if_cong)
  show "before3 n = before3 m \<Longrightarrow> users_done e n = users_done e m"
    by (simp add: before_defs users_done_def tracked)
  show "before4 n = before4 m \<Longrightarrow> identities_done e n = identities_done e m"
    by (simp add: before_defs identities_done_def)
  have dest: "before5 n = before5 m \<Longrightarrow> dest_row e dm key n = dest_row e dm key m" for dm key
    using instance_before4 [of n m] by (simp add: dest_row_def before5_def)
  show "before5 n = before5 m \<Longrightarrow> destinations_done e n = destinations_done e m"
    by (simp add: destinations_done_def dest Let_def before_defs cong: if_cong)
  show "before6 n = before6 m \<Longrightarrow> files_done e n = files_done e m"
    by (simp add: before_defs files_done_def tracked)
  show "triggers_done e n = triggers_done e m" if same: "before7 n = before7 m"
  proof -
    have rows: "before6 n = before6 m" "idmap ''trigger'' n = idmap ''trigger'' m" "mg_Triggers n = mg_Triggers m"
      "triggers (md_Store (mg_Db n)) = triggers (md_Store (mg_Db m))" using same by (simp_all add: before7_def)
    then have "mg_Files n = mg_Files m" "files (md_Store (mg_Db n)) = files (md_Store (mg_Db m))" by (simp_all add: before6_def)
    with rows row_valid_same [of "md_Store (mg_Db n)" "md_Store (mg_Db m)"] show ?thesis
      by (simp add: triggers_done_def trigger_settled_def taken_def unmigratable_same [OF rows(1)] tracked)
  qed
  show "before8 n = before8 m \<Longrightarrow> stats_done e n = stats_done e m"
    by (simp add: before_defs stats_done_def)
  show "before9 n = before9 m \<Longrightarrow> reminders_done e n = reminders_done e m"
    by (simp add: before_defs reminders_done_def reminder_settled_def tracked)
qed

lemma before_down:
  "before9 n = before9 m \<Longrightarrow> before8 n = before8 m" "before8 n = before8 m \<Longrightarrow> before7 n = before7 m"
  "before7 n = before7 m \<Longrightarrow> before6 n = before6 m" "before6 n = before6 m \<Longrightarrow> before5 n = before5 m"
  "before5 n = before5 m \<Longrightarrow> before4 n = before4 m" "before4 n = before4 m \<Longrightarrow> before3 n = before3 m"
  "before3 n = before3 m \<Longrightarrow> before2 n = before2 m"
  by (simp_all add: before_defs)

lemma run_done:
  assumes "run_passes (passes e) (start d blobs) = Inr m"
  shows "all_done e m"
proof -
  obtain m1 m2 m3 m4 m5 m6 m7 m8 where
    p: "passInstances e (start d blobs) = Inr m1" "passUsers e m1 = Inr m2" "passPlatformUsers e m2 = Inr m3"
      "passDestinations e m3 = Inr m4" "passFiles e m4 = Inr m5" "passTriggers e m5 = Inr m6"
      "passTriggerStats e m6 = Inr m7" "passReminders e m7 = Inr m8" "passStaging e m8 = Inr m"
    using assms by (auto simp: passes_def)
  note f = pass_frames(1) [OF p(2)] pass_frames(2) [OF p(3)] pass_frames(3) [OF p(4)] pass_frames(4) [OF p(5)]
    pass_frames(5) [OF p(6)] pass_frames(6) [OF p(7)] pass_frames(7) [OF p(8)] pass_frames(8) [OF p(9)]
  have b8: "before8 m = before8 m7" using before_down(1) [OF f(8)] f(7) by simp
  have b7: "before7 m = before7 m6" using before_down(2) [OF b8] f(6) by simp
  have b6: "before6 m = before6 m5" using before_down(3) [OF b7] f(5) by simp
  have b5: "before5 m = before5 m4" using before_down(4) [OF b6] f(4) by simp
  have b4: "before4 m = before4 m3" using before_down(5) [OF b5] f(3) by simp
  have b3: "before3 m = before3 m2" using before_down(6) [OF b4] f(2) by simp
  have b2: "before2 m = before2 m1" using before_down(7) [OF b3] f(1) by simp
  note a = pass_afters(1) [OF p(1)] pass_afters(2) [OF p(2)] pass_afters(3) [OF p(3)] pass_afters(4) [OF p(4)]
    pass_afters(5) [OF p(5)] pass_afters(6) [OF p(6)] pass_afters(7) [OF p(7)]
  have empty: "mg_Users m1 = Map.empty" "mg_PlatformUID m2 = Map.empty" "mg_Channels m3 = Map.empty"
    "mg_Files m4 = Map.empty" "mg_Triggers m5 = Map.empty" "mg_Reminders m7 = Map.empty"
    using a run_maps_empty [of d blobs] by (simp_all add: after_defs)
  show ?thesis unfolding all_done_def
    using passInstances_done [OF p(1)] run_maps_empty(1) passUsers_done [OF p(2) empty(1)]
      passPlatformUsers_done [OF p(3) empty(2)] passDestinations_done [OF p(4) empty(3)] passFiles_done [OF p(5) empty(4)]
      passTriggers_done [OF p(6) empty(5)] passTriggerStats_done [OF p(7)] passReminders_done [OF p(8) empty(6)]
      passStaging_done [OF p(9)]
      done_views(1) [OF b2] done_views(2) [OF b3] done_views(3) [OF b4] done_views(4) [OF b5] done_views(5) [OF b6]
      done_views(6) [OF b7] done_views(7) [OF b8] done_views(8) [OF f(8)]
    by simp
qed

lemma done_same_input:
  assumes "same_input e e'"
  shows "all_done e' m = all_done e m"
proof -
  have "guild_names e' = guild_names e" "default_channels e' = default_channels e" "channel_guild e' = channel_guild e"
    "destination_keys e' q = destination_keys e q" "file_names e' = file_names e" "row_keys e' t = row_keys e t"
    "compiles e' phrase mode = compiles e phrase mode" for q t phrase mode
    using assms by (simp_all add: same_input_def guild_names_def default_channels_def channel_guild_def
        destination_keys_def file_names_def row_keys_def compiles_def)
  note same = this assms [unfolded same_input_def]
  have "dest_row e' dm key m = dest_row e dm key m" for dm key
    by (simp add: dest_row_def destination_instance_def same)
  moreover have "trigger_settled e' row m = trigger_settled e row m" for row
    by (simp add: trigger_settled_def unmigratable_def taken_def same)
  moreover have "inst_settled e' g m = inst_settled e g m" for g by (simp add: inst_settled_def same)
  ultimately show ?thesis
    by (simp add: all_done_def instances_done_def users_done_def identities_done_def destinations_done_def
        files_done_def triggers_done_def stats_done_def reminders_done_def staging_done_def same Let_def cong: if_cong)
qed

lemma tracked_same: "same_db n m \<Longrightarrow> tracked entity keys n = tracked entity keys m"
  by (simp add: tracked_def same_db_views(1) cong: if_cong)

text \<open>The passes of a second run, each over a database like the first run's last.\<close>

lemma rerun_instances:
  assumes "passInstances e n = Inr n'" and "instances_done e m" and "same_db n m" and "mg_Instances n = Map.empty"
  shows "same_db n' m \<and> before2 n' = before2 m"
proof -
  have same: "inst_settled e g k = inst_settled e g m" "inst_id g k = inst_id g m" if "same_db k m" for k g
    using same_db_views(2) [OF that] by (simp_all add: inst_settled_def inst_id_def)
  have db: "mg_Db n' = mg_Db n"
    by (rule passInstances_idle [OF assms(1)])
      (use assms(2) same [OF assms(3)] in \<open>simp_all add: instances_done_def\<close>)
  with same_db_trans [OF same_db_refl assms(3)] have n': "same_db n' m" by blast
  from passInstances_done [OF assms(1,4)] assms(2) same(2) [OF n'] same_db_views(2) [OF n'] n' show ?thesis
    by (simp add: instances_done_def before2_def cong: if_cong)
qed

lemma rerun_users:
  assumes "passUsers e n = Inr n'" and "users_done e m" and "same_db n m" and "before2 n = before2 m" and "mg_Users n = Map.empty"
  shows "same_db n' m \<and> before3 n' = before3 m"
proof -
  have "mg_Db n' = mg_Db n"
    by (rule passUsers_idle [OF assms(1)]) (use assms(2) same_db_views(1) [OF assms(3)] in \<open>simp add: users_done_def\<close>)
  with same_db_trans [OF same_db_refl assms(3)] have n': "same_db n' m" by blast
  from passUsers_done [OF assms(1,5)] assms(2,4) tracked_same [OF n'] same_db_views(1) [OF n'] n' pass_frames(1) [OF assms(1)]
  show ?thesis by (simp add: users_done_def before3_def)
qed

lemma rerun_identities:
  assumes "passPlatformUsers e n = Inr n'" and "identities_done e m" and "same_db n m" and "before3 n = before3 m"
    and "mg_PlatformUID n = Map.empty"
  shows "same_db n' m \<and> before4 n' = before4 m"
proof -
  have users: "mg_Users n = mg_Users m" "mg_Users n' = mg_Users m"
    using assms(4) pass_frames(2) [OF assms(1)] by (simp_all add: before3_def)
  have "mg_Db n' = mg_Db n"
    by (rule passPlatformUsers_idle [OF assms(1)])
      (use assms(2) same_db_views(1) [OF assms(3)] users in \<open>simp add: identities_done_def\<close>)
  with same_db_trans [OF same_db_refl assms(3)] have n': "same_db n' m" by blast
  from passPlatformUsers_done [OF assms(1,5)] assms(2,4) users same_db_views(1) [OF n'] n' pass_frames(2) [OF assms(1)]
  show ?thesis by (simp add: identities_done_def before4_def)
qed

lemma rerun_destinations:
  assumes "passDestinations e n = Inr n'" and "destinations_done e m" and "same_db n m" and "before4 n = before4 m"
    and "mg_Channels n = Map.empty"
  shows "same_db n' m \<and> before5 n' = before5 m"
proof -
  have row: "dest_row e dm key k = dest_row e dm key m" if "same_db k m" "before4 k = before4 m" for k dm key
    using same_db_views(3) [OF that(1)] instance_before4 [OF that(2)] by (simp add: dest_row_def)
  have uid: "mg_PlatformUID n = mg_PlatformUID m" using assms(4) by (simp add: before4_def)
  have "mg_Db n' = mg_Db n"
    by (rule passDestinations_idle [OF assms(1)])
      (use assms(2) row [OF assms(3,4)] uid in \<open>simp add: destinations_done_def Let_def\<close>)
  with same_db_trans [OF same_db_refl assms(3)] have n': "same_db n' m" by blast
  have b4: "before4 n' = before4 m" using pass_frames(3) [OF assms(1)] assms(4) by simp
  then have "mg_PlatformUID n' = mg_PlatformUID m" by (simp add: before4_def)
  with passDestinations_done [OF assms(1,5)] assms(2) row [OF n' b4] b4 same_db_views(3) [OF n'] n'
  show ?thesis by (simp add: destinations_done_def before5_def Let_def cong: if_cong)
qed

lemma rerun_files:
  assumes "passFiles e n = Inr n'" and "files_done e m" and "same_db n m" and "before5 n = before5 m" and "mg_Files n = Map.empty"
  shows "same_db n' m \<and> before6 n' = before6 m \<and> mg_Blobs n' = mg_Blobs n"
proof -
  have idle: "mg_Db n' = mg_Db n \<and> mg_Blobs n' = mg_Blobs n"
    by (rule passFiles_idle [OF assms(1)]) (use assms(2) same_db_views(1) [OF assms(3)] in \<open>simp add: files_done_def\<close>)
  with same_db_trans [OF same_db_refl assms(3)] have n': "same_db n' m" by blast
  from passFiles_done [OF assms(1,5)] assms(2,4) tracked_same [OF n'] same_db_views(1,5) [OF n'] n' pass_frames(4) [OF assms(1)] idle
  show ?thesis by (simp add: files_done_def before6_def)
qed

lemma rerun_triggers:
  assumes "passTriggers e n = Inr n'" and "triggers_done e m" and "same_db n m" and "before6 n = before6 m"
    and "mg_Triggers n = Map.empty" and "\<And>k u. me_Fresh e k = Some u \<Longrightarrow> u \<notin> t_ID ` set (triggers (md_Store (mg_Db m)))"
  shows "same_db n' m \<and> before7 n' = before7 m"
proof -
  have "same_db n' n"
    by (rule passTriggers_idle [OF assms(1)])
      (use assms(2,6) trigger_settled_same [OF assms(4,3)] same_db_views(6) [OF assms(3)] in \<open>simp_all add: triggers_done_def\<close>)
  then have n': "same_db n' m" using assms(3) by (rule same_db_trans)
  from passTriggers_done [OF assms(1,5)] assms(2,4) tracked_same [OF n'] same_db_views(1,6) [OF n'] n' pass_frames(5) [OF assms(1)]
  show ?thesis by (simp add: triggers_done_def before7_def)
qed

lemma rerun_stats:
  assumes "passTriggerStats e n = Inr n'" and "stats_done e m" and "same_db n m" and "before7 n = before7 m"
  shows "same_db n' m \<and> before8 n' = before8 m"
proof -
  have "mg_Triggers n = mg_Triggers m" using assms(4) by (simp add: before7_def)
  then have "mg_Db n' = mg_Db n" using assms(2) same_db_views(1) [OF assms(3)]
    by (intro passTriggerStats_idle [OF assms(1)]) (simp add: stats_done_def)
  with same_db_trans [OF same_db_refl assms(3)] have n': "same_db n' m" by blast
  with same_db_views(1) [OF n'] assms(4) pass_frames(6) [OF assms(1)] show ?thesis by (simp add: before8_def)
qed

lemma rerun_reminders:
  assumes "passReminders e n = Inr n'" and "reminders_done e m" and "same_db n m" and "before8 n = before8 m"
    and "mg_Reminders n = Map.empty"
  shows "same_db n' m"
proof -
  have "reminder_settled row n = reminder_settled row m" for row
    using assms(4) same_db_views(1) [OF assms(3)] by (simp add: reminder_settled_def before_defs)
  moreover have links: "mg_Reminders m = tracked ''reminder'' (row_keys e ''reminders'') n"
    using assms(2) tracked_same [OF assms(3)] by (simp add: reminders_done_def)
  ultimately have "mg_Db n' = mg_Db n"
    using assms(2) same_db_views(4) [OF assms(3)]
    by (intro passReminders_idle [OF assms(1) _ assms(5)], unfold links [symmetric]) (simp_all add: reminders_done_def Let_def)
  with same_db_trans [OF same_db_refl assms(3)] show ?thesis by blast
qed

lemma rerun_idle:
  assumes "all_done e m" and "run_passes (passes e) (start (mg_Db m) blobs) = Inr n"
    and "\<And>k u. me_Fresh e k = Some u \<Longrightarrow> u \<notin> t_ID ` set (triggers (md_Store (mg_Db m)))"
  shows "same_db n m \<and> mg_Blobs n = blobs"
proof -
  let ?n = "start (mg_Db m) blobs"
  obtain n1 n2 n3 n4 n5 n6 n7 n8 where
    p: "passInstances e ?n = Inr n1" "passUsers e n1 = Inr n2" "passPlatformUsers e n2 = Inr n3"
      "passDestinations e n3 = Inr n4" "passFiles e n4 = Inr n5" "passTriggers e n5 = Inr n6"
      "passTriggerStats e n6 = Inr n7" "passReminders e n7 = Inr n8" "passStaging e n8 = Inr n"
    using assms(2) by (auto simp: passes_def)
  note done_parts = assms(1) [unfolded all_done_def]
  note a = pass_afters(1) [OF p(1)] pass_afters(2) [OF p(2)] pass_afters(3) [OF p(3)] pass_afters(4) [OF p(4)]
    pass_afters(5) [OF p(5)] pass_afters(6) [OF p(6)] pass_afters(7) [OF p(7)]
  have empty: "mg_Users n1 = Map.empty" "mg_PlatformUID n2 = Map.empty" "mg_Channels n3 = Map.empty"
    "mg_Files n4 = Map.empty" "mg_Triggers n5 = Map.empty" "mg_Reminders n7 = Map.empty"
    using a run_maps_empty [of "mg_Db m" blobs] by (simp_all add: after_defs)
  have n0: "same_db ?n m" by (rule same_db_refl) (simp add: start_def)
  have n1: "same_db n1 m \<and> before2 n1 = before2 m"
    using rerun_instances [OF p(1) _ n0] done_parts run_maps_empty(1) by blast
  have n2: "same_db n2 m \<and> before3 n2 = before3 m" using rerun_users [OF p(2)] done_parts n1 empty(1) by blast
  have n3: "same_db n3 m \<and> before4 n3 = before4 m" using rerun_identities [OF p(3)] done_parts n2 empty(2) by blast
  have n4: "same_db n4 m \<and> before5 n4 = before5 m" using rerun_destinations [OF p(4)] done_parts n3 empty(3) by blast
  have n5: "same_db n5 m \<and> before6 n5 = before6 m \<and> mg_Blobs n5 = mg_Blobs n4"
    using rerun_files [OF p(5)] done_parts n4 empty(4) by blast
  have n6: "same_db n6 m \<and> before7 n6 = before7 m" using rerun_triggers [OF p(6)] done_parts n5 empty(5) assms(3) by blast
  have n7: "same_db n7 m \<and> before8 n7 = before8 m" using rerun_stats [OF p(7)] done_parts n6 by blast
  have n8: "same_db n8 m" using rerun_reminders [OF p(8)] done_parts n7 empty(6) by blast
  have "staging_done e n8" using done_parts same_db_views(7) [OF n8] by (simp add: staging_done_def staged_def)
  with passStaging_idle [OF p(9)] n8 have "same_db n m" using same_db_trans [OF same_db_refl] by blast
  moreover have "mg_Blobs n = blobs"
    using a n5 pass_afters(8) [OF p(8)] pass_afters(9) [OF p(9)] run_maps_empty(9) [of "mg_Db m" blobs]
    by (simp add: after_defs)
  ultimately show ?thesis by simp
qed



end
