(* ===== verification/Spec2Isabelle.thy ===== *)
theory Spec2Isabelle
  imports MediaStorage RpcClient DiscordNotify DiscordReposts DiscordSlash MigrateInvariant MigrateRerun
begin

text \<open>
  A verification library for GinBot, a chat bot in Go: a server that keeps reminders, auto-responder
  triggers, a repost index and accounts in PostgreSQL and a blob directory, platform clients that
  talk to it over Connect RPC, and a tool that migrates the tables of an older bot. Paths are
  relative to \<open>src/\<close>.

  \<^bold>\<open>The program and its parts.\<close> A chat event reaches \<open>pkg/discord\<close>, which parses it
  (\<open>pkg/command\<close>), runs a handler, and renders the answer. A handler calls the server through
  \<open>pkg/grpc/client\<close>; the caller and the place of the command travel as headers
  (\<open>pkg/grpc/callermeta\<close>). On the server the interceptors (\<open>pkg/grpc/interceptor\<close>) resolve the
  caller, check the clearance and resolve the origin before a handler of \<open>pkg/grpc/server\<close> runs over
  the statements of \<open>pkg/db\<close>. Cron jobs (\<open>pkg/cron/cronjob\<close>) claim due reminders, push them over
  the reverse stream (\<open>pkg/grpc/server/reverse.go\<close>) to the clients, and sweep files and the repost
  index. \<open>cmd/ginbot-migrate\<close> fills the same tables from a dump.

  \<^bold>\<open>How the model corresponds to the code.\<close> A struct is a record, an enum a datatype or its numbers,
  a table a list of row records, a Go map a map or an association list with distinct keys, an error a
  value of a sum (\<open>'a rpc\<close> is \<open>code \<times> string + 'a\<close>). A statement or transaction of the database is
  one step on the tables, and every call takes a predicate that says which statements fail. A method
  under a mutex is one step; handlers are not atomic where the code is not (\<open>TriggerCache\<close>,
  \<open>ReverseStream\<close> interleave the steps). Integers are written with their wrap-around
  (\<open>i64\<close>, \<open>i32\<close>) wherever the code computes with them; a Go string is a list of bytes. Definitions
  keep the code's names; a helper that stands for a part of a function has a name of its own.

  \<^item> \<open>GoPrelude\<close>, \<open>GoStrings\<close>, \<open>GoRunes\<close>, \<open>GoTime\<close>: Go's integers, strings, UTF-8, the calendar, and
    the combinators of fallible steps that all components use.
  \<^item> Reminders: \<open>ReminderDuration\<close> and \<open>ReminderParse\<close> (\<open>pkg/reminder/parse.go\<close>), \<open>ReminderSchedule\<close>
    (\<open>cron.go\<close>), \<open>ReminderStore\<close> and \<open>DestinationStore\<close> (\<open>pkg/db\<close>), \<open>ReminderDelivery\<close> (the life of a
    row), \<open>ReminderServer\<close> (the service and the cron job).
  \<^item> Triggers: \<open>TriggerMatch\<close> (\<open>pkg/trigger\<close>), \<open>TriggerRuntime\<close> (cache and limiter, with the interface
    of \<open>ExpiringMaps\<close>), \<open>TriggerStore\<close>, \<open>TriggerMedia\<close>, \<open>TriggerServer\<close> (store, files, service),
    \<open>TriggerAccess\<close>, \<open>TriggerPolicy\<close>, \<open>TriggerCache\<close> (properties of the service as a whole).
  \<^item> Reposts: \<open>UrlNorm\<close>, \<open>RepostGrade\<close>, \<open>RepostStore\<close>, \<open>RepostServer\<close>. Media: \<open>MediaFetch\<close>,
    \<open>MediaStorage\<close>. Accounts: \<open>UserStore\<close>, \<open>AccountServer\<close>.
  \<^item> The RPC boundary: \<open>RpcInterceptors\<close> (headers, clearance, origin, recovery), \<open>ReverseStream\<close> (the
    server's half of the action streams), \<open>RpcClient\<close> (retries, deadlines, reconnection).
  \<^item> Commands and Discord: \<open>CommandRegistry\<close>, \<open>CommandParse\<close> (\<open>pkg/command\<close>); \<open>DiscordRespond\<close>,
    \<open>DiscordUndo\<close>, \<open>DiscordCatalogue\<close>, \<open>DiscordStart\<close>, \<open>DiscordContext\<close>, \<open>DiscordTriggers\<close>,
    \<open>DiscordReminders\<close>, \<open>DiscordTools\<close> (the handlers, and the table of them), \<open>DiscordInteractions\<close>
    (the events), \<open>DiscordReposts\<close>, \<open>DiscordSlash\<close> (the menu and the handlers together),
    \<open>DiscordNotify\<close> (\<open>pkg/discord\<close>): the session is the log of
    the requests made, with a failure for each; the service clients are records of functions over the
    state behind them, which the end-to-end properties instantiate with the server's handlers.
  \<^item> Migration: \<open>MigrateDump\<close> (the dump reader), \<open>MigrateTool\<close> (the passes), \<open>MigrateSafety\<close>,
    \<open>MigrateInvariant\<close>, \<open>MigrateRerun\<close>.

  \<^bold>\<open>What the lemmas show.\<close>
  \<^item> Isolation: no request reads or changes what belongs to somebody else (reminders, triggers, reposts,
    accounts), every guarded procedure runs for an authenticated caller of sufficient clearance, and
    the interceptors' resolver is the accounts' table.
  \<^item> Invariants: the reminder and trigger tables in every reachable state, the candidate cache against the
    tables under interleaving, the order of events on a stream, and all of it through a migration.
  \<^item> Delivery: how often and how far apart a reminder is handed out, that a tick hands out what is due, that
    a notification is posted once where it belongs and that the confirmation settles the row.
  \<^item> Containment: the downloads' hosts and sizes, the keys of the blob directory, the parts of an answer,
    the mentions it may make.
  \<^item> Reference definitions: duration parsing, URL identities, the perceptual lookup, the undo windows and
    the dump reader agree with a simpler specification.
  \<^item> The Discord client end to end: the catalogue starts and answers to every name; what
    its menu offers is bound and dispatched to the command it came from; an interaction is
    acknowledged once and its handler runs once, after that; a fired trigger's post can be undone; a
    file is played back whole or not at all; \<open>/triggermod\<close> and \<open>/remind\<close> change the tables as they report; a
    comment on a repost quotes an older entry of somebody else.
  \<^item> The migration: a second run changes nothing, every row read is accounted for, and the tables stay
    well-formed.
  The interfaces of \<open>ExpiringMaps\<close> are locales: maps whose entries expire, interpreted on the limiter
  (\<open>TriggerRuntime\<close>) and on the undo windows (\<open>DiscordUndo\<close>), and a cache that reads through to a
  loader, interpreted on the candidate cache (\<open>TriggerRuntime\<close>).

  \<^bold>\<open>Bounds and fuel.\<close> A schedule is advanced at most \<open>maxScheduleAdvanceSteps\<close> = 4320 times, as in the
  code. Splitting a text (\<open>cut_line\<close>) is a partial function whose result is shown to exist for every
  positive limit. The matcher looks at \<open>MaxCandidates\<close> = 500 candidates, an origin cache holds 4096 entries, a client
  follows 5 redirects, a stream buffers 64 actions, a retention batch is 500 rows: all constants of the
  code. The reads of a file stream are a list, and the result \<open>None\<close> is a stream still running. Event
  sequences on a stream are assumed shorter than \<open>2 ^ 64\<close>.

  \<^bold>\<open>Parameters.\<close> Code that is not under \<open>src/\<close> is an argument: the regular expression engine, the cron
  library and the natural-date reader, the zone database, \<open>url.Parse\<close>, Unicode's case tables outside
  ASCII, the database's \<open>ILIKE\<close> and \<open>lower\<close>, the content sniffer, SHA-256, the image decoders with
  ffmpeg, the DCT hash and the entropy of an image, \<open>strconv.Quote\<close>, the random source, the HTTP
  transport and discordgo's connection.

  \<^bold>\<open>Not modelled.\<close> Log lines. Deadlines of calls, which show as an error of the call. The truncation of
  a stored time to microseconds, and other spellings of a uuid than the canonical one. The protobuf
  encoding (\<open>pkg/gen\<close> is generated; its messages appear as records). The session set-up of
  \<open>pkg/discord/discord.go\<close> and all of \<open>pkg/matrix\<close>, which only call their SDKs. \<open>RenderInZone\<close>, which
  only formats a time. Configuration, logging, the connection pool and the timers of the processes. In
  the migration, the report it prints, its flags, and the columns \<open>created_at\<close> and \<open>updated_at\<close>.
\<close>

end
